(* ===== verification/Prelude.thy ===== *)
theory Prelude
  imports Complex_Main "HOL-Library.Word" "HOL-Library.Sublist" "HOL-Library.Char_ord"
    "HOL-Library.List_Lexorder"
begin

text \<open>
  What every component of the development shares: floating-point comparisons, the model of a Go
  error and of a formatted message, and the functions of Go's \<open>strings\<close> package that the sources
  call, with their laws.

  A Go string is a sequence of bytes, and so is \<open>string\<close> here: one \<open>char\<close> is one byte.
  \<open>strings.HasPrefix\<close>, \<open>strings.HasSuffix\<close> and \<open>strings.Contains\<close> are
  \<open>prefix\<close>, \<open>suffix\<close> and \<open>sublist\<close> of the library.
\<close>

section \<open>Floating-point numbers\<close>

text \<open>
  A \<open>float64\<close> with the values Go's comparisons tell apart. A comparison with NaN is false. Only
  comparisons are modelled; no arithmetic on a \<open>float64\<close> is.
\<close>

datatype float64 = NaN | NegInf | PosInf | Finite rat

fun float_less :: "float64 \<Rightarrow> float64 \<Rightarrow> bool" where
  "float_less (Finite x) (Finite y) = (x < y)"
| "float_less NegInf (Finite y) = True"
| "float_less NegInf PosInf = True"
| "float_less (Finite x) PosInf = True"
| "float_less _ _ = False"

definition float_geq :: "float64 \<Rightarrow> float64 \<Rightarrow> bool" where
  "float_geq x y = (float_less y x \<or> x = y \<and> x \<noteq> NaN)"

lemma float_less_irrefl [simp]: "\<not> float_less x x"
  by (cases x) auto

lemma float_less_NaN [simp]: "\<not> float_less NaN x" "\<not> float_less x NaN"
  by (cases x; simp)+

lemma float_less_trans: "float_less x y \<Longrightarrow> float_less y z \<Longrightarrow> float_less x z"
  by (cases x; cases y; cases z) auto

lemma float_less_linear: "x \<noteq> NaN \<Longrightarrow> y \<noteq> NaN \<Longrightarrow> float_less x y \<or> x = y \<or> float_less y x"
  by (cases x; cases y) auto

lemma float_geq_not_less: "x \<noteq> NaN \<Longrightarrow> y \<noteq> NaN \<Longrightarrow> float_geq x y \<longleftrightarrow> \<not> float_less x y"
  using float_less_linear [of x y] float_less_trans [of x y x]
  by (auto simp: float_geq_def)

section \<open>Messages and errors\<close>

text \<open>
  A call \<open>fmt.Sprintf(format, args...)\<close> or \<open>fmt.Errorf(format, args...)\<close> is kept as its
  format and its arguments, so a message says exactly what the code says without a model of how
  \<open>fmt\<close> renders a verb. A Go \<open>error\<close> is \<open>None\<close> for \<open>nil\<close>.
\<close>

datatype msg = Fmt string "arg list"
and arg = AStr string | AInt int | AStrs "string list" | AInts "int list" | AFloat float64 | AMsg msg

type_synonym go_error = "msg option"

section \<open>Strings\<close>

text \<open>\<open>strings.Split\<close> on a separator of one byte.\<close>

fun split_byte :: "char \<Rightarrow> string \<Rightarrow> string list" where
  "split_byte c [] = [[]]"
| "split_byte c (x # xs) =
     (if x = c then [] # split_byte c xs
      else (case split_byte c xs of [] \<Rightarrow> [[x]] | y # ys \<Rightarrow> (x # y) # ys))"

text \<open>\<open>strings.Join\<close> with a separator of one byte.\<close>

fun join_byte :: "char \<Rightarrow> string list \<Rightarrow> string" where
  "join_byte c [] = []"
| "join_byte c [s] = s"
| "join_byte c (s # t # ss) = s @ c # join_byte c (t # ss)"

text \<open>\<open>strings.IndexByte\<close> and \<open>strings.LastIndexByte\<close>; \<open>None\<close> is the source's -1.\<close>

fun index_byte :: "char \<Rightarrow> string \<Rightarrow> nat option" where
  "index_byte c [] = None"
| "index_byte c (x # xs) = (if x = c then Some 0 else map_option Suc (index_byte c xs))"

fun last_index_byte :: "char \<Rightarrow> string \<Rightarrow> nat option" where
  "last_index_byte c [] = None"
| "last_index_byte c (x # xs) =
     (case last_index_byte c xs of
        Some i \<Rightarrow> Some (Suc i)
      | None \<Rightarrow> (if x = c then Some 0 else None))"

text \<open>\<open>strings.TrimSuffix\<close> and \<open>strings.CutSuffix\<close>.\<close>

definition trim_suffix :: "string \<Rightarrow> string \<Rightarrow> string" where
  "trim_suffix s suf = (if suffix suf s then take (length s - length suf) s else s)"

definition cut_suffix :: "string \<Rightarrow> string \<Rightarrow> string \<times> bool" where
  "cut_suffix s suf =
     (if suffix suf s then (take (length s - length suf) s, True) else (s, False))"

text \<open>\<open>strings.ToLower\<close> on ASCII text.\<close>

definition lower_byte :: "char \<Rightarrow> char" where
  "lower_byte c = (if CHR ''A'' \<le> c \<and> c \<le> CHR ''Z'' then char_of (of_char c + (32 :: nat)) else c)"

definition to_lower :: "string \<Rightarrow> string" where
  "to_lower s = map lower_byte s"

subsection \<open>Laws\<close>

lemma split_byte_not_Nil [simp]: "split_byte c s \<noteq> []"
  by (cases s) (auto split: list.splits)

lemma split_byte_no_sep: "seg \<in> set (split_byte c s) \<Longrightarrow> c \<notin> set seg"
  by (induction c s arbitrary: seg rule: split_byte.induct)
    (fastforce split: if_splits list.splits)+

lemma join_byte_Cons: "join_byte c (s # ss) = (if ss = [] then s else s @ c # join_byte c ss)"
  by (cases ss) auto

lemma join_split_byte [simp]: "join_byte c (split_byte c s) = s"
  by (induction c s rule: split_byte.induct)
    (auto simp: join_byte_Cons split: list.splits if_splits)

lemma split_byte_id: "c \<notin> set s \<Longrightarrow> split_byte c s = [s]"
  by (induction c s rule: split_byte.induct) auto

lemma split_byte_append:
  "c \<notin> set s \<Longrightarrow> split_byte c (s @ c # t) = s # split_byte c t"
  by (induction s) auto

lemma split_join_byte:
  "ss \<noteq> [] \<Longrightarrow> (\<forall>s \<in> set ss. c \<notin> set s) \<Longrightarrow> split_byte c (join_byte c ss) = ss"
  by (induction c ss rule: join_byte.induct) (auto simp: split_byte_id split_byte_append)

lemma split_byte_append_any: "split_byte c (s @ c # t) = split_byte c s @ split_byte c t"
  by (induction s) (auto split: list.splits)

lemma index_byte_None: "index_byte c s = None \<longleftrightarrow> c \<notin> set s"
  by (induction s) auto

lemma index_byte_Some: "index_byte c s = Some i \<Longrightarrow> i < length s \<and> s ! i = c \<and> c \<notin> set (take i s)"
proof (induction s arbitrary: i)
  case (Cons x s)
  then show ?case by (cases i) (auto split: if_splits)
qed simp

lemma index_byte_append: "c \<notin> set s \<Longrightarrow> index_byte c (s @ c # t) = Some (length s)"
  by (induction s) auto

lemma last_index_byte_None: "last_index_byte c s = None \<longleftrightarrow> c \<notin> set s"
  by (induction s) (auto split: option.splits)

lemma last_index_byte_append: "c \<notin> set t \<Longrightarrow> last_index_byte c (s @ c # t) = Some (length s)"
proof (induction s)
  case Nil
  then show ?case by (auto simp: last_index_byte_None [symmetric])
qed auto

lemma last_index_byte_Some:
  "last_index_byte c s = Some i \<Longrightarrow> i < length s \<and> s ! i = c \<and> c \<notin> set (drop (Suc i) s)"
proof (induction s arbitrary: i)
  case (Cons x s)
  then show ?case by (cases i) (auto split: option.splits if_splits simp: last_index_byte_None)
qed simp

lemma suffix_single [simp]: "suffix [c] s \<longleftrightarrow> s \<noteq> [] \<and> last s = c"
proof
  assume "s \<noteq> [] \<and> last s = c"
  then have "s = butlast s @ [c]" by auto
  then show "suffix [c] s" by (metis suffixI)
qed (auto simp: suffix_def)

section \<open>Lists\<close>

text \<open>A Go loop that returns the first element satisfying a test is \<open>find\<close>.\<close>

lemma find_append_first: "(\<forall>u \<in> set us. \<not> P u) \<Longrightarrow> find P (us @ vs) = find P vs"
  by (induction us) auto

lemma find_split:
  "find P xs = Some x \<longleftrightarrow> (\<exists>us vs. xs = us @ x # vs \<and> P x \<and> (\<forall>u \<in> set us. \<not> P u))"
proof
  assume "find P xs = Some x"
  then show "\<exists>us vs. xs = us @ x # vs \<and> P x \<and> (\<forall>u \<in> set us. \<not> P u)"
  proof (induction xs)
    case (Cons y ys)
    show ?case
    proof (cases "P y")
      case True
      with Cons.prems show ?thesis by (intro exI [of _ "[]"] exI [of _ ys]) simp
    next
      case False
      with Cons obtain us vs where "ys = us @ x # vs" "P x" "\<forall>u \<in> set us. \<not> P u" by auto
      with False show ?thesis by (intro exI [of _ "y # us"] exI [of _ vs]) simp
    qed
  qed simp
qed (auto simp: find_append_first)

lemma find_SomeD: "find P xs = Some x \<Longrightarrow> x \<in> set xs \<and> P x"
  by (auto simp: find_split)

lemma find_None_setD: "find P xs = None \<Longrightarrow> x \<in> set xs \<Longrightarrow> \<not> P x"
  by (auto simp: find_None_iff)

end
