(* ===== verification/Capability.thy ===== *)
theory Capability
  imports Prelude
begin

text \<open>
  The shared vocabulary (\<open>pkg/capability\<close>): capability kinds, their domains and severities,
  the descriptor table, grants, selectors and observations, the in-memory catalog and the
  package-level queries over the table.

  A Go string enum is a \<open>datatype\<close> with the source's constants and one more constructor,
  \<open>...Other s\<close>, for a value whose text \<open>s\<close> is none of them; the zero value, the empty
  string, is \<open>...Other []\<close>. \<open>kind_of_string\<close> reads a wire string into this form and
  \<open>kind_string\<close> writes it back.
\<close>

section \<open>Domains, kinds and severities\<close>

datatype domain =
    DomainFilesystem | DomainProcess | DomainNetwork | DomainPrivilege | DomainIPC | DomainKernel
  | DomainOther string

primrec domain_string :: "domain \<Rightarrow> string" where
    "domain_string DomainFilesystem = ''filesystem''"
  | "domain_string DomainProcess = ''process''"
  | "domain_string DomainNetwork = ''network''"
  | "domain_string DomainPrivilege = ''privilege''"
  | "domain_string DomainIPC = ''ipc''"
  | "domain_string DomainKernel = ''kernel''"
  | "domain_string (DomainOther s) = s"

datatype kind =
    KindFileRead | KindFileWrite | KindFileCreate
  | KindFileDelete | KindFileRename | KindFileChmod
  | KindFileChown | KindFileTruncate | KindFileLink
  | KindFileMount | KindProcessExec | KindProcessFork
  | KindProcessExit | KindProcessSignal | KindProcessPtrace
  | KindNetConnect | KindNetBind | KindNetListen
  | KindNetAccept | KindNetSend | KindNetReceive
  | KindNetDNS | KindNetRawSock | KindPrivEscalate
  | KindPrivSetuid | KindPrivCapSet | KindPrivNamespace
  | KindPrivSeccomp | KindIPCPipe | KindIPCSharedMem
  | KindIPCUnixSock | KindKernelModuleLoad | KindKernelBPFLoad
  | KindKernelKallsyms
  | KindOther string

primrec kind_string :: "kind \<Rightarrow> string" where
    "kind_string KindFileRead = ''fs.read''"
  | "kind_string KindFileWrite = ''fs.write''"
  | "kind_string KindFileCreate = ''fs.create''"
  | "kind_string KindFileDelete = ''fs.delete''"
  | "kind_string KindFileRename = ''fs.rename''"
  | "kind_string KindFileChmod = ''fs.chmod''"
  | "kind_string KindFileChown = ''fs.chown''"
  | "kind_string KindFileTruncate = ''fs.truncate''"
  | "kind_string KindFileLink = ''fs.link''"
  | "kind_string KindFileMount = ''fs.mount''"
  | "kind_string KindProcessExec = ''process.exec''"
  | "kind_string KindProcessFork = ''process.fork''"
  | "kind_string KindProcessExit = ''process.exit''"
  | "kind_string KindProcessSignal = ''process.signal''"
  | "kind_string KindProcessPtrace = ''process.ptrace''"
  | "kind_string KindNetConnect = ''net.connect''"
  | "kind_string KindNetBind = ''net.bind''"
  | "kind_string KindNetListen = ''net.listen''"
  | "kind_string KindNetAccept = ''net.accept''"
  | "kind_string KindNetSend = ''net.send''"
  | "kind_string KindNetReceive = ''net.receive''"
  | "kind_string KindNetDNS = ''net.dns''"
  | "kind_string KindNetRawSock = ''net.rawsocket''"
  | "kind_string KindPrivEscalate = ''priv.escalate''"
  | "kind_string KindPrivSetuid = ''priv.setuid''"
  | "kind_string KindPrivCapSet = ''priv.capset''"
  | "kind_string KindPrivNamespace = ''priv.namespace''"
  | "kind_string KindPrivSeccomp = ''priv.seccomp''"
  | "kind_string KindIPCPipe = ''ipc.pipe''"
  | "kind_string KindIPCSharedMem = ''ipc.sharedmem''"
  | "kind_string KindIPCUnixSock = ''ipc.unixsocket''"
  | "kind_string KindKernelModuleLoad = ''kernel.moduleload''"
  | "kind_string KindKernelBPFLoad = ''kernel.bpfload''"
  | "kind_string KindKernelKallsyms = ''kernel.kallsyms''"
  | "kind_string (KindOther s) = s"

datatype severity =
    SeverityInfo | SeverityLow | SeverityMedium | SeverityHigh | SeverityCritical
  | SeverityOther string

section \<open>Selectors, grants and observations\<close>

record selector =
  PathPatterns :: "string list"
  Hosts :: "string list"
  Ports :: "int list"
  Protocols :: "string list"
  Executables :: "string list"
  ArgPatterns :: "string list"
  MaxCount :: int

record grant =
  grantKind :: kind
  grantDomain :: domain
  grantSelector :: selector
  grantRationale :: string
  grantOptional :: bool

text \<open>\<open>Attributes\<close> is a Go map; reading a missing key gives the empty string (\<open>attr\<close>).\<close>

record observation =
  obsKind :: kind
  obsDomain :: domain
  obsTarget :: string
  obsAttributes :: "string \<rightharpoonup> string"

definition AttrProtocol :: string where "AttrProtocol = ''protocol''"
definition AttrDestIP :: string where "AttrDestIP = ''dest_ip''"
definition AttrPort :: string where "AttrPort = ''port''"
definition AttrHostnameCorrelated :: string where
  "AttrHostnameCorrelated = ''hostname_correlated''"
definition AttrArgv :: string where "AttrArgv = ''argv''"
definition AttrInterpreter :: string where "AttrInterpreter = ''interpreter''"
definition AttrNewPath :: string where "AttrNewPath = ''new_path''"

lemmas attr_key_defs =
  AttrProtocol_def AttrDestIP_def AttrPort_def AttrHostnameCorrelated_def AttrArgv_def
  AttrInterpreter_def AttrNewPath_def

definition attr :: "observation \<Rightarrow> string \<Rightarrow> string" where
  "attr obs k = (case obsAttributes obs k of None \<Rightarrow> [] | Some v \<Rightarrow> v)"

definition empty_selector :: selector where
  "empty_selector = \<lparr>PathPatterns = [], Hosts = [], Ports = [], Protocols = [], Executables = [],
     ArgPatterns = [], MaxCount = 0\<rparr>"

section \<open>The descriptor table\<close>

record descriptor =
  descKind :: kind
  descDomain :: domain
  descSummary :: string
  descBaselineSeverity :: severity
  descSyscalls :: "string list"

definition filesystem_descriptors :: "descriptor list" where
  "filesystem_descriptors =
    [\<lparr>descKind = KindFileRead, descDomain = DomainFilesystem,
       descSummary = ''Read the contents of a file.'',
       descBaselineSeverity = SeverityLow,
       descSyscalls =
         [''open'', ''openat'', ''openat2'', ''creat'', ''open_by_handle_at'',
          ''io_uring'', ''read'', ''pread64'', ''readv'', ''preadv'', ''mmap'']\<rparr>,
     \<lparr>descKind = KindFileWrite, descDomain = DomainFilesystem,
       descSummary = ''Modify the contents of an existing file.'',
       descBaselineSeverity = SeverityMedium,
       descSyscalls =
         [''open'', ''openat'', ''openat2'', ''creat'', ''open_by_handle_at'',
          ''io_uring'', ''write'', ''pwrite64'', ''writev'', ''pwritev'']\<rparr>,
     \<lparr>descKind = KindFileCreate, descDomain = DomainFilesystem,
       descSummary = ''Create a new file or directory.'',
       descBaselineSeverity = SeverityMedium,
       descSyscalls =
         [''open'', ''openat'', ''openat2'', ''creat'', ''io_uring'', ''mkdir'',
          ''mkdirat'', ''mknod'', ''mknodat'']\<rparr>,
     \<lparr>descKind = KindFileDelete, descDomain = DomainFilesystem,
       descSummary = ''Remove a file or directory.'',
       descBaselineSeverity = SeverityHigh,
       descSyscalls =
         [''unlink'', ''unlinkat'', ''rmdir'']\<rparr>,
     \<lparr>descKind = KindFileRename, descDomain = DomainFilesystem,
       descSummary = ''Rename or move a file, changing what a path refers to.'',
       descBaselineSeverity = SeverityMedium,
       descSyscalls =
         [''rename'', ''renameat'', ''renameat2'']\<rparr>,
     \<lparr>descKind = KindFileChmod, descDomain = DomainFilesystem,
       descSummary = ''Change a file'' @ [CHR 0x27] @ ''s permission bits.'',
       descBaselineSeverity = SeverityHigh,
       descSyscalls =
         [''chmod'', ''fchmod'', ''fchmodat'', ''fchmodat2'']\<rparr>,
     \<lparr>descKind = KindFileChown, descDomain = DomainFilesystem,
       descSummary = ''Change a file'' @ [CHR 0x27] @ ''s owning user or group.'',
       descBaselineSeverity = SeverityHigh,
       descSyscalls =
         [''chown'', ''fchown'', ''lchown'', ''fchownat'']\<rparr>,
     \<lparr>descKind = KindFileTruncate, descDomain = DomainFilesystem,
       descSummary = ''Discard part or all of a file'' @ [CHR 0x27] @ ''s contents in place.'',
       descBaselineSeverity = SeverityHigh,
       descSyscalls =
         [''truncate'', ''ftruncate'']\<rparr>,
     \<lparr>descKind = KindFileLink, descDomain = DomainFilesystem,
       descSummary = ''Create a hard or symbolic link.'',
       descBaselineSeverity = SeverityHigh,
       descSyscalls =
         [''link'', ''linkat'', ''symlink'', ''symlinkat'', ''io_uring'']\<rparr>,
     \<lparr>descKind = KindFileMount, descDomain = DomainFilesystem,
       descSummary = ''Attach or detach a filesystem, changing what paths resolve to.'',
       descBaselineSeverity = SeverityCritical,
       descSyscalls =
         [''mount'', ''umount2'', ''move_mount'', ''fsmount'', ''pivot_root'']\<rparr>]"

definition process_descriptors :: "descriptor list" where
  "process_descriptors =
    [\<lparr>descKind = KindProcessExec, descDomain = DomainProcess,
       descSummary = ''Execute a new program image.'',
       descBaselineSeverity = SeverityMedium,
       descSyscalls =
         [''execve'', ''execveat'']\<rparr>,
     \<lparr>descKind = KindProcessFork, descDomain = DomainProcess,
       descSummary = ''Create a child process.'',
       descBaselineSeverity = SeverityInfo,
       descSyscalls =
         [''fork'', ''vfork'', ''clone'', ''clone3'']\<rparr>,
     \<lparr>descKind = KindProcessExit, descDomain = DomainProcess,
       descSummary = ''Process termination.'',
       descBaselineSeverity = SeverityInfo,
       descSyscalls =
         [''exit'', ''exit_group'']\<rparr>,
     \<lparr>descKind = KindProcessSignal, descDomain = DomainProcess,
       descSummary = ''Send a signal to another process.'',
       descBaselineSeverity = SeverityMedium,
       descSyscalls =
         [''kill'', ''tkill'', ''tgkill'', ''pidfd_send_signal'']\<rparr>,
     \<lparr>descKind = KindProcessPtrace, descDomain = DomainProcess,
       descSummary = ''Attach to another process to inspect or control it.'',
       descBaselineSeverity = SeverityCritical,
       descSyscalls =
         [''ptrace'', ''process_vm_readv'', ''process_vm_writev'']\<rparr>]"

definition network_descriptors :: "descriptor list" where
  "network_descriptors =
    [\<lparr>descKind = KindNetConnect, descDomain = DomainNetwork,
       descSummary = ''Open an outbound connection to a remote endpoint.'',
       descBaselineSeverity = SeverityHigh,
       descSyscalls =
         [''connect'', ''io_uring'', ''sendto'', ''sendmsg'']\<rparr>,
     \<lparr>descKind = KindNetBind, descDomain = DomainNetwork,
       descSummary = ''Bind a socket to a local address and port.'',
       descBaselineSeverity = SeverityMedium,
       descSyscalls =
         [''bind'']\<rparr>,
     \<lparr>descKind = KindNetListen, descDomain = DomainNetwork,
       descSummary = ''Mark a socket as accepting inbound connections.'',
       descBaselineSeverity = SeverityMedium,
       descSyscalls =
         [''listen'']\<rparr>,
     \<lparr>descKind = KindNetAccept, descDomain = DomainNetwork,
       descSummary = ''Accept an inbound connection.'',
       descBaselineSeverity = SeverityMedium,
       descSyscalls =
         [''accept'', ''accept4'']\<rparr>,
     \<lparr>descKind = KindNetSend, descDomain = DomainNetwork,
       descSummary = ''Transmit data over a socket. Volume is the exfiltration signal.'',
       descBaselineSeverity = SeverityHigh,
       descSyscalls =
         [''send'', ''sendto'', ''sendmsg'', ''sendmmsg'', ''write'', ''io_uring'']\<rparr>,
     \<lparr>descKind = KindNetReceive, descDomain = DomainNetwork,
       descSummary = ''Receive data over a socket.'',
       descBaselineSeverity = SeverityMedium,
       descSyscalls =
         [''recv'', ''recvfrom'', ''recvmsg'', ''recvmmsg'', ''read'']\<rparr>,
     \<lparr>descKind = KindNetDNS, descDomain = DomainNetwork,
       descSummary = ''Resolve a hostname. Observed mainly to correlate later connections.'',
       descBaselineSeverity = SeverityLow,
       descSyscalls =
         [''sendto'', ''sendmsg'', ''recvfrom'', ''recvmsg'']\<rparr>,
     \<lparr>descKind = KindNetRawSock, descDomain = DomainNetwork,
       descSummary = ''Create a raw or packet socket, bypassing normal protocol handling.'',
       descBaselineSeverity = SeverityCritical,
       descSyscalls =
         [''socket'']\<rparr>]"

definition privilege_descriptors :: "descriptor list" where
  "privilege_descriptors =
    [\<lparr>descKind = KindPrivEscalate, descDomain = DomainPrivilege,
       descSummary = ''Gain privileges, by any mechanism.'',
       descBaselineSeverity = SeverityCritical,
       descSyscalls =
         [''setuid'', ''setreuid'', ''setresuid'', ''capset'']\<rparr>,
     \<lparr>descKind = KindPrivSetuid, descDomain = DomainPrivilege,
       descSummary = ''Change the process'' @ [CHR 0x27] @ ''s user or group identity.'',
       descBaselineSeverity = SeverityCritical,
       descSyscalls =
         [''setuid'', ''setgid'', ''setreuid'', ''setregid'', ''setresuid'',
          ''setresgid'', ''setgroups'']\<rparr>,
     \<lparr>descKind = KindPrivCapSet, descDomain = DomainPrivilege,
       descSummary = ''Modify the process'' @ [CHR 0x27] @ ''s Linux capability sets.'',
       descBaselineSeverity = SeverityCritical,
       descSyscalls =
         [''capset'']\<rparr>,
     \<lparr>descKind = KindPrivNamespace, descDomain = DomainPrivilege,
       descSummary = ''Create or enter a namespace, changing the process'' @ [CHR 0x27] @ ''s view of the system.'',
       descBaselineSeverity = SeverityCritical,
       descSyscalls =
         [''unshare'', ''setns'', ''clone'', ''clone3'']\<rparr>,
     \<lparr>descKind = KindPrivSeccomp, descDomain = DomainPrivilege,
       descSummary = ''Install a seccomp filter, altering syscall behavior for the process tree.'',
       descBaselineSeverity = SeverityHigh,
       descSyscalls =
         [''seccomp'', ''prctl'']\<rparr>]"

definition ipc_descriptors :: "descriptor list" where
  "ipc_descriptors =
    [\<lparr>descKind = KindIPCPipe, descDomain = DomainIPC,
       descSummary = ''Create a pipe or FIFO.'',
       descBaselineSeverity = SeverityLow,
       descSyscalls =
         [''pipe'', ''pipe2'', ''mkfifo'', ''mknod'', ''mknodat'']\<rparr>,
     \<lparr>descKind = KindIPCSharedMem, descDomain = DomainIPC,
       descSummary = ''Create or attach shared memory.'',
       descBaselineSeverity = SeverityMedium,
       descSyscalls =
         [''shmget'', ''shmat'', ''memfd_create'', ''mmap'']\<rparr>,
     \<lparr>descKind = KindIPCUnixSock, descDomain = DomainIPC,
       descSummary = ''Connect to or create a Unix domain socket.'',
       descBaselineSeverity = SeverityMedium,
       descSyscalls =
         [''socket'', ''connect'', ''bind'']\<rparr>]"

definition kernel_descriptors :: "descriptor list" where
  "kernel_descriptors =
    [\<lparr>descKind = KindKernelModuleLoad, descDomain = DomainKernel,
       descSummary = ''Load a kernel module.'',
       descBaselineSeverity = SeverityCritical,
       descSyscalls =
         [''init_module'', ''finit_module'', ''delete_module'']\<rparr>,
     \<lparr>descKind = KindKernelBPFLoad, descDomain = DomainKernel,
       descSummary = ''Load an eBPF program or map. An agent doing this may be attacking the monitor.'',
       descBaselineSeverity = SeverityCritical,
       descSyscalls =
         [''bpf'']\<rparr>,
     \<lparr>descKind = KindKernelKallsyms, descDomain = DomainKernel,
       descSummary = ''Read kernel symbol addresses, the usual precursor to kernel memory manipulation.'',
       descBaselineSeverity = SeverityCritical,
       descSyscalls =
         [''open'', ''openat'', ''openat2'']\<rparr>]"

definition descriptors :: "descriptor list" where
  "descriptors = filesystem_descriptors @ process_descriptors @ network_descriptors @
     privilege_descriptors @ ipc_descriptors @ kernel_descriptors"

lemmas descriptor_table =
  descriptors_def filesystem_descriptors_def process_descriptors_def network_descriptors_def
  privilege_descriptors_def ipc_descriptors_def kernel_descriptors_def

section \<open>Package-level queries\<close>

definition AllKinds :: "kind list" where
  "AllKinds = map descKind descriptors"

text \<open>The index is filled row by row, so a later row would overwrite an earlier one.\<close>

definition index_rows :: "descriptor list \<Rightarrow> (kind \<rightharpoonup> descriptor)" where
  "index_rows ds = foldl (\<lambda>m d. m(descKind d \<mapsto> d)) Map.empty ds"

definition kindIndex :: "kind \<rightharpoonup> descriptor" where
  "kindIndex = index_rows descriptors"

definition Known :: "kind \<Rightarrow> bool" where
  "Known k = (kindIndex k \<noteq> None)"

definition Describe :: "kind \<Rightarrow> descriptor option" where
  "Describe k = kindIndex k"

definition DomainOf :: "kind \<Rightarrow> domain option" where
  "DomainOf k = map_option descDomain (kindIndex k)"

definition ValidateKind :: "kind \<Rightarrow> go_error" where
  "ValidateKind k =
     (if kind_string k = [] then Some (Fmt ''capability kind is empty'' [])
      else if \<not> Known k then
        Some (Fmt ''unknown capability kind %q: not in the capability catalog''
                [AStr (kind_string k)])
      else None)"

definition KindsInDomain :: "domain \<Rightarrow> kind list" where
  "KindsInDomain d = map descKind (filter (\<lambda>desc. descDomain desc = d) descriptors)"

fun domains_seen :: "domain list \<Rightarrow> descriptor list \<Rightarrow> domain list" where
  "domains_seen seen [] = []"
| "domains_seen seen (d # ds) =
     (if descDomain d \<in> set seen then domains_seen seen ds
      else descDomain d # domains_seen (descDomain d # seen) ds)"

definition AllDomains :: "domain list" where
  "AllDomains = sort_key domain_string (domains_seen [] descriptors)"

text \<open>Reading a wire string: the constant with that text, or \<open>KindOther\<close>.\<close>

definition kind_of_string :: "string \<Rightarrow> kind" where
  "kind_of_string s =
     (case find (\<lambda>k. kind_string k = s) AllKinds of Some k \<Rightarrow> k | None \<Rightarrow> KindOther s)"

section \<open>The in-memory catalog\<close>

record catalog =
  catByKind :: "kind \<rightharpoonup> descriptor"
  catOrder :: "kind list"
  catObservable :: "kind \<rightharpoonup> bool"

definition observable_set :: "(kind \<rightharpoonup> descriptor) \<Rightarrow> kind list \<Rightarrow> (kind \<rightharpoonup> bool)" where
  "observable_set byKind ks =
     foldl (\<lambda>m k. if byKind k \<noteq> None then m(k \<mapsto> True) else m) Map.empty ks"

definition NewCatalog :: "kind list \<Rightarrow> catalog" where
  "NewCatalog observable =
     (let byKind = index_rows descriptors
      in \<lparr>catByKind = byKind, catOrder = map descKind descriptors,
          catObservable = observable_set byKind observable\<rparr>)"

definition NewCatalogAllObservable :: catalog where
  "NewCatalogAllObservable = NewCatalog AllKinds"

definition catKinds :: "catalog \<Rightarrow> kind list" where
  "catKinds c = catOrder c"

definition catLookup :: "catalog \<Rightarrow> kind \<Rightarrow> descriptor option" where
  "catLookup c k = catByKind c k"

definition catIsObservable :: "catalog \<Rightarrow> kind \<Rightarrow> bool" where
  "catIsObservable c k = (catObservable c k = Some True)"

definition SetObservable :: "catalog \<Rightarrow> kind list \<Rightarrow> catalog" where
  "SetObservable c kinds = c\<lparr>catObservable := observable_set (catByKind c) kinds\<rparr>"

definition ObservableKinds :: "catalog \<Rightarrow> kind list" where
  "ObservableKinds c = filter (\<lambda>k. catObservable c k = Some True) (catOrder c)"

section \<open>Facts about the table\<close>

lemma AllKinds_list: "AllKinds = [KindFileRead, KindFileWrite, KindFileCreate, KindFileDelete, KindFileRename, KindFileChmod, KindFileChown, KindFileTruncate, KindFileLink, KindFileMount, KindProcessExec, KindProcessFork, KindProcessExit, KindProcessSignal, KindProcessPtrace, KindNetConnect, KindNetBind, KindNetListen, KindNetAccept, KindNetSend, KindNetReceive, KindNetDNS, KindNetRawSock, KindPrivEscalate, KindPrivSetuid, KindPrivCapSet, KindPrivNamespace, KindPrivSeccomp, KindIPCPipe, KindIPCSharedMem, KindIPCUnixSock, KindKernelModuleLoad, KindKernelBPFLoad, KindKernelKallsyms]"
  by (simp add: AllKinds_def descriptor_table)

lemma distinct_AllKinds: "distinct AllKinds"
  by (simp add: AllKinds_list)

lemma index_rows_snoc: "index_rows (ds @ [d]) = (index_rows ds)(descKind d \<mapsto> d)"
  by (simp add: index_rows_def)

lemma index_rows_None: "index_rows ds k = None \<longleftrightarrow> k \<notin> descKind ` set ds"
  by (induction ds rule: rev_induct) (auto simp: index_rows_def)

lemma index_rows_Some:
  "distinct (map descKind ds) \<Longrightarrow> index_rows ds k = Some d \<longleftrightarrow> d \<in> set ds \<and> descKind d = k"
proof (induction ds rule: rev_induct)
  case (snoc e ds)
  then have "index_rows ds k = Some d \<longleftrightarrow> d \<in> set ds \<and> descKind d = k"
    and "\<forall>d' \<in> set ds. descKind d' \<noteq> descKind e" by (auto simp: image_iff)
  then show ?case by (auto simp: index_rows_snoc)
qed (simp add: index_rows_def)

lemma kindIndex_Some: "kindIndex k = Some d \<longleftrightarrow> d \<in> set descriptors \<and> descKind d = k"
  unfolding kindIndex_def
  using distinct_AllKinds by (intro index_rows_Some) (simp add: AllKinds_def)

lemma kindIndex_None: "kindIndex k = None \<longleftrightarrow> k \<notin> set AllKinds"
  by (simp add: kindIndex_def index_rows_None AllKinds_def)

lemma Known_iff_AllKinds: "Known k \<longleftrightarrow> k \<in> set AllKinds"
  by (simp add: Known_def kindIndex_None)

lemma Known_simps [simp]: "Known (KindOther s) = False"
  by (simp add: Known_iff_AllKinds AllKinds_list)

lemma not_KindOther_Known: "(\<forall>s. k \<noteq> KindOther s) \<Longrightarrow> Known k"
  by (cases k) (simp_all add: Known_iff_AllKinds AllKinds_list)

lemma DomainOf_None: "DomainOf k = None \<longleftrightarrow> \<not> Known k"
  by (simp add: DomainOf_def Known_def)

lemma DomainOf_Other [simp]: "DomainOf (KindOther s) = None"
  by (simp add: DomainOf_None)

text \<open>
  A column of the table, read through the index, is an association-list lookup; the two columns
  the program consults are evaluated once here.
\<close>

lemma kindIndex_column:
  "map_option f (kindIndex k) = map_of (map (\<lambda>d. (descKind d, f d)) descriptors) k"
proof (cases "kindIndex k")
  case None
  then have "map_of (map (\<lambda>d. (descKind d, f d)) descriptors) k = None"
    by (auto simp: kindIndex_None AllKinds_def map_of_eq_None_iff)
  with None show ?thesis by simp
next
  case (Some d)
  have "distinct (map fst (map (\<lambda>d. (descKind d, f d)) descriptors))"
    using distinct_AllKinds by (simp add: AllKinds_def comp_def)
  moreover from Some have "(k, f d) \<in> set (map (\<lambda>d. (descKind d, f d)) descriptors)"
    by (auto simp: kindIndex_Some)
  ultimately have "map_of (map (\<lambda>d. (descKind d, f d)) descriptors) k = Some (f d)"
    by (rule map_of_is_SomeI)
  with Some show ?thesis by simp
qed

lemma domain_column:
  "map (\<lambda>d. (descKind d, descDomain d)) descriptors =
    [(KindFileRead, DomainFilesystem),
     (KindFileWrite, DomainFilesystem),
     (KindFileCreate, DomainFilesystem),
     (KindFileDelete, DomainFilesystem),
     (KindFileRename, DomainFilesystem),
     (KindFileChmod, DomainFilesystem),
     (KindFileChown, DomainFilesystem),
     (KindFileTruncate, DomainFilesystem),
     (KindFileLink, DomainFilesystem),
     (KindFileMount, DomainFilesystem),
     (KindProcessExec, DomainProcess),
     (KindProcessFork, DomainProcess),
     (KindProcessExit, DomainProcess),
     (KindProcessSignal, DomainProcess),
     (KindProcessPtrace, DomainProcess),
     (KindNetConnect, DomainNetwork),
     (KindNetBind, DomainNetwork),
     (KindNetListen, DomainNetwork),
     (KindNetAccept, DomainNetwork),
     (KindNetSend, DomainNetwork),
     (KindNetReceive, DomainNetwork),
     (KindNetDNS, DomainNetwork),
     (KindNetRawSock, DomainNetwork),
     (KindPrivEscalate, DomainPrivilege),
     (KindPrivSetuid, DomainPrivilege),
     (KindPrivCapSet, DomainPrivilege),
     (KindPrivNamespace, DomainPrivilege),
     (KindPrivSeccomp, DomainPrivilege),
     (KindIPCPipe, DomainIPC),
     (KindIPCSharedMem, DomainIPC),
     (KindIPCUnixSock, DomainIPC),
     (KindKernelModuleLoad, DomainKernel),
     (KindKernelBPFLoad, DomainKernel),
     (KindKernelKallsyms, DomainKernel)]"
  by (simp add: descriptor_table)

lemma severity_column:
  "map (\<lambda>d. (descKind d, descBaselineSeverity d)) descriptors =
    [(KindFileRead, SeverityLow),
     (KindFileWrite, SeverityMedium),
     (KindFileCreate, SeverityMedium),
     (KindFileDelete, SeverityHigh),
     (KindFileRename, SeverityMedium),
     (KindFileChmod, SeverityHigh),
     (KindFileChown, SeverityHigh),
     (KindFileTruncate, SeverityHigh),
     (KindFileLink, SeverityHigh),
     (KindFileMount, SeverityCritical),
     (KindProcessExec, SeverityMedium),
     (KindProcessFork, SeverityInfo),
     (KindProcessExit, SeverityInfo),
     (KindProcessSignal, SeverityMedium),
     (KindProcessPtrace, SeverityCritical),
     (KindNetConnect, SeverityHigh),
     (KindNetBind, SeverityMedium),
     (KindNetListen, SeverityMedium),
     (KindNetAccept, SeverityMedium),
     (KindNetSend, SeverityHigh),
     (KindNetReceive, SeverityMedium),
     (KindNetDNS, SeverityLow),
     (KindNetRawSock, SeverityCritical),
     (KindPrivEscalate, SeverityCritical),
     (KindPrivSetuid, SeverityCritical),
     (KindPrivCapSet, SeverityCritical),
     (KindPrivNamespace, SeverityCritical),
     (KindPrivSeccomp, SeverityHigh),
     (KindIPCPipe, SeverityLow),
     (KindIPCSharedMem, SeverityMedium),
     (KindIPCUnixSock, SeverityMedium),
     (KindKernelModuleLoad, SeverityCritical),
     (KindKernelBPFLoad, SeverityCritical),
     (KindKernelKallsyms, SeverityCritical)]"
  by (simp add: descriptor_table)

lemma DomainOf_rows:
  "DomainOf KindFileRead = Some DomainFilesystem"
  "DomainOf KindFileWrite = Some DomainFilesystem"
  "DomainOf KindFileCreate = Some DomainFilesystem"
  "DomainOf KindFileDelete = Some DomainFilesystem"
  "DomainOf KindFileRename = Some DomainFilesystem"
  "DomainOf KindFileChmod = Some DomainFilesystem"
  "DomainOf KindFileChown = Some DomainFilesystem"
  "DomainOf KindFileTruncate = Some DomainFilesystem"
  "DomainOf KindFileLink = Some DomainFilesystem"
  "DomainOf KindFileMount = Some DomainFilesystem"
  "DomainOf KindProcessExec = Some DomainProcess"
  "DomainOf KindProcessFork = Some DomainProcess"
  "DomainOf KindProcessExit = Some DomainProcess"
  "DomainOf KindProcessSignal = Some DomainProcess"
  "DomainOf KindProcessPtrace = Some DomainProcess"
  "DomainOf KindNetConnect = Some DomainNetwork"
  "DomainOf KindNetBind = Some DomainNetwork"
  "DomainOf KindNetListen = Some DomainNetwork"
  "DomainOf KindNetAccept = Some DomainNetwork"
  "DomainOf KindNetSend = Some DomainNetwork"
  "DomainOf KindNetReceive = Some DomainNetwork"
  "DomainOf KindNetDNS = Some DomainNetwork"
  "DomainOf KindNetRawSock = Some DomainNetwork"
  "DomainOf KindPrivEscalate = Some DomainPrivilege"
  "DomainOf KindPrivSetuid = Some DomainPrivilege"
  "DomainOf KindPrivCapSet = Some DomainPrivilege"
  "DomainOf KindPrivNamespace = Some DomainPrivilege"
  "DomainOf KindPrivSeccomp = Some DomainPrivilege"
  "DomainOf KindIPCPipe = Some DomainIPC"
  "DomainOf KindIPCSharedMem = Some DomainIPC"
  "DomainOf KindIPCUnixSock = Some DomainIPC"
  "DomainOf KindKernelModuleLoad = Some DomainKernel"
  "DomainOf KindKernelBPFLoad = Some DomainKernel"
  "DomainOf KindKernelKallsyms = Some DomainKernel"
  by (simp_all add: DomainOf_def kindIndex_column domain_column)

declare DomainOf_rows [simp]

lemma Describe_Other [simp]: "Describe (KindOther s) = None"
  using Known_simps by (simp add: Describe_def Known_def)

lemma baseline_rows:
  "map_option descBaselineSeverity (Describe KindFileRead) = Some SeverityLow"
  "map_option descBaselineSeverity (Describe KindFileWrite) = Some SeverityMedium"
  "map_option descBaselineSeverity (Describe KindFileCreate) = Some SeverityMedium"
  "map_option descBaselineSeverity (Describe KindFileDelete) = Some SeverityHigh"
  "map_option descBaselineSeverity (Describe KindFileRename) = Some SeverityMedium"
  "map_option descBaselineSeverity (Describe KindFileChmod) = Some SeverityHigh"
  "map_option descBaselineSeverity (Describe KindFileChown) = Some SeverityHigh"
  "map_option descBaselineSeverity (Describe KindFileTruncate) = Some SeverityHigh"
  "map_option descBaselineSeverity (Describe KindFileLink) = Some SeverityHigh"
  "map_option descBaselineSeverity (Describe KindFileMount) = Some SeverityCritical"
  "map_option descBaselineSeverity (Describe KindProcessExec) = Some SeverityMedium"
  "map_option descBaselineSeverity (Describe KindProcessFork) = Some SeverityInfo"
  "map_option descBaselineSeverity (Describe KindProcessExit) = Some SeverityInfo"
  "map_option descBaselineSeverity (Describe KindProcessSignal) = Some SeverityMedium"
  "map_option descBaselineSeverity (Describe KindProcessPtrace) = Some SeverityCritical"
  "map_option descBaselineSeverity (Describe KindNetConnect) = Some SeverityHigh"
  "map_option descBaselineSeverity (Describe KindNetBind) = Some SeverityMedium"
  "map_option descBaselineSeverity (Describe KindNetListen) = Some SeverityMedium"
  "map_option descBaselineSeverity (Describe KindNetAccept) = Some SeverityMedium"
  "map_option descBaselineSeverity (Describe KindNetSend) = Some SeverityHigh"
  "map_option descBaselineSeverity (Describe KindNetReceive) = Some SeverityMedium"
  "map_option descBaselineSeverity (Describe KindNetDNS) = Some SeverityLow"
  "map_option descBaselineSeverity (Describe KindNetRawSock) = Some SeverityCritical"
  "map_option descBaselineSeverity (Describe KindPrivEscalate) = Some SeverityCritical"
  "map_option descBaselineSeverity (Describe KindPrivSetuid) = Some SeverityCritical"
  "map_option descBaselineSeverity (Describe KindPrivCapSet) = Some SeverityCritical"
  "map_option descBaselineSeverity (Describe KindPrivNamespace) = Some SeverityCritical"
  "map_option descBaselineSeverity (Describe KindPrivSeccomp) = Some SeverityHigh"
  "map_option descBaselineSeverity (Describe KindIPCPipe) = Some SeverityLow"
  "map_option descBaselineSeverity (Describe KindIPCSharedMem) = Some SeverityMedium"
  "map_option descBaselineSeverity (Describe KindIPCUnixSock) = Some SeverityMedium"
  "map_option descBaselineSeverity (Describe KindKernelModuleLoad) = Some SeverityCritical"
  "map_option descBaselineSeverity (Describe KindKernelBPFLoad) = Some SeverityCritical"
  "map_option descBaselineSeverity (Describe KindKernelKallsyms) = Some SeverityCritical"
  by (simp_all add: Describe_def kindIndex_column severity_column)

lemma kind_string_inj_known:
  "k \<in> set AllKinds \<Longrightarrow> k' \<in> set AllKinds \<Longrightarrow> kind_string k = kind_string k' \<Longrightarrow> k = k'"
proof -
  have "distinct (map kind_string AllKinds)" by (simp add: AllKinds_list)
  then have "inj_on kind_string (set AllKinds)" by (simp add: distinct_map)
  then show "k \<in> set AllKinds \<Longrightarrow> k' \<in> set AllKinds \<Longrightarrow> kind_string k = kind_string k' \<Longrightarrow> k = k'"
    by (simp add: inj_on_def)
qed

lemma observable_set_Some:
  "observable_set byKind ks k = (if byKind k \<noteq> None \<and> k \<in> set ks then Some True else None)"
proof -
  have "foldl (\<lambda>m k. if byKind k \<noteq> None then m(k \<mapsto> True) else m) m0 ks k =
      (if byKind k \<noteq> None \<and> k \<in> set ks then Some True else m0 k)" for m0
    by (induction ks arbitrary: m0) auto
  then show ?thesis by (simp add: observable_set_def)
qed

lemma index_rows_descriptors: "index_rows descriptors = kindIndex"
  by (simp add: kindIndex_def)

section \<open>Properties\<close>

text \<open>the catalog's view of what the host can observe is exactly what it was last told, cut
  down to the kinds the catalog has: after construction with any list and replacement with another,
  a kind is observable when it is known and in the second list, and \<open>ObservableKinds\<close> lists those
  kinds once each in catalog order. An unknown kind never becomes observable.\<close>

theorem observable_kinds_are_replaced:
  "(catIsObservable (SetObservable (NewCatalog before) now) k \<longleftrightarrow> Known k \<and> k \<in> set now) \<and>
   ObservableKinds (SetObservable (NewCatalog before) now) = filter (\<lambda>k. k \<in> set now) AllKinds \<and>
   distinct (ObservableKinds (SetObservable (NewCatalog before) now))"
proof -
  have kinds: "ObservableKinds (SetObservable (NewCatalog before) now) =
      filter (\<lambda>k. k \<in> set now) AllKinds"
    unfolding ObservableKinds_def
    by (auto simp: SetObservable_def NewCatalog_def AllKinds_def[symmetric] Let_def
        observable_set_Some index_rows_descriptors kindIndex_None simp del: not_None_eq
        intro: filter_cong)
  then show ?thesis
    by (simp add: catIsObservable_def SetObservable_def NewCatalog_def observable_set_Some Known_def
        index_rows_descriptors distinct_AllKinds Let_def)
qed

text \<open>a kind's name determines it: reading back the string of a kind of the catalog gives that
  kind, a string that names none of them becomes an unknown kind, which \<open>ValidateKind\<close> refuses,
  and every kind of the catalog passes it.\<close>

theorem kind_names_roundtrip:
  "map (\<lambda>k. kind_of_string (kind_string k)) AllKinds = AllKinds \<and>
   kind_string (kind_of_string s) = s \<and>
   (ValidateKind k = None \<longleftrightarrow> k \<in> set AllKinds)"
proof (intro conjI)
  have "kind_of_string (kind_string k) = k" if "k \<in> set AllKinds" for k
  proof -
    have "find (\<lambda>k'. kind_string k' = kind_string k) AllKinds \<noteq> None"
      using that by (auto simp: find_None_iff)
    then obtain k' where k': "find (\<lambda>k'. kind_string k' = kind_string k) AllKinds = Some k'"
      by blast
    then have "k' \<in> set AllKinds" "kind_string k' = kind_string k"
      using find_SomeD by fastforce+
    then show ?thesis using that k' kind_string_inj_known by (auto simp: kind_of_string_def)
  qed
  then show "map (\<lambda>k. kind_of_string (kind_string k)) AllKinds = AllKinds"
    by (simp add: map_idI)
  show "kind_string (kind_of_string s) = s"
    by (auto simp: kind_of_string_def dest: find_SomeD split: option.splits)
  have "kind_string k \<noteq> []" if "k \<in> set AllKinds"
    using that by (auto simp: AllKinds_list)
  then show "ValidateKind k = None \<longleftrightarrow> k \<in> set AllKinds"
    by (auto simp: ValidateKind_def Known_iff_AllKinds)
qed

end
