(* ===== verification/Path.thy ===== *)
theory Path
  imports Capability
begin

text \<open>
  Path matching (\<open>internal/validator/path.go\<close>): the segment glob with its backtracking loop,
  the segment-list matcher, resolution and pattern checks, compiled pattern sets and workspace
  containment with the memo of resolved roots. The reference semantics \<open>seg_glob\<close> and
  \<open>path_covers\<close> state what a pattern means; the code's routines are proved equal to them.
\<close>

section \<open>One segment\<close>

text \<open>
  \<open>classEnd\<close> returns -1 for an unterminated class; here that is \<open>None\<close>. Its last loop is
  the search for the first closing bracket from \<open>i\<close> on.
\<close>

definition skip_if :: "(char \<Rightarrow> bool) \<Rightarrow> string \<Rightarrow> nat \<Rightarrow> nat" where
  "skip_if P pattern i = (if i < length pattern \<and> P (pattern ! i) then i + 1 else i)"

definition classEnd :: "string \<Rightarrow> nat \<Rightarrow> nat option" where
  "classEnd pattern start =
     (let i = start + 1;
          i = skip_if (\<lambda>c. c = CHR ''!'' \<or> c = CHR ''^'') pattern i;
          i = skip_if (\<lambda>c. c = CHR '']'') pattern i
      in map_option (\<lambda>j. i + j + 1) (index_byte CHR '']'' (drop i pattern)))"

lemma skip_if_append: "skip_if P (us @ vs) (length us + i) = length us + skip_if P vs i"
  by (simp add: skip_if_def nth_append)

lemma skip_if_ge: "i \<le> skip_if P pattern i"
  by (simp add: skip_if_def)

lemma classEnd_append:
  "classEnd (us @ vs) (length us + i) = map_option (\<lambda>e. length us + e) (classEnd vs i)"
  by (simp add: classEnd_def Let_def skip_if_append option.map_comp comp_def add.assoc
      flip: add_Suc_right)

lemma classEnd_gt:
  assumes "classEnd pattern i = Some e"
  shows "i < e \<and> e \<le> length pattern"
proof -
  define i1 where "i1 = skip_if (\<lambda>c. c = CHR ''!'' \<or> c = CHR ''^'') pattern (i + 1)"
  define i2 where "i2 = skip_if (\<lambda>c. c = CHR '']'') pattern i1"
  have "i < i1" and "i1 \<le> i2" by (simp_all add: i1_def i2_def skip_if_def)
  moreover obtain j where "index_byte CHR '']'' (drop i2 pattern) = Some j" and "e = i2 + j + 1"
    using assms by (auto simp: classEnd_def i1_def i2_def Let_def)
  ultimately show ?thesis by (auto dest!: index_byte_Some)
qed

text \<open>The loop of \<open>matchClass\<close> over the body, a range taking three bytes at once.\<close>

fun class_hits :: "string \<Rightarrow> char \<Rightarrow> bool" where
  "class_hits [] c = False"
| "class_hits (lo # rest) c =
     (case rest of
        d # hi # rest' \<Rightarrow>
          (if d = CHR ''-'' then lo \<le> c \<and> c \<le> hi \<or> class_hits rest' c
           else lo \<le> c \<and> c \<le> lo \<or> class_hits rest c)
      | _ \<Rightarrow> lo \<le> c \<and> c \<le> lo \<or> class_hits rest c)"

definition matchClass :: "string \<Rightarrow> char \<Rightarrow> bool" where
  "matchClass class c =
     (let body = take (length class - 2) (drop 1 class);
          negated = (body \<noteq> [] \<and> (hd body = CHR ''!'' \<or> hd body = CHR ''^''));
          body = (if negated then tl body else body)
      in class_hits body c \<noteq> negated)"

text \<open>
  \<open>matchSegment\<close> is one loop over two indices and a restart point. \<open>seg_step\<close> is its body:
  \<open>Done\<close> returns, \<open>Again\<close> goes round with the new indices. The restart point is the source's
  \<open>(starPx, starSx)\<close>, \<open>None\<close> while both are -1.
\<close>

datatype seg_outcome = Done bool | Again nat nat "(nat \<times> nat) option"

definition seg_restart :: "string \<Rightarrow> (nat \<times> nat) option \<Rightarrow> seg_outcome" where
  "seg_restart s star =
     (case star of
        Some (starPx, starSx) \<Rightarrow> if starSx \<le> length s then Again starPx starSx star else Done False
      | None \<Rightarrow> Done False)"

definition seg_step :: "string \<Rightarrow> string \<Rightarrow> nat \<Rightarrow> nat \<Rightarrow> (nat \<times> nat) option \<Rightarrow> seg_outcome" where
  "seg_step pattern s px sx star =
     (if px < length pattern \<or> sx < length s then
        if px < length pattern then
          (let c = pattern ! px in
           if c = CHR ''*'' then Again (px + 1) sx (Some (px, sx + 1))
           else if c = CHR ''?'' then
             (if sx < length s then Again (px + 1) (sx + 1) star else seg_restart s star)
           else if c = CHR ''['' then
             (if sx < length s then
                (case classEnd pattern px of
                   Some end \<Rightarrow>
                     if matchClass (take (end - px) (drop px pattern)) (s ! sx)
                     then Again end (sx + 1) star else seg_restart s star
                 | None \<Rightarrow> seg_restart s star)
              else seg_restart s star)
           else
             (if sx < length s \<and> c = s ! sx then Again (px + 1) (sx + 1) star
              else seg_restart s star))
        else seg_restart s star
      else Done True)"

partial_function (option) seg_loop ::
  "string \<Rightarrow> string \<Rightarrow> nat \<Rightarrow> nat \<Rightarrow> (nat \<times> nat) option \<Rightarrow> bool option" where
  "seg_loop pattern s px sx star =
     (case seg_step pattern s px sx star of
        Done b \<Rightarrow> Some b
      | Again px' sx' star' \<Rightarrow> seg_loop pattern s px' sx' star')"

declare seg_loop.simps [code]

definition matchSegment :: "string \<Rightarrow> string \<Rightarrow> bool" where
  "matchSegment pattern s = (seg_loop pattern s 0 0 None = Some True)"

section \<open>Segment lists\<close>

text \<open>\<open>normalize\<close> strips trailing slashes and leaves the root.\<close>

function normalize :: "string \<Rightarrow> string" where
  "normalize p = (if length p > 1 \<and> suffix ''/'' p then normalize (butlast p) else p)"
  by pat_completeness auto
termination by (relation "measure length") auto

declare normalize.simps [simp del]

definition segments :: "string \<Rightarrow> string list" where
  "segments p = (if p = ''/'' then [] else split_byte CHR ''/'' (tl p))"

fun matchSegments :: "string list \<Rightarrow> string list \<Rightarrow> bool" where
  "matchSegments [] path = (path = [])"
| "matchSegments (pat # rest) path =
     (if pat = ''**'' then
        rest = [] \<or> list_ex (\<lambda>i. matchSegments rest (drop i path)) [0..<length path + 1]
      else
        (case path of
           [] \<Rightarrow> False
         | seg # path' \<Rightarrow> matchSegment pat seg \<and> matchSegments rest path'))"

section \<open>Resolution and pattern checks\<close>

definition resolvedSegments :: "string \<Rightarrow> string list option" where
  "resolvedSegments p =
     (if p = [] \<or> hd p \<noteq> CHR ''/'' then None
      else if CHR 0x00 \<in> set p \<or> sublist ''//'' p then None
      else
        (let p = normalize p in
         if p = ''/'' then Some []
         else
           (let segs = segments p in
            if list_ex (\<lambda>seg. seg = [] \<or> seg = ''.'' \<or> seg = ''..'') segs then None
            else Some segs)))"

definition IsResolved :: "string \<Rightarrow> bool" where
  "IsResolved p = (resolvedSegments p \<noteq> None)"

text \<open>The loop of \<open>validateSegment\<close> over the classes of a segment, from index \<open>i\<close>.\<close>

function scan_classes :: "string \<Rightarrow> nat \<Rightarrow> go_error" where
  "scan_classes seg i =
     (if i < length seg then
        if seg ! i = CHR ''['' then
          (case classEnd seg i of
             None \<Rightarrow> Some (Fmt ''segment %q has an unterminated character class'' [AStr seg])
           | Some end \<Rightarrow> scan_classes seg end)
        else scan_classes seg (i + 1)
      else None)"
  by pat_completeness auto
termination by (relation "measure (\<lambda>(seg, i). length seg - i)") (auto dest: classEnd_gt)

declare scan_classes.simps [simp del]

definition validateSegment :: "string \<Rightarrow> go_error" where
  "validateSegment seg =
     (if seg = [] then Some (Fmt ''empty path segment'' [])
      else if seg = ''.'' \<or> seg = ''..'' then Some (Fmt ''relative segment %q'' [AStr seg])
      else if seg = ''**'' then None
      else if sublist ''**'' seg then
        Some (Fmt ''segment %q mixes ** with other characters; ** must be a whole segment''
                [AStr seg])
      else scan_classes seg 0)"

definition ValidatePattern :: "string \<Rightarrow> go_error" where
  "ValidatePattern pattern =
     (if pattern = [] then Some (Fmt ''pattern is empty'' [])
      else if hd pattern \<noteq> CHR ''/'' then Some (Fmt ''pattern %q is not absolute'' [AStr pattern])
      else if CHR 0x00 \<in> set pattern then Some (Fmt ''pattern contains a NUL byte'' [])
      else if sublist ''//'' pattern then
        Some (Fmt ''pattern %q has an empty path segment'' [AStr pattern])
      else
        (case find (\<lambda>seg. validateSegment seg \<noteq> None) (segments (normalize pattern)) of
           Some seg \<Rightarrow>
             Some (Fmt ''pattern %q: %w'' [AStr pattern, AMsg (the (validateSegment seg))])
         | None \<Rightarrow> None))"

section \<open>Matching and containment\<close>

definition MatchPath :: "string \<Rightarrow> string \<Rightarrow> bool" where
  "MatchPath pattern path =
     (if ValidatePattern pattern \<noteq> None then False
      else if \<not> IsResolved path then False
      else matchSegments (segments (normalize pattern)) (segments (normalize path)))"

definition containedBy :: "string \<Rightarrow> string \<Rightarrow> bool" where
  "containedBy rootp path =
     (if rootp = ''/'' then True
      else if path = rootp then True
      else prefix (rootp @ ''/'') path)"

text \<open>
  A \<open>GlobPathMatcher\<close> holds an optional resolver and the memo of the roots it resolved. The
  resolver is the caller's function (\<open>filepath.EvalSymlinks\<close> in production): a parameter.
\<close>

type_synonym resolver = "string \<Rightarrow> string \<times> go_error"

record glob_matcher =
  gmResolver :: "resolver option"
  gmRoots :: "string \<rightharpoonup> string \<times> go_error"

definition NewPathMatcher :: glob_matcher where
  "NewPathMatcher = \<lparr>gmResolver = None, gmRoots = Map.empty\<rparr>"

definition NewPathMatcherWithResolver :: "resolver \<Rightarrow> glob_matcher" where
  "NewPathMatcherWithResolver r = \<lparr>gmResolver = Some r, gmRoots = Map.empty\<rparr>"

definition resolve_with :: "resolver \<Rightarrow> string \<Rightarrow> string \<times> go_error" where
  "resolve_with r rootp =
     (case r rootp of
        (resolved, None) \<Rightarrow>
          (let resolved = normalize resolved in
           (resolved,
            if \<not> IsResolved resolved
            then Some (Fmt ''resolver returned unusable root %q'' [AStr resolved]) else None))
      | (resolved, Some err) \<Rightarrow> (resolved, Some err))"

definition resolveRoot ::
  "glob_matcher \<Rightarrow> resolver \<Rightarrow> string \<Rightarrow> (string \<times> go_error) \<times> glob_matcher" where
  "resolveRoot m r rootp =
     (case gmRoots m rootp of
        Some rr \<Rightarrow> (rr, m)
      | None \<Rightarrow>
          (let rr = resolve_with r rootp in (rr, m\<lparr>gmRoots := (gmRoots m)(rootp \<mapsto> rr)\<rparr>)))"

definition WithinRoot :: "glob_matcher \<Rightarrow> string \<Rightarrow> string \<Rightarrow> bool \<times> glob_matcher" where
  "WithinRoot m rootp path =
     (if \<not> IsResolved rootp \<or> \<not> IsResolved path then (False, m)
      else
        (let rootp = normalize rootp; path = normalize path in
         if containedBy rootp path then (True, m)
         else
           (case gmResolver m of
              None \<Rightarrow> (False, m)
            | Some r \<Rightarrow>
                (let ((canonical, err), m') = resolveRoot m r rootp in
                 if err \<noteq> None then (False, m')
                 else if canonical = rootp then (False, m')
                 else (containedBy canonical path, m')))))"

section \<open>Compiled pattern sets\<close>

record pattern_set =
  psRaw :: "string list"
  psSegs :: "string list list"

fun compile_loop :: "pattern_set \<Rightarrow> string list \<Rightarrow> msg + pattern_set" where
  "compile_loop ps [] = Inr ps"
| "compile_loop ps (p # rest) =
     (case ValidatePattern p of
        Some err \<Rightarrow> Inl err
      | None \<Rightarrow>
          compile_loop \<lparr>psRaw = psRaw ps @ [p], psSegs = psSegs ps @ [segments (normalize p)]\<rparr>
            rest)"

definition CompilePatterns :: "string list \<Rightarrow> msg + pattern_set" where
  "CompilePatterns patterns = compile_loop \<lparr>psRaw = [], psSegs = []\<rparr> patterns"

text \<open>\<open>MatchIndex\<close>: \<open>None\<close> for -1. A nil set is \<open>None\<close> as well.\<close>

fun first_index :: "('a \<Rightarrow> bool) \<Rightarrow> 'a list \<Rightarrow> nat option" where
  "first_index P [] = None"
| "first_index P (x # xs) = (if P x then Some 0 else map_option Suc (first_index P xs))"

definition psMatchIndex :: "pattern_set option \<Rightarrow> string \<Rightarrow> nat option" where
  "psMatchIndex s path =
     (case s of
        None \<Rightarrow> None
      | Some ps \<Rightarrow>
          (if psSegs ps = [] then None
           else
             (case resolvedSegments path of
                None \<Rightarrow> None
              | Some pathSegs \<Rightarrow> first_index (\<lambda>pat. matchSegments pat pathSegs) (psSegs ps))))"

definition psMatch :: "pattern_set option \<Rightarrow> string \<Rightarrow> bool" where
  "psMatch s path = (psMatchIndex s path \<noteq> None)"

definition psLen :: "pattern_set option \<Rightarrow> nat" where
  "psLen s = (case s of None \<Rightarrow> 0 | Some ps \<Rightarrow> length (psRaw ps))"

definition psPattern :: "pattern_set option \<Rightarrow> int \<Rightarrow> string" where
  "psPattern s i =
     (case s of
        None \<Rightarrow> []
      | Some ps \<Rightarrow> if i < 0 \<or> int (length (psRaw ps)) \<le> i then [] else psRaw ps ! nat i)"

section \<open>What a segment pattern means\<close>

text \<open>
  The reference: a star stands for any bytes, a question mark for one byte, a class for one byte
  of it, any other byte for itself, and an unterminated class for nothing. No indices, no restart
  point.
\<close>

function seg_glob :: "string \<Rightarrow> string \<Rightarrow> bool" where
  "seg_glob [] s = (s = [])"
| "seg_glob (c # p) s =
     (if c = CHR ''*'' then seg_glob p s \<or> (case s of [] \<Rightarrow> False | _ # t \<Rightarrow> seg_glob (c # p) t)
      else if c = CHR ''?'' then s \<noteq> [] \<and> seg_glob p (tl s)
      else if c = CHR ''['' then
        (case classEnd (c # p) 0 of
           None \<Rightarrow> False
         | Some end \<Rightarrow>
             s \<noteq> [] \<and> matchClass (take end (c # p)) (hd s) \<and> seg_glob (drop end (c # p)) (tl s))
      else s \<noteq> [] \<and> c = hd s \<and> seg_glob p (tl s))"
  by pat_completeness auto
termination
proof (relation "measures [\<lambda>(p, s). length p, \<lambda>(p, s). length s]", goal_cases)
  case (5 c p s e)
  then show ?case using classEnd_gt [of "c # p" 0 e] by auto
qed auto

declare seg_glob.simps [simp del]

lemma seg_glob_Nil [simp]: "seg_glob [] s \<longleftrightarrow> s = []"
  by (simp add: seg_glob.simps)

lemma seg_glob_star: "seg_glob (CHR ''*'' # p) s \<longleftrightarrow> (\<exists>k \<le> length s. seg_glob p (drop k s))"
proof (induction s)
  case Nil
  then show ?case by (simp add: seg_glob.simps(2))
next
  case (Cons x s)
  have "seg_glob (CHR ''*'' # p) (x # s) \<longleftrightarrow> seg_glob p (x # s) \<or> seg_glob (CHR ''*'' # p) s"
    by (simp add: seg_glob.simps(2))
  also have "\<dots> \<longleftrightarrow> (\<exists>k \<le> length (x # s). seg_glob p (drop k (x # s)))"
    unfolding Cons.IH
  proof
    assume "seg_glob p (x # s) \<or> (\<exists>k \<le> length s. seg_glob p (drop k s))"
    then show "\<exists>k \<le> length (x # s). seg_glob p (drop k (x # s))"
    proof
      assume "seg_glob p (x # s)"
      then show ?thesis by (intro exI [of _ 0]) simp
    next
      assume "\<exists>k \<le> length s. seg_glob p (drop k s)"
      then obtain k where "k \<le> length s" "seg_glob p (drop k s)" by blast
      then show ?thesis by (intro exI [of _ "Suc k"]) simp
    qed
  next
    assume "\<exists>k \<le> length (x # s). seg_glob p (drop k (x # s))"
    then obtain k where "k \<le> length (x # s)" "seg_glob p (drop k (x # s))" by blast
    then show "seg_glob p (x # s) \<or> (\<exists>k \<le> length s. seg_glob p (drop k s))"
      by (cases k) auto
  qed
  finally show ?case .
qed

text \<open>
  Every construct but the star consumes exactly one byte: \<open>one_byte p b p'\<close> says that pattern
  \<open>p\<close> starts with such a construct, that byte \<open>b\<close> satisfies it, and that \<open>p'\<close> is left.
\<close>

definition one_byte :: "string \<Rightarrow> char \<Rightarrow> string option" where
  "one_byte p b =
     (case p of
        [] \<Rightarrow> None
      | c # p' \<Rightarrow>
          (if c = CHR ''*'' then None
           else if c = CHR ''?'' then Some p'
           else if c = CHR ''['' then
             (case classEnd p 0 of
                None \<Rightarrow> None
              | Some end \<Rightarrow> if matchClass (take end p) b then Some (drop end p) else None)
           else if c = b then Some p' else None))"

lemma seg_glob_one_byte:
  assumes "p \<noteq> []" and "hd p \<noteq> CHR ''*''"
  shows "seg_glob p s \<longleftrightarrow> s \<noteq> [] \<and> (\<exists>p'. one_byte p (hd s) = Some p' \<and> seg_glob p' (tl s))"
  using assms by (cases p) (auto simp: seg_glob.simps(2) one_byte_def split: option.splits)

lemma one_byte_cases:
  assumes "px < length pattern" and "pattern ! px \<noteq> CHR ''*''"
  shows "seg_step pattern s px sx star =
    (if sx < length s then
       (case one_byte (drop px pattern) (s ! sx) of
          Some p' \<Rightarrow> Again (length pattern - length p') (sx + 1) star
        | None \<Rightarrow> seg_restart s star)
     else seg_restart s star)"
proof -
  have shift: "classEnd pattern px = map_option (\<lambda>e. px + e) (classEnd (drop px pattern) 0)"
    using classEnd_append [of "take px pattern" "drop px pattern" 0] assms(1) by simp
  show ?thesis
    using assms classEnd_gt [of "drop px pattern" 0]
    by (auto simp: seg_step_def one_byte_def shift Cons_nth_drop_Suc [symmetric] Let_def
        split: option.splits)
qed

lemma one_byte_rest: "one_byte p b = Some p1 \<Longrightarrow> one_byte p b' = Some p2 \<Longrightarrow> p1 = p2"
  by (auto simp: one_byte_def split: list.splits if_splits option.splits)

lemma one_byte_suffix:
  assumes "one_byte p b = Some p'"
  shows "length p' < length p \<and> drop (length p - length p') p = p'"
proof (cases p)
  case (Cons c q)
  show ?thesis
  proof (cases "c = CHR ''['' ")
    case True
    with assms Cons obtain e where e: "classEnd p 0 = Some e" "p' = drop e p"
      by (auto simp: one_byte_def split: option.splits if_splits)
    then show ?thesis using classEnd_gt [OF e(1)] Cons by auto
  next
    case False
    with assms Cons show ?thesis by (auto simp: one_byte_def split: if_splits)
  qed
qed (use assms in \<open>simp add: one_byte_def\<close>)

lemma seg_glob_star_back:
  assumes "seg_glob (CHR ''*'' # q) (drop j s)" and "i \<le> j" and "i \<le> length s"
  shows "seg_glob (CHR ''*'' # q) (drop i s)"
proof -
  from assms(1) obtain k where k: "k \<le> length (drop j s)" "seg_glob q (drop k (drop j s))"
    by (auto simp: seg_glob_star)
  show ?thesis
  proof (cases "j \<le> length s")
    case True
    with k assms(2) show ?thesis
      by (auto simp: seg_glob_star intro!: exI [of _ "k + (j - i)"])
  next
    case False
    with k assms(3) show ?thesis
      by (auto simp: seg_glob_star intro!: exI [of _ "length s - i"])
  qed
qed

section \<open>The backtracking loop is the reference\<close>

text \<open>
  \<open>seg_answer\<close> is what a state of the loop still stands for: the rest of the pattern matches the
  rest of the text, or the remembered star can take more. \<open>seg_inv\<close> holds in every state: after a
  star, whatever the pattern behind the star can match, the part walked since then consumed exactly
  \<open>sx + 1 - starSx\<close> bytes of it. That is why forgetting an older star when a new one is met loses
  no match.
\<close>

definition seg_answer :: "string \<Rightarrow> string \<Rightarrow> nat \<Rightarrow> nat \<Rightarrow> (nat \<times> nat) option \<Rightarrow> bool" where
  "seg_answer p s px sx star \<longleftrightarrow>
     seg_glob (drop px p) (drop sx s) \<or>
     (\<exists>sp ss. star = Some (sp, ss) \<and> ss \<le> length s \<and> seg_glob (drop sp p) (drop ss s))"

definition seg_inv :: "string \<Rightarrow> string \<Rightarrow> nat \<Rightarrow> nat \<Rightarrow> (nat \<times> nat) option \<Rightarrow> bool" where
  "seg_inv p s px sx star \<longleftrightarrow> px \<le> length p \<and> sx \<le> length s \<and>
     (\<forall>sp ss. star = Some (sp, ss) \<longrightarrow>
        sp < length p \<and> p ! sp = CHR ''*'' \<and> sp \<le> px \<and>
        (if px = sp then sx = ss
         else ss \<le> sx + 1 \<and>
           (\<forall>t. seg_glob (drop (Suc sp) p) t \<longrightarrow>
              sx + 1 - ss \<le> length t \<and> seg_glob (drop px p) (drop (sx + 1 - ss) t))))"

definition seg_measure ::
  "string \<Rightarrow> string \<Rightarrow> nat \<Rightarrow> (nat \<times> nat) option \<Rightarrow> nat \<times> nat \<times> nat \<times> nat" where
  "seg_measure p s px star =
     (case star of
        None \<Rightarrow> (length p + 1, 0, 1, length p - px)
      | Some (sp, ss) \<Rightarrow>
          (length p - sp, length s + 1 - ss, if px = sp then 0 else 1, length p - px))"

abbreviation seg_less :: "((nat \<times> nat \<times> nat \<times> nat) \<times> (nat \<times> nat \<times> nat \<times> nat)) set" where
  "seg_less \<equiv> less_than <*lex*> less_than <*lex*> less_than <*lex*> less_than"

text \<open>What one round owes: a return with the right answer, or a smaller state with the same one.\<close>

definition seg_round_ok :: "string \<Rightarrow> string \<Rightarrow> nat \<Rightarrow> nat \<Rightarrow> (nat \<times> nat) option \<Rightarrow> seg_outcome \<Rightarrow> bool"
  where
  "seg_round_ok p s px sx star out =
     (case out of
        Done b \<Rightarrow> b = seg_answer p s px sx star
      | Again px' sx' star' \<Rightarrow>
          seg_inv p s px' sx' star' \<and>
          seg_answer p s px' sx' star' = seg_answer p s px sx star \<and>
          (seg_measure p s px' star', seg_measure p s px star) \<in> seg_less)"

lemma seg_restart_ok:
  assumes inv: "seg_inv p s px sx star"
    and dead: "\<not> seg_glob (drop px p) (drop sx s)"
    and no_star: "px < length p \<Longrightarrow> p ! px \<noteq> CHR ''*''"
  shows "seg_round_ok p s px sx star (seg_restart s star)"
proof (cases star)
  case None
  with dead show ?thesis by (simp add: seg_round_ok_def seg_restart_def seg_answer_def)
next
  case (Some st)
  obtain sp ss where st: "st = (sp, ss)" by (cases st)
  have sp: "sp < length p" "p ! sp = CHR ''*''" "sp \<le> px"
    using inv Some st by (auto simp: seg_inv_def)
  with no_star have "px \<noteq> sp" by auto
  then show ?thesis
    using dead Some st sp
    by (auto simp: seg_round_ok_def seg_restart_def seg_answer_def seg_inv_def seg_measure_def)
qed

lemma seg_star_ok:
  assumes inv: "seg_inv p s px sx star" and px: "px < length p" and star: "p ! px = CHR ''*''"
  shows "seg_round_ok p s px sx star (Again (px + 1) sx (Some (px, sx + 1)))"
proof -
  have drop_px: "drop px p = CHR ''*'' # drop (Suc px) p"
    using px star by (simp flip: Cons_nth_drop_Suc)
  have sx: "sx \<le> length s" using inv by (simp add: seg_inv_def)
  have unroll: "seg_glob (drop px p) (drop sx s) \<longleftrightarrow>
      seg_glob (drop (Suc px) p) (drop sx s) \<or>
      Suc sx \<le> length s \<and> seg_glob (drop px p) (drop (Suc sx) s)"
  proof (cases "sx < length s")
    case True
    then have "drop sx s = s ! sx # drop (Suc sx) s" by (simp add: Cons_nth_drop_Suc)
    with True show ?thesis by (simp add: drop_px seg_glob.simps(2))
  next
    case False
    with sx show ?thesis by (simp add: drop_px seg_glob.simps(2))
  qed
  have older: "seg_glob (drop px p) (drop sx s)"
    if "star = Some (sp, ss)" and "ss \<le> length s" and m: "seg_glob (drop sp p) (drop ss s)" for sp ss
  proof (cases "px = sp")
    case True
    with that inv show ?thesis by (auto simp: seg_inv_def)
  next
    case False
    have sp: "sp < length p" "p ! sp = CHR ''*''" "ss \<le> sx + 1" and
      walked: "\<And>t. seg_glob (drop (Suc sp) p) t \<Longrightarrow> seg_glob (drop px p) (drop (sx + 1 - ss) t)"
      using inv that(1) False by (auto simp: seg_inv_def)
    have "drop sp p = CHR ''*'' # drop (Suc sp) p" using sp by (simp flip: Cons_nth_drop_Suc)
    with m obtain k where "seg_glob (drop (Suc sp) p) (drop k (drop ss s))"
      by (auto simp: seg_glob_star)
    from walked [OF this] have "seg_glob (drop px p) (drop (sx + 1 + k) s)"
      using sp(3) by (simp add: add.commute)
    then show ?thesis unfolding drop_px by (rule seg_glob_star_back) (use sx in auto)
  qed
  have "seg_answer p s (px + 1) sx (Some (px, sx + 1)) = seg_answer p s px sx star"
    using unroll older by (auto simp: seg_answer_def)
  moreover have "seg_inv p s (px + 1) sx (Some (px, sx + 1))"
    using px star sx by (simp add: seg_inv_def)
  moreover have "(seg_measure p s (px + 1) (Some (px, sx + 1)), seg_measure p s px star) \<in> seg_less"
    using inv px sx by (auto simp: seg_measure_def seg_inv_def split: option.splits if_splits)
  ultimately show ?thesis by (simp add: seg_round_ok_def)
qed

lemma seg_advance_ok:
  assumes inv: "seg_inv p s px sx star" and px: "px < length p" and char: "p ! px \<noteq> CHR ''*''"
    and sx: "sx < length s" and ob: "one_byte (drop px p) (s ! sx) = Some p'"
  shows "seg_round_ok p s px sx star (Again (length p - length p') (sx + 1) star)"
proof -
  let ?px = "length p - length p'"
  have hd: "drop px p \<noteq> []" "hd (drop px p) \<noteq> CHR ''*''"
    using px char by (auto simp: hd_drop_conv_nth)
  have len: "length p' < length p - px" and drop_p': "drop ?px p = p'"
  proof -
    from one_byte_suffix [OF ob] show "length p' < length p - px" by simp
    then have "?px = (length p - px - length p') + px" by simp
    with one_byte_suffix [OF ob] show "drop ?px p = p'" by (metis drop_drop length_drop)
  qed
  have "seg_glob (drop px p) (drop sx s) \<longleftrightarrow> seg_glob p' (drop (Suc sx) s)"
    using sx ob by (simp add: seg_glob_one_byte [OF hd] hd_drop_conv_nth tl_drop drop_Suc)
  then have "seg_answer p s ?px (sx + 1) star = seg_answer p s px sx star"
    by (simp add: seg_answer_def drop_p')
  moreover have "seg_inv p s ?px (sx + 1) star"
  proof -
    have walked: "Suc (sx + 1) - ss \<le> length t \<and> seg_glob p' (drop (Suc (sx + 1) - ss) t)"
      if st: "star = Some (sp, ss)" and t: "seg_glob (drop (Suc sp) p) t" for sp ss t
    proof -
      have "px \<noteq> sp" using inv st char by (auto simp: seg_inv_def)
      then have ss: "ss \<le> sx + 1" and le: "sx + 1 - ss \<le> length t"
        and g: "seg_glob (drop px p) (drop (sx + 1 - ss) t)"
        using inv st t by (auto simp: seg_inv_def)
      from g have "drop (sx + 1 - ss) t \<noteq> []"
        and "\<exists>q. one_byte (drop px p) (hd (drop (sx + 1 - ss) t)) = Some q \<and>
               seg_glob q (tl (drop (sx + 1 - ss) t))"
        by (simp_all add: seg_glob_one_byte [OF hd])
      with one_byte_rest [OF ob] show ?thesis
        using ss by (auto simp: tl_drop Suc_diff_le drop_Suc)
    qed
    have "sp < ?px \<and> ss \<le> sx + 1" if "star = Some (sp, ss)" for sp ss
    proof -
      have "px \<noteq> sp" using inv that char by (auto simp: seg_inv_def)
      then show ?thesis using inv that len px by (auto simp: seg_inv_def)
    qed
    with inv sx walked show ?thesis by (auto simp: seg_inv_def drop_p')
  qed
  moreover have "(seg_measure p s ?px star, seg_measure p s px star) \<in> seg_less"
  proof -
    have "sp \<noteq> px \<and> sp \<noteq> ?px" if "star = Some (sp, ss)" for sp ss
      using inv that len px char by (auto simp: seg_inv_def)
    then show ?thesis using len px by (auto simp: seg_measure_def split: option.splits)
  qed
  ultimately show ?thesis by (simp add: seg_round_ok_def)
qed

lemma seg_step_ok:
  assumes inv: "seg_inv p s px sx star"
  shows "seg_round_ok p s px sx star (seg_step p s px sx star)"
proof (cases "px < length p")
  case False
  then have px: "drop px p = []" "px = length p" using inv by (auto simp: seg_inv_def)
  show ?thesis
  proof (cases "sx < length s")
    case True
    have "seg_round_ok p s px sx star (seg_restart s star)"
      by (rule seg_restart_ok [OF inv]) (use px True in auto)
    with px True show ?thesis by (simp add: seg_step_def)
  next
    case False
    with px show ?thesis by (simp add: seg_step_def seg_round_ok_def seg_answer_def)
  qed
next
  case True
  show ?thesis
  proof (cases "p ! px = CHR ''*''")
    case star: True
    with True show ?thesis using seg_star_ok [OF inv True star] by (simp add: seg_step_def)
  next
    case False
    have hd: "drop px p \<noteq> []" "hd (drop px p) \<noteq> CHR ''*''"
      using True False by (auto simp: hd_drop_conv_nth)
    show ?thesis
    proof (cases "sx < length s \<and> one_byte (drop px p) (s ! sx) \<noteq> None")
      case adv: True
      then show ?thesis
        using seg_advance_ok [OF inv True False] by (auto simp: one_byte_cases [OF True False])
    next
      case dead: False
      then have "\<not> seg_glob (drop px p) (drop sx s)"
        by (auto simp: seg_glob_one_byte [OF hd] hd_drop_conv_nth)
      then have "seg_round_ok p s px sx star (seg_restart s star)"
        by (rule seg_restart_ok [OF inv]) (use False in simp)
      with dead show ?thesis
        by (auto simp: one_byte_cases [OF True False] split: option.splits)
    qed
  qed
qed

lemma seg_loop_total:
  assumes "seg_inv p s px sx star"
  shows "seg_loop p s px sx star = Some (seg_answer p s px sx star)"
proof -
  define st where "st = (px, sx, star)"
  have "wf (inv_image seg_less (\<lambda>(px, sx, star). seg_measure p s px star))"
    by (intro wf_inv_image wf_lex_prod wf_less_than)
  then have "case st of (px, sx, star) \<Rightarrow> seg_inv p s px sx star \<longrightarrow>
      seg_loop p s px sx star = Some (seg_answer p s px sx star)"
  proof (induction st rule: wf_induct_rule)
    case (less st)
    obtain px sx star where st: "st = (px, sx, star)" by (cases st)
    show ?case
    proof (unfold st, clarify)
      assume "seg_inv p s px sx star"
      note ok = seg_step_ok [OF this]
      show "seg_loop p s px sx star = Some (seg_answer p s px sx star)"
      proof (cases "seg_step p s px sx star")
        case (Done b)
        with ok show ?thesis by (subst seg_loop.simps) (simp add: seg_round_ok_def)
      next
        case (Again px' sx' star')
        with ok have inv': "seg_inv p s px' sx' star'"
          and eq: "seg_answer p s px' sx' star' = seg_answer p s px sx star"
          and "(seg_measure p s px' star', seg_measure p s px star) \<in> seg_less"
          by (simp_all add: seg_round_ok_def)
        then have "((px', sx', star'), st) \<in>
            inv_image seg_less (\<lambda>(px, sx, star). seg_measure p s px star)"
          by (simp add: st)
        from less.IH [OF this] inv' eq Again show ?thesis by (subst seg_loop.simps) simp
      qed
    qed
  qed
  with assms show ?thesis by (simp add: st_def)
qed

lemma seg_loop_start: "seg_loop pattern s 0 0 None = Some (seg_glob pattern s)"
  by (subst seg_loop_total) (simp_all add: seg_inv_def seg_answer_def)

lemma matchSegment_eq: "matchSegment pattern s = seg_glob pattern s"
  by (simp add: matchSegment_def seg_loop_start)

lemma matchSegment_fun: "matchSegment = seg_glob"
  by (intro ext) (rule matchSegment_eq)

section \<open>What a path pattern means\<close>

text \<open>
  A pattern is a list of segments; \<open>**\<close> stands for any number of whole segments, every other one
  for exactly one.
\<close>

inductive path_covers :: "string list \<Rightarrow> string list \<Rightarrow> bool" where
  covers_end: "path_covers [] []"
| covers_seg: "pat \<noteq> ''**'' \<Longrightarrow> seg_glob pat seg \<Longrightarrow> path_covers pats segs \<Longrightarrow>
     path_covers (pat # pats) (seg # segs)"
| covers_deep: "path_covers pats segs \<Longrightarrow> path_covers (''**'' # pats) (skipped @ segs)"

inductive_cases path_covers_NilE: "path_covers [] segs"
inductive_cases path_covers_ConsE: "path_covers (pat # pats) segs"

inductive_simps path_covers_Nil: "path_covers [] segs"
inductive_simps path_covers_Cons: "path_covers (pat # pats) segs"

lemma path_covers_deep_all: "path_covers [''**''] segs"
  using covers_deep [OF covers_end, of segs] by simp

lemma matchSegments_eq: "matchSegments pats segs = path_covers pats segs"
proof (induction pats segs rule: matchSegments.induct)
  case (1 path)
  then show ?case by (auto simp: path_covers_Nil)
next
  case (2 pat rest path)
  show ?case
  proof (cases "pat = ''**''")
    case True
    have "path_covers (''**'' # rest) path \<longleftrightarrow> (\<exists>i < Suc (length path). path_covers rest (drop i path))"
    proof
      assume "path_covers (''**'' # rest) path"
      then obtain skipped segs where "path = skipped @ segs" "path_covers rest segs"
        by (auto elim: path_covers_ConsE)
      then show "\<exists>i < Suc (length path). path_covers rest (drop i path)"
        by (intro exI [of _ "length skipped"]) simp
    next
      assume "\<exists>i < Suc (length path). path_covers rest (drop i path)"
      then obtain i where "path_covers rest (drop i path)" by blast
      then show "path_covers (''**'' # rest) path"
        using covers_deep [of rest "drop i path" "take i path"] by simp
    qed
    with True 2 show ?thesis
      by (auto simp: list_ex_iff path_covers_deep_all simp del: upt_Suc)
  next
    case False
    with 2 show ?thesis
      by (cases path) (auto simp: path_covers_Cons matchSegment_eq)
  qed
qed

text \<open>Without \<open>**\<close> a pattern never changes depth: no wildcard crosses a slash.\<close>

lemma path_covers_same_depth:
  "path_covers pats segs \<Longrightarrow> ''**'' \<notin> set pats \<Longrightarrow> length pats = length segs"
  by (induction rule: path_covers.induct) auto

text \<open>A segment without a wildcard byte matches itself only.\<close>

lemma seg_glob_literal:
  "set pat \<inter> {CHR ''*'', CHR ''?'', CHR ''[''} = {} \<Longrightarrow> seg_glob pat s \<longleftrightarrow> s = pat"
proof (induction pat arbitrary: s)
  case (Cons c pat)
  then have "seg_glob (c # pat) s \<longleftrightarrow> s \<noteq> [] \<and> c = hd s \<and> tl s = pat"
    by (auto simp: seg_glob.simps(2))
  then show ?case by (cases s) auto
qed simp

section \<open>Resolved paths\<close>

definition good_seg :: "string \<Rightarrow> bool" where
  "good_seg s \<longleftrightarrow> s \<noteq> [] \<and> s \<noteq> ''.'' \<and> s \<noteq> ''..'' \<and> CHR ''/'' \<notin> set s \<and> CHR 0x00 \<notin> set s"

definition path_of :: "string list \<Rightarrow> string" where
  "path_of segs = (if segs = [] then ''/'' else concat (map (\<lambda>s. CHR ''/'' # s) segs))"

lemma path_of_join: "segs \<noteq> [] \<Longrightarrow> path_of segs = CHR ''/'' # join_byte CHR ''/'' segs"
proof (induction segs)
  case (Cons s segs)
  then show ?case by (cases segs) (auto simp: path_of_def)
qed simp

lemma segments_path_of:
  assumes "\<forall>s \<in> set segs. CHR ''/'' \<notin> set s" and "\<forall>s \<in> set segs. s \<noteq> []"
  shows "segments (path_of segs) = segs"
proof (cases "segs = []")
  case False
  have "join_byte CHR ''/'' segs \<noteq> []"
    using False assms(2) by (cases segs) (auto simp: join_byte_Cons)
  with False assms(1) show ?thesis by (simp add: path_of_join segments_def split_join_byte)
qed (simp add: path_of_def segments_def)

lemma path_of_segments:
  assumes "p \<noteq> []" and "hd p = CHR ''/''"
  shows "path_of (segments p) = p"
proof (cases "p = ''/''")
  case False
  with assms obtain q where "p = CHR ''/'' # q" "q \<noteq> []" by (cases p) auto
  then show ?thesis by (simp add: segments_def path_of_join)
qed (simp add: path_of_def segments_def)

lemma normalize_id: "\<not> (length p > 1 \<and> suffix ''/'' p) \<Longrightarrow> normalize p = p"
  by (subst normalize.simps) auto

lemma normalize_root [simp]: "normalize ''/'' = ''/''"
  by (simp add: normalize_id)

lemma normalize_snoc: "p \<noteq> [] \<Longrightarrow> normalize (p @ ''/'') = normalize p"
  by (subst normalize.simps) simp

lemma normalize_prefix: "\<exists>n. p = normalize p @ replicate n CHR ''/''"
proof (induction p rule: normalize.induct)
  case (1 p)
  show ?case
  proof (cases "length p > 1 \<and> suffix ''/'' p")
    case True
    then obtain n where "butlast p = normalize (butlast p) @ replicate n CHR ''/''"
      using "1.IH" by blast
    moreover have "p = butlast p @ ''/''" using True by (auto simp: suffix_def)
    moreover have "normalize p = normalize (butlast p)"
      using True by (subst normalize.simps) simp
    ultimately have "p = normalize p @ replicate (Suc n) CHR ''/''"
      by (metis append.assoc replicate_Suc replicate_append_same)
    then show ?thesis by blast
  next
    case False
    then show ?thesis by (intro exI [of _ 0]) (simp add: normalize_id)
  qed
qed

lemma normalize_hd: "p \<noteq> [] \<Longrightarrow> normalize p \<noteq> [] \<and> hd (normalize p) = hd p"
proof (induction p rule: normalize.induct)
  case (1 p)
  show ?case
  proof (cases "length p > 1 \<and> suffix ''/'' p")
    case True
    then have "butlast p \<noteq> []" "hd (butlast p) = hd p" by (cases p; auto)+
    moreover have "normalize p = normalize (butlast p)"
      using True by (subst normalize.simps) simp
    ultimately show ?thesis using True "1.IH" by simp
  qed (use "1.prems" in \<open>simp add: normalize_id\<close>)
qed

lemma normalize_cases:
  assumes "p \<noteq> []" and "\<not> sublist ''//'' p"
  shows "p = normalize p \<or> p = normalize p @ ''/'' \<and> normalize p \<noteq> ''/''"
proof (cases "length p > 1 \<and> suffix ''/'' p")
  case True
  then obtain q where q: "p = q @ ''/''" "q \<noteq> []" by (cases p rule: rev_cases) auto
  have "\<not> suffix ''/'' q"
  proof
    assume "suffix ''/'' q"
    then obtain r where "q = r @ ''/''" by (cases q rule: rev_cases) auto
    with q have "p = r @ ''//'' @ []" by simp
    then have "sublist ''//'' p" unfolding sublist_def by blast
    with assms(2) show False by simp
  qed
  then have "normalize p = q" "q \<noteq> ''/''" using q by (auto simp: normalize_snoc normalize_id)
  with q show ?thesis by simp
qed (simp add: normalize_id)

lemma sublist_slashes_skip:
  "CHR ''/'' \<notin> set s \<Longrightarrow> sublist ''//'' (s @ t) \<longleftrightarrow> sublist ''//'' t"
  by (induction s) (auto simp: sublist_code)

lemma no_double_slash:
  assumes "\<forall>s \<in> set segs. s \<noteq> [] \<and> CHR ''/'' \<notin> set s" and "t = [] \<or> t = ''/''"
  shows "\<not> sublist ''//'' (concat (map (\<lambda>s. CHR ''/'' # s) segs) @ t)"
  using assms(1)
proof (induction segs)
  case Nil
  with assms(2) show ?case by (auto simp: sublist_code)
next
  case (Cons s segs)
  then obtain c r where "s = c # r" "c \<noteq> CHR ''/''" by (cases s) auto
  with Cons show ?case by (auto simp: sublist_code sublist_slashes_skip)
qed

lemma path_of_not_slash_end:
  assumes "\<forall>s \<in> set segs. s \<noteq> [] \<and> CHR ''/'' \<notin> set s" and "segs \<noteq> []"
  shows "\<not> suffix ''/'' (path_of segs)"
proof -
  obtain us s where segs: "segs = us @ [s]" using assms(2) by (cases segs rule: rev_cases) auto
  with assms(1) obtain r c where s: "s = r @ [c]" "c \<noteq> CHR ''/''"
    by (cases s rule: rev_cases) auto
  have "path_of segs = (concat (map (\<lambda>s. CHR ''/'' # s) us) @ CHR ''/'' # r) @ [c]"
    by (simp add: path_of_def segs s)
  with s(2) show ?thesis by (metis last_snoc suffix_single)
qed

lemma normalize_path_of:
  assumes "\<forall>s \<in> set segs. s \<noteq> [] \<and> CHR ''/'' \<notin> set s"
  shows "normalize (path_of segs) = path_of segs"
    and "segs \<noteq> [] \<Longrightarrow> normalize (path_of segs @ ''/'') = path_of segs"
proof -
  show *: "normalize (path_of segs) = path_of segs"
  proof (cases "segs = []")
    case False
    show ?thesis by (rule normalize_id) (use path_of_not_slash_end [OF assms False] in blast)
  qed (simp add: path_of_def)
  assume "segs \<noteq> []"
  then have "path_of segs \<noteq> []" by (simp add: path_of_def)
  then show "normalize (path_of segs @ ''/'') = path_of segs"
    by (simp add: normalize_snoc *)
qed

lemma resolvedSegments_path_of:
  assumes good: "\<forall>s \<in> set segs. good_seg s" and p: "p = path_of segs \<or> segs \<noteq> [] \<and> p = path_of segs @ ''/''"
  shows "resolvedSegments p = Some segs"
proof -
  have plain: "\<forall>s \<in> set segs. s \<noteq> [] \<and> CHR ''/'' \<notin> set s" using good by (simp add: good_seg_def)
  have norm: "normalize p = path_of segs" using p normalize_path_of [OF plain] by auto
  have "hd (path_of segs) = CHR ''/''" "path_of segs \<noteq> []" by (cases segs; simp add: path_of_def)+
  with p have start: "p \<noteq> []" "hd p = CHR ''/''" by auto
  have "CHR 0x00 \<notin> set (path_of segs)" using good by (simp add: path_of_def good_seg_def)
  with p have nul: "CHR 0x00 \<notin> set p" by auto
  have slashes: "\<not> sublist ''//'' p"
  proof (cases "segs = []")
    case True
    with p show ?thesis by (simp add: path_of_def sublist_code)
  next
    case False
    with p show ?thesis
      using no_double_slash [OF plain, of "[]"] no_double_slash [OF plain, of "''/''"]
      by (auto simp: path_of_def)
  qed
  have segs: "segments (path_of segs) = segs" using plain by (simp add: segments_path_of)
  show ?thesis
  proof (cases "segs = []")
    case True
    with start nul slashes norm show ?thesis by (simp add: resolvedSegments_def path_of_def)
  next
    case False
    then have "path_of segs \<noteq> ''/''" using plain by (cases segs) (auto simp: path_of_def)
    with start nul slashes norm segs good show ?thesis
      by (auto simp: resolvedSegments_def Let_def list_ex_iff good_seg_def)
  qed
qed

lemma resolvedSegments_SomeD:
  assumes "resolvedSegments p = Some segs"
  shows "(\<forall>s \<in> set segs. good_seg s) \<and> normalize p = path_of segs \<and>
    segs = segments (normalize p) \<and> (p = path_of segs \<or> segs \<noteq> [] \<and> p = path_of segs @ ''/'')"
proof -
  from assms have p: "p \<noteq> []" "hd p = CHR ''/''" "CHR 0x00 \<notin> set p" "\<not> sublist ''//'' p"
    by (auto simp: resolvedSegments_def split: if_splits)
  have segs: "segs = segments (normalize p)"
    using assms p by (auto simp: resolvedSegments_def Let_def segments_def split: if_splits)
  have norm: "path_of segs = normalize p"
    unfolding segs using normalize_hd [OF p(1)] p(2) by (intro path_of_segments) auto
  have nul: "CHR 0x00 \<notin> set (normalize p)"
    using normalize_prefix [of p] p(3) by (metis UnCI set_append)
  have "good_seg s" if "s \<in> set segs" for s
  proof -
    from that segs have "normalize p \<noteq> ''/''" and s: "s \<in> set (split_byte CHR ''/'' (tl (normalize p)))"
      by (auto simp: segments_def split: if_splits)
    with assms p segs that have "s \<noteq> []" "s \<noteq> ''.''" "s \<noteq> ''..''"
      by (auto simp: resolvedSegments_def Let_def list_ex_iff split: if_splits)
    moreover have "CHR ''/'' \<notin> set s" using s by (rule split_byte_no_sep)
    moreover have "set s \<subseteq> set (path_of segs)" using that by (auto simp: path_of_def)
    ultimately show ?thesis using nul norm by (auto simp: good_seg_def)
  qed
  moreover have "p = path_of segs \<or> segs \<noteq> [] \<and> p = path_of segs @ ''/''"
    using normalize_cases [OF p(1,4)] norm by (auto simp: path_of_def)
  ultimately show ?thesis using segs norm by auto
qed

lemma resolvedSegments_iff:
  "resolvedSegments p = Some segs \<longleftrightarrow>
     (\<forall>s \<in> set segs. good_seg s) \<and> (p = path_of segs \<or> segs \<noteq> [] \<and> p = path_of segs @ ''/'')"
  using resolvedSegments_SomeD resolvedSegments_path_of by blast

lemma IsResolved_iff: "IsResolved p \<longleftrightarrow> (\<exists>segs. resolvedSegments p = Some segs)"
  by (simp add: IsResolved_def)

lemma MatchPath_iff:
  "MatchPath pattern path \<longleftrightarrow> ValidatePattern pattern = None \<and>
     (\<exists>segs. resolvedSegments path = Some segs \<and> path_covers (segments (normalize pattern)) segs)"
  by (auto simp: MatchPath_def IsResolved_iff matchSegments_eq dest: resolvedSegments_SomeD)

section \<open>Containment\<close>

lemma good_seg_plain: "good_seg s \<Longrightarrow> s \<noteq> [] \<and> CHR ''/'' \<notin> set s"
  by (simp add: good_seg_def)

lemma containedBy_path_of:
  assumes R: "\<forall>s \<in> set R. good_seg s" and P: "\<forall>s \<in> set P. good_seg s"
  shows "containedBy (path_of R) (path_of P) \<longleftrightarrow> prefix R P"
proof (cases "R = []")
  case True
  then show ?thesis by (simp add: containedBy_def path_of_def)
next
  case False
  have inj: "segments (path_of R) = R" "segments (path_of P) = P"
    using R P by (simp_all add: segments_path_of good_seg_plain)
  have not_root: "path_of R \<noteq> ''/''"
    using False R by (cases R) (auto simp: path_of_def good_seg_def)
  show ?thesis
  proof
    assume "containedBy (path_of R) (path_of P)"
    then consider "path_of P = path_of R" | t where "path_of P = path_of R @ CHR ''/'' # t"
      using not_root by (auto simp: containedBy_def prefix_def split: if_splits)
    then show "prefix R P"
    proof cases
      case 1
      then show ?thesis using inj by (metis prefix_order.refl)
    next
      case 2
      obtain q where q: "path_of R = CHR ''/'' # q" using False by (cases R) (auto simp: path_of_def)
      have "P = split_byte CHR ''/'' (q @ CHR ''/'' # t)"
        using inj(2) 2 q by (auto simp: segments_def)
      also have "\<dots> = R @ split_byte CHR ''/'' t"
        using inj(1) q not_root by (simp add: split_byte_append_any segments_def)
      finally show ?thesis by simp
    qed
  next
    assume "prefix R P"
    then obtain Q where Q: "P = R @ Q" by (auto simp: prefix_def)
    show "containedBy (path_of R) (path_of P)"
    proof (cases Q)
      case Nil
      with Q show ?thesis by (simp add: containedBy_def)
    next
      case (Cons s Q')
      with Q False have "path_of P = (path_of R @ ''/'') @ s @ concat (map (\<lambda>s. CHR ''/'' # s) Q')"
        by (simp add: path_of_def)
      then have "prefix (path_of R @ ''/'') (path_of P)" by (metis prefixI)
      then show ?thesis by (simp add: containedBy_def)
    qed
  qed
qed

text \<open>Containment as the program means it: the root's segments are a prefix of the path's.\<close>

definition lies_within :: "string \<Rightarrow> string \<Rightarrow> bool" where
  "lies_within rootp path \<longleftrightarrow>
     (\<exists>R P. resolvedSegments rootp = Some R \<and> resolvedSegments path = Some P \<and> prefix R P)"

lemma containedBy_normalize:
  assumes "IsResolved rootp" and "IsResolved path"
  shows "containedBy (normalize rootp) (normalize path) \<longleftrightarrow> lies_within rootp path"
proof -
  from assms obtain R P where R: "resolvedSegments rootp = Some R" and P: "resolvedSegments path = Some P"
    by (auto simp: IsResolved_iff)
  from resolvedSegments_SomeD [OF R] have R': "\<forall>s \<in> set R. good_seg s" "normalize rootp = path_of R"
    by blast+
  from resolvedSegments_SomeD [OF P] have P': "\<forall>s \<in> set P. good_seg s" "normalize path = path_of P"
    by blast+
  have "containedBy (normalize rootp) (normalize path) \<longleftrightarrow> prefix R P"
    unfolding R'(2) P'(2) using R'(1) P'(1) by (rule containedBy_path_of)
  then show ?thesis by (simp add: lies_within_def R P)
qed

lemma lies_within_resolved: "lies_within rootp path \<Longrightarrow> IsResolved rootp \<and> IsResolved path"
  by (auto simp: lies_within_def IsResolved_iff)

lemma IsResolved_normalize: "IsResolved p \<Longrightarrow> IsResolved (normalize p)"
  by (metis IsResolved_iff resolvedSegments_SomeD resolvedSegments_path_of)

lemma WithinRoot_lexical: "fst (WithinRoot NewPathMatcher rootp path) = lies_within rootp path"
proof (cases "IsResolved rootp \<and> IsResolved path")
  case True
  then show ?thesis by (simp add: WithinRoot_def NewPathMatcher_def Let_def containedBy_normalize)
next
  case False
  then have "\<not> lies_within rootp path" using lies_within_resolved by blast
  with False show ?thesis by (simp add: WithinRoot_def)
qed

text \<open>
  With a resolver the memo holds what the resolver answered. As long as the resolver is a function
  of the root, the answer is that of a matcher without a memo.
\<close>

definition memo_ok :: "glob_matcher \<Rightarrow> bool" where
  "memo_ok m \<longleftrightarrow>
     (\<forall>r. gmResolver m = Some r \<longrightarrow> (\<forall>k v. gmRoots m k = Some v \<longrightarrow> v = resolve_with r k))"

definition within_fresh :: "resolver \<Rightarrow> string \<Rightarrow> string \<Rightarrow> bool" where
  "within_fresh r rootp path \<longleftrightarrow> IsResolved rootp \<and> IsResolved path \<and>
     (lies_within rootp path \<or>
      snd (resolve_with r (normalize rootp)) = None \<and>
      lies_within (fst (resolve_with r (normalize rootp))) path)"

lemma resolveRoot_memo:
  "memo_ok m \<Longrightarrow> gmResolver m = Some r \<Longrightarrow>
     fst (resolveRoot m r k) = resolve_with r k \<and> memo_ok (snd (resolveRoot m r k)) \<and>
     gmResolver (snd (resolveRoot m r k)) = Some r"
  by (auto simp: resolveRoot_def memo_ok_def Let_def split: option.splits)

lemma resolve_with_resolved: "snd (resolve_with r k) = None \<Longrightarrow> IsResolved (fst (resolve_with r k))"
  by (auto simp: resolve_with_def Let_def split: prod.splits option.splits if_splits)

lemma normalize_idem: "normalize (normalize p) = normalize p"
proof (induction p rule: normalize.induct)
  case (1 p)
  show ?case
  proof (cases "length p > 1 \<and> suffix ''/'' p")
    case True
    moreover have "normalize p = normalize (butlast p)"
      using True by (subst normalize.simps) simp
    ultimately show ?thesis using "1.IH" by simp
  qed (simp add: normalize_id)
qed

lemma resolve_with_normal: "snd (resolve_with r k) = None \<Longrightarrow>
    normalize (fst (resolve_with r k)) = fst (resolve_with r k)"
proof -
  assume "snd (resolve_with r k) = None"
  then obtain p where "fst (resolve_with r k) = normalize p" "IsResolved (normalize p)"
    by (auto simp: resolve_with_def Let_def split: prod.splits option.splits if_splits)
  then show ?thesis by (simp add: normalize_idem)
qed

lemma WithinRoot_memo:
  assumes "memo_ok m" and r: "gmResolver m = Some r"
  shows "fst (WithinRoot m rootp path) = within_fresh r rootp path \<and>
    memo_ok (snd (WithinRoot m rootp path)) \<and> gmResolver (snd (WithinRoot m rootp path)) = Some r"
proof (cases "IsResolved rootp \<and> IsResolved path \<and> \<not> lies_within rootp path")
  case False
  with assms show ?thesis
    by (auto simp: WithinRoot_def within_fresh_def Let_def containedBy_normalize
        dest: lies_within_resolved)
next
  case True
  obtain rr m' where rr: "resolveRoot m r (normalize rootp) = (rr, m')" by fastforce
  with resolveRoot_memo [OF assms, of "normalize rootp"]
  have rr_eq: "rr = resolve_with r (normalize rootp)" and m': "memo_ok m'" "gmResolver m' = Some r"
    by auto
  obtain c err where c: "rr = (c, err)" by (cases rr)
  have "containedBy c (normalize path) \<longleftrightarrow> lies_within c path" if "err = None"
    using that c rr_eq True resolve_with_resolved [of r] resolve_with_normal [of r]
      containedBy_normalize [of c path] by (metis fst_conv snd_conv)
  moreover have "\<not> lies_within (normalize rootp) path"
    using True containedBy_normalize [of rootp path]
      containedBy_normalize [of "normalize rootp" path] by (simp add: IsResolved_normalize normalize_idem)
  ultimately show ?thesis
    using True r rr c rr_eq m'
    by (auto simp: WithinRoot_def within_fresh_def Let_def containedBy_normalize)
qed

section \<open>Compiled sets\<close>

lemma compile_loop_Inr:
  "compile_loop ps patterns = Inr ps' \<longleftrightarrow>
     (\<forall>p \<in> set patterns. ValidatePattern p = None) \<and>
     ps' = \<lparr>psRaw = psRaw ps @ patterns,
            psSegs = psSegs ps @ map (\<lambda>p. segments (normalize p)) patterns\<rparr>"
  by (induction ps patterns rule: compile_loop.induct) (auto split: option.splits)

lemma CompilePatterns_Inr:
  "CompilePatterns patterns = Inr ps \<longleftrightarrow>
     (\<forall>p \<in> set patterns. ValidatePattern p = None) \<and>
     ps = \<lparr>psRaw = patterns, psSegs = map (\<lambda>p. segments (normalize p)) patterns\<rparr>"
  by (simp add: CompilePatterns_def compile_loop_Inr)

lemma compile_loop_Inl:
  "compile_loop ps patterns = Inl err \<longleftrightarrow>
     (\<exists>p. find (\<lambda>p. ValidatePattern p \<noteq> None) patterns = Some p \<and> ValidatePattern p = Some err)"
  by (induction ps patterns rule: compile_loop.induct) (auto split: option.splits)

lemma first_index_map: "first_index P (map f xs) = first_index (\<lambda>x. P (f x)) xs"
  by (induction xs) auto

lemma first_index_cong: "(\<And>x. x \<in> set xs \<Longrightarrow> P x = Q x) \<Longrightarrow> first_index P xs = first_index Q xs"
  by (induction xs) auto

lemma first_index_False [simp]: "first_index (\<lambda>_. False) xs = None"
  by (induction xs) auto

lemma first_index_None: "first_index P xs = None \<longleftrightarrow> (\<forall>x \<in> set xs. \<not> P x)"
  by (induction xs) auto

lemma psMatchIndex_compiled:
  assumes "CompilePatterns patterns = Inr ps"
  shows "psMatchIndex (Some ps) path = first_index (\<lambda>p. MatchPath p path) patterns"
proof (cases "resolvedSegments path")
  case None
  then have "\<not> MatchPath p path" for p by (simp add: MatchPath_iff)
  with None show ?thesis by (simp add: psMatchIndex_def)
next
  case (Some segs)
  have "matchSegments (segments (normalize p)) segs = MatchPath p path" if "p \<in> set patterns" for p
    using assms that Some by (simp add: CompilePatterns_Inr MatchPath_iff matchSegments_eq)
  then show ?thesis
    using assms Some
    by (auto simp: psMatchIndex_def CompilePatterns_Inr first_index_map intro!: first_index_cong)
qed

section \<open>The path matcher as an interface\<close>

text \<open>
  \<open>PathMatcher\<close> of \<open>validator.go\<close>: what the selector matcher may rely on, whichever
  implementation it holds. Both operations fail closed, and containment accepts at least the
  lexically contained paths.
\<close>

locale path_matcher =
  fixes Match :: "string \<Rightarrow> string \<Rightarrow> bool"
    and Within :: "string \<Rightarrow> string \<Rightarrow> bool"
  assumes Match_closed: "Match pattern path \<Longrightarrow> ValidatePattern pattern = None \<and> IsResolved path"
    and Within_closed: "Within rootp path \<Longrightarrow> IsResolved rootp \<and> IsResolved path"
    and Within_lexical: "lies_within rootp path \<Longrightarrow> Within rootp path"
begin

lemma unresolved_matches_nothing: "\<not> IsResolved path \<Longrightarrow> \<not> Match pattern path \<and> \<not> Within rootp path"
  using Match_closed Within_closed by blast

lemma root_contains_itself: "IsResolved rootp \<Longrightarrow> Within rootp rootp"
  by (rule Within_lexical) (auto simp: lies_within_def IsResolved_iff)

end

interpretation lexical: path_matcher MatchPath "\<lambda>r p. fst (WithinRoot NewPathMatcher r p)"
  by unfold_locales (auto simp: MatchPath_iff IsResolved_iff WithinRoot_lexical dest: lies_within_resolved)

lemma memo_ok_new: "memo_ok (NewPathMatcherWithResolver r)"
  by (simp add: memo_ok_def NewPathMatcherWithResolver_def)

lemma WithinRoot_new_resolver:
  "fst (WithinRoot (NewPathMatcherWithResolver r) rootp path) = within_fresh r rootp path"
  using WithinRoot_memo [OF memo_ok_new] by (simp add: NewPathMatcherWithResolver_def)

interpretation resolving: path_matcher MatchPath
  "\<lambda>rt p. fst (WithinRoot (NewPathMatcherWithResolver r) rt p)" for r
  by unfold_locales
    (auto simp: MatchPath_iff IsResolved_iff WithinRoot_new_resolver within_fresh_def
      dest: lies_within_resolved)

section \<open>Queries in sequence\<close>

text \<open>
  A matcher built with a resolver resolves a root once and remembers the answer, so its state
  changes from query to query. The answers to a session's containment queries, in order:
\<close>

fun ask_all :: "glob_matcher \<Rightarrow> (string \<times> string) list \<Rightarrow> bool list" where
  "ask_all m [] = []"
| "ask_all m ((rootp, path) # qs) =
     (case WithinRoot m rootp path of (b, m') \<Rightarrow> b # ask_all m' qs)"

lemma ask_all_memo:
  "memo_ok m \<Longrightarrow> gmResolver m = Some r \<Longrightarrow>
     ask_all m qs = map (\<lambda>(rootp, path). within_fresh r rootp path) qs"
proof (induction qs arbitrary: m)
  case (Cons q qs)
  obtain rootp path where q: "q = (rootp, path)" by fastforce
  show ?case
    using Cons.IH[of "snd (WithinRoot m rootp path)"] WithinRoot_memo[OF Cons.prems, of rootp path]
    by (cases "WithinRoot m rootp path") (auto simp: q)
qed simp

section \<open>Properties\<close>

text \<open>C25: the scanning loop of \<open>matchSegment\<close>, with its single remembered star and its
  restarts, always returns, and returns what the declarative reading of the pattern says: a star
  stands for any run of bytes of the segment, a question mark for one byte, a class for one byte
  it lists.\<close>

theorem segment_loop_decides_glob:
  "seg_loop pattern s 0 0 None = Some (seg_glob pattern s)"
  by (rule seg_loop_start)

text \<open>C37: \<open>MatchPath\<close> accepts a path exactly when the pattern is valid, the path is resolved, and
  the pattern's segments cover the path's segments in order, a double star standing for any number
  of whole segments and no other pattern segment for more than one.\<close>

theorem MatchPath_covers:
  "MatchPath pattern path \<longleftrightarrow> ValidatePattern pattern = None \<and>
     (\<exists>segs. resolvedSegments path = Some segs \<and> path_covers (segments (normalize pattern)) segs)"
  by (rule MatchPath_iff)

text \<open>a pattern without a double star reaches exactly its own depth: however its stars are
  placed, every path it matches has as many segments as it has, so a single star never crosses a
  directory boundary.\<close>

theorem star_stays_in_its_directory:
  assumes "MatchPath pattern path" and "''**'' \<notin> set (segments (normalize pattern))"
  shows "length (segments (normalize path)) = length (segments (normalize pattern))"
  using assms path_covers_same_depth resolvedSegments_SomeD
  by (fastforce simp: MatchPath_iff)

theorem star_stays_in_its_directory_witness:
  "MatchPath ''/src/*.c'' ''/src/main.c'' \<and>
   length (segments (normalize ''/src/main.c'')) = length (segments (normalize ''/src/*.c''))"
proof -
  have "MatchPath ''/src/*.c'' ''/src/main.c''" by code_simp
  moreover have "''**'' \<notin> set (segments (normalize ''/src/*.c''))" by code_simp
  ultimately show ?thesis using star_stays_in_its_directory by blast
qed

text \<open>an accepted path is written in one way only: \<open>resolvedSegments\<close> answers with the
  segments between the slashes exactly when each of them is a plain name (not empty, not a dot or
  dot-dot, no slash and no NUL byte) and the path is those names joined, with at most one trailing
  slash.\<close>

theorem resolved_path_roundtrip:
  "resolvedSegments p = Some segs \<longleftrightarrow>
     (\<forall>s \<in> set segs. good_seg s) \<and> (p = path_of segs \<or> segs \<noteq> [] \<and> p = path_of segs @ ''/'')"
  by (rule resolvedSegments_iff)

theorem resolved_path_roundtrip_witness:
  "resolvedSegments ''/src/main.c/'' = Some [''src'', ''main.c'']"
proof -
  have "\<forall>s \<in> set [''src'', ''main.c'']. good_seg s" by (simp add: good_seg_def)
  moreover have "''/src/main.c/'' = path_of [''src'', ''main.c''] @ ''/''" by (simp add: path_of_def)
  ultimately show ?thesis
    using resolved_path_roundtrip[of "''/src/main.c/''" "[''src'', ''main.c'']"] by blast
qed

text \<open>without a resolver, workspace containment is containment of segment lists: a path lies
  within a root exactly when both are resolved and the root's segments are the first segments of
  the path. A sibling whose name merely starts with the root's name is outside.\<close>

theorem WithinRoot_is_segment_prefix:
  "fst (WithinRoot NewPathMatcher rootp path) \<longleftrightarrow>
     (\<exists>R P. resolvedSegments rootp = Some R \<and> resolvedSegments path = Some P \<and> prefix R P)"
  by (simp add: WithinRoot_lexical lies_within_def)

text \<open>the resolver's memo is invisible. Whatever containment queries a matcher has answered
  before, and whatever their order, each answer is the one a matcher asking the resolver afresh
  would give: lexical containment, or containment in the resolver's canonical root when the
  resolver answers without an error and with a resolved path.\<close>

theorem resolver_memo_is_transparent:
  "ask_all (NewPathMatcherWithResolver r) qs = map (\<lambda>(rootp, path). within_fresh r rootp path) qs"
  by (rule ask_all_memo[OF memo_ok_new]) (simp add: NewPathMatcherWithResolver_def)

text \<open>a compiled pattern set answers like the patterns it was compiled from: when
  \<open>CompilePatterns\<close> accepts a list, \<open>MatchIndex\<close> is the position of the first pattern that
  \<open>MatchPath\<close> accepts the path with, and there is none when no pattern does.\<close>

theorem compiled_set_is_first_match:
  assumes "CompilePatterns patterns = Inr ps"
  shows "psMatchIndex (Some ps) path = first_index (\<lambda>p. MatchPath p path) patterns"
  using assms by (rule psMatchIndex_compiled)


theorem compiled_set_is_first_match_witness:
  "psMatchIndex (Some \<lparr>psRaw = [''/tmp'', ''/src/**''], psSegs = [[''tmp''], [''src'', ''**'']]\<rparr>)
     ''/src/main.c'' = first_index (\<lambda>p. MatchPath p ''/src/main.c'') [''/tmp'', ''/src/**'']"
proof -
  have "CompilePatterns [''/tmp'', ''/src/**''] =
      Inr \<lparr>psRaw = [''/tmp'', ''/src/**''], psSegs = [[''tmp''], [''src'', ''**'']]\<rparr>"
    by code_simp
  then show ?thesis by (rule compiled_set_is_first_match)
qed

end
