(* ===== verification/GoNet.thy ===== *)
theory GoNet
  imports Prelude
begin

text \<open>
  The parts of Go's standard library that the matchers call on network targets:
  \<open>strconv.Atoi\<close>, \<open>strconv.Itoa\<close>, \<open>net.SplitHostPort\<close>, \<open>net.JoinHostPort\<close>,
  \<open>netip.ParseAddr\<close>, \<open>netip.ParsePrefix\<close> and the methods of their results. An error
  value of these functions is only ever compared with \<open>nil\<close> by the program, so a failing call
  is \<open>None\<close>.
\<close>

unbundle bit_operations_syntax

section \<open>Decimal numbers\<close>

definition is_digit :: "char \<Rightarrow> bool" where
  "is_digit c = (CHR ''0'' \<le> c \<and> c \<le> CHR ''9'')"

definition digit_val :: "char \<Rightarrow> nat" where
  "digit_val c = of_char c - 48"

definition digit_char :: "nat \<Rightarrow> char" where
  "digit_char d = char_of (d + 48)"

definition dec_val :: "string \<Rightarrow> nat" where
  "dec_val s = foldl (\<lambda>v c. v * 10 + digit_val c) 0 s"

fun itoa_nat :: "nat \<Rightarrow> string" where
  "itoa_nat n = (if n < 10 then [digit_char n] else itoa_nat (n div 10) @ [digit_char (n mod 10)])"

declare itoa_nat.simps [simp del]

definition itoa :: "int \<Rightarrow> string" where
  "itoa i = (if i < 0 then CHR ''-'' # itoa_nat (nat (- i)) else itoa_nat (nat i))"

text \<open>\<open>Atoi\<close> takes an optional sign and decimal digits, and refuses what a 64-bit int cannot hold.\<close>

definition atoi :: "string \<Rightarrow> int option" where
  "atoi s =
     (let neg = (s \<noteq> [] \<and> hd s = CHR ''-'');
          ds = (if s \<noteq> [] \<and> (hd s = CHR ''-'' \<or> hd s = CHR ''+'') then tl s else s);
          v = (if neg then - int (dec_val ds) else int (dec_val ds))
      in if ds \<noteq> [] \<and> list_all is_digit ds \<and> - (2 ^ 63) \<le> v \<and> v < 2 ^ 63 then Some v else None)"

section \<open>Host and port\<close>

definition SplitHostPort :: "string \<Rightarrow> (string \<times> string) option" where
  "SplitHostPort hostport =
     (case last_index_byte CHR '':'' hostport of
        None \<Rightarrow> None
      | Some i \<Rightarrow>
          (if hd hostport = CHR ''['' then
             (case index_byte CHR '']'' hostport of
                None \<Rightarrow> None
              | Some end \<Rightarrow>
                  (if end + 1 \<noteq> i then None
                   else if CHR ''['' \<in> set (drop 1 hostport) then None
                   else if CHR '']'' \<in> set (drop (end + 1) hostport) then None
                   else Some (take (end - 1) (drop 1 hostport), drop (i + 1) hostport)))
           else
             (if CHR '':'' \<in> set (take i hostport) then None
              else if CHR ''['' \<in> set hostport then None
              else if CHR '']'' \<in> set hostport then None
              else Some (take i hostport, drop (i + 1) hostport))))"

definition JoinHostPort :: "string \<Rightarrow> string \<Rightarrow> string" where
  "JoinHostPort host port =
     (if CHR '':'' \<in> set host then ''['' @ host @ '']:'' @ port else host @ '':'' @ port)"

section \<open>Addresses\<close>

text \<open>An address with its zone; an IPv4 address has none.\<close>

datatype addr = V4 "32 word" | V6 "128 word" string

fun addr_zone :: "addr \<Rightarrow> string" where
  "addr_zone (V4 w) = []"
| "addr_zone (V6 w z) = z"

fun without_zone :: "addr \<Rightarrow> addr" where
  "without_zone (V4 w) = V4 w"
| "without_zone (V6 w z) = V6 w []"

text \<open>\<open>Unmap\<close> turns an IPv4-mapped IPv6 address, \<open>::ffff:0:0/96\<close>, into the IPv4 one.\<close>

fun unmap :: "addr \<Rightarrow> addr" where
  "unmap (V4 w) = V4 w"
| "unmap (V6 w z) = (if drop_bit 32 w = 0xffff then V4 (ucast w) else V6 w z)"

fun addr_bitlen :: "addr \<Rightarrow> nat" where
  "addr_bitlen (V4 w) = 32"
| "addr_bitlen (V6 w z) = 128"

text \<open>
  A dotted quad: four fields of one to three digits, no leading zero, each at most 255.
\<close>

definition octet :: "string \<Rightarrow> nat option" where
  "octet s =
     (if s \<noteq> [] \<and> list_all is_digit s \<and> (length s = 1 \<or> hd s \<noteq> CHR ''0'') \<and> dec_val s \<le> 255
      then Some (dec_val s) else None)"

definition octets4 :: "string \<Rightarrow> nat list option" where
  "octets4 s =
     (case split_byte CHR ''.'' s of
        [a, b, c, d] \<Rightarrow>
          (case (octet a, octet b, octet c, octet d) of
             (Some a, Some b, Some c, Some d) \<Rightarrow> Some [a, b, c, d]
           | _ \<Rightarrow> None)
      | _ \<Rightarrow> None)"

definition word_of_bytes :: "nat list \<Rightarrow> 'a :: len word" where
  "word_of_bytes bs = foldl (\<lambda>w b. w * 256 + of_nat b) 0 bs"

definition parse_ipv4 :: "string \<Rightarrow> addr option" where
  "parse_ipv4 s = map_option (\<lambda>bs. V4 (word_of_bytes bs)) (octets4 s)"

definition is_hex :: "char \<Rightarrow> bool" where
  "is_hex c = (is_digit c \<or> CHR ''a'' \<le> c \<and> c \<le> CHR ''f'' \<or> CHR ''A'' \<le> c \<and> c \<le> CHR ''F'')"

definition hex_val :: "char \<Rightarrow> nat" where
  "hex_val c =
     (if is_digit c then of_char c - 48
      else if CHR ''a'' \<le> c \<and> c \<le> CHR ''f'' then of_char c - 87
      else of_char c - 55)"

definition hexs_val :: "string \<Rightarrow> nat" where
  "hexs_val s = foldl (\<lambda>v c. v * 16 + hex_val c) 0 s"

text \<open>
  The loop of the IPv6 parser: the bytes so far, the position of the ellipsis, the text left. It
  returns them when it stops and \<open>None\<close> on an error.
\<close>

function ipv6_loop ::
  "nat list \<Rightarrow> nat option \<Rightarrow> string \<Rightarrow> (nat list \<times> nat option \<times> string) option" where
  "ipv6_loop ip ellipsis s =
     (if length ip < 16 then
        (let hex = takeWhile is_hex s; rest = dropWhile is_hex s in
         if hex = [] \<or> length hex > 4 then None
         else if rest \<noteq> [] \<and> hd rest = CHR ''.'' then
           (if ellipsis = None \<and> length ip \<noteq> 12 then None
            else if length ip + 4 > 16 then None
            else map_option (\<lambda>bs. (ip @ bs, ellipsis, [])) (octets4 s))
         else
           (let ip = ip @ [hexs_val hex div 256, hexs_val hex mod 256] in
            if rest = [] then Some (ip, ellipsis, [])
            else if hd rest \<noteq> CHR '':'' \<or> tl rest = [] then None
            else if hd (tl rest) = CHR '':'' then
              (if ellipsis \<noteq> None then None
               else if tl (tl rest) = [] then Some (ip, Some (length ip), [])
               else ipv6_loop ip (Some (length ip)) (tl (tl rest)))
            else ipv6_loop ip ellipsis (tl rest)))
      else Some (ip, ellipsis, s))"
  by pat_completeness auto
termination by (relation "measure (\<lambda>(ip, ellipsis, s). 16 - length ip)") auto

declare ipv6_loop.simps [simp del]

definition ipv6_finish :: "nat list \<times> nat option \<times> string \<Rightarrow> nat list option" where
  "ipv6_finish r =
     (case r of
        (ip, ellipsis, s) \<Rightarrow>
          (if s \<noteq> [] then None
           else if length ip < 16 then
             map_option (\<lambda>e. take e ip @ replicate (16 - length ip) 0 @ drop e ip) ellipsis
           else if ellipsis \<noteq> None then None
           else Some ip))"

definition parse_ipv6 :: "string \<Rightarrow> addr option" where
  "parse_ipv6 inp =
     (let (s, zone, bad) =
        (case index_byte CHR ''%'' inp of
           None \<Rightarrow> (inp, [], False)
         | Some i \<Rightarrow> (take i inp, drop (i + 1) inp, drop (i + 1) inp = []))
      in
      if bad then None
      else if s = ''::'' then Some (V6 0 zone)
      else
        map_option (\<lambda>bs. V6 (word_of_bytes bs) zone)
          (Option.bind
            (if prefix ''::'' s then ipv6_loop [] (Some 0) (drop 2 s) else ipv6_loop [] None s)
            ipv6_finish))"

text \<open>The first of the three special bytes decides how the text is read.\<close>

definition ParseAddr :: "string \<Rightarrow> addr option" where
  "ParseAddr s =
     (case find (\<lambda>c. c = CHR ''.'' \<or> c = CHR '':'' \<or> c = CHR ''%'') s of
        None \<Rightarrow> None
      | Some c \<Rightarrow>
          (if c = CHR ''.'' then parse_ipv4 s
           else if c = CHR '':'' then parse_ipv6 s
           else None))"

section \<open>Prefixes\<close>

datatype net_prefix = NetPrefix (prefix_addr: addr) (prefix_bits: nat)

definition ParsePrefix :: "string \<Rightarrow> net_prefix option" where
  "ParsePrefix s =
     (case last_index_byte CHR ''/'' s of
        None \<Rightarrow> None
      | Some i \<Rightarrow>
          (case ParseAddr (take i s) of
             None \<Rightarrow> None
           | Some ip \<Rightarrow>
               (let bits = drop (i + 1) s in
                if addr_zone ip \<noteq> [] then None
                else if length bits > 1 \<and> (hd bits < CHR ''1'' \<or> CHR ''9'' < hd bits) then None
                else
                  (case atoi bits of
                     None \<Rightarrow> None
                   | Some n \<Rightarrow>
                       if n < 0 \<or> int (addr_bitlen ip) < n then None
                       else Some (NetPrefix ip (nat n))))))"

fun prefix_masked :: "net_prefix \<Rightarrow> net_prefix" where
  "prefix_masked (NetPrefix (V4 w) b) = NetPrefix (V4 (w AND NOT (mask (32 - b)))) b"
| "prefix_masked (NetPrefix (V6 w z) b) = NetPrefix (V6 (w AND NOT (mask (128 - b))) z) b"

fun prefix_contains :: "net_prefix \<Rightarrow> addr \<Rightarrow> bool" where
  "prefix_contains (NetPrefix (V4 p) b) (V4 w) = (drop_bit (32 - b) (w XOR p) = 0)"
| "prefix_contains (NetPrefix (V6 p _) b) (V6 w z) =
     (z = [] \<and> (w XOR p) AND NOT (mask (128 - b)) = 0)"
| "prefix_contains _ _ = False"

section \<open>Laws\<close>

lemma digit_char_laws:
  "d < 10 \<Longrightarrow> is_digit (digit_char d) \<and> digit_val (digit_char d) = d"
proof -
  assume "d < 10"
  then have "d \<in> {0, 1, 2, 3, 4, 5, 6, 7, 8, 9}" by auto
  then show ?thesis by (auto simp: is_digit_def digit_val_def digit_char_def less_eq_char_def)
qed

lemma dec_val_snoc: "dec_val (s @ [c]) = dec_val s * 10 + digit_val c"
  by (simp add: dec_val_def)

lemma itoa_nat_laws: "itoa_nat n \<noteq> [] \<and> list_all is_digit (itoa_nat n) \<and> dec_val (itoa_nat n) = n"
proof (induction n rule: itoa_nat.induct)
  case (1 n)
  show ?case
  proof (cases "n < 10")
    case True
    then show ?thesis
      using digit_char_laws [OF True] by (subst (1 2 3) itoa_nat.simps) (simp add: dec_val_def)
  next
    case False
    moreover have "n mod 10 < 10" by simp
    ultimately show ?thesis
      using 1 digit_char_laws [of "n mod 10"]
      by (subst (1 2 3) itoa_nat.simps) (simp add: dec_val_snoc)
  qed
qed

lemma digit_not_sign: "is_digit c \<Longrightarrow> c \<noteq> CHR ''-'' \<and> c \<noteq> CHR ''+'' \<and> c \<noteq> CHR '':'' \<and> c \<noteq> CHR ''['' \<and> c \<noteq> CHR '']''"
  by (auto simp: is_digit_def less_eq_char_def)

lemma itoa_digits: "0 \<le> n \<Longrightarrow> c \<in> set (itoa n) \<Longrightarrow> is_digit c"
  using itoa_nat_laws [of "nat n"] by (auto simp: itoa_def list_all_iff)

lemma itoa_nonempty: "0 \<le> n \<Longrightarrow> itoa n \<noteq> []"
  using itoa_nat_laws [of "nat n"] by (auto simp: itoa_def)

lemma atoi_itoa: "0 \<le> n \<Longrightarrow> n < 2 ^ 63 \<Longrightarrow> atoi (itoa n) = Some n"
proof -
  assume n: "0 \<le> n" "n < 2 ^ 63"
  obtain c t where ct: "itoa n = c # t" using itoa_nat_laws [of "nat n"] n
    by (cases "itoa n") (auto simp: itoa_def)
  then have "is_digit c" using itoa_digits [OF n(1)] by simp
  then have "c \<noteq> CHR ''-''" "c \<noteq> CHR ''+''" by (auto dest: digit_not_sign)
  moreover have "dec_val (c # t) = nat n" "list_all is_digit (c # t)"
    using itoa_nat_laws [of "nat n"] n ct by (simp_all add: itoa_def)
  ultimately show ?thesis using n by (simp add: atoi_def ct)
qed

lemma SplitHostPort_JoinHostPort:
  assumes "CHR ''['' \<notin> set host" and "CHR '']'' \<notin> set host"
    and port: "CHR '':'' \<notin> set port" "CHR ''['' \<notin> set port" "CHR '']'' \<notin> set port"
  shows "SplitHostPort (JoinHostPort host port) = Some (host, port)"
proof (cases "CHR '':'' \<in> set host")
  case True
  have "last_index_byte CHR '':'' (''['' @ host @ '']:'' @ port) = Some (length host + 2)"
    using last_index_byte_append [OF port(1), of "''['' @ host @ '']''"] by simp
  moreover have "index_byte CHR '']'' (''['' @ host @ '']:'' @ port) = Some (length host + 1)"
    using index_byte_append [of "CHR '']''" "''['' @ host" "'':'' @ port"] assms(2) by simp
  ultimately show ?thesis
    using True assms by (simp add: SplitHostPort_def JoinHostPort_def)
next
  case False
  have "hd (host @ '':'' @ port) \<noteq> CHR ''[''" using assms(1) by (cases host) auto
  moreover have "last_index_byte CHR '':'' (host @ '':'' @ port) = Some (length host)"
    using last_index_byte_append [OF port(1), of host] by simp
  ultimately show ?thesis
    using False assms by (simp add: SplitHostPort_def JoinHostPort_def)
qed

lemma xor_eq_zero_iff: "(a :: 'a :: len word) XOR b = 0 \<longleftrightarrow> a = b"
  by (metis xor.right_neutral xor_self_eq xor.left_commute)

lemma high_bits_zero: "(x :: 'a :: len word) AND NOT (mask k) = 0 \<longleftrightarrow> drop_bit k x = 0"
proof -
  have "x AND NOT (mask k) = push_bit k (drop_bit k x)"
    by (rule bit_eqI) (auto simp: bit_simps)
  moreover have "drop_bit k (push_bit k (drop_bit k x)) = drop_bit k x"
    by (rule bit_eqI) (auto simp: bit_simps intro: bit_imp_le_length dest: bit_imp_le_length)
  ultimately show ?thesis by (metis drop_bit_of_0 push_bit_of_0)
qed

lemma drop_bit_masked: "drop_bit k ((p :: 'a :: len word) AND NOT (mask k)) = drop_bit k p"
  by (rule bit_eqI) (auto simp: bit_simps dest: bit_imp_le_length)

lemmas drop_bit_masked' = drop_bit_masked [unfolded drop_bit_and]

text \<open>Containment compares the leading bits; masking the prefix first changes nothing.\<close>

lemma prefix_contains_V4:
  "prefix_contains (NetPrefix (V4 p) b) (V4 w) \<longleftrightarrow> drop_bit (32 - b) w = drop_bit (32 - b) p"
  by (simp add: drop_bit_xor xor_eq_zero_iff)

lemma prefix_contains_V6:
  "prefix_contains (NetPrefix (V6 p z) b) (V6 w []) \<longleftrightarrow> drop_bit (128 - b) w = drop_bit (128 - b) p"
  by (simp add: high_bits_zero drop_bit_xor xor_eq_zero_iff)

lemma prefix_contains_masked: "prefix_contains (prefix_masked pfx) a = prefix_contains pfx a"
proof (cases pfx)
  case (NetPrefix ip b)
  then show ?thesis
    by (cases ip; cases a)
      (simp_all add: drop_bit_xor xor_eq_zero_iff high_bits_zero drop_bit_masked')
qed

lemma addr_zone_unmap: "addr_zone (without_zone (unmap a)) = []"
  by (cases a) auto

lemma unmap_idem: "unmap (without_zone (unmap a)) = without_zone (unmap a)"
  by (cases a) auto

end
