(* ===== verification/GoText.thy ===== *)
theory GoText
  imports Prelude
begin

text \<open>
  White space and case folding of Go's \<open>strings\<close> package, as far as the program uses them:
  \<open>strings.Fields\<close>, \<open>strings.TrimSpace\<close>, \<open>strings.TrimSpace(s) == ""\<close> and \<open>strings.EqualFold\<close>.
\<close>

section \<open>White space\<close>

text \<open>
  The UTF-8 encodings of the space characters \<open>unicode.IsSpace\<close> accepts beyond ASCII. None of
  their first bytes can occur inside another encoded character, so looking for them byte by byte
  finds what decoding finds, also in text that is not valid UTF-8.
\<close>

definition wide_spaces :: "string list" where
  "wide_spaces =
     [[CHR 0xC2, CHR 0x85], [CHR 0xC2, CHR 0xA0], [CHR 0xE1, CHR 0x9A, CHR 0x80],
      [CHR 0xE2, CHR 0x80, CHR 0x80], [CHR 0xE2, CHR 0x80, CHR 0x81], [CHR 0xE2, CHR 0x80, CHR 0x82],
      [CHR 0xE2, CHR 0x80, CHR 0x83], [CHR 0xE2, CHR 0x80, CHR 0x84], [CHR 0xE2, CHR 0x80, CHR 0x85],
      [CHR 0xE2, CHR 0x80, CHR 0x86], [CHR 0xE2, CHR 0x80, CHR 0x87], [CHR 0xE2, CHR 0x80, CHR 0x88],
      [CHR 0xE2, CHR 0x80, CHR 0x89], [CHR 0xE2, CHR 0x80, CHR 0x8A], [CHR 0xE2, CHR 0x80, CHR 0xA8],
      [CHR 0xE2, CHR 0x80, CHR 0xA9], [CHR 0xE2, CHR 0x80, CHR 0xAF], [CHR 0xE2, CHR 0x81, CHR 0x9F],
      [CHR 0xE3, CHR 0x80, CHR 0x80]]"

definition ascii_spaces :: "char list" where
  "ascii_spaces = [CHR 0x09, CHR 0x0A, CHR 0x0B, CHR 0x0C, CHR 0x0D, CHR '' '']"

text \<open>The length in bytes of the space character a text starts with, 0 when it starts with none.\<close>

definition space_len :: "string \<Rightarrow> nat" where
  "space_len s =
     (if s \<noteq> [] \<and> hd s \<in> set ascii_spaces then 1
      else (case find (\<lambda>w. prefix w s) wide_spaces of Some w \<Rightarrow> length w | None \<Rightarrow> 0))"

text \<open>\<open>fields_from cur s\<close>: the fields of \<open>s\<close>, \<open>cur\<close> being the bytes of the open field, reversed.\<close>

function fields_from :: "string \<Rightarrow> string \<Rightarrow> string list" where
  "fields_from cur [] = (if cur = [] then [] else [rev cur])"
| "fields_from cur (c # s) =
     (if space_len (c # s) = 0 then fields_from (c # cur) s
      else (if cur = [] then [] else [rev cur]) @ fields_from [] (drop (space_len (c # s)) (c # s)))"
  by pat_completeness auto
termination by (relation "measure (\<lambda>(cur, s). length s)") auto

definition Fields :: "string \<Rightarrow> string list" where
  "Fields s = fields_from [] s"

definition is_blank :: "string \<Rightarrow> bool" where
  "is_blank s = (Fields s = [])"

text \<open>\<open>strings.TrimSpace\<close>: the space characters at the front, then those at the back.\<close>

definition space_len_back :: "string \<Rightarrow> nat" where
  "space_len_back s =
     (if s \<noteq> [] \<and> last s \<in> set ascii_spaces then 1
      else (case find (\<lambda>w. suffix w s) wide_spaces of Some w \<Rightarrow> length w | None \<Rightarrow> 0))"

function trim_front :: "string \<Rightarrow> string" where
  "trim_front s =
     (if s = [] \<or> space_len s = 0 then s else trim_front (drop (space_len s) s))"
  by pat_completeness auto
termination by (relation "measure length") auto

function trim_back :: "string \<Rightarrow> string" where
  "trim_back s =
     (if s = [] \<or> space_len_back s = 0 then s
      else trim_back (take (length s - space_len_back s) s))"
  by pat_completeness auto
termination by (relation "measure length") auto

definition trim_space :: "string \<Rightarrow> string" where
  "trim_space s = trim_back (trim_front s)"

declare trim_front.simps [simp del] trim_back.simps [simp del]

section \<open>Case folding\<close>

text \<open>
  \<open>strings.EqualFold\<close> compares ASCII text byte by byte. Where a byte beyond ASCII occurs it
  consults the Unicode tables of the standard library: \<open>ufold\<close>, a parameter.
\<close>

definition is_ascii :: "string \<Rightarrow> bool" where
  "is_ascii s = list_all (\<lambda>c. c < CHR 0x80) s"

definition equal_fold :: "(string \<Rightarrow> string \<Rightarrow> bool) \<Rightarrow> string \<Rightarrow> string \<Rightarrow> bool" where
  "equal_fold ufold s t =
     (if is_ascii s \<and> is_ascii t then to_lower s = to_lower t else ufold s t)"

lemma equal_fold_refl_ascii: "is_ascii s \<Longrightarrow> equal_fold ufold s s"
  by (simp add: equal_fold_def)

end
