(* ===== verification/Network.thy ===== *)
theory Network
  imports Capability GoNet
begin

text \<open>
  Host and port matching (\<open>internal/validator/network.go\<close>): classification of host patterns and
  observed destinations, the match itself, the "could not be compared" test and the admission
  check of a host pattern.
\<close>

section \<open>Names\<close>

definition byte_range :: "char \<Rightarrow> char \<Rightarrow> char \<Rightarrow> bool" where
  "byte_range lo hi c = (lo \<le> c \<and> c \<le> hi)"

definition is_label_byte :: "char \<Rightarrow> bool" where
  "is_label_byte c =
     (byte_range CHR ''a'' CHR ''z'' c \<or> byte_range CHR ''A'' CHR ''Z'' c \<or>
      byte_range CHR ''0'' CHR ''9'' c \<or> c = CHR ''-'' \<or> c = CHR ''_'')"

definition valid_label :: "string \<Rightarrow> bool" where
  "valid_label label =
     (if label = [] \<or> length label > 63 then False
      else if hd label = CHR ''-'' \<or> last label = CHR ''-'' then False
      else list_all is_label_byte label)"

definition isValidName :: "string \<Rightarrow> bool" where
  "isValidName s =
     (let s = trim_suffix s ''.'' in
      if s = [] \<or> length s > 253 then False
      else list_all valid_label (split_byte CHR ''.'' s))"

text \<open>
  \<open>normalizeHost\<close> is only applied to valid names, which are ASCII, so \<open>strings.ToLower\<close> is
  its ASCII half.
\<close>

definition normalizeHost :: "string \<Rightarrow> string" where
  "normalizeHost h = to_lower (trim_suffix h ''.'')"

section \<open>Classification\<close>

datatype host_kind =
  HostKindInvalid | HostKindIP | HostKindCIDR | HostKindName | HostKindWildcard

definition ClassifyHost :: "string \<Rightarrow> host_kind" where
  "ClassifyHost s =
     (if s = [] then HostKindInvalid
      else if prefix ''*.'' s then
        (if isValidName (drop 2 s) then HostKindWildcard else HostKindInvalid)
      else if CHR ''/'' \<in> set s then
        (case ParsePrefix s of
           None \<Rightarrow> HostKindInvalid
         | Some p \<Rightarrow> if addr_zone (prefix_addr p) \<noteq> [] then HostKindInvalid else HostKindCIDR)
      else if ParseAddr s \<noteq> None then HostKindIP
      else if isValidName s then HostKindName
      else HostKindInvalid)"

definition parseAddr :: "string \<Rightarrow> addr option" where
  "parseAddr s = map_option (\<lambda>a. without_zone (unmap a)) (ParseAddr s)"

section \<open>Matching\<close>

definition MatchHost :: "string \<Rightarrow> string \<Rightarrow> bool" where
  "MatchHost pattern hostOrIP =
     (let patternKind = ClassifyHost pattern; observedKind = ClassifyHost hostOrIP in
      if patternKind = HostKindInvalid then False
      else if observedKind \<noteq> HostKindIP \<and> observedKind \<noteq> HostKindName then False
      else
        (case patternKind of
           HostKindIP \<Rightarrow>
             (if observedKind \<noteq> HostKindIP then False
              else
                (case (parseAddr pattern, parseAddr hostOrIP) of
                   (Some want, Some got) \<Rightarrow> want = got
                 | _ \<Rightarrow> False))
         | HostKindCIDR \<Rightarrow>
             (if observedKind \<noteq> HostKindIP then False
              else
                (case ParsePrefix pattern of
                   None \<Rightarrow> False
                 | Some p \<Rightarrow>
                     (case parseAddr hostOrIP of
                        None \<Rightarrow> False
                      | Some got \<Rightarrow> prefix_contains (prefix_masked p) got)))
         | HostKindName \<Rightarrow>
             (if observedKind \<noteq> HostKindName then False
              else normalizeHost pattern = normalizeHost hostOrIP)
         | HostKindWildcard \<Rightarrow>
             (if observedKind \<noteq> HostKindName then False
              else
                (let suff = normalizeHost (drop 2 pattern);
                     host = normalizeHost hostOrIP;
                     (rest, found) = cut_suffix host (CHR ''.'' # suff)
                 in found \<and> rest \<noteq> [] \<and> CHR ''.'' \<notin> set rest))
         | HostKindInvalid \<Rightarrow> False))"

definition MatchPort :: "int list \<Rightarrow> int \<Rightarrow> bool" where
  "MatchPort allowed port = (if allowed = [] then True else list_ex (\<lambda>p. p = port) allowed)"

definition IsValidPort :: "int \<Rightarrow> bool" where
  "IsValidPort port = (1 \<le> port \<and> port \<le> 65535)"

definition CorrelationMissing :: "string \<Rightarrow> string \<Rightarrow> bool" where
  "CorrelationMissing pattern hostOrIP =
     (let patternKind = ClassifyHost pattern; observedKind = ClassifyHost hostOrIP in
      case patternKind of
        HostKindName \<Rightarrow> observedKind = HostKindIP
      | HostKindWildcard \<Rightarrow> observedKind = HostKindIP
      | HostKindIP \<Rightarrow> observedKind = HostKindName
      | HostKindCIDR \<Rightarrow> observedKind = HostKindName
      | HostKindInvalid \<Rightarrow> False)"

definition ValidateHostPattern :: "string \<Rightarrow> go_error" where
  "ValidateHostPattern pattern =
     (if pattern = [] then Some (Fmt ''host pattern is empty'' [])
      else if list_ex (\<lambda>c. c = CHR '' '' \<or> c = CHR 0x09 \<or> c = CHR 0x0D \<or> c = CHR 0x0A) pattern then
        Some (Fmt ''host pattern %q contains whitespace'' [AStr pattern])
      else if CHR '':'' \<in> set pattern \<and> CHR ''/'' \<notin> set pattern \<and> ParseAddr pattern = None then
        Some (Fmt ''host pattern %q looks like host:port; ports belong in Selector.Ports''
          [AStr pattern])
      else
        (let other =
           (if CHR ''*'' \<in> set pattern then
              Some (Fmt ''host pattern %q: a wildcard is only valid as a leading *. label''
                [AStr pattern])
            else
              Some (Fmt ''host pattern %q is not a hostname, address, CIDR block, or wildcard domain''
                [AStr pattern]))
         in
         case ClassifyHost pattern of
           HostKindIP \<Rightarrow>
             (case ParseAddr pattern of
                Some a \<Rightarrow>
                  if addr_zone a \<noteq> [] then
                    Some (Fmt ''host pattern %q carries an interface zone, which names a local interface rather than a destination''
                      [AStr pattern])
                  else None
              | None \<Rightarrow> None)
         | HostKindCIDR \<Rightarrow> None
         | HostKindName \<Rightarrow> None
         | HostKindWildcard \<Rightarrow> None
         | HostKindInvalid \<Rightarrow> other))"

section \<open>Facts\<close>

lemma ClassifyHost_IP_parse: "ClassifyHost s = HostKindIP \<Longrightarrow> ParseAddr s \<noteq> None"
  by (auto simp: ClassifyHost_def split: if_splits option.splits)

lemma ClassifyHost_CIDR_parse: "ClassifyHost s = HostKindCIDR \<Longrightarrow> ParsePrefix s \<noteq> None"
  by (auto simp: ClassifyHost_def split: if_splits option.splits)

lemma ClassifyHost_Name: "ClassifyHost s = HostKindName \<Longrightarrow> isValidName s \<and> ParseAddr s = None"
  by (auto simp: ClassifyHost_def split: if_splits option.splits)

lemma ClassifyHost_Wildcard: "ClassifyHost s = HostKindWildcard \<longleftrightarrow> (\<exists>d. s = ''*.'' @ d \<and> isValidName d)"
  by (auto simp: ClassifyHost_def prefix_def split: if_splits option.splits)

text \<open>A match compares like with like: a name with a name, an address with an address.\<close>

definition kinds_comparable :: "host_kind \<Rightarrow> host_kind \<Rightarrow> bool" where
  "kinds_comparable p o' \<longleftrightarrow>
     p \<in> {HostKindIP, HostKindCIDR} \<and> o' = HostKindIP \<or>
     p \<in> {HostKindName, HostKindWildcard} \<and> o' = HostKindName"

lemma MatchHost_comparable:
  "MatchHost pattern h \<Longrightarrow> kinds_comparable (ClassifyHost pattern) (ClassifyHost h)"
  by (auto simp: MatchHost_def kinds_comparable_def Let_def split: host_kind.splits if_splits)

lemma CorrelationMissing_not_comparable:
  "CorrelationMissing pattern h \<Longrightarrow> \<not> kinds_comparable (ClassifyHost pattern) (ClassifyHost h)"
  by (auto simp: CorrelationMissing_def kinds_comparable_def Let_def split: host_kind.splits)

text \<open>Characteristic equations of the match, one per kind of pattern.\<close>

lemma MatchHost_IP:
  "ClassifyHost pattern = HostKindIP \<Longrightarrow>
     MatchHost pattern h \<longleftrightarrow> ClassifyHost h = HostKindIP \<and> parseAddr pattern = parseAddr h"
  using ClassifyHost_IP_parse [of pattern] ClassifyHost_IP_parse [of h]
  by (auto simp: MatchHost_def parseAddr_def Let_def)

lemma MatchHost_CIDR:
  "ClassifyHost pattern = HostKindCIDR \<Longrightarrow>
     MatchHost pattern h \<longleftrightarrow> ClassifyHost h = HostKindIP \<and>
       (\<exists>p a. ParsePrefix pattern = Some p \<and> parseAddr h = Some a \<and> prefix_contains p a)"
  by (auto simp: MatchHost_def prefix_contains_masked Let_def split: option.splits)

lemma MatchHost_Name:
  "ClassifyHost pattern = HostKindName \<Longrightarrow>
     MatchHost pattern h \<longleftrightarrow> ClassifyHost h = HostKindName \<and> normalizeHost pattern = normalizeHost h"
  by (auto simp: MatchHost_def Let_def)

lemma cut_suffix_split:
  "(case cut_suffix s suf of (rest, found) \<Rightarrow> found \<and> P rest) \<longleftrightarrow> (\<exists>rest. s = rest @ suf \<and> P rest)"
proof (cases "suffix suf s")
  case True
  then obtain r where "s = r @ suf" by (auto simp: suffix_def)
  with True show ?thesis by (simp add: cut_suffix_def)
next
  case False
  then show ?thesis by (auto simp: cut_suffix_def suffix_def)
qed

lemma first_label_split:
  "(\<exists>l. H = l @ CHR ''.'' # D \<and> l \<noteq> [] \<and> CHR ''.'' \<notin> set l) \<longleftrightarrow>
     (\<exists>l. l \<noteq> [] \<and> split_byte CHR ''.'' H = l # split_byte CHR ''.'' D)"
proof
  assume "\<exists>l. H = l @ CHR ''.'' # D \<and> l \<noteq> [] \<and> CHR ''.'' \<notin> set l"
  then show "\<exists>l. l \<noteq> [] \<and> split_byte CHR ''.'' H = l # split_byte CHR ''.'' D"
    by (auto simp: split_byte_append)
next
  assume "\<exists>l. l \<noteq> [] \<and> split_byte CHR ''.'' H = l # split_byte CHR ''.'' D"
  then obtain l where l: "l \<noteq> []" "split_byte CHR ''.'' H = l # split_byte CHR ''.'' D" by blast
  have "H = join_byte CHR ''.'' (l # split_byte CHR ''.'' D)" by (simp flip: l(2))
  then have "H = l @ CHR ''.'' # D" by (simp add: join_byte_Cons)
  moreover have "CHR ''.'' \<notin> set l" using l(2) split_byte_no_sep [of l "CHR ''.''" H] by simp
  ultimately show "\<exists>l. H = l @ CHR ''.'' # D \<and> l \<noteq> [] \<and> CHR ''.'' \<notin> set l" using l(1) by blast
qed

lemma MatchHost_Wildcard:
  assumes "isValidName d"
  shows "MatchHost (''*.'' @ d) h \<longleftrightarrow> ClassifyHost h = HostKindName \<and>
    (\<exists>l. l \<noteq> [] \<and> split_byte CHR ''.'' (normalizeHost h) = l # split_byte CHR ''.'' (normalizeHost d))"
proof -
  have kind: "ClassifyHost (''*.'' @ d) = HostKindWildcard" using assms by (simp add: ClassifyHost_Wildcard)
  then have "MatchHost (''*.'' @ d) h \<longleftrightarrow> ClassifyHost h = HostKindName \<and>
      (\<exists>l. normalizeHost h = l @ CHR ''.'' # normalizeHost d \<and> l \<noteq> [] \<and> CHR ''.'' \<notin> set l)"
    by (simp add: MatchHost_def Let_def cut_suffix_split)
  then show ?thesis by (simp only: first_label_split)
qed

text \<open>
  An observed address is unmapped before it is compared, a prefix pattern is not. A block written in
  the IPv4-mapped form with at least 96 bits is therefore admitted and covers nothing.
\<close>

lemma parseAddr_not_mapped:
  "parseAddr h = Some (V6 w z) \<Longrightarrow> z = [] \<and> drop_bit 32 w \<noteq> 0xffff"
proof -
  assume "parseAddr h = Some (V6 w z)"
  then obtain a where "without_zone (unmap a) = V6 w z" by (auto simp: parseAddr_def)
  then show ?thesis by (cases a) (auto split: if_splits)
qed

lemma mapped_block_contains_nothing:
  assumes "parseAddr h = Some a" and "drop_bit 32 w = 0xffff" and "96 \<le> b" and "b \<le> 128"
  shows "\<not> prefix_contains (NetPrefix (V6 w z) b) a"
proof (cases a)
  case (V6 v y)
  with assms(1) have y: "y = []" and v: "drop_bit 32 v \<noteq> 0xffff" by (auto dest: parseAddr_not_mapped)
  have split: "drop_bit 32 x = drop_bit (b - 96) (drop_bit (128 - b) x)" for x :: "128 word"
    using assms(3,4) by (simp add: drop_bit_drop_bit)
  have "drop_bit (128 - b) v \<noteq> drop_bit (128 - b) w"
  proof
    assume "drop_bit (128 - b) v = drop_bit (128 - b) w"
    then have "drop_bit 32 v = drop_bit 32 w" by (simp only: split)
    with v assms(2) show False by simp
  qed
  then show ?thesis by (simp only: V6 y prefix_contains_V6 not_False_eq_True simp_thms)
qed simp

section \<open>The network matcher as an interface\<close>

text \<open>
  \<open>NetworkMatcher\<close> of \<open>validator.go\<close>: a match never stands in for a comparison that was not
  possible, and no port constraint covers any port.
\<close>

locale network_matcher =
  fixes Match_Host :: "string \<Rightarrow> string \<Rightarrow> bool"
    and Match_Port :: "int list \<Rightarrow> int \<Rightarrow> bool"
  assumes host_comparable: "Match_Host pattern h \<Longrightarrow> \<not> CorrelationMissing pattern h"
    and host_fact: "Match_Host pattern h \<Longrightarrow> ClassifyHost h \<in> {HostKindIP, HostKindName}"
    and any_port: "Match_Port [] port"
    and listed_port: "allowed \<noteq> [] \<Longrightarrow> Match_Port allowed port \<longleftrightarrow> port \<in> set allowed"
begin

lemma empty_host_never: "\<not> Match_Host pattern []"
  using host_fact [of pattern "[]"] by (auto simp: ClassifyHost_def)

end

interpretation pattern_matcher: network_matcher MatchHost MatchPort
  by unfold_locales
    (auto simp: MatchPort_def list_ex_iff kinds_comparable_def
      dest!: MatchHost_comparable CorrelationMissing_not_comparable)

section \<open>Properties\<close>

text \<open>A host pattern is only ever compared with a fact of its own kind: an address or block
  matches addresses, a name or wildcard matches names, and whatever matches is never something
  \<open>CorrelationMissing\<close> would report as not comparable.\<close>

theorem MatchHost_like_with_like:
  assumes "MatchHost pattern h"
  shows "\<not> CorrelationMissing pattern h \<and>
    (ClassifyHost pattern \<in> {HostKindIP, HostKindCIDR} \<and> ClassifyHost h = HostKindIP \<or>
     ClassifyHost pattern \<in> {HostKindName, HostKindWildcard} \<and> ClassifyHost h = HostKindName)"
  using MatchHost_comparable[OF assms] pattern_matcher.host_comparable[OF assms]
  by (simp add: kinds_comparable_def)

theorem MatchHost_like_with_like_witness:
  "MatchHost ''*.corp.io'' ''api.corp.io'' \<and> \<not> CorrelationMissing ''*.corp.io'' ''api.corp.io''"
proof -
  have "MatchHost ''*.corp.io'' ''api.corp.io''" by code_simp
  then show ?thesis using MatchHost_like_with_like by blast
qed

text \<open>a wildcard domain stands for exactly one more label: \<open>*.d\<close> matches a name when the
  name's labels are one non-empty label followed by the labels of d, without regard to case and
  to a final dot. It matches neither d itself nor a name two levels below it.\<close>

theorem wildcard_is_one_label:
  assumes "isValidName d"
  shows "MatchHost (''*.'' @ d) h \<longleftrightarrow> ClassifyHost h = HostKindName \<and>
    (\<exists>l. l \<noteq> [] \<and> split_byte CHR ''.'' (normalizeHost h) = l # split_byte CHR ''.'' (normalizeHost d))"
  using assms by (rule MatchHost_Wildcard)

theorem wildcard_is_one_label_witness:
  "isValidName ''corp.io'' \<and> MatchHost (''*.'' @ ''corp.io'') ''API.corp.io.''"
proof -
  have "ClassifyHost ''API.corp.io.'' = HostKindName" by code_simp
  moreover have "split_byte CHR ''.'' (normalizeHost ''API.corp.io.'') =
      ''api'' # split_byte CHR ''.'' (normalizeHost ''corp.io'')" by code_simp
  moreover have "isValidName ''corp.io''" by code_simp
  ultimately show ?thesis using wildcard_is_one_label[of "''corp.io''" "''API.corp.io.''"] by blast
qed

text \<open>an address block written for IPv4 covers exactly the addresses that agree with it on the
  prefix: the observed host, read as an address, is an IPv4 address (or an IPv4 address written in
  IPv6-mapped form) whose leading bits are the block's.\<close>

theorem ipv4_block_compares_prefix_bits:
  assumes "ClassifyHost pattern = HostKindCIDR" and "ParsePrefix pattern = Some (NetPrefix (V4 p) b)"
    and "ClassifyHost h = HostKindIP"
  shows "MatchHost pattern h \<longleftrightarrow>
    (\<exists>w. parseAddr h = Some (V4 w) \<and> drop_bit (32 - b) w = drop_bit (32 - b) p)"
proof -
  have "prefix_contains (NetPrefix (V4 p) b) a \<longleftrightarrow>
      (\<exists>w. a = V4 w \<and> drop_bit (32 - b) w = drop_bit (32 - b) p)" for a
    by (cases a) (simp_all add: prefix_contains_V4 del: prefix_contains.simps(1))
  then show ?thesis using assms by (auto simp: MatchHost_CIDR)
qed

theorem ipv4_block_compares_prefix_bits_witness:
  "MatchHost ''10.0.0.0/8'' ''10.1.2.3'' \<longleftrightarrow>
    (\<exists>w. parseAddr ''10.1.2.3'' = Some (V4 w) \<and> drop_bit (32 - 8) w = drop_bit (32 - 8) 0x0A000000)"
proof (rule ipv4_block_compares_prefix_bits)
  show "ParsePrefix ''10.0.0.0/8'' = Some (NetPrefix (V4 0x0A000000) 8)" by code_simp
  show "ClassifyHost ''10.0.0.0/8'' = HostKindCIDR" by code_simp
  show "ClassifyHost ''10.1.2.3'' = HostKindIP" by code_simp
qed

text \<open>An address block written in IPv4-mapped IPv6 form with at least 96 prefix bits matches no
  destination at all, even when \<open>ValidateHostPattern\<close> admits it: observed addresses lose their
  mapped form before the comparison and the block does not. A denial written this way denies
  nothing.\<close>

theorem mapped_block_is_dead:
  assumes "ValidateHostPattern pattern = None" and "ClassifyHost pattern = HostKindCIDR"
    and "ParsePrefix pattern = Some (NetPrefix (V6 w z) b)"
    and "drop_bit 32 w = 0xffff" and "96 \<le> b" and "b \<le> 128"
  shows "\<not> MatchHost pattern h"
  using assms(2-) mapped_block_contains_nothing by (auto simp: MatchHost_CIDR)

theorem mapped_block_is_dead_witness:
  "ValidateHostPattern ''::ffff:10.0.0.0/104'' = None \<and>
   \<not> MatchHost ''::ffff:10.0.0.0/104'' ''10.1.2.3''"
proof -
  note chars = is_hex_def is_digit_def less_eq_char_def
  have hex: "hexs_val ''ffff'' = 65535"
    by (simp add: hexs_val_def hex_val_def chars)
  have quad: "octets4 ''10.0.0.0'' = Some [10, 0, 0, 0]"
    by (simp add: octets4_def octet_def dec_val_def digit_val_def chars)
  have "ipv6_loop [255, 255] (Some 0) ''10.0.0.0'' = Some ([255, 255, 10, 0, 0, 0], Some 0, [])"
    by (subst ipv6_loop.simps) (simp add: chars quad)
  then have "ipv6_loop [] (Some 0) ''ffff:10.0.0.0'' = Some ([255, 255, 10, 0, 0, 0], Some 0, [])"
    by (subst ipv6_loop.simps) (simp add: chars hex)
  then have "Option.bind (ipv6_loop [] (Some 0) ''ffff:10.0.0.0'') ipv6_finish =
      Some [0, 0, 0, 0, 0, 0, 0, 0, 0, 0, 255, 255, 10, 0, 0, 0]"
    by (simp add: ipv6_finish_def numeral_eq_Suc)
  then have "parse_ipv6 ''::ffff:10.0.0.0'' = Some (V6 0xffff0a000000 [])"
    by (simp add: parse_ipv6_def word_of_bytes_def)
  then have addr: "ParseAddr ''::ffff:10.0.0.0'' = Some (V6 0xffff0a000000 [])"
    by (simp add: ParseAddr_def)
  have "atoi ''104'' = Some 104" by code_simp
  with addr have prefix: "ParsePrefix ''::ffff:10.0.0.0/104'' = Some (NetPrefix (V6 0xffff0a000000 []) 104)"
    by (simp add: ParsePrefix_def less_char_def)
  then have kind: "ClassifyHost ''::ffff:10.0.0.0/104'' = HostKindCIDR"
    by (simp add: ClassifyHost_def)
  then have valid: "ValidateHostPattern ''::ffff:10.0.0.0/104'' = None"
    by (simp add: ValidateHostPattern_def)
  moreover have "drop_bit 32 (0xffff0a000000 :: 128 word) = 0xffff" by simp
  ultimately show ?thesis
    using mapped_block_is_dead[OF valid kind prefix] by simp
qed

end
