(* ===== verification/Matcher.thy ===== *)
theory Matcher
  imports Path Network GoText
begin

text \<open>
  The selector matcher (\<open>internal/validator/matcher.go\<close>): one grant against one observation,
  dispatched over the kind's domain, with three outcomes: covered, not covered, and not evaluable.
\<close>

section \<open>Results\<close>

record match_result =
  mrMatched :: bool
  mrUnevaluable :: bool
  mrReason :: msg

definition matched :: "string \<Rightarrow> arg list \<Rightarrow> match_result" where
  "matched format args = \<lparr>mrMatched = True, mrUnevaluable = False, mrReason = Fmt format args\<rparr>"

definition mismatch :: "string \<Rightarrow> arg list \<Rightarrow> match_result" where
  "mismatch format args = \<lparr>mrMatched = False, mrUnevaluable = False, mrReason = Fmt format args\<rparr>"

definition unevaluable :: "string \<Rightarrow> arg list \<Rightarrow> match_result" where
  "unevaluable format args = \<lparr>mrMatched = False, mrUnevaluable = True, mrReason = Fmt format args\<rparr>"

lemma result_simps [simp]:
  "mrMatched (matched f a)" "\<not> mrUnevaluable (matched f a)"
  "\<not> mrMatched (mismatch f a)" "\<not> mrUnevaluable (mismatch f a)"
  "\<not> mrMatched (unevaluable f a)" "mrUnevaluable (unevaluable f a)"
  by (simp_all add: matched_def mismatch_def unevaluable_def)

text \<open>
  A \<open>SelectorMatcher\<close> holds a path matcher and a network matcher. The last field is the
  Unicode half of \<open>strings.EqualFold\<close> (see \<open>GoText\<close>).
\<close>

record selector_matcher =
  smMatch :: "string \<Rightarrow> string \<Rightarrow> bool"
  smWithinRoot :: "string \<Rightarrow> string \<Rightarrow> bool"
  smMatchHost :: "string \<Rightarrow> string \<Rightarrow> bool"
  smMatchPort :: "int list \<Rightarrow> int \<Rightarrow> bool"
  smUnicodeFold :: "string \<Rightarrow> string \<Rightarrow> bool"

definition NewMatcher :: "(string \<Rightarrow> string \<Rightarrow> bool) \<Rightarrow> selector_matcher" where
  "NewMatcher ufold =
     \<lparr>smMatch = MatchPath,
      smWithinRoot = (\<lambda>rootp path. fst (WithinRoot NewPathMatcher rootp path)),
      smMatchHost = MatchHost, smMatchPort = MatchPort, smUnicodeFold = ufold\<rparr>"

section \<open>Paths\<close>

definition matchPaths :: "selector_matcher \<Rightarrow> string list \<Rightarrow> string \<Rightarrow> string \<Rightarrow> match_result" where
  "matchPaths m patterns target label =
     (if patterns = [] then matched ''no %s constraint'' [AStr label]
      else if \<not> IsResolved target then
        unevaluable ''%s %q is not a resolved absolute path'' [AStr label, AStr target]
      else
        (case find (\<lambda>p. smMatch m p target) patterns of
           Some p \<Rightarrow> matched ''%s %q matches %q'' [AStr label, AStr target, AStr p]
         | None \<Rightarrow> mismatch ''no %s pattern covers %q'' [AStr label, AStr target]))"

section \<open>Network targets\<close>

definition splitTarget :: "string \<Rightarrow> string \<times> int \<times> bool \<times> bool" where
  "splitTarget target =
     (if target = [] then ([], 0, False, False)
      else
        (case SplitHostPort target of
           None \<Rightarrow>
             (if ClassifyHost target = HostKindInvalid then ([], 0, False, False)
              else (target, 0, False, True))
         | Some (h, p) \<Rightarrow>
             (if p = [] then (h, 0, False, h \<noteq> [])
              else
                (case atoi p of
                   None \<Rightarrow> ([], 0, False, False)
                 | Some n \<Rightarrow> (h, n, True, True)))))"

definition containsFold :: "selector_matcher \<Rightarrow> string list \<Rightarrow> string \<Rightarrow> bool" where
  "containsFold m haystack needle = list_ex (\<lambda>s. equal_fold (smUnicodeFold m) s needle) haystack"

text \<open>
  The two nested loops of \<open>matchHosts\<close>. The inner one, over the candidates, either returns a
  match or says whether some candidate could be compared with the pattern.
\<close>

fun match_candidates ::
  "selector_matcher \<Rightarrow> string \<Rightarrow> bool \<Rightarrow> string list \<Rightarrow> match_result + bool" where
  "match_candidates m p comparable [] = Inr comparable"
| "match_candidates m p comparable (c # cs) =
     (if smMatchHost m p c then Inl (matched ''destination %q matches %q'' [AStr c, AStr p])
      else match_candidates m p (comparable \<or> \<not> CorrelationMissing p c) cs)"

fun match_host_patterns ::
  "selector_matcher \<Rightarrow> string list \<Rightarrow> string \<Rightarrow> string list \<Rightarrow> match_result + string" where
  "match_host_patterns m candidates uncomparable [] = Inr uncomparable"
| "match_host_patterns m candidates uncomparable (p # ps) =
     (case match_candidates m p False candidates of
        Inl r \<Rightarrow> Inl r
      | Inr comparable \<Rightarrow>
          match_host_patterns m candidates
            (if \<not> comparable \<and> uncomparable = [] then p else uncomparable) ps)"

definition host_candidates :: "string \<Rightarrow> string \<Rightarrow> string list" where
  "host_candidates host address =
     (if host \<noteq> [] then [host] else []) @
     (if address \<noteq> [] \<and> address \<noteq> host then [address] else [])"

definition matchHosts ::
  "selector_matcher \<Rightarrow> string list \<Rightarrow> string \<Rightarrow> string \<Rightarrow> match_result" where
  "matchHosts m patterns host address =
     (let candidates = host_candidates host address in
      if candidates = [] then unevaluable ''destination has neither a name nor an address'' []
      else
        (case match_host_patterns m candidates [] patterns of
           Inl r \<Rightarrow> r
         | Inr uncomparable \<Rightarrow>
             (if uncomparable \<noteq> [] then
                unevaluable ''cannot tell whether %v is %q: no correlated hostname''
                  [AStrs candidates, AStr uncomparable]
              else mismatch ''no granted host covers %v'' [AStrs candidates])))"

text \<open>
  \<open>matchNetwork\<close> returns at the first dimension that is not satisfied: hosts, ports, protocols.
\<close>

definition matchPorts ::
  "selector_matcher \<Rightarrow> int list \<Rightarrow> string \<Rightarrow> int \<Rightarrow> bool \<Rightarrow> match_result option" where
  "matchPorts m ports target port hasPort =
     (if ports = [] then None
      else if \<not> hasPort then
        Some (unevaluable ''destination %q carries no port, and the grant constrains ports''
          [AStr target])
      else if \<not> smMatchPort m ports port then
        Some (mismatch ''port %d is not in %v'' [AInt port, AInts ports])
      else None)"

definition matchProtocols ::
  "selector_matcher \<Rightarrow> string list \<Rightarrow> string \<Rightarrow> match_result option" where
  "matchProtocols m protocols protocol =
     (if protocols = [] then None
      else if protocol = [] then
        Some (unevaluable ''protocol is unknown, and the grant constrains protocols'' [])
      else if \<not> containsFold m protocols protocol then
        Some (mismatch ''protocol %q is not in %v'' [AStr protocol, AStrs protocols])
      else None)"

definition matchNetwork :: "selector_matcher \<Rightarrow> selector \<Rightarrow> observation \<Rightarrow> match_result" where
  "matchNetwork m sel obs =
     (if Hosts sel = [] \<and> Ports sel = [] \<and> Protocols sel = [] then
        matched ''no network constraint'' []
      else
        (let (host, port, hasPort, ok) = splitTarget (obsTarget obs) in
         if \<not> ok then
           unevaluable ''destination %q is not a host or host:port'' [AStr (obsTarget obs)]
         else
           (let hostResult = matchHosts m (Hosts sel) host (attr obs AttrDestIP) in
            if Hosts sel \<noteq> [] \<and> \<not> mrMatched hostResult then hostResult
            else
              (case matchPorts m (Ports sel) (obsTarget obs) port hasPort of
                 Some r \<Rightarrow> r
               | None \<Rightarrow>
                   (case matchProtocols m (Protocols sel) (attr obs AttrProtocol) of
                      Some r \<Rightarrow> r
                    | None \<Rightarrow>
                        matched ''destination %q is within the grant'' [AStr (obsTarget obs)])))))"

section \<open>Arguments\<close>

text \<open>The loop of \<open>matchArgs\<close>: the whole command line first, then each argument, per pattern.\<close>

fun match_arg_patterns :: "string list \<Rightarrow> string \<Rightarrow> string list \<Rightarrow> match_result option" where
  "match_arg_patterns args argv [] = None"
| "match_arg_patterns args argv (p # ps) =
     (if matchSegment p argv then Some (matched ''command line matches %q'' [AStr p])
      else
        (case find (\<lambda>a. matchSegment p a) args of
           Some a \<Rightarrow> Some (matched ''argument %q matches %q'' [AStr a, AStr p])
         | None \<Rightarrow> match_arg_patterns args argv ps))"

definition matchArgs :: "string list \<Rightarrow> string \<Rightarrow> match_result" where
  "matchArgs patterns argv =
     (if patterns = [] then matched ''no argument constraint'' []
      else if argv = [] then
        unevaluable ''argument vector is unavailable, and the grant constrains arguments'' []
      else
        (case match_arg_patterns (Fields argv) argv patterns of
           Some r \<Rightarrow> r
         | None \<Rightarrow> mismatch ''no argument pattern covers %q'' [AStr argv]))"

section \<open>The dispatch\<close>

definition Match :: "selector_matcher \<Rightarrow> grant \<Rightarrow> observation \<Rightarrow> match_result" where
  "Match m g obs =
     (if grantKind g \<noteq> obsKind obs then
        mismatch ''grant is for %s, observation is %s''
          [AStr (kind_string (grantKind g)), AStr (kind_string (obsKind obs))]
      else
        (case DomainOf (grantKind g) of
           None \<Rightarrow>
             unevaluable ''capability %q is not in this build's catalog''
               [AStr (kind_string (grantKind g))]
         | Some domain \<Rightarrow>
             (if domain = DomainFilesystem then
                matchPaths m (PathPatterns (grantSelector g)) (obsTarget obs) ''path''
              else if domain = DomainNetwork then matchNetwork m (grantSelector g) obs
              else if domain = DomainProcess then
                (let r = matchPaths m (Executables (grantSelector g)) (obsTarget obs) ''executable'' in
                 if \<not> mrMatched r then r
                 else matchArgs (ArgPatterns (grantSelector g)) (attr obs AttrArgv))
              else if PathPatterns (grantSelector g) \<noteq> [] then
                matchPaths m (PathPatterns (grantSelector g)) (obsTarget obs) ''path''
              else
                matched ''capability %s, which takes no selector''
                  [AStr (kind_string (grantKind g))])))"

definition Matches :: "selector_matcher \<Rightarrow> grant \<Rightarrow> observation \<Rightarrow> bool \<times> msg" where
  "Matches m g obs = (let r = Match m g obs in (mrMatched r, mrReason r))"

section \<open>What a grant covers\<close>

text \<open>
  The contract, in three values. Dimensions are asked in a fixed order and the first one that is
  not \<open>Covered\<close> decides; within a dimension any pattern is enough.
\<close>

datatype coverage = Covered | Uncovered | Unknown

definition outcome :: "match_result \<Rightarrow> coverage" where
  "outcome r = (if mrMatched r then Covered else if mrUnevaluable r then Unknown else Uncovered)"

definition and_then :: "coverage \<Rightarrow> coverage \<Rightarrow> coverage" where
  "and_then a b = (if a = Covered then b else a)"

lemma outcome_simps [simp]:
  "outcome (matched f a) = Covered" "outcome (mismatch f a) = Uncovered"
  "outcome (unevaluable f a) = Unknown"
  by (simp_all add: outcome_def)

lemma mrMatched_outcome: "mrMatched r \<longleftrightarrow> outcome r = Covered"
  by (simp add: outcome_def)

lemma and_then_simps [simp]:
  "and_then Covered b = b" "and_then Uncovered b = Uncovered" "and_then Unknown b = Unknown"
  by (simp_all add: and_then_def)

lemma and_then_Covered: "and_then a b = Covered \<longleftrightarrow> a = Covered \<and> b = Covered"
  by (simp add: and_then_def)

definition path_coverage :: "selector_matcher \<Rightarrow> string list \<Rightarrow> string \<Rightarrow> coverage" where
  "path_coverage m patterns target =
     (if patterns = [] then Covered
      else if \<not> IsResolved target then Unknown
      else if \<exists>p \<in> set patterns. smMatch m p target then Covered
      else Uncovered)"

definition host_coverage :: "selector_matcher \<Rightarrow> string list \<Rightarrow> string list \<Rightarrow> coverage" where
  "host_coverage m patterns candidates =
     (if patterns = [] then Covered
      else if candidates = [] then Unknown
      else if \<exists>p \<in> set patterns. \<exists>c \<in> set candidates. smMatchHost m p c then Covered
      else if \<exists>p \<in> set patterns. \<forall>c \<in> set candidates. CorrelationMissing p c then Unknown
      else Uncovered)"

definition port_coverage :: "selector_matcher \<Rightarrow> int list \<Rightarrow> int \<Rightarrow> bool \<Rightarrow> coverage" where
  "port_coverage m ports port hasPort =
     (if ports = [] then Covered
      else if \<not> hasPort then Unknown
      else if smMatchPort m ports port then Covered
      else Uncovered)"

definition protocol_coverage :: "selector_matcher \<Rightarrow> string list \<Rightarrow> string \<Rightarrow> coverage" where
  "protocol_coverage m protocols protocol =
     (if protocols = [] then Covered
      else if protocol = [] then Unknown
      else if \<exists>s \<in> set protocols. equal_fold (smUnicodeFold m) s protocol then Covered
      else Uncovered)"

definition arg_coverage :: "string list \<Rightarrow> string \<Rightarrow> coverage" where
  "arg_coverage patterns argv =
     (if patterns = [] then Covered
      else if argv = [] then Unknown
      else if \<exists>p \<in> set patterns. \<exists>t \<in> set (argv # Fields argv). seg_glob p t then Covered
      else Uncovered)"

definition network_coverage :: "selector_matcher \<Rightarrow> selector \<Rightarrow> observation \<Rightarrow> coverage" where
  "network_coverage m sel obs =
     (if Hosts sel = [] \<and> Ports sel = [] \<and> Protocols sel = [] then Covered
      else
        (case splitTarget (obsTarget obs) of
           (host, port, hasPort, ok) \<Rightarrow>
             (if \<not> ok then Unknown
              else
                and_then (host_coverage m (Hosts sel) (host_candidates host (attr obs AttrDestIP)))
                  (and_then (port_coverage m (Ports sel) port hasPort)
                     (protocol_coverage m (Protocols sel) (attr obs AttrProtocol))))))"

definition grant_coverage :: "selector_matcher \<Rightarrow> grant \<Rightarrow> observation \<Rightarrow> coverage" where
  "grant_coverage m g obs =
     (if grantKind g \<noteq> obsKind obs then Uncovered
      else
        (case DomainOf (grantKind g) of
           None \<Rightarrow> Unknown
         | Some DomainNetwork \<Rightarrow> network_coverage m (grantSelector g) obs
         | Some DomainProcess \<Rightarrow>
             and_then (path_coverage m (Executables (grantSelector g)) (obsTarget obs))
               (arg_coverage (ArgPatterns (grantSelector g)) (attr obs AttrArgv))
         | Some _ \<Rightarrow> path_coverage m (PathPatterns (grantSelector g)) (obsTarget obs)))"

lemma matchPaths_outcome: "outcome (matchPaths m patterns target label) = path_coverage m patterns target"
proof (cases "find (\<lambda>p. smMatch m p target) patterns")
  case None
  then have "\<not> (\<exists>p \<in> set patterns. smMatch m p target)" by (auto simp: find_None_iff)
  with None show ?thesis by (simp add: matchPaths_def path_coverage_def)
next
  case (Some p)
  then have "\<exists>p \<in> set patterns. smMatch m p target" by (auto dest: find_SomeD)
  with Some show ?thesis by (simp add: matchPaths_def path_coverage_def)
qed

lemma match_candidates_Inl:
  "(\<exists>c \<in> set cs. smMatchHost m p c) \<Longrightarrow>
     \<exists>r. match_candidates m p comparable cs = Inl r \<and> outcome r = Covered"
  by (induction m p comparable cs rule: match_candidates.induct) auto

lemma match_candidates_Inr:
  "\<not> (\<exists>c \<in> set cs. smMatchHost m p c) \<Longrightarrow>
     match_candidates m p comparable cs =
       Inr (comparable \<or> (\<exists>c \<in> set cs. \<not> CorrelationMissing p c))"
  by (induction m p comparable cs rule: match_candidates.induct) auto

lemma match_host_patterns_Inl:
  "(\<exists>p \<in> set ps. \<exists>c \<in> set cs. smMatchHost m p c) \<Longrightarrow>
     \<exists>r. match_host_patterns m cs u ps = Inl r \<and> outcome r = Covered"
proof (induction m cs u ps rule: match_host_patterns.induct)
  case (2 m cs u p ps)
  show ?case
  proof (cases "\<exists>c \<in> set cs. smMatchHost m p c")
    case True
    then show ?thesis using match_candidates_Inl [of cs m p False] by auto
  next
    case False
    with 2 show ?thesis by (auto simp: match_candidates_Inr [OF False])
  qed
qed simp

lemma CorrelationMissing_nonempty: "CorrelationMissing p c \<Longrightarrow> p \<noteq> []"
  by (auto simp: CorrelationMissing_def ClassifyHost_def)

lemma match_host_patterns_Inr:
  "cs \<noteq> [] \<Longrightarrow> \<not> (\<exists>p \<in> set ps. \<exists>c \<in> set cs. smMatchHost m p c) \<Longrightarrow>
     \<exists>u'. match_host_patterns m cs u ps = Inr u' \<and>
       (u' \<noteq> [] \<longleftrightarrow> u \<noteq> [] \<or> (\<exists>p \<in> set ps. \<forall>c \<in> set cs. CorrelationMissing p c))"
proof (induction m cs u ps rule: match_host_patterns.induct)
  case (2 m cs u p ps)
  then have dead: "\<not> (\<exists>c \<in> set cs. smMatchHost m p c)" by auto
  show ?case
  proof (cases "\<forall>c \<in> set cs. CorrelationMissing p c")
    case True
    with "2.prems"(1) have "p \<noteq> []" by (cases cs) (auto dest: CorrelationMissing_nonempty)
    with 2 True show ?thesis by (auto simp: match_candidates_Inr [OF dead])
  next
    case False
    then have mc: "match_candidates m p False cs = Inr True" by (auto simp: match_candidates_Inr [OF dead])
    moreover have "\<not> (\<exists>p \<in> set ps. \<exists>c \<in> set cs. smMatchHost m p c)" using "2.prems"(2) by auto
    moreover note "2.IH" [OF mc "2.prems"(1) this]
    moreover have "(\<exists>q \<in> set (p # ps). \<forall>c \<in> set cs. CorrelationMissing q c) \<longleftrightarrow>
        (\<exists>q \<in> set ps. \<forall>c \<in> set cs. CorrelationMissing q c)" using False by auto
    ultimately show ?thesis by simp
  qed
qed simp

lemma matchHosts_outcome:
  "patterns \<noteq> [] \<Longrightarrow>
     outcome (matchHosts m patterns host address) =
     host_coverage m patterns (host_candidates host address)"
proof -
  assume ps: "patterns \<noteq> []"
  let ?cs = "host_candidates host address"
  consider "?cs = []" | "?cs \<noteq> []" "\<exists>p \<in> set patterns. \<exists>c \<in> set ?cs. smMatchHost m p c"
    | "?cs \<noteq> []" "\<not> (\<exists>p \<in> set patterns. \<exists>c \<in> set ?cs. smMatchHost m p c)" by blast
  then show ?thesis
  proof cases
    case 1
    with ps show ?thesis by (simp add: matchHosts_def host_coverage_def)
  next
    case 2
    from match_host_patterns_Inl [OF 2(2), of "[]"] obtain r where
      "match_host_patterns m ?cs [] patterns = Inl r" "outcome r = Covered" by blast
    with 2 ps show ?thesis by (simp add: matchHosts_def host_coverage_def)
  next
    case 3
    from match_host_patterns_Inr [OF 3, of "[]"] obtain u where
      "match_host_patterns m ?cs [] patterns = Inr u"
      "u \<noteq> [] \<longleftrightarrow> (\<exists>p \<in> set patterns. \<forall>c \<in> set ?cs. CorrelationMissing p c)" by auto
    with 3 ps show ?thesis by (simp add: matchHosts_def host_coverage_def Let_def)
  qed
qed

lemma matchPorts_outcome:
  "(case matchPorts m ports target port hasPort of None \<Rightarrow> c | Some r \<Rightarrow> outcome r) =
     and_then (port_coverage m ports port hasPort) c"
  by (simp add: matchPorts_def port_coverage_def)

lemma matchProtocols_outcome:
  "(case matchProtocols m protocols protocol of None \<Rightarrow> c | Some r \<Rightarrow> outcome r) =
     and_then (protocol_coverage m protocols protocol) c"
  by (auto simp: matchProtocols_def protocol_coverage_def containsFold_def list_ex_iff)

lemma outcome_option: "outcome (case x of None \<Rightarrow> a | Some r \<Rightarrow> r) = (case x of None \<Rightarrow> outcome a | Some r \<Rightarrow> outcome r)"
  by (simp split: option.splits)

lemma matchNetwork_outcome: "outcome (matchNetwork m sel obs) = network_coverage m sel obs"
proof (cases "Hosts sel = [] \<and> Ports sel = [] \<and> Protocols sel = []")
  case True
  then show ?thesis by (simp add: matchNetwork_def network_coverage_def)
next
  case False
  obtain host port hasPort ok where st: "splitTarget (obsTarget obs) = (host, port, hasPort, ok)"
    by (cases "splitTarget (obsTarget obs)") auto
  have hosts: "outcome (matchHosts m (Hosts sel) host (attr obs AttrDestIP)) =
      host_coverage m (Hosts sel) (host_candidates host (attr obs AttrDestIP))" if "Hosts sel \<noteq> []"
    using that by (rule matchHosts_outcome)
  have protos: "outcome (case matchProtocols m (Protocols sel) (attr obs AttrProtocol) of
        None \<Rightarrow> matched f a | Some r \<Rightarrow> r) =
      protocol_coverage m (Protocols sel) (attr obs AttrProtocol)" for f a
    unfolding outcome_option matchProtocols_outcome by (simp add: and_then_def)
  have ports: "outcome (case matchPorts m (Ports sel) (obsTarget obs) port hasPort of
        None \<Rightarrow> r0 | Some r \<Rightarrow> r) = and_then (port_coverage m (Ports sel) port hasPort) (outcome r0)" for r0
    unfolding outcome_option matchPorts_outcome ..
  show ?thesis
    using False
    by (cases "Hosts sel = []")
      (auto simp: matchNetwork_def network_coverage_def st Let_def mrMatched_outcome
        ports protos host_coverage_def [of m "[]"] hosts and_then_def)
qed

lemma match_arg_patterns_outcome:
  "(case match_arg_patterns args argv ps of None \<Rightarrow> c | Some r \<Rightarrow> outcome r) =
     (if \<exists>p \<in> set ps. \<exists>t \<in> set (argv # args). seg_glob p t then Covered else c)"
proof (induction args argv ps rule: match_arg_patterns.induct)
  case (2 args argv p ps)
  show ?case
  proof (cases "find (seg_glob p) args")
    case None
    then have "\<not> (\<exists>a \<in> set args. seg_glob p a)" by (auto simp: find_None_iff)
    with 2 None show ?thesis by (simp add: matchSegment_fun)
  next
    case (Some a)
    then have "\<exists>a \<in> set args. seg_glob p a" by (auto dest: find_SomeD)
    with Some show ?thesis by (auto simp: matchSegment_fun)
  qed
qed simp

lemma matchArgs_outcome: "outcome (matchArgs patterns argv) = arg_coverage patterns argv"
  by (simp add: matchArgs_def arg_coverage_def outcome_option match_arg_patterns_outcome)

lemma Match_outcome: "outcome (Match m g obs) = grant_coverage m g obs"
  by (auto simp: Match_def grant_coverage_def Let_def mrMatched_outcome matchPaths_outcome
      matchNetwork_outcome matchArgs_outcome and_then_def path_coverage_def
      split: option.splits domain.splits)

section \<open>What the parts guarantee to the whole\<close>

locale selector_matching =
  path_matcher "smMatch m" "smWithinRoot m" + network_matcher "smMatchHost m" "smMatchPort m"
  for m :: selector_matcher
begin

lemma covered_path_resolved:
  "path_coverage m patterns target = Covered \<Longrightarrow> patterns \<noteq> [] \<Longrightarrow>
     IsResolved target \<and> (\<exists>p \<in> set patterns. ValidatePattern p = None \<and> smMatch m p target)"
  using Match_closed by (auto simp: path_coverage_def split: if_splits)

lemma uncomparable_hosts_unknown:
  assumes "patterns \<noteq> []"
    and "\<forall>p \<in> set patterns. \<forall>c \<in> set candidates. CorrelationMissing p c"
  shows "host_coverage m patterns candidates = Unknown"
proof -
  have "\<not> smMatchHost m p c" if "p \<in> set patterns" "c \<in> set candidates" for p c
    using assms(2) that host_comparable by blast
  moreover have "\<exists>p. p \<in> set patterns" using assms(1) by (cases patterns) auto
  ultimately show ?thesis using assms by (auto simp: host_coverage_def)
qed

lemma no_port_constraint: "port_coverage m [] port hasPort = Covered"
  by (simp add: port_coverage_def)

lemma port_covered: "ports \<noteq> [] \<Longrightarrow> port_coverage m ports port hasPort = Covered \<longleftrightarrow> hasPort \<and> port \<in> set ports"
  by (simp add: port_coverage_def listed_port)

end

lemma NewMatcher_simps [simp]:
  "smMatch (NewMatcher ufold) = MatchPath" "smMatchHost (NewMatcher ufold) = MatchHost"
  "smMatchPort (NewMatcher ufold) = MatchPort" "smUnicodeFold (NewMatcher ufold) = ufold"
  "smWithinRoot (NewMatcher ufold) rootp path = lies_within rootp path"
  by (simp_all add: NewMatcher_def WithinRoot_lexical)

interpretation new_matcher: selector_matching "NewMatcher ufold" for ufold
  by unfold_locales
    (auto dest: lexical.Match_closed lies_within_resolved pattern_matcher.host_comparable
      pattern_matcher.host_fact simp: pattern_matcher.listed_port pattern_matcher.any_port
      MatchPath_iff IsResolved_iff)

section \<open>Properties\<close>

text \<open>The verdict of \<open>Match\<close> is the conjunction of the grant's constraints in the observation's
  domain, read three-valued: covered when the kind agrees and every constraint is met, uncovered
  when the first constraint that is not met was compared and failed, and unknown when it could not
  be compared (an unresolved path, a destination that does not parse, no port, no protocol, no
  argument vector, a name against an address, a kind outside the catalog).\<close>

theorem Match_is_three_valued_conjunction:
  "outcome (Match m g obs) = grant_coverage m g obs"
  by (rule Match_outcome)

text \<open>a destination known only by its address is never decided by name grants: when every host
  pattern of the grant is a name or a wildcard and the observation carries only the address, with
  no name correlated to it, the grant neither matches nor mismatches; the answer is "cannot
  tell".\<close>

theorem address_only_destination_is_undecided:
  assumes "grantKind g = obsKind obs" and "DomainOf (obsKind obs) = Some DomainNetwork"
    and hosts: "Hosts (grantSelector g) \<noteq> []"
      "\<forall>p \<in> set (Hosts (grantSelector g)). ClassifyHost p \<in> {HostKindName, HostKindWildcard}"
    and target: "splitTarget (obsTarget obs) = (ip, port, hasPort, True)" "ClassifyHost ip = HostKindIP"
    and "attr obs AttrDestIP \<in> {[], ip}"
  shows "mrUnevaluable (Match (NewMatcher ufold) g obs) \<and> \<not> mrMatched (Match (NewMatcher ufold) g obs)"
proof -
  have ip: "ip \<noteq> []" using target(2) by (auto simp: ClassifyHost_def)
  have "host_candidates ip (attr obs AttrDestIP) = [ip]"
    using assms(7) ip by (auto simp: host_candidates_def)
  moreover have "\<forall>p \<in> set (Hosts (grantSelector g)). CorrelationMissing p ip"
    using hosts(2) target(2) by (auto simp: CorrelationMissing_def)
  ultimately have "host_coverage (NewMatcher ufold) (Hosts (grantSelector g))
      (host_candidates ip (attr obs AttrDestIP)) = Unknown"
    using new_matcher.uncomparable_hosts_unknown[OF hosts(1), of "[ip]"] by simp
  then have "grant_coverage (NewMatcher ufold) g obs = Unknown"
    using assms(1-5) by (simp add: grant_coverage_def network_coverage_def)
  then show ?thesis
    using Match_outcome[of "NewMatcher ufold" g obs] by (auto simp: outcome_def split: if_splits)
qed

text \<open>a filesystem access whose path was never resolved is decided by no path grant: it is
  reported as not evaluable, and in particular never as covered.\<close>

theorem unresolved_path_is_undecided:
  assumes "grantKind g = obsKind obs" and "DomainOf (obsKind obs) = Some DomainFilesystem"
    and "PathPatterns (grantSelector g) \<noteq> []" and "\<not> IsResolved (obsTarget obs)"
  shows "mrUnevaluable (Match m g obs) \<and> \<not> mrMatched (Match m g obs)"
proof -
  have "grant_coverage m g obs = Unknown"
    using assms by (simp add: grant_coverage_def path_coverage_def)
  then show ?thesis
    using Match_outcome[of m g obs] by (auto simp: outcome_def split: if_splits)
qed

theorem unresolved_path_is_undecided_witness:
  "mrUnevaluable (Match (NewMatcher (=))
     \<lparr>grantKind = KindFileRead, grantDomain = DomainFilesystem,
      grantSelector = empty_selector\<lparr>PathPatterns := [''/src/**'']\<rparr>,
      grantRationale = [], grantOptional = False\<rparr>
     \<lparr>obsKind = KindFileRead, obsDomain = DomainFilesystem, obsTarget = ''../etc/passwd'',
      obsAttributes = Map.empty\<rparr>)"
proof -
  have "\<not> IsResolved ''../etc/passwd''" by code_simp
  then show ?thesis
    using unresolved_path_is_undecided
      [of "\<lparr>grantKind = KindFileRead, grantDomain = DomainFilesystem,
            grantSelector = empty_selector\<lparr>PathPatterns := [''/src/**'']\<rparr>,
            grantRationale = [], grantOptional = False\<rparr>"
          "\<lparr>obsKind = KindFileRead, obsDomain = DomainFilesystem, obsTarget = ''../etc/passwd'',
            obsAttributes = Map.empty\<rparr>" "NewMatcher (=)"]
    by (simp add: DomainOf_rows)
qed

theorem address_only_destination_is_undecided_witness:
  "mrUnevaluable (Match (NewMatcher (=))
     \<lparr>grantKind = KindNetConnect, grantDomain = DomainNetwork,
      grantSelector = empty_selector\<lparr>Hosts := [''*.corp.io'']\<rparr>,
      grantRationale = [], grantOptional = False\<rparr>
     \<lparr>obsKind = KindNetConnect, obsDomain = DomainNetwork, obsTarget = ''10.1.2.3:443'',
      obsAttributes = Map.empty\<rparr>)"
proof -
  have "ClassifyHost ''*.corp.io'' = HostKindWildcard" "ClassifyHost ''10.1.2.3'' = HostKindIP"
    "splitTarget ''10.1.2.3:443'' = (''10.1.2.3'', 443, True, True)" by code_simp+
  moreover have "DomainOf KindNetConnect = Some DomainNetwork" by (rule DomainOf_rows)
  ultimately show ?thesis
    using address_only_destination_is_undecided
      [of "\<lparr>grantKind = KindNetConnect, grantDomain = DomainNetwork,
            grantSelector = empty_selector\<lparr>Hosts := [''*.corp.io'']\<rparr>,
            grantRationale = [], grantOptional = False\<rparr>"
          "\<lparr>obsKind = KindNetConnect, obsDomain = DomainNetwork, obsTarget = ''10.1.2.3:443'',
            obsAttributes = Map.empty\<rparr>" "''10.1.2.3''" 443 True "(=)"]
    by (simp add: DomainOf_rows attr_def)
qed

end
