(* ===== verification/Precedence.thy ===== *)
theory Precedence
  imports Path Network "HOL-Library.Multiset"
begin

text \<open>
  Grant precedence (\<open>internal/validator/precedence.go\<close>): how narrow a selector is, measured in
  fifteen dimensions, and which of several matching envelope entries governs an observation.
\<close>

section \<open>Path patterns\<close>

record path_score =
  psDepth :: int
  psTerminal :: int
  psSegments :: int

definition comparePathScore :: "path_score \<Rightarrow> path_score \<Rightarrow> int" where
  "comparePathScore a b =
     (if psDepth a \<noteq> psDepth b then psDepth a - psDepth b
      else if psTerminal a \<noteq> psTerminal b then psTerminal a - psTerminal b
      else psSegments a - psSegments b)"

definition has_wildcard :: "string \<Rightarrow> bool" where
  "has_wildcard seg = list_ex (\<lambda>c. c = CHR ''*'' \<or> c = CHR ''?'' \<or> c = CHR ''['') seg"

definition scorePathPattern :: "string \<Rightarrow> path_score option" where
  "scorePathPattern pattern =
     (if ValidatePattern pattern \<noteq> None then None
      else
        (let segs = segments (normalize pattern) in
         Some \<lparr>psDepth = int (length (takeWhile (\<lambda>seg. \<not> has_wildcard seg) segs)),
               psTerminal = (if list_ex (\<lambda>seg. seg = ''**'') segs then 0 else 1),
               psSegments = int (length segs)\<rparr>))"

fun broadest_path_loop :: "path_score option \<Rightarrow> string list \<Rightarrow> path_score option" where
  "broadest_path_loop broadest [] = broadest"
| "broadest_path_loop broadest (p # ps) =
     (case scorePathPattern p of
        None \<Rightarrow> broadest_path_loop broadest ps
      | Some score \<Rightarrow>
          broadest_path_loop
            (case broadest of
               None \<Rightarrow> Some score
             | Some b \<Rightarrow> if comparePathScore score b < 0 then Some score else Some b) ps)"

definition broadestPathPattern :: "string list \<Rightarrow> path_score option" where
  "broadestPathPattern patterns = broadest_path_loop None patterns"

section \<open>Host patterns\<close>

definition hostRankBlock :: int where "hostRankBlock = 1"
definition hostRankWildcard :: int where "hostRankWildcard = 2"
definition hostRankExact :: int where "hostRankExact = 3"

definition scoreHostPattern :: "string \<Rightarrow> (int \<times> int) option" where
  "scoreHostPattern pattern =
     (case ClassifyHost pattern of
        HostKindIP \<Rightarrow> Some (hostRankExact, 0)
      | HostKindName \<Rightarrow> Some (hostRankExact, 0)
      | HostKindCIDR \<Rightarrow>
          (case ParsePrefix pattern of
             None \<Rightarrow> None
           | Some p \<Rightarrow>
               if prefix_bits p = addr_bitlen (prefix_addr p) then Some (hostRankExact, 0)
               else Some (hostRankBlock, int (prefix_bits p)))
      | HostKindWildcard \<Rightarrow>
          Some (hostRankWildcard,
            int (length (filter (\<lambda>c. c = CHR ''.'') (trim_suffix (drop 2 pattern) ''.''))) + 1)
      | HostKindInvalid \<Rightarrow> None)"

fun broadest_host_loop :: "(int \<times> int) option \<Rightarrow> string list \<Rightarrow> (int \<times> int) option" where
  "broadest_host_loop broadest [] = broadest"
| "broadest_host_loop broadest (p # ps) =
     (case scoreHostPattern p of
        None \<Rightarrow> broadest_host_loop broadest ps
      | Some (r, prec) \<Rightarrow>
          broadest_host_loop
            (case broadest of
               None \<Rightarrow> Some (r, prec)
             | Some (rank, precision) \<Rightarrow>
                 if r < rank \<or> (r = rank \<and> prec < precision) then Some (r, prec)
                 else Some (rank, precision)) ps)"

definition broadestHostPattern :: "string list \<Rightarrow> (int \<times> int) option" where
  "broadestHostPattern patterns = broadest_host_loop None patterns"

section \<open>Specificity\<close>

text \<open>The fifteen dimensions in comparison order; an unconstrained dimension is zero.\<close>

datatype specificity = Specificity (dims: "int list")

definition SpecificityOf :: "grant \<Rightarrow> specificity" where
  "SpecificityOf g =
     (let sel = grantSelector g;
          (pd, pt, ps) =
            (case broadestPathPattern (PathPatterns sel) of
               None \<Rightarrow> (0, 0, 0) | Some p \<Rightarrow> (psDepth p, psTerminal p, psSegments p));
          (ed, et, es) =
            (case broadestPathPattern (Executables sel) of
               None \<Rightarrow> (0, 0, 0) | Some p \<Rightarrow> (psDepth p, psTerminal p, psSegments p));
          (hr, hp) =
            (case broadestHostPattern (Hosts sel) of None \<Rightarrow> (0, 0) | Some (r, p) \<Rightarrow> (r, p));
          (pc, pp) = (if Ports sel \<noteq> [] then (1, - int (length (Ports sel))) else (0, 0));
          (rc, rp) = (if Protocols sel \<noteq> [] then (1, - int (length (Protocols sel))) else (0, 0));
          ac = (if ArgPatterns sel \<noteq> [] then 1 else 0);
          (cb, cp) = (if MaxCount sel > 0 then (1, - MaxCount sel) else (0, 0))
      in Specificity [pd, pt, ps, ed, et, es, hr, hp, pc, pp, rc, rp, ac, cb, cp])"

definition dimensionNames :: "string list" where
  "dimensionNames =
     [''path anchor depth'', ''path recursion'', ''path length'',
      ''executable anchor depth'', ''executable recursion'', ''executable path length'',
      ''host exactness'', ''host precision'', ''port constraint'', ''port count'',
      ''protocol constraint'', ''protocol count'', ''argument constraint'', ''use limit'',
      ''use limit size'']"

fun compare_dims :: "nat \<Rightarrow> int list \<Rightarrow> int list \<Rightarrow> int \<times> nat" where
  "compare_dims i (a # as) (b # bs) =
     (if a > b then (1, i) else if a < b then (-1, i) else compare_dims (i + 1) as bs)"
| "compare_dims i _ _ = (0, 0)"

definition compareSpecificity :: "specificity \<Rightarrow> specificity \<Rightarrow> int \<times> nat" where
  "compareSpecificity a b = compare_dims 0 (dims a) (dims b)"

definition CompareSpecificity :: "specificity \<Rightarrow> specificity \<Rightarrow> int" where
  "CompareSpecificity a b = fst (compareSpecificity a b)"

text \<open>\<open>Specificity.String\<close>: the parts are joined by a space in the source.\<close>

definition specificityString :: "specificity \<Rightarrow> msg" where
  "specificityString s =
     (let parts = filter (\<lambda>(name, d). d \<noteq> 0) (zip dimensionNames (dims s)) in
      if parts = [] then Fmt ''unconstrained'' []
      else Fmt ''join space'' (map (\<lambda>(name, d). AMsg (Fmt ''%s=%d'' [AStr name, AInt d])) parts))"

section \<open>Choosing the winner\<close>

record match_entry =
  meIndex :: int
  meGrant :: grant

record resolution =
  rsWinner :: "match_entry option"
  rsDenied :: bool
  rsReason :: msg

text \<open>
  The loop of \<open>pickNarrowest\<close> over the positions; the best position so far comes with its
  measurement, \<open>None\<close> while it is -1.
\<close>

fun pick_loop ::
  "match_entry list \<Rightarrow> int \<Rightarrow> nat list \<Rightarrow> (nat \<times> specificity) option \<Rightarrow> (nat \<times> specificity) option"
  where
  "pick_loop matches skip [] best = best"
| "pick_loop matches skip (i # is) best =
     (if int i = skip then pick_loop matches skip is best
      else
        (let spec = SpecificityOf (meGrant (matches ! i)) in
         case best of
           None \<Rightarrow> pick_loop matches skip is (Some (i, spec))
         | Some (b, bestSpec) \<Rightarrow>
             (let cmp = CompareSpecificity spec bestSpec in
              if cmp > 0 \<or> (cmp = 0 \<and> meIndex (matches ! i) < meIndex (matches ! b))
              then pick_loop matches skip is (Some (i, spec))
              else pick_loop matches skip is (Some (b, bestSpec)))))"

definition pickNarrowest :: "match_entry list \<Rightarrow> int \<Rightarrow> int" where
  "pickNarrowest matches skip =
     (case pick_loop matches skip [0..<length matches] None of None \<Rightarrow> -1 | Some (b, _) \<Rightarrow> int b)"

text \<open>\<open>mostSpecific\<close> is called on a non-empty list only, as in the source.\<close>

definition mostSpecific :: "match_entry list \<Rightarrow> match_entry \<times> msg" where
  "mostSpecific matches =
     (let best = pickNarrowest matches (-1); w = matches ! nat best in
      if length matches = 1 then (w, Fmt ''entry %d, the only match'' [AInt (meIndex w)])
      else
        (let runnerUp = pickNarrowest matches best;
             (cmp, dim) = compareSpecificity (SpecificityOf (meGrant w))
               (SpecificityOf (meGrant (matches ! nat runnerUp)))
         in
         if cmp = 0 then
           (w, Fmt ''entry %d, the earliest of %d equally specific matches''
                 [AInt (meIndex w), AInt (int (length matches))])
         else
           (w, Fmt ''entry %d, the most specific of %d matches (decided by %s)''
                 [AInt (meIndex w), AInt (int (length matches)), AStr (dimensionNames ! dim)])))"

definition ResolvePrecedence :: "match_entry list \<Rightarrow> match_entry list \<Rightarrow> resolution" where
  "ResolvePrecedence grants denials =
     (if denials \<noteq> [] then
        (let (winner, why) = mostSpecific denials in
         \<lparr>rsWinner = Some winner, rsDenied = True,
          rsReason = Fmt ''explicit denial overrides any matching grant: %s'' [AMsg why]\<rparr>)
      else if grants \<noteq> [] then
        (let (winner, why) = mostSpecific grants in
         \<lparr>rsWinner = Some winner, rsDenied = False, rsReason = why\<rparr>)
      else
        \<lparr>rsWinner = None, rsDenied = False, rsReason = Fmt ''no grant or denial matched'' []\<rparr>)"

section \<open>Keeping the best of a list\<close>

text \<open>
  The three loops of the file share one shape: keep a candidate, replace it by a better one. The
  interface of "better" is a strict weak order, and the loop's laws are proved once over it.
\<close>

fun keep_best :: "('a \<Rightarrow> 'a \<Rightarrow> bool) \<Rightarrow> 'a option \<Rightarrow> 'a list \<Rightarrow> 'a option" where
  "keep_best better best [] = best"
| "keep_best better None (x # xs) = keep_best better (Some x) xs"
| "keep_best better (Some b) (x # xs) = keep_best better (Some (if better x b then x else b)) xs"

locale preference =
  fixes better :: "'a \<Rightarrow> 'a \<Rightarrow> bool"
  assumes better_asym: "better a b \<Longrightarrow> \<not> better b a"
    and worse_trans: "\<not> better a b \<Longrightarrow> \<not> better b c \<Longrightarrow> \<not> better a c"
begin

lemma keep_best_Some:
  "\<exists>m. keep_best better (Some b) xs = Some m \<and> m \<in> insert b (set xs)
       \<and> (\<forall>x\<in>insert b (set xs). \<not> better x m)"
proof (induction xs arbitrary: b)
  case Nil
  then show ?case using better_asym by auto
next
  case (Cons x xs)
  define c where "c = (if better x b then x else b)"
  have low: "\<not> better x c" "\<not> better b c"
    using better_asym by (auto simp: c_def)
  from Cons.IH[of c] obtain m where m: "keep_best better (Some c) xs = Some m"
    "m \<in> insert c (set xs)" "\<forall>x\<in>insert c (set xs). \<not> better x m" by blast
  have "m \<in> insert b (set (x # xs))" using m(2) by (auto simp: c_def split: if_splits)
  moreover have "\<not> better x m" "\<not> better b m"
    using low m(3) worse_trans by blast+
  ultimately show ?case using m by (auto simp: c_def[symmetric])
qed

lemma keep_best_None_iff: "keep_best better None xs = None \<longleftrightarrow> xs = []"
proof (cases xs)
  case (Cons y ys)
  then show ?thesis using keep_best_Some[of y ys] by auto
qed simp

lemma keep_best_optimal:
  assumes "keep_best better None xs = Some m"
  shows "m \<in> set xs \<and> (\<forall>x\<in>set xs. \<not> better x m)"
proof (cases xs)
  case (Cons y ys)
  then show ?thesis using keep_best_Some[of y ys] assms by auto
qed (use assms in simp)

lemma keep_best_unique:
  assumes strict: "\<And>x y. x \<in> set xs \<Longrightarrow> y \<in> set xs \<Longrightarrow> \<not> better x y \<Longrightarrow> \<not> better y x \<Longrightarrow> x = y"
    and same: "set xs = set ys"
  shows "keep_best better None xs = keep_best better None ys"
proof (cases "keep_best better None xs")
  case None
  then show ?thesis using same keep_best_None_iff by auto
next
  case (Some m)
  moreover from Some obtain n where n: "keep_best better None ys = Some n"
    using same keep_best_None_iff by (metis option.exhaust set_empty option.distinct(1))
  ultimately show ?thesis
    using keep_best_optimal[of xs m] keep_best_optimal[of ys n] strict[of m n] same by auto
qed

end

section \<open>Path scores and host scores\<close>

definition path_key :: "path_score \<Rightarrow> int list" where
  "path_key s = [psDepth s, psTerminal s, psSegments s]"

lemma comparePathScore_less: "comparePathScore a b < 0 \<longleftrightarrow> path_key a < path_key b"
  by (auto simp: comparePathScore_def path_key_def)

lemma path_key_inj: "path_key a = path_key b \<longleftrightarrow> a = b"
  by (auto simp: path_key_def)

interpretation paths: preference "\<lambda>a b. comparePathScore a b < 0"
  by unfold_locales (auto simp: comparePathScore_less)

lemma broadest_path_loop_keep:
  "broadest_path_loop b ps =
     keep_best (\<lambda>a b. comparePathScore a b < 0) b (List.map_filter scorePathPattern ps)"
proof (induction ps arbitrary: b)
  case (Cons p ps)
  then show ?case
    by (cases b) (auto simp: List.map_filter_simps split: option.splits)
qed (simp add: List.map_filter_simps)

lemma set_map_filter_score: "set (List.map_filter f xs) = {y. \<exists>x\<in>set xs. f x = Some y}"
  by (induction xs) (auto simp: List.map_filter_simps split: option.splits)

lemma broadestPathPattern_None:
  "broadestPathPattern ps = None \<longleftrightarrow> (\<forall>p\<in>set ps. scorePathPattern p = None)"
proof -
  have "broadestPathPattern ps = None \<longleftrightarrow> set (List.map_filter scorePathPattern ps) = {}"
    by (simp add: broadestPathPattern_def broadest_path_loop_keep paths.keep_best_None_iff)
  then show ?thesis by (simp add: set_map_filter_score) (metis not_None_eq)
qed

lemma broadestPathPattern_Some:
  assumes "broadestPathPattern ps = Some m"
  shows "\<exists>p\<in>set ps. scorePathPattern p = Some m"
    and "q \<in> set ps \<Longrightarrow> scorePathPattern q = Some s \<Longrightarrow> path_key m \<le> path_key s"
proof -
  have keep: "keep_best (\<lambda>a b. comparePathScore a b < 0) None
                (List.map_filter scorePathPattern ps) = Some m"
    using assms by (simp add: broadestPathPattern_def broadest_path_loop_keep)
  show "\<exists>p\<in>set ps. scorePathPattern p = Some m"
    using paths.keep_best_optimal[OF keep] by (auto simp: set_map_filter_score)
  show "path_key m \<le> path_key s" if "q \<in> set ps" "scorePathPattern q = Some s"
  proof -
    have "s \<in> set (List.map_filter scorePathPattern ps)"
      using that by (auto simp: set_map_filter_score)
    then have "\<not> comparePathScore s m < 0"
      using paths.keep_best_optimal[OF keep] by blast
    then show ?thesis by (simp add: comparePathScore_less not_less)
  qed
qed

lemma broadestPathPattern_cong:
  assumes "set ps = set qs"
  shows "broadestPathPattern ps = broadestPathPattern qs"
  unfolding broadestPathPattern_def broadest_path_loop_keep
  by (rule paths.keep_best_unique)
    (auto simp: comparePathScore_less path_key_inj set_map_filter_score assms)

interpretation hosts: preference
  "\<lambda>(r :: int, prec :: int) (rank, precision). r < rank \<or> (r = rank \<and> prec < precision)"
  by unfold_locales auto

lemma broadest_host_loop_keep:
  "broadest_host_loop b ps =
     keep_best (\<lambda>(r, prec) (rank, precision). r < rank \<or> (r = rank \<and> prec < precision)) b
       (List.map_filter scoreHostPattern ps)"
proof (induction ps arbitrary: b)
  case (Cons p ps)
  then show ?case
    by (cases b) (auto simp: List.map_filter_simps split: option.splits prod.splits if_splits)
qed (simp add: List.map_filter_simps)

lemma broadestHostPattern_Some:
  assumes "broadestHostPattern ps = Some (rank, precision)"
  shows "\<exists>p\<in>set ps. scoreHostPattern p = Some (rank, precision)"
    and "q \<in> set ps \<Longrightarrow> scoreHostPattern q = Some (r, prec) \<Longrightarrow>
           rank < r \<or> (rank = r \<and> precision \<le> prec)"
proof -
  note keep = hosts.keep_best_optimal[of "List.map_filter scoreHostPattern ps" "(rank, precision)"]
  have best: "broadest_host_loop None ps = Some (rank, precision)"
    using assms by (simp add: broadestHostPattern_def)
  show "\<exists>p\<in>set ps. scoreHostPattern p = Some (rank, precision)"
    using keep best by (auto simp: broadest_host_loop_keep set_map_filter_score)
  show "rank < r \<or> (rank = r \<and> precision \<le> prec)"
    if "q \<in> set ps" "scoreHostPattern q = Some (r, prec)"
    using keep best that by (fastforce simp: broadest_host_loop_keep set_map_filter_score)
qed

lemma broadestHostPattern_cong:
  assumes "set ps = set qs"
  shows "broadestHostPattern ps = broadestHostPattern qs"
  unfolding broadestHostPattern_def broadest_host_loop_keep
  by (rule hosts.keep_best_unique) (auto simp: set_map_filter_score assms)

section \<open>Specificities are totally ordered\<close>

instantiation specificity :: linorder
begin

definition less_eq_specificity :: "specificity \<Rightarrow> specificity \<Rightarrow> bool" where
  "less_eq_specificity a b = (dims a \<le> dims b)"

definition less_specificity :: "specificity \<Rightarrow> specificity \<Rightarrow> bool" where
  "less_specificity a b = (dims a < dims b)"

instance
  by standard
    (auto simp: less_eq_specificity_def less_specificity_def intro: specificity.expand)

end

lemma length_SpecificityOf [simp]: "length (dims (SpecificityOf g)) = 15"
  by (simp add: SpecificityOf_def Let_def split: prod.splits)

lemma compare_dims_sign:
  "length as = length bs \<Longrightarrow>
     fst (compare_dims i as bs) = (if bs < as then 1 else if as < bs then -1 else 0)"
  by (induction i as bs rule: compare_dims.induct) auto

lemma compare_dims_index:
  "length as = length bs \<Longrightarrow> compare_dims i as bs = (c, d) \<Longrightarrow> c \<noteq> 0 \<Longrightarrow>
     i \<le> d \<and> d < i + length as \<and> take (d - i) as = take (d - i) bs \<and> as ! (d - i) \<noteq> bs ! (d - i)"
proof (induction i as bs rule: compare_dims.induct)
  case (1 i a as b bs)
  show ?case
  proof (cases "a = b")
    case True
    with 1 have step: "Suc i \<le> d \<and> d < Suc i + length as \<and> take (d - Suc i) as = take (d - Suc i) bs
      \<and> as ! (d - Suc i) \<noteq> bs ! (d - Suc i)" by simp
    then obtain n where "d = Suc (i + n)" using less_iff_Suc_add Suc_le_eq by fastforce
    with step True show ?thesis by simp
  next
    case False
    with 1(3,4) have "d = i" by (auto split: if_splits)
    with False show ?thesis by simp
  qed
qed auto

lemma CompareSpecificity_sign:
  "CompareSpecificity (SpecificityOf g) (SpecificityOf h) =
     (if SpecificityOf h < SpecificityOf g then 1
      else if SpecificityOf g < SpecificityOf h then -1 else 0)"
  by (simp add: CompareSpecificity_def compareSpecificity_def less_specificity_def compare_dims_sign)

section \<open>The winner\<close>

text \<open>
  Entry \<open>a\<close> beats entry \<open>b\<close> when it is narrower, or equally narrow and earlier in the
  envelope. A position and its measurement is what \<open>pickNarrowest\<close> compares.
\<close>

definition beats :: "match_entry \<Rightarrow> match_entry \<Rightarrow> bool" where
  "beats a b =
     (SpecificityOf (meGrant b) < SpecificityOf (meGrant a) \<or>
      SpecificityOf (meGrant a) = SpecificityOf (meGrant b) \<and> meIndex a < meIndex b)"

interpretation entries: preference beats
  by unfold_locales (auto simp: beats_def)

interpretation positions: preference "\<lambda>i j. beats (matches ! i) (matches ! j)" for matches
  by unfold_locales (use entries.better_asym entries.worse_trans in blast)+

definition measure_at :: "match_entry list \<Rightarrow> nat \<Rightarrow> nat \<times> specificity" where
  "measure_at matches i = (i, SpecificityOf (meGrant (matches ! i)))"

lemma pick_loop_keep:
  "pick_loop matches skip is (map_option (measure_at matches) best) =
     map_option (measure_at matches)
       (keep_best (\<lambda>i j. beats (matches ! i) (matches ! j)) best (filter (\<lambda>i. int i \<noteq> skip) is))"
proof (induction "is" arbitrary: best)
  case (Cons i "is")
  note IHs = Cons.IH[of None] Cons.IH[of "Some i"]
  show ?case
  proof (cases best)
    case None
    then show ?thesis using IHs by (simp add: measure_at_def)
  next
    case (Some b)
    then show ?thesis using IHs(2) Cons.IH[of "Some b"]
      by (auto simp: measure_at_def Let_def CompareSpecificity_sign beats_def)
  qed
qed simp

definition candidate_positions :: "match_entry list \<Rightarrow> int \<Rightarrow> nat list" where
  "candidate_positions matches skip = filter (\<lambda>i. int i \<noteq> skip) [0..<length matches]"

lemma pickNarrowest_keep:
  "pickNarrowest matches skip =
     (case keep_best (\<lambda>i j. beats (matches ! i) (matches ! j)) None
        (candidate_positions matches skip) of None \<Rightarrow> -1 | Some b \<Rightarrow> int b)"
  using pick_loop_keep[of matches skip "[0..<length matches]" None]
  by (auto simp: pickNarrowest_def candidate_positions_def measure_at_def split: option.splits)

lemma pickNarrowest_optimal:
  assumes "i < length matches" "int i \<noteq> skip"
  obtains b where "pickNarrowest matches skip = int b" "b < length matches" "int b \<noteq> skip"
    "\<forall>j<length matches. int j \<noteq> skip \<longrightarrow> \<not> beats (matches ! j) (matches ! b)"
proof -
  have "candidate_positions matches skip \<noteq> []"
    using assms by (auto simp: candidate_positions_def filter_empty_conv)
  then obtain b where b:
    "keep_best (\<lambda>i j. beats (matches ! i) (matches ! j)) None (candidate_positions matches skip) = Some b"
    using positions.keep_best_None_iff by blast
  have "b \<in> set (candidate_positions matches skip)"
    "\<forall>j\<in>set (candidate_positions matches skip). \<not> beats (matches ! j) (matches ! b)"
    using positions.keep_best_optimal[OF b] by blast+
  then show ?thesis
    using that[of b] b by (auto simp: pickNarrowest_keep candidate_positions_def)
qed

lemma not_beats_both:
  assumes "\<not> beats a b" "\<not> beats b a"
  shows "meIndex a = meIndex b"
  using assms by (auto simp: beats_def)

lemma distinct_index_nth:
  assumes "distinct (map meIndex es)" "i < length es" "j < length es" "meIndex (es ! i) = meIndex (es ! j)"
  shows "i = j"
  using assms by (metis length_map nth_eq_iff_index_eq nth_map)

lemma fst_mostSpecific: "fst (mostSpecific es) = es ! nat (pickNarrowest es (-1))"
  by (simp add: mostSpecific_def Let_def split: prod.splits)

lemma mostSpecific_optimal:
  assumes "es \<noteq> []"
  shows "fst (mostSpecific es) \<in> set es" "\<forall>e\<in>set es. \<not> beats e (fst (mostSpecific es))"
proof -
  obtain b where "pickNarrowest es (-1) = int b" "b < length es"
    "\<forall>j<length es. \<not> beats (es ! j) (es ! b)"
    using pickNarrowest_optimal[of 0 es "-1"] assms by auto
  then show "fst (mostSpecific es) \<in> set es" "\<forall>e\<in>set es. \<not> beats e (fst (mostSpecific es))"
    by (auto simp: fst_mostSpecific in_set_conv_nth)
qed

lemma runner_up:
  assumes "distinct (map meIndex es)" "length es \<noteq> 1" "es \<noteq> []"
  defines "r \<equiv> es ! nat (pickNarrowest es (pickNarrowest es (-1)))"
  shows "r \<in> set es - {fst (mostSpecific es)}"
    and "\<forall>e\<in>set es - {fst (mostSpecific es)}. \<not> beats e r"
proof -
  have len: "1 < length es" using assms(2,3) by (cases es) (auto simp: Suc_lessI)
  obtain b where b: "pickNarrowest es (-1) = int b" "b < length es"
    using pickNarrowest_optimal[of 0 es "-1"] assms(3) by auto
  define j where "j = (if b = 0 then 1 else 0 :: nat)"
  have j: "j < length es" "j \<noteq> b" using len by (auto simp: j_def)
  obtain c where c: "pickNarrowest es (int b) = int c" "c < length es" "c \<noteq> b"
    "\<forall>k<length es. k \<noteq> b \<longrightarrow> \<not> beats (es ! k) (es ! c)"
    using pickNarrowest_optimal[of j es "int b"] j by auto
  have r: "r = es ! c" and w: "fst (mostSpecific es) = es ! b"
    using b c by (simp_all add: r_def fst_mostSpecific)
  have apart: "es ! k = es ! b \<longleftrightarrow> k = b" if "k < length es" for k
    using distinct_index_nth[OF assms(1) that b(2)] by auto
  show "r \<in> set es - {fst (mostSpecific es)}" using apart[OF c(2)] c r w by simp
  show "\<forall>e\<in>set es - {fst (mostSpecific es)}. \<not> beats e r"
    using c(4) apart by (auto simp: r w in_set_conv_nth)
qed

lemma best_unique:
  assumes "inj_on meIndex A" "a \<in> A" "b \<in> A" "\<forall>e\<in>A. \<not> beats e a" "\<forall>e\<in>A. \<not> beats e b"
  shows "a = b"
  using assms not_beats_both[of a b] by (auto dest: inj_onD)

lemma mostSpecific_cong:
  assumes same: "mset es = mset es'" and distinct: "distinct (map meIndex es)"
  shows "mostSpecific es = mostSpecific es'"
proof (cases "es = []")
  case True
  then show ?thesis using same by simp
next
  case False
  have set: "set es' = set es" and len: "length es' = length es"
    using same mset_eq_setD mset_eq_length by (metis, metis)
  have distinct': "distinct (map meIndex es')"
    using distinct same by (metis mset_eq_imp_distinct_iff mset_map)
  have ne': "es' \<noteq> []" using False len by auto
  have inj: "inj_on meIndex (set es)" using distinct by (simp add: distinct_map)
  have w: "fst (mostSpecific es) = fst (mostSpecific es')"
    by (rule best_unique[OF inj])
      (use mostSpecific_optimal[OF False] mostSpecific_optimal[OF ne'] set in auto)
  have top: "es ! nat (pickNarrowest es (-1)) = es' ! nat (pickNarrowest es' (-1))"
    using w by (simp add: fst_mostSpecific)
  show ?thesis
  proof (cases "length es = 1")
    case True
    then show ?thesis using top len by (simp add: mostSpecific_def Let_def)
  next
    case False
    then have "length es' \<noteq> 1" using len by simp
    note up = runner_up[OF distinct False \<open>es \<noteq> []\<close>] runner_up[OF distinct' this ne']
    have "es ! nat (pickNarrowest es (pickNarrowest es (-1))) =
        es' ! nat (pickNarrowest es' (pickNarrowest es' (-1)))"
      by (rule best_unique[OF inj_on_subset[OF inj Diff_subset]]) (use up set w in auto)
    then show ?thesis using top len by (simp add: mostSpecific_def Let_def split: prod.split)
  qed
qed

lemma ResolvePrecedence_simps:
  "ds \<noteq> [] \<Longrightarrow> rsWinner (ResolvePrecedence gs ds) = Some (fst (mostSpecific ds))
     \<and> rsDenied (ResolvePrecedence gs ds)"
  "gs \<noteq> [] \<Longrightarrow> rsWinner (ResolvePrecedence gs []) = Some (fst (mostSpecific gs))
     \<and> \<not> rsDenied (ResolvePrecedence gs [])"
  "rsWinner (ResolvePrecedence [] []) = None \<and> \<not> rsDenied (ResolvePrecedence [] [])"
  by (simp_all add: ResolvePrecedence_def split: prod.splits)

lemma not_beats_narrower:
  "\<not> beats e w \<longleftrightarrow> CompareSpecificity (SpecificityOf (meGrant e)) (SpecificityOf (meGrant w)) < 0 \<or>
     CompareSpecificity (SpecificityOf (meGrant e)) (SpecificityOf (meGrant w)) = 0
       \<and> meIndex w \<le> meIndex e"
  by (auto simp: beats_def CompareSpecificity_sign)

section \<open>Properties\<close>

text \<open>A read grant on one path pattern, as an envelope entry; the examples use it.\<close>

definition path_entry :: "int \<Rightarrow> string \<Rightarrow> match_entry" where
  "path_entry i pattern =
     \<lparr>meIndex = i,
      meGrant = \<lparr>grantKind = KindFileRead, grantDomain = DomainFilesystem,
        grantSelector = empty_selector\<lparr>PathPatterns := [pattern]\<rparr>,
        grantRationale = [], grantOptional = False\<rparr>\<rparr>"

text \<open>among the grants that match an observation the narrowest governs: without a denial the
  winner is one of the entries, no entry is more specific than it, and an entry as specific as it
  stands later in the envelope.\<close>

theorem narrowest_grant_governs:
  assumes "entries \<noteq> []"
  shows "\<exists>w\<in>set entries.
           rsWinner (ResolvePrecedence entries []) = Some w \<and>
           \<not> rsDenied (ResolvePrecedence entries []) \<and>
           (\<forall>e\<in>set entries.
              let c = CompareSpecificity (SpecificityOf (meGrant e)) (SpecificityOf (meGrant w))
              in c < 0 \<or> c = 0 \<and> meIndex w \<le> meIndex e)"
  using mostSpecific_optimal[OF assms] ResolvePrecedence_simps(2)[OF assms]
  by (auto simp: not_beats_narrower Let_def)

theorem narrowest_grant_governs_witness:
  "\<exists>w\<in>set [path_entry 0 ''/src/**'', path_entry 1 ''/src/main.c''].
     rsWinner (ResolvePrecedence [path_entry 0 ''/src/**'', path_entry 1 ''/src/main.c''] []) = Some w"
  using narrowest_grant_governs[of "[path_entry 0 ''/src/**'', path_entry 1 ''/src/main.c'']"]
  by blast

text \<open>A denial overrides every grant. When any denial matches, the resolution is a denial
  whatever grants match and however narrow they are, and the denial it names is the narrowest
  matching one, the earliest of those equally narrow.\<close>

theorem denial_overrides_grants:
  assumes "denials \<noteq> []"
  shows "\<exists>w\<in>set denials.
           rsWinner (ResolvePrecedence grants denials) = Some w \<and>
           rsDenied (ResolvePrecedence grants denials) \<and>
           (\<forall>e\<in>set denials.
              let c = CompareSpecificity (SpecificityOf (meGrant e)) (SpecificityOf (meGrant w))
              in c < 0 \<or> c = 0 \<and> meIndex w \<le> meIndex e)"
  using mostSpecific_optimal[OF assms] ResolvePrecedence_simps(1)[OF assms]
  by (auto simp: not_beats_narrower Let_def)

theorem denial_overrides_grants_witness:
  "rsDenied (ResolvePrecedence [path_entry 0 ''/src/main.c''] [path_entry 0 ''/**''])"
  using denial_overrides_grants[of "[path_entry 0 ''/**'']" "[path_entry 0 ''/src/main.c'']"]
  by blast

text \<open>the order in which the matching entries were collected does not matter. Entries with
  their own indexes give the same winner, the same denied flag and the same reason text in any
  order.\<close>

theorem precedence_ignores_listing_order:
  assumes "mset grants' = mset grants" and "mset denials' = mset denials"
    and "distinct (map meIndex grants)" and "distinct (map meIndex denials)"
  shows "ResolvePrecedence grants' denials' = ResolvePrecedence grants denials"
  using mostSpecific_cong[of grants grants'] mostSpecific_cong[of denials denials'] assms
  by (auto simp: ResolvePrecedence_def)

theorem precedence_ignores_listing_order_witness:
  "ResolvePrecedence [path_entry 1 ''/src/main.c'', path_entry 0 ''/src/**''] [] =
   ResolvePrecedence [path_entry 0 ''/src/**'', path_entry 1 ''/src/main.c''] []"
  by (rule precedence_ignores_listing_order) (simp_all add: path_entry_def)

end
