(* ===== verification/Ece.thy ===== *)
theory Ece
  imports Capability
begin

text \<open>
  The envelope of expected capabilities (\<open>pkg/ece/ece.go\<close>): what the session was granted, what
  it was denied, its budgets and its posture. A \<open>time.Time\<close> is an integer number of nanoseconds
  from Go's zero time, which is 0; a \<open>time.Duration\<close> is an integer number of nanoseconds.
\<close>

type_synonym time = int
type_synonym duration = int

section \<open>Data\<close>

datatype action = ActionAllow | ActionWarn | ActionRequestApproval | ActionBlock | ActionOther string

primrec action_string :: "action \<Rightarrow> string" where
  "action_string ActionAllow = ''allow''"
| "action_string ActionWarn = ''warn''"
| "action_string ActionRequestApproval = ''request_approval''"
| "action_string ActionBlock = ''block''"
| "action_string (ActionOther s) = s"

record intent_record =
  inRawPrompt :: string
  inSummary :: string
  inTaskType :: string
  inAnalyzer :: string
  inConfidence :: float64
  inAmbiguities :: "string list"

record constraints =
  MaxDuration :: duration
  MaxProcesses :: int
  MaxFileWrites :: int
  MaxNetworkBytes :: int
  WorkspaceRoot :: string
  AllowNetworkByDefault :: bool

record approval_record =
  apApprovedBy :: string
  apApprovedAt :: time
  apMethod :: string
  apModifications :: "string list"

record envelope =
  envSchemaVersion :: string
  envID :: string
  envSessionID :: string
  envCreatedAt :: time
  envExpiresAt :: time
  envIntent :: intent_record
  Grants :: "grant list"
  Denials :: "grant list"
  Constraints :: constraints
  DefaultAction :: action
  envApproval :: "approval_record option"
  envSealed :: bool
  envDigest :: string

definition SchemaVersion :: string where
  "SchemaVersion = ''allseer.dev/ece/v1alpha1''"

section \<open>Empty values\<close>

text \<open>The zero value of a Go struct.\<close>

definition zero_intent :: intent_record where
  "zero_intent = \<lparr>inRawPrompt = [], inSummary = [], inTaskType = [], inAnalyzer = [],
     inConfidence = Finite 0, inAmbiguities = []\<rparr>"

definition zero_constraints :: constraints where
  "zero_constraints = \<lparr>MaxDuration = 0, MaxProcesses = 0, MaxFileWrites = 0, MaxNetworkBytes = 0,
     WorkspaceRoot = [], AllowNetworkByDefault = False\<rparr>"

definition zero_envelope :: envelope where
  "zero_envelope = \<lparr>envSchemaVersion = [], envID = [], envSessionID = [], envCreatedAt = 0,
     envExpiresAt = 0, envIntent = zero_intent, Grants = [], Denials = [],
     Constraints = zero_constraints, DefaultAction = ActionOther [], envApproval = None,
     envSealed = False, envDigest = []\<rparr>"

end
