(* ===== verification/Event.thy ===== *)
theory Event
  imports Capability Ece
begin

text \<open>
  Events (\<open>pkg/event/event.go\<close>): what a probe saw, with the payload of its domain, and the
  capabilities a file open exercised beyond the one it is labelled with.
\<close>

unbundle bit_operations_syntax

section \<open>Data\<close>

record op_result =
  ReturnCode :: int
  Errno :: string
  Succeeded :: bool
  OutcomeUnobserved :: bool

record process =
  PID :: "32 word"
  TID :: "32 word"
  PPID :: "32 word"
  UID :: "32 word"
  GID :: "32 word"
  Comm :: string
  Executable :: string
  CgroupID :: "64 word"
  StartTime :: "64 word"
  AncestryDepth :: int

record file_payload =
  fpPath :: string
  ResolvedPath :: string
  Flags :: "32 word"
  fpMode :: "32 word"
  Inode :: "64 word"
  Device :: "64 word"
  NewPath :: string
  BytesTransferred :: int
  fpTruncated :: bool
  KernelPath :: bool
  PathLate :: bool
  fpDir :: string
  DirSource :: string
  DirStatus :: string

record network_payload =
  npProtocol :: string
  SourceAddr :: string
  SourcePort :: int
  DestAddr :: string
  DestPort :: int
  AddressFamily :: string
  SocketType :: string
  Hostname :: string
  BytesSent :: int
  BytesReceived :: int

record exec_payload =
  Filename :: string
  Argv :: "string list"
  EnvKeys :: "string list"
  Interpreter :: string
  BinaryHash :: string
  epTruncated :: bool

record priv_payload =
  prOperation :: string
  OldUID :: "32 word"
  NewUID :: "32 word"
  CapabilitiesAdded :: "string list"
  NamespaceType :: string

record event =
  evID :: string
  evSessionID :: string
  evSequence :: "64 word"
  KernelTimestamp :: "64 word"
  WallClock :: time
  evCapability :: kind
  evDomain :: domain
  evSyscall :: string
  evResult :: op_result
  evProcess :: process
  evFile :: "file_payload option"
  evNetwork :: "network_payload option"
  evExec :: "exec_payload option"
  evPrivil :: "priv_payload option"
  evObservation :: observation
  evDropped :: "64 word"

text \<open>Zero values.\<close>

definition zero_observation :: observation where
  "zero_observation = \<lparr>obsKind = KindOther [], obsDomain = DomainOther [], obsTarget = [],
     obsAttributes = Map.empty\<rparr>"

definition zero_process :: process where
  "zero_process = \<lparr>PID = 0, TID = 0, PPID = 0, UID = 0, GID = 0, Comm = [], Executable = [],
     CgroupID = 0, StartTime = 0, AncestryDepth = 0\<rparr>"

definition zero_file :: file_payload where
  "zero_file = \<lparr>fpPath = [], ResolvedPath = [], Flags = 0, fpMode = 0, Inode = 0, Device = 0,
     NewPath = [], BytesTransferred = 0, fpTruncated = False, KernelPath = False, PathLate = False,
     fpDir = [], DirSource = [], DirStatus = []\<rparr>"

definition zero_network :: network_payload where
  "zero_network = \<lparr>npProtocol = [], SourceAddr = [], SourcePort = 0, DestAddr = [], DestPort = 0,
     AddressFamily = [], SocketType = [], Hostname = [], BytesSent = 0, BytesReceived = 0\<rparr>"

definition zero_event :: event where
  "zero_event = \<lparr>evID = [], evSessionID = [], evSequence = 0, KernelTimestamp = 0, WallClock = 0,
     evCapability = KindOther [], evDomain = DomainOther [], evSyscall = [],
     evResult = \<lparr>ReturnCode = 0, Errno = [], Succeeded = False, OutcomeUnobserved = False\<rparr>,
     evProcess = zero_process, evFile = None, evNetwork = None, evExec = None, evPrivil = None,
     evObservation = zero_observation, evDropped = 0\<rparr>"

section \<open>The capabilities of an open\<close>

definition openAccMode :: "32 word" where "openAccMode = 3"
definition openRdOnly :: "32 word" where "openRdOnly = 0"
definition openWrOnly :: "32 word" where "openWrOnly = 1"
definition openRdWr :: "32 word" where "openRdWr = 2"
definition openCreat :: "32 word" where "openCreat = 0x40"

definition ExercisedKinds :: "file_payload option \<Rightarrow> kind list" where
  "ExercisedKinds p =
     (case p of
        None \<Rightarrow> []
      | Some p \<Rightarrow>
          (let flags = Flags p;
               acc = flags AND openAccMode;
               out = (if acc = openRdOnly \<or> acc = openRdWr then [KindFileRead] else []);
               out = out @ (if acc = openWrOnly \<or> acc = openRdWr then [KindFileWrite] else []);
               out = out @
                 (if flags AND openCreat \<noteq> 0 then
                    KindFileCreate #
                    (if acc \<noteq> openWrOnly \<and> acc \<noteq> openRdWr then [KindFileWrite] else [])
                  else [])
           in if out = [] then [KindFileWrite] else out))"

lemmas open_flag_defs = openAccMode_def openRdOnly_def openWrOnly_def openRdWr_def openCreat_def

lemma ExercisedKinds_cases:
  "ExercisedKinds (Some p) =
     (if Flags p AND 3 = 0 then KindFileRead # (if Flags p AND 0x40 \<noteq> 0 then [KindFileCreate, KindFileWrite] else [])
      else if Flags p AND 3 = 1 then KindFileWrite # (if Flags p AND 0x40 \<noteq> 0 then [KindFileCreate] else [])
      else if Flags p AND 3 = 2 then
        [KindFileRead, KindFileWrite] @ (if Flags p AND 0x40 \<noteq> 0 then [KindFileCreate] else [])
      else if Flags p AND 0x40 \<noteq> 0 then [KindFileCreate, KindFileWrite] else [KindFileWrite])"
  by (simp add: ExercisedKinds_def Let_def open_flag_defs)

lemma ExercisedKinds_distinct: "distinct (ExercisedKinds p)"
  by (cases p) (simp_all add: ExercisedKinds_cases, simp add: ExercisedKinds_def)

lemma ExercisedKinds_nonempty: "ExercisedKinds (Some p) \<noteq> []"
  by (simp add: ExercisedKinds_cases)

lemma ExercisedKinds_subset: "set (ExercisedKinds p) \<subseteq> {KindFileRead, KindFileWrite, KindFileCreate}"
  by (cases p) (auto simp: ExercisedKinds_cases, simp add: ExercisedKinds_def)

lemma ExercisedKinds_create: "KindFileCreate \<in> set (ExercisedKinds (Some p)) \<longleftrightarrow> Flags p AND 0x40 \<noteq> 0"
  by (auto simp: ExercisedKinds_cases)

lemma ExercisedKinds_read:
  "KindFileRead \<in> set (ExercisedKinds (Some p)) \<longleftrightarrow> Flags p AND 3 \<in> {0, 2}"
  by (auto simp: ExercisedKinds_cases)

lemma ExercisedKinds_write:
  "KindFileWrite \<in> set (ExercisedKinds (Some p)) \<longleftrightarrow> Flags p AND 3 \<noteq> 0 \<or> Flags p AND 0x40 \<noteq> 0"
  by (auto simp: ExercisedKinds_cases)

end
