(* ===== verification/Resolve.thy ===== *)
theory Resolve
  imports Event Matcher
begin

text \<open>
  From an event to the observation the validator matches (\<open>internal/telemetry/resolve/resolve.go\<close>
  and \<open>internal/validator/event.go\<close>): which resource the event acted on, in the form selector
  matching expects, and what is said when that cannot be told.
\<close>

section \<open>Errors\<close>

definition ErrUnknownCapability :: msg where
  "ErrUnknownCapability = Fmt ''capability is not in this build's catalog'' []"

definition ErrMissingPayload :: msg where
  "ErrMissingPayload = Fmt ''event is missing the payload its capability requires'' []"

definition ErrNilEvent :: msg where
  "ErrNilEvent = Fmt ''event is nil'' []"

text \<open>An attribute map is built by adding the keys whose values are present.\<close>

definition set_if :: "bool \<Rightarrow> string \<Rightarrow> string \<Rightarrow> (string \<rightharpoonup> string) \<Rightarrow> (string \<rightharpoonup> string)" where
  "set_if b k v m = (if b then m(k \<mapsto> v) else m)"

section \<open>Observing\<close>

definition observeFile :: "event \<Rightarrow> observation \<Rightarrow> msg + observation" where
  "observeFile e obs =
     (case evFile e of
        None \<Rightarrow>
          Inl (Fmt ''%w: %s has no file payload''
            [AMsg ErrMissingPayload, AStr (kind_string (evCapability e))])
      | Some f \<Rightarrow>
          (let obs = obs\<lparr>obsTarget := ResolvedPath f\<rparr> in
           if NewPath f \<noteq> [] then Inr (obs\<lparr>obsAttributes := [AttrNewPath \<mapsto> NewPath f]\<rparr>)
           else Inr obs))"

definition observeNetwork :: "event \<Rightarrow> observation \<Rightarrow> msg + observation" where
  "observeNetwork e obs =
     (case evNetwork e of
        None \<Rightarrow>
          Inl (Fmt ''%w: %s has no network payload''
            [AMsg ErrMissingPayload, AStr (kind_string (evCapability e))])
      | Some n \<Rightarrow>
          (let host = (if Hostname n = [] then DestAddr n else Hostname n);
               target =
                 (if evCapability e = KindNetDNS then host
                  else if host \<noteq> [] \<and> DestPort n > 0 then JoinHostPort host (itoa (DestPort n))
                  else host);
               attrs = set_if (npProtocol n \<noteq> []) AttrProtocol (npProtocol n) Map.empty;
               attrs = set_if (DestAddr n \<noteq> []) AttrDestIP (DestAddr n) attrs;
               attrs = set_if (DestPort n > 0) AttrPort (itoa (DestPort n)) attrs;
               attrs = set_if (Hostname n = []) AttrHostnameCorrelated ''false'' attrs
           in Inr (obs\<lparr>obsTarget := target, obsAttributes := attrs\<rparr>)))"

definition observeProcess :: "event \<Rightarrow> observation \<Rightarrow> msg + observation" where
  "observeProcess e obs =
     (if evCapability e = KindProcessExec then
        (case evExec e of
           None \<Rightarrow>
             Inl (Fmt ''%w: %s has no exec payload''
               [AMsg ErrMissingPayload, AStr (kind_string (evCapability e))])
         | Some x \<Rightarrow>
             (let target = (if epTruncated x then [] else Filename x);
                  attrs = set_if (Argv x \<noteq> []) AttrArgv (join_byte CHR '' '' (Argv x)) Map.empty;
                  attrs = set_if (Interpreter x \<noteq> []) AttrInterpreter (Interpreter x) attrs
              in Inr (obs\<lparr>obsTarget := target, obsAttributes := attrs\<rparr>)))
      else Inr (obs\<lparr>obsTarget := Executable (evProcess e)\<rparr>))"

definition observeOther :: "event \<Rightarrow> observation \<Rightarrow> msg + observation" where
  "observeOther e obs =
     (case evFile e of
        Some f \<Rightarrow> Inr (obs\<lparr>obsTarget := ResolvedPath f\<rparr>)
      | None \<Rightarrow> Inr obs)"

definition Observe :: "event option \<Rightarrow> msg + observation" where
  "Observe e =
     (case e of
        None \<Rightarrow> Inl ErrNilEvent
      | Some e \<Rightarrow>
          (case DomainOf (evCapability e) of
             None \<Rightarrow>
               Inl (Fmt ''%w: %q'' [AMsg ErrUnknownCapability, AStr (kind_string (evCapability e))])
           | Some domain \<Rightarrow>
               (let obs = zero_observation\<lparr>obsKind := evCapability e, obsDomain := domain\<rparr> in
                case domain of
                  DomainFilesystem \<Rightarrow> observeFile e obs
                | DomainNetwork \<Rightarrow> observeNetwork e obs
                | DomainProcess \<Rightarrow> observeProcess e obs
                | _ \<Rightarrow> observeOther e obs)))"

definition ObservationOf :: "event option \<Rightarrow> msg + observation" where
  "ObservationOf e =
     (case e of
        Some ev \<Rightarrow>
          if kind_string (obsKind (evObservation ev)) \<noteq> [] then Inr (evObservation ev) else Observe e
      | None \<Rightarrow> Observe e)"

definition MatchEvent :: "selector_matcher \<Rightarrow> grant \<Rightarrow> event option \<Rightarrow> match_result" where
  "MatchEvent m g e =
     (case ObservationOf e of
        Inl err \<Rightarrow> unevaluable ''event cannot be resolved to an observation: %v'' [AMsg err]
      | Inr obs \<Rightarrow> Match m g obs)"

section \<open>What every observation says\<close>

lemmas observe_defs = observeFile_def observeNetwork_def observeProcess_def observeOther_def

lemma Observe_kind:
  assumes "Observe (Some e) = Inr obs"
  shows "obsKind obs = evCapability e" "DomainOf (evCapability e) = Some (obsDomain obs)"
  using assms
  by (auto simp: Observe_def observe_defs Let_def split: option.splits domain.splits if_splits)

lemma Observe_total:
  "(\<exists>obs. Observe (Some e) = Inr obs) \<longleftrightarrow>
     Known (evCapability e) \<and>
     (DomainOf (evCapability e) = Some DomainFilesystem \<longrightarrow> evFile e \<noteq> None) \<and>
     (DomainOf (evCapability e) = Some DomainNetwork \<longrightarrow> evNetwork e \<noteq> None) \<and>
     (evCapability e = KindProcessExec \<longrightarrow> evExec e \<noteq> None)"
proof (cases "DomainOf (evCapability e)")
  case None
  then show ?thesis using DomainOf_None[of "evCapability e"] by (auto simp: Observe_def)
next
  case (Some d)
  then have "Known (evCapability e)" using DomainOf_None[of "evCapability e"] by auto
  moreover have "evCapability e = KindProcessExec \<Longrightarrow> d = DomainProcess"
    using Some by (simp add: DomainOf_rows)
  ultimately show ?thesis
    using Some
    by (cases d) (auto simp: Observe_def observe_defs Let_def split: option.splits)
qed

lemma Observe_file_target:
  assumes "DomainOf (evCapability e) = Some DomainFilesystem" and "Observe (Some e) = Inr obs"
  shows "\<exists>f. evFile e = Some f \<and> obsTarget obs = ResolvedPath f"
  using assms by (auto simp: Observe_def observeFile_def Let_def split: option.splits if_splits)

lemma attr_AttrDestIP_network:
  assumes "DomainOf (evCapability e) = Some DomainNetwork" and "evNetwork e = Some n"
    and "Observe (Some e) = Inr obs"
  shows "attr obs AttrDestIP = DestAddr n" "attr obs AttrProtocol = npProtocol n"
  using assms
  by (auto simp: Observe_def observeNetwork_def Let_def set_if_def attr_def attr_key_defs)

text \<open>The address and port of a network target survive the trip through the one string.\<close>

lemma splitTarget_JoinHostPort:
  assumes "CHR ''['' \<notin> set host" and "CHR '']'' \<notin> set host" and "port > 0"
    and "port < 2 ^ 63"
  shows "splitTarget (JoinHostPort host (itoa port)) = (host, port, True, True)"
proof -
  have digits: "itoa port \<noteq> [] \<and> (\<forall>c\<in>set (itoa port). is_digit c)"
    using assms(3) itoa_nonempty[of port] itoa_digits[of port] by auto
  have "CHR '':'' \<notin> set (itoa port)" "CHR ''['' \<notin> set (itoa port)" "CHR '']'' \<notin> set (itoa port)"
    using digits by (auto simp: is_digit_def less_eq_char_def)
  then have "SplitHostPort (JoinHostPort host (itoa port)) = Some (host, itoa port)"
    using SplitHostPort_JoinHostPort assms by blast
  moreover have "JoinHostPort host (itoa port) \<noteq> []"
    by (simp add: JoinHostPort_def)
  ultimately show ?thesis
    using digits atoi_itoa[of port] assms(3,4) by (simp add: splitTarget_def)
qed

lemma ObservationOf_raw:
  "kind_string (obsKind (evObservation e)) = [] \<Longrightarrow> ObservationOf (Some e) = Observe (Some e)"
  by (simp add: ObservationOf_def)

section \<open>Properties\<close>

text \<open>a file event is judged by its resolved path only. When an event without a ready-made
  observation is covered by a grant that constrains paths, one of the grant's patterns matches the
  path the enricher resolved; the path as the program passed it is never consulted.\<close>

theorem file_events_match_by_resolved_path:
  assumes "kind_string (obsKind (evObservation e)) = []"
    and "DomainOf (evCapability e) = Some DomainFilesystem"
    and "PathPatterns (grantSelector g) \<noteq> []"
    and "mrMatched (MatchEvent (NewMatcher ufold) g (Some e))"
  shows "\<exists>f p. evFile e = Some f \<and> p \<in> set (PathPatterns (grantSelector g)) \<and>
    MatchPath p (ResolvedPath f)"
proof -
  obtain obs where obs: "Observe (Some e) = Inr obs" and
    match: "grant_coverage (NewMatcher ufold) g obs = Covered"
    using assms(1,4) Match_outcome
    by (auto simp: MatchEvent_def ObservationOf_raw mrMatched_outcome split: sum.splits)
  then have "grantKind g = evCapability e"
    using Observe_kind by (auto simp: grant_coverage_def split: if_splits)
  then have "path_coverage (NewMatcher ufold) (PathPatterns (grantSelector g)) (obsTarget obs) = Covered"
    using match assms(2) by (auto simp: grant_coverage_def split: if_splits)
  then show ?thesis
    using new_matcher.covered_path_resolved assms(3) Observe_file_target[OF assms(2) obs] by fastforce
qed

theorem file_events_match_by_resolved_path_witness:
  "\<exists>f p. evFile (zero_event\<lparr>evCapability := KindFileRead,
              evFile := Some (zero_file\<lparr>ResolvedPath := ''/src/main.c''\<rparr>)\<rparr>) = Some f \<and>
     p \<in> set [''/src/*''] \<and> MatchPath p (ResolvedPath f)"
proof -
  let ?e = "zero_event\<lparr>evCapability := KindFileRead,
              evFile := Some (zero_file\<lparr>ResolvedPath := ''/src/main.c''\<rparr>)\<rparr>"
  let ?g = "\<lparr>grantKind = KindFileRead, grantDomain = DomainFilesystem,
            grantSelector = empty_selector\<lparr>PathPatterns := [''/src/*'']\<rparr>,
            grantRationale = [], grantOptional = False\<rparr>"
  have kind: "kind_string (obsKind (evObservation ?e)) = []"
    by (simp add: zero_event_def zero_observation_def)
  have dom: "DomainOf (evCapability ?e) = Some DomainFilesystem"
    by (simp add: zero_event_def DomainOf_rows)
  have path: "MatchPath ''/src/*'' ''/src/main.c''" "IsResolved ''/src/main.c''" by code_simp+
  have "mrMatched (MatchEvent (NewMatcher (=)) ?g (Some ?e))"
    using path
    by (simp add: MatchEvent_def ObservationOf_raw kind Observe_def zero_event_def zero_file_def
        zero_observation_def observeFile_def DomainOf_rows mrMatched_outcome Match_outcome
        grant_coverage_def path_coverage_def)
  then show ?thesis
    using file_events_match_by_resolved_path[OF kind dom, of ?g "(=)"] by simp
qed

text \<open>The destination of a network event survives being written into the one string of a
  target. For every kind but a DNS query, a host without brackets and a positive port, splitting
  the target of the observation gives back that host (the correlated name, or the address when
  there is none) and that port, and the address is carried beside it.\<close>

theorem network_target_roundtrip:
  assumes "DomainOf (evCapability e) = Some DomainNetwork" and "evNetwork e = Some n"
    and "evCapability e \<noteq> KindNetDNS" and "Observe (Some e) = Inr obs"
    and "host = (if Hostname n = [] then DestAddr n else Hostname n)" and "host \<noteq> []"
    and "CHR ''['' \<notin> set host" and "CHR '']'' \<notin> set host"
    and "0 < DestPort n" and "DestPort n < 2 ^ 63"
  shows "splitTarget (obsTarget obs) = (host, DestPort n, True, True) \<and>
    attr obs AttrDestIP = DestAddr n \<and> attr obs AttrProtocol = npProtocol n"
proof -
  have "obsTarget obs = JoinHostPort host (itoa (DestPort n))"
    using assms by (auto simp: Observe_def observeNetwork_def Let_def)
  then show ?thesis
    using splitTarget_JoinHostPort[of host "DestPort n"] attr_AttrDestIP_network assms by auto
qed

theorem network_target_roundtrip_witness:
  "splitTarget ''[2001:db8::1]:443'' = (''2001:db8::1'', 443, True, True)"
proof -
  let ?n = "zero_network\<lparr>npProtocol := ''tcp'', DestAddr := ''2001:db8::1'', DestPort := 443\<rparr>"
  let ?e = "zero_event\<lparr>evCapability := KindNetConnect, evNetwork := Some ?n\<rparr>"
  have port: "itoa 443 = ''443''" by code_simp
  obtain obs where obs: "Observe (Some ?e) = Inr obs" "obsTarget obs = ''[2001:db8::1]:443''"
    by (simp add: Observe_def observeNetwork_def zero_event_def zero_network_def DomainOf_rows Let_def
        JoinHostPort_def port)
  have "splitTarget (obsTarget obs) = (''2001:db8::1'', DestPort ?n, True, True) \<and>
      attr obs AttrDestIP = DestAddr ?n \<and> attr obs AttrProtocol = npProtocol ?n"
    by (rule network_target_roundtrip[where e = ?e])
      (use obs in \<open>simp_all add: zero_event_def zero_network_def DomainOf_rows\<close>)
  then show ?thesis using obs(2) by simp
qed

text \<open>An event becomes an observation exactly when its capability is in the catalog and it
  carries the payload its domain needs: a file payload for the filesystem, a network payload for
  the network, an exec payload for an exec. Every other event is an error, never an observation of
  something else.\<close>

theorem observation_needs_its_payload:
  "(\<exists>obs. Observe (Some e) = Inr obs \<and> obsKind obs = evCapability e \<and>
      DomainOf (evCapability e) = Some (obsDomain obs)) \<longleftrightarrow>
   Known (evCapability e) \<and>
   (case DomainOf (evCapability e) of
      Some DomainFilesystem \<Rightarrow> evFile e \<noteq> None
    | Some DomainNetwork \<Rightarrow> evNetwork e \<noteq> None
    | _ \<Rightarrow> \<not> (evCapability e = KindProcessExec \<and> evExec e = None))"
proof -
  have "DomainOf KindProcessExec = Some DomainProcess" by (simp add: DomainOf_rows)
  moreover have "(\<exists>obs. Observe (Some e) = Inr obs \<and> obsKind obs = evCapability e \<and>
      DomainOf (evCapability e) = Some (obsDomain obs)) \<longleftrightarrow> (\<exists>obs. Observe (Some e) = Inr obs)"
    using Observe_kind by blast
  ultimately show ?thesis
    unfolding Observe_total by (auto split: option.splits domain.splits)
qed

end
