(* ===== verification/Validate.thy ===== *)
theory Validate
  imports Resolve Precedence Ece
begin

text \<open>
  Validation of one event against the envelope (\<open>internal/validator/validate.go\<close> and the types
  of \<open>validator.go\<close>): expiry, resolution, denials, grants, budgets, session constraints and the
  workspace, in the order the code checks them.
\<close>

section \<open>Verdicts\<close>

text \<open>From \<open>pkg/decision/decision.go\<close>.\<close>

datatype verdict =
    VerdictWithinEnvelope | VerdictOutsideEnvelope | VerdictExplicitlyDenied
  | VerdictConstraintViolation | VerdictGrantExceeded | VerdictIndeterminate
  | VerdictOther string

primrec verdict_string :: "verdict \<Rightarrow> string" where
  "verdict_string VerdictWithinEnvelope = ''within_envelope''"
| "verdict_string VerdictOutsideEnvelope = ''outside_envelope''"
| "verdict_string VerdictExplicitlyDenied = ''explicitly_denied''"
| "verdict_string VerdictConstraintViolation = ''constraint_violation''"
| "verdict_string VerdictGrantExceeded = ''grant_exceeded''"
| "verdict_string VerdictIndeterminate = ''indeterminate''"
| "verdict_string (VerdictOther s) = s"

definition AllVerdicts :: "verdict list" where
  "AllVerdicts = [VerdictWithinEnvelope, VerdictOutsideEnvelope, VerdictExplicitlyDenied,
     VerdictConstraintViolation, VerdictGrantExceeded, VerdictIndeterminate]"

definition ValidVerdict :: "verdict \<Rightarrow> bool" where
  "ValidVerdict v = list_ex (\<lambda>known. known = v) AllVerdicts"

record reasoning_step =
  rsStage :: string
  rsConclusion :: msg
  rsDetail :: msg

section \<open>Violations\<close>

datatype violation_type =
    ViolationUngrantedCapability | ViolationSelectorMismatch | ViolationExplicitDenial
  | ViolationCountExceeded | ViolationConstraintExceeded | ViolationEnvelopeExpired
  | ViolationWorkspaceEscape | ViolationUnresolvable | ViolationOther string

definition AllViolationTypes :: "violation_type list" where
  "AllViolationTypes = [ViolationUngrantedCapability, ViolationSelectorMismatch,
     ViolationExplicitDenial, ViolationCountExceeded, ViolationConstraintExceeded,
     ViolationEnvelopeExpired, ViolationWorkspaceEscape, ViolationUnresolvable]"

definition ValidViolationType :: "violation_type \<Rightarrow> bool" where
  "ValidViolationType vt = list_ex (\<lambda>known. known = vt) AllViolationTypes"

record violation =
  vType :: violation_type
  vCapability :: kind
  vExpected :: msg
  vObserved :: msg
  vDetail :: msg
  vSeverity :: severity

definition severityFloor :: "violation_type \<rightharpoonup> severity" where
  "severityFloor =
     [ViolationExplicitDenial \<mapsto> SeverityHigh,
      ViolationWorkspaceEscape \<mapsto> SeverityHigh,
      ViolationEnvelopeExpired \<mapsto> SeverityHigh,
      ViolationUnresolvable \<mapsto> SeverityMedium,
      ViolationUngrantedCapability \<mapsto> SeverityMedium,
      ViolationSelectorMismatch \<mapsto> SeverityMedium,
      ViolationCountExceeded \<mapsto> SeverityMedium,
      ViolationConstraintExceeded \<mapsto> SeverityMedium]"

text \<open>A severity missing from the map ranks 0, as a Go map read gives.\<close>

primrec severityRank :: "severity \<Rightarrow> int" where
  "severityRank SeverityInfo = 0"
| "severityRank SeverityLow = 1"
| "severityRank SeverityMedium = 2"
| "severityRank SeverityHigh = 3"
| "severityRank SeverityCritical = 4"
| "severityRank (SeverityOther s) = 0"

definition severityFor :: "violation_type \<Rightarrow> kind \<Rightarrow> severity" where
  "severityFor vt k =
     (let floor = (case severityFloor vt of None \<Rightarrow> SeverityMedium | Some f \<Rightarrow> f) in
      case Describe k of
        None \<Rightarrow> floor
      | Some desc \<Rightarrow>
          (if severityRank (descBaselineSeverity desc) \<le> severityRank floor then floor
           else descBaselineSeverity desc))"

section \<open>Session state and results\<close>

text \<open>
  The history a validation consults, the \<open>SessionState\<close> interface: \<open>ElapsedSeconds\<close> is a
  \<open>float64\<close> in the source, a rational here.
\<close>

record session_state =
  GrantUseCount :: "int \<Rightarrow> int"
  FileWriteCount :: int
  NetworkBytesSent :: int
  ProcessCount :: int
  ElapsedSeconds :: rat
  SeenTargets :: "kind \<Rightarrow> string \<Rightarrow> bool"

record validation =
  vrVerdict :: verdict
  vrMatchedGrant :: "grant option"
  vrMatchedDenial :: "grant option"
  vrMatchedGrantIndex :: int
  vrViolations :: "violation list"
  vrReasoning :: "reasoning_step list"

definition empty_result :: validation where
  "empty_result = \<lparr>vrVerdict = VerdictOther [], vrMatchedGrant = None, vrMatchedDenial = None,
     vrMatchedGrantIndex = 0, vrViolations = [], vrReasoning = []\<rparr>"

record default_validator =
  dvMatcher :: selector_matcher
  dvNow :: time

definition ErrNoEnvelope :: msg where "ErrNoEnvelope = Fmt ''validate: envelope is required'' []"
definition ErrNoEvent :: msg where "ErrNoEvent = Fmt ''validate: event is required'' []"
definition ErrNoState :: msg where "ErrNoState = Fmt ''validate: session state is required'' []"

section \<open>Messages\<close>

definition step :: "msg \<Rightarrow> string \<Rightarrow> arg list \<Rightarrow> reasoning_step" where
  "step conclusion f args =
     \<lparr>rsStage = ''validator'', rsConclusion = conclusion, rsDetail = Fmt f args\<rparr>"

abbreviation lit :: "string \<Rightarrow> msg" where "lit s \<equiv> Fmt s []"

text \<open>\<open>t.UTC().Format(time.RFC3339)\<close>, \<open>d.String()\<close> and \<open>d.Round(time.Second).String()\<close>.\<close>

definition rfc3339 :: "time \<Rightarrow> arg" where "rfc3339 t = AMsg (Fmt ''RFC3339'' [AInt t])"
definition duration_string :: "duration \<Rightarrow> msg" where
  "duration_string d = Fmt ''Duration.String'' [AInt d]"
definition rounded_string :: "duration \<Rightarrow> msg" where
  "rounded_string d = Fmt ''Duration.Round(Second).String'' [AInt d]"

definition describeTarget :: "observation \<Rightarrow> msg" where
  "describeTarget obs =
     (if obsTarget obs = [] then Fmt ''%s with no resolved target'' [AStr (kind_string (obsKind obs))]
      else Fmt ''%s'' [AStr (obsTarget obs)])"

definition unresolvableDetail :: "observation \<Rightarrow> msg \<Rightarrow> msg" where
  "unresolvableDetail obs reason =
     (if attr obs AttrHostnameCorrelated = ''false'' then
        Fmt ''DNS correlation failed, so the destination is known only by address: %s'' [AMsg reason]
      else reason)"

definition describe_selector :: "selector \<Rightarrow> msg" where
  "describe_selector sel =
     (if PathPatterns sel \<noteq> [] then Fmt ''%v'' [AStrs (PathPatterns sel)]
      else if Hosts sel \<noteq> [] then Fmt ''%v'' [AStrs (Hosts sel)]
      else if Executables sel \<noteq> [] then Fmt ''%v'' [AStrs (Executables sel)]
      else lit ''(unconstrained)'')"

definition describeSelectors :: "grant list \<Rightarrow> kind \<Rightarrow> msg" where
  "describeSelectors grants k =
     (let parts = map (\<lambda>g. describe_selector (grantSelector g)) (filter (\<lambda>g. grantKind g = k) grants)
      in if parts = [] then lit ''no grant for this capability''
         else Fmt ''%s within %v'' [AStr (kind_string k), AMsg (Fmt ''list'' (map AMsg parts))])"

definition grantsFor :: "grant list \<Rightarrow> kind \<Rightarrow> nat" where
  "grantsFor grants k = length (filter (\<lambda>g. grantKind g = k) grants)"

definition indeterminate :: "validation \<Rightarrow> violation \<Rightarrow> msg \<Rightarrow> msg \<Rightarrow> validation" where
  "indeterminate res v conclusion detail =
     res\<lparr>vrVerdict := VerdictIndeterminate, vrViolations := vrViolations res @ [v],
         vrReasoning := vrReasoning res @ [step conclusion ''%s'' [AMsg detail]]\<rparr>"

section \<open>Evaluating entries\<close>

fun evaluate_loop ::
  "default_validator \<Rightarrow> observation \<Rightarrow> int \<Rightarrow> grant list \<Rightarrow> match_entry list \<Rightarrow>
     match_result option \<Rightarrow> match_entry list \<times> match_result option" where
  "evaluate_loop v obs i [] matches unev = (matches, unev)"
| "evaluate_loop v obs i (g # gs) matches unev =
     (if grantKind g \<noteq> obsKind obs then evaluate_loop v obs (i + 1) gs matches unev
      else
        (let r = Match (dvMatcher v) g obs in
         if mrMatched r then
           evaluate_loop v obs (i + 1) gs (matches @ [\<lparr>meIndex = i, meGrant = g\<rparr>]) unev
         else if mrUnevaluable r \<and> unev = None then
           evaluate_loop v obs (i + 1) gs matches (Some r)
         else evaluate_loop v obs (i + 1) gs matches unev))"

definition evaluate ::
  "default_validator \<Rightarrow> grant list \<Rightarrow> observation \<Rightarrow> match_entry list \<times> match_result option" where
  "evaluate v entries obs = evaluate_loop v obs 0 entries [] None"

definition exercisedObservations :: "event option \<Rightarrow> observation \<Rightarrow> observation list" where
  "exercisedObservations e obs =
     (case e of
        None \<Rightarrow> []
      | Some ev \<Rightarrow>
          (case evFile ev of
             None \<Rightarrow> []
           | Some f \<Rightarrow>
               (let kinds =
                  (if evCapability ev = KindFileLink
                   then [KindFileLink, KindFileRead, KindFileWrite]
                   else ExercisedKinds (Some f))
                in
                if length kinds < 2 then []
                else map (\<lambda>k. obs\<lparr>obsKind := k\<rparr>) (filter (\<lambda>k. k \<noteq> obsKind obs) kinds))))"

fun denial_loop ::
  "default_validator \<Rightarrow> grant list \<Rightarrow> observation \<Rightarrow> match_entry list \<Rightarrow> match_result option \<Rightarrow>
     observation list \<Rightarrow> match_entry list \<times> match_result option \<times> kind" where
  "denial_loop v denials obs matches unev [] = (matches, unev, obsKind obs)"
| "denial_loop v denials obs matches unev (alt # alts) =
     (let (m, u) = evaluate v denials alt in
      if m \<noteq> [] then (m, unev, obsKind alt)
      else
        denial_loop v denials obs matches (if unev = None then u else unev) alts)"

definition evaluateDenials ::
  "default_validator \<Rightarrow> grant list \<Rightarrow> event option \<Rightarrow> observation \<Rightarrow>
     match_entry list \<times> match_result option \<times> kind" where
  "evaluateDenials v denials e obs =
     (let (matches, unev) = evaluate v denials obs in
      if matches \<noteq> [] then (matches, unev, obsKind obs)
      else denial_loop v denials obs matches unev (exercisedObservations e obs))"

section \<open>Expiry, workspace and budgets\<close>

definition expired :: "default_validator \<Rightarrow> envelope \<Rightarrow> time \<Rightarrow> bool \<times> time" where
  "expired v env eventTime =
     (if envExpiresAt env = 0 then (False, 0)
      else (let instant = (if eventTime = 0 then dvNow v else eventTime) in (instant > envExpiresAt env, instant)))"

definition workspaceEscape :: "default_validator \<Rightarrow> envelope \<Rightarrow> observation \<Rightarrow> violation option" where
  "workspaceEscape v env obs =
     (let rootp = WorkspaceRoot (Constraints env) in
      if rootp = [] \<or> obsDomain obs \<noteq> DomainFilesystem then None
      else if \<not> IsResolved (obsTarget obs) then None
      else if smWithinRoot (dvMatcher v) rootp (obsTarget obs) then None
      else
        Some \<lparr>vType = ViolationWorkspaceEscape, vCapability = obsKind obs,
          vExpected = Fmt ''filesystem access within %q'' [AStr rootp],
          vObserved = Fmt ''%s'' [AStr (obsTarget obs)],
          vDetail = lit ''the operation left the workspace root, which is categorically different from touching the wrong file inside it'',
          vSeverity = severityFor ViolationWorkspaceEscape (obsKind obs)\<rparr>)"

definition ModifiesFilesystem :: "kind \<Rightarrow> bool" where
  "ModifiesFilesystem k =
     (k = KindFileWrite \<or> k = KindFileCreate \<or> k = KindFileDelete \<or> k = KindFileRename \<or>
      k = KindFileTruncate \<or> k = KindFileLink)"

definition SpawnsProcess :: "kind \<Rightarrow> bool" where
  "SpawnsProcess k = (k = KindProcessExec \<or> k = KindProcessFork)"

definition constraintViolation :: "string \<Rightarrow> msg \<Rightarrow> msg \<Rightarrow> violation" where
  "constraintViolation what expected observed =
     \<lparr>vType = ViolationConstraintExceeded, vCapability = KindOther [],
      vExpected = Fmt ''%s at most %s'' [AStr what, AMsg expected],
      vObserved = Fmt ''%s of %s'' [AStr what, AMsg observed],
      vDetail = lit ''individually granted operations exceeded a session-wide budget'',
      vSeverity = (case severityFloor ViolationConstraintExceeded of
        None \<Rightarrow> SeverityOther [] | Some f \<Rightarrow> f)\<rparr>"

definition sessionViolation :: "kind \<Rightarrow> string \<Rightarrow> msg \<Rightarrow> msg \<Rightarrow> violation" where
  "sessionViolation k what expected observed =
     (constraintViolation what expected observed)
       \<lparr>vCapability := k, vSeverity := severityFor ViolationConstraintExceeded k\<rparr>"

text \<open>\<open>time.Duration(s * float64(time.Second))\<close>: truncation towards zero.\<close>

definition seconds_duration :: "rat \<Rightarrow> duration" where
  "seconds_duration s = (if s < 0 then \<lceil>s * 1000000000\<rceil> else \<lfloor>s * 1000000000\<rfloor>)"

definition sprint :: "int \<Rightarrow> msg" where "sprint n = Fmt ''%d'' [AInt n]"

definition sessionConstraint ::
  "envelope \<Rightarrow> observation \<Rightarrow> session_state option \<Rightarrow> violation option" where
  "sessionConstraint env obs st =
     (case st of
        None \<Rightarrow> None
      | Some st \<Rightarrow>
          (let c = Constraints env; elapsed = seconds_duration (ElapsedSeconds st) in
           if MaxDuration c > 0 \<and> elapsed > MaxDuration c then
             Some (sessionViolation (obsKind obs) ''session duration''
               (duration_string (MaxDuration c)) (rounded_string elapsed))
           else if MaxProcesses c > 0 \<and> SpawnsProcess (obsKind obs)
               \<and> ProcessCount st \<ge> MaxProcesses c then
             Some (sessionViolation (obsKind obs) ''process count''
               (sprint (MaxProcesses c)) (sprint (ProcessCount st)))
           else if MaxFileWrites c > 0 \<and> ModifiesFilesystem (obsKind obs)
               \<and> FileWriteCount st \<ge> MaxFileWrites c then
             Some (sessionViolation (obsKind obs) ''file writes''
               (sprint (MaxFileWrites c)) (sprint (FileWriteCount st)))
           else if MaxNetworkBytes c > 0 \<and> obsDomain obs = DomainNetwork
               \<and> NetworkBytesSent st \<ge> MaxNetworkBytes c then
             Some (sessionViolation (obsKind obs) ''network bytes sent''
               (sprint (MaxNetworkBytes c)) (sprint (NetworkBytesSent st)))
           else None))"

definition budgetExhausted :: "match_entry \<Rightarrow> session_state option \<Rightarrow> bool \<times> int \<times> int" where
  "budgetExhausted winner st =
     (let limit = MaxCount (grantSelector (meGrant winner)) in
      if limit \<le> 0 then (False, 0, 0)
      else
        (case st of
           None \<Rightarrow> (False, 0, limit)
         | Some st \<Rightarrow> (let used = GrantUseCount st (meIndex winner) in (used \<ge> limit, used, limit))))"

section \<open>Validate\<close>

text \<open>The seven steps of \<open>Validate\<close>; each step either returns or hands over to the next.\<close>

definition expired_result :: "envelope \<Rightarrow> event \<Rightarrow> time \<Rightarrow> validation" where
  "expired_result env ev instant =
     empty_result\<lparr>vrVerdict := VerdictOutsideEnvelope,
       vrViolations :=
         [\<lparr>vType = ViolationEnvelopeExpired, vCapability = evCapability ev,
           vExpected = Fmt ''envelope valid until %s'' [rfc3339 (envExpiresAt env)],
           vObserved = Fmt ''event at %s'' [rfc3339 instant],
           vDetail = lit ''an expired envelope authorizes nothing; every operation under it is outside the envelope'',
           vSeverity = severityFor ViolationEnvelopeExpired (evCapability ev)\<rparr>],
       vrReasoning :=
         [step (lit ''envelope expired'') ''expired at %s, event at %s''
            [rfc3339 (envExpiresAt env), rfc3339 instant]]\<rparr>"

definition unresolved_result :: "event \<Rightarrow> msg \<Rightarrow> validation" where
  "unresolved_result ev err =
     indeterminate empty_result
       \<lparr>vType = ViolationUnresolvable, vCapability = evCapability ev,
        vExpected = lit ''an event resolvable to an observation'', vObserved = err,
        vDetail = lit ''the event could not be interpreted, so no statement about coverage is possible'',
        vSeverity = severityFor ViolationUnresolvable (evCapability ev)\<rparr>
       (lit ''event could not be resolved to an observation'') err"

definition denied_result ::
  "validation \<Rightarrow> observation \<Rightarrow> match_entry list \<Rightarrow> kind \<Rightarrow> validation" where
  "denied_result res obs denials deniedKind =
     (let resolution = ResolvePrecedence [] denials;
          detail =
            (if deniedKind \<noteq> obsKind obs then
               Fmt ''%s; the operation is reported as %s and also exercised %s, which the denial names''
                 [AMsg (rsReason resolution), AStr (kind_string (obsKind obs)),
                  AStr (kind_string deniedKind)]
             else rsReason resolution)
      in res\<lparr>vrVerdict := VerdictExplicitlyDenied,
           vrMatchedDenial := map_option meGrant (rsWinner resolution),
           vrViolations := vrViolations res @
             [\<lparr>vType = ViolationExplicitDenial, vCapability = deniedKind,
               vExpected = lit ''no operation matching an envelope denial'',
               vObserved = describeTarget obs, vDetail = detail,
               vSeverity = severityFor ViolationExplicitDenial deniedKind\<rparr>],
           vrReasoning := vrReasoning res @
             [step (lit ''explicit denial matched'') ''%s'' [AMsg (rsReason resolution)]]\<rparr>)"

definition unevaluable_result ::
  "validation \<Rightarrow> observation \<Rightarrow> string \<Rightarrow> match_result \<Rightarrow> string \<Rightarrow> validation" where
  "unevaluable_result res obs expected u conclusion =
     indeterminate res
       \<lparr>vType = ViolationUnresolvable, vCapability = obsKind obs, vExpected = lit expected,
        vObserved = describeTarget obs, vDetail = unresolvableDetail obs (mrReason u),
        vSeverity = severityFor ViolationUnresolvable (obsKind obs)\<rparr>
       (lit conclusion) (mrReason u)"


definition grant_result ::
  "envelope \<Rightarrow> session_state option \<Rightarrow> validation \<Rightarrow> observation \<Rightarrow> match_entry list \<Rightarrow> validation" where
  "grant_result env st res obs grants =
     (let resolution = ResolvePrecedence grants [];
          winner = the (rsWinner resolution);
          res = res\<lparr>vrMatchedGrant := Some (meGrant winner), vrMatchedGrantIndex := meIndex winner,
            vrReasoning := vrReasoning res @
              [step (lit ''grant matched'') ''%s'' [AMsg (rsReason resolution)]]\<rparr>;
          (exceeded, used, limit) = budgetExhausted winner st
      in
      if exceeded then
        res\<lparr>vrVerdict := VerdictGrantExceeded,
            vrViolations := vrViolations res @
              [\<lparr>vType = ViolationCountExceeded, vCapability = obsKind obs,
                vExpected = Fmt ''at most %d uses of grant %d'' [AInt limit, AInt (meIndex winner)],
                vObserved = Fmt ''%d uses already recorded'' [AInt used],
                vDetail = lit ''the grant covers this operation but its budget is spent'',
                vSeverity = severityFor ViolationCountExceeded (obsKind obs)\<rparr>],
            vrReasoning := vrReasoning res @
              [step (lit ''grant budget exhausted'') ''grant %d allows %d uses, %d already recorded''
                 [AInt (meIndex winner), AInt limit, AInt used]]\<rparr>
      else
        (case sessionConstraint env obs st of
           Some viol \<Rightarrow>
             res\<lparr>vrVerdict := VerdictConstraintViolation, vrViolations := vrViolations res @ [viol],
                 vrReasoning := vrReasoning res @
                   [step (lit ''session constraint exceeded'') ''%s; %s''
                      [AMsg (vExpected viol), AMsg (vObserved viol)]]\<rparr>
         | None \<Rightarrow> res\<lparr>vrVerdict := VerdictWithinEnvelope\<rparr>))"

definition uncovered_result ::
  "default_validator \<Rightarrow> envelope \<Rightarrow> validation \<Rightarrow> observation \<Rightarrow> validation" where
  "uncovered_result v env res obs =
     (let res =
        (if grantsFor (Grants env) (obsKind obs) > 0 then
           res\<lparr>vrVerdict := VerdictGrantExceeded,
               vrViolations := vrViolations res @
                 [\<lparr>vType = ViolationSelectorMismatch, vCapability = obsKind obs,
                   vExpected = describeSelectors (Grants env) (obsKind obs),
                   vObserved = describeTarget obs,
                   vDetail = lit ''the capability is granted, but no grant's selector covers this target'',
                   vSeverity = severityFor ViolationSelectorMismatch (obsKind obs)\<rparr>],
               vrReasoning := vrReasoning res @
                 [step (lit ''selector mismatch'') ''%s is granted but not for %q''
                    [AStr (kind_string (obsKind obs)), AStr (obsTarget obs)]]\<rparr>
         else
           res\<lparr>vrVerdict := VerdictOutsideEnvelope,
               vrViolations := vrViolations res @
                 [\<lparr>vType = ViolationUngrantedCapability, vCapability = obsKind obs,
                   vExpected = lit ''no use of this capability'', vObserved = describeTarget obs,
                   vDetail = lit ''the envelope contains no grant for this capability'',
                   vSeverity = severityFor ViolationUngrantedCapability (obsKind obs)\<rparr>],
               vrReasoning := vrReasoning res @
                 [step (lit ''ungranted capability'') ''the envelope grants no %s''
                    [AStr (kind_string (obsKind obs))]]\<rparr>)
      in
      case workspaceEscape v env obs of
        None \<Rightarrow> res
      | Some esc \<Rightarrow>
          res\<lparr>vrViolations := vrViolations res @ [esc],
              vrReasoning := vrReasoning res @
                [step (lit ''workspace escape'') ''%q is outside %q''
                   [AStr (obsTarget obs), AStr (WorkspaceRoot (Constraints env))]]\<rparr>)"

text \<open>Steps 5 to 7, once no denial applies.\<close>

definition validate_grants ::
  "default_validator \<Rightarrow> envelope \<Rightarrow> session_state option \<Rightarrow> validation \<Rightarrow> observation \<Rightarrow> validation"
  where
  "validate_grants v env st res obs =
     (let (grants, grantUnev) = evaluate v (Grants env) obs in
      if grants \<noteq> [] then grant_result env st res obs grants
      else
        (case grantUnev of
           Some u \<Rightarrow>
             unevaluable_result res obs ''a grant that can be evaluated against this observation'' u
               ''no grant could be evaluated against this observation''
         | None \<Rightarrow> uncovered_result v env res obs))"

text \<open>Steps 3 to 7, once the event is an observation.\<close>

definition validate_observed ::
  "default_validator \<Rightarrow> envelope \<Rightarrow> event \<Rightarrow> session_state option \<Rightarrow> observation \<Rightarrow> validation" where
  "validate_observed v env ev st obs =
     (let res = empty_result\<lparr>vrReasoning :=
            [step (lit ''resolved observation'') ''%s on %q''
               [AStr (kind_string (obsKind obs)), AStr (obsTarget obs)]]\<rparr>;
          (denials, denialUnev, deniedKind) = evaluateDenials v (Denials env) (Some ev) obs
      in
      if denials \<noteq> [] then denied_result res obs denials deniedKind
      else
        (case denialUnev of
           Some u \<Rightarrow>
             unevaluable_result res obs ''a denial that can be evaluated against this observation'' u
               ''a matching denial could not be evaluated''
         | None \<Rightarrow> validate_grants v env st res obs))"

definition Validate ::
  "default_validator \<Rightarrow> envelope option \<Rightarrow> event option \<Rightarrow> session_state option \<Rightarrow> msg + validation"
  where
  "Validate v env e st =
     (case env of
        None \<Rightarrow> Inl ErrNoEnvelope
      | Some env \<Rightarrow>
          (case e of
             None \<Rightarrow> Inl ErrNoEvent
           | Some ev \<Rightarrow>
               Inr (let (isExpired, instant) = expired v env (WallClock ev) in
                    if isExpired then expired_result env ev instant
                    else
                      (case ObservationOf (Some ev) of
                         Inl err \<Rightarrow> unresolved_result ev err
                       | Inr obs \<Rightarrow> validate_observed v env ev st obs))))"

text \<open>\<open>ValidateSession\<close> reports every budget the session is over, not only the first.\<close>

definition ValidateSession :: "envelope option \<Rightarrow> session_state option \<Rightarrow> msg + violation list" where
  "ValidateSession env st =
     (case env of
        None \<Rightarrow> Inl ErrNoEnvelope
      | Some env \<Rightarrow>
          (case st of
             None \<Rightarrow> Inl ErrNoState
           | Some st \<Rightarrow>
               (let c = Constraints env; elapsed = seconds_duration (ElapsedSeconds st) in
                Inr ((if MaxDuration c > 0 \<and> elapsed > MaxDuration c then
                        [constraintViolation ''session duration'' (duration_string (MaxDuration c))
                           (rounded_string elapsed)] else []) @
                     (if MaxProcesses c > 0 \<and> ProcessCount st > MaxProcesses c then
                        [constraintViolation ''process count'' (sprint (MaxProcesses c))
                           (sprint (ProcessCount st))] else []) @
                     (if MaxFileWrites c > 0 \<and> FileWriteCount st > MaxFileWrites c then
                        [constraintViolation ''file writes'' (sprint (MaxFileWrites c))
                           (sprint (FileWriteCount st))] else []) @
                     (if MaxNetworkBytes c > 0 \<and> NetworkBytesSent st > MaxNetworkBytes c then
                        [constraintViolation ''network bytes sent'' (sprint (MaxNetworkBytes c))
                           (sprint (NetworkBytesSent st))] else [])))))"

section \<open>What the entries say\<close>

text \<open>The entries of a list that cover an observation, and whether one of them is undecided.\<close>

definition covering :: "selector_matcher \<Rightarrow> grant list \<Rightarrow> observation \<Rightarrow> match_entry list" where
  "covering m gs obs =
     map (\<lambda>(i, g). \<lparr>meIndex = int i, meGrant = g\<rparr>)
       (filter (\<lambda>(i, g). grant_coverage m g obs = Covered) (enumerate 0 gs))"

definition covers_some :: "selector_matcher \<Rightarrow> grant list \<Rightarrow> observation \<Rightarrow> bool" where
  "covers_some m gs obs \<longleftrightarrow> (\<exists>g\<in>set gs. grant_coverage m g obs = Covered)"

definition leaves_open :: "selector_matcher \<Rightarrow> grant list \<Rightarrow> observation \<Rightarrow> bool" where
  "leaves_open m gs obs \<longleftrightarrow> (\<exists>g\<in>set gs. grant_coverage m g obs = Unknown)"

lemma other_kind_uncovered: "grantKind g \<noteq> obsKind obs \<Longrightarrow> grant_coverage m g obs = Uncovered"
  by (simp add: grant_coverage_def)

lemma Match_cases:
  "mrMatched (Match m g obs) \<longleftrightarrow> grant_coverage m g obs = Covered"
  "\<not> mrMatched (Match m g obs) \<Longrightarrow> mrUnevaluable (Match m g obs) \<longleftrightarrow> grant_coverage m g obs = Unknown"
  using Match_outcome[of m g obs] by (auto simp: outcome_def split: if_splits)

lemma evaluate_loop_fst:
  "fst (evaluate_loop v obs (int n) gs matches u) = matches @
     map (\<lambda>(i, g). \<lparr>meIndex = int i, meGrant = g\<rparr>)
       (filter (\<lambda>(i, g). grant_coverage (dvMatcher v) g obs = Covered) (enumerate n gs))"
proof (induction gs arbitrary: n matches u)
  case (Cons g gs)
  have next_n: "int n + 1 = int (Suc n)" by simp
  show ?case
    using other_kind_uncovered[of g obs "dvMatcher v"]
    by (simp add: Let_def next_n Match_cases Cons.IH del: of_nat_Suc)
qed simp

lemma evaluate_fst: "fst (evaluate v gs obs) = covering (dvMatcher v) gs obs"
  using evaluate_loop_fst[of v obs 0] by (simp add: evaluate_def covering_def)

lemma evaluate_loop_snd:
  "snd (evaluate_loop v obs i gs matches u) =
     (case u of Some r \<Rightarrow> Some r
      | None \<Rightarrow> map_option (\<lambda>g. Match (dvMatcher v) g obs)
          (find (\<lambda>g. grant_coverage (dvMatcher v) g obs = Unknown) gs))"
proof (induction gs arbitrary: i matches u)
  case Nil
  then show ?case by (simp split: option.split)
next
  case (Cons g gs)
  show ?case
    using other_kind_uncovered[of g obs "dvMatcher v"] Match_cases[of "dvMatcher v" g obs]
    by (cases u; cases "grantKind g = obsKind obs"; cases "grant_coverage (dvMatcher v) g obs")
      (simp_all add: Let_def Cons.IH)
qed

lemma evaluate_snd:
  "snd (evaluate v gs obs) = map_option (\<lambda>g. Match (dvMatcher v) g obs)
     (find (\<lambda>g. grant_coverage (dvMatcher v) g obs = Unknown) gs)"
  by (simp add: evaluate_def evaluate_loop_snd)

lemma enumerate_map: "enumerate 0 xs = map (\<lambda>i. (i, xs ! i)) [0..<length xs]"
  by (rule nth_equalityI) (simp_all add: nth_enumerate_eq)

lemma covering_map:
  "covering m gs obs = map (\<lambda>i. \<lparr>meIndex = int i, meGrant = gs ! i\<rparr>)
     (filter (\<lambda>i. grant_coverage m (gs ! i) obs = Covered) [0..<length gs])"
  by (simp add: covering_def enumerate_map filter_map o_def)

lemma covering_Nil: "covering m gs obs = [] \<longleftrightarrow> \<not> covers_some m gs obs"
  by (fastforce simp: covering_map covers_some_def filter_empty_conv in_set_conv_nth)

lemma set_covering:
  "e \<in> set (covering m gs obs) \<longleftrightarrow>
     (\<exists>i<length gs. e = \<lparr>meIndex = int i, meGrant = gs ! i\<rparr> \<and> grant_coverage m (gs ! i) obs = Covered)"
  by (auto simp: covering_map)

lemma evaluate_undecided: "snd (evaluate v gs obs) = None \<longleftrightarrow> \<not> leaves_open (dvMatcher v) gs obs"
  by (auto simp: evaluate_snd leaves_open_def find_None_iff)

lemma evaluate_split: "evaluate v gs obs =
    (covering (dvMatcher v) gs obs, snd (evaluate v gs obs))"
  by (simp add: evaluate_fst[symmetric])

text \<open>The observation under every capability the operation exercised.\<close>

definition exercised :: "event \<Rightarrow> observation \<Rightarrow> observation list" where
  "exercised ev obs = obs # exercisedObservations (Some ev) obs"

lemma denial_loop_cases:
  "(\<exists>alt\<in>set alts. covers_some (dvMatcher v) ds alt \<and>
      (\<exists>u'. denial_loop v ds obs [] u alts = (covering (dvMatcher v) ds alt, u', obsKind alt))) \<or>
   ((\<forall>alt\<in>set alts. \<not> covers_some (dvMatcher v) ds alt) \<and>
      (\<exists>u'. denial_loop v ds obs [] u alts = ([], u', obsKind obs) \<and>
         (u' = None \<longleftrightarrow> u = None \<and> (\<forall>alt\<in>set alts. \<not> leaves_open (dvMatcher v) ds alt))))"
proof (induction alts arbitrary: u)
  case (Cons alt alts)
  obtain w where ev: "evaluate v ds alt = (covering (dvMatcher v) ds alt, w)"
    and w: "w = None \<longleftrightarrow> \<not> leaves_open (dvMatcher v) ds alt"
    using evaluate_split[of v ds alt] evaluate_undecided[of v ds alt] by metis
  show ?case
  proof (cases "covers_some (dvMatcher v) ds alt")
    case True
    then show ?thesis using covering_Nil[of "dvMatcher v" ds alt] by (simp add: ev)
  next
    case False
    then have "denial_loop v ds obs [] u (alt # alts) =
        denial_loop v ds obs [] (if u = None then w else u) alts"
      by (simp add: ev covering_Nil)
    then show ?thesis using False Cons.IH[of "if u = None then w else u"] w by (cases u) auto
  qed
qed simp

lemma evaluateDenials_cases:
  obtains (denied) alt u where "alt \<in> set (exercised ev obs)" "covers_some (dvMatcher v) ds alt"
      "evaluateDenials v ds (Some ev) obs = (covering (dvMatcher v) ds alt, u, obsKind alt)"
  | (clear) u where "\<forall>alt\<in>set (exercised ev obs). \<not> covers_some (dvMatcher v) ds alt"
      "evaluateDenials v ds (Some ev) obs = ([], u, obsKind obs)"
      "u = None \<longleftrightarrow> (\<forall>alt\<in>set (exercised ev obs). \<not> leaves_open (dvMatcher v) ds alt)"
proof (cases "covers_some (dvMatcher v) ds obs")
  case True
  obtain w where "evaluate v ds obs = (covering (dvMatcher v) ds obs, w)"
    using evaluate_split[of v ds obs] by metis
  then have "evaluateDenials v ds (Some ev) obs = (covering (dvMatcher v) ds obs, w, obsKind obs)"
    using covering_Nil[of "dvMatcher v" ds obs] True by (simp add: evaluateDenials_def)
  then show ?thesis using denied[of obs] True by (simp add: exercised_def)
next
  case False
  obtain w where w: "evaluate v ds obs = (covering (dvMatcher v) ds obs, w)"
    "w = None \<longleftrightarrow> \<not> leaves_open (dvMatcher v) ds obs"
    using evaluate_split[of v ds obs] evaluate_undecided[of v ds obs] by metis
  then have loop: "evaluateDenials v ds (Some ev) obs =
      denial_loop v ds obs [] w (exercisedObservations (Some ev) obs)"
    using covering_Nil[of "dvMatcher v" ds obs] False by (simp add: evaluateDenials_def)
  from denial_loop_cases[of "exercisedObservations (Some ev) obs" v ds obs w] show ?thesis
  proof (elim disjE bexE conjE exE)
    fix alt u'
    assume "alt \<in> set (exercisedObservations (Some ev) obs)" "covers_some (dvMatcher v) ds alt"
      "denial_loop v ds obs [] w (exercisedObservations (Some ev) obs) =
         (covering (dvMatcher v) ds alt, u', obsKind alt)"
    then show thesis using denied[of alt u'] loop by (simp add: exercised_def)
  next
    fix u'
    assume "\<forall>alt\<in>set (exercisedObservations (Some ev) obs). \<not> covers_some (dvMatcher v) ds alt"
      "denial_loop v ds obs [] w (exercisedObservations (Some ev) obs) = ([], u', obsKind obs)"
      "u' = None \<longleftrightarrow> w = None \<and>
         (\<forall>alt\<in>set (exercisedObservations (Some ev) obs). \<not> leaves_open (dvMatcher v) ds alt)"
    then show thesis using clear[of u'] loop False w(2) by (simp add: exercised_def)
  qed
qed

section \<open>The specification of a verdict\<close>

text \<open>
  What the verdict must be, without the code's lists and accumulators: expiry first, then the
  denials under every exercised capability, then the grants under the reported one.
\<close>

definition past_expiry :: "default_validator \<Rightarrow> envelope \<Rightarrow> event \<Rightarrow> bool" where
  "past_expiry v env ev \<longleftrightarrow> envExpiresAt env \<noteq> 0 \<and>
     envExpiresAt env < (if WallClock ev = 0 then dvNow v else WallClock ev)"

text \<open>The grant that governs: the narrowest of those that cover the observation.\<close>

definition governing :: "selector_matcher \<Rightarrow> grant list \<Rightarrow> observation \<Rightarrow> match_entry" where
  "governing m gs obs = fst (mostSpecific (covering m gs obs))"

definition budget_spent :: "match_entry \<Rightarrow> session_state option \<Rightarrow> bool" where
  "budget_spent w st \<longleftrightarrow>
     (case st of None \<Rightarrow> False
      | Some s \<Rightarrow> 0 < MaxCount (grantSelector (meGrant w)) \<and>
          MaxCount (grantSelector (meGrant w)) \<le> GrantUseCount s (meIndex w))"

definition verdict_spec ::
  "default_validator \<Rightarrow> envelope \<Rightarrow> event \<Rightarrow> session_state option \<Rightarrow> verdict" where
  "verdict_spec v env ev st =
     (let m = dvMatcher v in
      if past_expiry v env ev then VerdictOutsideEnvelope
      else
        (case ObservationOf (Some ev) of
           Inl _ \<Rightarrow> VerdictIndeterminate
         | Inr obs \<Rightarrow>
             (if \<exists>alt\<in>set (exercised ev obs). covers_some m (Denials env) alt
              then VerdictExplicitlyDenied
              else if \<exists>alt\<in>set (exercised ev obs). leaves_open m (Denials env) alt
              then VerdictIndeterminate
              else if covers_some m (Grants env) obs then
                (if budget_spent (governing m (Grants env) obs) st then VerdictGrantExceeded
                 else if sessionConstraint env obs st \<noteq> None then VerdictConstraintViolation
                 else VerdictWithinEnvelope)
              else if leaves_open m (Grants env) obs then VerdictIndeterminate
              else if \<exists>g\<in>set (Grants env). grantKind g = obsKind obs then VerdictGrantExceeded
              else VerdictOutsideEnvelope)))"

section \<open>The code meets the specification\<close>

lemma expired_spec: "fst (expired v env (WallClock ev)) \<longleftrightarrow> past_expiry v env ev"
  by (simp add: expired_def past_expiry_def Let_def)

lemma budgetExhausted_spec: "fst (budgetExhausted w st) \<longleftrightarrow> budget_spent w st"
  by (auto simp: budgetExhausted_def budget_spent_def Let_def split: option.split)

lemma indeterminate_verdict [simp]:
  "vrVerdict (indeterminate res v c d) = VerdictIndeterminate"
  "vrMatchedGrant (indeterminate res v c d) = vrMatchedGrant res"
  "vrViolations (indeterminate res v c d) = vrViolations res @ [v]"
  by (simp_all add: indeterminate_def)

lemma result_verdicts [simp]:
  "vrVerdict (expired_result env ev t) = VerdictOutsideEnvelope"
  "vrVerdict (unresolved_result ev err) = VerdictIndeterminate"
  "vrVerdict (denied_result res obs ds k) = VerdictExplicitlyDenied"
  "vrVerdict (unevaluable_result res obs x u c) = VerdictIndeterminate"
  by (simp_all add: expired_result_def unresolved_result_def denied_result_def
      unevaluable_result_def Let_def)

lemma uncovered_verdict:
  "vrVerdict (uncovered_result v env res obs) =
     (if \<exists>g\<in>set (Grants env). grantKind g = obsKind obs then VerdictGrantExceeded
      else VerdictOutsideEnvelope)"
  by (auto simp: uncovered_result_def grantsFor_def Let_def filter_empty_conv split: option.split)

lemma grant_winner:
  assumes "covers_some m gs obs"
  shows "rsWinner (ResolvePrecedence (covering m gs obs) []) = Some (governing m gs obs)"
    and "governing m gs obs \<in> set (covering m gs obs)"
proof -
  have "covering m gs obs \<noteq> []" using assms by (simp add: covering_Nil)
  then show "rsWinner (ResolvePrecedence (covering m gs obs) []) = Some (governing m gs obs)"
    and "governing m gs obs \<in> set (covering m gs obs)"
    using ResolvePrecedence_simps(2) mostSpecific_optimal(1) by (simp_all add: governing_def)
qed

lemma grant_result_fields:
  fixes st :: "session_state option" and res :: validation
  assumes "covers_some m (Grants env) obs"
  defines "r \<equiv> grant_result env st res obs (covering m (Grants env) obs)"
    and "w \<equiv> governing m (Grants env) obs"
  shows "vrVerdict r =
      (if budget_spent w st then VerdictGrantExceeded
       else if sessionConstraint env obs st \<noteq> None then VerdictConstraintViolation
       else VerdictWithinEnvelope)"
    and "vrMatchedGrant r = Some (meGrant w)" and "vrMatchedGrantIndex r = meIndex w"
    and "length (vrViolations r) = length (vrViolations res) +
      (if vrVerdict r = VerdictWithinEnvelope then 0 else 1)"
  using grant_winner(1)[OF assms(1)] budgetExhausted_spec[of w st]
  by (auto simp: r_def w_def grant_result_def Let_def split: prod.splits option.splits)

text \<open>The result before any step has spoken.\<close>

definition fresh_result :: "validation \<Rightarrow> bool" where
  "fresh_result res \<longleftrightarrow> vrViolations res = [] \<and> vrMatchedGrant res = None"

definition clear_of_denials :: "selector_matcher \<Rightarrow> envelope \<Rightarrow> event \<Rightarrow> observation \<Rightarrow> bool" where
  "clear_of_denials m env ev obs \<longleftrightarrow>
     (\<forall>alt\<in>set (exercised ev obs). \<not> covers_some m (Denials env) alt \<and> \<not> leaves_open m (Denials env) alt)"

lemma validate_grants_cases:
  obtains (granted) "covers_some (dvMatcher v) (Grants env) obs"
      "validate_grants v env st res obs =
         grant_result env st res obs (covering (dvMatcher v) (Grants env) obs)"
  | (undecided) x u c where "\<not> covers_some (dvMatcher v) (Grants env) obs"
      "leaves_open (dvMatcher v) (Grants env) obs"
      "validate_grants v env st res obs = unevaluable_result res obs x u c"
  | (uncovered) "\<not> covers_some (dvMatcher v) (Grants env) obs"
      "\<not> leaves_open (dvMatcher v) (Grants env) obs"
      "validate_grants v env st res obs = uncovered_result v env res obs"
proof -
  obtain w where w: "evaluate v (Grants env) obs = (covering (dvMatcher v) (Grants env) obs, w)"
    "w = None \<longleftrightarrow> \<not> leaves_open (dvMatcher v) (Grants env) obs"
    using evaluate_split[of v "Grants env" obs] evaluate_undecided[of v "Grants env" obs] by metis
  note nil = covering_Nil[of "dvMatcher v" "Grants env" obs]
  show thesis
  proof (cases "covers_some (dvMatcher v) (Grants env) obs")
    case True
    then show thesis using granted nil by (simp add: validate_grants_def w(1))
  next
    case False
    then show thesis using undecided uncovered nil w(2)
      by (cases w) (simp_all add: validate_grants_def w(1))
  qed
qed

lemma validate_observed_cases:
  obtains (denied) alt res where "fresh_result res"
      "alt \<in> set (exercised ev obs)" "covers_some (dvMatcher v) (Denials env) alt"
      "validate_observed v env ev st obs =
         denied_result res obs (covering (dvMatcher v) (Denials env) alt) (obsKind alt)"
  | (undecided) res x u c where "fresh_result res"
      "\<forall>alt\<in>set (exercised ev obs). \<not> covers_some (dvMatcher v) (Denials env) alt"
      "\<exists>alt\<in>set (exercised ev obs). leaves_open (dvMatcher v) (Denials env) alt"
      "validate_observed v env ev st obs = unevaluable_result res obs x u c"
  | (clear) res where "fresh_result res" "clear_of_denials (dvMatcher v) env ev obs"
      "validate_observed v env ev st obs = validate_grants v env st res obs"
proof (rule evaluateDenials_cases[of ev obs v "Denials env"])
  define res where "res = empty_result\<lparr>vrReasoning :=
    [step (lit ''resolved observation'') ''%s on %q''
       [AStr (kind_string (obsKind obs)), AStr (obsTarget obs)]]\<rparr>"
  have res: "fresh_result res" by (simp add: res_def empty_result_def fresh_result_def)
  {
    fix alt u
    assume "alt \<in> set (exercised ev obs)" "covers_some (dvMatcher v) (Denials env) alt"
      "evaluateDenials v (Denials env) (Some ev) obs =
         (covering (dvMatcher v) (Denials env) alt, u, obsKind alt)"
    then show thesis
      using denied[OF res] covering_Nil[of "dvMatcher v" "Denials env" alt]
      by (simp add: validate_observed_def res_def)
  next
    fix u
    assume "\<forall>alt\<in>set (exercised ev obs). \<not> covers_some (dvMatcher v) (Denials env) alt"
      "evaluateDenials v (Denials env) (Some ev) obs = ([], u, obsKind obs)"
      "u = None \<longleftrightarrow> (\<forall>alt\<in>set (exercised ev obs). \<not> leaves_open (dvMatcher v) (Denials env) alt)"
    then show thesis
      using undecided[OF res] clear[OF res]
      by (cases u) (auto simp: validate_observed_def res_def clear_of_denials_def)
  }
qed

lemma Validate_cases:
  obtains (expired) t where "past_expiry v env ev"
      "Validate v (Some env) (Some ev) st = Inr (expired_result env ev t)"
  | (unresolved) err where "\<not> past_expiry v env ev" "ObservationOf (Some ev) = Inl err"
      "Validate v (Some env) (Some ev) st = Inr (unresolved_result ev err)"
  | (observed) obs where "\<not> past_expiry v env ev" "ObservationOf (Some ev) = Inr obs"
      "Validate v (Some env) (Some ev) st = Inr (validate_observed v env ev st obs)"
proof (cases "expired v env (WallClock ev)")
  case (Pair b t)
  then have "b \<longleftrightarrow> past_expiry v env ev" using expired_spec[of v env ev] by simp
  then show thesis
    using Pair expired[of t] unresolved observed
    by (cases b; cases "ObservationOf (Some ev)") (simp_all add: Validate_def)
qed

lemma validate_grants_verdict:
  "vrVerdict (validate_grants v env st res obs) =
     (if covers_some (dvMatcher v) (Grants env) obs then
        (if budget_spent (governing (dvMatcher v) (Grants env) obs) st then VerdictGrantExceeded
         else if sessionConstraint env obs st \<noteq> None then VerdictConstraintViolation
         else VerdictWithinEnvelope)
      else if leaves_open (dvMatcher v) (Grants env) obs then VerdictIndeterminate
      else if \<exists>g\<in>set (Grants env). grantKind g = obsKind obs then VerdictGrantExceeded
      else VerdictOutsideEnvelope)"
proof (cases rule: validate_grants_cases[of v env obs st res])
  case granted
  then show ?thesis by (simp only: grant_result_fields(1) if_True simp_thms)
qed (simp_all add: uncovered_verdict)

lemma validate_observed_verdict:
  "vrVerdict (validate_observed v env ev st obs) =
     (if \<exists>alt\<in>set (exercised ev obs). covers_some (dvMatcher v) (Denials env) alt
      then VerdictExplicitlyDenied
      else if \<exists>alt\<in>set (exercised ev obs). leaves_open (dvMatcher v) (Denials env) alt
      then VerdictIndeterminate
      else vrVerdict (validate_grants v env st empty_result obs))"
proof (cases rule: validate_observed_cases[of ev obs v env st])
  case (denied alt res)
  then have "\<exists>alt\<in>set (exercised ev obs). covers_some (dvMatcher v) (Denials env) alt" by blast
  then show ?thesis using denied(4) by simp
next
  case (clear res)
  then have "\<not> (\<exists>alt\<in>set (exercised ev obs). covers_some (dvMatcher v) (Denials env) alt)"
    "\<not> (\<exists>alt\<in>set (exercised ev obs). leaves_open (dvMatcher v) (Denials env) alt)"
    by (auto simp: clear_of_denials_def)
  then show ?thesis using clear(3) by (simp only: validate_grants_verdict if_False)
qed simp

lemma Validate_verdict:
  assumes "Validate v (Some env) (Some ev) st = Inr r"
  shows "vrVerdict r = verdict_spec v env ev st"
proof (cases rule: Validate_cases[of v env ev st])
  case (expired t)
  then show ?thesis using assms by (auto simp: verdict_spec_def)
next
  case (unresolved err)
  then show ?thesis using assms by (auto simp: verdict_spec_def)
next
  case (observed obs)
  then have "r = validate_observed v env ev st obs" using assms by simp
  then show ?thesis
    by (simp only: verdict_spec_def Let_def observed if_False sum.case validate_observed_verdict
        validate_grants_verdict)
qed

lemma Validate_returns: "\<exists>r. Validate v (Some env) (Some ev) st = Inr r"
  by (simp add: Validate_def)

section \<open>Violations and their severity\<close>

lemma severityFor_rank:
  "severityRank (severityFor vt k) =
     max (severityRank (case severityFloor vt of None \<Rightarrow> SeverityMedium | Some f \<Rightarrow> f))
       (case Describe k of None \<Rightarrow> 0 | Some d \<Rightarrow> severityRank (descBaselineSeverity d))"
proof -
  have nonneg: "0 \<le> severityRank s" for s by (cases s) auto
  show ?thesis
    using nonneg by (auto simp: severityFor_def Let_def max_def antisym split: option.split)
qed

lemma result_violations [simp]:
  "length (vrViolations (expired_result env ev t)) = 1"
  "length (vrViolations (unresolved_result ev err)) = 1"
  "length (vrViolations (denied_result res obs ds k)) = Suc (length (vrViolations res))"
  "length (vrViolations (unevaluable_result res obs x u c)) = Suc (length (vrViolations res))"
  "length (vrViolations res) < length (vrViolations (uncovered_result v env res obs))"
  by (simp_all add: expired_result_def unresolved_result_def denied_result_def empty_result_def
      unevaluable_result_def uncovered_result_def Let_def split: option.split)

lemma result_grants [simp]:
  "vrMatchedGrant (expired_result env ev t) = None"
  "vrMatchedGrant (unresolved_result ev err) = None"
  "vrMatchedGrant (denied_result res obs ds k) = vrMatchedGrant res"
  "vrMatchedGrant (unevaluable_result res obs x u c) = vrMatchedGrant res"
  "vrMatchedGrant (uncovered_result v env res obs) = vrMatchedGrant res"
  by (simp_all add: expired_result_def unresolved_result_def denied_result_def empty_result_def
      unevaluable_result_def uncovered_result_def Let_def split: option.split)

text \<open>Every violation the validator reports is at least as severe as its type and its capability ask.\<close>

definition well_rated :: "violation \<Rightarrow> bool" where
  "well_rated x \<longleftrightarrow>
     severityRank SeverityMedium \<le> severityRank (vSeverity x) \<and>
     (case severityFloor (vType x) of None \<Rightarrow> True
      | Some f \<Rightarrow> severityRank f \<le> severityRank (vSeverity x)) \<and>
     (case Describe (vCapability x) of None \<Rightarrow> True
      | Some d \<Rightarrow> severityRank (descBaselineSeverity d) \<le> severityRank (vSeverity x))"

lemma severityFloor_known:
  "severityFloor vt = None \<longleftrightarrow> \<not> ValidViolationType vt"
  "severityFloor vt = Some f \<Longrightarrow> severityRank SeverityMedium \<le> severityRank f"
  by (cases vt; auto simp: severityFloor_def ValidViolationType_def AllViolationTypes_def)+

lemma severityFor_well_rated:
  "vSeverity x = severityFor (vType x) (vCapability x) \<Longrightarrow> well_rated x"
  using severityFloor_known(2)[of "vType x"]
  by (auto simp: well_rated_def severityFor_rank split: option.splits)

lemma sessionConstraint_rated:
  "sessionConstraint env obs st = Some x \<Longrightarrow>
     vType x = ViolationConstraintExceeded \<and> vCapability x = obsKind obs \<and>
     vSeverity x = severityFor (vType x) (vCapability x)"
  by (auto simp: sessionConstraint_def sessionViolation_def constraintViolation_def Let_def
      split: option.splits if_splits)

lemma workspaceEscape_rated:
  "workspaceEscape v env obs = Some x \<Longrightarrow> vSeverity x = severityFor (vType x) (vCapability x)"
  by (auto simp: workspaceEscape_def Let_def split: if_splits)

definition rated :: "validation \<Rightarrow> bool" where
  "rated r \<longleftrightarrow> (\<forall>x\<in>set (vrViolations r). vSeverity x = severityFor (vType x) (vCapability x))"

lemma rated_results:
  "rated (expired_result env ev t)" "rated (unresolved_result ev err)"
  "rated res \<Longrightarrow> rated (denied_result res obs ds k)"
  "rated res \<Longrightarrow> rated (unevaluable_result res obs x u c)"
  "rated res \<Longrightarrow> rated (uncovered_result v env res obs)"
  "rated res \<Longrightarrow> rated (grant_result env st res obs gs)"
  using sessionConstraint_rated workspaceEscape_rated
  by (auto simp: rated_def expired_result_def unresolved_result_def denied_result_def
      empty_result_def unevaluable_result_def uncovered_result_def grant_result_def
      indeterminate_def Let_def split: option.splits prod.splits)

lemma fresh_rated: "fresh_result res \<Longrightarrow> rated res"
  by (simp add: fresh_result_def rated_def)

lemma validate_grants_rated: "rated res \<Longrightarrow> rated (validate_grants v env st res obs)"
  by (cases rule: validate_grants_cases[of v env obs st res]) (simp_all add: rated_results)

lemma Validate_rated: "Validate v (Some env) (Some ev) st = Inr r \<Longrightarrow> rated r"
proof (cases rule: Validate_cases[of v env ev st])
  case (observed obs)
  then show "Validate v (Some env) (Some ev) st = Inr r \<Longrightarrow> rated r"
    by (cases rule: validate_observed_cases[of ev obs v env st])
      (auto simp: rated_results fresh_rated validate_grants_rated)
qed (auto simp: rated_results)

lemma validate_grants_within:
  assumes "fresh_result res"
  shows "vrViolations (validate_grants v env st res obs) = [] \<longleftrightarrow>
    vrVerdict (validate_grants v env st res obs) = VerdictWithinEnvelope"
proof (cases rule: validate_grants_cases[of v env obs st res])
  case granted
  have "length (vrViolations (validate_grants v env st res obs)) =
      (if vrVerdict (validate_grants v env st res obs) = VerdictWithinEnvelope then 0 else 1)"
    using grant_result_fields(4)[OF granted(1), of st res] assms
    by (simp add: granted(2) fresh_result_def)
  then show ?thesis by (simp flip: length_0_conv split: if_splits)
next
  case (undecided x u c)
  then show ?thesis
    using result_violations(4)[of res obs x u c] by (auto simp del: result_violations)
next
  case uncovered
  have "vrViolations (uncovered_result v env res obs) \<noteq> []"
    using result_violations(5)[of res v env obs] by (auto simp del: result_violations)
  then show ?thesis using uncovered(3) by (simp add: uncovered_verdict)
qed

lemma Validate_within:
  assumes "Validate v (Some env) (Some ev) st = Inr r"
  shows "vrViolations r = [] \<longleftrightarrow> vrVerdict r = VerdictWithinEnvelope"
proof (cases rule: Validate_cases[of v env ev st])
  case (expired t)
  then show ?thesis using assms result_violations(1)[of env ev t] by (auto simp del: result_violations)
next
  case (unresolved err)
  then show ?thesis using assms result_violations(2)[of ev err] by (auto simp del: result_violations)
next
  case (observed obs)
  then have r: "r = validate_observed v env ev st obs" using assms by simp
  show ?thesis
  proof (cases rule: validate_observed_cases[of ev obs v env st])
    case (denied alt res)
    then show ?thesis using r result_violations(3)[of res obs] by (metis Suc_not_Zero list.size(3)
          result_verdicts(3) verdict.distinct(3))
  next
    case (undecided res x u c)
    then show ?thesis using r result_violations(4)[of res obs x u c] by (auto simp del: result_violations)
  next
    case (clear res)
    then show ?thesis using r validate_grants_within by simp
  qed
qed

section \<open>Denials\<close>

lemma denied_verdict:
  assumes live: "\<not> past_expiry v env ev" and obs: "ObservationOf (Some ev) = Inr obs"
    and alt: "alt \<in> set (exercised ev obs)" "covers_some (dvMatcher v) (Denials env) alt"
  shows "\<exists>r. Validate v (Some env) (Some ev) st = Inr r \<and> vrVerdict r = VerdictExplicitlyDenied \<and>
    vrMatchedGrant r = None \<and> (\<exists>d\<in>set (Denials env). vrMatchedDenial r = Some d)"
proof (cases rule: Validate_cases[of v env ev st])
  case (observed obs')
  then have same: "obs' = obs" using obs by simp
  show ?thesis
  proof (cases rule: validate_observed_cases[of ev obs' v env st])
    case (denied a res)
    let ?r = "denied_result res obs' (covering (dvMatcher v) (Denials env) a) (obsKind a)"
    have "covering (dvMatcher v) (Denials env) a \<noteq> []" using denied(3) by (simp add: covering_Nil)
    then obtain w where w: "w \<in> set (covering (dvMatcher v) (Denials env) a)"
      "rsWinner (ResolvePrecedence [] (covering (dvMatcher v) (Denials env) a)) = Some w"
      using ResolvePrecedence_simps(1) mostSpecific_optimal(1) by blast
    then have "meGrant w \<in> set (Denials env)" by (auto simp: covering_map)
    moreover have "vrMatchedDenial ?r = Some (meGrant w)" using w(2) by (simp add: denied_result_def Let_def)
    moreover have "Validate v (Some env) (Some ev) st = Inr ?r" using observed(3) denied(4) by simp
    moreover have "vrMatchedGrant ?r = None" using denied(1) by (simp add: fresh_result_def)
    ultimately show ?thesis by (metis result_verdicts(3))
  qed (use alt same in \<open>auto simp: clear_of_denials_def\<close>)
qed (use live obs in auto)

lemma exercised_denials: "exercised ev obs = obs # exercisedObservations (Some ev) obs"
  by (rule exercised_def)

lemma exercised_open:
  assumes "evFile ev = Some f" and "evCapability ev \<noteq> KindFileLink"
    and "k \<in> set (ExercisedKinds (Some f))" and "obsKind obs \<in> set (ExercisedKinds (Some f))"
  shows "obs\<lparr>obsKind := k\<rparr> \<in> set (exercised ev obs)"
proof (cases "k = obsKind obs")
  case False
  then have "card {k, obsKind obs} \<le> card (set (ExercisedKinds (Some f)))"
    using assms(3,4) by (intro card_mono) auto
  then have "2 \<le> length (ExercisedKinds (Some f))"
    using False card_length[of "ExercisedKinds (Some f)"] by simp
  then show ?thesis
    using assms False by (simp add: exercised_def exercisedObservations_def)
qed (simp add: exercised_def)

text \<open>Denials only take away: without the added ones the result is the same.\<close>

lemma validate_grants_denials:
  "validate_grants v (env\<lparr>Denials := ds\<rparr>) st res obs = validate_grants v env st res obs"
proof -
  have same: "Constraints (env\<lparr>Denials := ds\<rparr>) = Constraints env"
    "Grants (env\<lparr>Denials := ds\<rparr>) = Grants env" by simp_all
  show ?thesis
    unfolding validate_grants_def grant_result_def uncovered_result_def sessionConstraint_def
      workspaceEscape_def same ..
qed

lemma validate_observed_clear:
  assumes "clear_of_denials (dvMatcher v) env ev obs"
  shows "validate_observed v env ev st obs =
    validate_grants v env st (empty_result\<lparr>vrReasoning :=
       [step (lit ''resolved observation'') ''%s on %q''
          [AStr (kind_string (obsKind obs)), AStr (obsTarget obs)]]\<rparr>) obs"
proof (rule evaluateDenials_cases[of ev obs v "Denials env"])
  fix u
  assume "evaluateDenials v (Denials env) (Some ev) obs = ([], u, obsKind obs)"
    "u = None \<longleftrightarrow> (\<forall>alt\<in>set (exercised ev obs). \<not> leaves_open (dvMatcher v) (Denials env) alt)"
  then show ?thesis using assms by (simp add: validate_observed_def clear_of_denials_def)
qed (use assms in \<open>auto simp: clear_of_denials_def\<close>)

lemma clear_of_fewer_denials:
  "clear_of_denials m (env\<lparr>Denials := ds\<rparr>) ev obs \<Longrightarrow> set (Denials env) \<subseteq> set ds \<Longrightarrow>
     clear_of_denials m env ev obs"
  by (fastforce simp: clear_of_denials_def covers_some_def leaves_open_def)

lemma Validate_fewer_denials:
  assumes "Validate v (Some (env\<lparr>Denials := ds\<rparr>)) (Some ev) st = Inr r"
    and "vrVerdict r = VerdictWithinEnvelope" and "set (Denials env) \<subseteq> set ds"
  shows "Validate v (Some env) (Some ev) st = Inr r"
proof (cases rule: Validate_cases[of v "env\<lparr>Denials := ds\<rparr>" ev st])
  case (observed obs)
  then have r: "r = validate_observed v (env\<lparr>Denials := ds\<rparr>) ev st obs" using assms(1) by simp
  have clear: "clear_of_denials (dvMatcher v) (env\<lparr>Denials := ds\<rparr>) ev obs"
    using assms(2) validate_observed_verdict[of v "env\<lparr>Denials := ds\<rparr>" ev st obs]
    by (auto simp: r clear_of_denials_def split: if_splits)
  have "r = validate_observed v env ev st obs"
    using r validate_observed_clear[OF clear] validate_grants_denials
      validate_observed_clear[OF clear_of_fewer_denials[OF clear assms(3)]] by simp
  moreover have "fst (expired v env (WallClock ev)) = False"
    using observed(1) by (simp add: expired_spec past_expiry_def)
  ultimately show ?thesis
    using observed(2) by (cases "expired v env (WallClock ev)") (simp add: Validate_def)
qed (use assms in auto)

section \<open>Properties\<close>

text \<open>A grant on a whole capability, and an event that carries its observation; the examples use
  them.\<close>

definition plain_grant :: "kind \<Rightarrow> grant" where
  "plain_grant k = \<lparr>grantKind = k, grantDomain = DomainFilesystem, grantSelector = empty_selector,
     grantRationale = [], grantOptional = False\<rparr>"

definition observed_event :: "kind \<Rightarrow> event" where
  "observed_event k = zero_event\<lparr>evCapability := k,
     evObservation := \<lparr>obsKind = k, obsDomain = DomainFilesystem, obsTarget = ''/src/main.c'',
       obsAttributes = Map.empty\<rparr>\<rparr>"

lemma plain_grant_coverage [simp]:
  "DomainOf k = Some DomainFilesystem \<Longrightarrow>
     grant_coverage m (plain_grant k) obs = (if k = obsKind obs then Covered else Uncovered)"
  by (auto simp: plain_grant_def grant_coverage_def path_coverage_def empty_selector_def)

lemma observed_event_simps [simp]:
  "ObservationOf (Some (observed_event KindFileRead)) = Inr (evObservation (observed_event KindFileRead))"
  "ObservationOf (Some (observed_event KindFileWrite)) = Inr (evObservation (observed_event KindFileWrite))"
  "obsKind (evObservation (observed_event k)) = k" "evFile (observed_event k) = None"
  "exercised (observed_event k) obs = [obs]"
  by (simp_all add: ObservationOf_def observed_event_def exercised_def exercisedObservations_def
      zero_event_def)

lemma within_facts:
  assumes "Validate v (Some env) (Some ev) st = Inr r" and "vrVerdict r = VerdictWithinEnvelope"
  obtains obs i where "\<not> past_expiry v env ev" "ObservationOf (Some ev) = Inr obs"
    "clear_of_denials (dvMatcher v) env ev obs" "i < length (Grants env)"
    "vrMatchedGrantIndex r = int i" "vrMatchedGrant r = Some (Grants env ! i)"
    "grant_coverage (dvMatcher v) (Grants env ! i) obs = Covered"
    "\<not> budget_spent \<lparr>meIndex = int i, meGrant = Grants env ! i\<rparr> st"
    "sessionConstraint env obs st = None"
proof (cases rule: Validate_cases[of v env ev st])
  case (observed obs)
  then have r: "r = validate_observed v env ev st obs" using assms(1) by simp
  have clear: "clear_of_denials (dvMatcher v) env ev obs"
    using assms(2) validate_observed_verdict[of v env ev st obs]
    by (auto simp: r clear_of_denials_def split: if_splits)
  have verdict: "vrVerdict (validate_grants v env st res obs) = VerdictWithinEnvelope" for res
    using assms(2) validate_observed_clear[OF clear] r by (simp add: validate_grants_verdict)
  then have covered: "covers_some (dvMatcher v) (Grants env) obs"
    and spare: "\<not> budget_spent (governing (dvMatcher v) (Grants env) obs) st"
    and session: "sessionConstraint env obs st = None"
    unfolding validate_grants_verdict by (auto split: if_splits)
  obtain i where i: "i < length (Grants env)"
    "governing (dvMatcher v) (Grants env) obs = \<lparr>meIndex = int i, meGrant = Grants env ! i\<rparr>"
    "grant_coverage (dvMatcher v) (Grants env ! i) obs = Covered"
    using grant_winner(2)[OF covered] by (auto simp: set_covering)
  obtain res where "r = grant_result env st res obs (covering (dvMatcher v) (Grants env) obs)"
    using r validate_observed_clear[OF clear] covered
    by (cases rule: validate_grants_cases[of v env obs st]) auto
  then have "vrMatchedGrant r = Some (Grants env ! i)" "vrMatchedGrantIndex r = int i"
    using grant_result_fields(2,3)[OF covered] i(2) by simp_all
  then show thesis using that observed(1,2) clear i(1,3) spare[unfolded i(2)] session by blast
qed (use assms in auto)

text \<open>C1: the verdict is the specification's. Whatever lists the code builds on the way, the verdict
  of \<open>Validate\<close> is: outside when the envelope has expired; indeterminate when the event cannot be
  read; denied when a denial covers the operation under any capability it exercised; indeterminate
  when such a denial cannot be decided; otherwise decided by the grants, the governing grant's own
  budget first and the session's budgets second; indeterminate when only an undecided grant is
  left; exceeded when the capability is granted elsewhere; and outside when it is not granted at
  all. It always returns one.\<close>

theorem validate_meets_its_specification:
  "\<exists>r. Validate v (Some env) (Some ev) st = Inr r \<and> vrVerdict r = verdict_spec v env ev st"
  using Validate_returns[of v env ev st] Validate_verdict by blast

text \<open>C3: a within-envelope verdict is earned. It is given only when the envelope is in force, the
  event was read, no denial covers the operation and none is undecided under any capability it
  exercised, and the grant the result names, at the index it names, really covers the observation,
  has budget left, and no session budget is spent.\<close>

theorem within_envelope_is_earned:
  assumes "Validate v (Some env) (Some ev) st = Inr r" and "vrVerdict r = VerdictWithinEnvelope"
  shows "\<not> past_expiry v env ev \<and>
    (\<exists>obs i. ObservationOf (Some ev) = Inr obs \<and> clear_of_denials (dvMatcher v) env ev obs \<and>
       i < length (Grants env) \<and> vrMatchedGrantIndex r = int i \<and>
       vrMatchedGrant r = Some (Grants env ! i) \<and>
       grant_coverage (dvMatcher v) (Grants env ! i) obs = Covered \<and>
       \<not> budget_spent \<lparr>meIndex = int i, meGrant = Grants env ! i\<rparr> st \<and>
       sessionConstraint env obs st = None)"
  using within_facts[OF assms] by metis

theorem within_envelope_is_earned_witness:
  "\<exists>i < length [plain_grant KindFileRead].
     grant_coverage (NewMatcher (=)) ([plain_grant KindFileRead] ! i)
       (evObservation (observed_event KindFileRead)) = Covered"
proof -
  let ?v = "\<lparr>dvMatcher = NewMatcher (=), dvNow = 1\<rparr>"
  let ?env = "zero_envelope\<lparr>Grants := [plain_grant KindFileRead]\<rparr>"
  obtain r where r: "Validate ?v (Some ?env) (Some (observed_event KindFileRead)) None = Inr r"
    using Validate_returns by blast
  have "verdict_spec ?v ?env (observed_event KindFileRead) None = VerdictWithinEnvelope"
    by (simp add: verdict_spec_def past_expiry_def zero_envelope_def covers_some_def leaves_open_def
        budget_spent_def sessionConstraint_def DomainOf_rows Let_def)
  then have "vrVerdict r = VerdictWithinEnvelope" using Validate_verdict[OF r] by simp
  from within_envelope_is_earned[OF r this] show ?thesis by (auto simp: zero_envelope_def)
qed

text \<open>C4: a denial that covers the operation denies it, whatever is granted. Under an envelope in
  force, when a denial covers the event under the capability it reports or under another one it
  exercised, the verdict is an explicit denial naming one of the envelope's denials and no grant,
  for every list of grants and every session state.\<close>

theorem denial_beats_any_grants:
  assumes "\<not> past_expiry v env ev" and "ObservationOf (Some ev) = Inr obs"
    and "alt \<in> set (exercised ev obs)" and "d \<in> set (Denials env)"
    and "grant_coverage (dvMatcher v) d alt = Covered"
  shows "\<exists>r. Validate v (Some (env\<lparr>Grants := gs\<rparr>)) (Some ev) st = Inr r \<and>
    vrVerdict r = VerdictExplicitlyDenied \<and> vrMatchedGrant r = None \<and>
    (\<exists>d'\<in>set (Denials env). vrMatchedDenial r = Some d')"
proof -
  have "\<not> past_expiry v (env\<lparr>Grants := gs\<rparr>) ev" using assms(1) by (simp add: past_expiry_def)
  moreover have "covers_some (dvMatcher v) (Denials (env\<lparr>Grants := gs\<rparr>)) alt"
    using assms(4,5) by (auto simp: covers_some_def)
  ultimately show ?thesis
    using denied_verdict[of v "env\<lparr>Grants := gs\<rparr>" ev obs alt st] assms(2,3) by simp
qed

theorem denial_beats_any_grants_witness:
  "\<exists>r. Validate \<lparr>dvMatcher = NewMatcher (=), dvNow = 1\<rparr>
      (Some (zero_envelope\<lparr>Denials := [plain_grant KindFileRead], Grants := [plain_grant KindFileRead]\<rparr>))
      (Some (observed_event KindFileRead)) None = Inr r \<and> vrVerdict r = VerdictExplicitlyDenied"
  using denial_beats_any_grants
    [of "\<lparr>dvMatcher = NewMatcher (=), dvNow = 1\<rparr>" "zero_envelope\<lparr>Denials := [plain_grant KindFileRead]\<rparr>"
        "observed_event KindFileRead" "evObservation (observed_event KindFileRead)"
        "evObservation (observed_event KindFileRead)" "plain_grant KindFileRead"
        "[plain_grant KindFileRead]" None]
  by (auto simp: past_expiry_def zero_envelope_def DomainOf_rows)

text \<open>Adding denials never admits anything. When an event is within an envelope, it is within
  every envelope with fewer denials, with the same result down to the matched grant and the
  reasoning.\<close>

theorem fewer_denials_keep_what_is_within:
  assumes "Validate v (Some (env\<lparr>Denials := ds\<rparr>)) (Some ev) st = Inr r"
    and "vrVerdict r = VerdictWithinEnvelope" and "set (Denials env) \<subseteq> set ds"
  shows "Validate v (Some env) (Some ev) st = Inr r"
  using assms by (rule Validate_fewer_denials)

theorem fewer_denials_keep_what_is_within_witness:
  "\<exists>r. Validate \<lparr>dvMatcher = NewMatcher (=), dvNow = 1\<rparr>
      (Some (zero_envelope\<lparr>Grants := [plain_grant KindFileRead]\<rparr>))
      (Some (observed_event KindFileRead)) None = Inr r \<and> vrVerdict r = VerdictWithinEnvelope"
proof -
  let ?v = "\<lparr>dvMatcher = NewMatcher (=), dvNow = 1\<rparr>"
  let ?env = "zero_envelope\<lparr>Grants := [plain_grant KindFileRead]\<rparr>"
  let ?ds = "[plain_grant KindFileWrite]"
  obtain r where r: "Validate ?v (Some (?env\<lparr>Denials := ?ds\<rparr>)) (Some (observed_event KindFileRead)) None = Inr r"
    using Validate_returns by blast
  have "verdict_spec ?v (?env\<lparr>Denials := ?ds\<rparr>) (observed_event KindFileRead) None = VerdictWithinEnvelope"
    by (simp add: verdict_spec_def past_expiry_def zero_envelope_def covers_some_def leaves_open_def
        budget_spent_def sessionConstraint_def DomainOf_rows Let_def)
  then have within: "vrVerdict r = VerdictWithinEnvelope" using Validate_verdict[OF r] by simp
  have "set (Denials ?env) \<subseteq> set ?ds" by (simp add: zero_envelope_def)
  from fewer_denials_keep_what_is_within[OF r within this] within show ?thesis by blast
qed

text \<open>C19: a denial of reading is not stepped around by opening for reading and writing. An open
  with access mode read-write is denied by a denial of reads that covers its target, although the
  event is labelled a write and no denial of writes exists.\<close>

theorem read_write_open_meets_read_denials:
  assumes "\<not> past_expiry v env ev" and "ObservationOf (Some ev) = Inr obs"
    and "evFile ev = Some f" and "Flags f AND 3 = 2"
    and "evCapability ev = KindFileWrite" and "obsKind obs = KindFileWrite"
    and "d \<in> set (Denials env)" and "grantKind d = KindFileRead"
    and "grant_coverage (dvMatcher v) d (obs\<lparr>obsKind := KindFileRead\<rparr>) = Covered"
  shows "\<exists>r. Validate v (Some env) (Some ev) st = Inr r \<and> vrVerdict r = VerdictExplicitlyDenied"
proof -
  have "set [KindFileRead, KindFileWrite] \<subseteq> set (ExercisedKinds (Some f))"
    using assms(4) by (auto simp: ExercisedKinds_cases)
  then have "obs\<lparr>obsKind := KindFileRead\<rparr> \<in> set (exercised ev obs)"
    using exercised_open[OF assms(3), of KindFileRead obs] assms(5,6) by simp
  moreover have "covers_some (dvMatcher v) (Denials env) (obs\<lparr>obsKind := KindFileRead\<rparr>)"
    using assms(7,9) by (auto simp: covers_some_def)
  ultimately show ?thesis using denied_verdict assms(1,2) by blast
qed

theorem read_write_open_meets_read_denials_witness:
  "\<exists>r. Validate \<lparr>dvMatcher = NewMatcher (=), dvNow = 1\<rparr>
      (Some (zero_envelope\<lparr>Denials := [plain_grant KindFileRead], Grants := [plain_grant KindFileWrite]\<rparr>))
      (Some ((observed_event KindFileWrite)\<lparr>evFile := Some (zero_file\<lparr>Flags := 2\<rparr>)\<rparr>)) None = Inr r \<and>
     vrVerdict r = VerdictExplicitlyDenied"
proof (rule read_write_open_meets_read_denials
    [where d = "plain_grant KindFileRead" and f = "zero_file\<lparr>Flags := 2\<rparr>"])
  let ?ev = "(observed_event KindFileWrite)\<lparr>evFile := Some (zero_file\<lparr>Flags := 2\<rparr>)\<rparr>"
  show "ObservationOf (Some ?ev) = Inr (evObservation ?ev)"
    by (simp add: ObservationOf_def observed_event_def)
qed (simp_all add: past_expiry_def zero_envelope_def observed_event_def
    plain_grant_coverage DomainOf_rows plain_grant_def[THEN arg_cong[of _ _ grantKind]])

text \<open>A result says why. A verdict is within the envelope exactly when the result carries no
  violation, and every violation carries a severity at least medium, at least its type's floor and
  at least the baseline severity of its capability.\<close>

theorem departures_are_explained_and_rated:
  assumes "Validate v (Some env) (Some ev) st = Inr r"
  shows "(vrViolations r = [] \<longleftrightarrow> vrVerdict r = VerdictWithinEnvelope) \<and>
    list_all well_rated (vrViolations r)"
  using Validate_within[OF assms] Validate_rated[OF assms] severityFor_well_rated
  by (auto simp: rated_def list_all_iff)

theorem departures_are_explained_and_rated_witness:
  "\<exists>r. Validate \<lparr>dvMatcher = NewMatcher (=), dvNow = 1\<rparr> (Some zero_envelope)
      (Some (observed_event KindFileRead)) None = Inr r \<and> list_all well_rated (vrViolations r)"
  using Validate_returns[of "\<lparr>dvMatcher = NewMatcher (=), dvNow = 1\<rparr>" zero_envelope
      "observed_event KindFileRead" None]
    departures_are_explained_and_rated[of "\<lparr>dvMatcher = NewMatcher (=), dvNow = 1\<rparr>" zero_envelope
      "observed_event KindFileRead" None] by blast

end
