(* ===== verification/Policy.thy ===== *)
theory Policy
  imports Validate GoText
begin

text \<open>
  The policy engine (\<open>internal/policy/policy.go\<close> and \<open>evaluate.go\<close>): rules in priority order, the
  first enabled one whose conditions hold decides the action, and the default posture decides when
  none does. The engine's atomic pointer to its active rule set is the state an operation returns.
\<close>

section \<open>Risk assessments\<close>

text \<open>From \<open>pkg/decision/decision.go\<close>.\<close>

datatype level = LevelNone | LevelLow | LevelMedium | LevelHigh | LevelCritical | LevelUnscored
  | LevelOther string

primrec level_string :: "level \<Rightarrow> string" where
  "level_string LevelNone = ''none''"
| "level_string LevelLow = ''low''"
| "level_string LevelMedium = ''medium''"
| "level_string LevelHigh = ''high''"
| "level_string LevelCritical = ''critical''"
| "level_string LevelUnscored = ''unscored''"
| "level_string (LevelOther s) = s"

definition AllLevels :: "level list" where
  "AllLevels = [LevelNone, LevelLow, LevelMedium, LevelHigh, LevelCritical]"

definition ValidLevel :: "level \<Rightarrow> bool" where
  "ValidLevel l = list_ex (\<lambda>known. known = l) AllLevels"

text \<open>
  The evidence of a factor is a Go map with string values: an association list with distinct keys
  here, its values kept as messages.
\<close>

record factor =
  facName :: string
  facWeight :: float64
  facDescription :: string
  facEvidence :: "(string \<times> msg) list"

record risk_assessment =
  raScore :: float64
  raLevel :: level
  raFactors :: "factor list"
  raConfidence :: float64

section \<open>Rules\<close>

datatype mode = ModeMonitor | ModeWarn | ModeInteractive | ModeEnforce | ModeOther string

primrec mode_string :: "mode \<Rightarrow> string" where
  "mode_string ModeMonitor = ''monitor''"
| "mode_string ModeWarn = ''warn''"
| "mode_string ModeInteractive = ''interactive''"
| "mode_string ModeEnforce = ''enforce''"
| "mode_string (ModeOther s) = s"

record condition =
  cVerdicts :: "verdict list"
  cCapabilities :: "kind list"
  cDomains :: "domain list"
  cViolationTypes :: "violation_type list"
  cMinRiskScore :: "float64 option"
  cMaxRiskScore :: "float64 option"
  cRiskLevels :: "level list"
  cPathPatterns :: "string list"
  cHosts :: "string list"
  cMinConfidence :: "float64 option"
  cTaskTypes :: "string list"

record rule =
  rID :: string
  rDescription :: string
  rPriority :: int
  rMatch :: condition
  rAction :: action
  rTerminal :: bool
  rModes :: "mode list"
  rEnabled :: bool

record rule_set =
  rsName :: string
  rsVersion :: string
  rsDescription :: string
  rsDefaultAction :: action
  rsRules :: "rule list"

record evaluate_request =
  rqEvent :: "event option"
  rqValidation :: "validation option"
  rqRisk :: "risk_assessment option"
  rqEnvelope :: "envelope option"
  rqMode :: mode

record policy_outcome =
  ocAction :: action
  ocRuleID :: string
  ocReasoning :: "reasoning_step list"
  ocTerminal :: bool

text \<open>The compiled rule set an engine points to.\<close>

record rule_engine =
  activeRules :: "rule list"
  activeDefault :: action

definition DefaultRuleID :: string where "DefaultRuleID = ''default''"

section \<open>Compiling\<close>

fun validAction :: "action \<Rightarrow> bool" where
  "validAction (ActionOther s) = False"
| "validAction a = True"

fun validMode :: "mode \<Rightarrow> bool" where
  "validMode (ModeOther s) = False"
| "validMode m = True"

definition validateRule :: "rule \<Rightarrow> go_error" where
  "validateRule r =
     (if is_blank (rID r) then
        Some (Fmt ''policy: rule at priority %d has no id'' [AInt (rPriority r)])
      else if \<not> validAction (rAction r) then
        Some (Fmt ''policy: rule %q has action %q, want one of allow, warn, request_approval, block''
          [AStr (rID r), AStr (action_string (rAction r))])
      else
        (case find (\<lambda>m. \<not> validMode m) (rModes r) of
           Some m \<Rightarrow> Some (Fmt ''policy: rule %q names unknown mode %q''
             [AStr (rID r), AStr (mode_string m)])
         | None \<Rightarrow> None))"

definition evaluationOrder :: "rule list \<Rightarrow> rule list" where
  "evaluationOrder rules = sort_key (\<lambda>r. - rPriority r) rules"

fun check_rules :: "string set \<Rightarrow> rule list \<Rightarrow> go_error" where
  "check_rules seen [] = None"
| "check_rules seen (r # rs) =
     (case validateRule r of
        Some err \<Rightarrow> Some err
      | None \<Rightarrow>
          (if rID r \<in> seen then Some (Fmt ''policy: duplicate rule id %q'' [AStr (rID r)])
           else check_rules (insert (rID r) seen) rs))"

definition compile :: "rule list \<Rightarrow> action \<Rightarrow> msg + rule_engine" where
  "compile rules default_action =
     (if \<not> validAction default_action then
        Inl (Fmt ''policy: default action %q is not one of allow, warn, request_approval, block''
          [AStr (action_string default_action)])
      else
        (case check_rules {} rules of
           Some err \<Rightarrow> Inl err
         | None \<Rightarrow> Inr \<lparr>activeRules = evaluationOrder rules, activeDefault = default_action\<rparr>))"

definition NewEngine :: "rule_set option \<Rightarrow> msg + rule_engine" where
  "NewEngine rs =
     (case rs of
        None \<Rightarrow> Inl (Fmt ''policy: rule set is required'' [])
      | Some rs \<Rightarrow> compile (rsRules rs) (rsDefaultAction rs))"

text \<open>Reloading answers with an error and the engine as it is afterwards.\<close>

definition Reload :: "rule_engine \<Rightarrow> rule list \<Rightarrow> go_error \<times> rule_engine" where
  "Reload e rules =
     (case compile rules (activeDefault e) of
        Inl err \<Rightarrow> (Some err, e)
      | Inr snapshot \<Rightarrow> (None, snapshot))"

definition ReloadSet :: "rule_engine \<Rightarrow> rule_set option \<Rightarrow> go_error \<times> rule_engine" where
  "ReloadSet e rs =
     (case rs of
        None \<Rightarrow> (Some (Fmt ''policy: rule set is required'' []), e)
      | Some rs \<Rightarrow>
          (case compile (rsRules rs) (rsDefaultAction rs) of
             Inl err \<Rightarrow> (Some err, e)
           | Inr snapshot \<Rightarrow> (None, snapshot)))"

definition engineRules :: "rule_engine \<Rightarrow> rule list" where
  "engineRules e = activeRules e"

definition engineDefaultAction :: "rule_engine \<Rightarrow> action" where
  "engineDefaultAction e = activeDefault e"

section \<open>Matching a condition\<close>

definition modeApplies :: "rule \<Rightarrow> mode \<Rightarrow> bool" where
  "modeApplies r m = (if rModes r = [] then True else list_ex (\<lambda>x. x = m) (rModes r))"

definition eventKind :: "evaluate_request \<Rightarrow> kind option" where
  "eventKind req =
     (case rqEvent req of
        None \<Rightarrow> None
      | Some e \<Rightarrow> if kind_string (evCapability e) = [] then None else Some (evCapability e))"

text \<open>\<open>containsVerdict\<close>, \<open>containsKind\<close>, \<open>containsDomain\<close>, \<open>containsLevel\<close> and
  \<open>containsString\<close> are one function at five types.\<close>

definition contains :: "'a list \<Rightarrow> 'a \<Rightarrow> bool" where
  "contains haystack needle = list_ex (\<lambda>v. v = needle) haystack"

definition hasViolation :: "violation list \<Rightarrow> violation_type list \<Rightarrow> bool" where
  "hasViolation violations want =
     list_ex (\<lambda>v. list_ex (\<lambda>w. vType v = w) want) violations"

definition riskMatches :: "condition \<Rightarrow> risk_assessment option \<Rightarrow> bool" where
  "riskMatches c risk =
     (if cMinRiskScore c = None \<and> cMaxRiskScore c = None \<and> cMinConfidence c = None
          \<and> cRiskLevels c = [] then True
      else
        (case risk of
           None \<Rightarrow> False
         | Some risk \<Rightarrow>
             (if (case cMinRiskScore c of None \<Rightarrow> False | Some m \<Rightarrow> float_less (raScore risk) m)
              then False
              else if (case cMaxRiskScore c of None \<Rightarrow> False | Some m \<Rightarrow> float_geq (raScore risk) m)
              then False
              else if (case cMinConfidence c of None \<Rightarrow> False | Some m \<Rightarrow> float_less (raConfidence risk) m)
              then False
              else if cRiskLevels c \<noteq> [] \<and> \<not> contains (cRiskLevels c) (raLevel risk) then False
              else True)))"

definition anyPathMatches :: "string list \<Rightarrow> string \<Rightarrow> bool" where
  "anyPathMatches patterns target = list_ex (\<lambda>p. MatchPath p target) patterns"

definition anyHostMatches :: "string list \<Rightarrow> string \<Rightarrow> string \<Rightarrow> bool" where
  "anyHostMatches patterns host address =
     list_ex (\<lambda>p. host \<noteq> [] \<and> MatchHost p host \<or>
       address \<noteq> [] \<and> address \<noteq> host \<and> MatchHost p address) patterns"

definition hostOf :: "string \<Rightarrow> string" where
  "hostOf target =
     (if target = [] then []
      else (case SplitHostPort target of None \<Rightarrow> target | Some (h, _) \<Rightarrow> h))"

definition targetMatches :: "condition \<Rightarrow> evaluate_request \<Rightarrow> bool" where
  "targetMatches c req =
     (case rqEvent req of
        None \<Rightarrow> False
      | Some e \<Rightarrow>
          (case ObservationOf (Some e) of
             Inl err \<Rightarrow> False
           | Inr obs \<Rightarrow>
               (if cPathPatterns c \<noteq> [] \<and> \<not> anyPathMatches (cPathPatterns c) (obsTarget obs)
                then False
                else if cHosts c \<noteq> [] \<and>
                  \<not> anyHostMatches (cHosts c) (hostOf (obsTarget obs)) (attr obs AttrDestIP)
                then False
                else True)))"

text \<open>The capability and domain part of \<open>matches\<close>, and the whole.\<close>

definition kindMatches :: "condition \<Rightarrow> evaluate_request \<Rightarrow> bool" where
  "kindMatches c req =
     (if cCapabilities c \<noteq> [] \<or> cDomains c \<noteq> [] then
        (case eventKind req of
           None \<Rightarrow> False
         | Some k \<Rightarrow>
             (if cCapabilities c \<noteq> [] \<and> \<not> contains (cCapabilities c) k then False
              else if cDomains c \<noteq> [] then
                (case DomainOf k of None \<Rightarrow> False | Some d \<Rightarrow> contains (cDomains c) d)
              else True))
      else True)"

definition matches :: "condition \<Rightarrow> evaluate_request \<Rightarrow> validation \<Rightarrow> bool" where
  "matches c req val =
     (if cVerdicts c \<noteq> [] \<and> \<not> contains (cVerdicts c) (vrVerdict val) then False
      else if \<not> kindMatches c req then False
      else if cViolationTypes c \<noteq> [] \<and> \<not> hasViolation (vrViolations val) (cViolationTypes c) then False
      else if \<not> riskMatches c (rqRisk req) then False
      else if (cPathPatterns c \<noteq> [] \<or> cHosts c \<noteq> []) \<and> \<not> targetMatches c req then False
      else if cTaskTypes c \<noteq> [] then
        (case rqEnvelope req of
           None \<Rightarrow> False
         | Some env \<Rightarrow> contains (cTaskTypes c) (inTaskType (envIntent env)))
      else True)"

section \<open>Evaluating\<close>

text \<open>The text of a request is the concatenation of its parts.\<close>

definition describeRequest :: "evaluate_request \<Rightarrow> validation \<Rightarrow> msg" where
  "describeRequest req val =
     Fmt ''concatenation''
       ([AMsg (Fmt ''verdict %s'' [AStr (verdict_string (vrVerdict val))])] @
        (case eventKind req of None \<Rightarrow> []
         | Some k \<Rightarrow> [AMsg (Fmt '', capability %s'' [AStr (kind_string k)])]) @
        (case rqRisk req of
           Some risk \<Rightarrow> [AMsg (Fmt '', risk %.0f (%s)'' [AFloat (raScore risk), AStr (level_string (raLevel risk))])]
         | None \<Rightarrow> [AMsg (lit '', risk not scored'')]) @
        (if mode_string (rqMode req) \<noteq> [] then
           [AMsg (Fmt '', mode %s'' [AStr (mode_string (rqMode req))])] else []))"

definition describeMatch :: "rule \<Rightarrow> evaluate_request \<Rightarrow> validation \<Rightarrow> msg" where
  "describeMatch r req val =
     (if rTerminal r then
        Fmt ''%s; rule is terminal: the session ends after this action'' [AMsg (describeRequest req val)]
      else describeRequest req val)"

definition rule_outcome :: "rule \<Rightarrow> evaluate_request \<Rightarrow> validation \<Rightarrow> policy_outcome" where
  "rule_outcome r req val =
     \<lparr>ocAction = rAction r, ocRuleID = rID r,
      ocReasoning = [\<lparr>rsStage = ''policy'',
        rsConclusion = Fmt ''rule %q matched, action %s'' [AStr (rID r), AStr (action_string (rAction r))],
        rsDetail = describeMatch r req val\<rparr>],
      ocTerminal = rTerminal r\<rparr>"

definition default_outcome :: "rule_engine \<Rightarrow> evaluate_request \<Rightarrow> validation \<Rightarrow> policy_outcome" where
  "default_outcome e req val =
     \<lparr>ocAction = activeDefault e, ocRuleID = DefaultRuleID,
      ocReasoning = [\<lparr>rsStage = ''policy'',
        rsConclusion = Fmt ''no rule matched, default action %s'' [AStr (action_string (activeDefault e))],
        rsDetail = describeRequest req val\<rparr>],
      ocTerminal = False\<rparr>"

fun evaluate_rules ::
  "rule_engine \<Rightarrow> evaluate_request \<Rightarrow> validation \<Rightarrow> rule list \<Rightarrow> policy_outcome" where
  "evaluate_rules e req val [] = default_outcome e req val"
| "evaluate_rules e req val (r # rs) =
     (if \<not> rEnabled r \<or> \<not> modeApplies r (rqMode req) then evaluate_rules e req val rs
      else if \<not> matches (rMatch r) req val then evaluate_rules e req val rs
      else rule_outcome r req val)"

definition Evaluate :: "rule_engine \<Rightarrow> evaluate_request \<Rightarrow> msg + policy_outcome" where
  "Evaluate e req =
     (case rqValidation req of
        None \<Rightarrow> Inl (Fmt ''policy: validation result is required'' [])
      | Some val \<Rightarrow> Inr (evaluate_rules e req val (activeRules e)))"

section \<open>What compiling accepts\<close>

lemma contains_iff [simp]: "contains xs x \<longleftrightarrow> x \<in> set xs"
  by (auto simp: contains_def list_ex_iff)

lemma check_rules_None:
  "check_rules seen rs = None \<longleftrightarrow>
     (\<forall>r\<in>set rs. validateRule r = None \<and> rID r \<notin> seen) \<and> distinct (map rID rs)"
proof (induction seen rs rule: check_rules.induct)
  case (2 seen r rs)
  show ?case
  proof (cases "validateRule r = None \<and> rID r \<notin> seen")
    case True
    then have code: "check_rules seen (r # rs) = check_rules (insert (rID r) seen) rs" by simp
    have ids: "distinct (map rID (r # rs)) \<longleftrightarrow> (\<forall>x\<in>set rs. rID x \<noteq> rID r) \<and> distinct (map rID rs)"
      by (auto simp: image_iff dest: sym)
    have "check_rules (insert (rID r) seen) rs = None \<longleftrightarrow>
        (\<forall>x\<in>set rs. validateRule x = None \<and> rID x \<notin> insert (rID r) seen) \<and> distinct (map rID rs)"
      by (rule 2) (use True in simp_all)
    then show ?thesis unfolding code ids using True by auto
  next
    case False
    then show ?thesis by (cases "validateRule r") auto
  qed
qed simp

definition rules_ok :: "rule list \<Rightarrow> bool" where
  "rules_ok rs \<longleftrightarrow> (\<forall>r\<in>set rs. validateRule r = None) \<and> distinct (map rID rs)"

lemma compile_Inr:
  "compile rs d = Inr e \<longleftrightarrow>
     validAction d \<and> rules_ok rs \<and> e = \<lparr>activeRules = evaluationOrder rs, activeDefault = d\<rparr>"
  using check_rules_None[of "{}" rs]
  by (auto simp: compile_def rules_ok_def split: option.splits)

lemma set_evaluationOrder [simp]: "set (evaluationOrder rs) = set rs"
  by (simp add: evaluationOrder_def)

lemma mset_evaluationOrder: "mset (evaluationOrder rs) = mset rs"
  by (simp add: evaluationOrder_def)

lemma sorted_evaluationOrder: "sorted (map (\<lambda>r. - rPriority r) (evaluationOrder rs))"
  by (simp add: evaluationOrder_def)

lemma rules_ok_evaluationOrder: "rules_ok (evaluationOrder rs) \<longleftrightarrow> rules_ok rs"
proof -
  have "mset (map rID (evaluationOrder rs)) = mset (map rID rs)"
    by (simp add: mset_evaluationOrder)
  then have "distinct (map rID (evaluationOrder rs)) = distinct (map rID rs)"
    by (rule mset_eq_imp_distinct_iff)
  then show ?thesis by (simp only: rules_ok_def set_evaluationOrder)
qed

lemma stable_evaluationOrder:
  "filter (\<lambda>r. rPriority r = p) (evaluationOrder rs) = filter (\<lambda>r. rPriority r = p) rs"
  using sort_key_stable[of "\<lambda>r. - rPriority r" "- p" rs] by (simp add: evaluationOrder_def)

section \<open>The rule that decides\<close>

definition applicable :: "evaluate_request \<Rightarrow> validation \<Rightarrow> rule \<Rightarrow> bool" where
  "applicable req val r \<longleftrightarrow> rEnabled r \<and> modeApplies r (rqMode req) \<and> matches (rMatch r) req val"

lemma evaluate_rules_find:
  "evaluate_rules e req val rs =
     (case find (applicable req val) rs of
        Some r \<Rightarrow> rule_outcome r req val | None \<Rightarrow> default_outcome e req val)"
  by (induction rs) (auto simp: applicable_def)

lemma find_conj_filter: "find (\<lambda>x. P x \<and> Q x) xs = find P (filter Q xs)"
  by (induction xs) auto

lemma find_evaluationOrder:
  assumes "find P (evaluationOrder rs) = Some r"
  shows "find (\<lambda>r'. P r' \<and> rPriority r' = rPriority r) rs = Some r"
    and "r' \<in> set rs \<Longrightarrow> P r' \<Longrightarrow> rPriority r' \<le> rPriority r"
proof -
  obtain us vs where split: "evaluationOrder rs = us @ r # vs" "\<forall>u\<in>set us. \<not> P u" "P r"
    using assms by (auto simp: find_split)
  have "find P (filter (\<lambda>r'. rPriority r' = rPriority r) (evaluationOrder rs)) = Some r"
    using split(2,3) by (auto simp: split(1) find_append_first find_None_iff split: option.splits)
  then show "find (\<lambda>r'. P r' \<and> rPriority r' = rPriority r) rs = Some r"
    by (simp add: find_conj_filter stable_evaluationOrder)
  show "rPriority r' \<le> rPriority r" if "r' \<in> set rs" "P r'"
  proof -
    have "r' \<in> set (r # vs)" using that split by (metis Un_iff set_append set_evaluationOrder)
    then show ?thesis
      using sorted_evaluationOrder[of rs] by (auto simp: split(1) sorted_append)
  qed
qed

lemma find_applicable_None:
  "find P (evaluationOrder rs) = None \<longleftrightarrow> (\<forall>r\<in>set rs. \<not> P r)"
  by (auto simp: find_None_iff)

section \<open>Engines over time\<close>

text \<open>An engine is built from a rule set and then reloaded, with or without success.\<close>

inductive engine_reachable :: "rule_engine \<Rightarrow> bool" where
  built: "NewEngine (Some rs) = Inr e \<Longrightarrow> engine_reachable e"
| reloaded: "engine_reachable e \<Longrightarrow> engine_reachable (snd (Reload e rules))"
| replaced: "engine_reachable e \<Longrightarrow> engine_reachable (snd (ReloadSet e rs))"

definition engine_ok :: "rule_engine \<Rightarrow> bool" where
  "engine_ok e \<longleftrightarrow> validAction (activeDefault e) \<and> rules_ok (activeRules e) \<and>
     sorted (map (\<lambda>r. - rPriority r) (activeRules e))"

lemma compile_ok: "compile rs d = Inr e \<Longrightarrow> engine_ok e"
  by (simp add: compile_Inr engine_ok_def rules_ok_evaluationOrder sorted_evaluationOrder)

lemma engine_reachable_ok: "engine_reachable e \<Longrightarrow> engine_ok e"
  by (induction rule: engine_reachable.induct)
    (auto simp: NewEngine_def Reload_def ReloadSet_def intro: compile_ok split: sum.splits option.splits)

lemma valid_rule_action: "validateRule r = None \<Longrightarrow> validAction (rAction r)"
  by (auto simp: validateRule_def split: if_splits)

lemma rules_ok_unique: "rules_ok rs \<Longrightarrow> r \<in> set rs \<Longrightarrow> r' \<in> set rs \<Longrightarrow> rID r = rID r' \<Longrightarrow> r = r'"
  by (auto simp: rules_ok_def distinct_map dest: inj_onD)

section \<open>Wider and narrower conditions\<close>

text \<open>
  A field of a condition is widened by emptying it or, when it lists something, by listing more; a
  bound is widened by dropping it or by moving it outwards.
\<close>

definition wider_field :: "'a list \<Rightarrow> 'a list \<Rightarrow> bool" where
  "wider_field ys xs \<longleftrightarrow> ys = [] \<or> xs \<noteq> [] \<and> set xs \<subseteq> set ys"

definition lower_bound :: "float64 option \<Rightarrow> float64 option \<Rightarrow> bool" where
  "lower_bound b a \<longleftrightarrow> b = None \<or> b = a \<or> (\<exists>x y. a = Some x \<and> b = Some y \<and> float_less y x)"

definition higher_bound :: "float64 option \<Rightarrow> float64 option \<Rightarrow> bool" where
  "higher_bound b a \<longleftrightarrow> b = None \<or> b = a \<or> (\<exists>x y. a = Some x \<and> b = Some y \<and> float_less x y)"

definition wider :: "condition \<Rightarrow> condition \<Rightarrow> bool" where
  "wider d c \<longleftrightarrow>
     wider_field (cVerdicts d) (cVerdicts c) \<and> wider_field (cCapabilities d) (cCapabilities c) \<and>
     wider_field (cDomains d) (cDomains c) \<and> wider_field (cViolationTypes d) (cViolationTypes c) \<and>
     lower_bound (cMinRiskScore d) (cMinRiskScore c) \<and>
     higher_bound (cMaxRiskScore d) (cMaxRiskScore c) \<and>
     wider_field (cRiskLevels d) (cRiskLevels c) \<and>
     wider_field (cPathPatterns d) (cPathPatterns c) \<and> wider_field (cHosts d) (cHosts c) \<and>
     lower_bound (cMinConfidence d) (cMinConfidence c) \<and> wider_field (cTaskTypes d) (cTaskTypes c)"

lemma float_geq_trans: "float_geq x z \<Longrightarrow> float_less y z \<Longrightarrow> float_geq x y"
  using float_less_trans by (auto simp: float_geq_def)

lemma riskMatches_iff:
  "riskMatches c risk \<longleftrightarrow>
     (cMinRiskScore c = None \<and> cMaxRiskScore c = None \<and> cMinConfidence c = None \<and> cRiskLevels c = []) \<or>
     (\<exists>r. risk = Some r \<and>
        (\<forall>m. cMinRiskScore c = Some m \<longrightarrow> \<not> float_less (raScore r) m) \<and>
        (\<forall>m. cMaxRiskScore c = Some m \<longrightarrow> \<not> float_geq (raScore r) m) \<and>
        (\<forall>m. cMinConfidence c = Some m \<longrightarrow> \<not> float_less (raConfidence r) m) \<and>
        (cRiskLevels c \<noteq> [] \<longrightarrow> raLevel r \<in> set (cRiskLevels c)))"
  by (auto simp: riskMatches_def split: option.splits)

lemma wider_fieldD: "wider_field ys xs \<Longrightarrow> xs \<noteq> [] \<longrightarrow> x \<in> set xs \<Longrightarrow> ys \<noteq> [] \<longrightarrow> x \<in> set ys"
  by (auto simp: wider_field_def)

lemma wider_fieldD2:
  "wider_field ys xs \<Longrightarrow> xs \<noteq> [] \<longrightarrow> (\<exists>a. P a \<and> f a \<in> set xs) \<Longrightarrow> ys \<noteq> [] \<longrightarrow> (\<exists>a. P a \<and> f a \<in> set ys)"
  by (auto simp: wider_field_def)

lemma wider_fieldD3:
  "wider_field ys xs \<Longrightarrow> xs \<noteq> [] \<longrightarrow> (\<exists>p\<in>set xs. Q p) \<Longrightarrow> ys \<noteq> [] \<longrightarrow> (\<exists>p\<in>set ys. Q p)"
  by (auto simp: wider_field_def)

lemma lower_boundD:
  "lower_bound b a \<Longrightarrow> \<forall>m. a = Some m \<longrightarrow> \<not> float_less x m \<Longrightarrow> \<forall>m. b = Some m \<longrightarrow> \<not> float_less x m"
  using float_less_trans[of x] by (auto simp: lower_bound_def)

lemma higher_boundD:
  "higher_bound b a \<Longrightarrow> \<forall>m. a = Some m \<longrightarrow> \<not> float_geq x m \<Longrightarrow> \<forall>m. b = Some m \<longrightarrow> \<not> float_geq x m"
  using float_geq_trans[of x] by (auto simp: higher_bound_def)

lemma riskMatches_wider:
  assumes w: "wider d c" and m: "riskMatches c risk"
  shows "riskMatches d risk"
proof (cases "cMinRiskScore c = None \<and> cMaxRiskScore c = None \<and> cMinConfidence c = None \<and> cRiskLevels c = []")
  case True
  then have "cMinRiskScore d = None \<and> cMaxRiskScore d = None \<and> cMinConfidence d = None \<and> cRiskLevels d = []"
    using w by (auto simp: wider_def lower_bound_def higher_bound_def wider_field_def)
  then show ?thesis by (simp add: riskMatches_iff)
next
  case False
  then obtain r where r: "risk = Some r"
    "\<forall>m. cMinRiskScore c = Some m \<longrightarrow> \<not> float_less (raScore r) m"
    "\<forall>m. cMaxRiskScore c = Some m \<longrightarrow> \<not> float_geq (raScore r) m"
    "\<forall>m. cMinConfidence c = Some m \<longrightarrow> \<not> float_less (raConfidence r) m"
    "cRiskLevels c \<noteq> [] \<longrightarrow> raLevel r \<in> set (cRiskLevels c)"
    using m unfolding riskMatches_iff by blast
  have "lower_bound (cMinRiskScore d) (cMinRiskScore c)" "higher_bound (cMaxRiskScore d) (cMaxRiskScore c)"
    "lower_bound (cMinConfidence d) (cMinConfidence c)" "wider_field (cRiskLevels d) (cRiskLevels c)"
    using w by (simp_all add: wider_def)
  note bounds = this(1)[THEN lower_boundD, OF r(2)] this(2)[THEN higher_boundD, OF r(3)]
    this(3)[THEN lower_boundD, OF r(4)] this(4)[THEN wider_fieldD, OF r(5)]
  show ?thesis unfolding riskMatches_iff using bounds r(1) by blast
qed

lemma kindMatches_iff:
  "kindMatches c req \<longleftrightarrow>
     (cCapabilities c \<noteq> [] \<longrightarrow> (\<exists>k. eventKind req = Some k \<and> k \<in> set (cCapabilities c))) \<and>
     (cDomains c \<noteq> [] \<longrightarrow> (\<exists>k d. eventKind req = Some k \<and> DomainOf k = Some d \<and> d \<in> set (cDomains c)))"
  by (auto simp: kindMatches_def split: option.splits)

lemma targetMatches_iff:
  "targetMatches c req \<longleftrightarrow> (\<exists>e obs. rqEvent req = Some e \<and> ObservationOf (Some e) = Inr obs \<and>
     (cPathPatterns c \<noteq> [] \<longrightarrow> (\<exists>p\<in>set (cPathPatterns c). MatchPath p (obsTarget obs))) \<and>
     (cHosts c \<noteq> [] \<longrightarrow> (\<exists>p\<in>set (cHosts c). anyHostMatches [p] (hostOf (obsTarget obs)) (attr obs AttrDestIP))))"
  by (auto simp: targetMatches_def anyPathMatches_def anyHostMatches_def list_ex_iff split: option.splits sum.splits)

lemma matches_iff:
  "matches c req val \<longleftrightarrow>
     (cVerdicts c \<noteq> [] \<longrightarrow> vrVerdict val \<in> set (cVerdicts c)) \<and> kindMatches c req \<and>
     (cViolationTypes c \<noteq> [] \<longrightarrow> (\<exists>v\<in>set (vrViolations val). vType v \<in> set (cViolationTypes c))) \<and>
     riskMatches c (rqRisk req) \<and>
     (cPathPatterns c \<noteq> [] \<or> cHosts c \<noteq> [] \<longrightarrow> targetMatches c req) \<and>
     (cTaskTypes c \<noteq> [] \<longrightarrow> (\<exists>env. rqEnvelope req = Some env \<and>
        inTaskType (envIntent env) \<in> set (cTaskTypes c)))"
  by (auto simp: matches_def hasViolation_def list_ex_iff split: option.splits)

lemma matches_wider:
  assumes w: "wider d c" and m: "matches c req val"
  shows "matches d req val"
proof -
  have fields: "wider_field (cVerdicts d) (cVerdicts c)" "wider_field (cCapabilities d) (cCapabilities c)"
    "wider_field (cDomains d) (cDomains c)" "wider_field (cViolationTypes d) (cViolationTypes c)"
    "wider_field (cPathPatterns d) (cPathPatterns c)" "wider_field (cHosts d) (cHosts c)"
    "wider_field (cTaskTypes d) (cTaskTypes c)"
    using w by (simp_all add: wider_def)
  have parts: "kindMatches c req" "riskMatches c (rqRisk req)"
    "cVerdicts c \<noteq> [] \<longrightarrow> vrVerdict val \<in> set (cVerdicts c)"
    "cViolationTypes c \<noteq> [] \<longrightarrow> (\<exists>v. v \<in> set (vrViolations val) \<and> vType v \<in> set (cViolationTypes c))"
    "cPathPatterns c \<noteq> [] \<or> cHosts c \<noteq> [] \<longrightarrow> targetMatches c req"
    "cTaskTypes c \<noteq> [] \<longrightarrow> (\<exists>env. rqEnvelope req = Some env \<and>
        inTaskType (envIntent env) \<in> set (cTaskTypes c))"
    using m unfolding matches_iff by blast+
  have "kindMatches d req"
    using parts(1) fields(2,3) unfolding kindMatches_iff wider_field_def by blast
  moreover have "targetMatches d req" if d: "cPathPatterns d \<noteq> [] \<or> cHosts d \<noteq> []"
  proof -
    have "cPathPatterns c \<noteq> [] \<or> cHosts c \<noteq> []"
      using d fields(5,6) by (auto simp: wider_field_def)
    then obtain e obs where obs: "rqEvent req = Some e" "ObservationOf (Some e) = Inr obs"
      "cPathPatterns c \<noteq> [] \<longrightarrow> (\<exists>p\<in>set (cPathPatterns c). MatchPath p (obsTarget obs))"
      "cHosts c \<noteq> [] \<longrightarrow> (\<exists>p\<in>set (cHosts c).
         anyHostMatches [p] (hostOf (obsTarget obs)) (attr obs AttrDestIP))"
      using parts(5) unfolding targetMatches_iff by blast
    show ?thesis unfolding targetMatches_iff
      using obs(1,2) wider_fieldD3[OF fields(5) obs(3)] wider_fieldD3[OF fields(6) obs(4)] by blast
  qed
  moreover have "riskMatches d (rqRisk req)" by (rule riskMatches_wider[OF w parts(2)])
  ultimately show ?thesis unfolding matches_iff
    using wider_fieldD[OF fields(1) parts(3)] wider_fieldD2[OF fields(4) parts(4)]
      wider_fieldD2[OF fields(7) parts(6)] by blast
qed

definition any_condition :: condition where
  "any_condition = \<lparr>cVerdicts = [], cCapabilities = [], cDomains = [], cViolationTypes = [],
     cMinRiskScore = None, cMaxRiskScore = None, cRiskLevels = [], cPathPatterns = [], cHosts = [],
     cMinConfidence = None, cTaskTypes = []\<rparr>"

text \<open>A rule without conditions, a set of two of them, a request; the examples use them.\<close>

definition plain_rule :: "string \<Rightarrow> int \<Rightarrow> action \<Rightarrow> rule" where
  "plain_rule i p a = \<lparr>rID = i, rDescription = [], rPriority = p, rMatch = any_condition,
     rAction = a, rTerminal = False, rModes = [], rEnabled = True\<rparr>"

definition two_rules :: rule_set where
  "two_rules = \<lparr>rsName = [], rsVersion = [], rsDescription = [], rsDefaultAction = ActionBlock,
     rsRules = [plain_rule ''low'' 1 ActionAllow, plain_rule ''high'' 2 ActionWarn]\<rparr>"

definition plain_request :: evaluate_request where
  "plain_request = \<lparr>rqEvent = None, rqValidation = Some empty_result, rqRisk = None,
     rqEnvelope = None, rqMode = ModeEnforce\<rparr>"

lemma two_rules_engine: "\<exists>e. NewEngine (Some two_rules) = Inr e"
proof -
  have "\<not> is_blank ''low''" "\<not> is_blank ''high''" by code_simp+
  then show ?thesis
    by (simp add: NewEngine_def compile_Inr two_rules_def plain_rule_def rules_ok_def validateRule_def)
qed

lemma any_condition_matches: "matches any_condition req val"
  by (simp add: matches_iff kindMatches_iff riskMatches_iff any_condition_def)

lemma plain_rule_applicable: "applicable req val (plain_rule i p a)"
  by (simp add: applicable_def plain_rule_def modeApplies_def any_condition_matches)

section \<open>Properties\<close>

text \<open>C7: the first rule in priority order decides. For an engine built from a rule set, the outcome
  is that of an enabled rule whose modes and conditions hold, such that every such rule has at most
  its priority and it is the first declared of its priority; when no rule holds, the outcome is the
  default posture, which ends no session.\<close>

theorem first_matching_rule_decides:
  assumes "NewEngine (Some rs) = Inr e" and "rqValidation req = Some val"
  shows "\<exists>out. Evaluate e req = Inr out \<and>
    ((\<exists>r. find (\<lambda>r'. applicable req val r' \<and> rPriority r' = rPriority r) (rsRules rs) = Some r \<and>
        (\<forall>r'\<in>set (rsRules rs). applicable req val r' \<longrightarrow> rPriority r' \<le> rPriority r) \<and>
        ocAction out = rAction r \<and> ocRuleID out = rID r \<and> ocTerminal out = rTerminal r) \<or>
     (\<forall>r\<in>set (rsRules rs). \<not> applicable req val r) \<and>
        ocAction out = rsDefaultAction rs \<and> ocRuleID out = DefaultRuleID \<and> \<not> ocTerminal out)"
proof -
  have e: "e = \<lparr>activeRules = evaluationOrder (rsRules rs), activeDefault = rsDefaultAction rs\<rparr>"
    using assms(1) by (simp add: NewEngine_def compile_Inr)
  show ?thesis
  proof (cases "find (applicable req val) (evaluationOrder (rsRules rs))")
    case None
    then have "Evaluate e req = Inr (default_outcome e req val)"
      using assms(2) by (simp add: Evaluate_def evaluate_rules_find e)
    then show ?thesis using None find_applicable_None by (auto simp: default_outcome_def e)
  next
    case (Some r)
    then have "Evaluate e req = Inr (rule_outcome r req val)"
      using assms(2) by (simp add: Evaluate_def evaluate_rules_find e)
    then show ?thesis using find_evaluationOrder[OF Some] by (auto simp: rule_outcome_def)
  qed
qed

theorem first_matching_rule_decides_witness:
  "\<exists>e out. NewEngine (Some two_rules) = Inr e \<and> Evaluate e plain_request = Inr out \<and>
     ocRuleID out = ''high''"
proof -
  obtain e where e: "NewEngine (Some two_rules) = Inr e" using two_rules_engine by blast
  have req: "rqValidation plain_request = Some empty_result" by (simp add: plain_request_def)
  let ?rs = "[plain_rule ''low'' 1 ActionAllow, plain_rule ''high'' 2 ActionWarn]"
  have rs: "rsRules two_rules = ?rs" by (simp add: two_rules_def)
  have prio: "rPriority (plain_rule i p a) = p" "rID (plain_rule i p a) = i" for i p a
    by (simp_all add: plain_rule_def)
  show ?thesis
    using first_matching_rule_decides[OF e req] e
    by (auto simp: rs prio plain_rule_applicable split: if_splits)
qed

text \<open>Whatever reloads an engine has been through, accepted or refused, its action is one of the
  four, and the rule id of its outcome names the rule that fired: a rule of the active set whose
  conditions hold, the only one with that id, or the default.\<close>

theorem outcomes_name_their_rule:
  assumes "engine_reachable e" and "Evaluate e req = Inr out"
  shows "validAction (ocAction out) \<and>
    ((\<exists>!r. r \<in> set (engineRules e) \<and> rID r = ocRuleID out) \<and>
       (\<exists>r\<in>set (engineRules e). rID r = ocRuleID out \<and> rEnabled r \<and> ocAction out = rAction r) \<or>
     ocRuleID out = DefaultRuleID \<and> ocAction out = engineDefaultAction e)"
proof -
  have ok: "engine_ok e" using assms(1) by (rule engine_reachable_ok)
  obtain val where request: "rqValidation req = Some val"
    using assms(2) by (cases "rqValidation req") (simp_all add: Evaluate_def)
  then have val: "out = (case find (applicable req val) (activeRules e) of
      Some r \<Rightarrow> rule_outcome r req val | None \<Rightarrow> default_outcome e req val)"
    using assms(2) by (simp add: Evaluate_def evaluate_rules_find)
  show ?thesis
  proof (cases "find (applicable req val) (activeRules e)")
    case None
    then show ?thesis using val ok
      by (simp add: default_outcome_def engine_ok_def engineDefaultAction_def)
  next
    case (Some r)
    then have r: "r \<in> set (activeRules e)" "applicable req val r" using find_SomeD by fastforce+
    have rules: "rules_ok (activeRules e)" using ok by (simp add: engine_ok_def)
    then have "validateRule r = None" using r(1) by (simp add: rules_ok_def)
    moreover have "\<exists>!r'. r' \<in> set (activeRules e) \<and> rID r' = rID r"
      using r(1) rules_ok_unique[OF rules] by blast
    ultimately show ?thesis using val Some r valid_rule_action
      by (auto simp: rule_outcome_def engineRules_def applicable_def)
  qed
qed

theorem outcomes_name_their_rule_witness:
  "\<exists>e out. engine_reachable e \<and> Evaluate e plain_request = Inr out \<and> validAction (ocAction out)"
proof -
  obtain e where e: "NewEngine (Some two_rules) = Inr e" using two_rules_engine by blast
  obtain out where out: "Evaluate e plain_request = Inr out"
    by (simp add: Evaluate_def plain_request_def)
  show ?thesis using outcomes_name_their_rule[OF built[OF e] out] built[OF e] out by blast
qed

text \<open>A reload is all or nothing. When it reports an error the engine is the one it was; when it
  does not, the active rules are the new ones, each once, in non-increasing priority, and the
  default action is unchanged.\<close>

theorem reload_is_all_or_nothing:
  assumes "Reload e rules = (err, e')"
  shows "if err \<noteq> None then e' = e
    else activeDefault e' = activeDefault e \<and> mset (engineRules e') = mset rules \<and>
      distinct (map rID (engineRules e')) \<and>
      sorted (map (\<lambda>r. - rPriority r) (engineRules e'))"
  using assms compile_Inr[of rules "activeDefault e"] rules_ok_evaluationOrder[of rules]
  by (auto simp: Reload_def engineRules_def mset_evaluationOrder sorted_evaluationOrder rules_ok_def
      split: sum.splits)

theorem reload_is_all_or_nothing_witness:
  "snd (Reload \<lparr>activeRules = [], activeDefault = ActionBlock\<rparr> [plain_rule [] 1 ActionAllow]) =
     \<lparr>activeRules = [], activeDefault = ActionBlock\<rparr>"
proof -
  let ?e = "\<lparr>activeRules = [], activeDefault = ActionBlock\<rparr>"
  have "is_blank []" by code_simp
  then have "fst (Reload ?e [plain_rule [] 1 ActionAllow]) \<noteq> None"
    by (simp add: Reload_def compile_def validateRule_def plain_rule_def)
  moreover have "Reload ?e [plain_rule [] 1 ActionAllow] =
      (fst (Reload ?e [plain_rule [] 1 ActionAllow]), snd (Reload ?e [plain_rule [] 1 ActionAllow]))"
    by simp
  ultimately show ?thesis using reload_is_all_or_nothing by (metis (no_types))
qed

text \<open>risk bands that share a boundary partition the scale. For a score and a boundary that are
  numbers, of two conditions that differ only in having the boundary as maximum or as minimum
  exactly one accepts the score; without an assessment neither does.\<close>

theorem adjacent_risk_bands_partition:
  assumes "cMinRiskScore c = None" and "cMaxRiskScore c = None" and "t \<noteq> NaN"
    and "riskMatches c (Some risk)" and "raScore risk \<noteq> NaN"
  shows "riskMatches (c\<lparr>cMaxRiskScore := Some t\<rparr>) (Some risk) \<noteq>
      riskMatches (c\<lparr>cMinRiskScore := Some t\<rparr>) (Some risk) \<and>
    \<not> riskMatches (c\<lparr>cMaxRiskScore := Some t\<rparr>) None \<and>
    \<not> riskMatches (c\<lparr>cMinRiskScore := Some t\<rparr>) None"
  using assms float_geq_not_less[of "raScore risk" t] by (auto simp: riskMatches_iff)

theorem adjacent_risk_bands_partition_witness:
  "riskMatches (any_condition\<lparr>cMaxRiskScore := Some (Finite 50)\<rparr>)
       (Some \<lparr>raScore = Finite 50, raLevel = LevelMedium, raFactors = [], raConfidence = Finite 1\<rparr>) \<noteq>
   riskMatches (any_condition\<lparr>cMinRiskScore := Some (Finite 50)\<rparr>)
       (Some \<lparr>raScore = Finite 50, raLevel = LevelMedium, raFactors = [], raConfidence = Finite 1\<rparr>)"
  using adjacent_risk_bands_partition
    [of any_condition "Finite 50"
        "\<lparr>raScore = Finite 50, raLevel = LevelMedium, raFactors = [], raConfidence = Finite 1\<rparr>"]
  by (simp add: any_condition_def riskMatches_iff)

text \<open>a condition means what its author expects. Widening a condition, by dropping fields, by
  adding values to fields that list some, or by moving bounds outwards, never makes it miss a
  request it matched; so adding a condition to a rule only narrows it.\<close>

theorem wider_conditions_match_more:
  assumes "wider d c" and "matches c req val"
  shows "matches d req val"
  using assms by (rule matches_wider)

theorem wider_conditions_match_more_witness:
  "matches (any_condition\<lparr>cVerdicts := [VerdictIndeterminate, VerdictOther []]\<rparr>) plain_request empty_result"
proof (rule wider_conditions_match_more)
  show "wider (any_condition\<lparr>cVerdicts := [VerdictIndeterminate, VerdictOther []]\<rparr>)
      (any_condition\<lparr>cVerdicts := [VerdictOther []]\<rparr>)"
    by (simp add: wider_def wider_field_def lower_bound_def higher_bound_def any_condition_def)
  show "matches (any_condition\<lparr>cVerdicts := [VerdictOther []]\<rparr>) plain_request empty_result"
    by (simp add: matches_iff kindMatches_iff riskMatches_iff any_condition_def empty_result_def)
qed

text \<open>
  A rule may carry the id reserved for the default posture: compiling accepts it, and its outcomes
  then read as if no rule had matched.
\<close>

lemma default_id_is_not_reserved:
  "\<exists>e out. compile [plain_rule DefaultRuleID 1 ActionAllow] ActionBlock = Inr e \<and>
     Evaluate e plain_request = Inr out \<and> ocRuleID out = DefaultRuleID \<and>
     ocAction out \<noteq> engineDefaultAction e"
proof -
  let ?r = "plain_rule DefaultRuleID 1 ActionAllow"
  have "\<not> is_blank DefaultRuleID" by code_simp
  then have "rules_ok [?r]" by (simp add: rules_ok_def validateRule_def plain_rule_def)
  moreover have "find (applicable plain_request empty_result) (evaluationOrder [?r]) = Some ?r"
    by (simp add: evaluationOrder_def plain_rule_applicable)
  ultimately show ?thesis
    by (simp add: compile_Inr Evaluate_def evaluate_rules_find plain_request_def rule_outcome_def
        engineDefaultAction_def) (simp add: plain_rule_def)
qed

end
