(* ===== verification/Ring.thy ===== *)
theory Ring
  imports Prelude
begin

text \<open>
  A fixed array written round and round: the history of a session and the latency window of a
  pipeline are both kept this way. \<open>ring_write\<close> is what the sources do with the array and its next
  index, \<open>ring_read\<close> is the loop that reads the last \<open>n\<close> entries, oldest first.

  The interface \<open>bounded_log\<close> is what a reader of such an array relies on: a log that never holds
  more than its capacity, to which an entry is appended by dropping what no longer fits. Its clients
  are proved against a plain list.
\<close>

definition ring_write :: "'a list \<Rightarrow> nat \<Rightarrow> 'a \<Rightarrow> 'a list \<times> nat" where
  "ring_write r i x = (r[i := x], (i + 1) mod length r)"

definition ring_read :: "'a list \<Rightarrow> nat \<Rightarrow> nat \<Rightarrow> 'a list" where
  "ring_read r i n =
     (let start = (i + length r - n) mod length r in
      map (\<lambda>j. r ! ((start + j) mod length r)) [0..<n])"

definition ring_ok :: "'a list \<Rightarrow> nat \<Rightarrow> nat \<Rightarrow> bool" where
  "ring_ok r i n \<longleftrightarrow> n \<le> length r \<and> (if r = [] then i = 0 else i < length r)"

text \<open>The last \<open>n\<close> elements of a list.\<close>

definition last_n :: "nat \<Rightarrow> 'a list \<Rightarrow> 'a list" where
  "last_n n xs = drop (length xs - n) xs"

lemma last_n_0 [simp]: "last_n 0 xs = []"
  by (simp add: last_n_def)

lemma length_last_n [simp]: "length (last_n n xs) = min n (length xs)"
  by (simp add: last_n_def)

lemma last_n_all [simp]: "length xs \<le> n \<Longrightarrow> last_n n xs = xs"
  by (simp add: last_n_def)

lemma last_n_last_n [simp]: "last_n m (last_n n xs) = last_n (min m n) xs"
  by (cases "m \<le> n"; cases "length xs \<le> n") (auto simp: last_n_def min_def)

lemma last_n_snoc: "0 < n \<Longrightarrow> last_n n (xs @ [x]) = last_n (n - 1) xs @ [x]"
  by (cases "length xs < n") (auto simp: last_n_def Suc_diff_le not_less)

lemma last_n_append: "last_n n (last_n n xs @ ys) = last_n n (xs @ ys)"
  by (cases "length xs \<le> n"; cases "length ys \<le> n") (auto simp: last_n_def add.commute)

lemma set_last_n: "set (last_n n xs) \<subseteq> set xs"
  by (simp add: last_n_def set_drop_subset)

section \<open>Reading back what was written\<close>

lemma length_ring_read [simp]: "length (ring_read r i n) = n"
  by (simp add: ring_read_def Let_def)

lemma ring_read_0 [simp]: "ring_read r i 0 = []"
  by (simp add: ring_read_def)

lemma ring_read_nth:
  assumes "j < n" and "n \<le> length r"
  shows "ring_read r i n ! j = r ! ((i + length r - n + j) mod length r)"
  using assms by (simp add: ring_read_def Let_def mod_add_left_eq)

lemma ring_read_fewer:
  assumes "m \<le> n" and "n \<le> length r"
  shows "ring_read r i m = last_n m (ring_read r i n)"
proof (rule nth_equalityI)
  show "length (ring_read r i m) = length (last_n m (ring_read r i n))" using assms by simp
  fix j assume "j < length (ring_read r i m)"
  then have j: "j < m" by simp
  then have "last_n m (ring_read r i n) ! j = ring_read r i n ! (n - m + j)"
    using assms by (simp add: last_n_def)
  also have "\<dots> = r ! ((i + length r - n + (n - m + j)) mod length r)"
    using j assms by (intro ring_read_nth) auto
  also have "i + length r - n + (n - m + j) = i + length r - m + j" using assms by simp
  finally show "ring_read r i m ! j = last_n m (ring_read r i n) ! j"
    using j assms by (simp add: ring_read_nth)
qed

lemma ring_read_write:
  assumes "i < length r" and "n < length r"
  shows "ring_read (r[i := x]) ((i + 1) mod length r) (Suc n) = ring_read r i n @ [x]"
proof (rule nth_equalityI)
  fix j assume "j < length (ring_read (r[i := x]) ((i + 1) mod length r) (Suc n))"
  then have j: "j < Suc n" by simp
  define k where "k = (i + length r - n + j) mod length r"
  have "((i + 1) mod length r + length r - Suc n + j) mod length r =
      ((i + 1) mod length r + (length r - Suc n + j)) mod length r"
    using assms by (simp add: algebra_simps)
  also have "\<dots> = ((i + 1) + (length r - Suc n + j)) mod length r"
    by (simp only: mod_add_left_eq)
  also have "(i + 1) + (length r - Suc n + j) = i + length r - n + j" using assms by linarith
  finally have lhs: "ring_read (r[i := x]) ((i + 1) mod length r) (Suc n) ! j = r[i := x] ! k"
    using j assms by (simp add: ring_read_nth k_def)
  show "ring_read (r[i := x]) ((i + 1) mod length r) (Suc n) ! j = (ring_read r i n @ [x]) ! j"
  proof (cases "j = n")
    case True
    then have "k = i" using assms by (simp add: k_def)
    then show ?thesis using lhs True assms by (simp add: nth_append)
  next
    case False
    then have "j < n" using j by simp
    moreover have "k \<noteq> i"
    proof (cases "i + j < n")
      case True
      then have "k = i + length r - n + j" using \<open>j < n\<close> assms by (simp add: k_def)
      then show ?thesis using \<open>j < n\<close> assms by linarith
    next
      case False
      then have "k = i - n + j \<or> k = i + j - n"
        using \<open>j < n\<close> assms mod_add_self2[of "i + j - n" "length r"]
        by (auto simp: k_def algebra_simps)
      then have "k = i + j - n" using False \<open>j < n\<close> \<open>k = i - n + j \<or> k = i + j - n\<close>
          mod_add_self2[of "i + j - n" "length r"] assms
        by (auto simp: k_def algebra_simps)
      then show ?thesis using \<open>j < n\<close> False by linarith
    qed
    ultimately show ?thesis
      using lhs assms by (simp add: nth_append ring_read_nth k_def)
  qed
qed simp

lemma ring_write_ok:
  assumes "ring_ok r i n" and "r \<noteq> []"
  shows "ring_ok (r[i := x]) ((i + 1) mod length r) (min (Suc n) (length r))"
  using assms by (auto simp: ring_ok_def)

text \<open>A write appends, and drops the oldest entry once the array is full.\<close>

lemma ring_write_appends:
  assumes "ring_ok r i n" and "r \<noteq> []"
  shows "ring_read (r[i := x]) ((i + 1) mod length r) (min (Suc n) (length r)) =
    last_n (length r) (ring_read r i n @ [x])"
proof -
  from assms have i: "i < length r" and n: "n \<le> length r" by (auto simp: ring_ok_def)
  show ?thesis
  proof (cases "n < length r")
    case True
    then show ?thesis using ring_read_write[OF i True, of x] by simp
  next
    case False
    then have full: "n = length r" using n by simp
    have "ring_read (r[i := x]) ((i + 1) mod length r) (Suc (length r - 1)) =
        ring_read r i (length r - 1) @ [x]"
      using assms(2) by (intro ring_read_write[OF i]) simp
    also have "ring_read r i (length r - 1) = last_n (length r - 1) (ring_read r i n)"
      using full by (intro ring_read_fewer) auto
    finally show ?thesis
      using assms(2) full last_n_snoc[of "length r" "ring_read r i n" x] by simp
  qed
qed

section \<open>The interface of a bounded log\<close>

text \<open>
  \<open>entries\<close> reads a state as a list, oldest first; \<open>append\<close> adds one; \<open>cap\<close> is the bound.
\<close>

locale bounded_log =
  fixes ok :: "'s \<Rightarrow> bool" and cap :: "'s \<Rightarrow> nat"
    and entries :: "'s \<Rightarrow> 'a list" and append :: "'a \<Rightarrow> 's \<Rightarrow> 's"
  assumes append_ok: "ok s \<Longrightarrow> ok (append x s)"
    and append_cap: "ok s \<Longrightarrow> cap (append x s) = cap s"
    and entries_append: "ok s \<Longrightarrow> entries (append x s) = last_n (cap s) (entries s @ [x])"
    and entries_bound: "ok s \<Longrightarrow> length (entries s) \<le> cap s"
begin

lemma fold_ok: "ok s \<Longrightarrow> ok (fold append xs s) \<and> cap (fold append xs s) = cap s"
  by (induction xs arbitrary: s) (auto simp: append_ok append_cap)

lemma entries_fold: "ok s \<Longrightarrow> entries (fold append xs s) = last_n (cap s) (entries s @ xs)"
proof (induction xs arbitrary: s)
  case Nil
  then show ?case using entries_bound[OF Nil] by simp
next
  case (Cons x xs)
  have "entries (fold append (x # xs) s) = last_n (cap s) (last_n (cap s) (entries s @ [x]) @ xs)"
    using Cons by (simp add: append_ok append_cap entries_append)
  also have "\<dots> = last_n (cap s) ((entries s @ [x]) @ xs)"
    by (rule last_n_append)
  finally show ?case by simp
qed

text \<open>A log that starts empty holds the last entries of everything appended.\<close>

lemma entries_from_empty:
  "ok s \<Longrightarrow> entries s = [] \<Longrightarrow> entries (fold append xs s) = last_n (cap s) xs"
  by (simp add: entries_fold)

end

end
