(* ===== verification/Assoc.thy ===== *)
theory Assoc
  imports Prelude "HOL-Library.AList"
begin

text \<open>
  Association lists as the model's maps of mutable records: what is in the list after a key was
  written or deleted, for the registries of sessions, of approval requests and of processors.
\<close>

lemma set_update_subset: "set (AList.update k v xs) \<subseteq> insert (k, v) (set xs)"
  by (induction xs) auto

lemma delete_subset: "set (AList.delete k xs) \<subseteq> set xs"
  by (auto simp: AList.delete_eq)

lemma distinct_keys_filter: "distinct (map fst xs) \<Longrightarrow> distinct (map fst (filter P xs))"
  by (induction xs) (auto simp: image_iff)

lemma length_update:
  "length (AList.update k v xs) = (if map_of xs k = None then Suc (length xs) else length xs)"
  by (induction xs) auto

lemma length_delete:
  assumes "distinct (map fst xs)" "map_of xs k = Some v"
  shows "Suc (length (AList.delete k xs)) = length xs"
  using assms by (induction xs) (auto simp: AList.delete_simps delete_idem)

end
