(* ===== verification/Decision.thy ===== *)
theory Decision
  imports Policy
begin

text \<open>
  Decisions and the records that frame them (\<open>pkg/decision/decision.go\<close> and \<open>record.go\<close>): what the
  pipeline publishes about one event, and the session-level lines of the audit log. The JSON
  encodings are not modelled.
\<close>

section \<open>Decisions\<close>

record decision =
  dID :: string
  dSessionID :: string
  dEventID :: string
  dTimestamp :: time
  dAction :: action
  dVerdict :: verdict
  dRisk :: risk_assessment
  dReasoning :: "reasoning_step list"
  dMatchedGrant :: "grant option"
  dMatchedRule :: string
  dLatency :: duration
  dEnforced :: bool

definition unscored :: risk_assessment where
  "unscored = \<lparr>raScore = Finite 0, raLevel = LevelUnscored, raFactors = [], raConfidence = Finite 0\<rparr>"

section \<open>Approvals\<close>

record approval_request =
  arID :: string
  arSessionID :: string
  arDecision :: decision
  arCreatedAt :: time
  arDeadline :: time
  arSummary :: msg

record approval_response =
  asRequestID :: string
  asApproved :: bool
  asRespondedBy :: string
  asRespondedAt :: time
  asReason :: string
  asRemember :: bool
  asTimedOut :: bool

section \<open>Audit records\<close>

datatype record_kind = RecordDecision | RecordSessionStart | RecordApproval | RecordControlRefused
  | RecordSessionEnd | RecordLeftover | RecordKindOther string

definition AllRecordKinds :: "record_kind list" where
  "AllRecordKinds = [RecordDecision, RecordSessionStart, RecordApproval, RecordControlRefused,
     RecordSessionEnd, RecordLeftover]"

datatype approval_effect = EffectResume | EffectWait | EffectTerminate | EffectNone

record approval =
  aprSessionID :: string
  aprTimestamp :: time
  aprRequestID :: string
  aprDecisionID :: string
  aprApproved :: bool
  aprRespondedBy :: string
  aprTimedOut :: bool
  aprReason :: string
  aprEffect :: approval_effect

record unmatched_connect =
  ucTarget :: string
  ucVerdict :: verdict
  ucCount :: int

end
