(* ===== verification/SessionState.thy ===== *)
theory SessionState
  imports Decision Ring "HOL-Library.AList" "HOL-Library.Product_Lexorder"
begin

text \<open>
  The mutable state of a session (\<open>internal/session/state.go\<close>) and the records it reports
  (\<open>session.go\<close>). A method on a nil \<open>*MemoryState\<close> reports zeros and records nothing: a receiver is
  a \<open>memory_state option\<close>, and each writer's body is the function of the same name with a small
  initial. Every reader that takes the host clock gets the reading as an argument.

  The unit counters are \<open>int\<close>: one event advances each by one, so wrapping takes 2 to the 63 events.
  The counters an event's payload adds to are kept at their width.
\<close>

section \<open>Time at 64 bits\<close>

text \<open>\<open>int64\<close> arithmetic wraps. \<open>t.UnixNano()\<close> counts from 1970, \<open>time\<close> from year 1.\<close>

definition signed64 :: "int \<Rightarrow> int" where
  "signed64 n = sint (word_of_int n :: 64 word)"

definition unix_epoch :: time where "unix_epoch = 62135596800 * 1000000000"

definition UnixNano :: "time \<Rightarrow> int" where
  "UnixNano t = signed64 (t - unix_epoch)"

lemma signed64_id: "- (2 ^ 63) \<le> n \<Longrightarrow> n < 2 ^ 63 \<Longrightarrow> signed64 n = n"
  by (simp add: signed64_def sint_sbintrunc' signed_take_bit_int_eq_self)

lemma signed64_bounds: "- (2 ^ 63) \<le> signed64 n" "signed64 n < 2 ^ 63"
  using sint_greater_eq[of "word_of_int n :: 64 word"] sint_less[of "word_of_int n :: 64 word"]
  by (simp_all add: signed64_def)

section \<open>Reports\<close>

datatype lifecycle = StatePending | StateAwaitingApproval | StateReady | StateActive
  | StateSuspended | StateCompleted | StateTerminated | StateFailed | StateOther string

record session_outcome =
  soResult :: lifecycle
  soReason :: string
  soViolationCount :: int
  soBlockedCount :: int
  soTelemetryComplete :: bool

record session_summary =
  suEventsObserved :: "64 word"
  suDecisionsIssued :: "64 word"
  suCapabilityUsage :: "kind \<rightharpoonup> int"
  suUnusedGrants :: "kind list"
  suTopViolations :: "string list"
  suUnmatchedConnects :: int
  suUnmatchedConnectTargets :: "unmatched_connect list"
  suPeakRiskScore :: float64

definition zero_summary :: session_summary where
  "zero_summary = \<lparr>suEventsObserved = 0, suDecisionsIssued = 0, suCapabilityUsage = Map.empty,
     suUnusedGrants = [], suTopViolations = [], suUnmatchedConnects = 0,
     suUnmatchedConnectTargets = [], suPeakRiskScore = Finite 0\<rparr>"

definition zero_outcome :: session_outcome where
  "zero_outcome = \<lparr>soResult = StateOther [], soReason = [], soViolationCount = 0,
     soBlockedCount = 0, soTelemetryComplete = False\<rparr>"

section \<open>The state\<close>

record memory_state =
  msSessionID :: string
  msEnvelope :: "envelope option"
  msMaxSeenTargets :: int
  msHostClock :: bool
  msStartNanos :: int
  msLatestNanos :: int
  msEventsObserved :: "64 word"
  msDecisionsIssued :: "64 word"
  msDroppedEvents :: "64 word"
  msFileWrites :: int
  msProcessStarts :: int
  msNetworkBytesSent :: int
  msViolations :: int
  msBlocked :: int
  msPeakRisk :: float64
  msGrantUses :: "int list"
  msCapabilityUses :: "kind \<rightharpoonup> int"
  msSeen :: "(kind \<times> string) set"
  msSeenFull :: bool
  msRing :: "event list"
  msRingNext :: nat
  msRingLen :: nat
  msViolationTally :: "((verdict \<times> string) \<times> int) list option"
  msUnmatched :: "((string \<times> verdict) \<times> int) list option"
  msUnmatchedTotal :: int

record state_config =
  scSessionID :: string
  scEnvelope :: "envelope option"
  scStartedAt :: time
  scHistorySize :: int
  scMaxSeenTargets :: int

definition DefaultHistorySize :: int where "DefaultHistorySize = 256"
definition DefaultMaxSeenTargets :: int where "DefaultMaxSeenTargets = 4096"

definition default_bound :: "int \<Rightarrow> int \<Rightarrow> int" where
  "default_bound def n = (if n = 0 then def else if n < 0 then 0 else n)"

definition NewStateWith :: "state_config \<Rightarrow> memory_state" where
  "NewStateWith cfg =
     (let historySize = default_bound DefaultHistorySize (scHistorySize cfg);
          maxTargets = default_bound DefaultMaxSeenTargets (scMaxSeenTargets cfg);
          grants = (case scEnvelope cfg of None \<Rightarrow> 0 | Some env \<Rightarrow> length (Grants env));
          s = \<lparr>msSessionID = scSessionID cfg, msEnvelope = scEnvelope cfg,
               msMaxSeenTargets = maxTargets, msHostClock = False, msStartNanos = 0,
               msLatestNanos = 0, msEventsObserved = 0, msDecisionsIssued = 0, msDroppedEvents = 0,
               msFileWrites = 0, msProcessStarts = 0, msNetworkBytesSent = 0, msViolations = 0,
               msBlocked = 0, msPeakRisk = Finite 0, msGrantUses = replicate grants 0,
               msCapabilityUses = (\<lambda>k. if k \<in> set AllKinds then Some 0 else None),
               msSeen = {}, msSeenFull = False, msRing = replicate (nat historySize) zero_event,
               msRingNext = 0, msRingLen = 0, msViolationTally = Some [], msUnmatched = Some [],
               msUnmatchedTotal = 0\<rparr>
      in if scStartedAt cfg \<noteq> 0 then s\<lparr>msHostClock := True, msStartNanos := UnixNano (scStartedAt cfg)\<rparr>
         else s)"

definition NewState :: "string \<Rightarrow> envelope option \<Rightarrow> memory_state" where
  "NewState sid env =
     NewStateWith \<lparr>scSessionID = sid, scEnvelope = env, scStartedAt = 0, scHistorySize = 0,
       scMaxSeenTargets = 0\<rparr>"

section \<open>Writes\<close>

definition advanceClock :: "time \<Rightarrow> memory_state \<Rightarrow> memory_state" where
  "advanceClock t s =
     (if t = 0 then s
      else
        (let n = UnixNano t;
             s = (if msStartNanos s = 0 then s\<lparr>msStartNanos := n\<rparr> else s)
         in if n > msLatestNanos s then s\<lparr>msLatestNanos := n\<rparr> else s))"

definition markSeen :: "kind \<Rightarrow> string \<Rightarrow> memory_state \<Rightarrow> memory_state" where
  "markSeen k target s =
     (if msMaxSeenTargets s = 0 then s
      else if (k, target) \<in> msSeen s then s
      else if int (card (msSeen s)) \<ge> msMaxSeenTargets s then s\<lparr>msSeenFull := True\<rparr>
      else s\<lparr>msSeen := insert (k, target) (msSeen s)\<rparr>)"

definition push :: "event \<Rightarrow> memory_state \<Rightarrow> memory_state" where
  "push e s =
     (if length (msRing s) = 0 then s
      else s\<lparr>msRing := (msRing s)[msRingNext s := e],
             msRingNext := (msRingNext s + 1) mod length (msRing s),
             msRingLen := (if msRingLen s < length (msRing s) then msRingLen s + 1 else msRingLen s)\<rparr>)"

definition raisePeak :: "float64 \<Rightarrow> memory_state \<Rightarrow> memory_state" where
  "raisePeak score s =
     (if score = NaN \<or> float_geq (Finite 0) score then s
      else if float_geq (msPeakRisk s) score then s
      else s\<lparr>msPeakRisk := score\<rparr>)"

text \<open>What an event is charged to: the capability its observation names, else the decoded one.\<close>

definition charged_kind :: "event \<Rightarrow> kind" where
  "charged_kind e =
     (let k = (case ObservationOf (Some e) of Inl _ \<Rightarrow> KindOther [] | Inr obs \<Rightarrow> obsKind obs) in
      if kind_string k = [] then evCapability e else k)"

definition charge_budgets :: "event \<Rightarrow> kind \<Rightarrow> memory_state \<Rightarrow> memory_state" where
  "charge_budgets e k s =
     (let s = (case msCapabilityUses s k of
                 None \<Rightarrow> s
               | Some n \<Rightarrow> s\<lparr>msCapabilityUses := (msCapabilityUses s)(k \<mapsto> n + 1)\<rparr>);
          s = (if ModifiesFilesystem k then s\<lparr>msFileWrites := msFileWrites s + 1\<rparr> else s);
          s = (if SpawnsProcess k then s\<lparr>msProcessStarts := msProcessStarts s + 1\<rparr> else s)
      in
      case evNetwork e of
        None \<Rightarrow> s
      | Some n \<Rightarrow>
          (if BytesSent n > 0
           then s\<lparr>msNetworkBytesSent := signed64 (msNetworkBytesSent s + BytesSent n)\<rparr> else s))"

definition rEvent :: "event \<Rightarrow> memory_state \<Rightarrow> memory_state" where
  "rEvent e s =
     (let s = s\<lparr>msEventsObserved := msEventsObserved s + 1\<rparr>;
          s = (if evDropped e > 0 then s\<lparr>msDroppedEvents := msDroppedEvents s + evDropped e\<rparr> else s);
          s = advanceClock (WallClock e) s;
          k = charged_kind e;
          s = charge_budgets e k s;
          s = (case ObservationOf (Some e) of
                 Inl _ \<Rightarrow> s
               | Inr obs \<Rightarrow> (if obsTarget obs \<noteq> [] then markSeen k (obsTarget obs) s else s))
      in push e s)"

definition RecordEvent :: "event option \<Rightarrow> memory_state option \<Rightarrow> memory_state option" where
  "RecordEvent e s = (case e of None \<Rightarrow> s | Some e \<Rightarrow> map_option (rEvent e) s)"

text \<open>\<open>tally[key]++\<close> on a Go map.\<close>

definition tally_add :: "'k \<Rightarrow> ('k \<times> int) list \<Rightarrow> ('k \<times> int) list" where
  "tally_add k t = AList.update k ((case map_of t k of None \<Rightarrow> 0 | Some n \<Rightarrow> n) + 1) t"

definition is_violation :: "verdict \<Rightarrow> bool" where
  "is_violation v \<longleftrightarrow> ValidVerdict v \<and> v \<noteq> VerdictWithinEnvelope"

definition rDecision :: "decision \<Rightarrow> memory_state \<Rightarrow> memory_state" where
  "rDecision d s =
     (let s = s\<lparr>msDecisionsIssued := msDecisionsIssued s + 1\<rparr>;
          s = (if is_violation (dVerdict d) then
                 s\<lparr>msViolations := msViolations s + 1,
                   msViolationTally :=
                     map_option (tally_add (dVerdict d, dMatchedRule d)) (msViolationTally s)\<rparr>
               else s);
          s = (if dAction d = ActionBlock \<and> dEnforced d then s\<lparr>msBlocked := msBlocked s + 1\<rparr> else s)
      in raisePeak (raScore (dRisk d)) s)"

definition RecordDecision :: "decision option \<Rightarrow> memory_state option \<Rightarrow> memory_state option" where
  "RecordDecision d s = (case d of None \<Rightarrow> s | Some d \<Rightarrow> map_option (rDecision d) s)"

definition maxUnmatchedTargets :: nat where "maxUnmatchedTargets = 1024"
definition maxUnmatchedReported :: nat where "maxUnmatchedReported = 10"
definition maxTopViolations :: nat where "maxTopViolations = 5"

definition tally_get :: "('k \<times> int) list option \<Rightarrow> ('k \<times> int) list" where
  "tally_get t = (case t of None \<Rightarrow> [] | Some t \<Rightarrow> t)"

definition rAllowed :: "event \<Rightarrow> decision \<Rightarrow> memory_state \<Rightarrow> memory_state" where
  "rAllowed e d s =
     (if dVerdict d = VerdictWithinEnvelope \<or> dAction d \<noteq> ActionAllow \<and> dAction d \<noteq> ActionWarn then s
      else
        (case ObservationOf (Some e) of
           Inl _ \<Rightarrow> s
         | Inr obs \<Rightarrow>
             (if obsKind obs \<noteq> KindNetConnect then s
              else
                (let s = s\<lparr>msUnmatchedTotal := msUnmatchedTotal s + 1\<rparr>;
                     k = (obsTarget obs, dVerdict d);
                     t = tally_get (msUnmatched s)
                 in if k \<in> fst ` set t \<or> length t < maxUnmatchedTargets
                    then s\<lparr>msUnmatched := map_option (tally_add k) (msUnmatched s)\<rparr> else s))))"

definition RecordAllowed ::
  "event option \<Rightarrow> decision option \<Rightarrow> memory_state option \<Rightarrow> memory_state option" where
  "RecordAllowed e d s =
     (case (e, d) of (Some e, Some d) \<Rightarrow> map_option (rAllowed e d) s | _ \<Rightarrow> s)"

definition rGrantUse :: "int \<Rightarrow> memory_state \<Rightarrow> memory_state" where
  "rGrantUse i s =
     (if i < 0 \<or> i \<ge> int (length (msGrantUses s)) then s
      else s\<lparr>msGrantUses := (msGrantUses s)[nat i := msGrantUses s ! nat i + 1]\<rparr>)"

definition RecordGrantUse :: "int \<Rightarrow> memory_state option \<Rightarrow> memory_state option" where
  "RecordGrantUse i s = map_option (rGrantUse i) s"

definition SetStartedAt :: "time \<Rightarrow> memory_state option \<Rightarrow> memory_state option" where
  "SetStartedAt t s =
     (if t = 0 then s
      else map_option (\<lambda>s. if msStartNanos s = 0
                           then s\<lparr>msStartNanos := UnixNano t, msHostClock := True\<rparr> else s) s)"

definition MarkEnforced :: "decision option \<Rightarrow> memory_state option \<Rightarrow> memory_state option" where
  "MarkEnforced d s =
     (case d of
        None \<Rightarrow> s
      | Some d \<Rightarrow>
          (if \<not> dEnforced d \<or> dAction d \<noteq> ActionBlock then s
           else map_option (\<lambda>s. s\<lparr>msBlocked := msBlocked s + 1\<rparr>) s))"

definition release :: "memory_state option \<Rightarrow> memory_state option" where
  "release s = map_option (\<lambda>s. s\<lparr>msSeen := {}, msMaxSeenTargets := 0, msRing := [], msRingNext := 0,
     msRingLen := 0, msViolationTally := None, msUnmatched := None\<rparr>) s"

section \<open>Reads\<close>

text \<open>What the validator reads, at a reading \<open>now\<close> of the host clock.\<close>

definition GrantUseCount_ms :: "memory_state option \<Rightarrow> int \<Rightarrow> int" where
  "GrantUseCount_ms s i =
     (case s of
        None \<Rightarrow> 0
      | Some s \<Rightarrow> (if i < 0 \<or> i \<ge> int (length (msGrantUses s)) then 0 else msGrantUses s ! nat i))"

definition FileWriteCount_ms :: "memory_state option \<Rightarrow> int" where
  "FileWriteCount_ms s = (case s of None \<Rightarrow> 0 | Some s \<Rightarrow> msFileWrites s)"

definition NetworkBytesSent_ms :: "memory_state option \<Rightarrow> int" where
  "NetworkBytesSent_ms s = (case s of None \<Rightarrow> 0 | Some s \<Rightarrow> msNetworkBytesSent s)"

definition ProcessCount_ms :: "memory_state option \<Rightarrow> int" where
  "ProcessCount_ms s = (case s of None \<Rightarrow> 0 | Some s \<Rightarrow> msProcessStarts s)"

text \<open>\<open>float64(end-start) / float64(time.Second)\<close>, as a rational.\<close>

definition ElapsedSeconds_ms :: "time \<Rightarrow> memory_state option \<Rightarrow> rat" where
  "ElapsedSeconds_ms now s =
     (case s of
        None \<Rightarrow> 0
      | Some s \<Rightarrow>
          (if msStartNanos s = 0 then 0
           else
             (let e = (if msHostClock s then UnixNano now else msLatestNanos s) in
              if e \<le> msStartNanos s then 0
              else of_int (signed64 (e - msStartNanos s)) / 1000000000)))"

definition SeenTargets_ms :: "memory_state option \<Rightarrow> kind \<Rightarrow> string \<Rightarrow> bool" where
  "SeenTargets_ms s k target =
     (case s of None \<Rightarrow> False | Some s \<Rightarrow> target \<noteq> [] \<and> (k, target) \<in> msSeen s)"

text \<open>The state as the validator's \<open>SessionState\<close> interface.\<close>

definition session_view :: "time \<Rightarrow> memory_state option \<Rightarrow> session_state" where
  "session_view now s =
     \<lparr>GrantUseCount = GrantUseCount_ms s, FileWriteCount = FileWriteCount_ms s,
      NetworkBytesSent = NetworkBytesSent_ms s, ProcessCount = ProcessCount_ms s,
      ElapsedSeconds = ElapsedSeconds_ms now s, SeenTargets = SeenTargets_ms s\<rparr>"

text \<open>What the risk engine reads.\<close>

definition CapabilityCount :: "memory_state option \<Rightarrow> kind \<Rightarrow> int" where
  "CapabilityCount s k =
     (case s of
        None \<Rightarrow> 0
      | Some s \<Rightarrow> (case msCapabilityUses s k of None \<Rightarrow> 0 | Some n \<Rightarrow> n))"

definition TargetSeen :: "memory_state option \<Rightarrow> kind \<Rightarrow> string \<Rightarrow> bool" where
  "TargetSeen s k target = SeenTargets_ms s k target"

definition ViolationCount :: "memory_state option \<Rightarrow> int" where
  "ViolationCount s = (case s of None \<Rightarrow> 0 | Some s \<Rightarrow> msViolations s)"

definition RecentEvents :: "int \<Rightarrow> memory_state option \<Rightarrow> event list" where
  "RecentEvents n s =
     (case s of
        None \<Rightarrow> []
      | Some s \<Rightarrow>
          (if n \<le> 0 \<or> msRingLen s = 0 then []
           else ring_read (msRing s) (msRingNext s)
             (if n > int (msRingLen s) then msRingLen s else nat n)))"

definition SessionDurationSeconds :: "time \<Rightarrow> memory_state option \<Rightarrow> rat" where
  "SessionDurationSeconds now s = ElapsedSeconds_ms now s"

section \<open>Reporting\<close>

definition BlockedCount :: "memory_state option \<Rightarrow> int" where
  "BlockedCount s = (case s of None \<Rightarrow> 0 | Some s \<Rightarrow> msBlocked s)"

definition DroppedEvents :: "memory_state option \<Rightarrow> 64 word" where
  "DroppedEvents s = (case s of None \<Rightarrow> 0 | Some s \<Rightarrow> msDroppedEvents s)"

definition TelemetryComplete :: "memory_state option \<Rightarrow> bool" where
  "TelemetryComplete s = (DroppedEvents s = 0)"

definition PeakRiskScore :: "memory_state option \<Rightarrow> float64" where
  "PeakRiskScore s = (case s of None \<Rightarrow> Finite 0 | Some s \<Rightarrow> msPeakRisk s)"

definition SeenTargetsSaturated :: "memory_state option \<Rightarrow> bool" where
  "SeenTargetsSaturated s = (case s of None \<Rightarrow> False | Some s \<Rightarrow> msSeenFull s)"

definition UnusedGrantIndexes :: "memory_state option \<Rightarrow> nat list" where
  "UnusedGrantIndexes s =
     (case s of
        None \<Rightarrow> []
      | Some s \<Rightarrow>
          (case msEnvelope s of
             None \<Rightarrow> []
           | Some env \<Rightarrow>
               filter (\<lambda>i. \<not> grantOptional (Grants env ! i) \<and> msGrantUses s ! i = 0)
                 [0..<length (Grants env)]))"

fun dedup_kinds :: "kind set \<Rightarrow> kind list \<Rightarrow> kind list" where
  "dedup_kinds seen [] = []"
| "dedup_kinds seen (k # ks) =
     (if k \<in> seen then dedup_kinds seen ks else k # dedup_kinds (insert k seen) ks)"

definition unusedGrantKinds :: "memory_state option \<Rightarrow> kind list" where
  "unusedGrantKinds s =
     (case s of
        None \<Rightarrow> []
      | Some ms \<Rightarrow>
          (case msEnvelope ms of
             None \<Rightarrow> []
           | Some env \<Rightarrow>
               dedup_kinds {} (map (\<lambda>i. grantKind (Grants env ! i)) (UnusedGrantIndexes s))))"

text \<open>
  Both tops sort by a key that no two different entries share, so the order a Go map is iterated in
  and the instability of \<open>sort.Slice\<close> do not show. Text is compared byte by byte.
\<close>

definition topUnmatched :: "memory_state \<Rightarrow> unmatched_connect list" where
  "topUnmatched s =
     take maxUnmatchedReported
       (map (\<lambda>((target, v), n). \<lparr>ucTarget = target, ucVerdict = v, ucCount = n\<rparr>)
         (sort_key (\<lambda>((target, v), n). (- n, target, verdict_string v)) (tally_get (msUnmatched s))))"

text \<open>The multiplication sign of the summary is the two bytes C3 97.\<close>

definition times_sign :: string where "times_sign = [CHR 0xC3, CHR 0x97]"

definition violation_text :: "(verdict \<times> string) \<times> int \<Rightarrow> string" where
  "violation_text kn =
     (case kn of
        ((v, r), n) \<Rightarrow>
          verdict_string v @ '' '' @ times_sign @ itoa n @
          (if r \<noteq> [] then '' (rule '' @ r @ '')'' else '' (no rule matched)''))"

definition topViolations :: "memory_state \<Rightarrow> string list" where
  "topViolations s =
     take maxTopViolations
       (map violation_text
         (sort_key (\<lambda>kn. (- snd kn, violation_text kn)) (tally_get (msViolationTally s))))"

definition Outcome :: "string \<Rightarrow> memory_state option \<Rightarrow> session_outcome" where
  "Outcome reason s =
     \<lparr>soResult = StateOther [], soReason = reason, soViolationCount = ViolationCount s,
      soBlockedCount = BlockedCount s, soTelemetryComplete = TelemetryComplete s\<rparr>"

definition Snapshot :: "memory_state option \<Rightarrow> session_summary" where
  "Snapshot s =
     (case s of
        None \<Rightarrow> zero_summary
      | Some ms \<Rightarrow>
          \<lparr>suEventsObserved = msEventsObserved ms, suDecisionsIssued = msDecisionsIssued ms,
           suCapabilityUsage =
             (\<lambda>k. case msCapabilityUses ms k of None \<Rightarrow> None | Some n \<Rightarrow> (if n > 0 then Some n else None)),
           suUnusedGrants = unusedGrantKinds s, suTopViolations = topViolations ms,
           suUnmatchedConnects = msUnmatchedTotal ms, suUnmatchedConnectTargets = topUnmatched ms,
           suPeakRiskScore = PeakRiskScore s\<rparr>)"

definition Live :: "memory_state option \<Rightarrow> session_summary" where
  "Live s =
     (case s of
        None \<Rightarrow> zero_summary
      | Some ms \<Rightarrow>
          zero_summary\<lparr>suEventsObserved := msEventsObserved ms,
            suDecisionsIssued := msDecisionsIssued ms, suPeakRiskScore := PeakRiskScore s\<rparr>)"

section \<open>Runs\<close>

text \<open>The writes of a running session, and a run of them.\<close>

datatype state_op = OpEvent event | OpDecision decision | OpAllowed event decision | OpGrantUse int
  | OpStarted time | OpEnforced decision

primrec apply_op :: "state_op \<Rightarrow> memory_state \<Rightarrow> memory_state" where
  "apply_op (OpEvent e) s = rEvent e s"
| "apply_op (OpDecision d) s = rDecision d s"
| "apply_op (OpAllowed e d) s = rAllowed e d s"
| "apply_op (OpGrantUse i) s = rGrantUse i s"
| "apply_op (OpStarted t) s = the (SetStartedAt t (Some s))"
| "apply_op (OpEnforced d) s = the (MarkEnforced (Some d) (Some s))"

definition run_ops :: "state_op list \<Rightarrow> memory_state \<Rightarrow> memory_state" where
  "run_ops ops s = fold apply_op ops s"

definition events_of :: "state_op list \<Rightarrow> event list" where
  "events_of ops = concat (map (\<lambda>p. case p of OpEvent e \<Rightarrow> [e] | _ \<Rightarrow> []) ops)"

lemma run_ops_simps [simp]:
  "run_ops [] s = s" "run_ops (p # ops) s = run_ops ops (apply_op p s)"
  by (simp_all add: run_ops_def)

lemma run_ops_append [simp]: "run_ops (ops @ ops') s = run_ops ops' (run_ops ops s)"
  by (simp add: run_ops_def)

lemma events_of_simps [simp]:
  "events_of [] = []"
  "events_of (p # ops) = (case p of OpEvent e \<Rightarrow> [e] | _ \<Rightarrow> []) @ events_of ops"
  by (simp_all add: events_of_def)

text \<open>An invariant of every write is one of a run.\<close>

lemma run_invariant:
  assumes "\<And>p s. P s \<Longrightarrow> P (apply_op p s)" and "P s"
  shows "P (run_ops ops s)"
  using assms(2) by (induction ops arbitrary: s) (auto intro: assms(1))

subsection \<open>What a write leaves alone\<close>

text \<open>Each write is a chain of conditional field updates; these rules read a field through it.\<close>

lemmas write_defs = rEvent_def advanceClock_def markSeen_def push_def raisePeak_def
  charge_budgets_def rDecision_def rAllowed_def rGrantUse_def SetStartedAt_def MarkEnforced_def

definition ring_of :: "memory_state \<Rightarrow> event list \<times> nat \<times> nat" where
  "ring_of s = (msRing s, msRingNext s, msRingLen s)"

lemma advanceClock_fields [simp]:
  "ring_of (advanceClock t s) = ring_of s" "msSeen (advanceClock t s) = msSeen s"
  "msSeenFull (advanceClock t s) = msSeenFull s"
  "msMaxSeenTargets (advanceClock t s) = msMaxSeenTargets s"
  "msGrantUses (advanceClock t s) = msGrantUses s" "msFileWrites (advanceClock t s) = msFileWrites s"
  "msProcessStarts (advanceClock t s) = msProcessStarts s"
  "msNetworkBytesSent (advanceClock t s) = msNetworkBytesSent s"
  "msCapabilityUses (advanceClock t s) = msCapabilityUses s"
  "msPeakRisk (advanceClock t s) = msPeakRisk s" "msEnvelope (advanceClock t s) = msEnvelope s"
  "msViolations (advanceClock t s) = msViolations s" "msBlocked (advanceClock t s) = msBlocked s"
  "msHostClock (advanceClock t s) = msHostClock s"
  "msEventsObserved (advanceClock t s) = msEventsObserved s"
  "msDecisionsIssued (advanceClock t s) = msDecisionsIssued s"
  "msViolationTally (advanceClock t s) = msViolationTally s"
  "msUnmatched (advanceClock t s) = msUnmatched s"
  by (simp_all add: advanceClock_def Let_def ring_of_def)

lemma charge_budgets_fields [simp]:
  "ring_of (charge_budgets e k s) = ring_of s" "msSeen (charge_budgets e k s) = msSeen s"
  "msSeenFull (charge_budgets e k s) = msSeenFull s"
  "msMaxSeenTargets (charge_budgets e k s) = msMaxSeenTargets s"
  "msGrantUses (charge_budgets e k s) = msGrantUses s"
  "msFileWrites (charge_budgets e k s) = msFileWrites s + (if ModifiesFilesystem k then 1 else 0)"
  "msProcessStarts (charge_budgets e k s) = msProcessStarts s + (if SpawnsProcess k then 1 else 0)"
  "msPeakRisk (charge_budgets e k s) = msPeakRisk s" "msEnvelope (charge_budgets e k s) = msEnvelope s"
  "msViolations (charge_budgets e k s) = msViolations s" "msBlocked (charge_budgets e k s) = msBlocked s"
  "msHostClock (charge_budgets e k s) = msHostClock s"
  "msStartNanos (charge_budgets e k s) = msStartNanos s"
  "msLatestNanos (charge_budgets e k s) = msLatestNanos s"
  "msEventsObserved (charge_budgets e k s) = msEventsObserved s"
  "msDecisionsIssued (charge_budgets e k s) = msDecisionsIssued s"
  "msViolationTally (charge_budgets e k s) = msViolationTally s"
  "msUnmatched (charge_budgets e k s) = msUnmatched s"
  by (simp_all add: charge_budgets_def Let_def ring_of_def split: option.split)

lemma push_fields [simp]:
  "msSeen (push e s) = msSeen s" "msSeenFull (push e s) = msSeenFull s"
  "msMaxSeenTargets (push e s) = msMaxSeenTargets s" "msGrantUses (push e s) = msGrantUses s"
  "msFileWrites (push e s) = msFileWrites s" "msProcessStarts (push e s) = msProcessStarts s"
  "msNetworkBytesSent (push e s) = msNetworkBytesSent s"
  "msCapabilityUses (push e s) = msCapabilityUses s" "msPeakRisk (push e s) = msPeakRisk s"
  "msEnvelope (push e s) = msEnvelope s" "msViolations (push e s) = msViolations s"
  "msBlocked (push e s) = msBlocked s" "msHostClock (push e s) = msHostClock s"
  "msStartNanos (push e s) = msStartNanos s" "msLatestNanos (push e s) = msLatestNanos s"
  "msEventsObserved (push e s) = msEventsObserved s"
  "msDecisionsIssued (push e s) = msDecisionsIssued s"
  "msViolationTally (push e s) = msViolationTally s" "msUnmatched (push e s) = msUnmatched s"
  by (simp_all add: push_def)

lemma markSeen_fields [simp]:
  "ring_of (markSeen k t s) = ring_of s" "msMaxSeenTargets (markSeen k t s) = msMaxSeenTargets s"
  "msGrantUses (markSeen k t s) = msGrantUses s" "msFileWrites (markSeen k t s) = msFileWrites s"
  "msProcessStarts (markSeen k t s) = msProcessStarts s"
  "msNetworkBytesSent (markSeen k t s) = msNetworkBytesSent s"
  "msCapabilityUses (markSeen k t s) = msCapabilityUses s"
  "msPeakRisk (markSeen k t s) = msPeakRisk s" "msEnvelope (markSeen k t s) = msEnvelope s"
  "msViolations (markSeen k t s) = msViolations s" "msBlocked (markSeen k t s) = msBlocked s"
  "msHostClock (markSeen k t s) = msHostClock s" "msStartNanos (markSeen k t s) = msStartNanos s"
  "msLatestNanos (markSeen k t s) = msLatestNanos s"
  "msEventsObserved (markSeen k t s) = msEventsObserved s"
  "msDecisionsIssued (markSeen k t s) = msDecisionsIssued s"
  "msViolationTally (markSeen k t s) = msViolationTally s"
  "msUnmatched (markSeen k t s) = msUnmatched s"
  by (simp_all add: markSeen_def ring_of_def)

lemma rEvent_fields [simp]:
  "msMaxSeenTargets (rEvent e s) = msMaxSeenTargets s" "msGrantUses (rEvent e s) = msGrantUses s"
  "msFileWrites (rEvent e s) = msFileWrites s + (if ModifiesFilesystem (charged_kind e) then 1 else 0)"
  "msProcessStarts (rEvent e s) = msProcessStarts s + (if SpawnsProcess (charged_kind e) then 1 else 0)"
  "msPeakRisk (rEvent e s) = msPeakRisk s" "msEnvelope (rEvent e s) = msEnvelope s"
  "msViolations (rEvent e s) = msViolations s" "msBlocked (rEvent e s) = msBlocked s"
  "msHostClock (rEvent e s) = msHostClock s"
  "msStartNanos (rEvent e s) = msStartNanos (advanceClock (WallClock e) s)"
  "msLatestNanos (rEvent e s) = msLatestNanos (advanceClock (WallClock e) s)"
  "msEventsObserved (rEvent e s) = msEventsObserved s + 1"
  "msDecisionsIssued (rEvent e s) = msDecisionsIssued s"
  "msViolationTally (rEvent e s) = msViolationTally s" "msUnmatched (rEvent e s) = msUnmatched s"
  by (simp_all add: rEvent_def Let_def split: sum.split)
    (simp_all add: advanceClock_def Let_def split: sum.split)

text \<open>The target an event shows, under the capability it is charged to.\<close>

definition shown_target :: "event \<Rightarrow> (kind \<times> string) option" where
  "shown_target e =
     (case ObservationOf (Some e) of
        Inl _ \<Rightarrow> None
      | Inr obs \<Rightarrow> (if obsTarget obs \<noteq> [] then Some (charged_kind e, obsTarget obs) else None))"

fun ring_push :: "event \<Rightarrow> event list \<times> nat \<times> nat \<Rightarrow> event list \<times> nat \<times> nat" where
  "ring_push e (r, i, n) =
     (if r = [] then (r, i, n) else (r[i := e], (i + 1) mod length r, min (Suc n) (length r)))"

lemma ring_of_push:
  "msRingLen s \<le> length (msRing s) \<Longrightarrow> ring_of (push e s) = ring_push e (ring_of s)"
  by (simp add: push_def ring_of_def)

lemma ring_of_updates [simp]:
  "ring_of (s\<lparr>msEventsObserved := x\<rparr>) = ring_of s" "ring_of (s\<lparr>msDroppedEvents := x\<rparr>) = ring_of s"
  by (simp_all add: ring_of_def)

lemma push_ring_cong: "ring_of s = ring_of t \<Longrightarrow> ring_of (push e s) = ring_of (push e t)"
  by (simp add: push_def ring_of_def)

lemma rEvent_ring: "ring_of (rEvent e s) = ring_of (push e s)"
  unfolding rEvent_def Let_def
  by (rule push_ring_cong) (simp split: sum.split)

lemma rEvent_seen:
  "msSeen (rEvent e s) =
     (case shown_target e of None \<Rightarrow> msSeen s | Some (k, t) \<Rightarrow> msSeen (markSeen k t s))"
  "msSeenFull (rEvent e s) =
     (case shown_target e of None \<Rightarrow> msSeenFull s | Some (k, t) \<Rightarrow> msSeenFull (markSeen k t s))"
  by (simp_all add: rEvent_def Let_def shown_target_def markSeen_def split: sum.split)

lemma raisePeak_fields [simp]:
  "ring_of (raisePeak x s) = ring_of s" "msSeen (raisePeak x s) = msSeen s"
  "msSeenFull (raisePeak x s) = msSeenFull s"
  "msMaxSeenTargets (raisePeak x s) = msMaxSeenTargets s"
  "msGrantUses (raisePeak x s) = msGrantUses s" "msFileWrites (raisePeak x s) = msFileWrites s"
  "msProcessStarts (raisePeak x s) = msProcessStarts s"
  "msNetworkBytesSent (raisePeak x s) = msNetworkBytesSent s"
  "msCapabilityUses (raisePeak x s) = msCapabilityUses s" "msEnvelope (raisePeak x s) = msEnvelope s"
  "msViolations (raisePeak x s) = msViolations s" "msBlocked (raisePeak x s) = msBlocked s"
  "msHostClock (raisePeak x s) = msHostClock s" "msStartNanos (raisePeak x s) = msStartNanos s"
  "msLatestNanos (raisePeak x s) = msLatestNanos s"
  "msEventsObserved (raisePeak x s) = msEventsObserved s"
  "msDecisionsIssued (raisePeak x s) = msDecisionsIssued s"
  "msViolationTally (raisePeak x s) = msViolationTally s" "msUnmatched (raisePeak x s) = msUnmatched s"
  by (simp_all add: raisePeak_def ring_of_def)

text \<open>The writes that are about decisions and the lifecycle touch no count an event advances.\<close>

definition event_part :: "memory_state \<Rightarrow> (event list \<times> nat \<times> nat) \<times> (kind \<times> string) set \<times> bool \<times> int
    \<times> int \<times> int \<times> int \<times> (kind \<rightharpoonup> int) \<times> envelope option" where
  "event_part s = (ring_of s, msSeen s, msSeenFull s, msMaxSeenTargets s, msFileWrites s,
     msProcessStarts s, msNetworkBytesSent s, msCapabilityUses s, msEnvelope s)"

lemma event_part_other:
  "event_part (rDecision d s) = event_part s" "event_part (rAllowed e d s) = event_part s"
  "event_part (rGrantUse i s) = event_part s"
  "event_part (the (SetStartedAt t (Some s))) = event_part s"
  "event_part (the (MarkEnforced (Some d) (Some s))) = event_part s"
  by (simp_all add: event_part_def rDecision_def rAllowed_def rGrantUse_def SetStartedAt_def
      MarkEnforced_def Let_def ring_of_def raisePeak_def split: sum.split)

lemma event_part_cong:
  assumes "event_part s = event_part t"
  shows "ring_of s = ring_of t" "msSeen s = msSeen t" "msSeenFull s = msSeenFull t"
    "msMaxSeenTargets s = msMaxSeenTargets t" "msFileWrites s = msFileWrites t"
    "msProcessStarts s = msProcessStarts t" "msNetworkBytesSent s = msNetworkBytesSent t"
    "msCapabilityUses s = msCapabilityUses t" "msEnvelope s = msEnvelope t"
  using assms by (simp_all add: event_part_def)

lemmas event_part_kept = event_part_other[THEN event_part_cong(1)] event_part_other[THEN event_part_cong(2)]
  event_part_other[THEN event_part_cong(3)] event_part_other[THEN event_part_cong(4)]
  event_part_other[THEN event_part_cong(5)] event_part_other[THEN event_part_cong(6)]
  event_part_other[THEN event_part_cong(7)] event_part_other[THEN event_part_cong(8)]
  event_part_other[THEN event_part_cong(9)]

lemma clock_kept:
  "msStartNanos (rDecision d s) = msStartNanos s" "msLatestNanos (rDecision d s) = msLatestNanos s"
  "msHostClock (rDecision d s) = msHostClock s"
  "msStartNanos (rAllowed e d s) = msStartNanos s" "msLatestNanos (rAllowed e d s) = msLatestNanos s"
  "msHostClock (rAllowed e d s) = msHostClock s"
  "msStartNanos (rGrantUse i s) = msStartNanos s" "msLatestNanos (rGrantUse i s) = msLatestNanos s"
  "msHostClock (rGrantUse i s) = msHostClock s"
  by (simp_all add: rDecision_def rAllowed_def rGrantUse_def Let_def raisePeak_def split: sum.split)

lemma grant_uses_kept [simp]:
  "msGrantUses (rDecision d s) = msGrantUses s" "msGrantUses (rAllowed e d s) = msGrantUses s"
  by (simp_all add: rDecision_def rAllowed_def Let_def raisePeak_def split: sum.split)

end
