(* ===== verification/SessionLaws.thy ===== *)
theory SessionLaws
  imports SessionState
begin

text \<open>
  What a session's state promises its readers, for every sequence of writes: the history is the last
  events, the novelty set is sound and bounded, the counters count what the validator asks about,
  stream time does not run backwards and the peak score is the maximum.
\<close>

section \<open>History\<close>

definition history :: "memory_state \<Rightarrow> event list" where
  "history s = ring_read (msRing s) (msRingNext s) (msRingLen s)"

definition history_ok :: "memory_state \<Rightarrow> bool" where
  "history_ok s \<longleftrightarrow> ring_ok (msRing s) (msRingNext s) (msRingLen s)"

definition history_cap :: "memory_state \<Rightarrow> nat" where
  "history_cap s = length (msRing s)"

lemma history_cong:
  assumes "ring_of s = ring_of t"
  shows "history s = history t" "history_ok s = history_ok t" "history_cap s = history_cap t"
  using assms by (simp_all add: ring_of_def history_def history_ok_def history_cap_def)

lemma push_full_length:
  "ring_ok r i n \<Longrightarrow> (if n < length r then n + 1 else n) = min (Suc n) (length r)"
  by (auto simp: ring_ok_def)

interpretation session_log: bounded_log history_ok history_cap history push
proof
  fix s :: memory_state and e :: event
  assume ok: "history_ok s"
  then have ring: "ring_ok (msRing s) (msRingNext s) (msRingLen s)" by (simp add: history_ok_def)
  show "history_ok (push e s)"
    using ring ring_write_ok[OF ring]
    by (cases "msRing s = []") (simp_all add: history_ok_def push_def push_full_length[OF ring])
  show "history_cap (push e s) = history_cap s" by (simp add: history_cap_def push_def)
  show "history (push e s) = last_n (history_cap s) (history s @ [e])"
    using ring ring_write_appends[OF ring]
    by (auto simp: history_def history_cap_def push_def push_full_length[OF ring] ring_ok_def)
  show "length (history s) \<le> history_cap s"
    using ring by (simp add: history_def history_cap_def ring_ok_def)
qed

lemma ring_of_apply: "ring_of (apply_op p s) = (case p of OpEvent e \<Rightarrow> ring_of (push e s) | _ \<Rightarrow> ring_of s)"
  by (cases p) (simp_all add: rEvent_ring event_part_kept)

lemma fold_push_cong: "ring_of s = ring_of t \<Longrightarrow> ring_of (fold push es s) = ring_of (fold push es t)"
proof (induction es arbitrary: s t)
  case (Cons e es)
  show ?case using Cons.IH[OF push_ring_cong[OF Cons.prems]] by simp
qed simp

lemma ring_of_run: "ring_of (run_ops ops s) = ring_of (fold push (events_of ops) s)"
proof (induction ops arbitrary: s)
  case (Cons p ops)
  have "ring_of (apply_op p s) = ring_of (fold push (events_of [p]) s)"
    using ring_of_apply[of p s] by (cases p) simp_all
  then have "ring_of (fold push (events_of ops) (apply_op p s)) =
      ring_of (fold push (events_of ops) (fold push (events_of [p]) s))"
    by (rule fold_push_cong)
  then show ?case using Cons.IH[of "apply_op p s"] by (cases p) simp_all
qed simp

lemma fresh_history:
  "history_ok (NewStateWith cfg)" "history (NewStateWith cfg) = []"
  "history_cap (NewStateWith cfg) = nat (default_bound DefaultHistorySize (scHistorySize cfg))"
  by (auto simp: NewStateWith_def Let_def history_ok_def history_def history_cap_def ring_ok_def)

lemma run_history:
  "history_ok (run_ops ops (NewStateWith cfg))"
  "history (run_ops ops (NewStateWith cfg)) =
     last_n (nat (default_bound DefaultHistorySize (scHistorySize cfg))) (events_of ops)"
  using ring_of_run[of ops "NewStateWith cfg", THEN history_cong(1)]
    ring_of_run[of ops "NewStateWith cfg", THEN history_cong(2)]
    session_log.fold_ok[OF fresh_history(1), of "events_of ops"]
    session_log.entries_from_empty[OF fresh_history(1) fresh_history(2), of "events_of ops" cfg]
  by (simp_all add: fresh_history)

lemma RecentEvents_history:
  assumes "history_ok s"
  shows "RecentEvents n (Some s) = last_n (nat n) (history s)"
proof -
  have "ring_read (msRing s) (msRingNext s) m = last_n m (history s)" if "m \<le> msRingLen s" for m
    using assms that by (simp add: history_ok_def history_def ring_ok_def ring_read_fewer)
  moreover have "msRingLen s = 0 \<Longrightarrow> history s = []" by (simp add: history_def)
  moreover have "last_n (nat n) (history s) = history s" if "int (msRingLen s) < n"
    using that by (simp add: history_def)
  moreover have "last_n (msRingLen s) (history s) = history s" by (simp add: history_def)
  ultimately show ?thesis by (auto simp: RecentEvents_def)
qed

section \<open>Novelty\<close>

definition seen_ok :: "memory_state \<Rightarrow> bool" where
  "seen_ok s \<longleftrightarrow> finite (msSeen s) \<and> 0 \<le> msMaxSeenTargets s \<and>
     int (card (msSeen s)) \<le> msMaxSeenTargets s"

lemma markSeen_ok: "seen_ok s \<Longrightarrow> seen_ok (markSeen k t s)"
  by (auto simp: seen_ok_def markSeen_def)

lemma markSeen_seen:
  "seen_ok s \<Longrightarrow> msSeen s \<subseteq> msSeen (markSeen k t s) \<and> msSeen (markSeen k t s) \<subseteq> insert (k, t) (msSeen s) \<and>
     (msMaxSeenTargets s = 0 \<or> msSeenFull (markSeen k t s) \<or> (k, t) \<in> msSeen (markSeen k t s)) \<and>
     (msSeenFull s \<longrightarrow> msSeenFull (markSeen k t s))"
  by (auto simp: markSeen_def)

lemma seen_ok_cong:
  "msSeen s = msSeen t \<Longrightarrow> msMaxSeenTargets s = msMaxSeenTargets t \<Longrightarrow> seen_ok s = seen_ok t"
  by (simp add: seen_ok_def)

lemma seen_ok_apply: "seen_ok s \<Longrightarrow> seen_ok (apply_op p s)"
proof (cases p)
  case (OpEvent e)
  assume "seen_ok s"
  then show ?thesis
    using OpEvent markSeen_ok[of s]
    by (cases "shown_target e") (auto simp: rEvent_seen seen_ok_def)
qed (simp_all add: seen_ok_def event_part_kept)

text \<open>What the novelty set holds after a run, from any state that is in order.\<close>

lemma run_seen:
  assumes "seen_ok s"
  shows "seen_ok (run_ops ops s) \<and> msMaxSeenTargets (run_ops ops s) = msMaxSeenTargets s \<and>
    msSeen s \<subseteq> msSeen (run_ops ops s) \<and>
    msSeen (run_ops ops s) \<subseteq> msSeen s \<union> {kt. \<exists>e\<in>set (events_of ops). shown_target e = Some kt} \<and>
    (msSeenFull s \<longrightarrow> msSeenFull (run_ops ops s)) \<and>
    (msMaxSeenTargets s = 0 \<or> msSeenFull (run_ops ops s) \<or>
      {kt. \<exists>e\<in>set (events_of ops). shown_target e = Some kt} \<subseteq> msSeen (run_ops ops s))"
  using assms
proof (induction ops arbitrary: s)
  case (Cons p ops)
  note IH = Cons.IH[OF seen_ok_apply[OF Cons.prems], of p]
  show ?case
  proof (cases p)
    case (OpEvent e)
    show ?thesis
    proof (cases "shown_target e")
      case None
      then show ?thesis using IH OpEvent by (auto simp: rEvent_seen)
    next
      case (Some kt)
      obtain k t where kt: "kt = (k, t)" by (cases kt)
      note marked = markSeen_seen[OF Cons.prems, of k t]
      have after: "msSeen (apply_op p s) = msSeen (markSeen k t s)"
        "msSeenFull (apply_op p s) = msSeenFull (markSeen k t s)"
        "msMaxSeenTargets (apply_op p s) = msMaxSeenTargets s"
        using OpEvent Some kt by (simp_all add: rEvent_seen)
      have "{kt. \<exists>e\<in>set (events_of (p # ops)). shown_target e = Some kt} =
          insert (k, t) {kt. \<exists>e\<in>set (events_of ops). shown_target e = Some kt}"
        using OpEvent Some kt by auto
      then show ?thesis using IH marked unfolding after by auto
    qed
  qed (use IH in \<open>auto simp: event_part_kept\<close>)
qed simp

lemma fresh_seen:
  "seen_ok (NewStateWith cfg)" "msSeen (NewStateWith cfg) = {}"
  "msMaxSeenTargets (NewStateWith cfg) = default_bound DefaultMaxSeenTargets (scMaxSeenTargets cfg)"
  by (auto simp: NewStateWith_def Let_def seen_ok_def default_bound_def DefaultMaxSeenTargets_def)

lemma shown_target_nonempty: "shown_target e = Some (k, t) \<Longrightarrow> t \<noteq> []"
  by (auto simp: shown_target_def split: sum.splits if_splits)

section \<open>Counters\<close>

lemma run_counts:
  "msFileWrites (run_ops ops s) = msFileWrites s +
     int (length (filter (\<lambda>e. ModifiesFilesystem (charged_kind e)) (events_of ops)))"
  "msProcessStarts (run_ops ops s) = msProcessStarts s +
     int (length (filter (\<lambda>e. SpawnsProcess (charged_kind e)) (events_of ops)))"
proof (induction ops arbitrary: s)
  case (Cons p ops)
  {
    case 1
    show ?case using Cons(1) by (cases p) (simp_all add: event_part_kept)
  next
    case 2
    show ?case using Cons(2) by (cases p) (simp_all add: event_part_kept)
  }
qed simp_all

section \<open>Clock\<close>

definition stream_clock_ok :: "memory_state \<Rightarrow> bool" where
  "stream_clock_ok s \<longleftrightarrow> msStartNanos s < 2 ^ 63 \<and> msLatestNanos s < 2 ^ 63"

lemma UnixNano_bound: "UnixNano t < 2 ^ 63"
  unfolding UnixNano_def by (rule signed64_bounds)

lemma apply_clock:
  "stream_clock_ok s \<Longrightarrow> stream_clock_ok (apply_op p s)"
  "msLatestNanos s \<le> msLatestNanos (apply_op p s)"
  "msStartNanos s \<noteq> 0 \<Longrightarrow> msStartNanos (apply_op p s) = msStartNanos s \<and>
     msHostClock (apply_op p s) = msHostClock s"
  using UnixNano_bound
  by (cases p; simp add: stream_clock_ok_def clock_kept advanceClock_def Let_def SetStartedAt_def
      MarkEnforced_def)+

lemma run_clock:
  "stream_clock_ok s \<Longrightarrow> stream_clock_ok (run_ops ops s) \<and> msLatestNanos s \<le> msLatestNanos (run_ops ops s) \<and>
     (msStartNanos s \<noteq> 0 \<longrightarrow> msStartNanos (run_ops ops s) = msStartNanos s \<and>
        msHostClock (run_ops ops s) = msHostClock s)"
proof (induction ops arbitrary: s)
  case (Cons p ops)
  then show ?case
    using apply_clock[of s p] Cons.IH[of "apply_op p s"] by force
qed simp

lemma elapsed_span:
  assumes "stream_clock_ok s" and "0 \<le> msStartNanos s" and "\<not> msHostClock s"
  shows "ElapsedSeconds_ms now (Some s) =
    (if msStartNanos s = 0 then 0
     else of_int (max 0 (msLatestNanos s - msStartNanos s)) / 1000000000)"
  using assms by (simp add: ElapsedSeconds_ms_def Let_def signed64_id stream_clock_ok_def)

section \<open>Peak risk\<close>

definition scores_of :: "state_op list \<Rightarrow> float64 list" where
  "scores_of ops = concat (map (\<lambda>p. case p of OpDecision d \<Rightarrow> [raScore (dRisk d)] | _ \<Rightarrow> []) ops)"

lemma scores_of_simps [simp]:
  "scores_of [] = []"
  "scores_of (p # ops) = (case p of OpDecision d \<Rightarrow> [raScore (dRisk d)] | _ \<Rightarrow> []) @ scores_of ops"
  by (simp_all add: scores_of_def)

lemma peak_kept:
  "msPeakRisk (rAllowed e d s) = msPeakRisk s" "msPeakRisk (rGrantUse i s) = msPeakRisk s"
  "msPeakRisk (the (SetStartedAt t (Some s))) = msPeakRisk s"
  "msPeakRisk (the (MarkEnforced (Some d) (Some s))) = msPeakRisk s"
  by (simp_all add: rAllowed_def rGrantUse_def SetStartedAt_def MarkEnforced_def Let_def split: sum.split)

definition float_max :: "float64 \<Rightarrow> float64 \<Rightarrow> float64" where
  "float_max x y = (if float_less x y then y else x)"

lemma raisePeak_max:
  "msPeakRisk s \<noteq> NaN \<Longrightarrow> float_geq (msPeakRisk s) (Finite 0) \<Longrightarrow>
     msPeakRisk (raisePeak x s) = float_max (msPeakRisk s) x"
  using float_geq_not_less[of "msPeakRisk s" x] float_geq_not_less[of "Finite 0" x]
    float_less_trans[of "Finite 0" "msPeakRisk s" x]
  by (cases "x = NaN") (auto simp: raisePeak_def float_max_def float_geq_def)

lemma rDecision_peak: "msPeakRisk (rDecision d s) = msPeakRisk (raisePeak (raScore (dRisk d)) s)"
  by (simp add: rDecision_def Let_def raisePeak_def)

lemma float_max_ok:
  "x \<noteq> NaN \<Longrightarrow> float_geq x (Finite 0) \<Longrightarrow> float_max x y \<noteq> NaN \<and> float_geq (float_max x y) (Finite 0)"
  by (cases x; cases y) (auto simp: float_max_def float_geq_def)

lemma run_peak:
  assumes "msPeakRisk s \<noteq> NaN" and "float_geq (msPeakRisk s) (Finite 0)"
  shows "msPeakRisk (run_ops ops s) = foldl float_max (msPeakRisk s) (scores_of ops)"
  using assms
proof (induction ops arbitrary: s)
  case (Cons p ops)
  have "msPeakRisk (apply_op p s) =
      (case p of OpDecision d \<Rightarrow> float_max (msPeakRisk s) (raScore (dRisk d)) | _ \<Rightarrow> msPeakRisk s)"
    using Cons.prems by (cases p) (simp_all add: rDecision_peak raisePeak_max peak_kept)
  then show ?case
    using Cons.IH[of "apply_op p s"] Cons.prems float_max_ok[OF Cons.prems]
    by (cases p) simp_all
qed simp

lemma foldl_float_max:
  assumes "x \<noteq> NaN"
  shows "foldl float_max x ys \<noteq> NaN" "foldl float_max x ys \<in> insert x (set ys)"
    "y \<in> insert x (set ys) \<Longrightarrow> \<not> float_less (foldl float_max x ys) y"
proof -
  have "foldl float_max x ys \<noteq> NaN \<and> foldl float_max x ys \<in> insert x (set ys) \<and>
      (\<forall>y\<in>insert x (set ys). \<not> float_less (foldl float_max x ys) y)"
    using assms
  proof (induction ys arbitrary: x)
    case (Cons z ys)
    have "float_max x z \<noteq> NaN" using Cons.prems by (auto simp: float_max_def)
    note IH = Cons.IH[OF this]
    moreover have "\<not> float_less (foldl float_max (float_max x z) ys) w" if "w \<in> {x, z}" for w
    proof
      assume less: "float_less (foldl float_max (float_max x z) ys) w"
      have "\<not> float_less (foldl float_max (float_max x z) ys) (float_max x z)" using IH by blast
      then show False
        using less that float_less_trans[of "foldl float_max (float_max x z) ys" x z]
          float_less_trans[of "foldl float_max (float_max x z) ys" z x] float_less_linear[of x z] Cons.prems
        by (cases "z = NaN") (auto simp: float_max_def split: if_splits)
    qed
    moreover have "float_max x z \<in> {x, z}" by (simp add: float_max_def)
    ultimately show ?case by auto
  qed simp
  then show "foldl float_max x ys \<noteq> NaN" "foldl float_max x ys \<in> insert x (set ys)"
    "y \<in> insert x (set ys) \<Longrightarrow> \<not> float_less (foldl float_max x ys) y" by blast+
qed

section \<open>Well-formedness\<close>

definition tally_ok :: "('k \<times> int) list option \<Rightarrow> bool" where
  "tally_ok t \<longleftrightarrow> distinct (map fst (tally_get t)) \<and> (\<forall>kn\<in>set (tally_get t). 0 < snd kn)"

definition state_ok :: "memory_state \<Rightarrow> bool" where
  "state_ok s \<longleftrightarrow> history_ok s \<and> seen_ok s \<and> dom (msCapabilityUses s) = set AllKinds \<and>
     length (msGrantUses s) = (case msEnvelope s of None \<Rightarrow> 0 | Some env \<Rightarrow> length (Grants env)) \<and>
     0 \<le> msFileWrites s \<and> 0 \<le> msProcessStarts s \<and> 0 \<le> msViolations s \<and> 0 \<le> msBlocked s \<and>
     (\<forall>n\<in>set (msGrantUses s). 0 \<le> n) \<and> msPeakRisk s \<noteq> NaN \<and> float_geq (msPeakRisk s) (Finite 0) \<and>
     tally_ok (msViolationTally s) \<and> tally_ok (msUnmatched s) \<and>
     length (tally_get (msUnmatched s)) \<le> maxUnmatchedTargets"

lemma tally_add_ok:
  assumes "tally_ok t"
  shows "tally_ok (map_option (tally_add k) t)"
    "length (tally_get (map_option (tally_add k) t)) \<le>
       (if k \<in> fst ` set (tally_get t) then length (tally_get t) else Suc (length (tally_get t)))"
proof -
  have "distinct (map fst (tally_add k u)) \<and> (\<forall>kn\<in>set (tally_add k u). 0 < snd kn) \<and>
      length (tally_add k u) = (if k \<in> fst ` set u then length u else Suc (length u))"
    if ok: "distinct (map fst u)" "\<forall>kn\<in>set u. 0 < snd kn" for u :: "('a \<times> int) list"
  proof -
    define m where "m = (case map_of u k of None \<Rightarrow> 0 | Some n \<Rightarrow> n) + (1 :: int)"
    have pos: "0 < m"
      using ok(2) unfolding m_def by (fastforce split: option.split dest: map_of_SomeD)
    have "\<forall>kn\<in>set (AList.update k n u). 0 < snd kn" if "0 < n" for n
      using ok(2) that by (induction u) auto
    moreover have "length (AList.update k n u) = (if k \<in> fst ` set u then length u else Suc (length u))"
      for n by (induction u) auto
    ultimately show ?thesis
      using pos ok(1) unfolding tally_add_def m_def[symmetric] by (simp add: distinct_update)
  qed
  then show "tally_ok (map_option (tally_add k) t)"
    "length (tally_get (map_option (tally_add k) t)) \<le>
       (if k \<in> fst ` set (tally_get t) then length (tally_get t) else Suc (length (tally_get t)))"
    using assms by (cases t; auto simp: tally_ok_def tally_get_def)+
qed

text \<open>The conjuncts of \<open>state_ok\<close>, kept one by one.\<close>

definition counters_ok :: "memory_state \<Rightarrow> bool" where
  "counters_ok s \<longleftrightarrow> dom (msCapabilityUses s) = set AllKinds \<and>
     length (msGrantUses s) = (case msEnvelope s of None \<Rightarrow> 0 | Some env \<Rightarrow> length (Grants env)) \<and>
     0 \<le> msFileWrites s \<and> 0 \<le> msProcessStarts s \<and> 0 \<le> msViolations s \<and> 0 \<le> msBlocked s \<and>
     (\<forall>n\<in>set (msGrantUses s). 0 \<le> n)"

definition tallies_ok :: "memory_state \<Rightarrow> bool" where
  "tallies_ok s \<longleftrightarrow> tally_ok (msViolationTally s) \<and> tally_ok (msUnmatched s) \<and>
     length (tally_get (msUnmatched s)) \<le> maxUnmatchedTargets"

lemma charge_budgets_dom:
  "dom (msCapabilityUses (charge_budgets e k s)) = dom (msCapabilityUses s)"
  by (auto simp: charge_budgets_def Let_def split: option.split)

lemma rEvent_dom: "dom (msCapabilityUses (rEvent e s)) = dom (msCapabilityUses s)"
  by (simp add: rEvent_def Let_def charge_budgets_dom split: sum.split)

lemma rDecision_counts:
  "msViolations (rDecision d s) = msViolations s + (if is_violation (dVerdict d) then 1 else 0)"
  "msBlocked (rDecision d s) = msBlocked s + (if dAction d = ActionBlock \<and> dEnforced d then 1 else 0)"
  "msViolationTally (rDecision d s) = (if is_violation (dVerdict d)
     then map_option (tally_add (dVerdict d, dMatchedRule d)) (msViolationTally s) else msViolationTally s)"
  "msUnmatched (rDecision d s) = msUnmatched s"
  by (simp_all add: rDecision_def Let_def)

lemma rAllowed_counts:
  "msViolations (rAllowed e d s) = msViolations s" "msBlocked (rAllowed e d s) = msBlocked s"
  "msViolationTally (rAllowed e d s) = msViolationTally s"
  by (simp_all add: rAllowed_def Let_def split: sum.split)

lemma other_counts:
  "msViolations (rGrantUse i s) = msViolations s" "msBlocked (rGrantUse i s) = msBlocked s"
  "msViolationTally (rGrantUse i s) = msViolationTally s" "msUnmatched (rGrantUse i s) = msUnmatched s"
  "msViolations (the (SetStartedAt t (Some s))) = msViolations s"
  "msBlocked (the (SetStartedAt t (Some s))) = msBlocked s"
  "msGrantUses (the (SetStartedAt t (Some s))) = msGrantUses s"
  "msViolationTally (the (SetStartedAt t (Some s))) = msViolationTally s"
  "msUnmatched (the (SetStartedAt t (Some s))) = msUnmatched s"
  "msViolations (the (MarkEnforced (Some d) (Some s))) = msViolations s"
  "msGrantUses (the (MarkEnforced (Some d) (Some s))) = msGrantUses s"
  "msViolationTally (the (MarkEnforced (Some d) (Some s))) = msViolationTally s"
  "msUnmatched (the (MarkEnforced (Some d) (Some s))) = msUnmatched s"
  "msBlocked (the (MarkEnforced (Some d) (Some s))) =
     msBlocked s + (if dEnforced d \<and> dAction d = ActionBlock then 1 else 0)"
  by (simp_all add: rGrantUse_def SetStartedAt_def MarkEnforced_def)

lemma rGrantUse_uses:
  "length (msGrantUses (rGrantUse i s)) = length (msGrantUses s)"
  "(\<forall>n\<in>set (msGrantUses s). 0 \<le> n) \<Longrightarrow> \<forall>n\<in>set (msGrantUses (rGrantUse i s)). 0 \<le> n"
proof -
  show "\<forall>n\<in>set (msGrantUses (rGrantUse i s)). 0 \<le> n" if "\<forall>n\<in>set (msGrantUses s). 0 \<le> n"
  proof (cases "i < 0 \<or> i \<ge> int (length (msGrantUses s))")
    case False
    then have "0 \<le> msGrantUses s ! nat i" using that by (simp add: nat_less_iff)
    then show ?thesis
      using that False set_update_subset_insert[of "msGrantUses s" "nat i" "msGrantUses s ! nat i + 1"]
      by (auto simp: rGrantUse_def)
  qed (use that in \<open>simp add: rGrantUse_def\<close>)
qed (simp add: rGrantUse_def)

lemma counters_ok_apply: "counters_ok s \<Longrightarrow> counters_ok (apply_op p s)"
  using rGrantUse_uses(2)[of s]
  by (cases p) (simp_all add: counters_ok_def rEvent_dom rDecision_counts rAllowed_counts other_counts
      rGrantUse_uses(1) event_part_kept)

lemma rAllowed_tallies: "tallies_ok s \<Longrightarrow> tallies_ok (rAllowed e d s)"
proof (cases "msUnmatched (rAllowed e d s) = msUnmatched s")
  case False
  assume ok: "tallies_ok s"
  from False obtain k where "k \<in> fst ` set (tally_get (msUnmatched s)) \<or>
      length (tally_get (msUnmatched s)) < maxUnmatchedTargets"
    "msUnmatched (rAllowed e d s) = map_option (tally_add k) (msUnmatched s)"
    by (auto simp: rAllowed_def Let_def split: sum.splits if_splits)
  then show ?thesis
    using ok tally_add_ok[of "msUnmatched s" k]
    by (auto simp: tallies_ok_def rAllowed_counts split: if_splits)
qed (simp add: tallies_ok_def rAllowed_counts)

lemma tallies_ok_apply: "tallies_ok s \<Longrightarrow> tallies_ok (apply_op p s)"
  using rAllowed_tallies[of s]
  by (cases p) (simp_all add: tallies_ok_def tally_add_ok(1) rDecision_counts other_counts)

definition peak_ok :: "memory_state \<Rightarrow> bool" where
  "peak_ok s \<longleftrightarrow> msPeakRisk s \<noteq> NaN \<and> float_geq (msPeakRisk s) (Finite 0)"

lemma peak_ok_apply: "peak_ok s \<Longrightarrow> peak_ok (apply_op p s)"
  using float_max_ok[of "msPeakRisk s"]
  by (cases p) (simp_all add: peak_ok_def rDecision_peak raisePeak_max peak_kept)

lemma history_ok_apply: "history_ok s \<Longrightarrow> history_ok (apply_op p s)"
proof -
  assume ok: "history_ok s"
  have "ring_of (apply_op p s) = ring_of (case p of OpEvent e \<Rightarrow> push e s | _ \<Rightarrow> s)"
    using ring_of_apply[of p s] by (cases p) simp_all
  then have "history_ok (apply_op p s) = history_ok (case p of OpEvent e \<Rightarrow> push e s | _ \<Rightarrow> s)"
    by (rule history_cong(2))
  then show ?thesis
    using ok session_log.append_ok[OF ok] by (cases p) (simp_all del: apply_op.simps)
qed

lemma state_ok_parts:
  "state_ok s \<longleftrightarrow> history_ok s \<and> seen_ok s \<and> counters_ok s \<and> peak_ok s \<and> tallies_ok s"
  by (simp add: state_ok_def counters_ok_def peak_ok_def tallies_ok_def conj_ac)

lemma state_ok_apply: "state_ok s \<Longrightarrow> state_ok (apply_op p s)"
  by (simp add: state_ok_parts history_ok_apply seen_ok_apply counters_ok_apply peak_ok_apply
      tallies_ok_apply)

lemma state_ok_fresh: "state_ok (NewStateWith cfg)"
  using fresh_history(1)[of cfg] fresh_seen(1)[of cfg]
  by (auto simp: state_ok_parts counters_ok_def peak_ok_def tallies_ok_def NewStateWith_def Let_def
      tally_ok_def tally_get_def float_geq_def dom_def split: option.split if_splits)

lemma state_ok_release: "state_ok s \<Longrightarrow> state_ok (the (release (Some s)))"
  by (simp add: state_ok_parts release_def history_ok_def ring_ok_def seen_ok_def counters_ok_def
      peak_ok_def tallies_ok_def tally_ok_def tally_get_def)

section \<open>Properties\<close>

text \<open>Whatever a session records and in whatever order, its state stays well formed: the ring's
  indices are in bounds, the novelty set and the unmatched tally stay within their bounds, every
  capability of the catalog and no other has a counter, there is one use counter per grant, no count
  is negative, no tally entry is empty or doubled, and the peak is a number of at least zero.\<close>

theorem every_run_is_well_formed:
  "state_ok (run_ops ops (NewStateWith cfg)) \<and>
   state_ok (the (release (Some (run_ops ops (NewStateWith cfg)))))"
  using run_invariant[of state_ok, OF state_ok_apply state_ok_fresh] state_ok_release by blast

text \<open>C25: \<open>RecentEvents\<close> reads the ring as a list: after any writes it gives the last \<open>n\<close> events
  recorded, oldest first, and never more than the configured depth. Writes of other kinds between
  the events do not disturb it, and a negative depth keeps nothing.\<close>

theorem recent_events_are_the_last:
  "RecentEvents n (Some (run_ops ops (NewStateWith cfg))) =
   last_n (min (nat n) (nat (default_bound DefaultHistorySize (scHistorySize cfg)))) (events_of ops)"
  using RecentEvents_history[OF run_history(1)] run_history(2)[of ops cfg] by simp

text \<open>C18: the novelty set never launders a target. A target reported as seen was shown by a recorded
  event under that very capability; the set holds no more targets than its ceiling; and while it is
  not saturated every target a recorded event showed is reported as seen. At the ceiling it can only
  err towards novel.\<close>

theorem novelty_errs_towards_novel:
  assumes "s = Some (run_ops ops (NewStateWith cfg))"
  shows "(SeenTargets_ms s k t \<longrightarrow> (\<exists>e\<in>set (events_of ops). shown_target e = Some (k, t))) \<and>
    (\<not> SeenTargetsSaturated s \<and> 0 \<le> scMaxSeenTargets cfg \<longrightarrow>
       (SeenTargets_ms s k t \<longleftrightarrow> (\<exists>e\<in>set (events_of ops). shown_target e = Some (k, t)))) \<and>
    int (card (msSeen (the s))) \<le> default_bound DefaultMaxSeenTargets (scMaxSeenTargets cfg)"
proof -
  define r where "r = run_ops ops (NewStateWith cfg)"
  note run = run_seen[OF fresh_seen(1)[of cfg], of ops, folded r_def, unfolded fresh_seen(2,3)]
  have s: "s = Some r" using assms by (simp add: r_def)
  have bound: "default_bound DefaultMaxSeenTargets (scMaxSeenTargets cfg) \<noteq> 0"
    if "0 \<le> scMaxSeenTargets cfg"
    using that by (simp add: default_bound_def DefaultMaxSeenTargets_def)
  have sound: "(k, t) \<in> msSeen r \<Longrightarrow> \<exists>e\<in>set (events_of ops). shown_target e = Some (k, t)"
    using run by blast
  have complete: "(k, t) \<in> msSeen r"
    if "\<not> msSeenFull r" "0 \<le> scMaxSeenTargets cfg" "e \<in> set (events_of ops)"
      "shown_target e = Some (k, t)" for e
    using run bound[OF that(2)] that by blast
  show ?thesis
    using sound complete run shown_target_nonempty
    by (auto simp: s SeenTargets_ms_def SeenTargetsSaturated_def seen_ok_def)
qed

theorem novelty_errs_towards_novel_witness:
  "\<not> SeenTargets_ms (Some (run_ops [OpEvent (observed_event KindFileRead)] (NewState [] None)))
     KindFileWrite ''/src/main.c''"
  using novelty_errs_towards_novel
    [of "Some (run_ops [OpEvent (observed_event KindFileRead)] (NewState [] None))"
        "[OpEvent (observed_event KindFileRead)]"
        "\<lparr>scSessionID = [], scEnvelope = None, scStartedAt = 0, scHistorySize = 0, scMaxSeenTargets = 0\<rparr>"
        KindFileWrite "''/src/main.c''"]
  by (auto simp: NewState_def shown_target_def charged_kind_def Let_def split: if_splits)

text \<open>The counters count what the validator asks about. The write budget is charged once for each
  event whose capability modifies the filesystem and the process budget once for each that spawns a
  process, whatever else was recorded; and the capability charged is the one the validator judges
  the event under, whenever it can judge it at all.\<close>

theorem budgets_charge_what_the_validator_checks:
  "FileWriteCount (session_view now (Some (run_ops ops (NewStateWith cfg)))) =
     int (length (filter (\<lambda>e. ModifiesFilesystem (charged_kind e)) (events_of ops))) \<and>
   ProcessCount (session_view now (Some (run_ops ops (NewStateWith cfg)))) =
     int (length (filter (\<lambda>e. SpawnsProcess (charged_kind e)) (events_of ops))) \<and>
   charged_kind e =
     (case ObservationOf (Some e) of
        Inl _ \<Rightarrow> evCapability e
      | Inr obs \<Rightarrow> (if kind_string (obsKind obs) = [] then evCapability e else obsKind obs))"
  by (simp add: session_view_def FileWriteCount_ms_def ProcessCount_ms_def run_counts charged_kind_def
      split: sum.split) (simp add: NewStateWith_def Let_def)

text \<open>time on the stream clock does not run backwards. For a session measured by its own events,
  all from 1970 on, recording anything more never lowers the elapsed time, whatever wall clocks the
  further events carry: a spent time budget does not come back.\<close>

theorem stream_time_never_runs_back:
  assumes "s = run_ops ops (NewStateWith cfg)" and "s' = run_ops rest s"
    and "0 \<le> msStartNanos s'" and "\<not> msHostClock s'"
  shows "0 \<le> ElapsedSeconds_ms now (Some s) \<and>
    ElapsedSeconds_ms now (Some s) \<le> ElapsedSeconds_ms now' (Some s')"
proof -
  have "stream_clock_ok (NewStateWith cfg)"
    using UnixNano_bound by (simp add: NewStateWith_def Let_def stream_clock_ok_def)
  then have ok: "stream_clock_ok s" using run_clock assms(1) by blast
  note later = run_clock[OF ok, of rest, folded assms(2)]
  have "0 \<le> ElapsedSeconds_ms now' (Some s')"
    using later assms(3,4) by (simp add: elapsed_span)
  moreover have "ElapsedSeconds_ms now (Some s) \<le> ElapsedSeconds_ms now' (Some s') \<and>
      0 \<le> ElapsedSeconds_ms now (Some s)" if "msStartNanos s \<noteq> 0"
    using that later ok assms(3,4) by (simp add: elapsed_span divide_right_mono del: of_int_max) linarith
  moreover have "ElapsedSeconds_ms now (Some s) = 0" if "msStartNanos s = 0"
    using that by (simp add: ElapsedSeconds_ms_def)
  ultimately show ?thesis by fastforce
qed

theorem stream_time_never_runs_back_witness:
  "0 \<le> ElapsedSeconds_ms 0 (Some (NewState [] None)) \<and>
   ElapsedSeconds_ms 0 (Some (NewState [] None)) \<le>
     ElapsedSeconds_ms 0 (Some (run_ops [OpEvent (zero_event\<lparr>WallClock := unix_epoch + 1\<rparr>)]
       (NewState [] None)))"
  by (rule stream_time_never_runs_back[where ops = "[]" and
        rest = "[OpEvent (zero_event\<lparr>WallClock := unix_epoch + 1\<rparr>)]" and
        cfg = "\<lparr>scSessionID = [], scEnvelope = None, scStartedAt = 0, scHistorySize = 0, scMaxSeenTargets = 0\<rparr>"])
    (simp add: NewState_def, rule refl,
     simp_all add: NewState_def NewStateWith_def Let_def advanceClock_def UnixNano_def signed64_id
       unix_epoch_def zero_event_def)

text \<open>the peak risk of a session is the highest score any recorded decision carried. It is zero or
  one of the scores, no score exceeds it, a score that is not a number never becomes it, and it never
  falls as more is recorded.\<close>

theorem peak_is_the_highest_score:
  "PeakRiskScore (Some (run_ops ops (NewStateWith cfg))) \<in> insert (Finite 0) (set (scores_of ops)) \<and>
   PeakRiskScore (Some (run_ops ops (NewStateWith cfg))) \<noteq> NaN \<and>
   list_all (\<lambda>x. \<not> float_less (PeakRiskScore (Some (run_ops ops (NewStateWith cfg)))) x) (scores_of ops) \<and>
   \<not> float_less (PeakRiskScore (Some (run_ops (ops @ rest) (NewStateWith cfg))))
       (PeakRiskScore (Some (run_ops ops (NewStateWith cfg))))"
proof -
  have fresh: "msPeakRisk (NewStateWith cfg) = Finite 0" by (simp add: NewStateWith_def Let_def)
  define x where "x = foldl float_max (Finite 0) (scores_of ops)"
  have zero: "float_geq (Finite 0) (Finite 0)" by (simp add: float_geq_def)
  have run: "msPeakRisk (run_ops ops (NewStateWith cfg)) = x"
    using run_peak[of "NewStateWith cfg" ops] zero by (simp add: fresh x_def)
  have x: "x \<noteq> NaN" "x \<in> insert (Finite 0) (set (scores_of ops))"
    "\<And>y. y \<in> insert (Finite 0) (set (scores_of ops)) \<Longrightarrow> \<not> float_less x y"
    using foldl_float_max[of "Finite 0"] unfolding x_def by blast+
  have "float_geq x (Finite 0)" using x(1,3) float_geq_not_less[of x "Finite 0"] by simp
  then have "msPeakRisk (run_ops (ops @ rest) (NewStateWith cfg)) = foldl float_max x (scores_of rest)"
    using run_peak[of "run_ops ops (NewStateWith cfg)" rest] x(1) by (simp add: run)
  then show ?thesis
    using x foldl_float_max(3)[OF x(1), of x "scores_of rest"]
    by (auto simp: PeakRiskScore_def run list_all_iff)
qed

end
