(* ===== verification/Pipeline.thy ===== *)
theory Pipeline
  imports SessionState
begin

text \<open>
  The event pipeline of one session (\<open>internal/pipeline\<close>): stages that read, a decision assembled
  from what they established, and one commit to the session's state after all of them. Validator,
  risk engine and policy engine are the interfaces the stages are built on.

  The pipeline's clock is a sequence of readings and the index of the next one. A stage gets a
  reading too, the one the session's state answers when it is asked for elapsed time. A stage ends,
  fails or panics; a panic outside a stage stops the event and is an error here.
\<close>

section \<open>Data\<close>

record proc_ctx =
  pcEvent :: "event option"
  pcSessionID :: string
  pcStarted :: time
  pcEnvelope :: "envelope option"
  pcMode :: mode
  pcState :: "memory_state option"
  pcValidation :: "validation option"
  pcRisk :: "risk_assessment option"
  pcOutcome :: "policy_outcome option"
  pcDecision :: "decision option"
  pcFailedStage :: string
  pcErr :: go_error

datatype stage_end = Finished | Failed msg | Panicked msg

record stage =
  sgName :: string
  sgExecute :: "time \<Rightarrow> proc_ctx \<Rightarrow> proc_ctx \<times> stage_end"

type_synonym error_handler = "proc_ctx \<Rightarrow> string \<Rightarrow> msg \<Rightarrow> decision option"

record stats_collector =
  scEvents :: "64 word"
  scDecisions :: "64 word"
  scErrors :: "64 word"
  scTotalLatency :: "64 word"
  scStages :: "string \<rightharpoonup> 64 word \<times> 64 word"
  scRing :: "64 word list"
  scRingNext :: nat

record pipeline_stats =
  psEventsProcessed :: "64 word"
  psDecisionsIssued :: "64 word"
  psErrors :: "64 word"
  psAvgLatency :: duration
  psP99Latency :: duration
  psQueueDepth :: int
  psStageLatencies :: "string \<rightharpoonup> duration"

record pipeline =
  plSessionID :: string
  plEnvelope :: "envelope option"
  plMode :: mode
  plState :: "memory_state option"
  plStages :: "stage list"
  plHandler :: error_handler
  plSink :: "(decision \<Rightarrow> go_error) option"
  plNow :: "nat \<Rightarrow> time"
  plTick :: nat
  plStats :: stats_collector

section \<open>Statistics\<close>

definition latencyWindow :: nat where "latencyWindow = 1024"

definition newStatsCollector :: "stage list \<Rightarrow> stats_collector" where
  "newStatsCollector stages =
     \<lparr>scEvents = 0, scDecisions = 0, scErrors = 0, scTotalLatency = 0,
      scStages = (\<lambda>n. if n \<in> sgName ` set stages then Some (0, 0) else None),
      scRing = replicate latencyWindow 0, scRingNext = 0\<rparr>"

definition keep_latency :: "64 word \<Rightarrow> stats_collector \<Rightarrow> stats_collector" where
  "keep_latency w c =
     c\<lparr>scRingNext := scRingNext c + 1,
       scRing := (scRing c)[scRingNext c mod length (scRing c) := w]\<rparr>"

definition observe :: "duration \<Rightarrow> bool \<Rightarrow> stats_collector \<Rightarrow> stats_collector" where
  "observe d emitted c =
     (let c = c\<lparr>scEvents := scEvents c + 1\<rparr>;
          c = (if emitted then c\<lparr>scDecisions := scDecisions c + 1\<rparr> else c);
          d = (if d < 0 then 0 else d);
          c = c\<lparr>scTotalLatency := scTotalLatency c + word_of_int d\<rparr>
      in keep_latency (word_of_int d) c)"

definition observeStage :: "string \<Rightarrow> duration \<Rightarrow> stats_collector \<Rightarrow> stats_collector" where
  "observeStage name d c =
     (case scStages c name of
        None \<Rightarrow> c
      | Some (spent, calls) \<Rightarrow>
          (if d < 0 then c
           else c\<lparr>scStages := (scStages c)(name \<mapsto> (spent + word_of_int d, calls + 1))\<rparr>))"

definition count_error :: "stats_collector \<Rightarrow> stats_collector" where
  "count_error c = c\<lparr>scErrors := scErrors c + 1\<rparr>"

text \<open>
  \<open>int(math.Ceil(q*float64(n))) - 1\<close> with the quantile in hundredths. At the one quantile and the
  window sizes the source uses the rounding of the product does not change the ceiling.
\<close>

definition percentile :: "nat \<Rightarrow> stats_collector \<Rightarrow> duration" where
  "percentile q c =
     (let n = min (scRingNext c) (length (scRing c)) in
      if n = 0 then 0
      else
        (let samples = sort (take n (scRing c));
             idx = (q * n + 99) div 100 - 1;
             idx = (if idx \<ge> n then n - 1 else idx)
         in sint (samples ! idx)))"

definition stats_snapshot :: "stats_collector \<Rightarrow> pipeline_stats" where
  "stats_snapshot c =
     \<lparr>psEventsProcessed = scEvents c, psDecisionsIssued = scDecisions c, psErrors = scErrors c,
      psAvgLatency = (if scEvents c > 0 then sint (scTotalLatency c div scEvents c) else 0),
      psP99Latency = percentile 99 c, psQueueDepth = 0,
      psStageLatencies = (\<lambda>n. case scStages c n of
          None \<Rightarrow> None
        | Some (spent, calls) \<Rightarrow> (if calls > 0 then Some (sint (spent div calls)) else None))\<rparr>"

section \<open>Stages\<close>

text \<open>An engine that is not configured is \<open>None\<close>; an engine may break its contract and return
  neither a result nor an error.\<close>

type_synonym validator_fn =
  "envelope option \<Rightarrow> event option \<Rightarrow> session_state option \<Rightarrow> msg + validation option"
type_synonym risk_fn =
  "event option \<Rightarrow> validation \<Rightarrow> envelope option \<Rightarrow> memory_state option \<Rightarrow> time \<Rightarrow>
     msg + risk_assessment option"
type_synonym policy_fn = "evaluate_request \<Rightarrow> msg + policy_outcome option"

definition validate_execute :: "validator_fn option \<Rightarrow> time \<Rightarrow> proc_ctx \<Rightarrow> proc_ctx \<times> stage_end" where
  "validate_execute v now pc =
     (case v of
        None \<Rightarrow> (pc, Failed (lit ''validate: no validator configured''))
      | Some v \<Rightarrow>
          (case v (pcEnvelope pc) (pcEvent pc) (map_option (\<lambda>s. session_view now (Some s)) (pcState pc)) of
             Inl err \<Rightarrow> (pc, Failed (Fmt ''validate: %w'' [AMsg err]))
           | Inr None \<Rightarrow> (pc, Failed (lit ''validate: validator returned no result''))
           | Inr (Some res) \<Rightarrow> (pc\<lparr>pcValidation := Some res\<rparr>, Finished)))"

definition NewValidateStage :: "validator_fn option \<Rightarrow> stage" where
  "NewValidateStage v = \<lparr>sgName = ''validate'', sgExecute = validate_execute v\<rparr>"

definition score_execute :: "risk_fn option \<Rightarrow> time \<Rightarrow> proc_ctx \<Rightarrow> proc_ctx \<times> stage_end" where
  "score_execute e now pc =
     (case e of
        None \<Rightarrow> (pc, Failed (lit ''score: no risk engine configured''))
      | Some e \<Rightarrow>
          (case pcValidation pc of
             None \<Rightarrow> (pc, Failed (lit ''score: no validation result; an event that was never validated cannot be scored''))
           | Some v \<Rightarrow>
               (case e (pcEvent pc) v (pcEnvelope pc) (pcState pc) now of
                  Inl err \<Rightarrow> (pc, Failed (Fmt ''score: %w'' [AMsg err]))
                | Inr None \<Rightarrow> (pc, Failed (lit ''score: risk engine returned no assessment''))
                | Inr (Some a) \<Rightarrow> (pc\<lparr>pcRisk := Some a\<rparr>, Finished))))"

definition NewScoreStage :: "risk_fn option \<Rightarrow> stage" where
  "NewScoreStage e = \<lparr>sgName = ''score'', sgExecute = score_execute e\<rparr>"

definition decide_execute :: "policy_fn option \<Rightarrow> time \<Rightarrow> proc_ctx \<Rightarrow> proc_ctx \<times> stage_end" where
  "decide_execute e now pc =
     (case e of
        None \<Rightarrow> (pc, Failed (lit ''decide: no policy engine configured''))
      | Some e \<Rightarrow>
          (case pcValidation pc of
             None \<Rightarrow> (pc, Failed (lit ''decide: no validation result; policy cannot evaluate an event that was never validated''))
           | Some v \<Rightarrow>
               (case e \<lparr>rqEvent = pcEvent pc, rqValidation = Some v, rqRisk = pcRisk pc,
                        rqEnvelope = pcEnvelope pc, rqMode = pcMode pc\<rparr> of
                  Inl err \<Rightarrow> (pc, Failed (Fmt ''decide: %w'' [AMsg err]))
                | Inr None \<Rightarrow> (pc, Failed (lit ''decide: policy returned no outcome''))
                | Inr (Some out) \<Rightarrow> (pc\<lparr>pcOutcome := Some out\<rparr>, Finished))))"

definition NewDecideStage :: "policy_fn option \<Rightarrow> stage" where
  "NewDecideStage e = \<lparr>sgName = ''decide'', sgExecute = decide_execute e\<rparr>"

section \<open>Decisions\<close>

definition event_or_zero :: "proc_ctx \<Rightarrow> event" where
  "event_or_zero pc = (case pcEvent pc of None \<Rightarrow> zero_event | Some e \<Rightarrow> e)"

definition decisionID :: "proc_ctx \<Rightarrow> event \<Rightarrow> string" where
  "decisionID pc e =
     (if evID e \<noteq> [] then ''d-'' @ evID e
      else ''d-'' @ pcSessionID pc @ ''-'' @ itoa (uint (evSequence e)))"

text \<open>
  \<open>IndeterminateHandler.Handle\<close>: a stage failure becomes a decision of its own. Its \<open>decisionID\<close>
  reads the event, which the pipeline never leaves out.
\<close>

definition handle_failure :: "action \<Rightarrow> error_handler" where
  "handle_failure act pc stg err =
     (let e = event_or_zero pc in
      Some \<lparr>dID = decisionID pc e, dSessionID = pcSessionID pc,
        dEventID = (case pcEvent pc of None \<Rightarrow> [] | Some e \<Rightarrow> evID e),
        dTimestamp = (case pcEvent pc of
            None \<Rightarrow> pcStarted pc
          | Some e \<Rightarrow> (if WallClock e \<noteq> 0 then WallClock e else pcStarted pc)),
        dAction = act, dVerdict = VerdictIndeterminate, dRisk = unscored,
        dReasoning =
          (case pcValidation pc of None \<Rightarrow> [] | Some v \<Rightarrow> vrReasoning v) @
          [\<lparr>rsStage = ''pipeline'', rsConclusion = Fmt ''stage %q failed'' [AStr stg],
            rsDetail = Fmt ''%v; the event could not be classified, and an unclassified event is reported rather than dropped''
              [AMsg err]\<rparr>],
        dMatchedGrant = None, dMatchedRule = [], dLatency = 0, dEnforced = False\<rparr>)"

definition ActionForFailure :: action where "ActionForFailure = ActionRequestApproval"

definition NewErrorHandler :: error_handler where
  "NewErrorHandler = handle_failure ActionForFailure"

definition NewErrorHandlerWithAction :: "action \<Rightarrow> error_handler" where
  "NewErrorHandlerWithAction a = handle_failure a"

section \<open>The clock\<close>

definition read_now :: "pipeline \<Rightarrow> time \<times> pipeline" where
  "read_now p = (plNow p (plTick p), p\<lparr>plTick := Suc (plTick p)\<rparr>)"

text \<open>\<open>t.Sub(u)\<close> saturates at the bounds of a duration.\<close>

definition time_sub :: "time \<Rightarrow> time \<Rightarrow> duration" where
  "time_sub t u = max (- (2 ^ 63)) (min (2 ^ 63 - 1) (t - u))"

definition timestampOf :: "event \<Rightarrow> pipeline \<Rightarrow> time \<times> pipeline" where
  "timestampOf e p = (if WallClock e \<noteq> 0 then (WallClock e, p) else read_now p)"

section \<open>Processing an event\<close>

definition execute :: "stage \<Rightarrow> time \<Rightarrow> proc_ctx \<Rightarrow> proc_ctx \<times> go_error" where
  "execute s now pc =
     (case sgExecute s now pc of
        (pc, Finished) \<Rightarrow> (pc, None)
      | (pc, Failed err) \<Rightarrow> (pc, Some err)
      | (pc, Panicked v) \<Rightarrow> (pc, Some (Fmt ''stage panicked: %v'' [AMsg v])))"

fun runStages :: "stage list \<Rightarrow> proc_ctx \<Rightarrow> pipeline \<Rightarrow> proc_ctx \<times> (string \<times> msg) option \<times> pipeline" where
  "runStages [] pc p = (pc, None, p)"
| "runStages (s # ss) pc p =
     (let (start, p) = read_now p;
          (now, p) = read_now p;
          (pc, err) = execute s now pc;
          (fin, p) = read_now p;
          p = p\<lparr>plStats := observeStage (sgName s) (time_sub fin start) (plStats p)\<rparr>
      in
      case err of
        Some e \<Rightarrow> (pc, Some (sgName s, e), p)
      | None \<Rightarrow> runStages ss pc p)"

definition not_assessed :: reasoning_step where
  "not_assessed = \<lparr>rsStage = ''risk'', rsConclusion = lit ''not assessed'',
     rsDetail = lit ''no risk stage ran, so this decision carries no score; an empty risk level is absence of evidence, not a low score''\<rparr>"

text \<open>\<open>finalize\<close> reads the event, the validation and the outcome; it is not under the stages' panic
  recovery, so a missing one is a nil dereference: \<open>None\<close>.\<close>

definition finalize :: "proc_ctx \<Rightarrow> pipeline \<Rightarrow> (decision \<times> pipeline) option" where
  "finalize pc p =
     (case (pcEvent pc, pcValidation pc, pcOutcome pc) of
        (Some e, Some v, Some out) \<Rightarrow>
          (let (ts, p) = timestampOf e p;
               (fin, p) = read_now p
           in
           Some (\<lparr>dID = decisionID pc e, dSessionID = pcSessionID pc, dEventID = evID e, dTimestamp = ts,
             dAction = ocAction out, dVerdict = vrVerdict v,
             dRisk = (case pcRisk pc of Some r \<Rightarrow> r | None \<Rightarrow> unscored),
             dReasoning = vrReasoning v @
               (case pcRisk pc of Some r \<Rightarrow> [] | None \<Rightarrow> [not_assessed]) @ ocReasoning out,
             dMatchedGrant = (if vrVerdict v = VerdictWithinEnvelope then vrMatchedGrant v else None),
             dMatchedRule = ocRuleID out, dLatency = time_sub fin (pcStarted pc), dEnforced = False\<rparr>, p))
      | _ \<Rightarrow> None)"

definition commit :: "proc_ctx \<Rightarrow> memory_state option" where
  "commit pc =
     (case pcState pc of
        None \<Rightarrow> None
      | Some s \<Rightarrow>
          (let st = Some s;
               st = (case pcValidation pc of
                   None \<Rightarrow> st
                 | Some v \<Rightarrow>
                     (if vrVerdict v = VerdictWithinEnvelope \<and> vrMatchedGrant v \<noteq> None
                      then RecordGrantUse (vrMatchedGrantIndex v) st else st));
               st = RecordEvent (pcEvent pc) st
           in
           case pcDecision pc of
             None \<Rightarrow> st
           | Some d \<Rightarrow> RecordAllowed (pcEvent pc) (Some d) (RecordDecision (Some d) st)))"

definition ErrNoEvent_pl :: msg where "ErrNoEvent_pl = lit ''pipeline: event is required''"
definition ErrNoOutcome :: msg where
  "ErrNoOutcome = lit ''pipeline: no stage produced a policy outcome''"
definition nil_dereference :: msg where
  "nil_dereference = lit ''runtime error: invalid memory address or nil pointer dereference''"

definition decide_event :: "proc_ctx \<Rightarrow> pipeline \<Rightarrow> (proc_ctx \<times> pipeline) option" where
  "decide_event pc p =
     (let (pc, failure, p) = runStages (plStages p) pc p;
          failure = (if failure = None \<and> pcOutcome pc = None then Some (''finalize'', ErrNoOutcome)
                     else failure)
      in
      case failure of
        Some (stg, err) \<Rightarrow>
          (let pc = pc\<lparr>pcFailedStage := stg, pcErr := Some err\<rparr>;
               p = p\<lparr>plStats := count_error (plStats p)\<rparr>
           in Some (pc\<lparr>pcDecision := plHandler p pc stg err\<rparr>, p))
      | None \<Rightarrow>
          (case finalize pc p of
             None \<Rightarrow> None
           | Some (d, p) \<Rightarrow> Some (pc\<lparr>pcDecision := Some d\<rparr>, p)))"

definition new_context :: "event option \<Rightarrow> time \<Rightarrow> pipeline \<Rightarrow> proc_ctx" where
  "new_context e started p =
     \<lparr>pcEvent = e, pcSessionID = plSessionID p, pcStarted = started, pcEnvelope = plEnvelope p,
      pcMode = plMode p, pcState = plState p, pcValidation = None, pcRisk = None, pcOutcome = None,
      pcDecision = None, pcFailedStage = [], pcErr = None\<rparr>"

definition ProcessContext :: "event option \<Rightarrow> pipeline \<Rightarrow> (msg + proc_ctx) \<times> pipeline" where
  "ProcessContext e p =
     (case e of
        None \<Rightarrow> (Inl ErrNoEvent_pl, p)
      | Some ev \<Rightarrow>
          (let (started, p) = read_now p;
               pc = new_context e started p
           in
           case decide_event pc p of
             None \<Rightarrow> (Inl nil_dereference, p)
           | Some (pc, p) \<Rightarrow>
               (let st = commit pc;
                    (fin, p) = read_now p;
                    p = p\<lparr>plState := st, plStats :=
                      observe (time_sub fin started) (pcDecision pc \<noteq> None) (plStats p)\<rparr>
                in (Inr (pc\<lparr>pcState := st\<rparr>), p))))"

definition Process :: "event option \<Rightarrow> pipeline \<Rightarrow> (msg + decision option) \<times> pipeline" where
  "Process e p =
     (case ProcessContext e p of
        (Inl err, p) \<Rightarrow> (Inl err, p)
      | (Inr pc, p) \<Rightarrow> (Inr (pcDecision pc), p))"

definition emit :: "decision option \<Rightarrow> pipeline \<Rightarrow> pipeline" where
  "emit d p =
     (case (d, plSink p) of
        (Some d, Some sink) \<Rightarrow>
          (case sink d of None \<Rightarrow> p | Some _ \<Rightarrow> p\<lparr>plStats := count_error (plStats p)\<rparr>)
      | _ \<Rightarrow> p)"

text \<open>
  \<open>Run\<close> over the events its source delivers before it closes or the context is cancelled; which of
  the two ends it is the error it returns. The decisions are those handed to \<open>emit\<close>, in order.
\<close>

fun run_source :: "event list \<Rightarrow> pipeline \<Rightarrow> decision list \<Rightarrow> go_error \<times> decision list \<times> pipeline" where
  "run_source [] p ds = (None, ds, p)"
| "run_source (e # es) p ds =
     (case Process (Some e) p of
        (Inl err, p) \<Rightarrow> (Some err, ds, p)
      | (Inr d, p) \<Rightarrow> run_source es (emit d p) (ds @ (case d of None \<Rightarrow> [] | Some d \<Rightarrow> [d])))"

section \<open>Construction\<close>

record pipeline_config =
  pgSessionID :: string
  pgEnvelope :: "envelope option"
  pgMode :: mode
  pgState :: "memory_state option"
  pgSink :: "(decision \<Rightarrow> go_error) option"
  pgNow :: "nat \<Rightarrow> time"

record builder =
  bdConfig :: pipeline_config
  bdStages :: "stage option list"
  bdHandler :: "error_handler option"
  bdConcurrency :: int

definition NewBuilder :: "pipeline_config \<Rightarrow> builder" where
  "NewBuilder cfg = \<lparr>bdConfig = cfg, bdStages = [], bdHandler = None, bdConcurrency = 1\<rparr>"

definition WithStage :: "stage option \<Rightarrow> builder \<Rightarrow> builder" where
  "WithStage s b = b\<lparr>bdStages := bdStages b @ [s]\<rparr>"

definition WithErrorHandler :: "error_handler option \<Rightarrow> builder \<Rightarrow> builder" where
  "WithErrorHandler h b = b\<lparr>bdHandler := h\<rparr>"

definition WithConcurrency :: "int \<Rightarrow> builder \<Rightarrow> builder" where
  "WithConcurrency n b = b\<lparr>bdConcurrency := n\<rparr>"

fun check_stages :: "nat \<Rightarrow> stage option list \<Rightarrow> go_error" where
  "check_stages i [] = None"
| "check_stages i (None # ss) = Some (Fmt ''pipeline: stage %d is nil'' [AInt (int i)])"
| "check_stages i (Some s # ss) =
     (if sgName s = [] then Some (Fmt ''pipeline: stage %d has no name'' [AInt (int i)])
      else check_stages (Suc i) ss)"

definition Build :: "builder \<Rightarrow> msg + pipeline" where
  "Build b =
     (let cfg = bdConfig b in
      case pgEnvelope cfg of
        None \<Rightarrow> Inl (lit ''pipeline: session envelope is required'')
      | Some env \<Rightarrow>
          (if pgState cfg = None then Inl (lit ''pipeline: session state is required'')
           else if mode_string (pgMode cfg) = [] then Inl (lit ''pipeline: session mode is required'')
           else if bdStages b = [] then Inl (lit ''pipeline: at least one stage is required'')
           else
             (case check_stages 0 (bdStages b) of
                Some err \<Rightarrow> Inl err
              | None \<Rightarrow>
                  (if bdConcurrency b > 1 then
                     Inl (Fmt ''pipeline: concurrency %d requested, but a pipeline governs one session and processes it serially; run one pipeline per session instead''
                       [AInt (bdConcurrency b)])
                   else
                     Inr \<lparr>plSessionID = (if pgSessionID cfg = [] then envSessionID env else pgSessionID cfg),
                       plEnvelope = Some env, plMode = pgMode cfg, plState = pgState cfg,
                       plStages = map the (bdStages b),
                       plHandler = (case bdHandler b of None \<Rightarrow> NewErrorHandler | Some h \<Rightarrow> h),
                       plSink = pgSink cfg, plNow = pgNow cfg, plTick = 0,
                       plStats = newStatsCollector (map the (bdStages b))\<rparr>))))"

definition New :: "pipeline_config \<Rightarrow> validator_fn option \<Rightarrow> policy_fn option \<Rightarrow> msg + pipeline" where
  "New cfg v e =
     Build (WithStage (Some (NewDecideStage e)) (WithStage (Some (NewValidateStage v)) (NewBuilder cfg)))"

definition NewWithRisk ::
  "pipeline_config \<Rightarrow> validator_fn option \<Rightarrow> risk_fn option \<Rightarrow> policy_fn option \<Rightarrow> msg + pipeline" where
  "NewWithRisk cfg v r e =
     Build (WithStage (Some (NewDecideStage e)) (WithStage (Some (NewScoreStage r))
       (WithStage (Some (NewValidateStage v)) (NewBuilder cfg))))"

end
