(* ===== verification/PipelineLaws.thy ===== *)
theory PipelineLaws
  imports Pipeline SessionLaws
begin

text \<open>
  What the pipeline promises: an event is always decided and always counted, a failed stage never
  lets anything through, the stages see the session as it stood before the event, and the budgets of
  the envelope hold over a whole run. The latency window is the second instance of the bounded log.
\<close>

section \<open>Latencies\<close>

definition window_ok :: "stats_collector \<Rightarrow> bool" where
  "window_ok c \<longleftrightarrow> scRing c \<noteq> []"

definition window_cap :: "stats_collector \<Rightarrow> nat" where
  "window_cap c = length (scRing c)"

definition window :: "stats_collector \<Rightarrow> 64 word list" where
  "window c = ring_read (scRing c) (scRingNext c mod length (scRing c))
     (min (scRingNext c) (length (scRing c)))"

interpretation latency_log: bounded_log window_ok window_cap window keep_latency
proof
  fix c :: stats_collector and w :: "64 word"
  assume ok: "window_ok c"
  let ?r = "scRing c" and ?i = "scRingNext c mod length (scRing c)"
    and ?n = "min (scRingNext c) (length (scRing c))"
  have ring: "ring_ok ?r ?i ?n" using ok by (simp add: ring_ok_def window_ok_def)
  show "window_ok (keep_latency w c)" using ok by (simp add: window_ok_def keep_latency_def)
  show "window_cap (keep_latency w c) = window_cap c" by (simp add: window_cap_def keep_latency_def)
  have "Suc (scRingNext c) mod length ?r = (?i + 1) mod length ?r"
    "min (Suc (scRingNext c)) (length ?r) = min (Suc ?n) (length ?r)"
    by (simp_all add: mod_simps)
  then show "window (keep_latency w c) = last_n (window_cap c) (window c @ [w])"
    using ring_write_appends[OF ring, of w] ok
    by (simp add: window_def window_cap_def keep_latency_def window_ok_def)
  show "length (window c) \<le> window_cap c" by (simp add: window_def window_cap_def)
qed

text \<open>The percentile sorts a prefix of the array, which holds what the window holds.\<close>

lemma full_ring: "ring_read r i (length r) = rotate i r"
  by (rule nth_equalityI) (simp_all add: ring_read_nth nth_rotate)

lemma window_samples:
  "mset (window c) = mset (take (min (scRingNext c) (length (scRing c))) (scRing c))"
proof (cases "scRingNext c < length (scRing c)")
  case True
  have "window c = take (scRingNext c) (scRing c)"
  proof (rule nth_equalityI)
    fix j assume "j < length (window c)"
    then have "j < scRingNext c" using True by (simp add: window_def)
    then show "window c ! j = take (scRingNext c) (scRing c) ! j"
      using True by (simp add: window_def ring_read_nth)
  qed (use True in \<open>simp add: window_def\<close>)
  then show ?thesis using True by simp
next
  case False
  have "mset (rotate i r) = mset r" for i and r :: "64 word list"
    by (metis append_take_drop_id mset_append rotate_drop_take union_commute)
  then show ?thesis using False by (simp add: window_def full_ring)
qed

lemma sorted_samples: "sort (window c) = sort (take (min (scRingNext c) (length (scRing c))) (scRing c))"
  by (rule properties_for_sort) (simp_all add: window_samples)

lemma length_window: "length (window c) = min (scRingNext c) (length (scRing c))"
  by (simp add: window_def)

lemma sorted_count:
  assumes "i < length xs"
  shows "i < length (filter (\<lambda>x. x \<le> sort xs ! i) xs)"
proof -
  have "length (filter (\<lambda>x. x \<le> sort xs ! i) xs) = length (filter (\<lambda>x. x \<le> sort xs ! i) (sort xs))"
    by (metis mset_filter mset_sort size_mset)
  moreover have "take (Suc i) (sort xs) = filter (\<lambda>x. x \<le> sort xs ! i) (take (Suc i) (sort xs))"
    using assms by (intro filter_True[symmetric]) (auto simp: in_set_conv_nth intro!: sorted_nth_mono)
  then have "Suc i \<le> length (filter (\<lambda>x. x \<le> sort xs ! i) (take (Suc i) (sort xs)))"
    using assms by (metis length_sort length_take min.absorb2 Suc_leI order_refl)
  moreover have "length (filter (\<lambda>x. x \<le> sort xs ! i) (take (Suc i) (sort xs))) \<le>
      length (filter (\<lambda>x. x \<le> sort xs ! i) (sort xs))"
    by (metis append_take_drop_id filter_append length_append le_add1)
  ultimately show ?thesis by simp
qed

text \<open>What \<open>observe\<close> keeps of a latency: negative ones, from a clock that went back, as zero.\<close>

definition clamped :: "duration \<times> bool \<Rightarrow> 64 word" where
  "clamped x = word_of_int (max 0 (fst x))"

lemma observe_ring:
  "scRing c = scRing c' \<Longrightarrow> scRingNext c = scRingNext c' \<Longrightarrow>
     scRing (observe d b c) = scRing (keep_latency (clamped (d, b)) c') \<and>
     scRingNext (observe d b c) = scRingNext (keep_latency (clamped (d, b)) c')"
  by (simp add: observe_def keep_latency_def clamped_def Let_def max_def)

lemma observe_fold:
  "scRing c = scRing c' \<Longrightarrow> scRingNext c = scRingNext c' \<Longrightarrow>
     scRing (fold (\<lambda>(d, b). observe d b) obs c) = scRing (fold keep_latency (map clamped obs) c') \<and>
     scRingNext (fold (\<lambda>(d, b). observe d b) obs c) = scRingNext (fold keep_latency (map clamped obs) c')"
proof (induction obs arbitrary: c c')
  case (Cons x obs)
  obtain d b where x: "x = (d, b)" by (cases x)
  show ?case
    using Cons.IH[of "observe d b c" "keep_latency (clamped (d, b)) c'"]
      observe_ring[OF Cons.prems, of d b] by (simp add: x)
qed simp

section \<open>One event\<close>

definition validator_of :: "default_validator \<Rightarrow> validator_fn" where
  "validator_of dv env e st = (case Validate dv env e st of Inl err \<Rightarrow> Inl err | Inr r \<Rightarrow> Inr (Some r))"

definition policy_of :: "rule_engine \<Rightarrow> policy_fn" where
  "policy_of eng req = (case Evaluate eng req of Inl err \<Rightarrow> Inl err | Inr out \<Rightarrow> Inr (Some out))"

text \<open>The stages \<open>New\<close> and \<open>NewWithRisk\<close> build on a validator and a rule engine.\<close>

definition governed :: "default_validator \<Rightarrow> rule_engine \<Rightarrow> pipeline \<Rightarrow> bool" where
  "governed dv eng p \<longleftrightarrow> (\<exists>r.
     plStages p = [NewValidateStage (Some (validator_of dv)), NewDecideStage (Some (policy_of eng))] \<or>
     plStages p = [NewValidateStage (Some (validator_of dv)), NewScoreStage (Some r),
       NewDecideStage (Some (policy_of eng))])"

text \<open>What processing an event leaves of a pipeline.\<close>

definition same_setup :: "pipeline \<Rightarrow> pipeline \<Rightarrow> bool" where
  "same_setup p q \<longleftrightarrow> plStages p = plStages q \<and> plEnvelope p = plEnvelope q \<and> plMode p = plMode q \<and>
     plSessionID p = plSessionID q \<and> plHandler p = plHandler q \<and> plSink p = plSink q \<and> plNow p = plNow q"

lemma same_setup_refl [simp]: "same_setup p p"
  by (simp add: same_setup_def)

lemma same_setup_trans: "same_setup p q \<Longrightarrow> same_setup q r \<Longrightarrow> same_setup p r"
  by (simp add: same_setup_def)

lemma same_setup_updates [simp]:
  "same_setup (p\<lparr>plTick := t\<rparr>) q = same_setup p q" "same_setup (p\<lparr>plStats := c\<rparr>) q = same_setup p q"
  "same_setup (p\<lparr>plState := s\<rparr>) q = same_setup p q" "same_setup p (q\<lparr>plTick := t\<rparr>) = same_setup p q"
  by (simp_all add: same_setup_def)

lemma runStages_setup:
  "runStages ss pc p = (pc', f, p') \<Longrightarrow> same_setup p' p \<and> plState p' = plState p"
proof (induction ss arbitrary: pc p)
  case (Cons s ss)
  obtain pc1 err where ex: "execute s (plNow p (Suc (plTick p))) pc = (pc1, err)"
    by (cases "execute s (plNow p (Suc (plTick p))) pc")
  show ?case
  proof (cases err)
    case None
    then show ?thesis using Cons.prems Cons.IH ex by (fastforce simp: read_now_def Let_def same_setup_def)
  next
    case (Some e)
    then show ?thesis using Cons.prems ex by (auto simp: read_now_def Let_def)
  qed
qed simp

lemma finalize_setup:
  "finalize pc p = Some (d, p') \<Longrightarrow> same_setup p' p \<and> plState p' = plState p"
  by (auto simp: finalize_def Let_def timestampOf_def read_now_def split: option.splits if_splits)

lemma decide_event_setup:
  "decide_event pc p = Some (pc', p') \<Longrightarrow> same_setup p' p \<and> plState p' = plState p"
  unfolding decide_event_def Let_def
  by (auto split: prod.splits option.splits if_splits dest!: runStages_setup finalize_setup
      intro: same_setup_trans)

lemma ProcessContext_setup:
  "ProcessContext e p = (r, p') \<Longrightarrow> same_setup p' p"
  unfolding ProcessContext_def Let_def read_now_def
  by (auto split: option.splits prod.splits dest!: decide_event_setup)

subsection \<open>The stages of a governed pipeline\<close>

lemma validator_of_simps:
  "validator_of dv env e st = Inr r' \<longleftrightarrow> (\<exists>r. Validate dv env e st = Inr r \<and> r' = Some r)"
  by (auto simp: validator_of_def split: sum.split)

text \<open>
  \<open>staged\<close> says what the stages leave in the context: the validation of the event against the state
  as it stood, and an outcome unless a stage failed.
\<close>

definition staged ::
  "default_validator \<Rightarrow> envelope \<Rightarrow> event \<Rightarrow> memory_state \<Rightarrow> proc_ctx \<Rightarrow> bool" where
  "staged dv env e s pc \<longleftrightarrow> pcEvent pc = Some e \<and> pcState pc = Some s \<and>
     (\<exists>t v. Validate dv (Some env) (Some e) (Some (session_view t (Some s))) = Inr v \<and>
        pcValidation pc = Some v)"

lemma runStages_staged:
  assumes run: "runStages (plStages p) pc p0 = (pc', f, p')" and "governed dv eng p"
    and "pcEvent pc = Some e" "pcEnvelope pc = Some env" "pcState pc = Some s" "pcOutcome pc = None"
  shows "staged dv env e s pc' \<and> (f = None \<longleftrightarrow> pcOutcome pc' \<noteq> None)"
proof -
  let ?now = "plNow p0 (Suc (plTick p0))"
  obtain v where v: "Validate dv (Some env) (Some e) (Some (session_view ?now (Some s))) = Inr v"
    using Validate_returns by blast
  have stagedI: "staged dv env e s pc1"
    if "pcEvent pc1 = Some e" "pcState pc1 = Some s" "pcValidation pc1 = Some v" for pc1
    using that v by (auto simp: staged_def)
  from v have first: "execute (NewValidateStage (Some (validator_of dv))) ?now pc =
      (pc\<lparr>pcValidation := Some v\<rparr>, None)"
    using assms(3-5) by (simp add: execute_def NewValidateStage_def validate_execute_def validator_of_def)
  have decide: "execute (NewDecideStage (Some (policy_of eng))) t pc1 = (pc2, err) \<Longrightarrow>
      pcValidation pc1 = Some v \<Longrightarrow> pcEvent pc2 = pcEvent pc1 \<and> pcState pc2 = pcState pc1 \<and>
        pcValidation pc2 = Some v \<and> err = None \<and> pcOutcome pc2 \<noteq> None" for t pc1 pc2 err
    by (auto simp: execute_def NewDecideStage_def decide_execute_def policy_of_def Evaluate_def)
  have score: "execute (NewScoreStage (Some r)) t pc1 = (pc2, err) \<Longrightarrow>
      pcValidation pc1 = Some v \<Longrightarrow> pcEvent pc2 = pcEvent pc1 \<and> pcState pc2 = pcState pc1 \<and>
        pcValidation pc2 = Some v \<and> pcOutcome pc2 = pcOutcome pc1" for t pc1 pc2 err r
    by (auto simp: execute_def NewScoreStage_def score_execute_def split: sum.splits option.splits)
  from \<open>governed dv eng p\<close> obtain r where
    "plStages p = [NewValidateStage (Some (validator_of dv)), NewDecideStage (Some (policy_of eng))] \<or>
     plStages p = [NewValidateStage (Some (validator_of dv)), NewScoreStage (Some r),
       NewDecideStage (Some (policy_of eng))]"
    unfolding governed_def by blast
  then show ?thesis
    using run first assms(3-6)
    by (auto simp: read_now_def Let_def split: prod.splits option.splits
        dest!: decide score intro!: stagedI)
qed

lemma decide_event_staged:
  assumes "governed dv eng p" and "plStages p = plStages p0"
    and "pcEvent pc = Some e" "pcEnvelope pc = Some env" "pcState pc = Some s" "pcOutcome pc = None"
  shows "\<exists>pc' p'. decide_event pc p0 = Some (pc', p') \<and> staged dv env e s pc'"
proof -
  obtain pc1 f p1 where run: "runStages (plStages p) pc p0 = (pc1, f, p1)"
    by (cases "runStages (plStages p) pc p0") auto
  note st = runStages_staged[OF run assms(1,3-6)]
  then obtain v where "pcEvent pc1 = Some e" "pcValidation pc1 = Some v" by (auto simp: staged_def)
  then show ?thesis
    using st run assms(2)
    by (auto simp: decide_event_def finalize_def Let_def staged_def split: prod.split)
qed

lemma events_observed_kept:
  "msEventsObserved (rDecision d s) = msEventsObserved s"
  "msEventsObserved (rAllowed e d s) = msEventsObserved s"
  "msEventsObserved (rGrantUse i s) = msEventsObserved s"
  by (simp_all add: rDecision_def rAllowed_def rGrantUse_def Let_def split: sum.split)

definition counted :: "validation \<Rightarrow> bool" where
  "counted v \<longleftrightarrow> vrVerdict v = VerdictWithinEnvelope \<and> vrMatchedGrant v \<noteq> None"

lemma commit_charges:
  assumes "staged dv env e s pc" and "pcValidation pc = Some v"
  shows "\<exists>s'. commit pc = Some s' \<and>
    msGrantUses s' = (if counted v then msGrantUses (rGrantUse (vrMatchedGrantIndex v) s) else msGrantUses s) \<and>
    msFileWrites s' = msFileWrites s + (if ModifiesFilesystem (charged_kind e) then 1 else 0) \<and>
    msProcessStarts s' = msProcessStarts s + (if SpawnsProcess (charged_kind e) then 1 else 0) \<and>
    msEventsObserved s' = msEventsObserved s + 1"
  using assms
  by (cases "pcDecision pc"; cases "counted v")
    (auto simp: commit_def staged_def counted_def RecordGrantUse_def RecordEvent_def
      RecordDecision_def RecordAllowed_def event_part_kept events_observed_kept)

text \<open>One event through a governed pipeline.\<close>

lemma governed_step:
  assumes "governed dv eng p" "plEnvelope p = Some env" "plState p = Some s"
  obtains pc p' s' t v where "ProcessContext (Some e) p = (Inr pc, p')" "governed dv eng p'"
    "plEnvelope p' = Some env" "plState p' = Some s'" "pcEvent pc = Some e" "pcValidation pc = Some v"
    "Validate dv (Some env) (Some e) (Some (session_view t (Some s))) = Inr v"
    "msGrantUses s' = (if counted v then msGrantUses (rGrantUse (vrMatchedGrantIndex v) s) else msGrantUses s)"
    "msFileWrites s' = msFileWrites s + (if ModifiesFilesystem (charged_kind e) then 1 else 0)"
    "msProcessStarts s' = msProcessStarts s + (if SpawnsProcess (charged_kind e) then 1 else 0)"
proof -
  let ?p0 = "p\<lparr>plTick := Suc (plTick p)\<rparr>"
  let ?pc0 = "new_context (Some e) (plNow p (plTick p)) ?p0"
  have ctx: "pcEvent ?pc0 = Some e" "pcEnvelope ?pc0 = Some env" "pcState ?pc0 = Some s"
    "pcOutcome ?pc0 = None"
    using assms(2,3) by (simp_all add: new_context_def)
  obtain pc1 p1 where d: "decide_event ?pc0 ?p0 = Some (pc1, p1)" and st: "staged dv env e s pc1"
    using decide_event_staged[OF assms(1) _ ctx, of ?p0] by auto
  obtain t v where v: "Validate dv (Some env) (Some e) (Some (session_view t (Some s))) = Inr v"
    "pcValidation pc1 = Some v" using st by (auto simp: staged_def)
  obtain s' where s': "commit pc1 = Some s'"
    "msGrantUses s' = (if counted v then msGrantUses (rGrantUse (vrMatchedGrantIndex v) s) else msGrantUses s)"
    "msFileWrites s' = msFileWrites s + (if ModifiesFilesystem (charged_kind e) then 1 else 0)"
    "msProcessStarts s' = msProcessStarts s + (if SpawnsProcess (charged_kind e) then 1 else 0)"
    using commit_charges[OF st v(2)] by blast
  define p' where "p' = snd (ProcessContext (Some e) p)"
  have pc: "ProcessContext (Some e) p = (Inr (pc1\<lparr>pcState := Some s'\<rparr>), p')"
    and state: "plState p' = Some s'"
    using d s'(1) by (auto simp: p'_def ProcessContext_def read_now_def Let_def)
  have same: "same_setup p' p" using ProcessContext_setup[OF pc] .
  then have "governed dv eng p'" "plEnvelope p' = Some env"
    using assms(1,2) by (simp_all add: governed_def same_setup_def)
  then show thesis
    using that[OF pc _ _ state _ _ v(1) s'(2-4)] v(2) st by (simp add: staged_def)
qed

text \<open>With the default handler the event is decided, by the stages or by the handler.\<close>

lemma runStages_session:
  "runStages ss pc p = (pc', f, p') \<Longrightarrow> \<forall>sg\<in>set ss. \<forall>t c c' r. sgExecute sg t c = (c', r) \<longrightarrow>
     pcSessionID c' = pcSessionID c \<and> pcEvent c' = pcEvent c \<Longrightarrow>
   pcSessionID pc' = pcSessionID pc \<and> pcEvent pc' = pcEvent pc"
proof (induction ss arbitrary: pc p)
  case (Cons sg ss)
  obtain pc1 err where ex: "execute sg (plNow p (Suc (plTick p))) pc = (pc1, err)"
    by (cases "execute sg (plNow p (Suc (plTick p))) pc")
  then have kept: "pcSessionID pc1 = pcSessionID pc" "pcEvent pc1 = pcEvent pc"
    using Cons.prems(2) by (fastforce simp: execute_def split: prod.splits stage_end.splits)+
  show ?case
  proof (cases err)
    case None
    then have "runStages ss pc1 (p\<lparr>plTick := Suc (Suc (Suc (plTick p))), plStats :=
        observeStage (sgName sg) (time_sub (plNow p (Suc (Suc (plTick p)))) (plNow p (plTick p)))
          (plStats p)\<rparr>) = (pc', f, p')"
      using Cons.prems(1) ex by (simp add: read_now_def Let_def)
    from Cons.IH[OF this] show ?thesis using kept Cons.prems(2) by simp
  next
    case (Some e)
    then show ?thesis using Cons.prems(1) ex kept by (auto simp: read_now_def Let_def)
  qed
qed simp

lemma governed_stages_keep:
  assumes "governed dv eng p" and "sg \<in> set (plStages p)" and "sgExecute sg t c = (c', r)"
  shows "pcSessionID c' = pcSessionID c \<and> pcEvent c' = pcEvent c"
  using assms
  by (auto simp: governed_def NewValidateStage_def NewScoreStage_def NewDecideStage_def
      validate_execute_def score_execute_def decide_execute_def
      split: option.splits sum.splits)

lemma governed_decides:
  assumes "governed dv eng p" "plEnvelope p = Some env" "plState p = Some s"
    and "plHandler p = NewErrorHandler" and pc: "ProcessContext (Some e) p = (Inr pc, p')"
  shows "\<exists>d. pcDecision pc = Some d \<and> dEventID d = evID e \<and> dSessionID d = plSessionID p"
proof -
  let ?p0 = "p\<lparr>plTick := Suc (plTick p)\<rparr>"
  let ?pc0 = "new_context (Some e) (plNow p (plTick p)) ?p0"
  obtain pc1 f p1 where run: "runStages (plStages p) ?pc0 ?p0 = (pc1, f, p1)"
    by (cases "runStages (plStages p) ?pc0 ?p0") auto
  have kept: "pcSessionID pc1 = plSessionID p" "pcEvent pc1 = Some e"
    using runStages_session[OF run] governed_stages_keep[OF assms(1)] by (simp_all add: new_context_def)
  have handler: "plHandler p1 = NewErrorHandler"
    using runStages_setup[OF run] assms(4) by (simp add: same_setup_def)
  obtain pc2 p2 where d: "decide_event ?pc0 ?p0 = Some (pc2, p2)"
    using pc by (auto simp: ProcessContext_def read_now_def Let_def split: option.splits)
  then have "\<exists>d. pcDecision pc2 = Some d \<and> dEventID d = evID e \<and> dSessionID d = plSessionID p"
    using run kept handler
    by (auto simp: decide_event_def Let_def finalize_def NewErrorHandler_def handle_failure_def
        split: option.splits prod.splits if_splits)
  moreover have "pcDecision pc = pcDecision pc2"
    using pc d by (auto simp: ProcessContext_def read_now_def Let_def)
  ultimately show ?thesis by simp
qed

section \<open>A run\<close>

text \<open>The contexts of a run, in order; a run of a governed pipeline never stops early.\<close>

fun process_all :: "event list \<Rightarrow> pipeline \<Rightarrow> proc_ctx list \<times> pipeline" where
  "process_all [] p = ([], p)"
| "process_all (e # es) p =
     (case ProcessContext (Some e) p of
        (Inl err, p) \<Rightarrow> ([], p)
      | (Inr pc, p) \<Rightarrow> (let (pcs, p) = process_all es p in (pc # pcs, p)))"

text \<open>
  The counting argument shared by all budgets: when an event that counts needs \<open>used\<close> below the
  limit and raises it, and no event lowers it, no more than the limit count.
\<close>

lemma budget_run:
  fixes used :: "memory_state \<Rightarrow> int" and spends :: "proc_ctx \<Rightarrow> bool"
  assumes step: "\<And>p s e pc p' s'. governed dv eng p \<Longrightarrow> plEnvelope p = Some env \<Longrightarrow> plState p = Some s \<Longrightarrow>
      I s \<Longrightarrow> ProcessContext (Some e) p = (Inr pc, p') \<Longrightarrow> plState p' = Some s' \<Longrightarrow>
      I s' \<and> used s + (if spends pc then 1 else 0) \<le> used s' \<and> (spends pc \<longrightarrow> used s < limit)"
    and "governed dv eng p" "plEnvelope p = Some env" "plState p = Some s" "I s"
  shows "int (length (filter spends (fst (process_all es p)))) + used s \<le> max limit (used s)"
  using assms(2-)
proof (induction es arbitrary: p s)
  case (Cons e es)
  obtain pc p' s' t v where one: "ProcessContext (Some e) p = (Inr pc, p')" "governed dv eng p'"
    "plEnvelope p' = Some env" "plState p' = Some s'"
    using governed_step[OF Cons.prems(1-3), of e] by metis
  note facts = step[OF Cons.prems one(1,4)]
  have IH: "int (length (filter spends (fst (process_all es p')))) + used s' \<le> max limit (used s')"
    using Cons.IH[OF one(2-4)] facts by blast
  have "fst (process_all (e # es) p) = pc # fst (process_all es p')"
    by (simp add: one(1) split: prod.split)
  then show ?case
    using IH facts by (cases "spends pc") (auto simp: max_def split: if_splits)
qed simp

definition uses_grant :: "nat \<Rightarrow> proc_ctx \<Rightarrow> bool" where
  "uses_grant i pc \<longleftrightarrow>
     (case pcValidation pc of
        None \<Rightarrow> False
      | Some v \<Rightarrow> vrVerdict v = VerdictWithinEnvelope \<and> vrMatchedGrantIndex v = int i)"

definition within_of :: "(kind \<Rightarrow> bool) \<Rightarrow> proc_ctx \<Rightarrow> bool" where
  "within_of K pc \<longleftrightarrow>
     (case (pcEvent pc, pcValidation pc) of
        (Some e, Some v) \<Rightarrow> vrVerdict v = VerdictWithinEnvelope \<and> K (charged_kind e)
      | _ \<Rightarrow> False)"

lemma charged_observed: "ObservationOf (Some e) = Inr obs \<Longrightarrow> charged_kind e = obsKind obs"
  using Observe_kind(1)[of e obs]
  by (auto simp: charged_kind_def ObservationOf_def Let_def split: if_splits)

lemma grant_budget_step:
  assumes "governed dv eng p" "plEnvelope p = Some env" "plState p = Some s"
    and "length (msGrantUses s) = length (Grants env)" "i < length (Grants env)"
    and limit: "0 < MaxCount (grantSelector (Grants env ! i))"
    and pc: "ProcessContext (Some e) p = (Inr pc, p')" "plState p' = Some s'"
  shows "length (msGrantUses s') = length (Grants env) \<and>
    msGrantUses s ! i + (if uses_grant i pc then 1 else 0) \<le> msGrantUses s' ! i \<and>
    (uses_grant i pc \<longrightarrow> msGrantUses s ! i < MaxCount (grantSelector (Grants env ! i)))"
proof -
  obtain t v where v: "pcValidation pc = Some v"
    "Validate dv (Some env) (Some e) (Some (session_view t (Some s))) = Inr v"
    "msGrantUses s' = (if counted v then msGrantUses (rGrantUse (vrMatchedGrantIndex v) s) else msGrantUses s)"
    using governed_step[OF assms(1-3), of e] pc by (metis Inr_inject option.inject prod.inject)
  show ?thesis
  proof (cases "vrVerdict v = VerdictWithinEnvelope")
    case True
    obtain obs j where j: "j < length (Grants env)" "vrMatchedGrantIndex v = int j"
      "vrMatchedGrant v = Some (Grants env ! j)"
      "\<not> budget_spent \<lparr>meIndex = int j, meGrant = Grants env ! j\<rparr> (Some (session_view t (Some s)))"
      using within_facts[OF v(2) True] by metis
    then have "msGrantUses s' = (msGrantUses s)[j := msGrantUses s ! j + 1]"
      using v(3) True assms(4) by (simp add: counted_def rGrantUse_def)
    moreover have "uses_grant i pc \<longleftrightarrow> i = j" using v(1) True j(2) by (auto simp: uses_grant_def)
    moreover have "i = j \<Longrightarrow> msGrantUses s ! i < MaxCount (grantSelector (Grants env ! i))"
      using j(1,4) limit assms(4) by (simp add: budget_spent_def session_view_def GrantUseCount_ms_def)
    ultimately show ?thesis using assms(4) j(1) by (simp add: nth_list_update)
  next
    case False
    then show ?thesis using v assms(4) by (simp add: uses_grant_def counted_def)
  qed
qed

lemma session_budget_step:
  assumes "governed dv eng p" "plEnvelope p = Some env" "plState p = Some s"
    and pc: "ProcessContext (Some e) p = (Inr pc, p')" "plState p' = Some s'"
  shows "0 < MaxFileWrites (Constraints env) \<Longrightarrow>
      msFileWrites s + (if within_of ModifiesFilesystem pc then 1 else 0) \<le> msFileWrites s' \<and>
      (within_of ModifiesFilesystem pc \<longrightarrow> msFileWrites s < MaxFileWrites (Constraints env))"
    and "0 < MaxProcesses (Constraints env) \<Longrightarrow>
      msProcessStarts s + (if within_of SpawnsProcess pc then 1 else 0) \<le> msProcessStarts s' \<and>
      (within_of SpawnsProcess pc \<longrightarrow> msProcessStarts s < MaxProcesses (Constraints env))"
proof -
  obtain t v where v: "pcEvent pc = Some e" "pcValidation pc = Some v"
    "Validate dv (Some env) (Some e) (Some (session_view t (Some s))) = Inr v"
    "msFileWrites s' = msFileWrites s + (if ModifiesFilesystem (charged_kind e) then 1 else 0)"
    "msProcessStarts s' = msProcessStarts s + (if SpawnsProcess (charged_kind e) then 1 else 0)"
    using governed_step[OF assms(1-3), of e] pc by (metis Inr_inject option.inject prod.inject)
  have spare: "\<exists>obs. charged_kind e = obsKind obs \<and>
      sessionConstraint env obs (Some (session_view t (Some s))) = None"
    if "vrVerdict v = VerdictWithinEnvelope"
    using within_facts[OF v(3) that] charged_observed by metis
  show "msFileWrites s + (if within_of ModifiesFilesystem pc then 1 else 0) \<le> msFileWrites s' \<and>
      (within_of ModifiesFilesystem pc \<longrightarrow> msFileWrites s < MaxFileWrites (Constraints env))"
    if "0 < MaxFileWrites (Constraints env)"
    using that v spare
    by (auto simp: within_of_def sessionConstraint_def Let_def session_view_def FileWriteCount_ms_def
        split: if_splits)
  show "msProcessStarts s + (if within_of SpawnsProcess pc then 1 else 0) \<le> msProcessStarts s' \<and>
      (within_of SpawnsProcess pc \<longrightarrow> msProcessStarts s < MaxProcesses (Constraints env))"
    if "0 < MaxProcesses (Constraints env)"
    using that v spare
    by (auto simp: within_of_def sessionConstraint_def Let_def session_view_def ProcessCount_ms_def
        split: if_splits)
qed

section \<open>Properties\<close>

text \<open>C2: no budget of the envelope is overrun, however many events arrive. In a run of the pipeline
  over a fresh session state, at most \<open>MaxCount\<close> events are judged within the envelope through a
  grant that bounds its count, at most \<open>MaxFileWrites\<close> filesystem modifications and at most
  \<open>MaxProcesses\<close> process starts are. The limits are inclusive and hold together with whatever else
  the session did, because the verdict is taken before the event is recorded and every event that
  could spend the budget is.\<close>

theorem budgets_are_never_overrun:
  assumes "governed dv eng p" and "plEnvelope p = Some env"
    and "plState p = Some (NewStateWith cfg)" and "scEnvelope cfg = Some env"
  shows "(i < length (Grants env) \<and> 0 < MaxCount (grantSelector (Grants env ! i)) \<longrightarrow>
      int (length (filter (uses_grant i) (fst (process_all es p)))) \<le>
        MaxCount (grantSelector (Grants env ! i))) \<and>
    (0 < MaxFileWrites (Constraints env) \<longrightarrow>
      int (length (filter (within_of ModifiesFilesystem) (fst (process_all es p)))) \<le>
        MaxFileWrites (Constraints env)) \<and>
    (0 < MaxProcesses (Constraints env) \<longrightarrow>
      int (length (filter (within_of SpawnsProcess) (fst (process_all es p)))) \<le>
        MaxProcesses (Constraints env))"
proof -
  have fresh: "msGrantUses (NewStateWith cfg) = replicate (length (Grants env)) 0"
    "msFileWrites (NewStateWith cfg) = 0" "msProcessStarts (NewStateWith cfg) = 0"
    using assms(4) by (simp_all add: NewStateWith_def Let_def)
  have "int (length (filter (uses_grant i) (fst (process_all es p)))) \<le>
      MaxCount (grantSelector (Grants env ! i))"
    if "i < length (Grants env)" "0 < MaxCount (grantSelector (Grants env ! i))"
    using budget_run[where used = "\<lambda>s. msGrantUses s ! i" and spends = "uses_grant i" and
        I = "\<lambda>s. length (msGrantUses s) = length (Grants env)" and es = es and
        limit = "MaxCount (grantSelector (Grants env ! i))", OF grant_budget_step assms(1-3)] that
    by (simp add: fresh)
  moreover have "int (length (filter (within_of ModifiesFilesystem) (fst (process_all es p)))) \<le>
      MaxFileWrites (Constraints env)" if "0 < MaxFileWrites (Constraints env)"
    using budget_run[where used = msFileWrites and spends = "within_of ModifiesFilesystem" and
        I = "\<lambda>s. True" and es = es and limit = "MaxFileWrites (Constraints env)", OF _ assms(1-3)]
      session_budget_step(1) that by (simp add: fresh)
  moreover have "int (length (filter (within_of SpawnsProcess) (fst (process_all es p)))) \<le>
      MaxProcesses (Constraints env)" if "0 < MaxProcesses (Constraints env)"
    using budget_run[where used = msProcessStarts and spends = "within_of SpawnsProcess" and
        I = "\<lambda>s. True" and es = es and limit = "MaxProcesses (Constraints env)", OF _ assms(1-3)]
      session_budget_step(2) that by (simp add: fresh)
  ultimately show ?thesis by blast
qed

theorem budgets_are_never_overrun_witness:
  "\<exists>p. New \<lparr>pgSessionID = [], pgEnvelope = Some (zero_envelope\<lparr>Grants := [plain_grant KindFileWrite],
        Constraints := zero_constraints\<lparr>MaxFileWrites := 1\<rparr>\<rparr>), pgMode = ModeEnforce,
      pgState = Some (NewState [] (Some (zero_envelope\<lparr>Grants := [plain_grant KindFileWrite],
        Constraints := zero_constraints\<lparr>MaxFileWrites := 1\<rparr>\<rparr>))), pgSink = None, pgNow = (\<lambda>n. int n)\<rparr>
      (Some (validator_of \<lparr>dvMatcher = NewMatcher (=), dvNow = 1\<rparr>))
      (Some (policy_of \<lparr>activeRules = [], activeDefault = ActionWarn\<rparr>)) = Inr p \<and>
    length (filter (within_of ModifiesFilesystem)
      (fst (process_all [observed_event KindFileWrite, observed_event KindFileWrite] p))) \<le> 1"
proof -
  let ?env = "zero_envelope\<lparr>Grants := [plain_grant KindFileWrite],
        Constraints := zero_constraints\<lparr>MaxFileWrites := 1\<rparr>\<rparr>"
  let ?cfg = "\<lparr>pgSessionID = [], pgEnvelope = Some ?env, pgMode = ModeEnforce,
      pgState = Some (NewState [] (Some ?env)), pgSink = None, pgNow = (\<lambda>n. int n)\<rparr>"
  let ?dv = "\<lparr>dvMatcher = NewMatcher (=), dvNow = 1\<rparr>"
  let ?eng = "\<lparr>activeRules = [], activeDefault = ActionWarn\<rparr>"
  obtain p where p: "New ?cfg (Some (validator_of ?dv)) (Some (policy_of ?eng)) = Inr p"
    "plStages p = [NewValidateStage (Some (validator_of ?dv)), NewDecideStage (Some (policy_of ?eng))]"
    "plEnvelope p = Some ?env" "plState p = Some (NewState [] (Some ?env))"
    by (simp add: New_def Build_def WithStage_def NewBuilder_def NewValidateStage_def NewDecideStage_def)
  then have "governed ?dv ?eng p" by (simp add: governed_def)
  from budgets_are_never_overrun[OF this p(3), where
      cfg = "\<lparr>scSessionID = [], scEnvelope = Some ?env, scStartedAt = 0, scHistorySize = 0, scMaxSeenTargets = 0\<rparr>"
      and es = "[observed_event KindFileWrite, observed_event KindFileWrite]"] p(1,4)
  show ?thesis by (auto simp: NewState_def)
qed

text \<open>The context a list of stages leaves when each of them finishes; \<open>k\<close> is the index of the clock reading
  the first of them gets, and a stage takes three.\<close>

fun after_stages :: "(nat \<Rightarrow> time) \<Rightarrow> nat \<Rightarrow> stage list \<Rightarrow> proc_ctx \<Rightarrow> proc_ctx option" where
  "after_stages clock k [] pc = Some pc"
| "after_stages clock k (s # ss) pc =
     (case sgExecute s (clock k) pc of
        (pc, Finished) \<Rightarrow> after_stages clock (k + 3) ss pc
      | _ \<Rightarrow> None)"

definition context_after :: "pipeline \<Rightarrow> event \<Rightarrow> stage list \<Rightarrow> proc_ctx option" where
  "context_after p e ss =
     after_stages (plNow p) (plTick p + 2) ss (new_context (Some e) (plNow p (plTick p)) p)"

text \<open>How an event can come to no outcome: the stages before one finish and that one fails or panics, or
  all finish and none established an outcome.\<close>

definition breaks_at :: "pipeline \<Rightarrow> event \<Rightarrow> stage list \<Rightarrow> stage \<Rightarrow> msg \<Rightarrow> bool" where
  "breaks_at p e before stg err \<longleftrightarrow>
     (\<exists>pc pc' v. context_after p e before = Some pc \<and>
        (sgExecute stg (plNow p (plTick p + 2 + 3 * length before)) pc = (pc', Failed err) \<or>
         sgExecute stg (plNow p (plTick p + 2 + 3 * length before)) pc = (pc', Panicked v) \<and>
           err = Fmt ''stage panicked: %v'' [AMsg v]))"

definition comes_to_nothing :: "pipeline \<Rightarrow> event \<Rightarrow> string \<Rightarrow> msg \<Rightarrow> bool" where
  "comes_to_nothing p e name err \<longleftrightarrow>
     (\<exists>before stg after. plStages p = before @ stg # after \<and> breaks_at p e before stg err \<and> name = sgName stg) \<or>
     (\<exists>pc. context_after p e (plStages p) = Some pc \<and> pcOutcome pc = None \<and>
        name = ''finalize'' \<and> err = ErrNoOutcome)"

text \<open>A stage reads the event and the session's state and writes its own conclusion; the three stages of the
  source are so.\<close>

definition reads_only :: "stage \<Rightarrow> bool" where
  "reads_only stg \<longleftrightarrow> (\<forall>now pc. pcEvent (fst (sgExecute stg now pc)) = pcEvent pc \<and>
     pcState (fst (sgExecute stg now pc)) = pcState pc)"

lemma stages_read_only:
  "reads_only (NewValidateStage v)" "reads_only (NewScoreStage r)" "reads_only (NewDecideStage pol)"
  by (auto simp: reads_only_def NewValidateStage_def validate_execute_def NewScoreStage_def score_execute_def
      NewDecideStage_def decide_execute_def split: option.splits sum.splits)

lemma runStages_step:
  assumes "sgExecute s (plNow p (Suc (plTick p))) pc = (pc', oc)"
  obtains p' where "plNow p' = plNow p" "plTick p' = plTick p + 3" "scErrors (plStats p') = scErrors (plStats p)"
    "oc = Finished \<Longrightarrow> runStages (s # ss) pc p = runStages ss pc' p'"
    "oc = Failed err \<Longrightarrow> runStages (s # ss) pc p = (pc', Some (sgName s, err), p')"
    "oc = Panicked v \<Longrightarrow> runStages (s # ss) pc p = (pc', Some (sgName s, Fmt ''stage panicked: %v'' [AMsg v]), p')"
proof -
  let ?q = "p\<lparr>plTick := plTick p + 3\<rparr>"
  let ?p = "?q\<lparr>plStats := observeStage (sgName s)
      (time_sub (plNow p (Suc (Suc (plTick p)))) (plNow p (plTick p))) (plStats p)\<rparr>"
  have "scErrors (plStats ?p) = scErrors (plStats p)"
    by (simp add: observeStage_def split: option.split)
  then show thesis
    by (intro that[of ?p]) (simp_all add: assms read_now_def execute_def Let_def numeral_3_eq_3)
qed

lemma runStages_through:
  assumes "after_stages (plNow p) (Suc (plTick p)) before pc = Some pc'"
  shows "\<exists>p'. runStages (before @ rest) pc p = runStages rest pc' p' \<and> plNow p' = plNow p \<and>
    plTick p' = plTick p + 3 * length before \<and> scErrors (plStats p') = scErrors (plStats p)"
  using assms
proof (induction before arbitrary: pc p)
  case (Cons s ss)
  obtain pc1 oc where ex: "sgExecute s (plNow p (Suc (plTick p))) pc = (pc1, oc)" by fastforce
  then have oc: "oc = Finished" "after_stages (plNow p) (Suc (plTick p) + 3) ss pc1 = Some pc'"
    using Cons.prems by (auto split: stage_end.splits)
  obtain p1 where p1: "plNow p1 = plNow p" "plTick p1 = plTick p + 3" "scErrors (plStats p1) = scErrors (plStats p)"
    "runStages (s # (ss @ rest)) pc p = runStages (ss @ rest) pc1 p1"
    using runStages_step[OF ex, of "ss @ rest"] oc(1) by metis
  show ?case using Cons.IH[of p1 pc1] p1 oc(2) by (auto simp: algebra_simps)
qed auto

lemma runStages_reads:
  assumes "\<forall>stg\<in>set ss. reads_only stg" and "runStages ss pc p = (pc', f, p')"
  shows "pcEvent pc' = pcEvent pc \<and> pcState pc' = pcState pc"
  using assms
proof (induction ss arbitrary: pc p)
  case (Cons s ss)
  obtain pc1 oc where ex: "sgExecute s (plNow p (Suc (plTick p))) pc = (pc1, oc)" by fastforce
  then have "pcEvent pc1 = pcEvent pc \<and> pcState pc1 = pcState pc"
    using Cons.prems(1) unfolding reads_only_def by (metis fst_conv list.set_intros(1))
  moreover obtain p1 where "oc = Finished \<Longrightarrow> runStages (s # ss) pc p = runStages ss pc1 p1"
    "\<And>err. oc = Failed err \<Longrightarrow> fst (runStages (s # ss) pc p) = pc1"
    "\<And>v. oc = Panicked v \<Longrightarrow> fst (runStages (s # ss) pc p) = pc1"
    using runStages_step[OF ex] by (metis fst_conv)
  ultimately show ?case using Cons by (cases oc) auto
qed simp

text \<open>Stages that come to nothing end the loop with that failure.\<close>

lemma runStages_fails:
  assumes "comes_to_nothing p e name err"
  obtains pc f p1 where
    "runStages (plStages p) (new_context (Some e) (plNow p (plTick p)) p) (p\<lparr>plTick := Suc (plTick p)\<rparr>) = (pc, f, p1)"
    "(if f = None \<and> pcOutcome pc = None then Some (''finalize'', ErrNoOutcome) else f) = Some (name, err)"
    "scErrors (plStats p1) = scErrors (plStats p)"
proof -
  let ?pc = "new_context (Some e) (plNow p (plTick p)) p" and ?p = "p\<lparr>plTick := Suc (plTick p)\<rparr>"
  have start: "after_stages (plNow ?p) (Suc (plTick ?p)) ss ?pc = context_after p e ss" for ss
    by (simp add: context_after_def)
  from assms show thesis unfolding comes_to_nothing_def
  proof
    assume "\<exists>before stg after. plStages p = before @ stg # after \<and> breaks_at p e before stg err \<and> name = sgName stg"
    then obtain before stg after where s: "plStages p = before @ stg # after" "breaks_at p e before stg err"
      "name = sgName stg" by blast
    then obtain pc pc' oc v where pc: "context_after p e before = Some pc"
      and ex: "sgExecute stg (plNow p (plTick p + 2 + 3 * length before)) pc = (pc', oc)"
      and oc: "oc = Failed err \<or> oc = Panicked v \<and> err = Fmt ''stage panicked: %v'' [AMsg v]"
      unfolding breaks_at_def by blast
    obtain q where q: "runStages (before @ stg # after) ?pc ?p = runStages (stg # after) pc q" "plNow q = plNow p"
      "plTick q = Suc (plTick p) + 3 * length before" "scErrors (plStats q) = scErrors (plStats p)"
      using runStages_through[of ?p before ?pc pc "stg # after"] pc start by auto
    have "sgExecute stg (plNow q (Suc (plTick q))) pc = (pc', oc)"
      using ex q(2,3) by (simp add: algebra_simps)
    then obtain p1 where "runStages (stg # after) pc q = (pc', Some (sgName stg, err), p1)"
      "scErrors (plStats p1) = scErrors (plStats q)"
      using oc runStages_step by metis
    then show thesis using that q s(1,3) by auto
  next
    assume "\<exists>pc. context_after p e (plStages p) = Some pc \<and> pcOutcome pc = None \<and> name = ''finalize'' \<and> err = ErrNoOutcome"
    then obtain pc where pc: "context_after p e (plStages p) = Some pc" "pcOutcome pc = None"
      "name = ''finalize''" "err = ErrNoOutcome" by blast
    obtain q where "runStages (plStages p @ []) ?pc ?p = runStages [] pc q" "scErrors (plStats q) = scErrors (plStats p)"
      using runStages_through[of ?p "plStages p" ?pc pc "[]"] pc(1) start by auto
    then show thesis using that pc by auto
  qed
qed

text \<open>C6: a failed stage never lets an event through. Under the default error handler and whatever stages that read
  the event and write their own conclusions: when the stages before one finish and that one fails or
  panics, or all finish and none reaches an outcome, the event is still decided. The decision is
  indeterminate, is about that event, asks a human, names no grant and carries no score; it names the
  stage and its error; the failure is counted once; and the event is folded into the session's counters
  like any other.\<close>

theorem failed_stage_never_allows:
  assumes "plHandler p = NewErrorHandler" and "plState p = Some s"
    and "\<forall>stg\<in>set (plStages p). reads_only stg" and "comes_to_nothing p e name err"
  shows "\<exists>pc p' d s'. ProcessContext (Some e) p = (Inr pc, p') \<and> pcDecision pc = Some d \<and>
    dVerdict d = VerdictIndeterminate \<and> dAction d = ActionRequestApproval \<and> dEventID d = evID e \<and>
    dMatchedGrant d = None \<and> raLevel (dRisk d) = LevelUnscored \<and> \<not> dEnforced d \<and>
    pcFailedStage pc = name \<and> pcErr pc = Some err \<and>
    rsConclusion (last (dReasoning d)) = Fmt ''stage %q failed'' [AStr name] \<and>
    scErrors (plStats p') = scErrors (plStats p) + 1 \<and>
    plState p' = Some s' \<and> msEventsObserved s' = msEventsObserved s + 1"
proof -
  let ?pc = "new_context (Some e) (plNow p (plTick p)) p" and ?p = "p\<lparr>plTick := Suc (plTick p)\<rparr>"
  obtain pc1 f p1 where run: "runStages (plStages ?p) ?pc ?p = (pc1, f, p1)"
    "(if f = None \<and> pcOutcome pc1 = None then Some (''finalize'', ErrNoOutcome) else f) = Some (name, err)"
    "scErrors (plStats p1) = scErrors (plStats p)"
  proof (rule runStages_fails[OF assms(4)])
    fix pc f p1
    assume "runStages (plStages p) ?pc ?p = (pc, f, p1)"
      "(if f = None \<and> pcOutcome pc = None then Some (''finalize'', ErrNoOutcome) else f) = Some (name, err)"
      "scErrors (plStats p1) = scErrors (plStats p)"
    then show thesis using that by simp
  qed
  have kept: "pcEvent pc1 = Some e" "pcState pc1 = Some s"
    using runStages_reads[OF _ run(1)] assms(2,3) by (simp_all add: new_context_def)
  define pc2 where "pc2 = pc1\<lparr>pcFailedStage := name, pcErr := Some err\<rparr>"
  define p2 where "p2 = p1\<lparr>plStats := count_error (plStats p1)\<rparr>"
  have "plHandler p1 = NewErrorHandler"
    using runStages_setup[OF run(1)] assms(1) by (simp add: same_setup_def)
  then have decided: "decide_event ?pc ?p = Some (pc2\<lparr>pcDecision := NewErrorHandler pc2 name err\<rparr>, p2)"
    using run(1,2) by (simp add: decide_event_def pc2_def p2_def Let_def)
  obtain d where d: "NewErrorHandler pc2 name err = Some d" "dVerdict d = VerdictIndeterminate"
    "dAction d = ActionRequestApproval" "dEventID d = evID e" "dMatchedGrant d = None"
    "raLevel (dRisk d) = LevelUnscored" "\<not> dEnforced d"
    "rsConclusion (last (dReasoning d)) = Fmt ''stage %q failed'' [AStr name]"
    using kept(1) by (simp add: NewErrorHandler_def handle_failure_def ActionForFailure_def Let_def
        pc2_def unscored_def)
  have "\<exists>s'. commit (pc2\<lparr>pcDecision := Some d\<rparr>) = Some s' \<and> msEventsObserved s' = msEventsObserved s + 1"
    using kept
    by (cases "pcValidation pc1") (simp_all add: commit_def pc2_def RecordGrantUse_def RecordEvent_def
        RecordDecision_def RecordAllowed_def events_observed_kept Let_def)
  then obtain s' where s': "commit (pc2\<lparr>pcDecision := Some d\<rparr>) = Some s'"
    "msEventsObserved s' = msEventsObserved s + 1" by blast
  have "scErrors (observe x b c) = scErrors c" for x b c
    by (simp add: observe_def keep_latency_def Let_def)
  moreover have "new_context (Some e) (plNow p (plTick p)) ?p = ?pc" by (simp add: new_context_def)
  ultimately show ?thesis
    using decided d s' run(3)
    by (auto simp: ProcessContext_def read_now_def Let_def p2_def pc2_def count_error_def)
qed

theorem failed_stage_never_allows_witness:
  "\<exists>pc p' d. ProcessContext (Some zero_event)
      \<lparr>plSessionID = ''s'', plEnvelope = Some zero_envelope, plMode = ModeEnforce, plState = Some (NewState ''s'' None),
       plStages = [NewValidateStage (Some (validator_of \<lparr>dvMatcher = NewMatcher (=), dvNow = 1\<rparr>)),
         \<lparr>sgName = ''score'', sgExecute = (\<lambda>now pc. (pc, Panicked (lit ''index out of range'')))\<rparr>,
         NewDecideStage (Some (\<lambda>r. Inr None))],
       plHandler = NewErrorHandler, plSink = None, plNow = (\<lambda>n. int n), plTick = 0,
       plStats = newStatsCollector []\<rparr> = (Inr pc, p') \<and>
    pcDecision pc = Some d \<and> dAction d = ActionRequestApproval \<and> pcFailedStage pc = ''score''"
proof -
  let ?boom = "\<lparr>sgName = ''score'', sgExecute = (\<lambda>now pc. (pc, Panicked (lit ''index out of range'')))\<rparr> :: stage"
  let ?val = "NewValidateStage (Some (validator_of \<lparr>dvMatcher = NewMatcher (=), dvNow = 1\<rparr>))"
  let ?p = "\<lparr>plSessionID = ''s'', plEnvelope = Some zero_envelope, plMode = ModeEnforce, plState = Some (NewState ''s'' None),
       plStages = [?val, ?boom, NewDecideStage (Some (\<lambda>r. Inr None))],
       plHandler = NewErrorHandler, plSink = None, plNow = (\<lambda>n. int n), plTick = 0,
       plStats = newStatsCollector []\<rparr>"
  obtain res where "validator_of \<lparr>dvMatcher = NewMatcher (=), dvNow = 1\<rparr> (Some zero_envelope) (Some zero_event)
      (Some (session_view (int 2) (Some (NewState ''s'' None)))) = Inr (Some res)"
    using Validate_returns[of "\<lparr>dvMatcher = NewMatcher (=), dvNow = 1\<rparr>" zero_envelope zero_event
      "Some (session_view (int 2) (Some (NewState ''s'' None)))"] by (auto simp: validator_of_def)
  then have "breaks_at ?p zero_event [?val] ?boom (Fmt ''stage panicked: %v'' [AMsg (lit ''index out of range'')])"
    by (simp add: breaks_at_def context_after_def NewValidateStage_def validate_execute_def new_context_def)
  then have "comes_to_nothing ?p zero_event ''score''
      (Fmt ''stage panicked: %v'' [AMsg (lit ''index out of range'')])"
    unfolding comes_to_nothing_def
    by (intro disjI1 exI[of _ "[?val]"] exI[of _ ?boom] exI[of _ "[NewDecideStage (Some (\<lambda>r. Inr None))]"]) simp
  from failed_stage_never_allows[OF _ _ _ this] show ?thesis
    by (fastforce simp: stages_read_only reads_only_def[of ?boom])
qed

text \<open>C9: every event gets exactly one decision, in order. \<open>Run\<close> over a governed pipeline with the
  default error handler consumes every event its source delivers without an error and emits one
  decision about each, under the pipeline's session.\<close>

theorem every_event_is_decided:
  assumes "governed dv eng p" and "plEnvelope p = Some env" and "plState p = Some s"
    and "plHandler p = NewErrorHandler"
  shows "\<exists>ds p'. run_source es p [] = (None, ds, p') \<and> map dEventID ds = map evID es \<and>
    list_all (\<lambda>d. dSessionID d = plSessionID p) ds"
proof -
  have "\<exists>ds' p'. run_source es p ds = (None, ds @ ds', p') \<and> map dEventID ds' = map evID es \<and>
      list_all (\<lambda>d. dSessionID d = plSessionID p) ds'" for ds
    using assms
  proof (induction es arbitrary: p s ds)
    case (Cons e es)
    obtain pc p1 s1 where one: "ProcessContext (Some e) p = (Inr pc, p1)" "governed dv eng p1"
      "plEnvelope p1 = Some env" "plState p1 = Some s1"
      using governed_step[OF Cons.prems(1-3), of e] by metis
    obtain d where d: "pcDecision pc = Some d" "dEventID d = evID e" "dSessionID d = plSessionID p"
      using governed_decides[OF Cons.prems one(1)] by blast
    have "same_setup (emit (Some d) p1) p1" "plState (emit (Some d) p1) = plState p1"
      by (auto simp: emit_def split: option.split)
    then have p2: "governed dv eng (emit (Some d) p1)" "plEnvelope (emit (Some d) p1) = Some env"
      "plState (emit (Some d) p1) = Some s1" "plHandler (emit (Some d) p1) = NewErrorHandler"
      "plSessionID (emit (Some d) p1) = plSessionID p"
      using one ProcessContext_setup[OF one(1)] Cons.prems(4)
      by (simp_all add: governed_def same_setup_def)
    obtain ds' p' where "run_source es (emit (Some d) p1) (ds @ [d]) = (None, (ds @ [d]) @ ds', p')"
      "map dEventID ds' = map evID es" "list_all (\<lambda>d. dSessionID d = plSessionID p) ds'"
      using Cons.IH[OF p2(1-4), of "ds @ [d]"] p2(5) by metis
    then show ?case using one(1) d by (intro exI[of _ "d # ds'"]) (simp add: Process_def)
  qed simp
  from this[of "[]"] show ?thesis by simp
qed

theorem every_event_is_decided_witness:
  "\<exists>ds p'. run_source [zero_event, zero_event]
      \<lparr>plSessionID = ''s'', plEnvelope = Some zero_envelope, plMode = ModeEnforce,
       plState = Some (NewState ''s'' None),
       plStages = [NewValidateStage (Some (validator_of \<lparr>dvMatcher = NewMatcher (=), dvNow = 1\<rparr>)),
         NewDecideStage (Some (policy_of \<lparr>activeRules = [], activeDefault = ActionWarn\<rparr>))],
       plHandler = NewErrorHandler, plSink = None, plNow = (\<lambda>n. int n), plTick = 0,
       plStats = newStatsCollector []\<rparr> [] = (None, ds, p') \<and> length ds = 2"
proof -
  let ?dv = "\<lparr>dvMatcher = NewMatcher (=), dvNow = 1\<rparr>"
  let ?eng = "\<lparr>activeRules = [], activeDefault = ActionWarn\<rparr>"
  let ?p = "\<lparr>plSessionID = ''s'', plEnvelope = Some zero_envelope, plMode = ModeEnforce,
       plState = Some (NewState ''s'' None),
       plStages = [NewValidateStage (Some (validator_of ?dv)), NewDecideStage (Some (policy_of ?eng))],
       plHandler = NewErrorHandler, plSink = None, plNow = (\<lambda>n. int n), plTick = 0,
       plStats = newStatsCollector []\<rparr>"
  have "governed ?dv ?eng ?p" by (simp add: governed_def)
  from every_event_is_decided[OF this, of zero_envelope _ "[zero_event, zero_event]"]
  obtain ds p' where "run_source [zero_event, zero_event] ?p [] = (None, ds, p')"
    "map dEventID ds = map evID [zero_event, zero_event]" by auto
  moreover from this(2) have "length ds = 2" by (metis length_map list.size(3,4) numeral_2_eq_2 One_nat_def plus_1_eq_Suc add.commute)
  ultimately show ?thesis by blast
qed

text \<open>The reported tail latency is a quantile of the last 1,024 latencies. After any number of
  events it is the latency of one of them, clamped at zero, and at least 99 percent of those in the
  window are no longer.\<close>

theorem tail_latency_bounds_the_window:
  assumes "c = fold (\<lambda>(d, emitted). observe d emitted) obs (newStatsCollector stages)"
    and "w = last_n latencyWindow (map clamped obs)"
    and "obs \<noteq> []"
  shows "\<exists>x\<in>set w. psP99Latency (stats_snapshot c) = sint x \<and>
    99 * length w \<le> 100 * length (filter (\<lambda>y. y \<le> x) w)"
proof -
  have fresh: "window_ok (newStatsCollector stages)" "window (newStatsCollector stages) = []"
    "window_cap (newStatsCollector stages) = latencyWindow"
    by (simp_all add: window_ok_def window_def window_cap_def newStatsCollector_def latencyWindow_def)
  have "window c = window (fold keep_latency (map clamped obs) (newStatsCollector stages))"
    using observe_fold[of "newStatsCollector stages" "newStatsCollector stages" obs] assms(1)
    by (simp add: window_def)
  then have w: "window c = w"
    using latency_log.entries_from_empty[OF fresh(1,2)] assms(2) fresh(3) by simp
  let ?n = "length w"
  have n: "?n = min (scRingNext c) (length (scRing c))" using w length_window[of c] by simp
  have pos: "0 < ?n" using assms(2,3) by (simp add: latencyWindow_def)
  let ?idx = "(99 * ?n + 99) div 100 - 1"
  define m where "m = (99 * ?n + 99) div 100"
  have "100 * m \<le> 99 * ?n + 99" "99 * ?n + 99 < 100 * m + 100"
    using mult_div_mod_eq[of 100 "99 * ?n + 99"] mod_less_divisor[of 100 "99 * ?n + 99"]
    unfolding m_def by linarith+
  moreover have "100 * m \<le> 100 * Suc (m - 1)" by simp
  ultimately have idx: "?idx < ?n" "99 * ?n \<le> 100 * Suc ?idx"
    using pos unfolding m_def[symmetric] by linarith+
  have "psP99Latency (stats_snapshot c) = sint (sort w ! ?idx)"
    using pos idx(1) sorted_samples[of c] by (simp add: stats_snapshot_def percentile_def Let_def w n[symmetric])
  moreover have "sort w ! ?idx \<in> set w" using idx(1) by (metis length_sort nth_mem set_sort)
  moreover have "?idx < length (filter (\<lambda>y. y \<le> sort w ! ?idx) w)" by (rule sorted_count[OF idx(1)])
  ultimately show ?thesis using idx(2) by (intro bexI[of _ "sort w ! ?idx"]) auto
qed

theorem tail_latency_bounds_the_window_witness:
  "\<exists>x\<in>set (last_n latencyWindow [7, 3 :: 64 word]).
     psP99Latency (stats_snapshot (observe 3 True (observe 7 True (newStatsCollector [])))) = sint x"
  using tail_latency_bounds_the_window[of _ "[(7, True), (3, True)]" "[]", OF refl refl]
  by (auto simp: clamped_def)

end
