(* ===== verification/GoStrings.thy ===== *)
theory GoStrings
  imports GoText
begin

text \<open>
  Runes and more of Go's \<open>strings\<close> package: how a text is read rune by rune and written back, lower
  case, joining, trimming and cutting into words.
\<close>

section \<open>Runes\<close>

text \<open>
  \<open>utf8.DecodeRuneInString\<close> on a text that is not empty: the rune and its width. Bytes that are not
  the shortest encoding of a scalar value are read one at a time as U+FFFD.
\<close>

abbreviation byte_val :: "char \<Rightarrow> nat" where
  "byte_val c \<equiv> of_char c"

definition RuneError :: nat where
  "RuneError = 0xFFFD"

text \<open>Width of the encoding a first byte opens, and the range of the byte after it; 0 when it opens none.\<close>

definition first_byte :: "nat \<Rightarrow> nat \<times> nat \<times> nat" where
  "first_byte b =
     (if 0xC2 \<le> b \<and> b \<le> 0xDF then (2, 0x80, 0xBF)
      else if b = 0xE0 then (3, 0xA0, 0xBF)
      else if b = 0xED then (3, 0x80, 0x9F)
      else if 0xE1 \<le> b \<and> b \<le> 0xEF then (3, 0x80, 0xBF)
      else if b = 0xF0 then (4, 0x90, 0xBF)
      else if b = 0xF4 then (4, 0x80, 0x8F)
      else if 0xF1 \<le> b \<and> b \<le> 0xF3 then (4, 0x80, 0xBF)
      else (0, 0, 0))"

abbreviation continues :: "nat \<Rightarrow> bool" where
  "continues b \<equiv> 0x80 \<le> b \<and> b \<le> 0xBF"

fun decode_multi :: "nat \<Rightarrow> nat list \<Rightarrow> nat \<times> nat" where
  "decode_multi b (b1 # rest) =
     (case first_byte b of (w, lo, hi) \<Rightarrow>
        if lo \<le> b1 \<and> b1 \<le> hi then
          (if w = 2 then ((b mod 32) * 64 + b1 mod 64, 2)
           else
             (case rest of
                b2 # rest' \<Rightarrow>
                  (if continues b2 then
                     (if w = 3 then ((b mod 16) * 4096 + (b1 mod 64) * 64 + b2 mod 64, 3)
                      else if w = 4 then
                        (case rest' of
                           b3 # _ \<Rightarrow>
                             (if continues b3 then
                                ((b mod 8) * 262144 + (b1 mod 64) * 4096 + (b2 mod 64) * 64 + b3 mod 64, 4)
                              else (RuneError, 1))
                         | [] \<Rightarrow> (RuneError, 1))
                      else (RuneError, 1))
                   else (RuneError, 1))
              | [] \<Rightarrow> (RuneError, 1)))
        else (RuneError, 1))"
| "decode_multi b [] = (RuneError, 1)"

definition decode_rune :: "char \<Rightarrow> string \<Rightarrow> nat \<times> nat" where
  "decode_rune c s =
     (if byte_val c < 0x80 then (byte_val c, 1)
      else decode_multi (byte_val c) (map byte_val (take 3 s)))"

text \<open>\<open>for _, r := range s\<close>.\<close>

function runes :: "string \<Rightarrow> nat list" where
  "runes [] = []"
| "runes (c # s) = fst (decode_rune c s) # runes (drop (snd (decode_rune c s) - 1) s)"
  by pat_completeness auto
termination by (relation "measure length") auto

text \<open>\<open>strings.Builder.WriteRune\<close>.\<close>

definition valid_rune :: "nat \<Rightarrow> bool" where
  "valid_rune r = (r < 0xD800 \<or> 0xE000 \<le> r \<and> r \<le> 0x10FFFF)"

definition write_rune :: "nat \<Rightarrow> string" where
  "write_rune r =
     (let r = (if valid_rune r then r else RuneError) in
      map char_of
        (if r < 0x80 then [r]
         else if r < 0x800 then [0xC0 + r div 64, 0x80 + r mod 64]
         else if r < 0x10000 then [0xE0 + r div 4096, 0x80 + r div 64 mod 64, 0x80 + r mod 64]
         else [0xF0 + r div 262144, 0x80 + r div 4096 mod 64, 0x80 + r div 64 mod 64, 0x80 + r mod 64]))"

subsection \<open>Laws\<close>

lemma byte_val_char_of: "n < 256 \<Longrightarrow> byte_val (char_of n) = n"
  by simp

lemma mod_block:
  assumes "k * m \<le> b" "b < k * m + (m :: nat)"
  shows "b mod m = b - k * m"
proof -
  have "b mod m = (b - k * m + k * m) mod m" using assms(1) by simp
  also have "\<dots> = (b - k * m) mod m" by (rule mod_mult_self1)
  also have "\<dots> = b - k * m" using assms by (intro mod_less) linarith
  finally show ?thesis .
qed

lemma continues_mod: "128 \<le> b \<Longrightarrow> b \<le> 191 \<Longrightarrow> b mod 64 = b - (128 :: nat)"
  using mod_block [of 2 64 b] by simp

lemma lead_mod:
  "192 \<le> b \<Longrightarrow> b \<le> 223 \<Longrightarrow> b mod 32 = b - (192 :: nat)"
  "224 \<le> b \<Longrightarrow> b \<le> 239 \<Longrightarrow> b mod 16 = b - (224 :: nat)"
  "240 \<le> b \<Longrightarrow> b \<le> 247 \<Longrightarrow> b mod 8 = b - (240 :: nat)"
  using mod_block [of 6 32 b] mod_block [of 14 16 b] mod_block [of 30 8 b] by simp_all

lemma decode_multi_valid:
  "decode_multi b bs = (r, w) \<Longrightarrow> valid_rune r \<and> 1 \<le> w \<and> w \<le> Suc (length bs)"
  apply (cases bs)
   apply (auto simp: first_byte_def valid_rune_def RuneError_def continues_mod lead_mod
      split: if_splits list.splits)
   apply linarith+
  done

lemma decode_rune_cases:
  "decode_rune c s = (r, w) \<Longrightarrow> valid_rune r \<and> 1 \<le> w \<and> w \<le> Suc (length s)"
  using decode_multi_valid [of "byte_val c" "map byte_val (take 3 s)" r w]
  by (auto simp: decode_rune_def valid_rune_def split: if_splits)

text \<open>What is written is read back, whatever follows.\<close>

lemma digits64:
  "r div 64 * 64 + r mod 64 = (r :: nat)"
  "r div 4096 * 4096 + r div 64 mod 64 * 64 + r mod 64 = r"
  "r div 262144 * 262144 + r div 4096 mod 64 * 4096 + r div 64 mod 64 * 64 + r mod 64 = r"
proof -
  have d: "r div 4096 = r div 64 div 64" "r div 262144 = r div 64 div 64 div 64"
    by (simp_all add: div_mult2_eq)
  have e: "r div 64 * 64 + r mod 64 = r" "r div 64 div 64 * 64 + r div 64 mod 64 = r div 64"
    "r div 64 div 64 div 64 * 64 + r div 64 div 64 mod 64 = r div 64 div 64" by simp_all
  show "r div 64 * 64 + r mod 64 = r" by (rule e)
  show "r div 4096 * 4096 + r div 64 mod 64 * 64 + r mod 64 = r" unfolding d using e by linarith
  show "r div 262144 * 262144 + r div 4096 mod 64 * 4096 + r div 64 mod 64 * 64 + r mod 64 = r"
    unfolding d using e by linarith
qed

lemma decode_two:
  assumes "2 \<le> q" "q < 32" "m < 64"
  shows "decode_multi (192 + q) ((128 + m) # rest) = (q * 64 + m, 2)"
  using assms by (simp add: first_byte_def continues_mod lead_mod)

lemma decode_three:
  assumes "q < 16" "m < 64" "n < 64" "q = 0 \<longrightarrow> 32 \<le> m" "q = 13 \<longrightarrow> m < 32"
  shows "decode_multi (224 + q) ((128 + m) # (128 + n) # rest) = (q * 4096 + m * 64 + n, 3)"
  using assms by (auto simp: first_byte_def continues_mod lead_mod)

lemma decode_four:
  assumes "q < 5" "m < 64" "n < 64" "k < 64" "q = 0 \<longrightarrow> 16 \<le> m" "q = 4 \<longrightarrow> m < 16"
  shows "decode_multi (240 + q) ((128 + m) # (128 + n) # (128 + k) # rest) =
    (q * 262144 + m * 4096 + n * 64 + k, 4)"
  using assms by (auto simp: first_byte_def continues_mod lead_mod)

lemma decode_write_rune:
  assumes "valid_rune r"
  obtains c t where "write_rune r = c # t" "decode_rune c (t @ s) = (r, Suc (length t))"
proof -
  consider "r < 0x80" | "0x80 \<le> r" "r < 0x800" | "0x800 \<le> r" "r < 0x10000" | "0x10000 \<le> r" by linarith
  then show thesis
  proof cases
    case 1
    with assms show thesis by (intro that [of "char_of r" "[]"]) (simp_all add: write_rune_def decode_rune_def)
  next
    case 2
    then have "r div 64 < 32" "2 \<le> r div 64" by auto
    with 2 assms decode_two [of "r div 64" "r mod 64" "map byte_val (take 2 s)"] digits64(1) [of r] show thesis
      by (intro that [of "char_of (0xC0 + r div 64)" "[char_of (0x80 + r mod 64)]"])
        (simp_all add: write_rune_def decode_rune_def)
  next
    case 3
    then have "r div 4096 < 16" "r div 4096 = 0 \<longrightarrow> 32 \<le> r div 64 mod 64"
      "r div 4096 = 13 \<longrightarrow> r div 64 mod 64 < 32"
      using assms digits64(2) [of r] by (auto simp: valid_rune_def)
    with 3 assms decode_three [of "r div 4096" "r div 64 mod 64" "r mod 64" "map byte_val (take 1 s)"]
      digits64(2) [of r]
    show thesis
      by (intro that [of "char_of (0xE0 + r div 4096)"
            "[char_of (0x80 + r div 64 mod 64), char_of (0x80 + r mod 64)]"])
        (simp_all add: write_rune_def decode_rune_def)
  next
    case 4
    have q: "r div 262144 < 5" "r div 262144 = 0 \<longrightarrow> 16 \<le> r div 4096 mod 64"
      "r div 262144 = 4 \<longrightarrow> r div 4096 mod 64 < 16"
      using 4 assms digits64(3) [of r] by (auto simp: valid_rune_def)
    with 4 assms digits64(3) [of r]
      decode_four [of "r div 262144" "r div 4096 mod 64" "r div 64 mod 64" "r mod 64" "[]"]
    show thesis
      by (intro that [of "char_of (0xF0 + r div 262144)"
            "[char_of (0x80 + r div 4096 mod 64), char_of (0x80 + r div 64 mod 64), char_of (0x80 + r mod 64)]"])
        (simp_all add: write_rune_def decode_rune_def)
  qed
qed

lemma runes_write [simp]: "valid_rune r \<Longrightarrow> runes (write_rune r @ s) = r # runes s"
  by (rule decode_write_rune [of r s]) auto

lemma runes_write_all: "(\<forall>r\<in>set rs. valid_rune r) \<Longrightarrow> runes (concat (map write_rune rs)) = rs"
  by (induction rs) auto

lemma runes_valid: "r \<in> set (runes s) \<Longrightarrow> valid_rune r"
proof (induction s rule: runes.induct)
  case (2 c s)
  then show ?case using decode_rune_cases [of c s] by (cases "decode_rune c s") auto
qed simp

lemma runes_ascii: "is_ascii s \<Longrightarrow> runes s = map byte_val s"
  by (induction s rule: runes.induct) (auto simp: is_ascii_def decode_rune_def less_char_def)

section \<open>Text\<close>

text \<open>\<open>strings.ToLower\<close>; beyond ASCII it consults the Unicode tables: \<open>ulower\<close>, a parameter.\<close>

definition lower :: "(string \<Rightarrow> string) \<Rightarrow> string \<Rightarrow> string" where
  "lower ulower s = (if is_ascii s then to_lower s else ulower s)"

text \<open>\<open>strings.Join\<close>.\<close>

fun join_with :: "string \<Rightarrow> string list \<Rightarrow> string" where
  "join_with sep [] = []"
| "join_with sep [s] = s"
| "join_with sep (s # t # ss) = s @ sep @ join_with sep (t # ss)"

text \<open>\<open>strings.FieldsFunc\<close> and \<open>strings.Trim\<close> with a set of ASCII characters.\<close>

fun words_from :: "char set \<Rightarrow> string \<Rightarrow> string \<Rightarrow> string list" where
  "words_from seps cur [] = (if cur = [] then [] else [rev cur])"
| "words_from seps cur (c # s) =
     (if c \<in> seps then (if cur = [] then [] else [rev cur]) @ words_from seps [] s
      else words_from seps (c # cur) s)"

definition fields_func :: "char set \<Rightarrow> string \<Rightarrow> string list" where
  "fields_func seps s = words_from seps [] s"

definition trim_set :: "char set \<Rightarrow> string \<Rightarrow> string" where
  "trim_set ends s = rev (dropWhile (\<lambda>c. c \<in> ends) (rev (dropWhile (\<lambda>c. c \<in> ends) s)))"

text \<open>\<open>strings.TrimPrefix\<close>.\<close>

definition trim_prefix :: "string \<Rightarrow> string \<Rightarrow> string" where
  "trim_prefix pre s = (if prefix pre s then drop (length pre) s else s)"

text \<open>A loop that keeps the first occurrence of each value.\<close>

fun first_seen :: "'a set \<Rightarrow> 'a list \<Rightarrow> 'a list" where
  "first_seen seen [] = []"
| "first_seen seen (s # ss) =
     (if s \<in> seen then first_seen seen ss else s # first_seen (insert s seen) ss)"

lemma set_first_seen: "set (first_seen seen ss) = set ss - seen"
  by (induction seen ss rule: first_seen.induct) auto

lemma distinct_first_seen: "distinct (first_seen seen ss)"
  by (induction seen ss rule: first_seen.induct) (auto simp: set_first_seen)

lemma first_seen_Nil [simp]: "first_seen {} ss = [] \<longleftrightarrow> ss = []"
  by (cases ss) auto

end
