(* ===== verification/Lint.thy ===== *)
theory Lint
  imports Ece Matcher GoStrings
begin

text \<open>
  Envelope admission (\<open>internal/validator/lint.go\<close>): whether an envelope can be evaluated at all. A
  critical issue refuses it: an unknown capability on either side, or a value in a denial that can
  never match. Positions are the source's \<open>grants[0]\<close>-style paths; messages keep format and arguments.
\<close>

section \<open>Issues\<close>

record issue =
  isSeverity :: severity
  isField :: string
  isMessage :: msg
  isSuggestion :: msg

definition BlockingIssues :: "issue list \<Rightarrow> issue list" where
  "BlockingIssues issues = filter (\<lambda>i. isSeverity i = SeverityCritical) issues"

datatype entry_role = RoleGrant | RoleDenial

primrec role_string :: "entry_role \<Rightarrow> string" where
  "role_string RoleGrant = ''grant''"
| "role_string RoleDenial = ''denial''"

definition role_unmatchable :: "entry_role \<Rightarrow> severity" where
  "role_unmatchable r = (if r = RoleDenial then SeverityCritical else SeverityMedium)"

definition role_effect :: "entry_role \<Rightarrow> string" where
  "role_effect r =
     (if r = RoleDenial then ''this denial can never match, so it protects nothing''
      else ''this pattern can never match, so the grant is narrower than it reads'')"

definition role_overbroad :: "entry_role \<Rightarrow> severity" where
  "role_overbroad r = (if r = RoleDenial then SeverityMedium else SeverityHigh)"

text \<open>\<open>field[i]\<close>.\<close>

definition indexed :: "string \<Rightarrow> nat \<Rightarrow> string" where
  "indexed field i = field @ ''['' @ itoa (int i) @ '']''"

section \<open>Dimensions\<close>

definition dimPaths :: string where "dimPaths = ''path_patterns''"
definition dimHosts :: string where "dimHosts = ''hosts''"
definition dimPorts :: string where "dimPorts = ''ports''"
definition dimProtocols :: string where "dimProtocols = ''protocols''"
definition dimExecutables :: string where "dimExecutables = ''executables''"
definition dimArgs :: string where "dimArgs = ''arg_patterns''"

lemmas dim_defs = dimPaths_def dimHosts_def dimPorts_def dimProtocols_def dimExecutables_def dimArgs_def

fun applicableDimensions :: "domain \<Rightarrow> string list" where
  "applicableDimensions DomainFilesystem = [dimPaths]"
| "applicableDimensions DomainNetwork = [dimHosts, dimPorts, dimProtocols]"
| "applicableDimensions DomainProcess = [dimExecutables, dimArgs]"
| "applicableDimensions _ = [dimPaths]"

definition narrowable :: "domain \<Rightarrow> bool" where
  "narrowable d = (d = DomainFilesystem \<or> d = DomainNetwork \<or> d = DomainProcess)"

definition populatedDimensions :: "selector \<Rightarrow> string list" where
  "populatedDimensions s =
     (if PathPatterns s \<noteq> [] then [dimPaths] else []) @
     (if Hosts s \<noteq> [] then [dimHosts] else []) @
     (if Ports s \<noteq> [] then [dimPorts] else []) @
     (if Protocols s \<noteq> [] then [dimProtocols] else []) @
     (if Executables s \<noteq> [] then [dimExecutables] else []) @
     (if ArgPatterns s \<noteq> [] then [dimArgs] else [])"

section \<open>Values\<close>

definition isASCII :: "string \<Rightarrow> bool" where
  "isASCII s = list_all (\<lambda>c. (of_char c :: nat) \<le> 0x7f) s"

definition hasUpperASCII :: "string \<Rightarrow> bool" where
  "hasUpperASCII s = list_ex (\<lambda>c. CHR ''A'' \<le> c \<and> c \<le> CHR ''Z'') s"

definition lintPathAmbiguity :: "string \<Rightarrow> string \<Rightarrow> entry_role \<Rightarrow> issue list" where
  "lintPathAmbiguity pattern field role =
     (if \<not> isASCII pattern then
        [\<lparr>isSeverity = (if role = RoleDenial then SeverityMedium else SeverityLow), isField = field,
          isMessage = Fmt ''pattern %q contains non-ASCII bytes; matching is byte-exact, so a different Unicode normalization or a homoglyph is a different path'' [AStr pattern],
          isSuggestion = Fmt ''restrict selector patterns to ASCII, or confirm the exact bytes with whoever wrote the pattern'' []\<rparr>]
      else []) @
     (if role = RoleDenial \<and> hasUpperASCII pattern then
        [\<lparr>isSeverity = SeverityLow, isField = field,
          isMessage = Fmt ''pattern %q is case-sensitive; on a case-insensitive filesystem the denial is evaded by changing case'' [AStr pattern],
          isSuggestion = Fmt ''add the other spellings, or confirm the target filesystem is case-sensitive'' []\<rparr>]
      else [])"

text \<open>The loop the value checks share: one check per element, at its index.\<close>

fun lint_each :: "(nat \<Rightarrow> 'a \<Rightarrow> issue list) \<Rightarrow> nat \<Rightarrow> 'a list \<Rightarrow> issue list" where
  "lint_each f i [] = []"
| "lint_each f i (x # xs) = f i x @ lint_each f (Suc i) xs"

definition unmatchable_issue :: "entry_role \<Rightarrow> string \<Rightarrow> msg \<Rightarrow> msg \<Rightarrow> issue" where
  "unmatchable_issue role field message suggestion =
     \<lparr>isSeverity = role_unmatchable role, isField = field, isMessage = message,
      isSuggestion = suggestion\<rparr>"

definition lintPathPatterns :: "string list \<Rightarrow> string \<Rightarrow> entry_role \<Rightarrow> issue list" where
  "lintPathPatterns patterns field role =
     lint_each (\<lambda>i p.
       case ValidatePattern p of
         Some err \<Rightarrow>
           [unmatchable_issue role (indexed field i) (Fmt ''%v; %s'' [AMsg err, AStr (role_effect role)])
              (Fmt ''write an absolute path pattern with no . or .. segments; ** must stand alone as a whole segment'' [])]
       | None \<Rightarrow> lintPathAmbiguity p (indexed field i) role) 0 patterns"

definition lintHostPatterns :: "string list \<Rightarrow> string \<Rightarrow> entry_role \<Rightarrow> issue list" where
  "lintHostPatterns hosts field role =
     lint_each (\<lambda>i h.
       case ValidateHostPattern h of
         Some err \<Rightarrow>
           [unmatchable_issue role (indexed field i) (Fmt ''%v; %s'' [AMsg err, AStr (role_effect role)])
              (Fmt ''use a hostname, a wildcard domain (*.example.com), a literal address, or a CIDR block'' [])]
       | None \<Rightarrow> []) 0 hosts"

definition lintPorts :: "int list \<Rightarrow> string \<Rightarrow> entry_role \<Rightarrow> issue list" where
  "lintPorts ports field role =
     lint_each (\<lambda>i p.
       if \<not> IsValidPort p then
         [unmatchable_issue role (indexed field i)
            (Fmt ''port %d is outside 1-65535 and can never be observed; %s'' [AInt p, AStr (role_effect role)])
            (Fmt ''remove the port, or leave ports empty to mean any port'' [])]
       else []) 0 ports"

definition lintStrings :: "string list \<Rightarrow> string \<Rightarrow> string \<Rightarrow> entry_role \<Rightarrow> issue list" where
  "lintStrings values field label role =
     lint_each (\<lambda>i v.
       if is_blank v then
         [unmatchable_issue role (indexed field i)
            (Fmt ''%s entry is empty and matches nothing; %s'' [AStr label, AStr (role_effect role)])
            (Fmt ''remove the entry, or leave the list empty to place no %s constraint'' [AStr label])]
       else []) 0 values"

definition lintMaxCount :: "int \<Rightarrow> string \<Rightarrow> entry_role \<Rightarrow> issue list" where
  "lintMaxCount m field role =
     (if m < 0 then
        [\<lparr>isSeverity = SeverityLow, isField = field,
          isMessage = Fmt ''max_count %d is negative and is treated as unlimited, not as zero uses'' [AInt m],
          isSuggestion = Fmt ''omit max_count for no limit, or set a positive budget'' []\<rparr>]
      else if m > 0 \<and> role = RoleDenial then
        [\<lparr>isSeverity = SeverityLow, isField = field,
          isMessage = Fmt ''max_count %d has no effect on a denial; denials are never charged a budget, so every matching operation is denied'' [AInt m],
          isSuggestion = Fmt ''remove max_count from the denial'' []\<rparr>]
      else [])"

definition lintWorkspaceRoot :: "string \<Rightarrow> issue list" where
  "lintWorkspaceRoot rootp =
     (if rootp = [] then []
      else if IsResolved rootp then []
      else
        [\<lparr>isSeverity = SeverityMedium, isField = ''constraints.workspace_root'',
          isMessage = Fmt ''workspace root %q is not a resolved absolute path; containment cannot be evaluated against it, so every uncovered filesystem operation reports a workspace escape'' [AStr rootp],
          isSuggestion = Fmt ''record the workspace root as an absolute path with no . or .. segments'' []\<rparr>])"

section \<open>Entries\<close>

definition lint_dimension :: "selector \<Rightarrow> string \<Rightarrow> entry_role \<Rightarrow> string \<Rightarrow> issue list" where
  "lint_dimension sel field role dm =
     (let loc = field @ ''.selector.'' @ dm in
      if dm = dimPaths then lintPathPatterns (PathPatterns sel) loc role
      else if dm = dimExecutables then lintPathPatterns (Executables sel) loc role
      else if dm = dimHosts then lintHostPatterns (Hosts sel) loc role
      else if dm = dimPorts then lintPorts (Ports sel) loc role
      else if dm = dimProtocols then lintStrings (Protocols sel) loc ''protocol'' role
      else if dm = dimArgs then lintStrings (ArgPatterns sel) loc ''argument pattern'' role
      else [])"

definition lint_ignored :: "domain \<Rightarrow> selector \<Rightarrow> string \<Rightarrow> entry_role \<Rightarrow> issue list" where
  "lint_ignored d sel field role =
     (let applicable = applicableDimensions d in
      map (\<lambda>dm.
        \<lparr>isSeverity = role_overbroad role, isField = field @ ''.selector.'' @ dm,
         isMessage = Fmt ''%s does not apply to %s capabilities, which are matched on %s; the matcher ignores it, so this %s is wider than it reads''
           [AStr dm, AStr (domain_string d), AStr (join_with '', '' applicable), AStr (role_string role)],
         isSuggestion = Fmt ''remove %s, or narrow the %s with %s''
           [AStr dm, AStr (role_string role), AStr (join_with '' or '' applicable)]\<rparr>)
        (filter (\<lambda>dm. dm \<notin> set applicable) (populatedDimensions sel)))"

definition lintEntry :: "grant \<Rightarrow> entry_role \<Rightarrow> string \<Rightarrow> issue list" where
  "lintEntry g role field =
     (case ValidateKind (grantKind g) of
        Some err \<Rightarrow>
          [\<lparr>isSeverity = SeverityCritical, isField = field @ ''.kind'',
            isMessage = Fmt ''%v; no observation carries this kind, so the %s is never compared against anything''
              [AMsg err, AStr (role_string role)],
            isSuggestion = Fmt ''use a kind from the capability catalog; allseerctl capabilities lists them'' []\<rparr>]
      | None \<Rightarrow>
          (let d = (case DomainOf (grantKind g) of None \<Rightarrow> DomainOther [] | Some d \<Rightarrow> d);
               sel = grantSelector g
           in
           (if grantDomain g \<noteq> d then
              [\<lparr>isSeverity = SeverityLow, isField = field @ ''.domain'',
                isMessage = Fmt ''domain %q disagrees with the catalog, which places %s in %q; matching uses the catalog''
                  [AStr (domain_string (grantDomain g)), AStr (kind_string (grantKind g)), AStr (domain_string d)],
                isSuggestion = Fmt ''set domain to %q'' [AStr (domain_string d)]\<rparr>]
            else []) @
           lint_ignored d sel field role @
           concat (map (lint_dimension sel field role) (applicableDimensions d)) @
           lintMaxCount (MaxCount sel) (field @ ''.selector.max_count'') role @
           (if role = RoleGrant \<and> populatedDimensions sel = [] \<and> narrowable d then
              [\<lparr>isSeverity = SeverityMedium, isField = field @ ''.selector'',
                isMessage = Fmt ''%s is granted with no selector, so it covers every %s operation''
                  [AStr (kind_string (grantKind g)), AStr (domain_string d)],
                isSuggestion = Fmt ''narrow the grant with %s''
                  [AStr (join_with '' or '' (applicableDimensions d))]\<rparr>]
            else [])))"

definition LintEnvelope :: "envelope \<Rightarrow> issue list" where
  "LintEnvelope env =
     lintWorkspaceRoot (WorkspaceRoot (Constraints env)) @
     lint_each (\<lambda>i g. lintEntry g RoleGrant (indexed ''grants'' i)) 0 (Grants env) @
     lint_each (\<lambda>i g. lintEntry g RoleDenial (indexed ''denials'' i)) 0 (Denials env)"

definition lint_validate :: "envelope option \<Rightarrow> msg + issue list" where
  "lint_validate env =
     (case env of None \<Rightarrow> Inl (Fmt ''validate: envelope is required'' []) | Some env \<Rightarrow> Inr (LintEnvelope env))"

section \<open>What is refused\<close>

definition critical :: "issue list \<Rightarrow> bool" where
  "critical issues \<longleftrightarrow> (\<exists>i\<in>set issues. isSeverity i = SeverityCritical)"

lemma blocking_critical: "BlockingIssues issues = [] \<longleftrightarrow> \<not> critical issues"
  by (auto simp: BlockingIssues_def critical_def filter_empty_conv)

lemma critical_simps [simp]:
  "\<not> critical []" "critical (i # is) \<longleftrightarrow> isSeverity i = SeverityCritical \<or> critical is"
  "critical (xs @ ys) \<longleftrightarrow> critical xs \<or> critical ys"
  "critical (concat xss) \<longleftrightarrow> (\<exists>xs\<in>set xss. critical xs)"
  by (auto simp: critical_def)

lemma critical_lint_each:
  "(\<And>i x. critical (f i x) \<longleftrightarrow> P x) \<Longrightarrow> critical (lint_each f n xs) \<longleftrightarrow> (\<exists>x\<in>set xs. P x)"
  by (induction xs arbitrary: n) auto

lemma not_critical_ambiguity: "\<not> critical (lintPathAmbiguity p field role)"
  by (simp add: lintPathAmbiguity_def)

lemma critical_values:
  "critical (lintPathPatterns ps field role) \<longleftrightarrow>
     (\<exists>p\<in>set ps. role = RoleDenial \<and> ValidatePattern p \<noteq> None)"
  "critical (lintHostPatterns hs field role) \<longleftrightarrow>
     (\<exists>h\<in>set hs. role = RoleDenial \<and> ValidateHostPattern h \<noteq> None)"
  "critical (lintPorts ports field role) \<longleftrightarrow> (\<exists>p\<in>set ports. role = RoleDenial \<and> \<not> IsValidPort p)"
  "critical (lintStrings vs field label role) \<longleftrightarrow> (\<exists>v\<in>set vs. role = RoleDenial \<and> is_blank v)"
  unfolding lintPathPatterns_def lintHostPatterns_def lintPorts_def lintStrings_def
  by (rule critical_lint_each,
      simp add: unmatchable_issue_def role_unmatchable_def not_critical_ambiguity split: option.split)+

lemma critical_others:
  "\<not> critical (lintMaxCount m field role)" "\<not> critical (lintWorkspaceRoot rootp)"
  "\<not> critical (lint_ignored d sel field role)"
  by (simp_all add: lintMaxCount_def lintWorkspaceRoot_def lint_ignored_def Let_def)
    (auto simp: critical_def role_overbroad_def)

lemma critical_dimension:
  "critical (lint_dimension sel field role dm) \<longleftrightarrow> role = RoleDenial \<and>
     (dm = dimPaths \<and> (\<exists>p\<in>set (PathPatterns sel). ValidatePattern p \<noteq> None) \<or>
      dm = dimExecutables \<and> (\<exists>p\<in>set (Executables sel). ValidatePattern p \<noteq> None) \<or>
      dm = dimHosts \<and> (\<exists>h\<in>set (Hosts sel). ValidateHostPattern h \<noteq> None) \<or>
      dm = dimPorts \<and> (\<exists>p\<in>set (Ports sel). \<not> IsValidPort p) \<or>
      dm = dimProtocols \<and> (\<exists>v\<in>set (Protocols sel). is_blank v) \<or>
      dm = dimArgs \<and> (\<exists>v\<in>set (ArgPatterns sel). is_blank v))"
  by (auto simp: lint_dimension_def Let_def critical_values dim_defs)

text \<open>What a denial needs to be in force: every value the matcher reads for its domain can match.\<close>

definition readable_denial :: "grant \<Rightarrow> bool" where
  "readable_denial d \<longleftrightarrow>
     (case DomainOf (grantKind d) of
        Some DomainNetwork \<Rightarrow>
          (\<forall>h\<in>set (Hosts (grantSelector d)). ValidateHostPattern h = None) \<and>
          (\<forall>p\<in>set (Ports (grantSelector d)). IsValidPort p) \<and>
          (\<forall>v\<in>set (Protocols (grantSelector d)). \<not> is_blank v)
      | Some DomainProcess \<Rightarrow>
          (\<forall>p\<in>set (Executables (grantSelector d)). ValidatePattern p = None) \<and>
          (\<forall>v\<in>set (ArgPatterns (grantSelector d)). \<not> is_blank v)
      | _ \<Rightarrow> \<forall>p\<in>set (PathPatterns (grantSelector d)). ValidatePattern p = None)"

lemma critical_entry:
  "critical (lintEntry g role field) \<longleftrightarrow>
     ValidateKind (grantKind g) \<noteq> None \<or> role = RoleDenial \<and> \<not> readable_denial g"
proof (cases "ValidateKind (grantKind g)")
  case None
  define d where "d = (case DomainOf (grantKind g) of None \<Rightarrow> DomainOther [] | Some d \<Rightarrow> d)"
  have "critical (lintEntry g role field) \<longleftrightarrow>
      (\<exists>dm\<in>set (applicableDimensions d). critical (lint_dimension (grantSelector g) field role dm))"
    using None by (auto simp: lintEntry_def critical_others d_def Let_def)
  also have "\<dots> \<longleftrightarrow> role = RoleDenial \<and> \<not> readable_denial g"
    by (cases "DomainOf (grantKind g)"; cases d)
      (auto simp: critical_dimension dim_defs readable_denial_def d_def)
  finally show ?thesis using None by simp
qed (simp add: lintEntry_def)

text \<open>Two selectors that agree on a dimension.\<close>

definition agree_on :: "selector \<Rightarrow> selector \<Rightarrow> string \<Rightarrow> bool" where
  "agree_on s t dm \<longleftrightarrow>
     (dm = dimPaths \<longrightarrow> PathPatterns s = PathPatterns t) \<and> (dm = dimHosts \<longrightarrow> Hosts s = Hosts t) \<and>
     (dm = dimPorts \<longrightarrow> Ports s = Ports t) \<and> (dm = dimProtocols \<longrightarrow> Protocols s = Protocols t) \<and>
     (dm = dimExecutables \<longrightarrow> Executables s = Executables t) \<and>
     (dm = dimArgs \<longrightarrow> ArgPatterns s = ArgPatterns t)"

section \<open>A gap\<close>

text \<open>
  A character class with its bounds the wrong way round is accepted by \<open>ValidatePattern\<close> and matches
  no byte, so a denial written with one is admitted and protects nothing.
\<close>

inductive_cases covers_two: "path_covers [p, q] segs"
inductive_cases covers_one: "path_covers [q] segs"

lemma reversed_class_matches_nothing: "\<not> MatchPath ''/src/[b-a]'' path"
proof
  assume "MatchPath ''/src/[b-a]'' path"
  moreover have "segments (normalize ''/src/[b-a]'') = [''src'', ''[b-a]'']" by code_simp
  ultimately obtain segs where "path_covers [''src'', ''[b-a]''] segs" by (auto simp: MatchPath_iff)
  then obtain seg where "seg_glob ''[b-a]'' seg" by (auto elim!: covers_two covers_one)
  moreover have "classEnd ''[b-a]'' 0 = Some 5" by code_simp
  ultimately have "matchClass ''[b-a]'' (hd seg)" by (simp add: seg_glob.simps)
  then show False
    using order_trans[of "CHR ''b''" "hd seg" "CHR ''a''"] by (auto simp: matchClass_def less_eq_char_def)
qed

lemma reversed_class_denial_is_admitted:
  "BlockingIssues (LintEnvelope (zero_envelope\<lparr>Denials := [\<lparr>grantKind = KindFileRead,
     grantDomain = DomainFilesystem, grantSelector = empty_selector\<lparr>PathPatterns := [''/src/[b-a]'']\<rparr>,
     grantRationale = [], grantOptional = False\<rparr>]\<rparr>)) = []"
proof -
  have "ValidatePattern ''/src/[b-a]'' = None" by code_simp
  moreover have "ValidateKind KindFileRead = None" by code_simp
  ultimately show ?thesis
    by (simp add: blocking_critical LintEnvelope_def critical_others zero_envelope_def critical_entry
        readable_denial_def DomainOf_rows)
qed

section \<open>Admission\<close>

lemma admission_iff:
  "BlockingIssues (LintEnvelope env) = [] \<longleftrightarrow>
     list_all (\<lambda>g. grantKind g \<in> set AllKinds) (Grants env @ Denials env) \<and>
     list_all readable_denial (Denials env)"
proof -
  have "critical (lint_each (\<lambda>i g. lintEntry g role (indexed l i)) n gs) \<longleftrightarrow>
      (\<exists>g\<in>set gs. ValidateKind (grantKind g) \<noteq> None \<or> role = RoleDenial \<and> \<not> readable_denial g)"
    for role l n gs by (rule critical_lint_each) (rule critical_entry)
  moreover have "kind_string k \<noteq> []" if "k \<in> set AllKinds" for k
    using that by (auto simp: AllKinds_list)
  then have "ValidateKind k = None \<longleftrightarrow> k \<in> set AllKinds" for k
    by (auto simp: ValidateKind_def Known_iff_AllKinds)
  ultimately show ?thesis
    by (auto simp: blocking_critical LintEnvelope_def critical_others list_all_iff)
qed

section \<open>Properties\<close>

text \<open>C24: admission refuses exactly the envelopes that cannot be evaluated as written. An envelope has no
  blocking issue if and only if every capability it grants or denies is in the catalog and every
  value of a denial that the matcher reads for the denial's domain is well formed. Nothing about a
  grant's own values, its breadth, its budget or the workspace root ever refuses admission.\<close>

theorem admission_is_readable_denials:
  "BlockingIssues (LintEnvelope env) = [] \<longleftrightarrow>
     list_all (\<lambda>g. grantKind g \<in> set AllKinds) (Grants env @ Denials env) \<and>
     list_all readable_denial (Denials env)"
  by (rule admission_iff)

text \<open>the linter reads the dimensions the matcher reads. Two entries for one capability whose
  selectors agree on the dimensions the linter calls applicable to its domain are matched alike, with
  the same answer on every observation, whatever the other dimensions hold: a dimension reported as
  ignored really is.\<close>

theorem ignored_dimensions_are_ignored:
  assumes "grantKind g = grantKind h" and "DomainOf (grantKind g) = Some d"
    and "list_all (agree_on (grantSelector g) (grantSelector h)) (applicableDimensions d)"
  shows "mrMatched (Match m g obs) = mrMatched (Match m h obs) \<and>
    outcome (Match m g obs) = outcome (Match m h obs)"
proof -
  have "grant_coverage m g obs = grant_coverage m h obs"
    using assms by (cases d) (auto simp: grant_coverage_def network_coverage_def agree_on_def dim_defs split: prod.split)
  then show ?thesis by (simp add: mrMatched_outcome Match_outcome)
qed

theorem ignored_dimensions_are_ignored_witness:
  "\<forall>obs. mrMatched (Match (NewMatcher (=)) \<lparr>grantKind = KindFileWrite, grantDomain = DomainFilesystem,
      grantSelector = empty_selector\<lparr>Hosts := [''example.com'']\<rparr>, grantRationale = [], grantOptional = False\<rparr> obs) =
   mrMatched (Match (NewMatcher (=)) \<lparr>grantKind = KindFileWrite, grantDomain = DomainFilesystem,
      grantSelector = empty_selector, grantRationale = [], grantOptional = False\<rparr> obs)"
  by (intro allI ignored_dimensions_are_ignored[where d = DomainFilesystem, THEN conjunct1])
    (simp_all add: DomainOf_rows agree_on_def dim_defs empty_selector_def)

end
