(* ===== verification/Manager.thy ===== *)
theory Manager
  imports SessionLaws Lint
begin

text \<open>
  The session lifecycle (\<open>internal/session/manager.go\<close>, types in \<open>session.go\<close>): which transitions are
  legal, what each one checks and changes, and which ended sessions are forgotten. The manager's map
  is an association list; every place the source ranges over the map it sorts by a total order. An
  operation takes the clock reading it uses and returns its error beside the new manager. Sealing
  and approving write the envelope the session holds; the tracking state reads only its grants,
  which neither changes.
\<close>

section \<open>The transition table\<close>

datatype lifecycle_action = ActionSeal | ActionApprove | ActionStart | ActionSuspend | ActionResume
  | ActionEnd

definition AllActions :: "lifecycle_action list" where
  "AllActions = [ActionSeal, ActionApprove, ActionStart, ActionSuspend, ActionResume, ActionEnd]"

definition AllStates :: "lifecycle list" where
  "AllStates = [StatePending, StateAwaitingApproval, StateReady, StateActive, StateSuspended,
     StateCompleted, StateTerminated, StateFailed]"

definition TerminalStates :: "lifecycle list" where
  "TerminalStates = [StateCompleted, StateTerminated, StateFailed]"

definition IsTerminal :: "lifecycle \<Rightarrow> bool" where
  "IsTerminal s = list_ex (\<lambda>t. s = t) TerminalStates"

primrec transitions :: "lifecycle_action \<Rightarrow> lifecycle list" where
  "transitions ActionSeal = [StatePending]"
| "transitions ActionApprove = [StateAwaitingApproval]"
| "transitions ActionStart = [StateReady]"
| "transitions ActionSuspend = [StateActive]"
| "transitions ActionResume = [StateSuspended]"
| "transitions ActionEnd =
     [StatePending, StateAwaitingApproval, StateReady, StateActive, StateSuspended]"

definition Allowed :: "lifecycle_action \<Rightarrow> lifecycle \<Rightarrow> bool" where
  "Allowed a from_state = (from_state \<in> set (transitions a))"

section \<open>Data\<close>

datatype session_error =
    ErrNotFound string
  | ErrExists string
  | ErrEnvelopeRequired
  | ErrNoSessionID
  | ErrEnvelopeInadmissible string msg
  | ErrEnvelopeUnsealed
  | ErrNoSupervisor string
  | ErrSupervisor lifecycle_action string msg
  | ErrNoRootPID int
  | ErrBadOutcome lifecycle
  | ErrNoApprover
  | TransitionError string lifecycle_action lifecycle

record session =
  sesID :: string
  sesState :: lifecycle
  sesEnvelope :: envelope
  sesMode :: mode
  sesRootPID :: int
  sesWorkspaceRoot :: string
  sesCreatedAt :: time
  sesStartedAt :: time
  sesEndedAt :: "time option"
  sesOutcome :: session_outcome
  sesSummary :: session_summary

record managed =
  mdSession :: session
  mdState :: memory_state

record supervisor =
  svSuspend :: "string \<Rightarrow> go_error"
  svResume :: "string \<Rightarrow> go_error"

record create_request =
  crEnvelope :: "envelope option"
  crPrompt :: string
  crWorkspaceRoot :: string
  crMode :: mode
  crAgentIdentity :: string

record session_filter =
  sfState :: "lifecycle option"
  sfSince :: time
  sfUntil :: time
  sfLimit :: int

record manager =
  mgSessions :: "(string \<times> managed) list"
  mgRequireApproval :: bool
  mgDefaultMode :: mode
  mgSupervisor :: "supervisor option"
  mgStateConfig :: state_config
  mgKeepEnded :: int

definition DefaultKeepEnded :: int where "DefaultKeepEnded = 128"

definition NewManager :: "bool \<Rightarrow> mode \<Rightarrow> supervisor option \<Rightarrow> state_config \<Rightarrow> int \<Rightarrow> manager" where
  "NewManager require default_mode sprv cfg keep =
     \<lparr>mgSessions = [], mgRequireApproval = require,
      mgDefaultMode = (if mode_string default_mode = [] then ModeMonitor else default_mode),
      mgSupervisor = sprv, mgStateConfig = cfg,
      mgKeepEnded = (if keep \<le> 0 then DefaultKeepEnded else keep)\<rparr>"

section \<open>Internals\<close>

definition lookup :: "string \<Rightarrow> manager \<Rightarrow> session_error + managed" where
  "lookup sid m =
     (case map_of (mgSessions m) sid of None \<Rightarrow> Inl (ErrNotFound sid) | Some rec \<Rightarrow> Inr rec)"

definition check :: "lifecycle_action \<Rightarrow> managed \<Rightarrow> session_error option" where
  "check a rec =
     (if \<not> Allowed a (sesState (mdSession rec))
      then Some (TransitionError (sesID (mdSession rec)) a (sesState (mdSession rec))) else None)"

text \<open>The shape every transition has: find the session, consult the table, then its own body, which
  either refuses or says what the record becomes.\<close>

definition store :: "string \<Rightarrow> managed \<Rightarrow> manager \<Rightarrow> manager" where
  "store sid rec m = m\<lparr>mgSessions := AList.update sid rec (mgSessions m)\<rparr>"

definition transition ::
  "lifecycle_action \<Rightarrow> string \<Rightarrow> (managed \<Rightarrow> session_error + managed) \<Rightarrow> manager \<Rightarrow>
     session_error option \<times> manager" where
  "transition a sid body m =
     (case lookup sid m of
        Inl err \<Rightarrow> (Some err, m)
      | Inr rec \<Rightarrow>
          (case check a rec of
             Some err \<Rightarrow> (Some err, m)
           | None \<Rightarrow>
               (case body rec of
                  Inl err \<Rightarrow> (Some err, m)
                | Inr rec \<Rightarrow> (None, store sid rec m))))"

definition set_session :: "(session \<Rightarrow> session) \<Rightarrow> managed \<Rightarrow> managed" where
  "set_session f rec = rec\<lparr>mdSession := f (mdSession rec)\<rparr>"

section \<open>Operations\<close>

definition Create :: "create_request \<Rightarrow> time \<Rightarrow> manager \<Rightarrow> (session_error + session) \<times> manager" where
  "Create req now m =
     (case crEnvelope req of
        None \<Rightarrow> (Inl ErrEnvelopeRequired, m)
      | Some env \<Rightarrow>
          (if envSessionID env = [] then (Inl ErrNoSessionID, m)
           else
             (let sid = envSessionID env;
                  md = (if mode_string (crMode req) = [] then mgDefaultMode m else crMode req);
                  workspace = (if crWorkspaceRoot req = [] then WorkspaceRoot (Constraints env)
                               else crWorkspaceRoot req)
              in
              if map_of (mgSessions m) sid \<noteq> None then (Inl (ErrExists sid), m)
              else
                (let ses = \<lparr>sesID = sid, sesState = StatePending, sesEnvelope = env, sesMode = md,
                       sesRootPID = 0, sesWorkspaceRoot = workspace, sesCreatedAt = now,
                       sesStartedAt = 0, sesEndedAt = None, sesOutcome = zero_outcome,
                       sesSummary = zero_summary\<rparr>;
                     st = NewStateWith ((mgStateConfig m)\<lparr>scSessionID := sid, scEnvelope := Some env,
                       scStartedAt := 0\<rparr>)
                 in (Inr ses, store sid \<lparr>mdSession = ses, mdState = st\<rparr> m)))))"

definition seal_body :: "bool \<Rightarrow> managed \<Rightarrow> session_error + managed" where
  "seal_body require rec =
     (let env = sesEnvelope (mdSession rec) in
      case BlockingIssues (LintEnvelope env) of
        i # _ \<Rightarrow> Inl (ErrEnvelopeInadmissible (isField i) (isMessage i))
      | [] \<Rightarrow>
          Inr (set_session (\<lambda>s. s\<lparr>sesEnvelope := env\<lparr>envSealed := True\<rparr>,
            sesState := (if require \<and> envApproval env = None then StateAwaitingApproval
                         else StateReady)\<rparr>) rec))"

definition Seal :: "string \<Rightarrow> manager \<Rightarrow> session_error option \<times> manager" where
  "Seal sid m = transition ActionSeal sid (seal_body (mgRequireApproval m)) m"

definition approve_body :: "approval_record \<Rightarrow> time \<Rightarrow> managed \<Rightarrow> session_error + managed" where
  "approve_body ap now rec =
     (if apApprovedBy ap = [] then Inl ErrNoApprover
      else
        (let ap = (if apApprovedAt ap = 0 then ap\<lparr>apApprovedAt := now\<rparr> else ap) in
         Inr (set_session (\<lambda>s. s\<lparr>sesEnvelope := (sesEnvelope s)\<lparr>envApproval := Some ap\<rparr>,
           sesState := StateReady\<rparr>) rec)))"

definition Approve :: "string \<Rightarrow> approval_record \<Rightarrow> time \<Rightarrow> manager \<Rightarrow> session_error option \<times> manager" where
  "Approve sid ap now m = transition ActionApprove sid (approve_body ap now) m"

definition start_body :: "int \<Rightarrow> time \<Rightarrow> managed \<Rightarrow> session_error + managed" where
  "start_body rootPID now rec =
     (if rootPID \<le> 0 then Inl (ErrNoRootPID rootPID)
      else if \<not> envSealed (sesEnvelope (mdSession rec)) then Inl ErrEnvelopeUnsealed
      else
        Inr ((set_session (\<lambda>s. s\<lparr>sesRootPID := rootPID, sesStartedAt := now, sesState := StateActive\<rparr>) rec)
          \<lparr>mdState := the (SetStartedAt now (Some (mdState rec)))\<rparr>))"

definition Start :: "string \<Rightarrow> int \<Rightarrow> time \<Rightarrow> manager \<Rightarrow> session_error option \<times> manager" where
  "Start sid rootPID now m = transition ActionStart sid (start_body rootPID now) m"

text \<open>The supervisor acts before the state moves.\<close>

definition supervised ::
  "lifecycle_action \<Rightarrow> supervisor option \<Rightarrow> (supervisor \<Rightarrow> string \<Rightarrow> go_error) \<Rightarrow> string \<Rightarrow>
     lifecycle \<Rightarrow> managed \<Rightarrow> session_error + managed" where
  "supervised a sprv act sid final rec =
     (case sprv of
        None \<Rightarrow> Inl (ErrNoSupervisor sid)
      | Some sv \<Rightarrow>
          (case act sv sid of
             Some err \<Rightarrow> Inl (ErrSupervisor a sid err)
           | None \<Rightarrow> Inr (set_session (\<lambda>s. s\<lparr>sesState := final\<rparr>) rec)))"

definition Suspend :: "string \<Rightarrow> manager \<Rightarrow> session_error option \<times> manager" where
  "Suspend sid m =
     transition ActionSuspend sid
       (supervised ActionSuspend (mgSupervisor m) svSuspend sid StateSuspended) m"

definition Resume :: "string \<Rightarrow> manager \<Rightarrow> session_error option \<times> manager" where
  "Resume sid m =
     transition ActionResume sid
       (supervised ActionResume (mgSupervisor m) svResume sid StateActive) m"

definition endedAt :: "session \<Rightarrow> time" where
  "endedAt s = (case sesEndedAt s of None \<Rightarrow> 0 | Some t \<Rightarrow> t)"

definition evictEnded :: "manager \<Rightarrow> string list \<times> manager" where
  "evictEnded m =
     (let ended = filter (\<lambda>(k, rec). IsTerminal (sesState (mdSession rec))) (mgSessions m) in
      if int (length ended) \<le> mgKeepEnded m then ([], m)
      else
        (let sorted_ended =
               sort_key (\<lambda>(k, rec). (endedAt (mdSession rec), sesID (mdSession rec))) ended;
             out = map (\<lambda>(k, rec). sesID (mdSession rec))
               (take (length ended - nat (mgKeepEnded m)) sorted_ended)
         in (out, m\<lparr>mgSessions := filter (\<lambda>(k, rec). k \<notin> set out) (mgSessions m)\<rparr>)))"

definition end_body :: "session_outcome \<Rightarrow> lifecycle \<Rightarrow> time \<Rightarrow> managed \<Rightarrow> session_error + managed" where
  "end_body oc final now rec =
     Inr ((set_session (\<lambda>s. s\<lparr>sesState := final, sesEndedAt := Some now,
         sesOutcome := oc\<lparr>soResult := final\<rparr>, sesSummary := Snapshot (Some (mdState rec))\<rparr>) rec)
       \<lparr>mdState := the (release (Some (mdState rec)))\<rparr>)"

definition final_state :: "lifecycle \<Rightarrow> lifecycle" where
  "final_state r = (if r = StateOther [] then StateCompleted else r)"

definition End ::
  "string \<Rightarrow> session_outcome \<Rightarrow> time \<Rightarrow> manager \<Rightarrow> session_error option \<times> string list \<times> manager" where
  "End sid oc now m =
     (let final = final_state (soResult oc) in
      if \<not> IsTerminal final then (Some (ErrBadOutcome final), [], m)
      else
        (case transition ActionEnd sid (end_body oc final now) m of
           (Some err, m) \<Rightarrow> (Some err, [], m)
         | (None, m) \<Rightarrow> (let (evicted, m) = evictEnded m in (None, evicted, m))))"

section \<open>Queries\<close>

definition view :: "managed \<Rightarrow> session" where
  "view rec =
     (let out = mdSession rec in
      if \<not> IsTerminal (sesState out) then
        out\<lparr>sesSummary := Live (Some (mdState rec)), sesOutcome := Outcome [] (Some (mdState rec))\<rparr>
      else out)"

definition Get :: "string \<Rightarrow> manager \<Rightarrow> session_error + session" where
  "Get sid m = (case lookup sid m of Inl err \<Rightarrow> Inl err | Inr rec \<Rightarrow> Inr (view rec))"

definition filter_matches :: "session_filter \<Rightarrow> session \<Rightarrow> bool" where
  "filter_matches f s =
     (if (case sfState f of None \<Rightarrow> False | Some st \<Rightarrow> sesState s \<noteq> st) then False
      else if sfSince f \<noteq> 0 \<and> sesCreatedAt s < sfSince f then False
      else if sfUntil f \<noteq> 0 \<and> \<not> sesCreatedAt s < sfUntil f then False
      else True)"

definition list_sessions :: "session_filter \<Rightarrow> manager \<Rightarrow> session list" where
  "list_sessions f m =
     (let out = sort_key (\<lambda>s. (sesCreatedAt s, sesID s))
            (map view (filter (\<lambda>rec. filter_matches f (mdSession rec)) (map snd (mgSessions m))))
      in if sfLimit f > 0 \<and> int (length out) > sfLimit f then take (nat (sfLimit f)) out else out)"

record binding =
  bnSessionID :: string
  bnEnvelope :: envelope
  bnMode :: mode
  bnState :: memory_state
  bnLifecycle :: lifecycle

definition Binding :: "string \<Rightarrow> manager \<Rightarrow> binding option" where
  "Binding sid m =
     map_option (\<lambda>rec. \<lparr>bnSessionID = sesID (mdSession rec), bnEnvelope = sesEnvelope (mdSession rec),
         bnMode = sesMode (mdSession rec), bnState = mdState rec,
         bnLifecycle = sesState (mdSession rec)\<rparr>) (map_of (mgSessions m) sid)"

definition State :: "string \<Rightarrow> manager \<Rightarrow> memory_state option" where
  "State sid m = map_option mdState (map_of (mgSessions m) sid)"

definition Len :: "manager \<Rightarrow> nat" where
  "Len m = length (mgSessions m)"

section \<open>Runs of the manager\<close>

text \<open>
  Everything that happens to a manager: its operations, and the writes a session's pipeline makes
  through the tracking state the manager hands out.
\<close>

definition record_ops :: "string \<Rightarrow> state_op list \<Rightarrow> manager \<Rightarrow> manager" where
  "record_ops sid ops m =
     (case map_of (mgSessions m) sid of
        None \<Rightarrow> m
      | Some rec \<Rightarrow> store sid (rec\<lparr>mdState := run_ops ops (mdState rec)\<rparr>) m)"

inductive manager_step :: "manager \<Rightarrow> manager \<Rightarrow> bool" where
  step_create: "manager_step m (snd (Create req now m))"
| step_seal: "manager_step m (snd (Seal sid m))"
| step_approve: "manager_step m (snd (Approve sid ap now m))"
| step_start: "manager_step m (snd (Start sid pid now m))"
| step_suspend: "manager_step m (snd (Suspend sid m))"
| step_resume: "manager_step m (snd (Resume sid m))"
| step_end: "manager_step m (snd (snd (End sid oc now m)))"
| step_record: "manager_step m (record_ops sid ops m)"

inductive manager_reachable :: "manager \<Rightarrow> bool" where
  reach_new: "manager_reachable (NewManager require md sprv cfg keep)"
| reach_step: "manager_reachable m \<Longrightarrow> manager_step m m' \<Longrightarrow> manager_reachable m'"

end
