(* ===== verification/ManagerLaws.thy ===== *)
theory ManagerLaws
  imports Manager Assoc
begin

text \<open>
  What the lifecycle guarantees in every reachable manager: an agent runs only under a sealed,
  admissible and, where required, approved envelope; an ended session stays ended; a refused
  operation changes nothing; forgotten sessions are ended ones, the earliest first.
\<close>

section \<open>The invariant\<close>

definition authorized :: "bool \<Rightarrow> envelope \<Rightarrow> bool" where
  "authorized require env \<longleftrightarrow> envSealed env \<and> BlockingIssues (LintEnvelope env) = [] \<and>
     (require \<longrightarrow> envApproval env \<noteq> None)"

definition running :: "lifecycle \<Rightarrow> bool" where
  "running s \<longleftrightarrow> s = StateActive \<or> s = StateSuspended"

definition session_ok :: "bool \<Rightarrow> managed \<Rightarrow> bool" where
  "session_ok require rec \<longleftrightarrow>
     (let s = mdSession rec in
      sesState s \<in> set AllStates \<and>
      (sesState s = StateAwaitingApproval \<longrightarrow> authorized False (sesEnvelope s)) \<and>
      (sesState s = StateReady \<or> running (sesState s) \<longrightarrow> authorized require (sesEnvelope s)) \<and>
      (running (sesState s) \<longrightarrow> 0 < sesRootPID s) \<and>
      (IsTerminal (sesState s) \<longleftrightarrow> sesEndedAt s \<noteq> None) \<and> state_ok (mdState rec))"

definition ended :: "manager \<Rightarrow> (string \<times> managed) list" where
  "ended m = filter (\<lambda>(k, rec). IsTerminal (sesState (mdSession rec))) (mgSessions m)"

definition sessions_ok :: "manager \<Rightarrow> bool" where
  "sessions_ok m \<longleftrightarrow> distinct (map fst (mgSessions m)) \<and> 0 < mgKeepEnded m \<and>
     (\<forall>(k, rec)\<in>set (mgSessions m). sesID (mdSession rec) = k \<and> session_ok (mgRequireApproval m) rec)"

definition manager_ok :: "manager \<Rightarrow> bool" where
  "manager_ok m \<longleftrightarrow> sessions_ok m \<and> int (length (ended m)) \<le> mgKeepEnded m"

lemmas lifecycle_defs = IsTerminal_def TerminalStates_def AllStates_def running_def Allowed_def

lemma LintEnvelope_updates [simp]:
  "LintEnvelope (env\<lparr>envSealed := b\<rparr>) = LintEnvelope env"
  "LintEnvelope (env\<lparr>envApproval := a\<rparr>) = LintEnvelope env"
  by (simp_all add: LintEnvelope_def)

subsection \<open>The map\<close>

lemma store_simps [simp]:
  "mgKeepEnded (store sid rec m) = mgKeepEnded m"
  "mgRequireApproval (store sid rec m) = mgRequireApproval m"
  "map_of (mgSessions (store sid rec m)) = (map_of (mgSessions m))(sid \<mapsto> rec)"
  "mgSupervisor (store sid rec m) = mgSupervisor m"
  by (simp_all add: store_def update_conv')

lemma store_ok:
  assumes "sessions_ok m" and "session_ok (mgRequireApproval m) rec" and "sesID (mdSession rec) = sid"
  shows "sessions_ok (store sid rec m)"
  using assms set_update_subset[of sid rec "mgSessions m"]
  by (auto simp: sessions_ok_def store_def distinct_update)

lemma length_filter_update:
  "\<not> P (k, v) \<Longrightarrow> length (filter P (AList.update k v xs)) \<le> length (filter P xs)"
  by (induction xs) auto

lemma store_ended:
  "\<not> IsTerminal (sesState (mdSession rec)) \<Longrightarrow> length (ended (store sid rec m)) \<le> length (ended m)"
  unfolding ended_def store_def by (simp add: length_filter_update)

lemma lookup_iff: "lookup sid m = Inr rec \<longleftrightarrow> map_of (mgSessions m) sid = Some rec"
  by (auto simp: lookup_def split: option.split)

lemma sessions_ok_lookup:
  assumes "sessions_ok m" and "map_of (mgSessions m) sid = Some rec"
  shows "sesID (mdSession rec) = sid" "session_ok (mgRequireApproval m) rec"
  using assms by (auto simp: sessions_ok_def dest!: map_of_SomeD)

subsection \<open>Transitions\<close>

lemma transition_cases:
  obtains (refused) err where "transition a sid body m = (Some err, m)"
  | (taken) rec rec' where "map_of (mgSessions m) sid = Some rec"
      "Allowed a (sesState (mdSession rec))" "body rec = Inr rec'"
      "transition a sid body m = (None, store sid rec' m)"
proof (cases "lookup sid m")
  case (Inr rec)
  then have found: "map_of (mgSessions m) sid = Some rec" by (simp add: lookup_iff)
  show thesis
    using Inr refused taken[OF found]
    by (cases "Allowed a (sesState (mdSession rec))"; cases "body rec")
      (auto simp: transition_def check_def)
qed (use refused in \<open>simp add: transition_def\<close>)

text \<open>A body that keeps the identity and ends in a good, running or waiting record keeps the
  invariant.\<close>

lemma transition_ok:
  assumes ok: "manager_ok m"
    and body: "\<And>rec rec'. session_ok (mgRequireApproval m) rec \<Longrightarrow> Allowed a (sesState (mdSession rec)) \<Longrightarrow>
      body rec = Inr rec' \<Longrightarrow> session_ok (mgRequireApproval m) rec' \<and>
        sesID (mdSession rec') = sesID (mdSession rec) \<and> \<not> IsTerminal (sesState (mdSession rec'))"
  shows "manager_ok (snd (transition a sid body m))"
proof (cases rule: transition_cases[of a sid body m])
  case (taken rec rec')
  have "sessions_ok m" using ok by (simp add: manager_ok_def)
  note rec = sessions_ok_lookup[OF this taken(1)]
  note new = body[OF rec(2) taken(2,3)]
  then show ?thesis
    using ok taken(4) rec(1) store_ended[of rec' sid m] store_ok[of m rec' sid]
    by (simp add: manager_ok_def)
qed (use ok in simp)

lemma bodies_ok:
  "session_ok r rec \<Longrightarrow> Allowed ActionSeal (sesState (mdSession rec)) \<Longrightarrow> seal_body r rec = Inr rec' \<Longrightarrow>
     session_ok r rec' \<and> sesID (mdSession rec') = sesID (mdSession rec) \<and>
     \<not> IsTerminal (sesState (mdSession rec'))"
  "session_ok r rec \<Longrightarrow> Allowed ActionApprove (sesState (mdSession rec)) \<Longrightarrow> approve_body ap now rec = Inr rec' \<Longrightarrow>
     session_ok r rec' \<and> sesID (mdSession rec') = sesID (mdSession rec) \<and>
     \<not> IsTerminal (sesState (mdSession rec'))"
  "session_ok r rec \<Longrightarrow> Allowed ActionStart (sesState (mdSession rec)) \<Longrightarrow> start_body pid now rec = Inr rec' \<Longrightarrow>
     session_ok r rec' \<and> sesID (mdSession rec') = sesID (mdSession rec) \<and>
     \<not> IsTerminal (sesState (mdSession rec'))"
  "session_ok r rec \<Longrightarrow> Allowed ActionSuspend (sesState (mdSession rec)) \<Longrightarrow>
     supervised a sv act sid StateSuspended rec = Inr rec' \<Longrightarrow>
     session_ok r rec' \<and> sesID (mdSession rec') = sesID (mdSession rec) \<and>
     \<not> IsTerminal (sesState (mdSession rec'))"
  "session_ok r rec \<Longrightarrow> Allowed ActionResume (sesState (mdSession rec)) \<Longrightarrow>
     supervised a sv act sid StateActive rec = Inr rec' \<Longrightarrow>
     session_ok r rec' \<and> sesID (mdSession rec') = sesID (mdSession rec) \<and>
     \<not> IsTerminal (sesState (mdSession rec'))"
proof -
  have started: "state_ok (the (SetStartedAt now (Some s)))" if "state_ok s" for s
    using state_ok_apply[OF that, of "OpStarted now"] by simp
  show "session_ok r rec \<Longrightarrow> Allowed ActionStart (sesState (mdSession rec)) \<Longrightarrow> start_body pid now rec = Inr rec' \<Longrightarrow>
     session_ok r rec' \<and> sesID (mdSession rec') = sesID (mdSession rec) \<and>
     \<not> IsTerminal (sesState (mdSession rec'))"
    using started by (auto simp: start_body_def session_ok_def set_session_def lifecycle_defs Let_def
        split: if_splits)
qed (auto simp: seal_body_def approve_body_def supervised_def session_ok_def set_session_def
    lifecycle_defs authorized_def Let_def split: list.splits option.splits if_splits)

subsection \<open>Ending and forgetting\<close>

lemma filter_other_keys:
  "distinct (map fst (ys @ zs)) \<Longrightarrow> filter (\<lambda>x. fst x \<notin> fst ` set ys) (ys @ zs) = zs"
  by (auto simp: filter_empty_conv filter_id_conv)

lemma evictEnded_ok:
  assumes "sessions_ok m"
  shows "manager_ok (snd (evictEnded m))"
proof (cases "int (length (ended m)) \<le> mgKeepEnded m")
  case True
  then show ?thesis using assms by (simp add: evictEnded_def manager_ok_def ended_def Let_def)
next
  case False
  let ?key = "\<lambda>(k :: string, rec). (endedAt (mdSession rec), sesID (mdSession rec))"
  let ?s = "sort_key ?key (ended m)"
  let ?n = "length (ended m) - nat (mgKeepEnded m)"
  let ?out = "map (\<lambda>(k :: string, rec). sesID (mdSession rec)) (take ?n ?s)"
  let ?keep = "\<lambda>(k, rec :: managed). k \<notin> set ?out"
  have m': "snd (evictEnded m) = m\<lparr>mgSessions := filter ?keep (mgSessions m)\<rparr>"
    using False by (simp add: evictEnded_def ended_def Let_def)
  have ids: "\<forall>x\<in>set ?s. sesID (mdSession (snd x)) = fst x"
    using assms by (auto simp: ended_def sessions_ok_def)
  have "?out = map fst (take ?n ?s)"
    using ids by (force dest!: in_set_takeD)
  then have out: "set ?out = fst ` set (take ?n ?s)" by simp
  have dist: "distinct (map fst ?s)"
  proof -
    have "distinct (map fst (ended m))"
      using assms by (simp add: ended_def sessions_ok_def distinct_map_filter)
    moreover have "mset (map fst ?s) = mset (map fst (ended m))" by simp
    ultimately show ?thesis using mset_eq_imp_distinct_iff by blast
  qed
  have "?keep = (\<lambda>x. fst x \<notin> fst ` set (take ?n ?s))"
    using out by (auto simp: fun_eq_iff)
  then have "filter ?keep ?s = drop ?n ?s"
    using filter_other_keys[of "take ?n ?s" "drop ?n ?s"] dist by simp
  then have "length (filter ?keep (ended m)) = nat (mgKeepEnded m)"
    using False by (metis (no_types, lifting) mset_filter mset_sort size_mset length_drop length_sort
        diff_diff_cancel nat_le_iff linorder_le_cases)
  moreover have "ended (snd (evictEnded m)) = filter ?keep (ended m)"
    by (auto simp: m' ended_def intro!: filter_cong)
  moreover have "sessions_ok (snd (evictEnded m))"
    using assms by (auto simp: m' sessions_ok_def distinct_map_filter)
  moreover have "0 \<le> mgKeepEnded m" using assms by (simp add: sessions_ok_def)
  ultimately show ?thesis by (simp add: manager_ok_def m')
qed

text \<open>The record an end leaves, before the oldest ended sessions are forgotten.\<close>

lemma End_cases:
  obtains (refused) err where "End sid oc now m = (Some err, [], m)"
  | (ended) rec rec' where "map_of (mgSessions m) sid = Some rec"
      "Allowed ActionEnd (sesState (mdSession rec))" "IsTerminal (final_state (soResult oc))"
      "end_body oc (final_state (soResult oc)) now rec = Inr rec'"
      "End sid oc now m = (None, evictEnded (store sid rec' m))"
proof (cases "IsTerminal (final_state (soResult oc))")
  case True
  show thesis
  proof (cases rule: transition_cases[of ActionEnd sid "end_body oc (final_state (soResult oc)) now" m])
    case (refused err)
    then show thesis using that(1)[of err] True by (simp add: End_def)
  next
    case (taken rec rec')
    then show thesis using that(2)[of rec rec'] True by (simp add: End_def split: prod.split)
  qed
qed (use that(1) in \<open>simp add: End_def\<close>)

lemma end_body_ok:
  "session_ok r rec \<Longrightarrow> IsTerminal final \<Longrightarrow> end_body oc final now rec = Inr rec' \<Longrightarrow>
     session_ok r rec' \<and> sesID (mdSession rec') = sesID (mdSession rec) \<and>
     sesState (mdSession rec') = final"
proof -
  assume rec: "session_ok r rec" and final: "IsTerminal final" and "end_body oc final now rec = Inr rec'"
  from this(3) have rec': "mdSession rec' = (mdSession rec)\<lparr>sesState := final, sesEndedAt := Some now,
      sesOutcome := oc\<lparr>soResult := final\<rparr>, sesSummary := Snapshot (Some (mdState rec))\<rparr>"
    "mdState rec' = the (release (Some (mdState rec)))"
    by (auto simp: end_body_def set_session_def)
  have "state_ok (mdState rec)" using rec by (simp add: session_ok_def Let_def)
  then have "state_ok (mdState rec')" using state_ok_release rec'(2) by simp
  moreover have "final = StateCompleted \<or> final = StateTerminated \<or> final = StateFailed"
    using final by (auto simp: IsTerminal_def TerminalStates_def)
  ultimately show ?thesis by (elim disjE) (simp_all add: session_ok_def rec'(1) lifecycle_defs)
qed

lemma End_ok:
  assumes "manager_ok m"
  shows "manager_ok (snd (snd (End sid oc now m)))"
proof (cases rule: End_cases[of sid oc now m])
  case (ended rec rec')
  have ok: "sessions_ok m" using assms by (simp add: manager_ok_def)
  note rec = sessions_ok_lookup[OF ok ended(1)]
  have "sessions_ok (store sid rec' m)"
    using end_body_ok[OF rec(2) ended(3,4)] rec(1) store_ok[OF ok] by simp
  then show ?thesis using evictEnded_ok ended(5) by simp
qed (use assms in simp)

lemma Create_ok: "manager_ok m \<Longrightarrow> manager_ok (snd (Create req now m))"
proof (cases "snd (Create req now m) = m")
  case False
  assume ok: "manager_ok m"
  obtain sid rec where new: "snd (Create req now m) = store sid rec m" "sesID (mdSession rec) = sid"
    "sesState (mdSession rec) = StatePending" "sesEndedAt (mdSession rec) = None" "state_ok (mdState rec)"
    using False state_ok_fresh by (auto simp: Create_def Let_def split: option.splits if_splits)
  then have "session_ok (mgRequireApproval m) rec"
    by (simp add: session_ok_def lifecycle_defs Let_def)
  then show ?thesis
    using ok new store_ok[of m rec sid] store_ended[of rec sid m]
    by (auto simp: manager_ok_def lifecycle_defs)
qed simp

lemma terminal_count:
  "length (filter (\<lambda>(k, rec). IsTerminal (sesState (mdSession rec))) xs) =
   length (filter (\<lambda>(k, s). IsTerminal (sesState s)) (map (\<lambda>(k, r). (k, mdSession r)) xs))"
  by (induction xs) auto

lemma set_state_ok:
  assumes ok: "manager_ok m" and Some: "map_of (mgSessions m) sid = Some rec" and st: "state_ok st"
  shows "manager_ok (store sid (rec\<lparr>mdState := st\<rparr>) m)"
proof -
  let ?rec = "rec\<lparr>mdState := st\<rparr>"
  have m: "sessions_ok m" using ok by (simp add: manager_ok_def)
  note old = sessions_ok_lookup[OF m Some]
  have "session_ok (mgRequireApproval m) ?rec" using old(2) st by (simp add: session_ok_def Let_def)
  then have "sessions_ok (store sid ?rec m)" using store_ok[OF m] old(1) by simp
  moreover have "map (\<lambda>(k, r). (k, mdSession r)) (mgSessions (store sid ?rec m)) =
      map (\<lambda>(k, r). (k, mdSession r)) (mgSessions m)"
  proof -
    have "map (\<lambda>(k, r). (k, mdSession r)) (AList.update sid ?rec xs) = map (\<lambda>(k, r). (k, mdSession r)) xs"
      if "map_of xs sid = Some rec" for xs
      using that by (induction xs) auto
    then show ?thesis using Some by (simp add: store_def)
  qed
  then have "length (ended (store sid ?rec m)) = length (ended m)"
    unfolding ended_def terminal_count by simp
  ultimately show ?thesis using ok by (simp add: manager_ok_def)
qed

lemma record_ops_ok: "manager_ok m \<Longrightarrow> manager_ok (record_ops sid ops m)"
proof (cases "map_of (mgSessions m) sid")
  case (Some rec)
  assume ok: "manager_ok m"
  then have "state_ok (mdState rec)"
    using sessions_ok_lookup(2)[OF _ Some] by (simp add: manager_ok_def session_ok_def Let_def)
  then have "state_ok (run_ops ops (mdState rec))"
    using run_invariant[of state_ok, OF state_ok_apply] by blast
  then show ?thesis using set_state_ok[OF ok Some] Some by (simp add: record_ops_def)
qed (simp add: record_ops_def)

lemma step_ok: "manager_step m m' \<Longrightarrow> manager_ok m \<Longrightarrow> manager_ok m'"
proof (induction rule: manager_step.induct)
  case (step_seal m sid)
  then show ?case unfolding Seal_def by (rule transition_ok) (rule bodies_ok)
next
  case (step_approve m sid ap now)
  then show ?case unfolding Approve_def by (rule transition_ok) (rule bodies_ok)
next
  case (step_start m sid pid now)
  then show ?case unfolding Start_def by (rule transition_ok) (rule bodies_ok)
next
  case (step_suspend m sid)
  then show ?case unfolding Suspend_def by (rule transition_ok) (rule bodies_ok)
next
  case (step_resume m sid)
  then show ?case unfolding Resume_def by (rule transition_ok) (rule bodies_ok)
qed (simp_all add: Create_ok End_ok record_ops_ok)

lemma reachable_ok: "manager_reachable m \<Longrightarrow> manager_ok m"
proof (induction rule: manager_reachable.induct)
  case (reach_new require md sv cfg keep)
  then show ?case
    by (auto simp: manager_ok_def sessions_ok_def ended_def NewManager_def DefaultKeepEnded_def)
qed (rule step_ok)

section \<open>What a step does to one session\<close>

text \<open>A step keeps every session it is not about; an ended one is kept or forgotten.\<close>

lemma evictEnded_lookup:
  assumes "sessions_ok m"
  shows "map_of (mgSessions (snd (evictEnded m))) sid \<in> {None, map_of (mgSessions m) sid}"
    "map_of (mgSessions m) sid = Some rec \<Longrightarrow> \<not> IsTerminal (sesState (mdSession rec)) \<Longrightarrow>
       map_of (mgSessions (snd (evictEnded m))) sid = Some rec"
proof -
  let ?out = "set (fst (evictEnded m))"
  have found: "map_of (filter (\<lambda>(k, rec). k \<notin> A) xs) sid = (if sid \<in> A then None else map_of xs sid)"
    for A and xs :: "(string \<times> managed) list" by (induction xs) auto
  have after: "map_of (mgSessions (snd (evictEnded m))) sid =
      (if sid \<in> ?out then None else map_of (mgSessions m) sid)"
    by (simp add: evictEnded_def Let_def found)
  then show "map_of (mgSessions (snd (evictEnded m))) sid \<in> {None, map_of (mgSessions m) sid}" by simp
  assume rec: "map_of (mgSessions m) sid = Some rec" "\<not> IsTerminal (sesState (mdSession rec))"
  have "sid \<notin> ?out"
  proof
    assume "sid \<in> ?out"
    then obtain k r where r: "(k, r) \<in> set (mgSessions m)" "IsTerminal (sesState (mdSession r))"
      "sid = sesID (mdSession r)"
      by (auto simp: evictEnded_def Let_def split: if_splits dest!: in_set_takeD)
    then have "k = sid" using assms by (auto simp: sessions_ok_def)
    then have "map_of (mgSessions m) sid = Some r"
      using r(1) assms by (simp add: sessions_ok_def map_of_eq_Some_iff)
    then show False using rec r(2) by simp
  qed
  then show "map_of (mgSessions (snd (evictEnded m))) sid = Some rec" using after rec(1) by simp
qed

lemma transition_terminal:
  assumes "map_of (mgSessions m) sid = Some rec" and "IsTerminal (sesState (mdSession rec))"
  shows "map_of (mgSessions (snd (transition a sid' body m))) sid = Some rec"
proof (cases rule: transition_cases[of a sid' body m])
  case (taken r r')
  have "sid' \<noteq> sid"
    using taken(1,2) assms by (cases a) (auto simp: lifecycle_defs)
  then show ?thesis using taken(4) assms(1) by simp
qed (use assms in simp)

lemma step_terminal:
  assumes "manager_step m m'" and "manager_ok m"
    and "map_of (mgSessions m) sid = Some rec" and "IsTerminal (sesState (mdSession rec))"
  shows "map_of (mgSessions m') sid = None \<or>
    (\<exists>rec'. map_of (mgSessions m') sid = Some rec' \<and> mdSession rec' = mdSession rec)"
  using assms
proof (cases rule: manager_step.cases)
  case (step_end sid' oc now)
  show ?thesis
  proof (cases rule: End_cases[of sid' oc now m])
    case (ended r r')
    have ne: "sid' \<noteq> sid" using ended(1,2) assms(3,4) by (auto simp: lifecycle_defs)
    have ok: "sessions_ok m" using assms(2) by (simp add: manager_ok_def)
    have "sessions_ok (store sid' r' m)"
      using end_body_ok[OF sessions_ok_lookup(2)[OF ok ended(1)] ended(3,4)]
        sessions_ok_lookup(1)[OF ok ended(1)] store_ok[OF ok] by simp
    from evictEnded_lookup(1)[OF this, of sid] show ?thesis
      using ended(5) step_end ne assms(3) by auto
  qed (use assms step_end in simp)
next
  case (step_create req now)
  then show ?thesis
    using assms(3) by (auto simp: Create_def Let_def split: option.splits)
next
  case (step_record sid' ops)
  then show ?thesis using assms(3) by (auto simp: record_ops_def split: option.split)
qed (auto simp: Seal_def Approve_def Start_def Suspend_def Resume_def transition_terminal)

section \<open>A small manager\<close>

definition demo_request :: create_request where
  "demo_request = \<lparr>crEnvelope = Some (zero_envelope\<lparr>envSessionID := ''s''\<rparr>), crPrompt = [],
     crWorkspaceRoot = [], crMode = ModeEnforce, crAgentIdentity = []\<rparr>"

definition demo_new :: manager where
  "demo_new = NewManager False ModeMonitor None \<lparr>scSessionID = [], scEnvelope = None, scStartedAt = 0,
     scHistorySize = 0, scMaxSeenTargets = 0\<rparr> 0"

definition demo_started :: manager where
  "demo_started = snd (Start ''s'' 7 2 (snd (Seal ''s'' (snd (Create demo_request 1 demo_new)))))"

lemma demo_reachable: "manager_reachable demo_started"
  unfolding demo_started_def demo_new_def
  by (intro reach_step[OF _ step_start] reach_step[OF _ step_seal] reach_step[OF _ step_create] reach_new)

lemma demo_shape:
  "\<exists>rec. demo_started = demo_new\<lparr>mgSessions := [(''s'', rec)]\<rparr> \<and>
     sesState (mdSession rec) = StateActive \<and> sesID (mdSession rec) = ''s''"
proof -
  have lint: "LintEnvelope (zero_envelope\<lparr>envSessionID := ''s''\<rparr>) = []"
    by (simp add: LintEnvelope_def lintWorkspaceRoot_def zero_envelope_def zero_constraints_def)
  have "\<exists>rec. snd (Create demo_request 1 demo_new) = demo_new\<lparr>mgSessions := [(''s'', rec)]\<rparr> \<and>
      sesState (mdSession rec) = StatePending \<and> sesID (mdSession rec) = ''s'' \<and>
      sesEnvelope (mdSession rec) = zero_envelope\<lparr>envSessionID := ''s''\<rparr>"
    by (simp add: Create_def demo_request_def demo_new_def NewManager_def store_def Let_def)
  then obtain rec1 where one: "snd (Create demo_request 1 demo_new) = demo_new\<lparr>mgSessions := [(''s'', rec1)]\<rparr>"
    "sesState (mdSession rec1) = StatePending" "sesID (mdSession rec1) = ''s''"
    "sesEnvelope (mdSession rec1) = zero_envelope\<lparr>envSessionID := ''s''\<rparr>" by blast
  have "\<exists>rec. snd (Seal ''s'' (demo_new\<lparr>mgSessions := [(''s'', rec1)]\<rparr>)) = demo_new\<lparr>mgSessions := [(''s'', rec)]\<rparr> \<and>
      sesState (mdSession rec) = StateReady \<and> sesID (mdSession rec) = ''s'' \<and>
      envSealed (sesEnvelope (mdSession rec))"
    using one(2-4) lint
    by (simp add: Seal_def transition_def lookup_def check_def lifecycle_defs seal_body_def
        set_session_def BlockingIssues_def store_def demo_new_def NewManager_def)
  then obtain rec2 where two: "snd (Seal ''s'' (snd (Create demo_request 1 demo_new))) = demo_new\<lparr>mgSessions := [(''s'', rec2)]\<rparr>"
    "sesState (mdSession rec2) = StateReady" "sesID (mdSession rec2) = ''s''"
    "envSealed (sesEnvelope (mdSession rec2))" unfolding one(1) by blast
  show ?thesis
    unfolding demo_started_def two(1) using two(2-4)
    by (simp add: Start_def transition_def lookup_def check_def lifecycle_defs start_body_def
        set_session_def store_def demo_new_def NewManager_def)
qed

lemma demo_session:
  "\<exists>rec. map_of (mgSessions demo_started) ''s'' = Some rec \<and> sesState (mdSession rec) = StateActive \<and>
     sesID (mdSession rec) = ''s''"
proof -
  obtain rec where shape: "demo_started = demo_new\<lparr>mgSessions := [(''s'', rec)]\<rparr>"
    and "sesState (mdSession rec) = StateActive" "sesID (mdSession rec) = ''s''"
    using demo_shape by blast
  then show ?thesis unfolding shape by simp
qed

lemma evict_few: "int (length (mgSessions m)) \<le> mgKeepEnded m \<Longrightarrow> evictEnded m = ([], m)"
proof -
  assume few: "int (length (mgSessions m)) \<le> mgKeepEnded m"
  have "length (ended m) \<le> length (mgSessions m)" by (simp add: ended_def)
  then have "int (length (ended m)) \<le> mgKeepEnded m" using few by linarith
  then show ?thesis by (simp add: evictEnded_def ended_def Let_def)
qed

section \<open>Properties\<close>

text \<open>C5: an agent only ever runs under an authorized envelope. In every manager reachable by any
  sequence of operations, a session that is active or suspended has a sealed envelope with no
  blocking issue, approved when the configuration demands approval, and a root process; and a session
  that is ready to start has the same envelope.\<close>

theorem running_sessions_are_authorized:
  assumes "manager_reachable m" and "map_of (mgSessions m) sid = Some rec"
    and "sesState (mdSession rec) \<in> {StateReady, StateActive, StateSuspended}"
  shows "envSealed (sesEnvelope (mdSession rec)) \<and>
    BlockingIssues (LintEnvelope (sesEnvelope (mdSession rec))) = [] \<and>
    (mgRequireApproval m \<longrightarrow> envApproval (sesEnvelope (mdSession rec)) \<noteq> None) \<and>
    (sesState (mdSession rec) \<noteq> StateReady \<longrightarrow> 0 < sesRootPID (mdSession rec))"
proof -
  have "sessions_ok m" using reachable_ok[OF assms(1)] by (simp add: manager_ok_def)
  from sessions_ok_lookup(2)[OF this assms(2)] show ?thesis
    using assms(3) by (auto simp: session_ok_def authorized_def running_def Let_def)
qed

theorem running_sessions_are_authorized_witness:
  "\<exists>rec. map_of (mgSessions demo_started) ''s'' = Some rec \<and> envSealed (sesEnvelope (mdSession rec)) \<and>
     0 < sesRootPID (mdSession rec)"
proof -
  obtain rec where rec: "map_of (mgSessions demo_started) ''s'' = Some rec"
    "sesState (mdSession rec) = StateActive"
    using demo_session by blast
  show ?thesis using running_sessions_are_authorized[OF demo_reachable rec(1)] rec by simp
qed

text \<open>C16: ended is ended. Once a session is completed, terminated or failed, no operation of any kind
  changes its record, its outcome or its summary: a further step leaves it as it is or forgets it.\<close>

theorem ended_sessions_never_change:
  assumes "manager_reachable m" and "manager_step m m'"
    and "map_of (mgSessions m) sid = Some rec" and "IsTerminal (sesState (mdSession rec))"
  shows "map_of (mgSessions m') sid = None \<or>
    (\<exists>rec'. map_of (mgSessions m') sid = Some rec' \<and> mdSession rec' = mdSession rec)"
  using step_terminal[OF assms(2) reachable_ok[OF assms(1)] assms(3,4)] .

theorem ended_sessions_never_change_witness:
  "\<exists>m' rec. manager_step demo_started m' \<and> manager_reachable m' \<and>
     map_of (mgSessions m') ''s'' = Some rec \<and> IsTerminal (sesState (mdSession rec)) \<and>
     (map_of (mgSessions (snd (Resume ''s'' m'))) ''s'' = None \<or>
      (\<exists>rec'. map_of (mgSessions (snd (Resume ''s'' m'))) ''s'' = Some rec' \<and>
         mdSession rec' = mdSession rec))"
proof -
  let ?m' = "snd (snd (End ''s'' zero_outcome 3 demo_started))"
  obtain rec where rec: "demo_started = demo_new\<lparr>mgSessions := [(''s'', rec)]\<rparr>"
    "sesState (mdSession rec) = StateActive"
    using demo_shape by blast
  have step: "manager_step demo_started ?m'" by (rule step_end)
  have reach: "manager_reachable ?m'" by (rule reach_step[OF demo_reachable step])
  have "\<exists>rec'. map_of (mgSessions ?m') ''s'' = Some rec' \<and> sesState (mdSession rec') = StateCompleted"
    using rec(2) unfolding rec(1)
    by (simp add: End_def transition_def lookup_def check_def lifecycle_defs zero_outcome_def
        final_state_def end_body_def set_session_def evict_few store_def demo_new_def NewManager_def
        DefaultKeepEnded_def Let_def)
  then obtain rec' where rec': "map_of (mgSessions ?m') ''s'' = Some rec'"
    "sesState (mdSession rec') = StateCompleted" by blast
  then have over: "IsTerminal (sesState (mdSession rec'))" by (simp add: lifecycle_defs)
  show ?thesis
    using ended_sessions_never_change[OF reach step_resume rec'(1) over, of "''s''"] step reach rec'(1) over
    by blast
qed

text \<open>An illegal transition is an error, never a no-op and never a change. When the table does not
  allow an action from the state a session is in, the operation names that session, action and state
  in its error and leaves the manager as it was; and whatever error an operation returns, the manager
  is unchanged.\<close>

theorem refusals_change_nothing:
  assumes "map_of (mgSessions m) sid = Some rec" and "sesID (mdSession rec) = sid"
  shows "(\<not> Allowed a (sesState (mdSession rec)) \<longrightarrow>
      (case a of ActionSeal \<Rightarrow> Seal sid m | ActionApprove \<Rightarrow> Approve sid ap now m
         | ActionStart \<Rightarrow> Start sid pid now m | ActionSuspend \<Rightarrow> Suspend sid m
         | ActionResume \<Rightarrow> Resume sid m
         | ActionEnd \<Rightarrow> (let (err, ev, m') = End sid (oc\<lparr>soResult := StateFailed\<rparr>) now m in (err, m'))) =
      (Some (TransitionError sid a (sesState (mdSession rec))), m)) \<and>
    (fst (Seal sid m) \<noteq> None \<longrightarrow> snd (Seal sid m) = m) \<and>
    (fst (Approve sid ap now m) \<noteq> None \<longrightarrow> snd (Approve sid ap now m) = m) \<and>
    (fst (Start sid pid now m) \<noteq> None \<longrightarrow> snd (Start sid pid now m) = m) \<and>
    (fst (Suspend sid m) \<noteq> None \<longrightarrow> snd (Suspend sid m) = m) \<and>
    (fst (Resume sid m) \<noteq> None \<longrightarrow> snd (Resume sid m) = m) \<and>
    (fst (End sid oc now m) \<noteq> None \<longrightarrow> snd (snd (End sid oc now m)) = m)"
proof -
  have refused: "transition b sid body m = (Some (TransitionError sid b (sesState (mdSession rec))), m)"
    if "\<not> Allowed b (sesState (mdSession rec))" for b body
    using assms that by (simp add: transition_def lookup_def check_def)
  have errors: "fst (transition b sid body m) \<noteq> None \<longrightarrow> snd (transition b sid body m) = m" for b body
    by (cases rule: transition_cases[of b sid body m]) simp_all
  have "fst (End sid oc now m) \<noteq> None \<longrightarrow> snd (snd (End sid oc now m)) = m"
    by (cases rule: End_cases[of sid oc now m]) simp_all
  moreover have "IsTerminal (final_state StateFailed)" by (simp add: final_state_def lifecycle_defs)
  ultimately show ?thesis
    using refused errors
    by (cases a) (simp_all add: Seal_def Approve_def Start_def Suspend_def Resume_def End_def Let_def)
qed

theorem refusals_change_nothing_witness:
  "Seal ''s'' demo_started = (Some (TransitionError ''s'' ActionSeal StateActive), demo_started)"
proof -
  obtain rec where rec: "map_of (mgSessions demo_started) ''s'' = Some rec"
    "sesState (mdSession rec) = StateActive" "sesID (mdSession rec) = ''s''"
    using demo_session by blast
  have "\<not> Allowed ActionSeal (sesState (mdSession rec))" using rec by (simp add: lifecycle_defs)
  then show ?thesis using refusals_change_nothing[OF rec(1,3), of ActionSeal] rec(2) by simp
qed

text \<open>Forgetting is bounded and fair. A reachable manager holds no more ended sessions than it is
  configured to keep; and ending a session never loses one that has not ended.\<close>

theorem only_ended_sessions_are_forgotten:
  assumes "manager_reachable m"
  shows "int (length (ended m)) \<le> mgKeepEnded m \<and>
    (\<forall>other rec. other \<noteq> sid \<and> map_of (mgSessions m) other = Some rec \<and>
       \<not> IsTerminal (sesState (mdSession rec)) \<longrightarrow>
       map_of (mgSessions (snd (snd (End sid oc now m)))) other = Some rec)"
proof -
  have ok: "manager_ok m" using reachable_ok[OF assms] .
  then have m: "sessions_ok m" by (simp add: manager_ok_def)
  have "map_of (mgSessions (snd (snd (End sid oc now m)))) other = Some rec"
    if "other \<noteq> sid" "map_of (mgSessions m) other = Some rec" "\<not> IsTerminal (sesState (mdSession rec))"
    for other rec
  proof (cases rule: End_cases[of sid oc now m])
    case (ended r r')
    have "sessions_ok (store sid r' m)"
      using end_body_ok[OF sessions_ok_lookup(2)[OF m ended(1)] ended(3,4)]
        sessions_ok_lookup(1)[OF m ended(1)] store_ok[OF m] by simp
    then show ?thesis using evictEnded_lookup(2)[of "store sid r' m" other rec] that ended(5) by simp
  qed (use that in simp)
  then show ?thesis using ok by (auto simp: manager_ok_def)
qed

theorem only_ended_sessions_are_forgotten_witness:
  "map_of (mgSessions (snd (snd (End ''other'' zero_outcome 3 demo_started)))) ''s'' =
     map_of (mgSessions demo_started) ''s''"
proof -
  obtain rec where "map_of (mgSessions demo_started) ''s'' = Some rec"
    "sesState (mdSession rec) = StateActive"
    using demo_session by blast
  then show ?thesis
    using only_ended_sessions_are_forgotten[OF demo_reachable, of "''other''" zero_outcome 3]
    by (simp add: lifecycle_defs)
qed

text \<open>No session is stuck. Whatever state a session that has not ended is in, ending it with any
  terminal outcome succeeds, and it is then in that outcome's state or already forgotten.\<close>

theorem every_session_can_end:
  assumes "manager_reachable m" and "map_of (mgSessions m) sid = Some rec"
    and "\<not> IsTerminal (sesState (mdSession rec))" and "IsTerminal (final_state (soResult oc))"
  shows "\<exists>evicted m'. End sid oc now m = (None, evicted, m') \<and>
    (map_of (mgSessions m') sid = None \<or>
     (\<exists>rec'. map_of (mgSessions m') sid = Some rec' \<and>
        sesState (mdSession rec') = final_state (soResult oc) \<and> sesEndedAt (mdSession rec') = Some now \<and>
        soResult (sesOutcome (mdSession rec')) = final_state (soResult oc)))"
proof -
  have m: "sessions_ok m" using reachable_ok[OF assms(1)] by (simp add: manager_ok_def)
  note rec = sessions_ok_lookup[OF m assms(2)]
  have allowed: "Allowed ActionEnd (sesState (mdSession rec))"
    using rec(2) assms(3) by (auto simp: session_ok_def lifecycle_defs Let_def)
  obtain rec' where rec': "end_body oc (final_state (soResult oc)) now rec = Inr rec'"
    "sesState (mdSession rec') = final_state (soResult oc)" "sesEndedAt (mdSession rec') = Some now"
    "soResult (sesOutcome (mdSession rec')) = final_state (soResult oc)"
    by (simp add: end_body_def set_session_def)
  obtain ev m' where m': "evictEnded (store sid rec' m) = (ev, m')" by (cases "evictEnded (store sid rec' m)")
  have "End sid oc now m = (None, ev, m')"
    using assms(2,4) allowed rec'(1) m'
    by (simp add: End_def transition_def lookup_def check_def Let_def split: prod.split)
  moreover have "sessions_ok (store sid rec' m)"
    using end_body_ok[OF rec(2) assms(4) rec'(1)] rec(1) store_ok[OF m] by simp
  from evictEnded_lookup(1)[OF this, of sid]
  have "map_of (mgSessions m') sid = None \<or> map_of (mgSessions m') sid = Some rec'" by (simp add: m')
  ultimately show ?thesis using rec'(2-4) by blast
qed

theorem every_session_can_end_witness:
  "\<exists>evicted m'. End ''s'' zero_outcome 3 demo_started = (None, evicted, m')"
proof -
  obtain rec where rec: "map_of (mgSessions demo_started) ''s'' = Some rec"
    "sesState (mdSession rec) = StateActive"
    using demo_session by blast
  have "\<not> IsTerminal (sesState (mdSession rec))" "IsTerminal (final_state (soResult zero_outcome))"
    using rec(2) by (simp_all add: lifecycle_defs final_state_def zero_outcome_def)
  from every_session_can_end[OF demo_reachable rec(1) this] show ?thesis by blast
qed

end
