(* ===== verification/Approvals.thy ===== *)
theory Approvals
  imports Decision Assoc
begin

text \<open>
  Approval requests (\<open>internal/daemon/approvals.go\<close>): the requests a frozen session waits on, and what
  an answer does to it. The bookkeeping happens under a lock and is one step here; what it decides is
  returned as effects, in the order the code carries them out after unlocking, so that steps of
  other goroutines can come between. A timer is a \<open>timeout\<close> that may fire at any time.
\<close>

section \<open>Data\<close>

record approvals =
  apPending :: "(string \<times> approval_request) list"
  apSubs :: "(nat \<times> approval_request list) list"
  apNextSub :: nat
  apSeq :: "64 word"
  apTerminating :: "string set"

record approval_policy =
  apolTimeout :: duration
  apolTimeoutAction :: string

datatype approval_result =
    AuditApproval approval
  | KillSession string msg
  | ResumeSession string

definition newApprovals :: approvals where
  "newApprovals = \<lparr>apPending = [], apSubs = [], apNextSub = 0, apSeq = 0, apTerminating = {}\<rparr>"

definition request_session :: "string \<times> approval_request \<Rightarrow> string" where
  "request_session kp = arSessionID (snd kp)"

section \<open>Operations\<close>

text \<open>The last finding of the validator, for the summary.\<close>

fun finding_of :: "msg option \<Rightarrow> reasoning_step list \<Rightarrow> msg option" where
  "finding_of f [] = f"
| "finding_of f (r # rs) =
     finding_of
       (if rsStage r = ''validator'' \<and> rsConclusion r \<noteq> Fmt [] [] then
          Some (if rsDetail r \<noteq> Fmt [] [] then Fmt ''%s: %s'' [AMsg (rsConclusion r), AMsg (rsDetail r)]
                else rsConclusion r)
        else f) rs"

definition summarize :: "decision \<Rightarrow> msg" where
  "summarize d =
     Fmt ''concatenation''
       ([AMsg (Fmt ''verdict %s, risk %.0f (%s)'' [AStr (verdict_string (dVerdict d)),
           AFloat (raScore (dRisk d)), AStr (level_string (raLevel (dRisk d)))])] @
        (if dMatchedRule d \<noteq> [] then [AMsg (Fmt '', rule %s'' [AStr (dMatchedRule d)])] else []) @
        (case finding_of None (dReasoning d) of None \<Rightarrow> [] | Some f \<Rightarrow> [AMsg (Fmt ''; %s'' [AMsg f])]) @
        [AMsg (Fmt ''. Approve resumes the frozen agent; deny or timeout kills its process tree.'' [])])"

text \<open>A subscriber's channel holds 32 requests; a send to a full one is dropped.\<close>

definition notify :: "approval_request \<Rightarrow> (nat \<times> approval_request list) list \<Rightarrow>
    (nat \<times> approval_request list) list" where
  "notify req subs = map (\<lambda>(k, ch). (k, if length ch < 32 then ch @ [req] else ch)) subs"

definition open_request :: "approval_policy \<Rightarrow> time \<Rightarrow> decision \<Rightarrow> approvals \<Rightarrow> approvals" where
  "open_request pol now dec a =
     (if dSessionID dec \<in> apTerminating a then a
      else
        (let seq = apSeq a + 1;
             rid = ''apr-'' @ dSessionID dec @ ''-'' @ itoa (uint seq);
             req = \<lparr>arID = rid, arSessionID = dSessionID dec, arDecision = dec, arCreatedAt = now,
                    arDeadline = now + apolTimeout pol, arSummary = summarize dec\<rparr>
         in a\<lparr>apSeq := seq, apPending := AList.update rid req (apPending a),
              apSubs := notify req (apSubs a)\<rparr>))"

definition list_requests :: "(string \<Rightarrow> bool) \<Rightarrow> approvals \<Rightarrow> approval_request list" where
  "list_requests owner a =
     sort_key arCreatedAt (filter (\<lambda>req. owner (arSessionID req)) (map snd (apPending a)))"

definition sessionOf :: "string \<Rightarrow> approvals \<Rightarrow> string option" where
  "sessionOf rid a = map_option arSessionID (map_of (apPending a) rid)"

definition effect_of :: "bool \<Rightarrow> bool \<Rightarrow> nat \<Rightarrow> approval_effect" where
  "effect_of approved terminating remaining =
     (if \<not> approved then EffectTerminate
      else if terminating then EffectNone
      else if remaining = 0 then EffectResume
      else EffectWait)"

definition answer_record :: "time \<Rightarrow> approval_response \<Rightarrow> approval_request \<Rightarrow> approval_effect \<Rightarrow> approval" where
  "answer_record now resp req eff =
     \<lparr>aprSessionID = arSessionID req,
      aprTimestamp = (if asRespondedAt resp = 0 then now else asRespondedAt resp),
      aprRequestID = asRequestID resp, aprDecisionID = dID (arDecision req),
      aprApproved = asApproved resp, aprRespondedBy = asRespondedBy resp,
      aprTimedOut = asTimedOut resp, aprReason = asReason resp, aprEffect = eff\<rparr>"

text \<open>\<open>resolve\<close>: the locked part, and the effects in their order.\<close>

definition resolve :: "time \<Rightarrow> approval_response \<Rightarrow> approvals \<Rightarrow> bool \<times> approval_result list \<times> approvals" where
  "resolve now resp a =
     (case map_of (apPending a) (asRequestID resp) of
        None \<Rightarrow> (False, [], a)
      | Some req \<Rightarrow>
          (let sid = arSessionID req;
               pending = AList.delete (asRequestID resp) (apPending a);
               terminating = (if asApproved resp then apTerminating a else insert sid (apTerminating a));
               pending = (if asApproved resp then pending
                          else filter (\<lambda>kp. request_session kp \<noteq> sid) pending);
               remaining = length (filter (\<lambda>kp. request_session kp = sid) pending);
               a = a\<lparr>apPending := pending, apTerminating := terminating\<rparr>;
               audit = AuditApproval (answer_record now resp req
                 (effect_of (asApproved resp) (sid \<in> terminating) remaining))
           in
           if \<not> asApproved resp then
             (True, [audit, KillSession sid
                (if asTimedOut resp then Fmt ''approval %s timed out'' [AStr (asRequestID resp)]
                 else Fmt ''approval %s denied by %s'' [AStr (asRequestID resp), AStr (asRespondedBy resp)])], a)
           else if sid \<in> terminating then (True, [audit], a)
           else if remaining = 0 then (True, [audit, ResumeSession sid], a)
           else (True, [audit], a)))"

definition timeout :: "approval_policy \<Rightarrow> time \<Rightarrow> string \<Rightarrow> approvals \<Rightarrow>
    bool \<times> approval_result list \<times> approvals" where
  "timeout pol now rid a =
     resolve now \<lparr>asRequestID = rid, asApproved = (apolTimeoutAction pol = ''allow''),
       asRespondedBy = ''timeout'', asRespondedAt = now, asReason = [], asRemember = False,
       asTimedOut = True\<rparr> a"

definition cancelSession :: "string \<Rightarrow> approvals \<Rightarrow> approvals" where
  "cancelSession sid a =
     a\<lparr>apPending := filter (\<lambda>kp. request_session kp \<noteq> sid) (apPending a),
       apTerminating := apTerminating a - {sid}\<rparr>"

definition subscribe :: "approvals \<Rightarrow> nat \<times> approvals" where
  "subscribe a =
     (let n = apNextSub a + 1 in (n, a\<lparr>apNextSub := n, apSubs := AList.update n [] (apSubs a)\<rparr>))"

definition unsubscribe :: "nat \<Rightarrow> approvals \<Rightarrow> approvals" where
  "unsubscribe k a = a\<lparr>apSubs := AList.delete k (apSubs a)\<rparr>"

section \<open>Runs\<close>

datatype approval_op = OpOpen time decision | OpResolve time approval_response | OpTimeout time string
  | OpCancel string | OpSubscribe | OpUnsubscribe nat

primrec approval_step :: "approval_policy \<Rightarrow> approval_op \<Rightarrow> approvals \<Rightarrow> approval_result list \<times> approvals" where
  "approval_step pol (OpOpen now d) a = ([], open_request pol now d a)"
| "approval_step pol (OpResolve now resp) a = snd (resolve now resp a)"
| "approval_step pol (OpTimeout now rid) a = snd (timeout pol now rid a)"
| "approval_step pol (OpCancel sid) a = ([], cancelSession sid a)"
| "approval_step pol OpSubscribe a = ([], snd (subscribe a))"
| "approval_step pol (OpUnsubscribe k) a = ([], unsubscribe k a)"

fun approval_run :: "approval_policy \<Rightarrow> approval_op list \<Rightarrow> approvals \<Rightarrow> approval_result list \<times> approvals" where
  "approval_run pol [] a = ([], a)"
| "approval_run pol (x # xs) a =
     (let (out, a) = approval_step pol x a; (rest, a) = approval_run pol xs a in (out @ rest, a))"

lemma approval_run_append:
  "approval_run pol (xs @ ys) a =
     (let (out, a) = approval_run pol xs a; (rest, a) = approval_run pol ys a in (out @ rest, a))"
  by (induction xs arbitrary: a) (simp_all add: Let_def split: prod.splits)

section \<open>The invariant\<close>

text \<open>No open request belongs to a session that is being terminated; requests carry their own id.\<close>

definition approvals_ok :: "approvals \<Rightarrow> bool" where
  "approvals_ok a \<longleftrightarrow> distinct (map fst (apPending a)) \<and>
     (\<forall>kp\<in>set (apPending a). arID (snd kp) = fst kp \<and> request_session kp \<notin> apTerminating a)"

definition waiting :: "string \<Rightarrow> approvals \<Rightarrow> bool" where
  "waiting sid a \<longleftrightarrow> (\<exists>kp\<in>set (apPending a). request_session kp = sid)"

lemma none_remaining:
  "length (filter (\<lambda>kp. request_session kp = sid) (apPending a)) = 0 \<longleftrightarrow> \<not> waiting sid a"
  by (auto simp: waiting_def filter_empty_conv)

definition without :: "string \<Rightarrow> approvals \<Rightarrow> approvals" where
  "without rid a = a\<lparr>apPending := AList.delete rid (apPending a)\<rparr>"

lemma resolve_unknown:
  "map_of (apPending a) (asRequestID resp) = None \<Longrightarrow> resolve now resp a = (False, [], a)"
  by (simp add: resolve_def)

lemma resolve_denied:
  assumes "map_of (apPending a) (asRequestID resp) = Some req" "\<not> asApproved resp"
  shows "\<exists>m. resolve now resp a =
    (True, [AuditApproval (answer_record now resp req EffectTerminate), KillSession (arSessionID req) m],
     a\<lparr>apPending := filter (\<lambda>kp. request_session kp \<noteq> arSessionID req) (AList.delete (asRequestID resp) (apPending a)),
       apTerminating := insert (arSessionID req) (apTerminating a)\<rparr>)"
  using assms by (simp add: resolve_def Let_def effect_of_def)

lemma resolve_approved:
  assumes "map_of (apPending a) (asRequestID resp) = Some req" "asApproved resp"
  shows "resolve now resp a =
    (let eff = (if arSessionID req \<in> apTerminating a then EffectNone
                else if waiting (arSessionID req) (without (asRequestID resp) a) then EffectWait
                else EffectResume)
     in (True, AuditApproval (answer_record now resp req eff) #
           (if eff = EffectResume then [ResumeSession (arSessionID req)] else []),
         without (asRequestID resp) a))"
  using assms none_remaining[of "arSessionID req" "without (asRequestID resp) a"]
  by (simp add: resolve_def Let_def effect_of_def without_def)

end
