(* ===== verification/ApprovalLaws.thy ===== *)
theory ApprovalLaws
  imports Approvals
begin

text \<open>
  What an answer may do to a frozen session: in every state the approvals can reach, no request is
  open for a session on its way down, a session is resumed exactly by the approval of its last open
  request, and a denied session is neither asked about nor resumed again until it is forgotten.
\<close>

section \<open>The invariant is preserved\<close>

lemma approvals_okI:
  assumes "distinct (map fst (apPending a))"
    and "\<And>rid req. (rid, req) \<in> set (apPending a) \<Longrightarrow> arID req = rid \<and> arSessionID req \<notin> apTerminating a"
  shows "approvals_ok a"
  using assms by (auto simp: approvals_ok_def request_session_def)

lemma approvals_okD:
  assumes "approvals_ok a"
  shows "distinct (map fst (apPending a))"
    and "(rid, req) \<in> set (apPending a) \<Longrightarrow> arID req = rid \<and> arSessionID req \<notin> apTerminating a"
  using assms by (auto simp: approvals_ok_def request_session_def)

text \<open>Dropping requests, and terminating only sessions that keep none, leaves the state consistent.\<close>

lemma fewer_requests_ok:
  assumes ok: "approvals_ok a" and fewer: "set (apPending b) \<subseteq> set (apPending a)"
    and distinct: "distinct (map fst (apPending b))"
    and down: "\<And>kp. kp \<in> set (apPending b) \<Longrightarrow> request_session kp \<notin> apTerminating b - apTerminating a"
  shows "approvals_ok b"
proof (rule approvals_okI)
  fix rid req
  assume in_b: "(rid, req) \<in> set (apPending b)"
  then have "arID req = rid \<and> arSessionID req \<notin> apTerminating a"
    using approvals_okD(2)[OF ok] fewer by blast
  then show "arID req = rid \<and> arSessionID req \<notin> apTerminating b"
    using down[OF in_b] by (auto simp: request_session_def)
qed (fact distinct)

lemmas pending_simps = delete_subset distinct_keys_filter distinct_delete

lemma open_request_ok:
  assumes "approvals_ok a"
  shows "approvals_ok (open_request pol now d a)"
proof (rule approvals_okI)
  show "distinct (map fst (apPending (open_request pol now d a)))"
    using approvals_okD(1)[OF assms] by (simp add: open_request_def Let_def distinct_update)
  fix rid req
  assume "(rid, req) \<in> set (apPending (open_request pol now d a))"
  then show "arID req = rid \<and> arSessionID req \<notin> apTerminating (open_request pol now d a)"
    using approvals_okD(2)[OF assms]
    by (fastforce simp: open_request_def Let_def split: if_splits dest: set_update_subset[THEN subsetD])
qed

lemma cancelSession_ok:
  assumes "approvals_ok a"
  shows "approvals_ok (cancelSession sid a)"
  by (rule fewer_requests_ok[OF assms])
    (use approvals_okD(1)[OF assms] in \<open>auto simp: cancelSession_def pending_simps\<close>)

lemma resolve_ok:
  assumes ok: "approvals_ok a"
  shows "approvals_ok (snd (snd (resolve now resp a)))"
proof (cases "map_of (apPending a) (asRequestID resp)")
  case None
  then show ?thesis by (simp add: resolve_unknown ok)
next
  case (Some req)
  note pending = approvals_okD(1)[OF ok]
  show ?thesis
  proof (cases "asApproved resp")
    case True
    show ?thesis
      unfolding resolve_approved[OF Some True] Let_def snd_conv
      by (rule fewer_requests_ok[OF ok]) (use pending delete_subset in \<open>auto simp: without_def pending_simps\<close>)
  next
    case False
    from resolve_denied[OF Some False, of now] show ?thesis
      by (elim exE, simp only: snd_conv, intro fewer_requests_ok[OF ok])
        (use pending delete_subset in \<open>auto simp: pending_simps dest: delete_subset[THEN subsetD]\<close>)
  qed
qed

lemma other_fields_ok [simp]:
  "approvals_ok (snd (subscribe a)) = approvals_ok a" "approvals_ok (unsubscribe k a) = approvals_ok a"
  by (simp_all add: approvals_ok_def subscribe_def unsubscribe_def Let_def)

lemma approval_step_ok: "approvals_ok a \<Longrightarrow> approvals_ok (snd (approval_step pol x a))"
  by (cases x) (simp_all add: open_request_ok resolve_ok timeout_def cancelSession_ok)

lemma approval_run_ok: "approvals_ok a \<Longrightarrow> approvals_ok (snd (approval_run pol xs a))"
proof (induction xs arbitrary: a)
  case (Cons x xs)
  then show ?case using approval_step_ok[OF Cons.prems, of pol x]
    by (simp add: Let_def split: prod.splits) (metis snd_conv)
qed simp

lemma newApprovals_ok: "approvals_ok newApprovals"
  by (simp add: approvals_ok_def newApprovals_def)

section \<open>Answers\<close>

definition audited :: "approval_result list \<Rightarrow> approval_effect list" where
  "audited rs = concat (map (\<lambda>r. case r of AuditApproval ap \<Rightarrow> [aprEffect ap] | _ \<Rightarrow> []) rs)"

lemma effect_answer_record [simp]: "aprEffect (answer_record now resp req eff) = eff"
  by (simp add: answer_record_def)

lemma session_of_request: "sessionOf rid a = Some sid \<longleftrightarrow> (\<exists>req. map_of (apPending a) rid = Some req \<and> arSessionID req = sid)"
  by (auto simp: sessionOf_def)

lemma open_session_lives:
  assumes "approvals_ok a" "map_of (apPending a) rid = Some req"
  shows "arSessionID req \<notin> apTerminating a"
  using approvals_okD(2)[OF assms(1)] map_of_SomeD[OF assms(2)] by blast

text \<open>Once denied, a session stays among the terminating ones, with nothing waiting, until it is forgotten.\<close>

definition going_down :: "string \<Rightarrow> approvals \<Rightarrow> bool" where
  "going_down sid a \<longleftrightarrow> approvals_ok a \<and> sid \<in> apTerminating a"

lemma going_down_waiting: "going_down sid a \<Longrightarrow> \<not> waiting sid a"
  by (auto simp: going_down_def waiting_def approvals_ok_def)

lemma resolve_going_down:
  assumes "going_down sid a"
  shows "sid \<in> apTerminating (snd (snd (resolve now resp a)))
    \<and> ResumeSession sid \<notin> set (fst (snd (resolve now resp a)))"
proof (cases "map_of (apPending a) (asRequestID resp)")
  case None
  then show ?thesis using assms by (simp add: resolve_unknown going_down_def)
next
  case (Some req)
  have live: "arSessionID req \<notin> apTerminating a"
    using open_session_lives[OF _ Some] assms by (simp add: going_down_def)
  show ?thesis
  proof (cases "asApproved resp")
    case True
    show ?thesis
      unfolding resolve_approved[OF Some True] using live assms
      by (auto simp: Let_def without_def going_down_def)
  next
    case False
    then show ?thesis using resolve_denied[OF Some False, of now] assms by (auto simp: going_down_def)
  qed
qed

lemma step_going_down:
  assumes down: "going_down sid a" and x: "x \<noteq> OpCancel sid"
  shows "going_down sid (snd (approval_step pol x a)) \<and> ResumeSession sid \<notin> set (fst (approval_step pol x a))"
proof -
  have "sid \<in> apTerminating (snd (approval_step pol x a)) \<and> ResumeSession sid \<notin> set (fst (approval_step pol x a))"
    using x resolve_going_down[OF down] down
    by (cases x) (auto simp: timeout_def open_request_def cancelSession_def subscribe_def
        unsubscribe_def going_down_def Let_def)
  then show ?thesis using approval_step_ok down by (auto simp: going_down_def)
qed

lemma approval_run_Cons:
  "fst (approval_run pol (x # xs) a) = fst (approval_step pol x a) @ fst (approval_run pol xs (snd (approval_step pol x a)))"
  "snd (approval_run pol (x # xs) a) = snd (approval_run pol xs (snd (approval_step pol x a)))"
  by (simp_all add: Let_def split: prod.split)

lemma snd_approval_run_append:
  "snd (approval_run pol (xs @ ys) a) = snd (approval_run pol ys (snd (approval_run pol xs a)))"
  by (simp add: approval_run_append Let_def split: prod.split)

lemma run_going_down:
  assumes "going_down sid a" "OpCancel sid \<notin> set xs"
  shows "going_down sid (snd (approval_run pol xs a)) \<and> ResumeSession sid \<notin> set (fst (approval_run pol xs a))"
  using assms
proof (induction xs arbitrary: a)
  case (Cons x xs)
  then have "going_down sid (snd (approval_step pol x a))" "ResumeSession sid \<notin> set (fst (approval_step pol x a))"
    using step_going_down[of sid a x pol] by auto
  moreover have "OpCancel sid \<notin> set xs" using Cons.prems by simp
  ultimately show ?case
    using Cons.IH[of "snd (approval_step pol x a)"]
    by (simp add: approval_run_Cons del: approval_run.simps)
qed simp

section \<open>Properties\<close>

text \<open>in every state the approval requests can reach, under any interleaving of openings, answers,
  timeouts, cancellations and subscriptions, request ids are unique and no request is open for a
  session that is being terminated: a denial closes all of a session's requests and no new one opens.
\<close>
theorem no_request_for_a_dying_session:
  "approvals_ok (snd (approval_run pol xs newApprovals))"
  by (rule approval_run_ok[OF newApprovals_ok])

text \<open>C17: an answer resumes a session exactly when it approves an open request of that session and no
  other request of the session stays open; and, in every reachable state, no answer is recorded with
  the effect \<open>none\<close> that is meant for approvals arriving while the session goes down.
\<close>
theorem last_approval_resumes:
  "let a = snd (approval_run pol xs newApprovals); (_, effects, a') = resolve now resp a in
     (ResumeSession sid \<in> set effects
       \<longleftrightarrow> asApproved resp \<and> sessionOf (asRequestID resp) a = Some sid \<and> \<not> waiting sid a')
     \<and> EffectNone \<notin> set (audited effects)"
proof -
  let ?a = "snd (approval_run pol xs newApprovals)"
  have ok: "approvals_ok ?a" by (rule approval_run_ok[OF newApprovals_ok])
  show ?thesis
  proof (cases "map_of (apPending ?a) (asRequestID resp)")
    case None
    then show ?thesis by (simp add: resolve_unknown session_of_request audited_def)
  next
    case (Some req)
    show ?thesis
    proof (cases "asApproved resp")
      case True
      with Some open_session_lives[OF ok Some] show ?thesis
        by (auto simp: resolve_approved Let_def session_of_request audited_def)
    next
      case False
      then show ?thesis using resolve_denied[OF Some False, of now] by (auto simp: audited_def)
    qed
  qed
qed

text \<open>C8: after a denial (by its owner or by the timeout posture) the session is not resumed by any later
  answer, and nobody is asked about it again, whatever else happens, until the session is finished
  and its requests are cancelled.
\<close>
theorem denied_session_is_not_resumed:
  assumes "sessionOf (asRequestID resp) (snd (approval_run pol xs newApprovals)) = Some sid"
    and "\<not> asApproved resp" and "OpCancel sid \<notin> set ys"
  shows "ResumeSession sid \<notin> set (fst (approval_run pol (OpResolve now resp # ys)
        (snd (approval_run pol xs newApprovals))))
    \<and> \<not> waiting sid (snd (approval_run pol (xs @ OpResolve now resp # ys) newApprovals))"
proof -
  let ?a = "snd (approval_run pol xs newApprovals)"
  let ?b = "snd (snd (resolve now resp ?a))"
  from assms(1) obtain req where req: "map_of (apPending ?a) (asRequestID resp) = Some req" "arSessionID req = sid"
    by (auto simp: session_of_request)
  have down: "going_down sid ?b" and out: "ResumeSession sid \<notin> set (fst (snd (resolve now resp ?a)))"
    using resolve_denied[OF req(1) assms(2), of now] req(2)
      resolve_ok[OF approval_run_ok[OF newApprovals_ok]]
    by (auto simp: going_down_def)
  from run_going_down[OF down assms(3), of pol] out going_down_waiting show ?thesis
    by (auto simp: approval_run_Cons snd_approval_run_append simp del: approval_run.simps)
qed

definition demo_decision :: decision where
  "demo_decision =
     \<lparr>dID = ''dec-1'', dSessionID = ''s-1'', dEventID = ''e-1'', dTimestamp = 1, dAction = ActionRequestApproval,
      dVerdict = VerdictIndeterminate, dRisk = unscored, dReasoning = [], dMatchedGrant = None,
      dMatchedRule = [], dLatency = 0, dEnforced = False\<rparr>"

definition demo_policy :: approval_policy where
  "demo_policy = \<lparr>apolTimeout = 60, apolTimeoutAction = ''deny''\<rparr>"

definition demo_denial :: approval_response where
  "demo_denial = \<lparr>asRequestID = ''apr-s-1-1'', asApproved = False, asRespondedBy = ''owner'', asRespondedAt = 5,
     asReason = [], asRemember = False, asTimedOut = False\<rparr>"

theorem denied_session_is_not_resumed_witness:
  "\<not> waiting ''s-1'' (snd (approval_run demo_policy
     ([OpOpen 1 demo_decision, OpOpen 2 demo_decision] @ OpResolve 5 demo_denial #
      [OpResolve 6 (demo_denial\<lparr>asRequestID := ''apr-s-1-2'', asApproved := True\<rparr>), OpOpen 7 demo_decision])
     newApprovals))"
proof -
  have "sessionOf (asRequestID demo_denial)
      (snd (approval_run demo_policy [OpOpen 1 demo_decision, OpOpen 2 demo_decision] newApprovals)) = Some ''s-1''"
    by code_simp
  then show ?thesis
    by (rule denied_session_is_not_resumed[THEN conjunct2]) (simp_all add: demo_denial_def)
qed

end
