(* ===== verification/Dispatch.thy ===== *)
theory Dispatch
  imports Manager Pipeline Assoc
begin

text \<open>
  Event dispatch across sessions (\<open>internal/session/dispatch.go\<close>): each event of one stream goes to the
  processor of the session it names, built on first use and forgotten once the session no longer
  accepts events. A processor is a state of any type with a step of its own; the registry is what the
  session manager answers when the event is dispatched.
\<close>

section \<open>Data\<close>

type_synonym 'p processor = "event \<Rightarrow> 'p \<Rightarrow> (msg + decision option) \<times> 'p"
type_synonym 'p processor_factory = "binding \<Rightarrow> msg + 'p option"
type_synonym registry = "string \<Rightarrow> binding option"

record dispatch_stats =
  dtObserved :: "64 word"
  dtRouted :: "64 word"
  dtUnidentified :: "64 word"
  dtUnattributed :: "64 word"
  dtNotAccepting :: "64 word"
  dtFactoryErrors :: "64 word"
  dtProcessorErrors :: "64 word"
  dtSinkErrors :: "64 word"
  dtBuilt :: "64 word"
  dtLive :: int

datatype dispatch_error =
    ErrNilEvent | ErrEventUnidentified | ErrUnattributed string | ErrNotAccepting string lifecycle
  | ErrBuilding string msg | ErrProcessing string string msg

record 'p dispatcher =
  dsFactory :: "'p processor_factory"
  dsSink :: "(decision \<Rightarrow> go_error) option"
  dsProcessors :: "(string \<times> 'p) list"
  dsStats :: dispatch_stats

definition zero_dispatch_stats :: dispatch_stats where
  "zero_dispatch_stats = \<lparr>dtObserved = 0, dtRouted = 0, dtUnidentified = 0, dtUnattributed = 0,
     dtNotAccepting = 0, dtFactoryErrors = 0, dtProcessorErrors = 0, dtSinkErrors = 0, dtBuilt = 0,
     dtLive = 0\<rparr>"

definition NewDispatcher ::
  "registry option \<Rightarrow> 'p processor_factory option \<Rightarrow> (decision \<Rightarrow> go_error) option \<Rightarrow>
     msg + 'p dispatcher" where
  "NewDispatcher reg factory sink =
     (case (reg, factory) of
        (None, _) \<Rightarrow> Inl (lit ''session: a registry is required'')
      | (_, None) \<Rightarrow> Inl (lit ''session: a processor factory is required'')
      | (Some _, Some f) \<Rightarrow>
          Inr \<lparr>dsFactory = f, dsSink = sink, dsProcessors = [], dsStats = zero_dispatch_stats\<rparr>)"

section \<open>Operations\<close>

definition AcceptsEvents :: "lifecycle \<Rightarrow> bool" where
  "AcceptsEvents s \<longleftrightarrow> s = StateActive \<or> s = StateSuspended"

definition tally :: "(dispatch_stats \<Rightarrow> dispatch_stats) \<Rightarrow> 'p dispatcher \<Rightarrow> 'p dispatcher" where
  "tally f d = d\<lparr>dsStats := f (dsStats d)\<rparr>"

definition Release :: "string \<Rightarrow> 'p dispatcher \<Rightarrow> 'p dispatcher" where
  "Release sid d =
     (case map_of (dsProcessors d) sid of
        None \<Rightarrow> d
      | Some _ \<Rightarrow>
          tally (\<lambda>c. c\<lparr>dtLive := dtLive c - 1\<rparr>) (d\<lparr>dsProcessors := AList.delete sid (dsProcessors d)\<rparr>))"

definition processorFor :: "binding \<Rightarrow> 'p dispatcher \<Rightarrow> (msg + 'p) \<times> 'p dispatcher" where
  "processorFor b d =
     (case map_of (dsProcessors d) (bnSessionID b) of
        Some p \<Rightarrow> (Inr p, d)
      | None \<Rightarrow>
          (case dsFactory d b of
             Inl err \<Rightarrow> (Inl err, d)
           | Inr None \<Rightarrow>
               (Inl (Fmt ''session: the processor factory returned nil for %q'' [AStr (bnSessionID b)]), d)
           | Inr (Some p) \<Rightarrow>
               (Inr p, tally (\<lambda>c. c\<lparr>dtBuilt := dtBuilt c + 1, dtLive := dtLive c + 1\<rparr>)
                  (d\<lparr>dsProcessors := AList.update (bnSessionID b) p (dsProcessors d)\<rparr>))))"

definition emit_decision :: "decision option \<Rightarrow> 'p dispatcher \<Rightarrow> 'p dispatcher" where
  "emit_decision dec d =
     (case (dec, dsSink d) of
        (Some dec, Some sink) \<Rightarrow>
          (case sink dec of
             None \<Rightarrow> d
           | Some _ \<Rightarrow> tally (\<lambda>c. c\<lparr>dtSinkErrors := dtSinkErrors c + 1\<rparr>) d)
      | _ \<Rightarrow> d)"

text \<open>The processor's step leaves its new state in the cache: the code mutates it through the pointer.\<close>

definition run_processor ::
  "'p processor \<Rightarrow> event \<Rightarrow> binding \<Rightarrow> 'p \<Rightarrow> 'p dispatcher \<Rightarrow>
     (dispatch_error + decision option) \<times> 'p dispatcher" where
  "run_processor process e b p d =
     (let (r, p) = process e p;
          d = d\<lparr>dsProcessors := AList.update (bnSessionID b) p (dsProcessors d)\<rparr>
      in
      case r of
        Inl err \<Rightarrow>
          (Inl (ErrProcessing (evID e) (evSessionID e) err),
           tally (\<lambda>c. c\<lparr>dtProcessorErrors := dtProcessorErrors c + 1\<rparr>) d)
      | Inr dec \<Rightarrow>
          (Inr dec, emit_decision dec (tally (\<lambda>c. c\<lparr>dtRouted := dtRouted c + 1\<rparr>) d)))"

definition Dispatch ::
  "'p processor \<Rightarrow> registry \<Rightarrow> event option \<Rightarrow> 'p dispatcher \<Rightarrow>
     (dispatch_error + decision option) \<times> 'p dispatcher" where
  "Dispatch process reg ev d =
     (case ev of
        None \<Rightarrow> (Inl ErrNilEvent, d)
      | Some e \<Rightarrow>
          (let d = tally (\<lambda>c. c\<lparr>dtObserved := dtObserved c + 1\<rparr>) d in
           if evSessionID e = [] then
             (Inl ErrEventUnidentified, tally (\<lambda>c. c\<lparr>dtUnidentified := dtUnidentified c + 1\<rparr>) d)
           else
             (case reg (evSessionID e) of
                None \<Rightarrow>
                  (Inl (ErrUnattributed (evSessionID e)),
                   tally (\<lambda>c. c\<lparr>dtUnattributed := dtUnattributed c + 1\<rparr>) d)
              | Some b \<Rightarrow>
                  (if \<not> AcceptsEvents (bnLifecycle b) then
                     (Inl (ErrNotAccepting (evSessionID e) (bnLifecycle b)),
                      tally (\<lambda>c. c\<lparr>dtNotAccepting := dtNotAccepting c + 1\<rparr>) (Release (evSessionID e) d))
                   else
                     (case processorFor b d of
                        (Inl err, d) \<Rightarrow>
                          (Inl (ErrBuilding (evSessionID e) err),
                           tally (\<lambda>c. c\<lparr>dtFactoryErrors := dtFactoryErrors c + 1\<rparr>) d)
                      | (Inr p, d) \<Rightarrow> run_processor process e b p d)))))"

text \<open>
  \<open>Run\<close> over the events its source delivers, each with the registry as it then stands; the outcomes
  are the ones the code counts and discards.
\<close>

fun run_dispatch ::
  "'p processor \<Rightarrow> (registry \<times> event) list \<Rightarrow> 'p dispatcher \<Rightarrow>
     (string \<times> (dispatch_error + decision option)) list \<times> 'p dispatcher" where
  "run_dispatch process [] d = ([], d)"
| "run_dispatch process ((reg, e) # xs) d =
     (let (r, d) = Dispatch process reg (Some e) d; (rs, d) = run_dispatch process xs d
      in ((evSessionID e, r) # rs, d))"

section \<open>The daemon's processors\<close>

text \<open>
  What the daemon gives its dispatcher: a scored pipeline per session, over the session's envelope,
  mode and tracking state. The pipeline's copy of that state stands for the pointer both hold.
\<close>

definition pipeline_factory ::
  "(nat \<Rightarrow> time) \<Rightarrow> validator_fn \<Rightarrow> risk_fn \<Rightarrow> policy_fn \<Rightarrow> pipeline processor_factory" where
  "pipeline_factory now v r pol b =
     (case NewWithRisk \<lparr>pgSessionID = bnSessionID b, pgEnvelope = Some (bnEnvelope b), pgMode = bnMode b,
             pgState = Some (bnState b), pgSink = None, pgNow = now\<rparr> (Some v) (Some r) (Some pol) of
        Inl err \<Rightarrow> Inl err
      | Inr p \<Rightarrow> Inr (Some p))"

definition pipeline_processor :: "pipeline processor" where
  "pipeline_processor e p = Process (Some e) p"

end
