(* ===== verification/DispatchLaws.thy ===== *)
theory DispatchLaws
  imports Dispatch ManagerLaws PipelineLaws
begin

text \<open>
  What dispatch guarantees: every event is counted under exactly one outcome; a session is served as
  though its events were alone on the stream, in arrival order; and, over the pipelines the daemon
  builds, every event of a running session gets a decision. The last is proved for any processor that
  keeps the interface \<open>event_processor\<close>, and rests on its interpretation by \<open>Process\<close>.
\<close>

section \<open>Accounting\<close>

definition outcomes_counted :: "dispatch_stats \<Rightarrow> 64 word" where
  "outcomes_counted c = dtRouted c + dtUnidentified c + dtUnattributed c + dtNotAccepting c +
     dtFactoryErrors c + dtProcessorErrors c"

text \<open>\<open>n\<close> events were observed and \<open>k\<close> of them have their outcome counted.\<close>

definition accounted :: "nat \<Rightarrow> nat \<Rightarrow> 'p dispatcher \<Rightarrow> bool" where
  "accounted n k d \<longleftrightarrow> dtObserved (dsStats d) = of_nat n \<and> outcomes_counted (dsStats d) = of_nat k \<and>
     distinct (map fst (dsProcessors d)) \<and> dtLive (dsStats d) = int (length (dsProcessors d))"

lemma tally_simps [simp]:
  "dsStats (tally f d) = f (dsStats d)" "dsProcessors (tally f d) = dsProcessors d"
  "dsFactory (tally f d) = dsFactory d" "dsSink (tally f d) = dsSink d"
  by (simp_all add: tally_def)

lemma length_delete_key:
  "distinct (map fst xs) \<Longrightarrow> map_of xs k = Some v \<Longrightarrow>
     int (length (AList.delete k xs)) = int (length xs) - 1"
  using length_delete[of xs k v] by linarith

lemma Release_simps:
  "dsFactory (Release sid d) = dsFactory d" "dsSink (Release sid d) = dsSink d"
  "map_of (dsProcessors (Release sid d)) = (map_of (dsProcessors d))(sid := None)"
  by (auto simp: Release_def delete_conv' split: option.split)

lemma Release_accounted: "accounted n k d \<Longrightarrow> accounted n k (Release sid d)"
  by (cases "map_of (dsProcessors d) sid")
    (simp_all add: Release_def accounted_def outcomes_counted_def distinct_delete length_delete_key)

lemma processorFor_accounted:
  "accounted n k d \<Longrightarrow> processorFor b d = (r, d') \<Longrightarrow> accounted n k d' \<and>
     (\<forall>p. r = Inr p \<longrightarrow> map_of (dsProcessors d') (bnSessionID b) = Some p)"
  by (auto simp: processorFor_def accounted_def outcomes_counted_def distinct_update length_update
      update_conv' split: option.splits sum.splits)

lemma emit_decision_simps [simp]:
  "dsFactory (emit_decision dec d) = dsFactory d" "dsSink (emit_decision dec d) = dsSink d"
  "dsProcessors (emit_decision dec d) = dsProcessors d"
  "accounted n k (emit_decision dec d) = accounted n k d"
  "dtRouted (dsStats (emit_decision dec d)) = dtRouted (dsStats d)"
  by (auto simp: emit_decision_def accounted_def outcomes_counted_def split: option.split)

text \<open>The two ways a step counts: the event itself, and then its outcome.\<close>

lemma accounted_observed:
  "accounted n k d \<Longrightarrow> accounted (Suc n) k (tally (\<lambda>c. c\<lparr>dtObserved := dtObserved c + 1\<rparr>) d)"
  by (simp add: accounted_def outcomes_counted_def)

lemma accounted_outcome:
  assumes "accounted n k d" and "\<And>c. dtObserved (f c) = dtObserved c" "\<And>c. dtLive (f c) = dtLive c"
    and "\<And>c. outcomes_counted (f c) = outcomes_counted c + 1"
  shows "accounted n (Suc k) (tally f d)"
  using assms by (simp add: accounted_def)

lemma accounted_same_key:
  assumes "accounted n k d" "map_of (dsProcessors d) sid = Some p"
  shows "accounted n k (d\<lparr>dsProcessors := AList.update sid q (dsProcessors d)\<rparr>)"
  using assms by (simp add: accounted_def distinct_update length_update)

lemma routed_kept:
  "dtRouted (dsStats (Release sid d)) = dtRouted (dsStats d)"
  "processorFor b d = (r, d') \<Longrightarrow> dtRouted (dsStats d') = dtRouted (dsStats d) \<and>
     dsFactory d' = dsFactory d \<and> dsSink d' = dsSink d"
  by (auto simp: Release_def processorFor_def split: option.splits sum.splits)

lemma run_processor_accounted:
  assumes ok: "accounted n k d" and p: "map_of (dsProcessors d) (bnSessionID b) = Some p"
    and run: "run_processor process e b p d = (r, d')"
  shows "accounted n (Suc k) d' \<and> dsFactory d' = dsFactory d \<and>
    dtRouted (dsStats d') = dtRouted (dsStats d) + (if isl r then 0 else 1)"
proof -
  obtain res q where q: "process e p = (res, q)" by (cases "process e p")
  note ok' = accounted_same_key[OF ok p, of q]
  show ?thesis
    using run accounted_outcome[OF ok'] q
    by (auto simp: run_processor_def outcomes_counted_def Let_def split: sum.splits)
qed

lemma Dispatch_accounted:
  assumes ok: "accounted n n d" and run: "Dispatch process reg (Some e) d = (r, d')"
  shows "accounted (Suc n) (Suc n) d' \<and> dsFactory d' = dsFactory d \<and>
    dtRouted (dsStats d') = dtRouted (dsStats d) + (if isl r then 0 else 1)"
proof -
  let ?d = "tally (\<lambda>c. c\<lparr>dtObserved := dtObserved c + 1\<rparr>) d"
  note seen = accounted_observed[OF ok]
  note outcome = accounted_outcome[OF seen] accounted_outcome[OF Release_accounted[OF seen]]
  show ?thesis
  proof (cases "evSessionID e = []")
    case False
    show ?thesis
    proof (cases "reg (evSessionID e)")
      case None
      with False run outcome show ?thesis by (auto simp: Dispatch_def outcomes_counted_def Let_def)
    next
      case (Some b)
      show ?thesis
      proof (cases "AcceptsEvents (bnLifecycle b)")
        case True
        obtain res d1 where p: "processorFor b ?d = (res, d1)" by (cases "processorFor b ?d")
        note d1 = processorFor_accounted[OF seen p] routed_kept(2)[OF p]
        show ?thesis
        proof (cases res)
          case (Inl err)
          then show ?thesis
            using False Some True run p d1 accounted_outcome[of "Suc n" n d1]
            by (auto simp: Dispatch_def outcomes_counted_def Let_def)
        next
          case (Inr q)
          then have "run_processor process e b q d1 = (r, d')"
            using False Some True run p by (simp add: Dispatch_def Let_def)
          moreover have "accounted (Suc n) n d1" "map_of (dsProcessors d1) (bnSessionID b) = Some q"
            using d1(1) Inr by simp_all
          ultimately show ?thesis using run_processor_accounted[of "Suc n" n d1 b q process e r d'] d1(2) by simp
        qed
      next
        case closed: False
        with False Some run outcome show ?thesis
          by (auto simp: Dispatch_def outcomes_counted_def Let_def Release_simps routed_kept)
      qed
    qed
  qed (use run outcome in \<open>auto simp: Dispatch_def outcomes_counted_def Let_def\<close>)
qed

lemma run_dispatch_accounted:
  assumes "accounted n n d"
  shows "accounted (n + length xs) (n + length xs) (snd (run_dispatch process xs d)) \<and>
    dtRouted (dsStats (snd (run_dispatch process xs d))) =
      dtRouted (dsStats d) + of_nat (length (filter (\<lambda>x. \<not> isl (snd x)) (fst (run_dispatch process xs d))))"
  using assms
proof (induction xs arbitrary: n d)
  case (Cons x xs)
  obtain reg e where x: "x = (reg, e)" by (cases x)
  obtain r d1 where one: "Dispatch process reg (Some e) d = (r, d1)" by (cases "Dispatch process reg (Some e) d")
  note d1 = Dispatch_accounted[OF Cons.prems one]
  from Cons.IH[of "Suc n" d1] d1 one x show ?case by (auto simp: split: prod.splits)
qed simp

section \<open>Sessions apart\<close>

text \<open>A registry files each session under its own identity, as a reachable manager does.\<close>

definition faithful :: "registry \<Rightarrow> bool" where
  "faithful reg \<longleftrightarrow> (\<forall>sid b. reg sid = Some b \<longrightarrow> bnSessionID b = sid)"

lemma Binding_faithful: "manager_reachable m \<Longrightarrow> faithful (\<lambda>sid. Binding sid m)"
  using reachable_ok sessions_ok_lookup(1)
  by (fastforce simp: faithful_def Binding_def manager_ok_def)

text \<open>Two dispatchers that agree on one session.\<close>

definition agree :: "string \<Rightarrow> 'p dispatcher \<Rightarrow> 'p dispatcher \<Rightarrow> bool" where
  "agree sid d d' \<longleftrightarrow> dsFactory d = dsFactory d' \<and>
     map_of (dsProcessors d) sid = map_of (dsProcessors d') sid"

lemma Dispatch_other:
  assumes "faithful reg" and run: "Dispatch process reg (Some e) d = (r, d')"
  shows "dsFactory d' = dsFactory d \<and>
    (sid \<noteq> evSessionID e \<longrightarrow> map_of (dsProcessors d') sid = map_of (dsProcessors d) sid)"
proof -
  have "\<And>b. reg (evSessionID e) = Some b \<Longrightarrow> bnSessionID b = evSessionID e"
    using assms(1) by (auto simp: faithful_def)
  with run show ?thesis
    by (auto simp: Dispatch_def Let_def run_processor_def processorFor_def Release_simps update_conv'
        split: if_splits option.splits sum.splits prod.splits)
qed

lemma Dispatch_own:
  assumes "faithful reg" and "agree (evSessionID e) d1 d2"
    and "Dispatch process reg (Some e) d1 = (r1, d1')" "Dispatch process reg (Some e) d2 = (r2, d2')"
  shows "r1 = r2 \<and> agree (evSessionID e) d1' d2'"
proof -
  have "\<And>b. reg (evSessionID e) = Some b \<Longrightarrow> bnSessionID b = evSessionID e"
    using assms(1) by (auto simp: faithful_def)
  with assms(2-4) show ?thesis
    by (auto simp: agree_def Dispatch_def Let_def run_processor_def processorFor_def Release_simps
        update_conv' split: if_splits option.splits sum.splits prod.splits)
qed

lemma Dispatch_foreign:
  assumes "faithful reg" "agree sid d1 d2" "sid \<noteq> evSessionID e"
    and "Dispatch process reg (Some e) d1 = (r, d1')"
  shows "agree sid d1' d2"
  using Dispatch_other[OF assms(1,4), of sid] assms(2,3) by (simp add: agree_def)

lemma run_apart:
  assumes "list_all (\<lambda>(reg, e). faithful reg) xs" and "agree sid d1 d2"
  shows "filter (\<lambda>(s, r). s = sid) (fst (run_dispatch process xs d1)) =
      fst (run_dispatch process (filter (\<lambda>(reg, e). evSessionID e = sid) xs) d2) \<and>
    agree sid (snd (run_dispatch process xs d1))
      (snd (run_dispatch process (filter (\<lambda>(reg, e). evSessionID e = sid) xs) d2))"
  using assms
proof (induction xs arbitrary: d1 d2)
  case (Cons x xs)
  obtain reg e where x: "x = (reg, e)" by (cases x)
  obtain r1 d1' where one: "Dispatch process reg (Some e) d1 = (r1, d1')" by fastforce
  obtain r2 d2' where two: "Dispatch process reg (Some e) d2 = (r2, d2')" by fastforce
  have reg: "faithful reg" "list_all (\<lambda>(reg, e). faithful reg) xs" using Cons.prems(1) x by simp_all
  show ?case
  proof (cases "evSessionID e = sid")
    case True
    then show ?thesis
      using Dispatch_own[OF reg(1) _ one two] Cons.prems(2) Cons.IH[OF reg(2), of d1' d2'] one two x
      by (auto split: prod.splits)
  next
    case False
    then show ?thesis
      using Dispatch_foreign[OF reg(1) Cons.prems(2) _ one] Cons.IH[OF reg(2), of d1' d2] one x
      by (auto split: prod.splits)
  qed
qed simp

section \<open>Processors that decide\<close>

text \<open>
  What routing relies on for an answer: a sound processor of a session decides every event and stays
  sound, and the factory builds sound ones.
\<close>

locale event_processor =
  fixes process :: "'p processor" and sound :: "string \<Rightarrow> 'p \<Rightarrow> bool"
  assumes stays_sound: "sound sid p \<Longrightarrow> sound sid (snd (process e p))"
    and decides: "sound sid p \<Longrightarrow> \<exists>d. fst (process e p) = Inr (Some d) \<and> dEventID d = evID e \<and> dSessionID d = sid"
begin

definition all_sound :: "'p dispatcher \<Rightarrow> bool" where
  "all_sound d \<longleftrightarrow> (\<forall>sid p. map_of (dsProcessors d) sid = Some p \<longrightarrow> sound sid p)"

definition builds_sound :: "'p processor_factory \<Rightarrow> binding \<Rightarrow> bool" where
  "builds_sound f b \<longleftrightarrow> (\<exists>p. f b = Inr (Some p) \<and> sound (bnSessionID b) p)"

lemma processorFor_sound:
  assumes "all_sound d" "builds_sound (dsFactory d) b"
  shows "\<exists>p d'. processorFor b d = (Inr p, d') \<and> sound (bnSessionID b) p \<and> all_sound d'"
  using assms by (fastforce simp: processorFor_def builds_sound_def all_sound_def update_conv'
      split: option.splits)

lemma run_processor_sound:
  assumes "all_sound d" "sound (bnSessionID b) p"
  shows "\<exists>dec d'. run_processor process e b p d = (Inr (Some dec), d') \<and> all_sound d' \<and>
    dEventID dec = evID e \<and> dSessionID dec = bnSessionID b"
  using assms decides[OF assms(2), of e] stays_sound[OF assms(2), of e]
  by (cases "process e p") (auto simp: run_processor_def all_sound_def update_conv')

lemma accepted_event_is_decided:
  assumes "all_sound d" "evSessionID e \<noteq> []" "reg (evSessionID e) = Some b" "faithful reg"
    and "AcceptsEvents (bnLifecycle b)" "builds_sound (dsFactory d) b"
  shows "\<exists>dec d'. Dispatch process reg (Some e) d = (Inr (Some dec), d') \<and> all_sound d' \<and>
    dEventID dec = evID e \<and> dSessionID dec = evSessionID e"
proof -
  let ?d = "tally (\<lambda>c. c\<lparr>dtObserved := dtObserved c + 1\<rparr>) d"
  have "all_sound ?d" "dsFactory ?d = dsFactory d" using assms(1) by (simp_all add: all_sound_def)
  then obtain p d1 where p: "processorFor b ?d = (Inr p, d1)" "sound (bnSessionID b) p" "all_sound d1"
    using processorFor_sound[of ?d b] assms(6) by auto
  moreover have "bnSessionID b = evSessionID e" using assms(3,4) by (auto simp: faithful_def)
  ultimately show ?thesis
    using run_processor_sound[OF p(3,2), of e] assms(2,3,5) by (simp add: Dispatch_def Let_def)
qed

lemma Dispatch_keeps_sound:
  assumes "all_sound d" "\<And>b. AcceptsEvents (bnLifecycle b) \<Longrightarrow> reg (evSessionID e) = Some b \<Longrightarrow> builds_sound (dsFactory d) b"
    and "faithful reg"
  shows "all_sound (snd (Dispatch process reg (Some e) d))"
proof (cases "evSessionID e \<noteq> [] \<and> (\<exists>b. reg (evSessionID e) = Some b \<and> AcceptsEvents (bnLifecycle b))")
  case True
  then show ?thesis using accepted_event_is_decided[OF assms(1) _ _ assms(3)] assms(2) by fastforce
next
  case False
  then show ?thesis using assms(1)
    by (auto simp: Dispatch_def Let_def all_sound_def Release_simps split: option.splits if_splits)
qed

end

section \<open>The pipelines of a daemon\<close>

definition pipeline_sound :: "string \<Rightarrow> pipeline \<Rightarrow> bool" where
  "pipeline_sound sid p \<longleftrightarrow> plSessionID p = sid \<and> plHandler p = NewErrorHandler \<and>
     (\<exists>dv eng env s. governed dv eng p \<and> plEnvelope p = Some env \<and> plState p = Some s)"

lemma pipeline_sound_process:
  assumes "pipeline_sound sid p"
  shows "pipeline_sound sid (snd (pipeline_processor e p)) \<and>
    (\<exists>d. fst (pipeline_processor e p) = Inr (Some d) \<and> dEventID d = evID e \<and> dSessionID d = sid)"
proof -
  obtain dv eng env s where p: "governed dv eng p" "plEnvelope p = Some env" "plState p = Some s"
    "plHandler p = NewErrorHandler" "plSessionID p = sid"
    using assms by (auto simp: pipeline_sound_def)
  obtain pc p' s' where one: "ProcessContext (Some e) p = (Inr pc, p')" "governed dv eng p'"
    "plEnvelope p' = Some env" "plState p' = Some s'"
    using governed_step[OF p(1-3), of e] by metis
  have "plHandler p' = NewErrorHandler" "plSessionID p' = sid"
    using ProcessContext_setup[OF one(1)] p(4,5) by (simp_all add: same_setup_def)
  then show ?thesis
    using governed_decides[OF p(1-4) one(1)] one p(5)
    by (auto simp: pipeline_processor_def Process_def pipeline_sound_def)
qed

interpretation pipelines: event_processor pipeline_processor pipeline_sound
  by unfold_locales (use pipeline_sound_process in blast)+

lemma pipeline_factory_builds:
  assumes "bnSessionID b \<noteq> []" "mode_string (bnMode b) \<noteq> []"
  shows "pipelines.builds_sound (pipeline_factory now (validator_of dv) r (policy_of eng)) b"
  using assms
  by (auto simp: pipelines.builds_sound_def pipeline_factory_def NewWithRisk_def NewBuilder_def WithStage_def
      Build_def Let_def NewValidateStage_def NewScoreStage_def NewDecideStage_def pipeline_sound_def
      governed_def)

text \<open>In a reachable manager every session has a name and a mode.\<close>

definition named :: "manager \<Rightarrow> bool" where
  "named m \<longleftrightarrow> mode_string (mgDefaultMode m) \<noteq> [] \<and>
     (\<forall>sid rec. map_of (mgSessions m) sid = Some rec \<longrightarrow>
        sid \<noteq> [] \<and> mode_string (sesMode (mdSession rec)) \<noteq> [])"

lemma store_named:
  "named m \<Longrightarrow> sid \<noteq> [] \<Longrightarrow> mode_string (sesMode (mdSession rec)) \<noteq> [] \<Longrightarrow> named (store sid rec m)"
  by (auto simp: named_def) (simp add: store_def)

lemma named_session:
  "named m \<Longrightarrow> map_of (mgSessions m) sid = Some rec \<Longrightarrow> sid \<noteq> [] \<and> mode_string (sesMode (mdSession rec)) \<noteq> []"
  by (simp add: named_def)

lemma transition_named:
  assumes "named m" "\<And>rec rec'. body rec = Inr rec' \<Longrightarrow> sesMode (mdSession rec') = sesMode (mdSession rec)"
  shows "named (snd (transition a sid body m))"
proof (cases rule: transition_cases[of a sid body m])
  case (taken rec rec')
  then have "sid \<noteq> []" "mode_string (sesMode (mdSession rec')) \<noteq> []"
    using assms by (auto simp: named_def)
  then show ?thesis using taken(4) store_named[OF assms(1)] by simp
qed (use assms in simp)

lemma bodies_keep_mode:
  "seal_body r rec = Inr rec' \<Longrightarrow> sesMode (mdSession rec') = sesMode (mdSession rec)"
  "approve_body ap now rec = Inr rec' \<Longrightarrow> sesMode (mdSession rec') = sesMode (mdSession rec)"
  "start_body pid now rec = Inr rec' \<Longrightarrow> sesMode (mdSession rec') = sesMode (mdSession rec)"
  "supervised a sv act sid final rec = Inr rec' \<Longrightarrow> sesMode (mdSession rec') = sesMode (mdSession rec)"
  "end_body oc fin now rec = Inr rec' \<Longrightarrow> sesMode (mdSession rec') = sesMode (mdSession rec)"
  by (auto simp: seal_body_def approve_body_def start_body_def supervised_def end_body_def set_session_def
      Let_def split: list.splits option.splits if_splits)

lemma evictEnded_named: "sessions_ok m \<Longrightarrow> named m \<Longrightarrow> named (snd (evictEnded m))"
proof -
  assume "sessions_ok m" "named m"
  moreover have "mgDefaultMode (snd (evictEnded m)) = mgDefaultMode m"
    by (simp add: evictEnded_def Let_def)
  ultimately show ?thesis using evictEnded_lookup(1)[of m]
    unfolding named_def by (metis insert_iff option.distinct(1) singletonD)
qed

lemma step_named:
  assumes "manager_step m m'" and ok: "manager_ok m" and "named m"
  shows "named m'"
  using assms(1)
proof cases
  case (step_create req now)
  show ?thesis
  proof (cases "snd (Create req now m) = m")
    case False
    then obtain sid rec where "snd (Create req now m) = store sid rec m" "sid \<noteq> []"
      "mode_string (sesMode (mdSession rec)) \<noteq> []"
      using assms(3) by (auto simp: Create_def Let_def named_def split: option.splits if_splits)
    then show ?thesis using step_create store_named[OF assms(3)] by simp
  qed (use step_create assms in simp)
next
  case (step_end sid oc now)
  show ?thesis
  proof (cases rule: End_cases[of sid oc now m])
    case (ended rec rec')
    have m: "sessions_ok m" using ok by (simp add: manager_ok_def)
    note rec = sessions_ok_lookup[OF m ended(1)]
    have "sessions_ok (store sid rec' m)"
      using end_body_ok[OF rec(2) ended(3,4)] rec(1) store_ok[OF m] by simp
    moreover have "named (store sid rec' m)"
      using store_named[OF assms(3)] ended(1) bodies_keep_mode(5)[OF ended(4)] assms(3)
      by (auto simp: named_def)
    ultimately show ?thesis using evictEnded_named ended(5) step_end by simp
  qed (use step_end assms in simp)
next
  case (step_record sid ops)
  then show ?thesis
    using assms(3) store_named[OF assms(3), of sid]
    by (cases "map_of (mgSessions m) sid") (auto simp: record_ops_def dest: named_session)
qed (simp_all add: Seal_def Approve_def Start_def Suspend_def Resume_def transition_named[OF assms(3)]
    bodies_keep_mode)

lemma reachable_named: "manager_reachable m \<Longrightarrow> named m"
proof (induction rule: manager_reachable.induct)
  case (reach_new require md sv cfg keep)
  then show ?case by (simp add: named_def NewManager_def)
qed (auto intro: step_named reachable_ok)

text \<open>A stream, each event with the manager as it stands when the event is dispatched.\<close>

definition stream_of :: "(manager \<times> event) list \<Rightarrow> (registry \<times> event) list" where
  "stream_of ms = map (\<lambda>(m, e). ((\<lambda>sid. Binding sid m), e)) ms"

lemma stream_faithful:
  "list_all (\<lambda>(m, e). manager_reachable m) ms \<Longrightarrow> list_all (\<lambda>(reg, e). faithful reg) (stream_of ms)"
  by (induction ms) (auto simp: stream_of_def Binding_faithful)

lemma manager_builds:
  assumes "manager_reachable m" "Binding sid m = Some b"
  shows "pipelines.builds_sound (pipeline_factory now (validator_of dv) r (policy_of eng)) b"
proof -
  obtain rec where rec: "map_of (mgSessions m) sid = Some rec" "bnSessionID b = sesID (mdSession rec)"
    "bnMode b = sesMode (mdSession rec)" using assms(2) by (auto simp: Binding_def)
  have "sessions_ok m" using reachable_ok[OF assms(1)] by (simp add: manager_ok_def)
  from sessions_ok_lookup(1)[OF this rec(1)] named_session[OF reachable_named[OF assms(1)] rec(1)]
  show ?thesis using rec(2,3) pipeline_factory_builds[of b] by simp
qed

lemma stream_keeps_sound:
  assumes "list_all (\<lambda>(m, e). manager_reachable m) ms" "pipelines.all_sound d"
    and "dsFactory d = pipeline_factory now (validator_of dv) r (policy_of eng)"
  shows "pipelines.all_sound (snd (run_dispatch pipeline_processor (stream_of ms) d)) \<and>
    dsFactory (snd (run_dispatch pipeline_processor (stream_of ms) d)) = dsFactory d"
  using assms
proof (induction ms arbitrary: d)
  case (Cons x ms)
  obtain m e where x: "x = (m, e)" by (cases x)
  obtain res d1 where one: "Dispatch pipeline_processor (\<lambda>sid. Binding sid m) (Some e) d = (res, d1)"
    by fastforce
  have m: "manager_reachable m" using Cons.prems(1) x by simp
  have "pipelines.all_sound d1"
    using pipelines.Dispatch_keeps_sound[OF Cons.prems(2), of "\<lambda>sid. Binding sid m" e]
      manager_builds[OF m] Binding_faithful[OF m] one Cons.prems(3) by simp
  moreover have "dsFactory d1 = dsFactory d" using Dispatch_other[OF Binding_faithful[OF m] one] by simp
  ultimately show ?case using Cons.IH[of d1] Cons.prems(1,3) one x
    by (auto simp: stream_of_def split: prod.splits)
qed (simp add: stream_of_def)

section \<open>Properties\<close>

text \<open>No observed event goes missing. After any stream the number of events observed is the sum of
  the routed ones and of the five kinds of refusal, the routed ones are exactly those whose dispatch
  returned no error, and the number of live sessions reported is the number of processors held.\<close>

theorem every_event_has_one_outcome:
  "case NewDispatcher (Some reg) (Some factory) sink of
     Inl err \<Rightarrow> False
   | Inr d0 \<Rightarrow>
       (let (outcomes, d) = run_dispatch process xs d0; c = dsStats d in
        length outcomes = length xs \<and> dtObserved c = of_nat (length xs) \<and>
        dtRouted c + dtUnidentified c + dtUnattributed c + dtNotAccepting c + dtFactoryErrors c +
          dtProcessorErrors c = dtObserved c \<and>
        dtRouted c = of_nat (length (filter (\<lambda>x. \<not> isl (snd x)) outcomes)) \<and>
        dtLive c = int (length (dsProcessors d)))"
proof -
  have len: "length (fst (run_dispatch process xs d)) = length xs" for d
  proof (induction xs arbitrary: d)
    case (Cons x xs)
    then show ?case by (cases x) (simp split: prod.split, metis fst_conv)
  qed simp
  have fresh: "accounted 0 0 \<lparr>dsFactory = factory, dsSink = sink, dsProcessors = [], dsStats = zero_dispatch_stats\<rparr>"
    by (simp add: accounted_def outcomes_counted_def zero_dispatch_stats_def)
  show ?thesis
    using run_dispatch_accounted[OF fresh, of xs process]
      len[of "\<lparr>dsFactory = factory, dsSink = sink, dsProcessors = [], dsStats = zero_dispatch_stats\<rparr>"]
    by (auto simp: NewDispatcher_def accounted_def outcomes_counted_def zero_dispatch_stats_def Let_def
        split: prod.split)
qed

text \<open>C15: sessions are served apart, in arrival order. The outcomes a session's events get, and the
  processor they leave, are those of the stream with every other session's events taken out: nothing
  another session does, and no failure of another session's processor, changes or delays them.\<close>

theorem sessions_are_served_apart:
  assumes "list_all (\<lambda>(m, e). manager_reachable m) ms"
  shows "filter (\<lambda>(s, r). s = sid) (fst (run_dispatch process (stream_of ms) d)) =
      fst (run_dispatch process (stream_of (filter (\<lambda>(m, e). evSessionID e = sid) ms)) d) \<and>
    map_of (dsProcessors (snd (run_dispatch process (stream_of ms) d))) sid =
      map_of (dsProcessors (snd (run_dispatch process (stream_of (filter (\<lambda>(m, e). evSessionID e = sid) ms)) d))) sid"
proof -
  have "filter (\<lambda>(reg, e). evSessionID e = sid) (stream_of ms) =
      stream_of (filter (\<lambda>(m, e). evSessionID e = sid) ms)"
    by (induction ms) (auto simp: stream_of_def)
  then show ?thesis
    using run_apart[OF stream_faithful[OF assms], of sid d d process] by (simp add: agree_def)
qed

definition demo_event :: "string \<Rightarrow> string \<Rightarrow> event" where
  "demo_event sid eid = zero_event\<lparr>evSessionID := sid, evID := eid\<rparr>"

theorem sessions_are_served_apart_witness:
  "\<forall>d. filter (\<lambda>(s, r). s = ''s'') (fst (run_dispatch pipeline_processor
       (stream_of [(demo_started, demo_event ''s'' ''1''), (demo_started, demo_event ''t'' ''2'')]) d)) =
     fst (run_dispatch pipeline_processor (stream_of [(demo_started, demo_event ''s'' ''1'')]) d)"
proof
  fix d
  have "filter (\<lambda>(m, e). evSessionID e = ''s'') [(demo_started, demo_event ''s'' ''1''), (demo_started, demo_event ''t'' ''2'')] =
      [(demo_started, demo_event ''s'' ''1'')]" by (simp add: demo_event_def)
  then show "filter (\<lambda>(s, r). s = ''s'') (fst (run_dispatch pipeline_processor
       (stream_of [(demo_started, demo_event ''s'' ''1''), (demo_started, demo_event ''t'' ''2'')]) d)) =
     fst (run_dispatch pipeline_processor (stream_of [(demo_started, demo_event ''s'' ''1'')]) d)"
    using sessions_are_served_apart[of "[(demo_started, demo_event ''s'' ''1''), (demo_started, demo_event ''t'' ''2'')]"
        "''s''" pipeline_processor d] by (simp add: demo_reachable)
qed

text \<open>C10: governance does not stop. Over the pipelines the daemon builds, after any stream of events and
  any history of the session manager, an event that names an active or suspended session gets a
  decision of its own, under that session: no refusal, whatever stage may fail.\<close>

theorem running_sessions_are_always_decided:
  assumes "list_all (\<lambda>(m, e). manager_reachable m) ms" and "manager_reachable m"
    and "NewDispatcher (Some reg) (Some (pipeline_factory now (validator_of dv) r (policy_of eng))) sink = Inr d0"
    and "map_of (mgSessions m) (evSessionID e) = Some rec"
    and "sesState (mdSession rec) = StateActive \<or> sesState (mdSession rec) = StateSuspended"
  shows "\<exists>dec d'. Dispatch pipeline_processor (\<lambda>sid. Binding sid m) (Some e)
      (snd (run_dispatch pipeline_processor (stream_of ms) d0)) = (Inr (Some dec), d') \<and>
    dEventID dec = evID e \<and> dSessionID dec = evSessionID e"
proof -
  let ?d = "snd (run_dispatch pipeline_processor (stream_of ms) d0)"
  have d0: "pipelines.all_sound d0" "dsFactory d0 = pipeline_factory now (validator_of dv) r (policy_of eng)"
    using assms(3) by (auto simp: NewDispatcher_def pipelines.all_sound_def)
  note d = stream_keeps_sound[OF assms(1) d0]
  obtain b where b: "Binding (evSessionID e) m = Some b" "bnLifecycle b = sesState (mdSession rec)"
    using assms(4) by (simp add: Binding_def)
  have "evSessionID e \<noteq> []" using named_session[OF reachable_named[OF assms(2)] assms(4)] by simp
  then show ?thesis
    using pipelines.accepted_event_is_decided[of ?d e "\<lambda>sid. Binding sid m" b] d d0(2) b
      manager_builds[OF assms(2) b(1)] Binding_faithful[OF assms(2)] assms(5)
    by (auto simp: AcceptsEvents_def)
qed

theorem running_sessions_are_always_decided_witness:
  "\<forall>r. \<exists>d0 dec d'. NewDispatcher (Some (\<lambda>_. None))
       (Some (pipeline_factory int (validator_of \<lparr>dvMatcher = NewMatcher (=), dvNow = 1\<rparr>) r
         (policy_of \<lparr>activeRules = [], activeDefault = ActionWarn\<rparr>))) None = Inr d0 \<and>
     Dispatch pipeline_processor (\<lambda>sid. Binding sid demo_started) (Some (demo_event ''s'' ''2''))
       (snd (run_dispatch pipeline_processor (stream_of [(demo_started, demo_event ''s'' ''1'')]) d0)) =
         (Inr (Some dec), d') \<and> dEventID dec = ''2''"
proof
  fix r
  let ?f = "pipeline_factory int (validator_of \<lparr>dvMatcher = NewMatcher (=), dvNow = 1\<rparr>) r
    (policy_of \<lparr>activeRules = [], activeDefault = ActionWarn\<rparr>)"
  obtain d0 where d0: "NewDispatcher (Some (\<lambda>_. None)) (Some ?f) None = Inr d0"
    by (simp add: NewDispatcher_def)
  obtain rec where rec: "map_of (mgSessions demo_started) (evSessionID (demo_event ''s'' ''2'')) = Some rec"
    "sesState (mdSession rec) = StateActive"
    using demo_session by (auto simp: demo_event_def)
  from running_sessions_are_always_decided[OF _ demo_reachable d0 rec(1) disjI1[OF rec(2)],
      of "[(demo_started, demo_event ''s'' ''1'')]"] d0
  show "\<exists>d0 dec d'. NewDispatcher (Some (\<lambda>_. None)) (Some ?f) None = Inr d0 \<and>
     Dispatch pipeline_processor (\<lambda>sid. Binding sid demo_started) (Some (demo_event ''s'' ''2''))
       (snd (run_dispatch pipeline_processor (stream_of [(demo_started, demo_event ''s'' ''1'')]) d0)) =
         (Inr (Some dec), d') \<and> dEventID dec = ''2''"
    by (fastforce simp: demo_reachable demo_event_def)
qed

end
