(* ===== verification/Enforce.thy ===== *)
theory Enforce
  imports Dispatch Approvals
begin

text \<open>
  The daemon's own state and what it does to a session (\<open>internal/daemon/enforce.go\<close> and the loop of
  \<open>daemon.go\<close>): containing the session of a decision, asking for approval, ending a session, and
  carrying out an answer. Several goroutines share it: the loop dispatches events and runs the
  functions queued with \<open>later\<close>; the answer to an approval is resolved by a goroutine of its own, whose
  remaining effects are kept in \<open>dmInFlight\<close> until it gets to run them.

  A session's cgroup is outside the sources: \<open>dmHost\<close> says what the n-th call to it returns, and
  \<open>dmApplied\<close> records the calls that succeeded, in order. \<open>dmText\<close> is what \<open>fmt\<close> makes of a message.
\<close>

section \<open>Data\<close>

datatype group_call = CallKill | CallFreeze | CallThaw | CallRemove

text \<open>The process at the other end of the control socket, as the kernel names it.\<close>

record peer =
  prPID :: int
  prUID :: int

record session_info =
  siOwner :: peer
  siGroup :: bool
  siEmptySince :: time
  siEnding :: bool

text \<open>A function queued on the loop: the kill of a denied session, then its end; or only an end.\<close>

datatype deferred = Deferred bool string lifecycle string

record daemon =
  dmManager :: manager
  dmApprovals :: approvals
  dmPolicy :: approval_policy
  dmSessions :: "(string \<times> session_info) list"
  dmProcessors :: "pipeline dispatcher"
  dmControl :: "deferred list"
  dmInFlight :: "approval_result list list"
  dmHost :: "nat \<Rightarrow> group_call \<Rightarrow> string \<Rightarrow> go_error"
  dmAudit :: "decision \<Rightarrow> go_error"
  dmText :: "msg \<Rightarrow> string"
  dmCalls :: nat
  dmApplied :: "(group_call \<times> string) list"
  dmRecorded :: "decision list"
  dmSinkErrors :: "64 word"

section \<open>Groups\<close>

definition groupOf :: "string \<Rightarrow> daemon \<Rightarrow> bool" where
  "groupOf sid d = (case map_of (dmSessions d) sid of None \<Rightarrow> False | Some info \<Rightarrow> siGroup info)"

definition call_group :: "group_call \<Rightarrow> string \<Rightarrow> daemon \<Rightarrow> go_error \<times> daemon" where
  "call_group c sid d =
     (let r = dmHost d (dmCalls d) c sid in
      (r, d\<lparr>dmCalls := Suc (dmCalls d),
            dmApplied := (if r = None then dmApplied d @ [(c, sid)] else dmApplied d)\<rparr>))"

text \<open>
  \<open>supervisor\<close> adapts the groups to the manager, which calls it at most once, under its own lock and
  after its guards: a call is made exactly when the transition gets that far.
\<close>

definition daemon_supervisor :: "daemon \<Rightarrow> supervisor" where
  "daemon_supervisor d =
     \<lparr>svSuspend = (\<lambda>sid. if groupOf sid d then dmHost d (dmCalls d) CallFreeze sid
                       else Some (Fmt ''daemon: session %s has no cgroup'' [AStr sid])),
      svResume = (\<lambda>sid. if groupOf sid d then dmHost d (dmCalls d) CallThaw sid
                      else Some (Fmt ''daemon: session %s has no cgroup'' [AStr sid]))\<rparr>"

definition supervised_call ::
  "lifecycle_action \<Rightarrow> group_call \<Rightarrow> (string \<Rightarrow> manager \<Rightarrow> session_error option \<times> manager) \<Rightarrow>
     string \<Rightarrow> daemon \<Rightarrow> session_error option \<times> daemon" where
  "supervised_call a c transit sid d =
     (let m = (dmManager d)\<lparr>mgSupervisor := Some (daemon_supervisor d)\<rparr>;
          (err, m) = transit sid m;
          d' = d\<lparr>dmManager := m\<rparr>;
          called = (groupOf sid d \<and> (case map_of (mgSessions (dmManager d)) sid of
                      None \<Rightarrow> False | Some rec \<Rightarrow> Allowed a (sesState (mdSession rec))))
      in (err, if called then snd (call_group c sid d') else d'))"

definition manager_Suspend :: "string \<Rightarrow> daemon \<Rightarrow> session_error option \<times> daemon" where
  "manager_Suspend = supervised_call ActionSuspend CallFreeze Suspend"

definition manager_Resume :: "string \<Rightarrow> daemon \<Rightarrow> session_error option \<times> daemon" where
  "manager_Resume = supervised_call ActionResume CallThaw Resume"

section \<open>Containing the session of a decision\<close>

definition annotate :: "bool \<Rightarrow> msg \<Rightarrow> decision \<Rightarrow> decision" where
  "annotate applied what dec =
     dec\<lparr>dEnforced := applied, dReasoning := dReasoning dec @
       [\<lparr>rsStage = ''enforce'', rsConclusion = what,
         rsDetail = (if applied then lit ''the triggering operation had already completed; containment acts on the session afterwards''
                     else lit ''no containment applied'')\<rparr>]\<rparr>"

definition later :: "deferred \<Rightarrow> daemon \<Rightarrow> daemon" where
  "later f d = d\<lparr>dmControl := dmControl d @ [f]\<rparr>"

definition kill_failed :: "msg \<Rightarrow> go_error \<Rightarrow> msg" where
  "kill_failed err ferr =
     (case ferr of
        None \<Rightarrow> Fmt ''kill failed: %v; the session was frozen instead'' [AMsg err]
      | Some ferr \<Rightarrow> Fmt ''kill failed: %v; freezing it instead also failed: %v'' [AMsg err, AMsg ferr])"

definition terminate :: "decision \<Rightarrow> string \<Rightarrow> daemon \<Rightarrow> decision \<times> daemon" where
  "terminate dec why d =
     (let sid = dSessionID dec in
      if \<not> groupOf sid d then (annotate False (lit ''no session cgroup to contain'') dec, d)
      else
        (case call_group CallKill sid d of
           (Some err, d) \<Rightarrow>
             (let (ferr, d) = call_group CallFreeze sid d in
              (annotate (ferr = None) (kill_failed err ferr) dec,
               later (Deferred False sid StateFailed
                 (dmText d (Fmt ''containment failed: %v'' [AMsg err]))) d))
         | (None, d) \<Rightarrow>
             (let dec = annotate True (lit (''session process tree killed: '' @ why)) dec;
                  d = d\<lparr>dmManager := record_ops sid [OpEnforced dec] (dmManager d)\<rparr>
              in (dec, later (Deferred False sid StateTerminated (''terminated: '' @ why)) d))))"

definition suspend :: "string \<Rightarrow> daemon \<Rightarrow> bool \<times> daemon" where
  "suspend sid d =
     (case Get sid (dmManager d) of
        Inl _ \<Rightarrow> (False, d)
      | Inr s \<Rightarrow>
          (if sesState s = StateSuspended then (True, d)
           else (let (err, d) = manager_Suspend sid d in (err = None, d))))"

text \<open>
  \<open>react\<close> has two critical sections: containing the session, then, where approval is needed, opening the
  request; the flag of \<open>react_contain\<close> says that it is. Between them the lock of neither is held, and the
  goroutine of an answer may run (\<open>DaemonRuns\<close>).
\<close>

definition contained :: "decision \<times> daemon \<Rightarrow> (decision \<times> bool) \<times> daemon" where
  "contained = (\<lambda>(dec, d). ((dec, False), d))"

definition react_contain :: "decision \<Rightarrow> daemon \<Rightarrow> (decision \<times> bool) \<times> daemon" where
  "react_contain dec d =
     (if dAction dec \<noteq> ActionRequestApproval \<and> dAction dec \<noteq> ActionBlock then ((dec, False), d)
      else
        (case Binding (dSessionID dec) (dmManager d) of
           None \<Rightarrow> ((dec, False), d)
         | Some b \<Rightarrow>
             (if \<not> AcceptsEvents (bnLifecycle b) then ((dec, False), d)
              else
                (case bnMode b of
                   ModeMonitor \<Rightarrow> ((annotate False (lit ''monitor mode: recorded, not applied'') dec, False), d)
                 | ModeWarn \<Rightarrow> ((annotate False (lit ''warn mode: recorded, not applied'') dec, False), d)
                 | ModeInteractive \<Rightarrow>
                     (if dAction dec = ActionBlock then contained (terminate dec ''blocked by policy'' d)
                      else
                        (case suspend (dSessionID dec) d of
                           (False, d) \<Rightarrow>
                             contained (terminate dec ''approval required but the session could not be suspended'' d)
                         | (True, d) \<Rightarrow>
                             ((annotate True (lit ''session frozen pending approval by its owner'') dec, True), d)))
                 | ModeEnforce \<Rightarrow>
                     contained (terminate dec (action_string (dAction dec) @ '' in enforce mode, with no human to ask'') d)
                 | ModeOther _ \<Rightarrow> ((dec, False), d)))))"

definition react_ask :: "time \<Rightarrow> decision \<Rightarrow> daemon \<Rightarrow> daemon" where
  "react_ask now dec d = d\<lparr>dmApprovals := open_request (dmPolicy d) now dec (dmApprovals d)\<rparr>"

definition react :: "time \<Rightarrow> decision \<Rightarrow> daemon \<Rightarrow> decision \<times> daemon" where
  "react now dec d =
     (case react_contain dec d of
        ((dec, ask), d) \<Rightarrow> (dec, if ask then react_ask now dec d else d))"

text \<open>The enforcer's interface: whether containment was applied.\<close>

definition Enforce :: "time \<Rightarrow> decision \<Rightarrow> daemon \<Rightarrow> bool \<times> daemon" where
  "Enforce now dec d = (let (out, d) = react now dec d in (dEnforced out, d))"

text \<open>\<open>emit\<close>: act, then record; the hub's subscribers are not modelled.\<close>

definition record_decision :: "decision \<Rightarrow> daemon \<Rightarrow> go_error \<times> daemon" where
  "record_decision dec d =
     (let err = dmAudit d dec;
          d = d\<lparr>dmRecorded := dmRecorded d @ [dec]\<rparr>
      in (err, if err = None then d else d\<lparr>dmSinkErrors := dmSinkErrors d + 1\<rparr>))"

definition daemon_emit :: "time \<Rightarrow> decision \<Rightarrow> daemon \<Rightarrow> go_error \<times> daemon" where
  "daemon_emit now dec d = (let (dec, d) = react now dec d in record_decision dec d)"

section \<open>Ending a session\<close>

definition telemetry_note :: "session_outcome \<Rightarrow> session_outcome" where
  "telemetry_note oc =
     (if \<not> soTelemetryComplete oc \<and> soResult oc = StateCompleted
      then oc\<lparr>soReason := soReason oc @ ''; telemetry was incomplete''\<rparr> else oc)"

definition kill_and_remove :: "string \<Rightarrow> daemon \<Rightarrow> daemon" where
  "kill_and_remove sid d =
     (if groupOf sid d then snd (call_group CallRemove sid (snd (call_group CallKill sid d))) else d)"

definition finish :: "time \<Rightarrow> string \<Rightarrow> lifecycle \<Rightarrow> string \<Rightarrow> daemon \<Rightarrow> daemon" where
  "finish now sid result reason d =
     (let d = kill_and_remove sid d;
          d = d\<lparr>dmApprovals := cancelSession sid (dmApprovals d)\<rparr>;
          oc = (case State sid (dmManager d) of
                  None \<Rightarrow> zero_outcome\<lparr>soResult := result, soReason := reason\<rparr>
                | Some st \<Rightarrow> telemetry_note ((Outcome reason (Some st))\<lparr>soResult := result\<rparr>));
          (err, evicted, m) = End sid oc now (dmManager d)
      in d\<lparr>dmManager := m, dmSessions := filter (\<lambda>kv. fst kv \<notin> set evicted) (dmSessions d),
            dmProcessors := Release sid (dmProcessors d)\<rparr>)"

definition failSessionAs :: "time \<Rightarrow> string \<Rightarrow> lifecycle \<Rightarrow> string \<Rightarrow> daemon \<Rightarrow> daemon" where
  "failSessionAs now sid result reason d =
     (case Get sid (dmManager d) of
        Inl _ \<Rightarrow> d
      | Inr s \<Rightarrow> (if IsTerminal (sesState s) then d else finish now sid result reason d))"

definition failSession :: "time \<Rightarrow> string \<Rightarrow> string \<Rightarrow> daemon \<Rightarrow> daemon" where
  "failSession now sid reason d = failSessionAs now sid StateFailed reason d"

definition failAll :: "time \<Rightarrow> string \<Rightarrow> daemon \<Rightarrow> daemon" where
  "failAll now reason d =
     fold (\<lambda>s d. if IsTerminal (sesState s) then d else finish now (sesID s) StateFailed reason d)
       (list_sessions \<lparr>sfState = None, sfSince = 0, sfUntil = 0, sfLimit = 0\<rparr> (dmManager d)) d"

text \<open>What the loop runs of the control queue.\<close>

definition run_deferred :: "time \<Rightarrow> deferred \<Rightarrow> daemon \<Rightarrow> daemon" where
  "run_deferred now f d =
     (case f of
        Deferred kill sid result reason \<Rightarrow>
          (let d = (if kill \<and> groupOf sid d then snd (call_group CallKill sid d) else d)
           in failSessionAs now sid result reason d))"

text \<open>\<open>pop sid\<close> is what the group of a session answers when asked whether it still has processes.\<close>

definition orphan_check ::
  "duration \<Rightarrow> time \<Rightarrow> msg + bool \<Rightarrow> session_info \<Rightarrow> bool \<times> session_info" where
  "orphan_check grace now pop info =
     (if \<not> siGroup info \<or> siEnding info then (False, info)
      else
        (case pop of
           Inr False \<Rightarrow>
             (if siEmptySince info = 0 then (False, info\<lparr>siEmptySince := now\<rparr>)
              else if time_sub now (siEmptySince info) \<ge> grace then (True, info\<lparr>siEnding := True\<rparr>)
              else (False, info))
         | _ \<Rightarrow> (False, info\<lparr>siEmptySince := 0\<rparr>)))"

definition reapOrphans :: "duration \<Rightarrow> time \<Rightarrow> (string \<Rightarrow> msg + bool) \<Rightarrow> daemon \<Rightarrow> daemon" where
  "reapOrphans grace now pop d =
     (let checked = map (\<lambda>(sid, info). (sid, orphan_check grace now (pop sid) info)) (dmSessions d);
          due = map fst (filter (\<lambda>(sid, due, info). due) checked);
          d = d\<lparr>dmSessions := map (\<lambda>(sid, due, info). (sid, info)) checked\<rparr>
      in fold (\<lambda>sid d. failSessionAs now sid StateCompleted
           ''process tree exited and no shim ended the session'' d) due d)"

section \<open>Events\<close>

text \<open>
  A processor and the manager hold one tracking state through one pointer: it is loaded into the
  processor before it runs and stored back after.
\<close>

definition load_state :: "string \<Rightarrow> daemon \<Rightarrow> daemon" where
  "load_state sid d =
     (case (map_of (dsProcessors (dmProcessors d)) sid, State sid (dmManager d)) of
        (Some p, Some st) \<Rightarrow>
          d\<lparr>dmProcessors := (dmProcessors d)\<lparr>dsProcessors :=
            AList.update sid (p\<lparr>plState := Some st\<rparr>) (dsProcessors (dmProcessors d))\<rparr>\<rparr>
      | _ \<Rightarrow> d)"

definition store_state :: "string \<Rightarrow> daemon \<Rightarrow> daemon" where
  "store_state sid d =
     (case (map_of (dsProcessors (dmProcessors d)) sid, map_of (mgSessions (dmManager d)) sid) of
        (Some p, Some rec) \<Rightarrow>
          (case plState p of
             None \<Rightarrow> d
           | Some st \<Rightarrow> d\<lparr>dmManager := store sid (rec\<lparr>mdState := st\<rparr>) (dmManager d)\<rparr>)
      | _ \<Rightarrow> d)"

text \<open>What the processor of the event's session makes of it.\<close>

definition process_event :: "event \<Rightarrow> daemon \<Rightarrow> (dispatch_error + decision option) \<times> daemon" where
  "process_event e d =
     (let d = load_state (evSessionID e) d;
          (r, disp) = Dispatch pipeline_processor (\<lambda>sid. Binding sid (dmManager d)) (Some e) (dmProcessors d)
      in (r, store_state (evSessionID e) (d\<lparr>dmProcessors := disp\<rparr>)))"

definition tally_sink :: "go_error \<times> daemon \<Rightarrow> daemon" where
  "tally_sink = (\<lambda>(err, d). if err = None then d
     else d\<lparr>dmProcessors := tally (\<lambda>c. c\<lparr>dtSinkErrors := dtSinkErrors c + 1\<rparr>) (dmProcessors d)\<rparr>)"

definition dispatch_event :: "time \<Rightarrow> event \<Rightarrow> daemon \<Rightarrow> daemon" where
  "dispatch_event now e d =
     (let (r, d) = process_event e d in
      case r of
        Inr (Some dec) \<Rightarrow> tally_sink (daemon_emit now dec d)
      | _ \<Rightarrow> d)"

definition drop_check :: "bool \<Rightarrow> time \<Rightarrow> event \<Rightarrow> daemon \<Rightarrow> daemon" where
  "drop_check fail_closed now e d =
     (if evDropped e > 0 \<and> fail_closed \<and> evSessionID e \<noteq> [] then
        failSession now (evSessionID e)
          (''telemetry lost '' @ itoa (uint (evDropped e)) @ '' records and fail_closed_on_drop is set'') d
      else d)"

definition handleEvent :: "bool \<Rightarrow> time \<Rightarrow> event \<Rightarrow> daemon \<Rightarrow> daemon" where
  "handleEvent fail_closed now e d = drop_check fail_closed now e (dispatch_event now e d)"

text \<open>
  A reaction caught between its two critical sections: the decision whose request is about to be opened
  and, where an event led to it, what is left of the handling of that event. \<open>begin_asking\<close> is the first
  half of the reaction to a decision, \<open>begin_event\<close> that of an event; both are \<open>None\<close> where no request is
  to be opened, and nothing can come between. \<open>finish_asking\<close> is the second half.
\<close>

datatype asking = Asking decision "(bool \<times> event) option"

definition begin_asking :: "decision \<Rightarrow> daemon \<Rightarrow> (decision \<times> daemon) option" where
  "begin_asking dec d = (case react_contain dec d of ((dec, ask), d) \<Rightarrow> if ask then Some (dec, d) else None)"

definition begin_event :: "event \<Rightarrow> daemon \<Rightarrow> (decision \<times> daemon) option" where
  "begin_event e d =
     (let (r, d) = process_event e d in
      case r of
        Inr (Some dec) \<Rightarrow> begin_asking dec d
      | _ \<Rightarrow> None)"

definition finish_asking :: "time \<Rightarrow> asking \<Rightarrow> daemon \<Rightarrow> daemon" where
  "finish_asking now p d =
     (case p of
        Asking dec source \<Rightarrow>
          (let d = react_ask now dec d in
           case source of
             None \<Rightarrow> d
           | Some (fail_closed, e) \<Rightarrow> drop_check fail_closed now e (tally_sink (record_decision dec d))))"

section \<open>Answers\<close>

text \<open>The goroutine that answers: the locked part at once, its effects later.\<close>

definition answer :: "time \<Rightarrow> approval_response \<Rightarrow> daemon \<Rightarrow> daemon" where
  "answer now resp d =
     (let (found, effects, a) = resolve now resp (dmApprovals d)
      in d\<lparr>dmApprovals := a, dmInFlight := dmInFlight d @ [effects]\<rparr>)"

definition run_effect :: "approval_result \<Rightarrow> daemon \<Rightarrow> daemon" where
  "run_effect r d =
     (case r of
        AuditApproval _ \<Rightarrow> d
      | KillSession sid reason \<Rightarrow> later (Deferred True sid StateTerminated (dmText d reason)) d
      | ResumeSession sid \<Rightarrow> snd (manager_Resume sid d))"

text \<open>An answer whose effects follow at once, with nothing in between.\<close>

definition answer_at_once :: "time \<Rightarrow> approval_response \<Rightarrow> daemon \<Rightarrow> daemon" where
  "answer_at_once now resp d =
     (let (found, effects, a) = resolve now resp (dmApprovals d)
      in fold run_effect effects (d\<lparr>dmApprovals := a\<rparr>))"

end
