(* ===== verification/EnforceLaws.thy ===== *)
theory EnforceLaws
  imports Enforce DispatchLaws ApprovalLaws
begin

text \<open>
  What containment guarantees, and where it does not: a decision says it was enforced exactly when a
  freeze or a kill stands behind it, a session recorded as suspended is frozen, and a session
  with an open request stays suspended under every step but two: the second half of a reaction, which
  opens a request for a session that may have been resumed since the first, and a resumption that comes
  after its answer.
\<close>

section \<open>Calls to the groups\<close>

definition with_sv :: "daemon \<Rightarrow> manager" where
  "with_sv d = (dmManager d)\<lparr>mgSupervisor := Some (daemon_supervisor d)\<rparr>"

lemma with_sv_simps [simp]:
  "mgSessions (with_sv d) = mgSessions (dmManager d)" "mgSupervisor (with_sv d) = Some (daemon_supervisor d)"
  "manager_ok (with_sv d) = manager_ok (dmManager d)"
  by (simp_all add: with_sv_def manager_ok_def sessions_ok_def ended_def)

lemma call_group_simps:
  "call_group c sid d = (dmHost d (dmCalls d) c sid,
     d\<lparr>dmCalls := Suc (dmCalls d), dmApplied := (if dmHost d (dmCalls d) c sid = None
       then dmApplied d @ [(c, sid)] else dmApplied d)\<rparr>)"
  by (simp add: call_group_def Let_def)

definition moved :: "lifecycle \<Rightarrow> managed \<Rightarrow> managed" where
  "moved final rec = set_session (\<lambda>s. s\<lparr>sesState := final\<rparr>) rec"

lemma moved_simps [simp]:
  "mdState (moved final rec) = mdState rec" "sesState (mdSession (moved final rec)) = final"
  "sesID (mdSession (moved final rec)) = sesID (mdSession rec)"
  "sesMode (mdSession (moved final rec)) = sesMode (mdSession rec)"
  "sesEnvelope (mdSession (moved final rec)) = sesEnvelope (mdSession rec)"
  "sesRootPID (mdSession (moved final rec)) = sesRootPID (mdSession rec)"
  "sesEndedAt (mdSession (moved final rec)) = sesEndedAt (mdSession rec)"
  by (simp_all add: moved_def set_session_def)

lemma supervised_call_cases:
  assumes transit: "\<And>m. transit sid m = transition a sid (supervised a (mgSupervisor m) f sid final) m"
    and f: "f (daemon_supervisor d) sid = (if groupOf sid d then dmHost d (dmCalls d) c sid
      else Some (Fmt ''daemon: session %s has no cgroup'' [AStr sid]))"
  obtains (refused) e n where "supervised_call a c transit sid d =
      (Some e, d\<lparr>dmManager := with_sv d, dmCalls := n\<rparr>)"
  | (taken) rec where "map_of (mgSessions (dmManager d)) sid = Some rec"
      "Allowed a (sesState (mdSession rec))" "groupOf sid d"
      "supervised_call a c transit sid d =
        (None, d\<lparr>dmManager := store sid (moved final rec) (with_sv d), dmCalls := Suc (dmCalls d),
          dmApplied := dmApplied d @ [(c, sid)]\<rparr>)"
proof (cases "\<exists>rec. map_of (mgSessions (dmManager d)) sid = Some rec \<and> Allowed a (sesState (mdSession rec))")
  case True
  then obtain rec where rec: "map_of (mgSessions (dmManager d)) sid = Some rec" "Allowed a (sesState (mdSession rec))"
    by blast
  then have body: "transit sid (with_sv d) =
      (case supervised a (Some (daemon_supervisor d)) f sid final rec of
         Inl err \<Rightarrow> (Some err, with_sv d) | Inr r \<Rightarrow> (None, store sid r (with_sv d)))"
    by (simp add: transit transition_def lookup_def check_def)
  show thesis
  proof (cases "groupOf sid d \<and> dmHost d (dmCalls d) c sid = None")
    case True
    then have "transit sid (with_sv d) = (None, store sid (moved final rec) (with_sv d))"
      using body f by (simp add: supervised_def moved_def)
    then show thesis
      using taken[OF rec] True rec
      by (simp add: supervised_call_def with_sv_def[symmetric] call_group_simps)
  next
    case False
    then obtain e where "transit sid (with_sv d) = (Some e, with_sv d)"
      using body f by (auto simp: supervised_def split: option.splits if_splits)
    then show thesis
      using refused[of e "if groupOf sid d then Suc (dmCalls d) else dmCalls d"] False rec
      by (auto simp: supervised_call_def with_sv_def[symmetric] call_group_simps Let_def)
  qed
next
  case False
  then obtain e where "transit sid (with_sv d) = (Some e, with_sv d)"
    by (cases "map_of (mgSessions (dmManager d)) sid") (auto simp: transit transition_def lookup_def check_def)
  then show thesis
    using refused[of e "dmCalls d"] False
    by (auto simp: supervised_call_def with_sv_def[symmetric] split: option.splits)
qed

lemma manager_Suspend_cases:
  obtains (refused) e n where "manager_Suspend sid d = (Some e, d\<lparr>dmManager := with_sv d, dmCalls := n\<rparr>)"
  | (taken) rec where "map_of (mgSessions (dmManager d)) sid = Some rec"
      "sesState (mdSession rec) = StateActive" "groupOf sid d"
      "manager_Suspend sid d = (None, d\<lparr>dmManager := store sid (moved StateSuspended rec) (with_sv d),
        dmCalls := Suc (dmCalls d), dmApplied := dmApplied d @ [(CallFreeze, sid)]\<rparr>)"
proof -
  have "\<And>m. Suspend sid m = transition ActionSuspend sid (supervised ActionSuspend (mgSupervisor m) svSuspend sid StateSuspended) m"
    by (simp add: Suspend_def)
  moreover have "svSuspend (daemon_supervisor d) sid = (if groupOf sid d then dmHost d (dmCalls d) CallFreeze sid
      else Some (Fmt ''daemon: session %s has no cgroup'' [AStr sid]))"
    by (simp add: daemon_supervisor_def)
  ultimately show thesis
  proof (rule supervised_call_cases, goal_cases)
    case (1 e n)
    then show thesis by (intro that(1)[of e n]) (simp only: manager_Suspend_def)
  next
    case (2 rec)
    from 2(2) have "sesState (mdSession rec) = StateActive"
      by (simp add: Allowed_def)
    from that(2)[OF 2(1) this 2(3)] 2(4) show thesis by (simp only: manager_Suspend_def)
  qed
qed

lemma manager_Resume_cases:
  obtains (refused) e n where "manager_Resume sid d = (Some e, d\<lparr>dmManager := with_sv d, dmCalls := n\<rparr>)"
  | (taken) rec where "map_of (mgSessions (dmManager d)) sid = Some rec"
      "sesState (mdSession rec) = StateSuspended" "groupOf sid d"
      "manager_Resume sid d = (None, d\<lparr>dmManager := store sid (moved StateActive rec) (with_sv d),
        dmCalls := Suc (dmCalls d), dmApplied := dmApplied d @ [(CallThaw, sid)]\<rparr>)"
proof -
  have "\<And>m. Resume sid m = transition ActionResume sid (supervised ActionResume (mgSupervisor m) svResume sid StateActive) m"
    by (simp add: Resume_def)
  moreover have "svResume (daemon_supervisor d) sid = (if groupOf sid d then dmHost d (dmCalls d) CallThaw sid
      else Some (Fmt ''daemon: session %s has no cgroup'' [AStr sid]))"
    by (simp add: daemon_supervisor_def)
  ultimately show thesis
  proof (rule supervised_call_cases, goal_cases)
    case (1 e n)
    then show thesis by (intro that(1)[of e n]) (simp only: manager_Resume_def)
  next
    case (2 rec)
    from 2(2) have "sesState (mdSession rec) = StateSuspended"
      by (simp add: Allowed_def)
    from that(2)[OF 2(1) this 2(3)] 2(4) show thesis by (simp only: manager_Resume_def)
  qed
qed

section \<open>Containing\<close>

lemma annotate_simps [simp]:
  "dEnforced (annotate b w dec) = b" "dSessionID (annotate b w dec) = dSessionID dec"
  "dAction (annotate b w dec) = dAction dec" "dID (annotate b w dec) = dID dec"
  by (simp_all add: annotate_def)

lemma later_simps [simp]:
  "dmApplied (later f d) = dmApplied d" "dmManager (later f d) = dmManager d"
  "dmApprovals (later f d) = dmApprovals d" "dmSessions (later f d) = dmSessions d"
  "dmProcessors (later f d) = dmProcessors d" "dmControl (later f d) = dmControl d @ [f]"
  by (simp_all add: later_def)

text \<open>A kill, or a freeze in its place, and the end of the session queued; or no group at all.\<close>

lemma terminate_cases:
  obtains (no_group) "\<not> groupOf (dSessionID dec) d"
      "terminate dec why d = (annotate False (lit ''no session cgroup to contain'') dec, d)"
  | (killed) dec' d' where "groupOf (dSessionID dec) d" "terminate dec why d = (dec', d')" "dEnforced dec'"
      "dmApplied d' = dmApplied d @ [(CallKill, dSessionID dec)]"
      "dmManager d' = record_ops (dSessionID dec) [OpEnforced dec'] (dmManager d)"
      "dmApprovals d' = dmApprovals d" "dmSessions d' = dmSessions d" "dmProcessors d' = dmProcessors d"
      "dmControl d' = dmControl d @ [Deferred False (dSessionID dec) StateTerminated (''terminated: '' @ why)]"
  | (failed) dec' d' calls r where "groupOf (dSessionID dec) d" "terminate dec why d = (dec', d')"
      "dEnforced dec' \<longleftrightarrow> calls = [(CallFreeze, dSessionID dec)]" "calls = [] \<or> calls = [(CallFreeze, dSessionID dec)]"
      "dmApplied d' = dmApplied d @ calls" "dmManager d' = dmManager d" "dmApprovals d' = dmApprovals d"
      "dmSessions d' = dmSessions d" "dmProcessors d' = dmProcessors d"
      "dmControl d' = dmControl d @ [Deferred False (dSessionID dec) StateFailed r]"
proof (cases "groupOf (dSessionID dec) d")
  case True
  let ?dec = "fst (terminate dec why d)" and ?d = "snd (terminate dec why d)"
  show thesis
  proof (cases "dmHost d (dmCalls d) CallKill (dSessionID dec)")
    case None
    then show thesis using True killed[of ?dec ?d] by (simp add: terminate_def call_group_simps Let_def)
  next
    case (Some err)
    let ?calls = "if dmHost d (Suc (dmCalls d)) CallFreeze (dSessionID dec) = None
      then [(CallFreeze, dSessionID dec)] else []"
    show thesis
      using True Some failed[of ?dec ?d ?calls] by (simp add: terminate_def call_group_simps Let_def)
  qed
qed (use no_group in \<open>simp add: terminate_def\<close>)

definition in_state :: "lifecycle \<Rightarrow> string \<Rightarrow> daemon \<Rightarrow> bool" where
  "in_state s sid d \<longleftrightarrow> (\<exists>rec. map_of (mgSessions (dmManager d)) sid = Some rec \<and> sesState (mdSession rec) = s)"

lemma view_state [simp]: "sesState (view rec) = sesState (mdSession rec)"
  by (simp add: view_def Let_def)

lemma suspend_cases:
  obtains (already) "in_state StateSuspended sid d" "suspend sid d = (True, d)"
  | (refused) m n where "\<not> in_state StateSuspended sid d"
      "suspend sid d = (False, d\<lparr>dmManager := m, dmCalls := n\<rparr>)" "m = dmManager d \<or> m = with_sv d"
  | (frozen) rec where "\<not> in_state StateSuspended sid d" "map_of (mgSessions (dmManager d)) sid = Some rec"
      "sesState (mdSession rec) = StateActive"
      "suspend sid d = (True, d\<lparr>dmManager := store sid (moved StateSuspended rec) (with_sv d),
        dmCalls := Suc (dmCalls d), dmApplied := dmApplied d @ [(CallFreeze, sid)]\<rparr>)"
proof (cases "map_of (mgSessions (dmManager d)) sid")
  case None
  then show thesis using refused[where m = "dmManager d" and n = "dmCalls d"]
    by (simp add: suspend_def Get_def lookup_def in_state_def)
next
  case (Some rec)
  then have get: "Get sid (dmManager d) = Inr (view rec)" by (simp add: Get_def lookup_def)
  show thesis
  proof (cases "sesState (mdSession rec) = StateSuspended")
    case True
    then show thesis using already Some get by (simp add: suspend_def in_state_def)
  next
    case False
    then have run: "suspend sid d = (let (err, d) = manager_Suspend sid d in (err = None, d))"
      and not_yet: "\<not> in_state StateSuspended sid d"
      using Some get by (simp_all add: suspend_def in_state_def)
    show thesis
    proof (cases rule: manager_Suspend_cases[of sid d])
      case (refused e n)
      then show thesis using that(2)[OF not_yet, where m = "with_sv d" and n = n] by (simp add: run)
    next
      case (taken rec)
      then show thesis using that(3)[OF not_yet taken(1,2)] by (simp add: run)
    qed
  qed
qed

text \<open>When approval is asked for, and when it can be.\<close>

definition asks :: "decision \<Rightarrow> daemon \<Rightarrow> bool" where
  "asks dec d \<longleftrightarrow> dAction dec = ActionRequestApproval \<and>
     (\<exists>b. Binding (dSessionID dec) (dmManager d) = Some b \<and> bnMode b = ModeInteractive \<and>
        AcceptsEvents (bnLifecycle b))"

lemma contained_simps [simp]: "contained (x, d) = ((x, False), d)"
  by (simp add: contained_def)

lemma react_contain_cases:
  obtains (quiet) w where "react_contain dec d = ((dec, False), d) \<or> react_contain dec d = ((annotate False w dec, False), d)"
      "\<not> asks dec d"
  | (contain) why where "react_contain dec d = contained (terminate dec why d)" "\<not> asks dec d"
  | (unsuspended) d1 why where "asks dec d" "suspend (dSessionID dec) d = (False, d1)"
      "react_contain dec d = contained (terminate dec why d1)"
  | (ask) d1 where "asks dec d" "suspend (dSessionID dec) d = (True, d1)"
      "react_contain dec d = ((annotate True (lit ''session frozen pending approval by its owner'') dec, True), d1)"
proof (cases "asks dec d")
  case True
  then show thesis
    using that(3,4) by (cases "suspend (dSessionID dec) d"; cases "fst (suspend (dSessionID dec) d)")
      (auto simp: asks_def react_contain_def)
next
  case False
  show thesis
  proof (cases "(dAction dec = ActionRequestApproval \<or> dAction dec = ActionBlock) \<and>
      (\<exists>b. Binding (dSessionID dec) (dmManager d) = Some b \<and> AcceptsEvents (bnLifecycle b))")
    case True
    then obtain b where b: "Binding (dSessionID dec) (dmManager d) = Some b" "AcceptsEvents (bnLifecycle b)"
      by blast
    have act: "dAction dec = ActionRequestApproval \<or> dAction dec = ActionBlock" using True by blast
    show thesis
    proof (cases "bnMode b")
      case ModeMonitor
      then have "react_contain dec d = ((annotate False (lit ''monitor mode: recorded, not applied'') dec, False), d)"
        using act b by (auto simp: react_contain_def)
      then show thesis using that(1)[OF disjI2 False] by blast
    next
      case ModeWarn
      then have "react_contain dec d = ((annotate False (lit ''warn mode: recorded, not applied'') dec, False), d)"
        using act b by (auto simp: react_contain_def)
      then show thesis using that(1)[OF disjI2 False] by blast
    next
      case ModeInteractive
      then have "react_contain dec d = contained (terminate dec ''blocked by policy'' d)"
        using act b False by (auto simp: react_contain_def asks_def)
      then show thesis using that(2)[OF _ False] by blast
    next
      case ModeEnforce
      then have "react_contain dec d =
          contained (terminate dec (action_string (dAction dec) @ '' in enforce mode, with no human to ask'') d)"
        using act b by (auto simp: react_contain_def)
      then show thesis using that(2)[OF _ False] by blast
    next
      case (ModeOther x)
      then have "react_contain dec d = ((dec, False), d)" using act b by (auto simp: react_contain_def)
      then show thesis using that(1)[OF disjI1 False] by blast
    qed
  next
    case no: False
    then have "react_contain dec d = ((dec, False), d)" by (auto simp: react_contain_def split: option.splits)
    then show thesis using that(1)[OF _ False] by blast
  qed
qed

definition asked :: "time \<Rightarrow> decision \<Rightarrow> daemon \<Rightarrow> decision \<times> daemon" where
  "asked now dec d =
     (let dec = annotate True (lit ''session frozen pending approval by its owner'') dec
      in (dec, d\<lparr>dmApprovals := open_request (dmPolicy d) now dec (dmApprovals d)\<rparr>))"

lemma react_cases:
  obtains (quiet) w where "react now dec d = (dec, d) \<or> react now dec d = (annotate False w dec, d)" "\<not> asks dec d"
  | (contain) why where "react now dec d = terminate dec why d" "\<not> asks dec d"
  | (unsuspended) d1 why where "asks dec d" "suspend (dSessionID dec) d = (False, d1)"
      "react now dec d = terminate dec why d1"
  | (ask) d1 where "asks dec d" "suspend (dSessionID dec) d = (True, d1)" "react now dec d = asked now dec d1"
proof (cases rule: react_contain_cases[of dec d])
  case (quiet w)
  then have "react now dec d = (dec, d) \<or> react now dec d = (annotate False w dec, d)" by (auto simp: react_def)
  then show thesis using that(1) quiet(2) by blast
next
  case (contain why)
  then show thesis using that(2)[of why] by (simp add: react_def contained_def split: prod.splits)
next
  case (unsuspended d1 why)
  then show thesis using that(3)[of d1 why] by (simp add: react_def contained_def split: prod.splits)
next
  case (ask d1)
  then show thesis using that(4)[of d1] by (simp add: react_def asked_def react_ask_def Let_def)
qed

lemma record_ops_state:
  "map_of (mgSessions (record_ops sid ops m)) k =
     (case map_of (mgSessions m) k of
        None \<Rightarrow> None
      | Some rec \<Rightarrow> Some (if k = sid then rec\<lparr>mdState := run_ops ops (mdState rec)\<rparr> else rec))"
  by (auto simp: record_ops_def split: option.splits)

text \<open>What the containment of one decision applies.\<close>

lemma terminate_applied:
  assumes "terminate dec why d = (dec', d')"
  shows "\<exists>calls. dmApplied d' = dmApplied d @ calls \<and>
    set calls \<subseteq> {(CallKill, dSessionID dec), (CallFreeze, dSessionID dec)} \<and> (dEnforced dec' \<longleftrightarrow> calls \<noteq> [])"
  by (cases rule: terminate_cases[of dec d why]) (use assms in auto)

lemma suspend_applied:
  assumes "suspend sid d = (b, d')"
  shows "(b \<longrightarrow> in_state StateSuspended sid d \<and> d' = d \<or> dmApplied d' = dmApplied d @ [(CallFreeze, sid)]) \<and>
    (\<not> b \<longrightarrow> dmApplied d' = dmApplied d \<and> \<not> in_state StateSuspended sid d)"
  by (cases rule: suspend_cases[of sid d]) (use assms in auto)

section \<open>What the daemon keeps\<close>

text \<open>
  \<open>frozen\<close>: the last freeze or thaw of a group that succeeded was a freeze. \<open>daemon_ok\<close>: the parts keep
  their own invariants, every processor belongs to a sound pipeline, and a session recorded as
  suspended is frozen.
\<close>

definition frozen :: "string \<Rightarrow> daemon \<Rightarrow> bool" where
  "frozen sid d \<longleftrightarrow>
     (let calls = filter (\<lambda>(c, s). s = sid \<and> (c = CallFreeze \<or> c = CallThaw)) (dmApplied d)
      in calls \<noteq> [] \<and> fst (last calls) = CallFreeze)"

definition suspended_frozen :: "daemon \<Rightarrow> bool" where
  "suspended_frozen d \<longleftrightarrow> (\<forall>sid. in_state StateSuspended sid d \<longrightarrow> frozen sid d)"

definition waiting_suspended :: "daemon \<Rightarrow> bool" where
  "waiting_suspended d \<longleftrightarrow> (\<forall>sid. waiting sid (dmApprovals d) \<longrightarrow> in_state StateSuspended sid d)"

definition parts_ok :: "daemon \<Rightarrow> bool" where
  "parts_ok d \<longleftrightarrow> manager_ok (dmManager d) \<and> approvals_ok (dmApprovals d) \<and> suspended_frozen d"

lemma frozen_append:
  "dmApplied d' = dmApplied d @ [(c, s)] \<Longrightarrow> frozen sid d' =
     (if s = sid \<and> c = CallFreeze then True else if s = sid \<and> c = CallThaw then False else frozen sid d)"
  by (cases c) (auto simp: frozen_def Let_def)

lemma frozen_cong: "dmApplied d' = dmApplied d \<Longrightarrow> frozen sid d' = frozen sid d"
  by (simp add: frozen_def)

text \<open>A step that only freezes, kills or removes keeps what is frozen.\<close>

lemma frozen_kept:
  assumes "dmApplied d' = dmApplied d @ calls" "\<forall>c\<in>set calls. fst c \<noteq> CallThaw" "frozen sid d"
  shows "frozen sid d'"
proof -
  let ?f = "\<lambda>xs. filter (\<lambda>(c, s). s = sid \<and> (c = CallFreeze \<or> c = CallThaw)) xs"
  have "\<forall>x\<in>set (?f calls). fst x = CallFreeze" using assms(2) by auto
  then have "?f calls \<noteq> [] \<Longrightarrow> fst (last (?f calls)) = CallFreeze" by (metis last_in_set)
  then show ?thesis using assms(1,3) by (auto simp: frozen_def Let_def last_append)
qed

lemma suspended_frozenI:
  assumes "suspended_frozen d" "dmApplied d' = dmApplied d @ calls" "\<forall>c\<in>set calls. fst c \<noteq> CallThaw"
    and "\<And>sid. in_state StateSuspended sid d' \<Longrightarrow> in_state StateSuspended sid d \<or> frozen sid d'"
  shows "suspended_frozen d'"
  using assms frozen_kept[OF assms(2,3)] by (auto simp: suspended_frozen_def)

lemma in_state_with_sv [simp]: "in_state s sid (d\<lparr>dmManager := with_sv d, dmCalls := n\<rparr>) = in_state s sid d"
  by (simp add: in_state_def)

lemma in_state_cong: "mgSessions (dmManager d') = mgSessions (dmManager d) \<Longrightarrow> in_state s sid d' = in_state s sid d"
  by (simp add: in_state_def)

lemma moved_ok:
  assumes "manager_ok m" "map_of (mgSessions m) sid = Some rec"
    and "sesState (mdSession rec) = StateActive \<and> final = StateSuspended \<or>
      sesState (mdSession rec) = StateSuspended \<and> final = StateActive"
  shows "manager_ok (store sid (moved final rec) m)"
proof -
  have m: "sessions_ok m" using assms(1) by (simp add: manager_ok_def)
  note rec = sessions_ok_lookup[OF m assms(2)]
  have "session_ok (mgRequireApproval m) (moved final rec)"
    using assms(3)
    by (elim disjE conjE) (use rec(2) in \<open>simp_all add: session_ok_def lifecycle_defs Let_def\<close>)
  then show ?thesis
    using assms(1,3) store_ok[OF m] rec(1) store_ended[of "moved final rec" sid m]
    by (auto simp: manager_ok_def lifecycle_defs)
qed

lemma suspend_parts:
  assumes "suspend sid d = (b, d')" "parts_ok d"
  shows "parts_ok d' \<and> dmApprovals d' = dmApprovals d \<and> dmProcessors d' = dmProcessors d \<and>
    dmSessions d' = dmSessions d \<and> dmControl d' = dmControl d \<and>
    (b \<longrightarrow> in_state StateSuspended sid d') \<and> (\<forall>s. in_state StateSuspended s d \<longrightarrow> in_state StateSuspended s d')"
proof (cases rule: suspend_cases[of sid d])
  case already
  then show ?thesis using assms by simp
next
  case (refused m n)
  then have d': "d' = d\<lparr>dmManager := m, dmCalls := n\<rparr>" "\<not> b" using assms(1) by auto
  have m: "mgSessions m = mgSessions (dmManager d)" "manager_ok m" using refused(3) assms(2) by (auto simp: parts_ok_def)
  then have "suspended_frozen d'"
    using assms(2) suspended_frozenI[of d d' "[]"] by (auto simp: d' parts_ok_def in_state_def)
  then show ?thesis using assms(2) m d' by (auto simp: parts_ok_def in_state_def)
next
  case (frozen rec)
  let ?d = "d\<lparr>dmManager := store sid (moved StateSuspended rec) (with_sv d),
      dmCalls := Suc (dmCalls d), dmApplied := dmApplied d @ [(CallFreeze, sid)]\<rparr>"
  have d': "d' = ?d" using frozen assms(1) by simp
  have st: "in_state StateSuspended s ?d \<longleftrightarrow> s = sid \<or> in_state StateSuspended s d" for s
    by (auto simp: in_state_def)
  have "manager_ok (dmManager ?d)"
    using assms(2) moved_ok[of "with_sv d" sid rec StateSuspended] frozen(2,3) by (simp add: parts_ok_def)
  moreover have "suspended_frozen ?d"
    using assms(2) by (rule_tac suspended_frozenI[of d _ "[(CallFreeze, sid)]"])
      (auto simp: st parts_ok_def frozen_append[of ?d d CallFreeze sid])
  ultimately show ?thesis
    using assms(2) st by (auto simp: d' parts_ok_def)
qed

text \<open>Steps that neither thaw nor suspend: what they must keep, and what follows.\<close>

definition no_thaw :: "daemon \<Rightarrow> daemon \<Rightarrow> bool" where
  "no_thaw d d' \<longleftrightarrow> (\<exists>calls. dmApplied d' = dmApplied d @ calls \<and> (\<forall>c\<in>set calls. fst c \<noteq> CallThaw)) \<and>
     (\<forall>sid. in_state StateSuspended sid d' \<longrightarrow> in_state StateSuspended sid d)"

lemma no_thaw_refl [simp]: "no_thaw d d"
  by (simp add: no_thaw_def)

lemma no_thaw_trans:
  assumes "no_thaw d1 d2" "no_thaw d2 d3"
  shows "no_thaw d1 d3"
proof -
  obtain xs ys where "dmApplied d2 = dmApplied d1 @ xs" "dmApplied d3 = dmApplied d2 @ ys"
    "\<forall>c\<in>set xs. fst c \<noteq> CallThaw" "\<forall>c\<in>set ys. fst c \<noteq> CallThaw"
    using assms by (auto simp: no_thaw_def)
  then have "dmApplied d3 = dmApplied d1 @ (xs @ ys) \<and> (\<forall>c\<in>set (xs @ ys). fst c \<noteq> CallThaw)" by auto
  then show ?thesis using assms unfolding no_thaw_def by blast
qed

lemma no_thaw_frozen: "no_thaw d d' \<Longrightarrow> suspended_frozen d \<Longrightarrow> suspended_frozen d'"
  using suspended_frozenI by (auto simp: no_thaw_def)

lemma no_thaw_same:
  "dmApplied d' = dmApplied d \<Longrightarrow> mgSessions (dmManager d') = mgSessions (dmManager d) \<Longrightarrow> no_thaw d d'"
  by (simp add: no_thaw_def in_state_def)

lemma call_group_parts:
  assumes "call_group c sid d = (r, d')" "c \<noteq> CallThaw"
  shows "no_thaw d d' \<and> dmManager d' = dmManager d \<and> dmApprovals d' = dmApprovals d \<and>
    dmProcessors d' = dmProcessors d \<and> dmSessions d' = dmSessions d \<and> dmInFlight d' = dmInFlight d"
  using assms by (auto simp: call_group_simps no_thaw_def in_state_def)

lemma kill_and_remove_parts:
  "no_thaw d (kill_and_remove sid d) \<and> dmManager (kill_and_remove sid d) = dmManager d \<and>
    dmApprovals (kill_and_remove sid d) = dmApprovals d \<and>
    dmProcessors (kill_and_remove sid d) = dmProcessors d \<and> dmInFlight (kill_and_remove sid d) = dmInFlight d"
proof -
  obtain r1 d1 where one: "call_group CallKill sid d = (r1, d1)" by fastforce
  obtain r2 d2 where two: "call_group CallRemove sid d1 = (r2, d2)" by fastforce
  show ?thesis
    using call_group_parts[OF one] call_group_parts[OF two] no_thaw_trans[of d d1 d2] one two
    by (simp add: kill_and_remove_def)
qed

text \<open>Ending a session leaves no suspended session behind and no other one changed.\<close>

lemma End_suspended:
  assumes "manager_ok m" "End sid oc now m = (err, evicted, m')"
  shows "map_of (mgSessions m') s = Some rec \<Longrightarrow> sesState (mdSession rec) = StateSuspended \<Longrightarrow>
      map_of (mgSessions m) s = Some rec" (is "_ \<Longrightarrow> _ \<Longrightarrow> ?kept")
    and "s \<noteq> sid \<Longrightarrow> map_of (mgSessions m) s = Some rec \<Longrightarrow> \<not> IsTerminal (sesState (mdSession rec)) \<Longrightarrow>
      map_of (mgSessions m') s = Some rec" (is "_ \<Longrightarrow> _ \<Longrightarrow> _ \<Longrightarrow> ?stays")
proof (atomize (full), cases rule: End_cases[of sid oc now m])
  case (refused err)
  then show "(map_of (mgSessions m') s = Some rec \<longrightarrow> sesState (mdSession rec) = StateSuspended \<longrightarrow> ?kept) \<and>
      (s \<noteq> sid \<longrightarrow> map_of (mgSessions m) s = Some rec \<longrightarrow> \<not> IsTerminal (sesState (mdSession rec)) \<longrightarrow> ?stays)"
    using assms(2) by simp
next
  case (ended rec1 rec2)
  have m: "sessions_ok m" using assms(1) by (simp add: manager_ok_def)
  note rec1 = sessions_ok_lookup[OF m ended(1)]
  note rec2 = end_body_ok[OF rec1(2) ended(3,4)]
  let ?m = "store sid rec2 m"
  have ok: "sessions_ok ?m" using rec1(1) rec2 store_ok[OF m] by simp
  have m': "m' = snd (evictEnded ?m)" using ended(5) assms(2) by (metis prod.inject prod.collapse)
  have ended: "sesState (mdSession rec2) \<noteq> StateSuspended"
    using rec2 ended(3) by (auto simp: IsTerminal_def TerminalStates_def)
  have after: "map_of (mgSessions m') s \<in> {None, map_of (mgSessions ?m) s}"
    using evictEnded_lookup(1)[OF ok] m' by simp
  have "?kept" if "map_of (mgSessions m') s = Some rec" "sesState (mdSession rec) = StateSuspended"
  proof -
    have "map_of (mgSessions ?m) s = Some rec" using that(1) after by simp
    then show ?kept using that(2) ended by (simp split: if_splits)
  qed
  moreover have "?stays" if "s \<noteq> sid" "map_of (mgSessions m) s = Some rec"
    "\<not> IsTerminal (sesState (mdSession rec))"
    using evictEnded_lookup(2)[OF ok, of s rec] that m' by simp
  ultimately show "(map_of (mgSessions m') s = Some rec \<longrightarrow> sesState (mdSession rec) = StateSuspended \<longrightarrow> ?kept) \<and>
      (s \<noteq> sid \<longrightarrow> map_of (mgSessions m) s = Some rec \<longrightarrow> \<not> IsTerminal (sesState (mdSession rec)) \<longrightarrow> ?stays)"
    by blast
qed

lemma finish_parts:
  assumes "parts_ok d"
  shows "parts_ok (finish now sid result reason d) \<and>
    dmInFlight (finish now sid result reason d) = dmInFlight d \<and>
    (waiting_suspended d \<longrightarrow> waiting_suspended (finish now sid result reason d))"
proof -
  let ?d1 = "kill_and_remove sid d"
  note kill = kill_and_remove_parts[of d sid]
  let ?oc = "case State sid (dmManager d) of
      None \<Rightarrow> zero_outcome\<lparr>soResult := result, soReason := reason\<rparr>
    | Some st \<Rightarrow> telemetry_note ((Outcome reason (Some st))\<lparr>soResult := result\<rparr>)"
  obtain err evicted m where e: "End sid ?oc now (dmManager d) = (err, evicted, m)"
    by (metis prod.collapse)
  let ?d2 = "finish now sid result reason d"
  have d2: "dmManager ?d2 = m" "dmApplied ?d2 = dmApplied ?d1" "dmInFlight ?d2 = dmInFlight d"
    "dmApprovals ?d2 = cancelSession sid (dmApprovals d)"
    using kill e by (simp_all add: finish_def Let_def)
  have mok: "manager_ok m" using End_ok[of "dmManager d" sid ?oc now] assms e by (simp add: parts_ok_def)
  have old: "manager_ok (dmManager d)" using assms by (simp add: parts_ok_def)
  have kept: "in_state StateSuspended s d" if "in_state StateSuspended s ?d2" for s
    using that End_suspended(1)[OF old e] unfolding in_state_def d2 by blast
  have "no_thaw d ?d2"
    using kill kept unfolding no_thaw_def d2 by blast
  then have "suspended_frozen ?d2" using no_thaw_frozen assms by (simp add: parts_ok_def)
  then have "parts_ok ?d2" using mok d2 cancelSession_ok assms by (simp add: parts_ok_def)
  moreover have "waiting_suspended ?d2" if w: "waiting_suspended d"
    unfolding waiting_suspended_def
  proof (intro allI impI)
    fix s
    assume "waiting s (dmApprovals ?d2)"
    then have s: "s \<noteq> sid" "waiting s (dmApprovals d)"
      unfolding d2 by (auto simp: waiting_def cancelSession_def)
    then obtain rec where "map_of (mgSessions (dmManager d)) s = Some rec" "sesState (mdSession rec) = StateSuspended"
      using w by (auto simp: waiting_suspended_def in_state_def)
    then show "in_state StateSuspended s ?d2"
      using End_suspended(2)[OF old e s(1)] unfolding in_state_def d2 by (simp add: lifecycle_defs)
  qed
  ultimately show ?thesis using d2(3) by simp
qed

lemma failSessionAs_parts:
  assumes "parts_ok d"
  shows "parts_ok (failSessionAs now sid result reason d) \<and>
    dmInFlight (failSessionAs now sid result reason d) = dmInFlight d \<and>
    (waiting_suspended d \<longrightarrow> waiting_suspended (failSessionAs now sid result reason d))"
  using finish_parts[OF assms] assms by (simp add: failSessionAs_def split: sum.split)

text \<open>\<open>keeps d d'\<close>: a step keeps the parts, the answers in flight, and what waits stays suspended.\<close>

definition keeps :: "daemon \<Rightarrow> daemon \<Rightarrow> bool" where
  "keeps d d' \<longleftrightarrow> (parts_ok d \<longrightarrow> parts_ok d' \<and> dmInFlight d' = dmInFlight d \<and>
     (waiting_suspended d \<longrightarrow> waiting_suspended d'))"

lemma keeps_refl [simp]: "keeps d d"
  by (simp add: keeps_def)

lemma keeps_trans: "keeps d1 d2 \<Longrightarrow> keeps d2 d3 \<Longrightarrow> keeps d1 d3"
  by (simp add: keeps_def)

lemma keeps_fold: "(\<And>x d. keeps d (f x d)) \<Longrightarrow> keeps d (fold f xs d)"
  by (induction xs arbitrary: d) (auto intro: keeps_trans)

lemma keeps_finish: "keeps d (finish now sid result reason d)"
  using finish_parts by (simp add: keeps_def)

lemma keeps_failSessionAs: "keeps d (failSessionAs now sid result reason d)"
  using failSessionAs_parts by (simp add: keeps_def)

text \<open>A step that leaves the sessions, the groups and the approvals alone.\<close>

lemma keeps_same:
  assumes "dmApplied d' = dmApplied d" "dmApprovals d' = dmApprovals d" "dmInFlight d' = dmInFlight d"
    and "mgSessions (dmManager d') = mgSessions (dmManager d)" "manager_ok (dmManager d) \<Longrightarrow> manager_ok (dmManager d')"
  shows "keeps d d'"
proof -
  have "no_thaw d d'" using no_thaw_same[OF assms(1,4)] .
  then have "suspended_frozen d \<Longrightarrow> suspended_frozen d'" using no_thaw_frozen by blast
  moreover have "in_state s sid d' = in_state s sid d" for s sid using assms(4) by (simp add: in_state_def)
  ultimately show ?thesis using assms by (simp add: keeps_def parts_ok_def waiting_suspended_def)
qed

lemma keeps_later: "keeps d (later f d)"
  by (rule keeps_same) (simp_all add: later_def)

lemma keeps_call:
  assumes "call_group c sid d = (r, d')" "c \<noteq> CallThaw"
  shows "keeps d d'"
proof -
  note p = call_group_parts[OF assms]
  then have "suspended_frozen d \<Longrightarrow> suspended_frozen d'" using no_thaw_frozen by blast
  moreover have "in_state s sid d' = in_state s sid d" for s sid using p by (simp add: in_state_def)
  ultimately show ?thesis using p by (simp add: keeps_def parts_ok_def waiting_suspended_def)
qed

lemma keeps_record_ops: "keeps d (d\<lparr>dmManager := record_ops sid ops (dmManager d)\<rparr>)" (is "keeps d ?d")
proof -
  have st: "in_state s k ?d = in_state s k d" for s k
    by (auto simp: in_state_def record_ops_state split: option.splits if_splits)
  then have "no_thaw d ?d" by (simp add: no_thaw_def)
  then have "suspended_frozen d \<Longrightarrow> suspended_frozen ?d" using no_thaw_frozen by blast
  then show ?thesis
    using st record_ops_ok by (simp add: keeps_def parts_ok_def waiting_suspended_def)
qed

lemma keeps_terminate:
  assumes "terminate dec why d = (dec', d')"
  shows "keeps d d'"
proof (cases "groupOf (dSessionID dec) d")
  case True
  obtain r d1 where kill: "call_group CallKill (dSessionID dec) d = (r, d1)" by fastforce
  show ?thesis
  proof (cases r)
    case None
    then show ?thesis
      using assms True kill keeps_trans[OF keeps_call[OF kill] keeps_trans[OF keeps_record_ops keeps_later]]
      by (auto simp: terminate_def Let_def)
  next
    case (Some err)
    obtain r2 d2 where freeze: "call_group CallFreeze (dSessionID dec) d1 = (r2, d2)" by fastforce
    show ?thesis
      using assms True kill Some freeze
        keeps_trans[OF keeps_call[OF kill] keeps_trans[OF keeps_call[OF freeze] keeps_later]]
      by (auto simp: terminate_def Let_def)
  qed
qed (use assms in \<open>simp add: terminate_def\<close>)

lemma keeps_suspend:
  assumes "suspend sid d = (b, d')"
  shows "keeps d d'"
proof -
  have "dmInFlight d' = dmInFlight d"
    by (cases rule: suspend_cases[of sid d]) (use assms in auto)
  then show ?thesis using suspend_parts[OF assms] by (simp add: keeps_def waiting_suspended_def)
qed

text \<open>The first half of a reaction; where a request is to follow, it leaves the session suspended.\<close>

lemma keeps_contain:
  assumes "react_contain dec d = ((dec', ask), d')"
  shows "keeps d d' \<and> (ask \<longrightarrow> parts_ok d \<longrightarrow> in_state StateSuspended (dSessionID dec') d')"
proof (cases rule: react_contain_cases[of dec d])
  case (contain why)
  then show ?thesis using keeps_terminate[of dec why d dec' d'] assms by (auto simp: contained_def split: prod.splits)
next
  case (unsuspended d1 why)
  then show ?thesis
    using keeps_trans[OF keeps_suspend[OF unsuspended(2)] keeps_terminate[of dec why d1 dec' d']] assms
    by (auto simp: contained_def split: prod.splits)
next
  case (ask d1)
  then show ?thesis using keeps_suspend[OF ask(2)] suspend_parts[OF ask(2)] assms by auto
qed (use assms in auto)

text \<open>The second half: a request is opened, for a session that must still be suspended.\<close>

lemma react_ask_parts:
  assumes "parts_ok d"
  shows "parts_ok (react_ask now dec d) \<and> dmInFlight (react_ask now dec d) = dmInFlight d \<and>
    (waiting_suspended d \<and> in_state StateSuspended (dSessionID dec) d \<longrightarrow> waiting_suspended (react_ask now dec d))"
proof -
  let ?d = "react_ask now dec d"
  have st: "in_state s k ?d = in_state s k d" for s k by (simp add: react_ask_def in_state_def)
  have opened: "s = dSessionID dec \<or> waiting s (dmApprovals d)" if "waiting s (dmApprovals ?d)" for s
    using that set_update_subset
    by (fastforce simp: react_ask_def waiting_def open_request_def Let_def request_session_def split: if_splits)
  have "no_thaw d ?d" unfolding no_thaw_def by (simp add: st) (simp add: react_ask_def)
  then have "suspended_frozen ?d" using no_thaw_frozen assms by (simp add: parts_ok_def)
  moreover have "approvals_ok (dmApprovals ?d)"
    unfolding react_ask_def by (simp, rule open_request_ok) (use assms in \<open>simp add: parts_ok_def\<close>)
  ultimately show ?thesis
    using assms opened by (auto simp: parts_ok_def waiting_suspended_def st) (simp_all add: react_ask_def)
qed

lemma keeps_react:
  assumes "react now dec d = (dec', d')"
  shows "keeps d d'"
proof -
  obtain ask d1 where one: "react_contain dec d = ((dec', ask), d1)" "d' = (if ask then react_ask now dec' d1 else d1)"
    using assms by (auto simp: react_def split: prod.splits)
  note k = keeps_contain[OF one(1)]
  show ?thesis
  proof (cases ask)
    case True
    then show ?thesis
      using k react_ask_parts[of d1 now dec'] one(2) by (simp add: keeps_def)
  qed (use k one(2) in simp)
qed

section \<open>Events\<close>

definition any_sound :: "pipeline \<Rightarrow> bool" where
  "any_sound p \<longleftrightarrow> pipeline_sound (plSessionID p) p"

definition processors_ok :: "pipeline dispatcher \<Rightarrow> bool" where
  "processors_ok disp \<longleftrightarrow>
     (\<exists>now dv r eng. dsFactory disp = pipeline_factory now (validator_of dv) r (policy_of eng)) \<and>
     (\<forall>sid p. map_of (dsProcessors disp) sid = Some p \<longrightarrow> any_sound p)"

lemma recordings_ok:
  assumes "state_ok s"
  shows "state_ok (rEvent e s)" "state_ok (rDecision d s)" "state_ok (rAllowed e d s)" "state_ok (rGrantUse i s)"
  using assms state_ok_apply[of s "OpEvent e"] state_ok_apply[of s "OpDecision d"]
    state_ok_apply[of s "OpAllowed e d"] state_ok_apply[of s "OpGrantUse i"] by simp_all

lemma commit_state_ok:
  assumes "staged dv env e s pc" "state_ok s"
  shows "\<exists>s'. commit pc = Some s' \<and> state_ok s'"
proof -
  obtain v where "pcEvent pc = Some e" "pcState pc = Some s" "pcValidation pc = Some v"
    using assms(1) by (auto simp: staged_def)
  then show ?thesis
    by (cases "pcDecision pc") (simp_all add: commit_def RecordGrantUse_def RecordEvent_def
      RecordDecision_def RecordAllowed_def recordings_ok assms(2) Let_def)
qed

lemma pipeline_state_ok:
  assumes "any_sound p" "plState p = Some s" "state_ok s"
  shows "any_sound (snd (pipeline_processor e p)) \<and>
    (\<exists>s'. plState (snd (pipeline_processor e p)) = Some s' \<and> state_ok s')"
proof -
  obtain dv eng env where p: "governed dv eng p" "plEnvelope p = Some env" "plHandler p = NewErrorHandler"
    using assms(1) by (auto simp: any_sound_def pipeline_sound_def)
  let ?p0 = "p\<lparr>plTick := Suc (plTick p)\<rparr>"
  let ?pc0 = "new_context (Some e) (plNow p (plTick p)) ?p0"
  have ctx: "pcEvent ?pc0 = Some e" "pcEnvelope ?pc0 = Some env" "pcState ?pc0 = Some s" "pcOutcome ?pc0 = None"
    using p(2) assms(2) by (simp_all add: new_context_def)
  obtain pc1 p1 where d: "decide_event ?pc0 ?p0 = Some (pc1, p1)" and st: "staged dv env e s pc1"
    using decide_event_staged[OF p(1) _ ctx, of ?p0] by auto
  obtain s' where s': "commit pc1 = Some s'" "state_ok s'" using commit_state_ok[OF st assms(3)] by blast
  have state: "plState (snd (pipeline_processor e p)) = Some s'"
    using d s'(1) by (simp add: pipeline_processor_def Process_def ProcessContext_def read_now_def Let_def)
  note sound = pipeline_sound_process[of "plSessionID p" p e]
  then have "any_sound (snd (pipeline_processor e p))"
    using assms(1) by (auto simp: any_sound_def pipeline_sound_def)
  then show ?thesis using state s'(2) by blast
qed

lemma factory_any_sound:
  assumes "pipeline_factory now (validator_of dv) r (policy_of eng) b = Inr (Some p)"
  shows "any_sound p \<and> plState p = Some (bnState b)"
  using assms
  by (auto simp: pipeline_factory_def NewWithRisk_def NewBuilder_def WithStage_def Build_def Let_def
      NewValidateStage_def NewScoreStage_def NewDecideStage_def any_sound_def pipeline_sound_def
      governed_def split: if_splits)

text \<open>Where a cached processor comes from.\<close>

lemma Dispatch_processor:
  assumes "Dispatch process reg (Some e) disp = (r, disp')" "faithful reg"
    and "map_of (dsProcessors disp') sid = Some p'"
  obtains (same) "map_of (dsProcessors disp) sid = Some p'"
  | (ran) p where "map_of (dsProcessors disp) sid = Some p" "sid = evSessionID e" "p' = snd (process e p)"
  | (built) p b where "dsFactory disp b = Inr (Some p)" "reg sid = Some b" "sid = evSessionID e" "p' = snd (process e p)"
proof (cases "sid = evSessionID e")
  case False
  then show thesis using same Dispatch_other[OF assms(2,1), of sid] assms(3) by simp
next
  case True
  show thesis
  proof (cases "reg sid")
    case None
    then show thesis using assms(1,3) True same by (auto simp: Dispatch_def Let_def split: if_splits)
  next
    case (Some b)
    then have b: "bnSessionID b = sid" using assms(2) by (auto simp: faithful_def)
    show thesis
    proof (cases "sid = [] \<or> \<not> AcceptsEvents (bnLifecycle b)")
      case closed: True
      then show thesis using assms(1,3) True Some same
        by (auto simp: Dispatch_def Let_def Release_simps split: if_splits)
    next
      case accepting: False
      show thesis
      proof (cases "map_of (dsProcessors disp) sid")
        case (Some p)
        then have "p' = snd (process e p)"
          using assms(1,3) True \<open>reg sid = Some b\<close> b accepting
          by (auto simp: Dispatch_def Let_def processorFor_def run_processor_def update_conv'
              split: prod.splits sum.splits)
        then show thesis using ran[OF Some True] by blast
      next
        case None
        then obtain p where "dsFactory disp b = Inr (Some p)" "p' = snd (process e p)"
          using assms(1,3) True \<open>reg sid = Some b\<close> b accepting
          by (auto simp: Dispatch_def Let_def processorFor_def run_processor_def update_conv'
              split: prod.splits sum.splits option.splits)
        then show thesis using built[OF _ \<open>reg sid = Some b\<close> True] by blast
      qed
    qed
  qed
qed

lemma load_state_simps [simp]:
  "dmManager (load_state sid d) = dmManager d" "dmApplied (load_state sid d) = dmApplied d"
  "dmApprovals (load_state sid d) = dmApprovals d" "dmInFlight (load_state sid d) = dmInFlight d"
  "dsFactory (dmProcessors (load_state sid d)) = dsFactory (dmProcessors d)"
  by (auto simp: load_state_def split: option.split)

lemma load_state_processors:
  assumes "map_of (dsProcessors (dmProcessors (load_state sid d))) k = Some p"
  shows "\<exists>q. map_of (dsProcessors (dmProcessors d)) k = Some q \<and>
    (p = q \<or> k = sid \<and> (\<exists>st. State sid (dmManager d) = Some st \<and> p = q\<lparr>plState := Some st\<rparr>))"
    and "k = sid \<Longrightarrow> State sid (dmManager d) = Some st \<Longrightarrow> plState p = Some st"
  using assms by (auto simp: load_state_def update_conv' split: option.splits if_splits)

lemma any_sound_state: "any_sound p \<Longrightarrow> any_sound (p\<lparr>plState := Some st\<rparr>)"
  by (auto simp: any_sound_def pipeline_sound_def governed_def)

lemma store_state_cases:
  obtains (none) "store_state sid d = d"
  | (stored) p rec st where "map_of (dsProcessors (dmProcessors d)) sid = Some p" "plState p = Some st"
      "map_of (mgSessions (dmManager d)) sid = Some rec"
      "store_state sid d = d\<lparr>dmManager := store sid (rec\<lparr>mdState := st\<rparr>) (dmManager d)\<rparr>"
proof (cases "map_of (dsProcessors (dmProcessors d)) sid")
  case p: (Some p)
  show thesis
  proof (cases "map_of (mgSessions (dmManager d)) sid")
    case rec: (Some rec)
    show thesis
    proof (cases "plState p")
      case (Some st)
      then show thesis using stored[OF p Some rec] p rec by (simp add: store_state_def)
    qed (use none p rec in \<open>simp add: store_state_def\<close>)
  qed (use none p in \<open>simp add: store_state_def\<close>)
qed (use none in \<open>simp add: store_state_def\<close>)

lemma keeps_store_state:
  assumes "\<And>p st. parts_ok d \<Longrightarrow> map_of (dsProcessors (dmProcessors d)) sid = Some p \<Longrightarrow>
      plState p = Some st \<Longrightarrow> map_of (mgSessions (dmManager d)) sid \<noteq> None \<Longrightarrow> state_ok st"
  shows "keeps d (store_state sid d)"
proof (cases rule: store_state_cases[of sid d])
  case (stored p rec st)
  let ?d = "store_state sid d"
  have st: "in_state s k ?d = in_state s k d" for s k
    using stored(3) by (auto simp: stored(4) in_state_def)
  then have "no_thaw d ?d" using stored(4) by (simp add: no_thaw_def)
  then have "suspended_frozen d \<Longrightarrow> suspended_frozen ?d" using no_thaw_frozen by blast
  moreover have "manager_ok (dmManager ?d)" if "parts_ok d"
    using set_state_ok[OF _ stored(3)] assms[OF that stored(1,2)] stored(3,4) that by (simp add: parts_ok_def)
  ultimately show ?thesis using st stored(4) by (simp add: keeps_def parts_ok_def waiting_suspended_def)
qed simp

lemma contain_processors:
  assumes "react_contain dec d = (da, d')"
  shows "dmProcessors d' = dmProcessors d"
proof -
  have terminated: "dmProcessors d2 = dmProcessors d1" if "terminate dec why d1 = (x, d2)" for why d1 x d2
    by (cases rule: terminate_cases[of dec d1 why]) (use that in auto)
  have suspended: "dmProcessors d1 = dmProcessors d" if "suspend (dSessionID dec) d = (b, d1)" for b d1
    by (cases rule: suspend_cases[of "dSessionID dec" d]) (use that in auto)
  show ?thesis
  proof (cases rule: react_contain_cases[of dec d])
    case (contain why)
    then show ?thesis using terminated assms by (auto simp: contained_def split: prod.splits)
  next
    case (unsuspended d1 why)
    then show ?thesis using terminated suspended[OF unsuspended(2)] assms
      by (auto simp: contained_def split: prod.splits)
  next
    case (ask d1)
    then show ?thesis using suspended[OF ask(2)] assms by auto
  qed (use assms in auto)
qed

lemma react_processors:
  assumes "react now dec d = (dec', d')"
  shows "dmProcessors d' = dmProcessors d"
  using assms contain_processors by (auto simp: react_def react_ask_def split: prod.splits if_splits)

lemma keeps_record_decision:
  assumes "record_decision dec d = (err, d')"
  shows "keeps d d' \<and> dmProcessors d' = dmProcessors d"
  using assms by (auto simp: record_decision_def Let_def split: if_splits intro!: keeps_same)

lemma keeps_emit:
  assumes "daemon_emit now dec d = (err, d')"
  shows "keeps d d' \<and> dmProcessors d' = dmProcessors d"
proof -
  obtain dec' d1 where one: "react now dec d = (dec', d1)" by fastforce
  then have two: "record_decision dec' d1 = (err, d')" using assms by (simp add: daemon_emit_def)
  show ?thesis
    using keeps_trans[OF keeps_react[OF one]] react_processors[OF one] keeps_record_decision[OF two] by simp
qed

lemma keeps_tally:
  "keeps d (tally_sink (err, d)) \<and>
    (processors_ok (dmProcessors d) \<longrightarrow> processors_ok (dmProcessors (tally_sink (err, d))))"
  by (auto simp: tally_sink_def processors_ok_def intro!: keeps_same)

lemma processors_load: "processors_ok (dmProcessors d) \<Longrightarrow> processors_ok (dmProcessors (load_state sid d))"
  using load_state_processors(1) any_sound_state by (fastforce simp: processors_ok_def)

lemma manager_faithful: "manager_ok m \<Longrightarrow> faithful (\<lambda>sid. Binding sid m)"
  using sessions_ok_lookup(1) by (fastforce simp: faithful_def Binding_def manager_ok_def)

lemma State_ok: "manager_ok m \<Longrightarrow> State sid m = Some st \<Longrightarrow> state_ok st"
  using sessions_ok_lookup(2) by (fastforce simp: State_def manager_ok_def session_ok_def Let_def)

lemma Binding_state: "Binding sid m = Some b \<Longrightarrow> State sid m = Some (bnState b)"
  by (auto simp: Binding_def State_def)

lemma dispatch_parts:
  assumes ok: "parts_ok d" "processors_ok (dmProcessors d)"
    and run: "Dispatch pipeline_processor (\<lambda>sid. Binding sid (dmManager d)) (Some e)
      (dmProcessors (load_state (evSessionID e) d)) = (r, disp)"
  shows "processors_ok disp \<and> (\<forall>p st. map_of (dsProcessors disp) (evSessionID e) = Some p \<longrightarrow> plState p = Some st \<longrightarrow>
    map_of (mgSessions (dmManager d)) (evSessionID e) \<noteq> None \<longrightarrow> state_ok st)"
proof -
  let ?sid = "evSessionID e" and ?disp = "dmProcessors (load_state (evSessionID e) d)"
  have m: "manager_ok (dmManager d)" using ok(1) by (simp add: parts_ok_def)
  note faithful = manager_faithful[OF m] and loaded = processors_load[OF ok(2), of ?sid]
  obtain now dv r' eng where fact: "dsFactory ?disp = pipeline_factory now (validator_of dv) r' (policy_of eng)"
    using loaded by (auto simp: processors_ok_def)
  have good: "state_ok st" if "map_of (dsProcessors ?disp) ?sid = Some p" "plState p = Some st"
    "map_of (mgSessions (dmManager d)) ?sid \<noteq> None" for p st
  proof -
    from that(3) have "State ?sid (dmManager d) \<noteq> None" by (simp add: State_def)
    then obtain st' where st': "State ?sid (dmManager d) = Some st'" by blast
    then show ?thesis using load_state_processors(2)[OF that(1) refl st'] that(2) State_ok[OF m st'] by simp
  qed
  have each: "any_sound p \<and> (\<forall>st. sid = ?sid \<longrightarrow> plState p = Some st \<longrightarrow>
      map_of (mgSessions (dmManager d)) ?sid \<noteq> None \<longrightarrow> state_ok st)"
    if p: "map_of (dsProcessors disp) sid = Some p" for sid p
    using run faithful p
  proof (cases rule: Dispatch_processor)
    case same
    then show ?thesis using good loaded by (auto simp: processors_ok_def)
  next
    case (ran q)
    then have q: "any_sound q" using loaded by (auto simp: processors_ok_def)
    then obtain st where st: "plState q = Some st" by (auto simp: any_sound_def pipeline_sound_def)
    have "any_sound p" using pipeline_sound_process[of "plSessionID q" q e] q ran(3)
      by (auto simp: any_sound_def pipeline_sound_def)
    moreover have "\<exists>s'. plState p = Some s' \<and> state_ok s'"
      if "map_of (mgSessions (dmManager d)) ?sid \<noteq> None"
      using pipeline_state_ok[OF q st] good[of q st] ran st that by auto
    ultimately show ?thesis by auto
  next
    case (built q b)
    note q = factory_any_sound[OF built(1)[unfolded fact]]
    have "state_ok (bnState b)" using State_ok[OF m Binding_state[OF built(2)]] .
    then show ?thesis using pipeline_state_ok[of q "bnState b" e] q built(4) by auto
  qed
  have "dsFactory disp = dsFactory ?disp" using Dispatch_other[OF faithful run] by simp
  then show ?thesis using each fact by (auto simp: processors_ok_def)
qed

lemma process_event_parts:
  assumes ok: "parts_ok d" "processors_ok (dmProcessors d)" and run: "process_event e d = (r, d')"
  shows "keeps d d' \<and> processors_ok (dmProcessors d')"
proof -
  let ?d0 = "load_state (evSessionID e) d"
  obtain r' disp where disp: "Dispatch pipeline_processor (\<lambda>sid. Binding sid (dmManager d)) (Some e)
      (dmProcessors ?d0) = (r', disp)" by fastforce
  note parts = dispatch_parts[OF ok disp]
  let ?d1 = "?d0\<lparr>dmProcessors := disp\<rparr>"
  have d': "d' = store_state (evSessionID e) ?d1" using run disp by (simp add: process_event_def Let_def)
  have "keeps d ?d1" by (rule keeps_same) simp_all
  moreover have "keeps ?d1 d'" unfolding d' by (rule keeps_store_state) (use parts in auto)
  ultimately have "keeps d d'" by (rule keeps_trans)
  then show ?thesis
    using parts d' by (cases rule: store_state_cases[of "evSessionID e" ?d1]) simp_all
qed

lemma dispatch_event_parts:
  assumes ok: "parts_ok d" "processors_ok (dmProcessors d)"
  shows "keeps d (dispatch_event now e d) \<and> processors_ok (dmProcessors (dispatch_event now e d))"
proof -
  obtain r d1 where run: "process_event e d = (r, d1)" by fastforce
  note d1 = process_event_parts[OF ok run]
  show ?thesis
  proof (cases "\<exists>dec. r = Inr (Some dec)")
    case True
    then obtain dec where r: "r = Inr (Some dec)" by blast
    obtain err d2 where emit: "daemon_emit now dec d1 = (err, d2)" by fastforce
    note d2 = keeps_emit[OF emit]
    have "dispatch_event now e d = tally_sink (err, d2)" using run r emit by (simp add: dispatch_event_def)
    then show ?thesis
      using d1 d2 keeps_tally[of d2 err] keeps_trans[of d d1 d2] keeps_trans[of d d2 "tally_sink (err, d2)"] by simp
  next
    case False
    then have "dispatch_event now e d = d1" using run by (auto simp: dispatch_event_def split: sum.split option.split)
    then show ?thesis using d1 by simp
  qed
qed

text \<open>The second half taken at once after the first is the whole.\<close>

lemma begin_asking_whole:
  assumes "begin_asking dec d = Some (dec', d')"
  shows "react now dec d = (dec', react_ask now dec' d')"
  using assms by (auto simp: begin_asking_def react_def split: prod.splits if_splits)

lemma begin_event_whole:
  assumes "begin_event e d = Some (dec, d')"
  shows "handleEvent fail_closed now e d = finish_asking now (Asking dec (Some (fail_closed, e))) d'"
proof -
  obtain dec0 d0 where run: "process_event e d = (Inr (Some dec0), d0)" "begin_asking dec0 d0 = Some (dec, d')"
    using assms by (auto simp: begin_event_def Let_def split: prod.splits sum.splits option.splits)
  then show ?thesis
    using begin_asking_whole[OF run(2), of now]
    by (simp add: handleEvent_def dispatch_event_def daemon_emit_def finish_asking_def)
qed

lemma begin_asking_parts:
  assumes "begin_asking dec d = Some (dec', d')"
  shows "keeps d d' \<and> dmProcessors d' = dmProcessors d"
  using assms keeps_contain contain_processors
  by (fastforce simp: begin_asking_def split: prod.splits if_splits)

section \<open>Properties of containment\<close>

text \<open>C13: a decision says it was enforced exactly when containment stands behind it. Every call to a
  group that a decision leads to is a kill or a freeze of its own session; a decision that came in
  unenforced leaves as enforced exactly when such a call succeeded, or when approval is asked for a
  session that is suspended already.\<close>

theorem enforced_means_contained:
  assumes "react now dec d = (dec', d')" and "\<not> dEnforced dec"
  shows "\<exists>calls. dmApplied d' = dmApplied d @ calls \<and>
    set calls \<subseteq> {(CallKill, dSessionID dec), (CallFreeze, dSessionID dec)} \<and>
    (dEnforced dec' \<longleftrightarrow> calls \<noteq> [] \<or> asks dec d \<and> in_state StateSuspended (dSessionID dec) d)"
proof (cases rule: react_cases[of now dec d])
  case (quiet w)
  then show ?thesis using assms by auto
next
  case (contain why)
  then show ?thesis using terminate_applied[of dec why d] assms(1) by auto
next
  case (unsuspended d1 why)
  then show ?thesis using terminate_applied[of dec why d1 dec' d'] suspend_applied[of _ d False d1] assms(1) by auto
next
  case (ask d1)
  then have "dEnforced dec'" "dmApplied d' = dmApplied d1" using assms(1) by (auto simp: asked_def Let_def)
  then show ?thesis using suspend_applied[OF ask(2)] ask(1) by auto
qed

theorem enforced_means_contained_witness:
  "\<forall>now d. \<exists>calls. dmApplied (snd (react now demo_decision d)) = dmApplied d @ calls \<and>
     set calls \<subseteq> {(CallKill, ''s-1''), (CallFreeze, ''s-1'')} \<and>
     (dEnforced (fst (react now demo_decision d)) \<longleftrightarrow>
        calls \<noteq> [] \<or> asks demo_decision d \<and> in_state StateSuspended ''s-1'' d)"
proof (intro allI)
  fix now d
  have "\<not> dEnforced demo_decision" "dSessionID demo_decision = ''s-1''" by (simp_all add: demo_decision_def)
  from enforced_means_contained[OF prod.collapse[symmetric] this(1), of now d] this(2)
  show "\<exists>calls. dmApplied (snd (react now demo_decision d)) = dmApplied d @ calls \<and>
     set calls \<subseteq> {(CallKill, ''s-1''), (CallFreeze, ''s-1'')} \<and>
     (dEnforced (fst (react now demo_decision d)) \<longleftrightarrow>
        calls \<noteq> [] \<or> asks demo_decision d \<and> in_state StateSuspended ''s-1'' d)"
    by simp
qed

end
