(* ===== verification/DaemonRuns.thy ===== *)
theory DaemonRuns
  imports EnforceLaws
begin

text \<open>
  Runs of the daemon: everything that happens to its state, as the step relation \<open>daemon_step\<close>, and what
  holds in every state it reaches. Beside the daemon, a state names the point its dispatch loop is at:
  \<open>None\<close> between two tasks, \<open>Some p\<close> inside a reaction, after its session was suspended and before the
  request is opened. The loop takes its next task at \<open>None\<close> only; the goroutines that answer and the
  control calls come at any time. \<open>ds_enforce\<close> is the enforcer's interface: a decision about a session,
  however it was reached; \<open>ds_event\<close> is the one the pipelines reach.

  Two flags leave interleavings out. \<open>at_once\<close>: an answer takes effect before anything else happens;
  otherwise the goroutine that answers comes back to its effects later. \<open>whole\<close>: a reaction is not
  interrupted. The daemon as written has neither. The rest of a reaction needs no splitting: what it
  reads of its session (\<open>Binding\<close>, \<open>Get\<close>) and what it does to it commute with the one step that can come
  between them, a resumption, or refuse it.
\<close>

section \<open>Steps\<close>

definition new_daemon ::
  "bool \<Rightarrow> mode \<Rightarrow> int \<Rightarrow> approval_policy \<Rightarrow> pipeline processor_factory \<Rightarrow>
     (nat \<Rightarrow> group_call \<Rightarrow> string \<Rightarrow> go_error) \<Rightarrow> (decision \<Rightarrow> go_error) \<Rightarrow> (msg \<Rightarrow> string) \<Rightarrow> daemon" where
  "new_daemon require md keep pol factory host audit fmt =
     \<lparr>dmManager = NewManager require md None
        \<lparr>scSessionID = [], scEnvelope = None, scStartedAt = 0, scHistorySize = 0, scMaxSeenTargets = 0\<rparr> keep,
      dmApprovals = newApprovals, dmPolicy = pol, dmSessions = [],
      dmProcessors = \<lparr>dsFactory = factory, dsSink = None, dsProcessors = [], dsStats = zero_dispatch_stats\<rparr>,
      dmControl = [], dmInFlight = [], dmHost = host, dmAudit = audit, dmText = fmt, dmCalls = 0,
      dmApplied = [], dmRecorded = [], dmSinkErrors = 0\<rparr>"

definition manage :: "(manager \<Rightarrow> manager) \<Rightarrow> daemon \<Rightarrow> daemon" where
  "manage f d = d\<lparr>dmManager := f (dmManager d)\<rparr>"

type_synonym run_state = "daemon \<times> asking option"

inductive daemon_step :: "bool \<Rightarrow> bool \<Rightarrow> run_state \<Rightarrow> run_state \<Rightarrow> bool" for at_once whole where
  ds_event: "daemon_step at_once whole (d, None) (handleEvent fail_closed now e d, None)"
| ds_enforce: "daemon_step at_once whole (d, None) (snd (Enforce now dec d), None)"
| ds_deferred: "dmControl d = xs @ f # ys \<Longrightarrow>
    daemon_step at_once whole (d, None) (run_deferred now f (d\<lparr>dmControl := xs @ ys\<rparr>), None)"
| ds_reap: "daemon_step at_once whole (d, None) (reapOrphans grace now pop d, None)"
| ds_fail_all: "daemon_step at_once whole (d, None) (failAll now reason d, None)"
| ds_event_begins: "\<not> whole \<Longrightarrow> begin_event e d = Some (dec, d') \<Longrightarrow>
    daemon_step at_once whole (d, None) (d', Some (Asking dec (Some (fail_closed, e))))"
| ds_enforce_begins: "\<not> whole \<Longrightarrow> begin_asking dec d = Some (dec', d') \<Longrightarrow>
    daemon_step at_once whole (d, None) (d', Some (Asking dec' None))"
| ds_asks: "daemon_step at_once whole (d, Some p) (finish_asking now p d, None)"
| ds_answer: "\<not> at_once \<Longrightarrow> daemon_step at_once whole (d, q) (answer now resp d, q)"
| ds_answer_at_once: "at_once \<Longrightarrow> daemon_step at_once whole (d, q) (answer_at_once now resp d, q)"
| ds_effect: "dmInFlight d = xs @ (r # rs) # ys \<Longrightarrow>
    daemon_step at_once whole (d, q) (run_effect r (d\<lparr>dmInFlight := xs @ rs # ys\<rparr>), q)"
| ds_session: "daemon_step at_once whole (d, q) (d\<lparr>dmSessions := AList.update sid info (dmSessions d)\<rparr>, q)"
| ds_create: "daemon_step at_once whole (d, q) (manage (\<lambda>m. snd (Create req now m)) d, q)"
| ds_seal: "daemon_step at_once whole (d, q) (manage (\<lambda>m. snd (Seal sid m)) d, q)"
| ds_approve: "daemon_step at_once whole (d, q) (manage (\<lambda>m. snd (Approve sid ap now m)) d, q)"
| ds_start: "daemon_step at_once whole (d, q) (manage (\<lambda>m. snd (Start sid pid now m)) d, q)"

inductive daemon_reachable :: "bool \<Rightarrow> bool \<Rightarrow> run_state \<Rightarrow> bool" for at_once whole where
  dr_new: "daemon_reachable at_once whole (new_daemon require md keep pol
      (pipeline_factory clock (validator_of dv) r (policy_of eng)) host audit fmt, None)"
| dr_step: "daemon_reachable at_once whole s \<Longrightarrow> daemon_step at_once whole s s' \<Longrightarrow>
    daemon_reachable at_once whole s'"

section \<open>Every step keeps the invariant\<close>

definition daemon_ok :: "daemon \<Rightarrow> bool" where
  "daemon_ok d \<longleftrightarrow> parts_ok d \<and> processors_ok (dmProcessors d)"

definition advances :: "daemon \<Rightarrow> daemon \<Rightarrow> bool" where
  "advances d d' \<longleftrightarrow> keeps d d' \<and> (processors_ok (dmProcessors d) \<longrightarrow> processors_ok (dmProcessors d'))"

lemma advances_refl [simp]: "advances d d"
  by (simp add: advances_def)

lemma advances_trans: "advances d1 d2 \<Longrightarrow> advances d2 d3 \<Longrightarrow> advances d1 d3"
  using keeps_trans by (auto simp: advances_def)

lemma advances_fold: "(\<And>x d. advances d (f x d)) \<Longrightarrow> advances d (fold f xs d)"
  by (induction xs arbitrary: d) (auto intro: advances_trans)

lemma advances_same:
  assumes "dmApplied d' = dmApplied d" "dmApprovals d' = dmApprovals d" "dmInFlight d' = dmInFlight d"
    and "mgSessions (dmManager d') = mgSessions (dmManager d)" "manager_ok (dmManager d) \<Longrightarrow> manager_ok (dmManager d')"
    and "dmProcessors d' = dmProcessors d"
  shows "advances d d'"
  using keeps_same[OF assms(1-5)] assms(6) by (simp add: advances_def)

lemma processors_Release: "processors_ok disp \<Longrightarrow> processors_ok (Release sid disp)"
  by (auto simp: processors_ok_def Release_simps split: if_splits)

lemma advances_finish: "advances d (finish now sid result reason d)"
proof -
  have "dmProcessors (finish now sid result reason d) = Release sid (dmProcessors d)"
    using kill_and_remove_parts[of d sid] by (simp add: finish_def Let_def split: prod.split)
  then show ?thesis using keeps_finish processors_Release by (simp add: advances_def)
qed

lemma advances_failSessionAs: "advances d (failSessionAs now sid result reason d)"
  using advances_finish by (simp add: failSessionAs_def split: sum.split)

lemma advances_drop_check: "advances d (drop_check fail_closed now e d)"
  using advances_failSessionAs by (simp add: drop_check_def failSession_def)

lemma handleEvent_ok:
  assumes ok: "daemon_ok d"
  shows "keeps d (handleEvent fail_closed now e d)" "processors_ok (dmProcessors (handleEvent fail_closed now e d))"
proof -
  let ?d = "dispatch_event now e d" and ?h = "handleEvent fail_closed now e d"
  have one: "keeps d ?d" "processors_ok (dmProcessors ?d)"
    using dispatch_event_parts[of d now e] ok by (simp_all add: daemon_ok_def)
  have two: "advances ?d ?h"
    using advances_drop_check by (simp add: handleEvent_def)
  show "keeps d ?h" using keeps_trans[OF one(1)] two by (simp add: advances_def)
  show "processors_ok (dmProcessors ?h)" using one(2) two by (simp add: advances_def)
qed

lemma advances_deferred: "advances d (run_deferred now f d)"
proof (cases f)
  case (Deferred kill sid result reason)
  obtain r d1 where kill: "call_group CallKill sid d = (r, d1)" by fastforce
  have "advances d d1"
    using keeps_call[OF kill] call_group_parts[OF kill] by (simp add: advances_def)
  then have "advances d (failSessionAs now sid result reason d1)"
    using advances_failSessionAs by (rule advances_trans)
  then show ?thesis
    using advances_failSessionAs by (simp add: run_deferred_def Let_def Deferred kill)
qed

lemma advances_reap: "advances d (reapOrphans grace now pop d)"
proof -
  let ?checked = "map (\<lambda>(sid, info). (sid, orphan_check grace now (pop sid) info)) (dmSessions d)"
  let ?d = "d\<lparr>dmSessions := map (\<lambda>(sid, due, info). (sid, info)) ?checked\<rparr>"
  have "advances d ?d" by (rule advances_same) simp_all
  then show ?thesis unfolding reapOrphans_def Let_def
    by (rule advances_trans) (intro advances_fold advances_failSessionAs)
qed

lemma advances_failAll: "advances d (failAll now reason d)"
  unfolding failAll_def by (rule advances_fold) (simp add: advances_finish)

text \<open>The lifecycle operations of the control protocol suspend nothing and resume nothing.\<close>

definition quiet_op :: "(manager \<Rightarrow> manager) \<Rightarrow> bool" where
  "quiet_op f \<longleftrightarrow> (\<forall>m. manager_ok m \<longrightarrow> manager_ok (f m) \<and>
     (\<forall>sid. (\<exists>rec. map_of (mgSessions (f m)) sid = Some rec \<and> sesState (mdSession rec) = StateSuspended)
        \<longleftrightarrow> (\<exists>rec. map_of (mgSessions m) sid = Some rec \<and> sesState (mdSession rec) = StateSuspended)))"

lemma advances_manage:
  assumes "quiet_op f" shows "advances d (manage f d)"
proof -
  let ?d = "manage f d"
  have st: "in_state StateSuspended sid ?d = in_state StateSuspended sid d" if "manager_ok (dmManager d)" for sid
    using assms that by (simp add: quiet_op_def in_state_def manage_def)
  have "suspended_frozen ?d" if "manager_ok (dmManager d)" "suspended_frozen d"
    using that st frozen_cong[of ?d d] by (simp add: suspended_frozen_def manage_def)
  moreover have "manager_ok (dmManager ?d)" if "manager_ok (dmManager d)"
    using assms that by (simp add: quiet_op_def manage_def)
  moreover have "waiting_suspended ?d" if "manager_ok (dmManager d)" "waiting_suspended d"
    using that st by (simp add: waiting_suspended_def manage_def)
  ultimately show ?thesis by (auto simp: advances_def keeps_def parts_ok_def manage_def)
qed

lemma store_quiet:
  assumes "map_of (mgSessions m) sid = None \<or>
      (\<exists>old. map_of (mgSessions m) sid = Some old \<and> sesState (mdSession old) \<noteq> StateSuspended)"
    and "sesState (mdSession rec) \<noteq> StateSuspended"
  shows "(\<exists>r. map_of (mgSessions (store sid rec m)) k = Some r \<and> sesState (mdSession r) = StateSuspended) \<longleftrightarrow>
    (\<exists>r. map_of (mgSessions m) k = Some r \<and> sesState (mdSession r) = StateSuspended)"
  using assms by auto

lemma transition_quiet:
  assumes "\<And>rec rec'. body rec = Inr rec' \<Longrightarrow> Allowed a (sesState (mdSession rec)) \<Longrightarrow>
      sesState (mdSession rec) \<noteq> StateSuspended \<and> sesState (mdSession rec') \<noteq> StateSuspended"
  shows "(\<exists>r. map_of (mgSessions (snd (transition a sid body m))) k = Some r \<and> sesState (mdSession r) = StateSuspended) \<longleftrightarrow>
    (\<exists>r. map_of (mgSessions m) k = Some r \<and> sesState (mdSession r) = StateSuspended)"
proof (cases rule: transition_cases[of a sid body m])
  case (taken rec rec')
  then show ?thesis using store_quiet[of m sid rec' k] assms[OF taken(3,2)] by simp
qed simp

lemma lifecycle_quiet:
  "quiet_op (\<lambda>m. snd (Seal sid m))" "quiet_op (\<lambda>m. snd (Approve sid ap now m))"
  "quiet_op (\<lambda>m. snd (Start sid pid now m))"
proof -
  have s: "seal_body r rec = Inr rec' \<Longrightarrow> Allowed ActionSeal (sesState (mdSession rec)) \<Longrightarrow>
      sesState (mdSession rec) \<noteq> StateSuspended \<and> sesState (mdSession rec') \<noteq> StateSuspended" for r rec rec'
    by (auto simp: seal_body_def set_session_def Allowed_def Let_def split: list.splits if_splits)
  have a: "approve_body ap now rec = Inr rec' \<Longrightarrow> Allowed ActionApprove (sesState (mdSession rec)) \<Longrightarrow>
      sesState (mdSession rec) \<noteq> StateSuspended \<and> sesState (mdSession rec') \<noteq> StateSuspended" for rec rec'
    by (auto simp: approve_body_def set_session_def Allowed_def Let_def split: if_splits)
  have t: "start_body pid now rec = Inr rec' \<Longrightarrow> Allowed ActionStart (sesState (mdSession rec)) \<Longrightarrow>
      sesState (mdSession rec) \<noteq> StateSuspended \<and> sesState (mdSession rec') \<noteq> StateSuspended" for rec rec'
    by (auto simp: start_body_def set_session_def Allowed_def Let_def split: if_splits)
  show "quiet_op (\<lambda>m. snd (Seal sid m))"
    unfolding quiet_op_def
  proof (intro allI impI conjI)
    show "manager_ok m \<Longrightarrow> manager_ok (snd (Seal sid m))" for m by (rule step_ok[OF step_seal])
  qed (unfold Seal_def, rule transition_quiet, rule s)
  show "quiet_op (\<lambda>m. snd (Approve sid ap now m))"
    unfolding quiet_op_def
  proof (intro allI impI conjI)
    show "manager_ok m \<Longrightarrow> manager_ok (snd (Approve sid ap now m))" for m by (rule step_ok[OF step_approve])
  qed (unfold Approve_def, rule transition_quiet, rule a)
  show "quiet_op (\<lambda>m. snd (Start sid pid now m))"
    unfolding quiet_op_def
  proof (intro allI impI conjI)
    show "manager_ok m \<Longrightarrow> manager_ok (snd (Start sid pid now m))" for m by (rule step_ok[OF step_start])
  qed (unfold Start_def, rule transition_quiet, rule t)
qed

lemma Create_quiet: "quiet_op (\<lambda>m. snd (Create req now m))"
proof -
  have "(\<exists>r. map_of (mgSessions (snd (Create req now m))) k = Some r \<and> sesState (mdSession r) = StateSuspended) \<longleftrightarrow>
    (\<exists>r. map_of (mgSessions m) k = Some r \<and> sesState (mdSession r) = StateSuspended)" for m k
  proof (cases "snd (Create req now m) = m")
    case False
    then obtain sid rec where "snd (Create req now m) = store sid rec m" "map_of (mgSessions m) sid = None"
      "sesState (mdSession rec) = StatePending"
      by (auto simp: Create_def Let_def split: option.splits if_splits)
    then show ?thesis using store_quiet[of m sid rec k] by simp
  qed simp
  then show ?thesis using Create_ok by (simp add: quiet_op_def)
qed

text \<open>An answer: the request goes, and the session is resumed when it was the last.\<close>

lemma resolve_cases:
  assumes "resolve now resp a = (found, effects, a')"
  obtains (unknown) "effects = []" "a' = a"
  | (denied) ap sid m where "effects = [AuditApproval ap, KillSession sid m]" "\<And>s. waiting s a' \<Longrightarrow> waiting s a"
  | (last) ap sid where "effects = [AuditApproval ap, ResumeSession sid]" "\<And>s. waiting s a' \<Longrightarrow> waiting s a"
      "\<not> waiting sid a'"
  | (granted) ap where "effects = [AuditApproval ap]" "\<And>s. waiting s a' \<Longrightarrow> waiting s a"
proof (cases "map_of (apPending a) (asRequestID resp)")
  case None
  then show thesis using unknown assms by (simp add: resolve_unknown)
next
  case (Some req)
  have fewer: "waiting s b \<Longrightarrow> waiting s a" if "set (apPending b) \<subseteq> set (AList.delete (asRequestID resp) (apPending a))" for s b
    using that delete_subset[of "asRequestID resp" "apPending a"] by (auto simp: waiting_def)
  show thesis
  proof (cases "asApproved resp")
    case True
    have less: "waiting s (without (asRequestID resp) a) \<Longrightarrow> waiting s a" for s
      by (rule fewer[of "without (asRequestID resp) a"]) (simp_all add: without_def)
    have a': "a' = without (asRequestID resp) a"
      using assms resolve_approved[OF Some True, of now] by (simp add: Let_def)
    show thesis
    proof (cases "arSessionID req \<notin> apTerminating a \<and> \<not> waiting (arSessionID req) a'")
      case resumed: True
      then have "effects = [AuditApproval (answer_record now resp req EffectResume), ResumeSession (arSessionID req)]"
        using assms resolve_approved[OF Some True, of now] a' by (simp add: Let_def)
      then show thesis using last less resumed a' by blast
    next
      case False
      then have "\<exists>ap. effects = [AuditApproval ap]"
        using assms resolve_approved[OF Some True, of now] a' by (auto simp: Let_def split: if_splits)
      then show thesis using granted less a' by blast
    qed
  next
    case False
    obtain m where "resolve now resp a =
        (True, [AuditApproval (answer_record now resp req EffectTerminate), KillSession (arSessionID req) m],
         a\<lparr>apPending := filter (\<lambda>kp. request_session kp \<noteq> arSessionID req) (AList.delete (asRequestID resp) (apPending a)),
           apTerminating := insert (arSessionID req) (apTerminating a)\<rparr>)"
      using resolve_denied[OF Some False] by blast
    then have "effects = [AuditApproval (answer_record now resp req EffectTerminate), KillSession (arSessionID req) m]"
      "set (apPending a') \<subseteq> set (AList.delete (asRequestID resp) (apPending a))"
      using assms by auto
    from denied[OF this(1)] fewer[OF this(2)] show thesis by blast
  qed
qed

text \<open>Resuming a session for which nothing waits.\<close>

lemma manager_Resume_parts:
  assumes run: "manager_Resume sid d = (err, d')" and ok: "parts_ok d"
  shows "parts_ok d' \<and> dmInFlight d' = dmInFlight d \<and> dmApprovals d' = dmApprovals d \<and>
    dmProcessors d' = dmProcessors d \<and>
    (\<forall>s. s \<noteq> sid \<longrightarrow> in_state StateSuspended s d \<longrightarrow> in_state StateSuspended s d')"
proof (cases rule: manager_Resume_cases[of sid d])
  case (refused e n)
  then have d': "d' = d\<lparr>dmManager := with_sv d, dmCalls := n\<rparr>" using run by simp
  have "keeps d d'" by (rule keeps_same) (simp_all add: d')
  then show ?thesis using ok d' by (simp add: keeps_def in_state_def)
next
  case (taken rec)
  let ?m = "store sid (moved StateActive rec) (with_sv d)"
  have d': "d' = d\<lparr>dmManager := ?m, dmCalls := Suc (dmCalls d), dmApplied := dmApplied d @ [(CallThaw, sid)]\<rparr>"
    using run taken(4) by simp
  have st: "in_state StateSuspended s d' \<longleftrightarrow> s \<noteq> sid \<and> in_state StateSuspended s d" for s
    by (auto simp: d' in_state_def)
  have applied: "dmApplied d' = dmApplied d @ [(CallThaw, sid)]" by (simp add: d')
  have "frozen s d' = frozen s d" if "s \<noteq> sid" for s using frozen_append[OF applied, of s] that by simp
  then have "suspended_frozen d'" using ok st by (auto simp: suspended_frozen_def parts_ok_def)
  moreover have "manager_ok (dmManager d')"
    using moved_ok[of "with_sv d" sid rec StateActive] taken(1,2) ok by (simp add: d' parts_ok_def)
  ultimately show ?thesis using ok st by (simp add: parts_ok_def d')
qed

lemma run_effect_ok:
  assumes "daemon_ok d"
  shows "daemon_ok (run_effect r d)"
proof (cases r)
  case (KillSession sid m)
  then show ?thesis using assms keeps_later[of d] by (simp add: run_effect_def daemon_ok_def keeps_def later_def)
next
  case (ResumeSession sid)
  obtain err d1 where "manager_Resume sid d = (err, d1)" by fastforce
  then show ?thesis using manager_Resume_parts[of sid d err d1] assms ResumeSession
    by (simp add: run_effect_def daemon_ok_def)
qed (use assms in \<open>simp add: run_effect_def\<close>)

lemma approvals_parts:
  assumes "parts_ok d" "approvals_ok a"
  shows "parts_ok (d\<lparr>dmApprovals := a\<rparr>)" "parts_ok (d\<lparr>dmApprovals := a, dmInFlight := fs\<rparr>)"
  using assms by (simp_all add: parts_ok_def suspended_frozen_def in_state_def frozen_def)

lemma inflight_parts [simp]: "parts_ok (d\<lparr>dmInFlight := fs\<rparr>) = parts_ok d"
  by (simp add: parts_ok_def suspended_frozen_def in_state_def frozen_def)

lemma answer_ok: "daemon_ok d \<Longrightarrow> daemon_ok (answer now resp d)"
  using resolve_ok[of "dmApprovals d" now resp] approvals_parts(2)[of d]
  by (cases "resolve now resp (dmApprovals d)") (simp add: answer_def daemon_ok_def parts_ok_def)

lemma answer_at_once_ok:
  assumes ok: "daemon_ok d"
  shows "daemon_ok (answer_at_once now resp d) \<and> dmInFlight (answer_at_once now resp d) = dmInFlight d \<and>
    (waiting_suspended d \<longrightarrow> waiting_suspended (answer_at_once now resp d))"
proof -
  obtain found effects a where r: "resolve now resp (dmApprovals d) = (found, effects, a)"
    by (cases "resolve now resp (dmApprovals d)") auto
  let ?d = "d\<lparr>dmApprovals := a\<rparr>"
  have a: "approvals_ok a" using resolve_ok[of "dmApprovals d" now resp] r ok by (simp add: daemon_ok_def parts_ok_def)
  then have d: "daemon_ok ?d" using ok approvals_parts(1) by (simp add: daemon_ok_def)
  have run: "answer_at_once now resp d = fold run_effect effects ?d" by (simp add: answer_at_once_def r)
  have st: "in_state s k ?d = in_state s k d" for s k by (simp add: in_state_def)
  have w: "waiting_suspended ?d" if "waiting_suspended d" "\<And>s. waiting s a \<Longrightarrow> waiting s (dmApprovals d)"
    using that by (simp add: waiting_suspended_def st)
  show ?thesis
    using r
  proof (cases rule: resolve_cases)
    case unknown
    then show ?thesis using d w by (simp add: run)
  next
    case (denied ap sid m)
    then show ?thesis using run_effect_ok[OF d, of "KillSession sid m"] w
      by (simp add: run run_effect_def later_def waiting_suspended_def in_state_def)
  next
    case (last ap sid)
    obtain err d1 where resume: "manager_Resume sid ?d = (err, d1)" by fastforce
    have d1: "answer_at_once now resp d = d1" using last(1) resume by (simp add: run run_effect_def)
    have parts: "parts_ok ?d" using d by (simp add: daemon_ok_def)
    note p = manager_Resume_parts[OF resume parts]
    have "waiting_suspended d1" if "waiting_suspended d"
      using w[OF that last(2)] p last(3) by (auto simp: waiting_suspended_def)
    then show ?thesis using p d by (simp add: d1 daemon_ok_def)
  next
    case (granted ap)
    then show ?thesis using d w by (simp add: run run_effect_def)
  qed
qed

lemma finish_asking_ok:
  assumes ok: "daemon_ok d"
  shows "daemon_ok (finish_asking now p d)"
proof -
  obtain dec source where p: "p = Asking dec source" by (cases p)
  let ?d1 = "react_ask now dec d"
  have d1: "daemon_ok ?d1"
    using react_ask_parts[of d now dec] ok by (simp add: daemon_ok_def) (simp add: react_ask_def)
  show ?thesis
  proof (cases source)
    case None
    then show ?thesis using d1 by (simp add: finish_asking_def p)
  next
    case (Some fe)
    obtain fail_closed e where fe: "fe = (fail_closed, e)" by fastforce
    obtain err d2 where two: "record_decision dec ?d1 = (err, d2)" by fastforce
    have "daemon_ok d2" using keeps_record_decision[OF two] d1 by (simp add: daemon_ok_def keeps_def)
    then have "daemon_ok (tally_sink (err, d2))" using keeps_tally[of d2 err] by (simp add: daemon_ok_def keeps_def)
    then have "daemon_ok (drop_check fail_closed now e (tally_sink (err, d2)))"
      using advances_drop_check by (simp add: daemon_ok_def advances_def keeps_def)
    then show ?thesis using two by (simp add: finish_asking_def p Some fe)
  qed
qed

lemma begin_event_ok:
  assumes ok: "daemon_ok d" and begun: "begin_event e d = Some (dec, d')"
  shows "daemon_ok d'"
proof -
  obtain dec0 d0 where run: "process_event e d = (Inr (Some dec0), d0)" "begin_asking dec0 d0 = Some (dec, d')"
    using begun by (auto simp: begin_event_def Let_def split: prod.splits sum.splits option.splits)
  have "daemon_ok d0" using process_event_parts[OF _ _ run(1)] ok by (simp add: daemon_ok_def keeps_def)
  then show ?thesis using begin_asking_parts[OF run(2)] by (simp add: daemon_ok_def keeps_def)
qed

lemma step_invariant:
  assumes "daemon_step at_once whole (d, q) (d', q')" and ok: "daemon_ok d"
  shows "daemon_ok d' \<and> (at_once \<and> whole \<and> q = None \<and> dmInFlight d = [] \<and> waiting_suspended d \<longrightarrow>
    q' = None \<and> dmInFlight d' = [] \<and> waiting_suspended d')"
proof -
  have goal: ?thesis if "keeps d d'" "processors_ok (dmProcessors d')" "q' = q"
    using that ok by (simp add: keeps_def daemon_ok_def)
  have advance: ?thesis if "advances d d'" "q' = q"
    by (rule goal) (use that ok in \<open>simp_all add: advances_def daemon_ok_def\<close>)
  show ?thesis
    using assms(1)
  proof cases
    case (ds_event fail_closed now e)
    then show ?thesis using goal handleEvent_ok[OF ok] by simp
  next
    case (ds_enforce now dec)
    obtain dec' d1 where one: "react now dec d = (dec', d1)" by fastforce
    show ?thesis
      by (rule goal) (use keeps_react[OF one] react_processors[OF one] one ok ds_enforce in
        \<open>simp_all add: Enforce_def daemon_ok_def\<close>)
  next
    case (ds_deferred xs f ys now)
    have "advances d (d\<lparr>dmControl := xs @ ys\<rparr>)" by (rule advances_same) simp_all
    then show ?thesis using ds_deferred advance advances_trans[OF _ advances_deferred] by simp
  next
    case (ds_event_begins e dec fail_closed)
    then show ?thesis using begin_event_ok[OF ok] by simp
  next
    case (ds_enforce_begins dec dec')
    then show ?thesis using begin_asking_parts[of dec d dec' d'] ok by (simp add: daemon_ok_def keeps_def)
  next
    case (ds_asks p now)
    then show ?thesis using finish_asking_ok[OF ok] by simp
  next
    case (ds_answer now resp)
    then show ?thesis using answer_ok[OF ok] by simp
  next
    case (ds_answer_at_once now resp)
    then show ?thesis using answer_at_once_ok[OF ok] by simp
  next
    case (ds_effect xs r rs ys)
    have "daemon_ok (d\<lparr>dmInFlight := xs @ rs # ys\<rparr>)" using ok by (simp add: daemon_ok_def)
    then show ?thesis using ds_effect run_effect_ok by simp
  next
    case (ds_session sid info)
    have "advances d d'" unfolding ds_session by (rule advances_same) simp_all
    then show ?thesis using ds_session by (intro advance) simp_all
  qed (use advance advances_reap advances_failAll advances_manage[OF Create_quiet]
      advances_manage[OF lifecycle_quiet(1)] advances_manage[OF lifecycle_quiet(2)]
      advances_manage[OF lifecycle_quiet(3)] in simp_all)
qed

lemma reachable_invariant:
  assumes "daemon_reachable at_once whole s"
  shows "daemon_ok (fst s) \<and>
    (at_once \<and> whole \<longrightarrow> snd s = None \<and> dmInFlight (fst s) = [] \<and> waiting_suspended (fst s))"
  using assms
proof induction
  case (dr_new require md keep pol clock dv r eng host audit fmt)
  let ?d = "new_daemon require md keep pol (pipeline_factory clock (validator_of dv) r (policy_of eng)) host audit fmt"
  have "manager_ok (dmManager ?d)"
    using reachable_ok[OF reach_new] by (simp add: new_daemon_def)
  moreover have "processors_ok (dmProcessors ?d)" unfolding processors_ok_def by (simp add: new_daemon_def) blast
  ultimately show ?case
    using newApprovals_ok by (simp add: daemon_ok_def parts_ok_def suspended_frozen_def in_state_def
        waiting_suspended_def waiting_def new_daemon_def NewManager_def newApprovals_def)
next
  case (dr_step s s')
  then show ?case using step_invariant[of at_once whole "fst s" "snd s" "fst s'" "snd s'"] by simp
qed

section \<open>A small daemon\<close>

definition demo_factory :: "pipeline processor_factory" where
  "demo_factory = pipeline_factory int (validator_of \<lparr>dvMatcher = NewMatcher (=), dvNow = 1\<rparr>)
     (\<lambda>e v env st t. Inl (lit ''no score'')) (policy_of \<lparr>activeRules = [], activeDefault = ActionRequestApproval\<rparr>)"

definition demo_daemon :: daemon where
  "demo_daemon = new_daemon False ModeInteractive 0 demo_policy demo_factory (\<lambda>n c sid. None) (\<lambda>dec. None) (\<lambda>m. [])"

definition demo_create :: create_request where
  "demo_create = \<lparr>crEnvelope = Some (zero_envelope\<lparr>envSessionID := ''s-1''\<rparr>), crPrompt = [],
     crWorkspaceRoot = [], crMode = ModeInteractive, crAgentIdentity = []\<rparr>"

definition demo_running :: daemon where
  "demo_running =
     (manage (\<lambda>m. snd (Start ''s-1'' 7 2 m)) (manage (\<lambda>m. snd (Seal ''s-1'' m))
       (manage (\<lambda>m. snd (Create demo_create 1 m)) demo_daemon)))
     \<lparr>dmSessions := AList.update ''s-1'' \<lparr>siOwner = \<lparr>prPID = 41, prUID = 1000\<rparr>, siGroup = True, siEmptySince = 0, siEnding = False\<rparr> []\<rparr>"

lemma demo_running_reachable: "daemon_reachable at_once whole (demo_running, None)"
proof -
  let ?d = "manage (\<lambda>m. snd (Start ''s-1'' 7 2 m)) (manage (\<lambda>m. snd (Seal ''s-1'' m))
       (manage (\<lambda>m. snd (Create demo_create 1 m)) demo_daemon))"
  have "daemon_reachable at_once whole (?d, None)"
    unfolding demo_daemon_def demo_factory_def
    by (intro dr_step[OF _ ds_start] dr_step[OF _ ds_seal] dr_step[OF _ ds_create] dr_new)
  then have "daemon_reachable at_once whole (?d\<lparr>dmSessions := AList.update ''s-1''
      \<lparr>siOwner = \<lparr>prPID = 41, prUID = 1000\<rparr>, siGroup = True, siEmptySince = 0, siEnding = False\<rparr> (dmSessions ?d)\<rparr>, None)"
    by (rule dr_step[OF _ ds_session])
  then show ?thesis by (simp add: demo_running_def manage_def demo_daemon_def new_daemon_def)
qed

lemma demo_running_session:
  "\<exists>rec. mgSessions (dmManager demo_running) = [(''s-1'', rec)] \<and> sesState (mdSession rec) = StateActive \<and>
     sesMode (mdSession rec) = ModeInteractive"
proof -
  have lint: "LintEnvelope (zero_envelope\<lparr>envSessionID := ''s-1''\<rparr>) = []"
    by (simp add: LintEnvelope_def lintWorkspaceRoot_def zero_envelope_def zero_constraints_def)
  let ?m = "dmManager demo_daemon"
  have "\<exists>rec. snd (Create demo_create 1 ?m) = ?m\<lparr>mgSessions := [(''s-1'', rec)]\<rparr> \<and>
      sesState (mdSession rec) = StatePending \<and> sesMode (mdSession rec) = ModeInteractive \<and>
      sesEnvelope (mdSession rec) = zero_envelope\<lparr>envSessionID := ''s-1''\<rparr>"
    by (simp add: Create_def demo_create_def demo_daemon_def new_daemon_def NewManager_def store_def Let_def)
  then obtain rec1 where one: "snd (Create demo_create 1 ?m) = ?m\<lparr>mgSessions := [(''s-1'', rec1)]\<rparr>"
    "sesState (mdSession rec1) = StatePending" "sesMode (mdSession rec1) = ModeInteractive"
    "sesEnvelope (mdSession rec1) = zero_envelope\<lparr>envSessionID := ''s-1''\<rparr>" by blast
  have "\<exists>rec. snd (Seal ''s-1'' (?m\<lparr>mgSessions := [(''s-1'', rec1)]\<rparr>)) = ?m\<lparr>mgSessions := [(''s-1'', rec)]\<rparr> \<and>
      sesState (mdSession rec) = StateReady \<and> sesMode (mdSession rec) = ModeInteractive \<and>
      envSealed (sesEnvelope (mdSession rec))"
    using one(2-4) lint
    by (simp add: Seal_def transition_def lookup_def check_def lifecycle_defs seal_body_def set_session_def
        BlockingIssues_def store_def demo_daemon_def new_daemon_def NewManager_def)
  then obtain rec2 where two: "snd (Seal ''s-1'' (snd (Create demo_create 1 ?m))) = ?m\<lparr>mgSessions := [(''s-1'', rec2)]\<rparr>"
    "sesState (mdSession rec2) = StateReady" "sesMode (mdSession rec2) = ModeInteractive"
    "envSealed (sesEnvelope (mdSession rec2))" unfolding one(1) by blast
  have "dmManager demo_running = snd (Start ''s-1'' 7 2 (snd (Seal ''s-1'' (snd (Create demo_create 1 ?m)))))"
    by (simp add: demo_running_def manage_def)
  then show ?thesis
    unfolding two(1) using two(2-4)
    by (simp add: Start_def transition_def lookup_def check_def lifecycle_defs start_body_def
        set_session_def store_def demo_daemon_def new_daemon_def NewManager_def)
qed

lemma demo_running_rest:
  "groupOf ''s-1'' demo_running" "dmHost demo_running = (\<lambda>n c sid. None)"
  "dmApprovals demo_running = newApprovals" "dmPolicy demo_running = demo_policy" "dmInFlight demo_running = []"
  by (simp_all add: groupOf_def demo_running_def manage_def demo_daemon_def new_daemon_def)

text \<open>Where the groups obey, a request for approval suspends and a resumption resumes.\<close>

lemma manager_Suspend_works:
  assumes "map_of (mgSessions (dmManager d)) sid = Some rec" "sesState (mdSession rec) = StateActive"
    and "groupOf sid d" "dmHost d = (\<lambda>n c s. None)"
  shows "manager_Suspend sid d = (None, d\<lparr>dmManager := store sid (moved StateSuspended rec) (with_sv d),
    dmCalls := Suc (dmCalls d), dmApplied := dmApplied d @ [(CallFreeze, sid)]\<rparr>)"
  using assms
  by (simp add: manager_Suspend_def supervised_call_def with_sv_def Suspend_def transition_def lookup_def
      check_def Allowed_def supervised_def daemon_supervisor_def call_group_simps moved_def)

lemma manager_Resume_works:
  assumes "map_of (mgSessions (dmManager d)) sid = Some rec" "sesState (mdSession rec) = StateSuspended"
    and "groupOf sid d" "dmHost d = (\<lambda>n c s. None)"
  shows "manager_Resume sid d = (None, d\<lparr>dmManager := store sid (moved StateActive rec) (with_sv d),
    dmCalls := Suc (dmCalls d), dmApplied := dmApplied d @ [(CallThaw, sid)]\<rparr>)"
  using assms
  by (simp add: manager_Resume_def supervised_call_def with_sv_def Resume_def transition_def lookup_def
      check_def Allowed_def supervised_def daemon_supervisor_def call_group_simps moved_def)

definition asking_decision :: "decision \<Rightarrow> decision" where
  "asking_decision dec = annotate True (lit ''session frozen pending approval by its owner'') dec"

definition after_asking :: "time \<Rightarrow> decision \<Rightarrow> daemon \<Rightarrow> daemon" where
  "after_asking now dec d = react_ask now (asking_decision dec) d"

lemma after_asking_simps [simp]:
  "dmManager (after_asking now dec d) = dmManager d" "dmHost (after_asking now dec d) = dmHost d"
  "dmInFlight (after_asking now dec d) = dmInFlight d" "dmApplied (after_asking now dec d) = dmApplied d"
  "groupOf sid (after_asking now dec d) = groupOf sid d"
  by (simp_all add: after_asking_def react_ask_def groupOf_def)

lemma update_has_key: "\<exists>v. (k, v) \<in> set (AList.update k x xs) \<and> v = x"
  by (induction xs) auto

lemma after_asking_waits:
  assumes "dSessionID dec \<notin> apTerminating (dmApprovals d)"
  shows "waiting (dSessionID dec) (dmApprovals (after_asking now dec d))"
proof -
  have "\<exists>rid req. apPending (dmApprovals (after_asking now dec d)) = AList.update rid req (apPending (dmApprovals d)) \<and>
      arSessionID req = dSessionID dec"
    using assms by (fastforce simp: after_asking_def react_ask_def asking_decision_def open_request_def Let_def)
  then obtain rid req where "apPending (dmApprovals (after_asking now dec d)) = AList.update rid req (apPending (dmApprovals d))"
    "arSessionID req = dSessionID dec" by blast
  moreover from this have "(rid, req) \<in> set (AList.update rid req (apPending (dmApprovals d)))"
    using update_has_key[of rid req "apPending (dmApprovals d)"] by simp
  ultimately show ?thesis unfolding waiting_def request_session_def
    by (intro bexI[of _ "(rid, req)"]) simp_all
qed

lemma Enforce_suspends:
  assumes "map_of (mgSessions (dmManager d)) (dSessionID dec) = Some rec" "sesState (mdSession rec) = StateActive"
    and "sesMode (mdSession rec) = ModeInteractive" "groupOf (dSessionID dec) d" "dmHost d = (\<lambda>n c s. None)"
    and "dAction dec = ActionRequestApproval"
  shows "snd (Enforce now dec d) = after_asking now dec
    (d\<lparr>dmManager := store (dSessionID dec) (moved StateSuspended rec) (with_sv d),
       dmCalls := Suc (dmCalls d), dmApplied := dmApplied d @ [(CallFreeze, dSessionID dec)]\<rparr>)"
  using manager_Suspend_works[OF assms(1,2,4,5)] assms
  by (simp add: Enforce_def react_def react_contain_def Binding_def AcceptsEvents_def suspend_def Get_def lookup_def
      after_asking_def asking_decision_def Let_def)

lemma Enforce_suspended:
  assumes "map_of (mgSessions (dmManager d)) (dSessionID dec) = Some rec" "sesState (mdSession rec) = StateSuspended"
    and "sesMode (mdSession rec) = ModeInteractive" "dAction dec = ActionRequestApproval"
  shows "snd (Enforce now dec d) = after_asking now dec d"
  using assms
  by (simp add: Enforce_def react_def react_contain_def Binding_def AcceptsEvents_def suspend_def Get_def lookup_def
      after_asking_def asking_decision_def Let_def)

definition demo_asked :: daemon where
  "demo_asked = snd (Enforce 10 demo_decision demo_running)"

lemma demo_asked_reachable: "daemon_reachable at_once whole (demo_asked, None)"
  unfolding demo_asked_def by (rule dr_step[OF demo_running_reachable ds_enforce])

lemma demo_asked_shape:
  "\<exists>rec req. map_of (mgSessions (dmManager demo_asked)) ''s-1'' = Some rec \<and>
     sesState (mdSession rec) = StateSuspended \<and> sesMode (mdSession rec) = ModeInteractive \<and>
     groupOf ''s-1'' demo_asked \<and> dmHost demo_asked = (\<lambda>n c s. None) \<and> dmInFlight demo_asked = [] \<and>
     dmApplied demo_asked = dmApplied demo_running @ [(CallFreeze, ''s-1'')] \<and>
     apPending (dmApprovals demo_asked) = [(''apr-s-1-1'', req)] \<and> arSessionID req = ''s-1'' \<and>
     apTerminating (dmApprovals demo_asked) = {}"
proof -
  obtain rec where rec: "mgSessions (dmManager demo_running) = [(''s-1'', rec)]"
    "sesState (mdSession rec) = StateActive" "sesMode (mdSession rec) = ModeInteractive"
    using demo_running_session by blast
  have id: "itoa 1 = ''1''" by code_simp
  let ?d = "demo_running\<lparr>dmManager := store ''s-1'' (moved StateSuspended rec) (with_sv demo_running),
      dmCalls := Suc (dmCalls demo_running), dmApplied := dmApplied demo_running @ [(CallFreeze, ''s-1'')]\<rparr>"
  have eq: "demo_asked = after_asking 10 demo_decision ?d"
    unfolding demo_asked_def
    using Enforce_suspends[of demo_running demo_decision rec 10] rec demo_running_rest
    by (simp add: demo_decision_def)
  have "\<exists>req. apPending (dmApprovals demo_asked) = [(''apr-s-1-1'', req)] \<and> arSessionID req = ''s-1'' \<and>
      apTerminating (dmApprovals demo_asked) = {}"
    unfolding eq by (simp add: after_asking_def react_ask_def asking_decision_def open_request_def newApprovals_def demo_decision_def
        annotate_def Let_def id demo_running_rest)
  moreover have "groupOf ''s-1'' ?d" using demo_running_rest(1) by (simp add: groupOf_def)
  ultimately show ?thesis
    using demo_running_rest rec unfolding eq by simp
qed

lemma demo_asked_waits: "waiting ''s-1'' (dmApprovals demo_asked) \<and> in_state StateSuspended ''s-1'' demo_asked"
  using demo_asked_shape by (auto simp: waiting_def request_session_def in_state_def)

definition demo_grant :: approval_response where
  "demo_grant = demo_denial\<lparr>asApproved := True\<rparr>"

text \<open>The owner grants the request; before the answer takes effect another decision asks again.\<close>

definition demo_overtaken :: daemon where
  "demo_overtaken = snd (Enforce 30 demo_decision (answer 20 demo_grant demo_asked))"

lemma demo_overtaken_reachable: "daemon_reachable False whole (demo_overtaken, None)"
  unfolding demo_overtaken_def
  by (intro dr_step[OF _ ds_enforce] dr_step[OF _ ds_answer] demo_asked_reachable) simp

lemma demo_overtaken_shape:
  "\<exists>rec ap. map_of (mgSessions (dmManager demo_overtaken)) ''s-1'' = Some rec \<and>
     sesState (mdSession rec) = StateSuspended \<and> groupOf ''s-1'' demo_overtaken \<and>
     dmHost demo_overtaken = (\<lambda>n c s. None) \<and>
     dmInFlight demo_overtaken = [[AuditApproval ap, ResumeSession ''s-1'']] \<and>
     waiting ''s-1'' (dmApprovals demo_overtaken)"
proof -
  obtain rec req where d: "map_of (mgSessions (dmManager demo_asked)) ''s-1'' = Some rec"
    "sesState (mdSession rec) = StateSuspended" "sesMode (mdSession rec) = ModeInteractive"
    "groupOf ''s-1'' demo_asked" "dmHost demo_asked = (\<lambda>n c s. None)" "dmInFlight demo_asked = []"
    "apPending (dmApprovals demo_asked) = [(''apr-s-1-1'', req)]" "arSessionID req = ''s-1''"
    "apTerminating (dmApprovals demo_asked) = {}"
    using demo_asked_shape by blast
  let ?ans = "answer 20 demo_grant demo_asked"
  have known: "map_of (apPending (dmApprovals demo_asked)) (asRequestID demo_grant) = Some req" "asApproved demo_grant"
    using d(7) by (simp_all add: demo_grant_def demo_denial_def)
  have gone: "apPending (without (asRequestID demo_grant) (dmApprovals demo_asked)) = []"
    using d(7) by (simp add: without_def demo_grant_def demo_denial_def)
  then have "\<exists>ap. resolve 20 demo_grant (dmApprovals demo_asked) =
      (True, [AuditApproval ap, ResumeSession ''s-1''], without (asRequestID demo_grant) (dmApprovals demo_asked))"
    using resolve_approved[OF known, of 20] d(8,9) by (simp add: waiting_def Let_def)
  then obtain ap where ans: "?ans = demo_asked\<lparr>dmApprovals := without (asRequestID demo_grant) (dmApprovals demo_asked),
      dmInFlight := [[AuditApproval ap, ResumeSession ''s-1'']]\<rparr>"
    using d(6) by (auto simp: answer_def)
  have eq: "demo_overtaken = after_asking 30 demo_decision ?ans"
    unfolding demo_overtaken_def
    using Enforce_suspended[of ?ans demo_decision rec 30] d by (simp add: ans demo_decision_def)
  have "waiting ''s-1'' (dmApprovals demo_overtaken)"
    unfolding eq using after_asking_waits[of demo_decision ?ans 30] d(9)
    by (simp add: ans demo_decision_def without_def)
  moreover have "groupOf ''s-1'' ?ans" using d(4) by (simp add: ans groupOf_def)
  ultimately show ?thesis using d(1,2,5) unfolding eq by (simp add: ans)
qed

text \<open>The resumption of the first answer runs after the second request was opened.\<close>

lemma overtaken_run:
  "\<exists>d sid. daemon_reachable False whole (d, None) \<and> waiting sid (dmApprovals d) \<and>
     in_state StateActive sid d \<and> \<not> frozen sid d"
proof -
  obtain rec ap where d: "map_of (mgSessions (dmManager demo_overtaken)) ''s-1'' = Some rec"
    "sesState (mdSession rec) = StateSuspended" "groupOf ''s-1'' demo_overtaken"
    "dmHost demo_overtaken = (\<lambda>n c s. None)"
    "dmInFlight demo_overtaken = [[AuditApproval ap, ResumeSession ''s-1'']]"
    "waiting ''s-1'' (dmApprovals demo_overtaken)"
    using demo_overtaken_shape by blast
  let ?d1 = "demo_overtaken\<lparr>dmInFlight := [[ResumeSession ''s-1'']]\<rparr>"
  let ?d2 = "demo_overtaken\<lparr>dmInFlight := [[]]\<rparr>"
  let ?d3 = "run_effect (ResumeSession ''s-1'') ?d2"
  have "daemon_reachable False whole (run_effect (AuditApproval ap) ?d1, None)"
    using dr_step[OF demo_overtaken_reachable ds_effect[of demo_overtaken "[]" "AuditApproval ap" "[ResumeSession ''s-1'']" "[]"]] d(5)
    by simp
  then have "daemon_reachable False whole (?d1, None)" by (simp add: run_effect_def)
  then have reach: "daemon_reachable False whole (?d3, None)"
    using dr_step[OF _ ds_effect[of ?d1 "[]" "ResumeSession ''s-1''" "[]" "[]"]] by simp
  have "?d3 = ?d2\<lparr>dmManager := store ''s-1'' (moved StateActive rec) (with_sv ?d2),
      dmCalls := Suc (dmCalls ?d2), dmApplied := dmApplied ?d2 @ [(CallThaw, ''s-1'')]\<rparr>"
    using manager_Resume_works[of ?d2 "''s-1''" rec] d by (simp add: run_effect_def groupOf_def)
  then have "in_state StateActive ''s-1'' ?d3" "dmApplied ?d3 = dmApplied ?d2 @ [(CallThaw, ''s-1'')]"
    "waiting ''s-1'' (dmApprovals ?d3)"
    using d(6) by (simp_all add: in_state_def)
  moreover from this(2) have "\<not> frozen ''s-1'' ?d3" by (simp add: frozen_append)
  ultimately show ?thesis using reach by blast
qed

text \<open>
  The other way to the same end: a second decision finds the session suspended; before its request is
  opened, the first one is granted, and the grant takes effect at once.
\<close>

lemma interrupted_run:
  "\<exists>d sid. daemon_reachable True False (d, None) \<and> waiting sid (dmApprovals d) \<and>
     in_state StateActive sid d \<and> \<not> frozen sid d"
proof -
  obtain rec req where d: "map_of (mgSessions (dmManager demo_asked)) ''s-1'' = Some rec"
    "sesState (mdSession rec) = StateSuspended" "sesMode (mdSession rec) = ModeInteractive"
    "groupOf ''s-1'' demo_asked" "dmHost demo_asked = (\<lambda>n c s. None)"
    "apPending (dmApprovals demo_asked) = [(''apr-s-1-1'', req)]" "arSessionID req = ''s-1''"
    "apTerminating (dmApprovals demo_asked) = {}"
    using demo_asked_shape by blast
  let ?q = "Some (Asking (asking_decision demo_decision) None)"
  have "begin_asking demo_decision demo_asked = Some (asking_decision demo_decision, demo_asked)"
    using d(1-3) by (simp add: begin_asking_def react_contain_def Binding_def AcceptsEvents_def suspend_def
        Get_def lookup_def asking_decision_def demo_decision_def)
  then have begun: "daemon_reachable True False (demo_asked, ?q)"
    by (intro dr_step[OF demo_asked_reachable ds_enforce_begins]) simp_all
  let ?a = "without (asRequestID demo_grant) (dmApprovals demo_asked)"
  have known: "map_of (apPending (dmApprovals demo_asked)) (asRequestID demo_grant) = Some req" "asApproved demo_grant"
    using d(6) by (simp_all add: demo_grant_def demo_denial_def)
  have "apPending ?a = []" using d(6) by (simp add: without_def demo_grant_def demo_denial_def)
  then have "\<exists>ap. resolve 20 demo_grant (dmApprovals demo_asked) = (True, [AuditApproval ap, ResumeSession ''s-1''], ?a)"
    using resolve_approved[OF known, of 20] d(7,8) by (simp add: waiting_def Let_def)
  then have answered: "answer_at_once 20 demo_grant demo_asked = snd (manager_Resume ''s-1'' (demo_asked\<lparr>dmApprovals := ?a\<rparr>))"
    by (auto simp: answer_at_once_def run_effect_def)
  let ?d1 = "answer_at_once 20 demo_grant demo_asked"
  have d1: "in_state StateActive ''s-1'' ?d1" "dmApplied ?d1 = dmApplied demo_asked @ [(CallThaw, ''s-1'')]"
    "apTerminating (dmApprovals ?d1) = {}"
    using manager_Resume_works[of "demo_asked\<lparr>dmApprovals := ?a\<rparr>" "''s-1''" rec] d
    by (simp_all add: answered groupOf_def in_state_def without_def)
  let ?d2 = "after_asking 30 demo_decision ?d1"
  have "daemon_reachable True False (?d1, ?q)" by (rule dr_step[OF begun ds_answer_at_once]) simp
  then have "daemon_reachable True False (?d2, None)"
    using dr_step[OF _ ds_asks[of True False ?d1 "Asking (asking_decision demo_decision) None" 30]]
    by (simp add: finish_asking_def after_asking_def)
  moreover have "waiting ''s-1'' (dmApprovals ?d2)"
    using after_asking_waits[of demo_decision ?d1 30] d1(3) by (simp add: demo_decision_def)
  moreover have "in_state StateActive ''s-1'' ?d2" using d1(1) by (simp add: in_state_def)
  moreover have "\<not> frozen ''s-1'' ?d2" using d1(2) by (simp add: frozen_append)
  ultimately show ?thesis by blast
qed

section \<open>Properties\<close>

text \<open>C14: a session recorded as suspended is frozen. In every state the daemon can reach, under every
  interleaving of its goroutines and whatever the groups answer, the last freeze or thaw of a
  suspended session's tree that succeeded was a freeze.\<close>

theorem suspended_sessions_are_frozen:
  assumes "daemon_reachable at_once whole (d, q)" and "in_state StateSuspended sid d"
  shows "frozen sid d"
  using reachable_invariant[OF assms(1)] assms(2) by (simp add: daemon_ok_def parts_ok_def suspended_frozen_def)

text \<open>C12: exactly two interleavings can leave a session running while a request for its approval is open.
  Where an answer takes effect before anything else happens, and no answer comes between the two halves
  of a reaction, every state the daemon can reach has each session with an open request suspended and
  its tree frozen; where either can happen, some state does not.\<close>

theorem asked_sessions_stay_frozen:
  "(\<forall>d q sid. daemon_reachable at_once whole (d, q) \<and> waiting sid (dmApprovals d) \<longrightarrow>
      in_state StateSuspended sid d \<and> frozen sid d) \<longleftrightarrow> at_once \<and> whole"
    (is "?kept \<longleftrightarrow> _")
proof
  show "?kept" if both: "at_once \<and> whole"
    using reachable_invariant[of at_once whole] both
    by (fastforce simp: daemon_ok_def parts_ok_def suspended_frozen_def waiting_suspended_def)
  assume kept: ?kept
  have at_once using kept overtaken_run[of whole] by (cases at_once) (auto dest: spec)
  moreover have whole using kept interrupted_run \<open>at_once\<close> by (cases whole) (auto dest: spec)
  ultimately show "at_once \<and> whole" ..
qed

theorem suspended_sessions_are_frozen_witness:
  "daemon_reachable False False (demo_asked, None) \<and> in_state StateSuspended ''s-1'' demo_asked \<and> frozen ''s-1'' demo_asked"
  using suspended_sessions_are_frozen[of False False demo_asked None "''s-1''"] demo_asked_reachable demo_asked_waits
  by blast

theorem asked_sessions_stay_frozen_witness:
  "daemon_reachable True True (demo_asked, None) \<and> waiting ''s-1'' (dmApprovals demo_asked) \<and>
     frozen ''s-1'' demo_asked \<and>
   (\<exists>d q sid. daemon_reachable True False (d, q) \<and> waiting sid (dmApprovals d) \<and>
     \<not> (in_state StateSuspended sid d \<and> frozen sid d))"
  using asked_sessions_stay_frozen[of True True] asked_sessions_stay_frozen[of True False]
    demo_asked_reachable demo_asked_waits by blast

text \<open>C11: as written, a resumption can overtake a request opened after its answer. The daemon can reach a
  state in which a session runs, thawed, while a request for its approval is open, even if no reaction is
  ever interrupted: the answer to the
  first request leaves its lock, a decision on an event still in flight finds the session suspended and
  opens a second request without freezing anything, and then the resumption of the first answer runs.\<close>

theorem resumption_overtakes_a_new_request:
  "\<exists>d sid. daemon_reachable False True (d, None) \<and> waiting sid (dmApprovals d) \<and>
     in_state StateActive sid d \<and> \<not> frozen sid d"
  by (rule overtaken_run)

end
