(* ===== verification/GoFloat.thy ===== *)
theory GoFloat
  imports Prelude "HOL-Library.Log_Nat"
begin

text \<open>
  Arithmetic on \<open>float64\<close> as far as the program does any: addition, rounded to the nearest
  representable number with ties to even, and Go's \<open>math.Min\<close> and \<open>math.Max\<close>. A decimal literal
  is rounded the same way. The two zeros are one value.
\<close>

section \<open>Rounding\<close>

definition round_even :: "rat \<Rightarrow> int" where
  "round_even x =
     (let n = \<lfloor>x\<rfloor>; d = x - of_int n in
      if d < 1 / 2 then n else if 1 / 2 < d then n + 1 else if even n then n else n + 1)"

text \<open>\<open>exponent2 x\<close> is the \<open>e\<close> with \<open>2 ^ e \<le> x < 2 ^ (e + 1)\<close>, for a positive \<open>x\<close>.\<close>

definition exponent2 :: "rat \<Rightarrow> int" where
  "exponent2 x = (if 1 \<le> x then bitlen \<lfloor>x\<rfloor> - 1 else - bitlen (\<lceil>1 / x\<rceil> - 1))"

definition pow2 :: "int \<Rightarrow> rat" where
  "pow2 e = (if 0 \<le> e then 2 ^ nat e else 1 / 2 ^ nat (- e))"

definition ulp :: "rat \<Rightarrow> rat" where
  "ulp x = pow2 (max (exponent2 \<bar>x\<bar> - 52) (- 1074))"

definition fl :: "rat \<Rightarrow> float64" where
  "fl x =
     (if x = 0 then Finite 0
      else
        (let r = of_int (round_even (x / ulp x)) * ulp x in
         if 2 ^ 1024 \<le> \<bar>r\<bar> then (if 0 < x then PosInf else NegInf) else Finite r))"

lemma round_even_int [simp]: "round_even (of_int n) = n"
  by (simp add: round_even_def)

lemma pow2_pos [simp]: "0 < pow2 e"
  by (simp add: pow2_def)

text \<open>An integer below \<open>2 ^ 53\<close> is a multiple of its last place, so rounding keeps it.\<close>

lemma ulp_int:
  assumes "n \<noteq> 0" "\<bar>n\<bar> < 2 ^ 53"
  obtains k where "k \<le> 52" "ulp (of_int n) = 1 / 2 ^ k"
proof -
  have abs: "\<bar>of_int n :: rat\<bar> = of_int \<bar>n\<bar>" by simp
  have one: "1 \<le> \<bar>n\<bar>" using assms(1) by linarith
  have e: "exponent2 \<bar>of_int n\<bar> = bitlen \<bar>n\<bar> - 1"
    using one by (simp only: abs exponent2_def floor_of_int of_int_1_le_iff if_True)
  have "bitlen \<bar>n\<bar> \<le> 53" using assms(2) one bitlen_le_iff_power [of "\<bar>n\<bar>" 53] by simp
  moreover have "1 \<le> bitlen \<bar>n\<bar>"
    using one bitlen_eq_zero_iff [of "\<bar>n\<bar>"] bitlen_nonneg [of "\<bar>n\<bar>"] by linarith
  ultimately have "nat (53 - bitlen \<bar>n\<bar>) \<le> 52" "ulp (of_int n) = 1 / 2 ^ nat (53 - bitlen \<bar>n\<bar>)"
    by (auto simp: ulp_def e pow2_def max_def)
  then show thesis by (rule that)
qed

lemma fl_int:
  assumes "\<bar>n\<bar> < 2 ^ 53"
  shows "fl (of_int n) = Finite (of_int n)"
proof (cases "n = 0")
  case False
  then obtain k where k: "ulp (of_int n) = 1 / 2 ^ k" using assms ulp_int by blast
  have "(of_int n :: rat) / ulp (of_int n) = of_int (n * 2 ^ k)" by (simp add: k)
  then have r: "of_int (round_even (of_int n / ulp (of_int n))) * ulp (of_int n) = (of_int n :: rat)"
    by (simp only: round_even_int) (simp add: k)
  have "(2 :: int) ^ 53 \<le> 2 ^ 1024" by (rule power_increasing) simp_all
  then have "\<not> 2 ^ 1024 \<le> \<bar>n\<bar>" using assms by linarith
  then have "\<not> (2 :: rat) ^ 1024 \<le> \<bar>of_int n\<bar>" by (metis of_int_abs of_int_le_iff of_int_numeral of_int_power)
  with r False show ?thesis by (simp only: fl_def Let_def) simp
qed (simp add: fl_def)

lemma exponent2_le:
  assumes "1 \<le> x"
  shows "2 ^ nat (exponent2 x) \<le> x" "0 \<le> exponent2 x"
proof -
  have n: "1 \<le> \<lfloor>x\<rfloor>" using assms by simp
  then have b: "2 ^ nat (bitlen \<lfloor>x\<rfloor> - 1) \<le> \<lfloor>x\<rfloor>" "1 \<le> bitlen \<lfloor>x\<rfloor>"
    using bitlen_bounds [of "\<lfloor>x\<rfloor>"] bitlen_eq_zero_iff [of "\<lfloor>x\<rfloor>"] bitlen_nonneg [of "\<lfloor>x\<rfloor>"] by linarith+
  have "(2 :: rat) ^ nat (bitlen \<lfloor>x\<rfloor> - 1) = of_int (2 ^ nat (bitlen \<lfloor>x\<rfloor> - 1))" by simp
  also have "\<dots> \<le> of_int \<lfloor>x\<rfloor>" using b(1) by (simp only: of_int_le_iff)
  also have "\<dots> \<le> x" by simp
  finally show "2 ^ nat (exponent2 x) \<le> x" using assms by (simp add: exponent2_def)
  show "0 \<le> exponent2 x" using assms b(2) by (simp add: exponent2_def)
qed

lemma round_even_bound: "x - 1 \<le> of_int (round_even x)"
  by (auto simp: round_even_def Let_def) linarith+

text \<open>Rounding a number of at least 1 does not take it below its half.\<close>

lemma fl_at_least_half:
  assumes "1 \<le> x"
  shows "fl x = PosInf \<or> (\<exists>r. fl x = Finite r \<and> x / 2 \<le> r)"
proof -
  define e where "e = exponent2 x"
  have e: "2 ^ nat e \<le> x" "0 \<le> e" using exponent2_le [OF assms] by (simp_all add: e_def)
  have u: "ulp x \<le> 2 ^ nat e / 2"
  proof -
    have "ulp x = pow2 (e - 52)" using assms e(2) by (simp add: ulp_def e_def max_def)
    also have "\<dots> \<le> 2 ^ nat e / 2"
    proof (cases "52 \<le> e")
      case True
      then have "nat e = nat (e - 52) + 52" by simp
      then have "(2 :: rat) ^ nat e = 2 ^ nat (e - 52) * 2 ^ 52" by (metis power_add)
      then show ?thesis using True by (simp add: pow2_def)
    next
      case False
      then have "(2 :: rat) \<le> 2 ^ nat (52 - e)" using self_le_power [of "2 :: rat" "nat (52 - e)"] by simp
      moreover have "(1 :: rat) \<le> 2 ^ nat e" by simp
      ultimately have "2 * 1 \<le> (2 :: rat) ^ nat (52 - e) * 2 ^ nat e" by (intro mult_mono) auto
      then show ?thesis using False by (simp add: pow2_def field_simps)
    qed
    finally show ?thesis .
  qed
  have pos: "0 < ulp x" by (simp add: ulp_def)
  define r where "r = of_int (round_even (x / ulp x)) * ulp x"
  have "(x / ulp x - 1) * ulp x \<le> r"
    unfolding r_def using pos by (intro mult_right_mono round_even_bound) simp
  moreover have "(x / ulp x - 1) * ulp x = x - ulp x" using pos by (simp add: left_diff_distrib)
  ultimately have "x - ulp x \<le> r" by simp
  then have half: "x / 2 \<le> r" using u e(1) by linarith
  have "fl x = (if 2 ^ 1024 \<le> \<bar>r\<bar> then PosInf else Finite r)"
    using assms by (simp add: fl_def Let_def r_def)
  then show ?thesis using half by (cases "2 ^ 1024 \<le> \<bar>r\<bar>") auto
qed

section \<open>Operations\<close>

fun float_add :: "float64 \<Rightarrow> float64 \<Rightarrow> float64" where
  "float_add (Finite x) (Finite y) = fl (x + y)"
| "float_add NaN y = NaN"
| "float_add x NaN = NaN"
| "float_add PosInf NegInf = NaN"
| "float_add NegInf PosInf = NaN"
| "float_add PosInf y = PosInf"
| "float_add x PosInf = PosInf"
| "float_add NegInf y = NegInf"
| "float_add x NegInf = NegInf"

definition go_min :: "float64 \<Rightarrow> float64 \<Rightarrow> float64" where
  "go_min x y =
     (if x = NegInf \<or> y = NegInf then NegInf else if x = NaN \<or> y = NaN then NaN
      else if float_less x y then x else y)"

definition go_max :: "float64 \<Rightarrow> float64 \<Rightarrow> float64" where
  "go_max x y =
     (if x = PosInf \<or> y = PosInf then PosInf else if x = NaN \<or> y = NaN then NaN
      else if float_less x y then y else x)"

text \<open>An integer small enough to be exact, and the sum of such integers.\<close>

abbreviation whole :: "nat \<Rightarrow> float64" where
  "whole n \<equiv> Finite (of_nat n)"

lemma float_add_whole:
  assumes "m + n < 2 ^ 53"
  shows "float_add (whole m) (whole n) = whole (m + n)"
proof -
  have "fl (of_int (int (m + n))) = Finite (of_int (int (m + n)))"
    by (rule fl_int) (use assms in \<open>simp flip: of_nat_add\<close>)
  then show ?thesis by simp
qed

lemma float_less_whole [simp]: "float_less (whole m) (whole n) \<longleftrightarrow> m < n"
  by simp

lemma go_min_whole [simp]: "go_min (whole m) (whole n) = whole (min m n)"
  by (simp add: go_min_def min_def)

lemma go_max_whole [simp]: "go_max (whole m) (whole n) = whole (max m n)"
  by (simp add: go_max_def max_def)

lemma float_add_sum:
  assumes "sum_list ns + m < 2 ^ 53"
  shows "foldl (\<lambda>s n. float_add s (whole n)) (whole m) ns = whole (m + sum_list ns)"
  using assms
proof (induction ns arbitrary: m)
  case (Cons n ns)
  have "float_add (whole m) (whole n) = whole (m + n)" using Cons.prems by (intro float_add_whole) simp
  with Cons.prems Cons.IH [of "m + n"] show ?case by (simp add: ac_simps)
qed simp

end
