(* ===== verification/Sensitivity.thy ===== *)
theory Sensitivity
  imports Path Network Capability
begin

text \<open>
  Sensitivity lists and the oracle built from one (\<open>internal/risk/sensitivity.go\<close> and the list half
  of \<open>host.go\<close>): the two sections of the file, its admission check, the scan order highest grade
  first, and what the oracle answers for a path and for a host.
\<close>

section \<open>Grades\<close>

definition SensitivityUnknown :: severity where
  "SensitivityUnknown = SeverityOther []"

primrec sensitivityRank :: "severity \<Rightarrow> int" where
  "sensitivityRank SeverityInfo = 0"
| "sensitivityRank SeverityLow = 1"
| "sensitivityRank SeverityMedium = 2"
| "sensitivityRank SeverityHigh = 3"
| "sensitivityRank SeverityCritical = 4"
| "sensitivityRank (SeverityOther s) = - 1"

definition KnownSensitivity :: "severity \<Rightarrow> bool" where
  "KnownSensitivity s = (sensitivityRank s \<ge> 0)"

primrec severity_string :: "severity \<Rightarrow> string" where
  "severity_string SeverityInfo = ''info''"
| "severity_string SeverityLow = ''low''"
| "severity_string SeverityMedium = ''medium''"
| "severity_string SeverityHigh = ''high''"
| "severity_string SeverityCritical = ''critical''"
| "severity_string (SeverityOther s) = s"

section \<open>The list\<close>

record sensitivity_entry =
  sePatterns :: "string list"
  seSensitivity :: severity
  seReason :: string

record host_sensitivity_entry =
  hePatterns :: "string list"
  heSensitivity :: severity
  heReason :: string

record sensitivity_list =
  slName :: string
  slVersion :: string
  slDescription :: string
  slPaths :: "sensitivity_entry list"
  slHosts :: "host_sensitivity_entry list"

definition ErrNoSensitivityEntries :: msg where
  "ErrNoSensitivityEntries = Fmt ''risk: sensitivity list contains no entries'' []"

subsection \<open>Admission\<close>

text \<open>The pattern loop of an entry, and the checks both sections make in the same order.\<close>

fun check_patterns :: "(string \<Rightarrow> go_error) \<Rightarrow> msg \<Rightarrow> string list \<Rightarrow> go_error" where
  "check_patterns validate wher [] = None"
| "check_patterns validate wher (p # ps) =
     (case validate p of
        Some err \<Rightarrow>
          Some (Fmt ''risk: %s: %w; an unusable pattern matches nothing, so the list is refused rather than silently protecting less than it reads''
            [AMsg wher, AMsg err])
      | None \<Rightarrow> check_patterns validate wher ps)"

definition check_entry ::
  "(string \<Rightarrow> go_error) \<Rightarrow> msg \<Rightarrow> string list \<Rightarrow> severity \<Rightarrow> string \<Rightarrow> go_error" where
  "check_entry validate wher patterns s reason =
     (if patterns = [] then Some (Fmt ''risk: %s has no patterns'' [AMsg wher])
      else if s = SensitivityUnknown then
        Some (Fmt ''risk: %s does not set sensitivity; write it out, since an entry that grades nothing is an entry that says nothing''
          [AMsg wher])
      else if \<not> KnownSensitivity s then
        Some (Fmt ''risk: %s has unknown sensitivity %q; want one of info, low, medium, high, critical''
          [AMsg wher, AStr (severity_string s)])
      else if reason = [] then
        Some (Fmt ''risk: %s has no reason; every entry in a sensitivity list is a security claim, and a claim nobody can review is a claim nobody will remove''
          [AMsg wher])
      else check_patterns validate wher patterns)"

fun host_entries_loop :: "nat \<Rightarrow> string \<Rightarrow> host_sensitivity_entry list \<Rightarrow> go_error" where
  "host_entries_loop i source [] = None"
| "host_entries_loop i source (e # es) =
     (case check_entry ValidateHostPattern (Fmt ''host entry #%d in %s'' [AInt (int i), AStr source])
             (hePatterns e) (heSensitivity e) (heReason e) of
        Some err \<Rightarrow> Some err
      | None \<Rightarrow> host_entries_loop (Suc i) source es)"

definition validateHostEntries :: "host_sensitivity_entry list \<Rightarrow> string \<Rightarrow> go_error" where
  "validateHostEntries entries source = host_entries_loop 0 source entries"

fun path_entries_loop :: "nat \<Rightarrow> string \<Rightarrow> sensitivity_entry list \<Rightarrow> go_error" where
  "path_entries_loop i source [] = None"
| "path_entries_loop i source (e # es) =
     (case check_entry ValidatePattern (Fmt ''entry #%d in %s'' [AInt (int i), AStr source])
             (sePatterns e) (seSensitivity e) (seReason e) of
        Some err \<Rightarrow> Some err
      | None \<Rightarrow> path_entries_loop (Suc i) source es)"

definition validateSensitivityList :: "sensitivity_list \<Rightarrow> string \<Rightarrow> go_error" where
  "validateSensitivityList list source =
     (if slPaths list = [] \<and> slHosts list = [] then
        Some (Fmt ''%w: %s'' [AMsg ErrNoSensitivityEntries, AStr source])
      else
        (case validateHostEntries (slHosts list) source of
           Some err \<Rightarrow> Some err
         | None \<Rightarrow> path_entries_loop 0 source (slPaths list)))"

subsection \<open>Loading\<close>

text \<open>
  The YAML decoder is not code of the repository: \<open>decode\<close> gives what its first \<open>Decode\<close> returns on
  the bytes, with unknown fields rejected, and what a second one on the rest returns. Reading the file
  is the parameter \<open>read\<close>.
\<close>

datatype 'a decoded = DecodeEOF | DecodeError msg | Document 'a

definition ParseSensitivityList ::
  "(string \<Rightarrow> sensitivity_list decoded \<times> unit decoded) \<Rightarrow> string \<Rightarrow> string \<Rightarrow> msg + sensitivity_list" where
  "ParseSensitivityList decode data source =
     (case decode data of (first, extra) \<Rightarrow>
        (case first of
           DecodeEOF \<Rightarrow> Inl (Fmt ''%w: %s'' [AMsg ErrNoSensitivityEntries, AStr source])
         | DecodeError err \<Rightarrow> Inl (Fmt ''risk: parse sensitivity list %s: %w'' [AStr source, AMsg err])
         | Document list \<Rightarrow>
             (case extra of
                DecodeError err \<Rightarrow> Inl (Fmt ''risk: parse sensitivity list %s: %w'' [AStr source, AMsg err])
              | Document _ \<Rightarrow>
                  Inl (Fmt ''risk: sensitivity list %s contains more than one YAML document; only the first would be used''
                    [AStr source])
              | DecodeEOF \<Rightarrow>
                  (case validateSensitivityList list source of
                     Some err \<Rightarrow> Inl err
                   | None \<Rightarrow> Inr list))))"

definition LoadSensitivityList ::
  "(string \<Rightarrow> msg + string) \<Rightarrow> (string \<Rightarrow> sensitivity_list decoded \<times> unit decoded) \<Rightarrow> string \<Rightarrow>
     msg + sensitivity_list" where
  "LoadSensitivityList read decode path =
     (case read path of
        Inl err \<Rightarrow> Inl (Fmt ''risk: read sensitivity list: %w'' [AMsg err])
      | Inr data \<Rightarrow> ParseSensitivityList decode data path)"

section \<open>The oracle\<close>

record host_rule =
  hrPattern :: string
  hrGrade :: severity
  hrReason :: string
  hrKind :: host_kind

text \<open>\<open>sort.SliceStable\<close> by falling grade, then one rule per pattern of each entry.\<close>

definition compileHostRules :: "host_sensitivity_entry list \<Rightarrow> host_rule list" where
  "compileHostRules entries =
     concat (map (\<lambda>e. map (\<lambda>p. \<lparr>hrPattern = p, hrGrade = heSensitivity e, hrReason = heReason e,
                               hrKind = ClassifyHost p\<rparr>) (hePatterns e))
       (sort_key (\<lambda>e. - sensitivityRank (heSensitivity e)) entries))"

definition canCompare :: "host_kind \<Rightarrow> host_kind \<Rightarrow> bool" where
  "canCompare pattern observed =
     (case observed of
        HostKindName \<Rightarrow> pattern = HostKindName \<or> pattern = HostKindWildcard
      | HostKindIP \<Rightarrow> pattern = HostKindIP \<or> pattern = HostKindCIDR
      | _ \<Rightarrow> False)"

record resource_oracle =
  roSet :: "pattern_set option"
  roGrades :: "severity list"
  roReasons :: "string list"
  roHosts :: "host_rule list"
  roList :: sensitivity_list

text \<open>The flattened patterns of the path section, with the grade and the reason of each.\<close>

definition path_rows :: "sensitivity_entry list \<Rightarrow> (string \<times> severity \<times> string) list" where
  "path_rows entries =
     concat (map (\<lambda>e. map (\<lambda>p. (p, seSensitivity e, seReason e)) (sePatterns e))
       (sort_key (\<lambda>e. - sensitivityRank (seSensitivity e)) entries))"

definition NewResourceOracle :: "sensitivity_list option \<Rightarrow> msg + resource_oracle" where
  "NewResourceOracle list =
     (case list of
        None \<Rightarrow> Inl (Fmt ''risk: sensitivity list is required'' [])
      | Some l \<Rightarrow>
          (case validateSensitivityList l ''the supplied list'' of
             Some err \<Rightarrow> Inl err
           | None \<Rightarrow>
               (let rows = path_rows (slPaths l) in
                case CompilePatterns (map fst rows) of
                  Inl err \<Rightarrow> Inl (Fmt ''risk: compiling sensitivity patterns: %w'' [AMsg err])
                | Inr compiled \<Rightarrow>
                    Inr \<lparr>roSet = Some compiled, roGrades = map (fst \<circ> snd) rows,
                         roReasons = map (snd \<circ> snd) rows, roHosts = compileHostRules (slHosts l),
                         roList = l\<rparr>)))"

definition LoadResourceOracle ::
  "(string \<Rightarrow> msg + string) \<Rightarrow> (string \<Rightarrow> sensitivity_list decoded \<times> unit decoded) \<Rightarrow> string \<Rightarrow>
     msg + resource_oracle" where
  "LoadResourceOracle read decode path =
     (case LoadSensitivityList read decode path of
        Inl err \<Rightarrow> Inl err
      | Inr list \<Rightarrow> NewResourceOracle (Some list))"

text \<open>A nil oracle is \<open>None\<close>.\<close>

definition PathSensitivityReason :: "resource_oracle option \<Rightarrow> string \<Rightarrow> severity \<times> string" where
  "PathSensitivityReason o' path =
     (case o' of
        None \<Rightarrow> (SensitivityUnknown, [])
      | Some r \<Rightarrow>
          (if path = [] then (SensitivityUnknown, [])
           else
             (case psMatchIndex (roSet r) path of
                None \<Rightarrow> (SensitivityUnknown, [])
              | Some i \<Rightarrow> (roGrades r ! i, roReasons r ! i))))"

definition PathSensitivity :: "resource_oracle option \<Rightarrow> string \<Rightarrow> severity" where
  "PathSensitivity o' path = fst (PathSensitivityReason o' path)"

definition RatesPaths :: "resource_oracle option \<Rightarrow> bool" where
  "RatesPaths o' = (case o' of None \<Rightarrow> False | Some r \<Rightarrow> psLen (roSet r) > 0)"

definition RatesHosts :: "resource_oracle option \<Rightarrow> bool" where
  "RatesHosts o' = (case o' of None \<Rightarrow> False | Some r \<Rightarrow> roHosts r \<noteq> [])"

fun scan_hosts :: "host_rule list \<Rightarrow> host_kind \<Rightarrow> string \<Rightarrow> severity \<times> string" where
  "scan_hosts [] observed host = (SensitivityUnknown, [])"
| "scan_hosts (r # rs) observed host =
     (if \<not> canCompare (hrKind r) observed then scan_hosts rs observed host
      else if MatchHost (hrPattern r) host then (hrGrade r, hrReason r)
      else scan_hosts rs observed host)"

definition HostSensitivityReason :: "resource_oracle option \<Rightarrow> string \<Rightarrow> severity \<times> string" where
  "HostSensitivityReason o' host =
     (case o' of
        None \<Rightarrow> (SensitivityUnknown, [])
      | Some r \<Rightarrow>
          (if host = [] then (SensitivityUnknown, [])
           else
             (let observed = ClassifyHost host in
              if observed \<noteq> HostKindName \<and> observed \<noteq> HostKindIP then (SensitivityUnknown, [])
              else scan_hosts (roHosts r) observed host)))"

definition HostSensitivity :: "resource_oracle option \<Rightarrow> string \<Rightarrow> severity" where
  "HostSensitivity o' host = fst (HostSensitivityReason o' host)"

definition ExecutableSensitivity :: "resource_oracle option \<Rightarrow> string \<Rightarrow> severity" where
  "ExecutableSensitivity o' path = SensitivityUnknown"

section \<open>Admission, as one condition\<close>

lemma check_patterns_None: "check_patterns v w ps = None \<longleftrightarrow> (\<forall>p\<in>set ps. v p = None)"
  by (induction ps) (auto split: option.splits)

lemma check_entry_None:
  "check_entry v w ps s reason = None \<longleftrightarrow>
     ps \<noteq> [] \<and> KnownSensitivity s \<and> reason \<noteq> [] \<and> (\<forall>p\<in>set ps. v p = None)"
  by (auto simp: check_entry_def check_patterns_None KnownSensitivity_def SensitivityUnknown_def)

lemma first_error_None:
  "(case x of None \<Rightarrow> y | Some err \<Rightarrow> Some err) = None \<longleftrightarrow> x = None \<and> y = None"
  by (cases x) auto

lemma host_entries_None:
  "host_entries_loop i source es = None \<longleftrightarrow>
     (\<forall>e\<in>set es. hePatterns e \<noteq> [] \<and> KnownSensitivity (heSensitivity e) \<and> heReason e \<noteq> [] \<and>
        (\<forall>p\<in>set (hePatterns e). ValidateHostPattern p = None))"
  by (induction es arbitrary: i) (auto simp only: host_entries_loop.simps first_error_None check_entry_None list.set ball_simps)

lemma path_entries_None:
  "path_entries_loop i source es = None \<longleftrightarrow>
     (\<forall>e\<in>set es. sePatterns e \<noteq> [] \<and> KnownSensitivity (seSensitivity e) \<and> seReason e \<noteq> [] \<and>
        (\<forall>p\<in>set (sePatterns e). ValidatePattern p = None))"
  by (induction es arbitrary: i) (auto simp only: path_entries_loop.simps first_error_None check_entry_None list.set ball_simps)

definition admissible :: "sensitivity_list \<Rightarrow> bool" where
  "admissible l \<longleftrightarrow> (slPaths l \<noteq> [] \<or> slHosts l \<noteq> []) \<and>
     host_entries_loop 0 [] (slHosts l) = None \<and> path_entries_loop 0 [] (slPaths l) = None"

lemma validate_admissible: "validateSensitivityList l source = None \<longleftrightarrow> admissible l"
  by (simp add: validateSensitivityList_def validateHostEntries_def admissible_def first_error_None
      host_entries_None path_entries_None)

lemma NewResourceOracle_Inr:
  "NewResourceOracle (Some l) = Inr r \<longleftrightarrow>
     admissible l \<and>
     (\<exists>ps. CompilePatterns (map fst (path_rows (slPaths l))) = Inr ps \<and>
        r = \<lparr>roSet = Some ps, roGrades = map (fst \<circ> snd) (path_rows (slPaths l)),
             roReasons = map (snd \<circ> snd) (path_rows (slPaths l)),
             roHosts = compileHostRules (slHosts l), roList = l\<rparr>)"
proof (cases "validateSensitivityList l ''the supplied list''")
  case None
  then have "admissible l" by (simp add: validate_admissible)
  with None show ?thesis by (auto simp: NewResourceOracle_def Let_def split: sum.split)
next
  case (Some err)
  then have "\<not> admissible l" by (metis validate_admissible option.distinct(1))
  with Some show ?thesis by (simp add: NewResourceOracle_def)
qed

text \<open>The second compilation of the patterns never refuses what the admission check accepted.\<close>

lemma admissible_compiles:
  assumes "admissible l"
  shows "\<exists>r. NewResourceOracle (Some l) = Inr r"
proof -
  have "\<forall>p\<in>set (map fst (path_rows (slPaths l))). ValidatePattern p = None"
    using assms by (auto simp: admissible_def path_entries_None path_rows_def)
  then have "\<exists>ps. CompilePatterns (map fst (path_rows (slPaths l))) = Inr ps"
    by (simp add: CompilePatterns_Inr)
  then show ?thesis using assms by (auto simp: NewResourceOracle_Inr)
qed

end
