(* ===== verification/SensitivityLaws.thy ===== *)
theory SensitivityLaws
  imports Sensitivity
begin

text \<open>
  What a sensitivity list promises: the oracle answers with the highest grade of the entries that
  cover the resource, it knows nothing of a resource no entry covers, and more entries never lower
  an answer. The contract is a locale; both sections of the list provide it.
\<close>

section \<open>The first match of a list sorted by grade\<close>

lemma find_found: "x \<in> set xs \<Longrightarrow> P x \<Longrightarrow> \<exists>y. find P xs = Some y"
  by (induction xs) auto

lemma find_sorted_least:
  assumes "sorted (map k xs)" "find P xs = Some x" "y \<in> set xs" "P y"
  shows "k x \<le> k y"
proof -
  obtain us vs where xs: "xs = us @ x # vs" and us: "\<forall>u \<in> set us. \<not> P u"
    using assms(2) by (auto simp: find_split)
  then have "y \<in> set (x # vs)" using assms(3,4) by auto
  then show ?thesis using assms(1) by (auto simp: xs sorted_append)
qed

lemma sorted_blocks:
  assumes "sorted (map k xs)" "\<And>x y. x \<in> set xs \<Longrightarrow> y \<in> set (f x) \<Longrightarrow> k' y = k x"
  shows "sorted (map k' (concat (map f xs)))"
  using assms
proof (induction xs)
  case (Cons x xs)
  then have rest: "sorted (map k' (concat (map f xs)))" by simp
  have "map k' (f x) = replicate (length (f x)) (k x)"
    using Cons.prems(2) by (intro replicate_eqI) auto
  moreover have "k x \<le> k' y" if "y \<in> set (concat (map f xs))" for y
    using that Cons.prems by fastforce
  ultimately show ?case using rest by (auto simp: sorted_append)
qed simp

section \<open>The two sections as lookups\<close>

definition path_row :: "sensitivity_entry list \<Rightarrow> string \<Rightarrow> (string \<times> severity \<times> string) option" where
  "path_row es p = find (\<lambda>row. MatchPath (fst row) p) (path_rows es)"

definition host_row :: "host_sensitivity_entry list \<Rightarrow> string \<Rightarrow> host_rule option" where
  "host_row es h = find (\<lambda>r. MatchHost (hrPattern r) h) (compileHostRules es)"

definition path_grade :: "sensitivity_entry list \<Rightarrow> string \<Rightarrow> severity" where
  "path_grade es p = (case path_row es p of None \<Rightarrow> SensitivityUnknown | Some row \<Rightarrow> fst (snd row))"

definition host_grade :: "host_sensitivity_entry list \<Rightarrow> string \<Rightarrow> severity" where
  "host_grade es h = (case host_row es h of None \<Rightarrow> SensitivityUnknown | Some r \<Rightarrow> hrGrade r)"

definition path_covered :: "sensitivity_entry \<Rightarrow> string \<Rightarrow> bool" where
  "path_covered e p = list_ex (\<lambda>pat. MatchPath pat p) (sePatterns e)"

definition host_covered :: "host_sensitivity_entry \<Rightarrow> string \<Rightarrow> bool" where
  "host_covered e h = list_ex (\<lambda>pat. MatchHost pat h) (hePatterns e)"

text \<open>Skipping the rules that cannot compare changes no answer.\<close>

lemma canCompare_comparable: "canCompare p k \<longleftrightarrow> kinds_comparable p k"
  by (cases k) (auto simp: canCompare_def kinds_comparable_def)

lemma scan_hosts_find:
  "\<forall>r\<in>set rs. hrKind r = ClassifyHost (hrPattern r) \<Longrightarrow>
     scan_hosts rs (ClassifyHost h) h =
       (case find (\<lambda>r. MatchHost (hrPattern r) h) rs of
          None \<Rightarrow> (SensitivityUnknown, []) | Some r \<Rightarrow> (hrGrade r, hrReason r))"
  by (induction rs) (auto simp: canCompare_comparable dest: MatchHost_comparable)

lemma compiled_kinds: "\<forall>r\<in>set (compileHostRules es). hrKind r = ClassifyHost (hrPattern r)"
  by (auto simp: compileHostRules_def)

lemma first_index_find:
  "first_index P xs = None \<longleftrightarrow> find P xs = None"
  "first_index P xs = Some i \<Longrightarrow> i < length xs \<and> find P xs = Some (xs ! i)"
  by (induction xs arbitrary: i) (auto split: if_splits)

lemma empty_path_unmatched: "\<not> MatchPath pat []"
  by (simp add: MatchPath_iff resolvedSegments_def)

lemma empty_host_unmatched: "\<not> MatchHost pat []"
  using MatchHost_comparable [of pat "[]"] by (auto simp: ClassifyHost_def kinds_comparable_def)

lemma PathSensitivityReason_row:
  assumes "NewResourceOracle (Some l) = Inr r"
  shows "PathSensitivityReason (Some r) p =
    (case path_row (slPaths l) p of None \<Rightarrow> (SensitivityUnknown, []) | Some row \<Rightarrow> snd row)"
proof -
  let ?rows = "path_rows (slPaths l)"
  obtain ps where ps: "CompilePatterns (map fst ?rows) = Inr ps" "roSet r = Some ps"
    "roGrades r = map (fst \<circ> snd) ?rows" "roReasons r = map (snd \<circ> snd) ?rows"
    using assms by (auto simp: NewResourceOracle_Inr)
  have index: "psMatchIndex (roSet r) p = first_index (\<lambda>row. MatchPath (fst row) p) ?rows"
    using psMatchIndex_compiled [OF ps(1), of p] by (simp add: ps(2) first_index_map)
  show ?thesis
  proof (cases "first_index (\<lambda>row. MatchPath (fst row) p) ?rows")
    case None
    moreover have "path_row (slPaths l) p = None"
      using None by (simp add: path_row_def flip: first_index_find(1))
    ultimately show ?thesis by (simp add: PathSensitivityReason_def index)
  next
    case (Some i)
    note hit = first_index_find(2) [OF Some]
    then have "MatchPath (fst (?rows ! i)) p" using find_SomeD by fastforce
    then have "p \<noteq> []" using empty_path_unmatched by auto
    then show ?thesis
      using hit by (simp add: PathSensitivityReason_def index Some path_row_def ps(3,4))
  qed
qed

lemma HostSensitivityReason_row:
  assumes "NewResourceOracle (Some l) = Inr r"
  shows "HostSensitivityReason (Some r) h =
    (case host_row (slHosts l) h of None \<Rightarrow> (SensitivityUnknown, []) | Some r \<Rightarrow> (hrGrade r, hrReason r))"
proof -
  have hosts: "roHosts r = compileHostRules (slHosts l)"
    using assms by (auto simp: NewResourceOracle_Inr)
  have unmatched: "host_row (slHosts l) h = None"
    if "h = [] \<or> ClassifyHost h \<noteq> HostKindName \<and> ClassifyHost h \<noteq> HostKindIP"
  proof -
    have "\<not> MatchHost pat h" for pat
      using that MatchHost_comparable [of pat h] empty_host_unmatched
      by (auto simp: kinds_comparable_def)
    then show ?thesis by (simp add: host_row_def find_None_iff)
  qed
  show ?thesis
    using unmatched scan_hosts_find [OF compiled_kinds, of "slHosts l" h]
    by (auto simp: HostSensitivityReason_def Let_def hosts host_row_def)
qed

section \<open>The contract\<close>

locale graded_list =
  fixes covers :: "'e \<Rightarrow> string \<Rightarrow> bool"
    and grade :: "'e \<Rightarrow> severity"
    and lookup :: "'e list \<Rightarrow> string \<Rightarrow> severity"
  assumes from_entry: "e \<in> set es \<Longrightarrow> covers e s \<Longrightarrow>
      \<exists>e'\<in>set es. covers e' s \<and> lookup es s = grade e'"
    and highest: "e \<in> set es \<Longrightarrow> covers e s \<Longrightarrow>
      sensitivityRank (grade e) \<le> sensitivityRank (lookup es s)"
    and unlisted: "\<forall>e\<in>set es. \<not> covers e s \<Longrightarrow> lookup es s = SensitivityUnknown"
begin

lemma rank_at_least: "- 1 \<le> sensitivityRank (lookup es s)"
  by (cases "lookup es s") auto

lemma more_entries_raise:
  assumes "set es \<subseteq> set es'"
  shows "sensitivityRank (lookup es s) \<le> sensitivityRank (lookup es' s)"
proof (cases "\<exists>e\<in>set es. covers e s")
  case True
  then obtain e where "e \<in> set es" "covers e s" "lookup es s = grade e" using from_entry by blast
  then show ?thesis using assms highest [of e es' s] by auto
next
  case False
  then have "lookup es s = SensitivityUnknown" by (intro unlisted) blast
  then show ?thesis using rank_at_least [of es' s] by (simp add: SensitivityUnknown_def)
qed

lemma known_iff_covered:
  assumes "\<forall>e\<in>set es. KnownSensitivity (grade e)"
  shows "lookup es s \<noteq> SensitivityUnknown \<longleftrightarrow> (\<exists>e\<in>set es. covers e s)"
proof
  show "lookup es s \<noteq> SensitivityUnknown \<Longrightarrow> \<exists>e\<in>set es. covers e s" using unlisted by blast
  assume "\<exists>e\<in>set es. covers e s"
  then obtain e where "e \<in> set es" "lookup es s = grade e" using from_entry by blast
  then show "lookup es s \<noteq> SensitivityUnknown"
    using assms by (auto simp: KnownSensitivity_def SensitivityUnknown_def)
qed

lemma graded_by_list:
  assumes "\<forall>e\<in>set es. KnownSensitivity (grade e)"
  shows "lookup es s = SensitivityUnknown \<or> KnownSensitivity (lookup es s)"
  using assms from_entry unlisted by metis

end

lemma row_sorted:
  "sorted (map (\<lambda>row. - sensitivityRank (fst (snd row))) (path_rows es))"
  "sorted (map (\<lambda>r. - sensitivityRank (hrGrade r)) (compileHostRules es'))"
  unfolding path_rows_def compileHostRules_def
  by (rule sorted_blocks [where k = "\<lambda>e. - sensitivityRank (seSensitivity e)"], simp, force)
    (rule sorted_blocks [where k = "\<lambda>e. - sensitivityRank (heSensitivity e)"], simp, force)

lemma path_row_covers:
  "path_row es p = Some row \<Longrightarrow> \<exists>e\<in>set es. path_covered e p \<and> fst (snd row) = seSensitivity e"
  by (fastforce simp: path_row_def path_rows_def path_covered_def list_ex_iff dest!: find_SomeD)

lemma host_row_covers:
  "host_row es h = Some r \<Longrightarrow> \<exists>e\<in>set es. host_covered e h \<and> hrGrade r = heSensitivity e"
  by (fastforce simp: host_row_def compileHostRules_def host_covered_def list_ex_iff dest!: find_SomeD)

lemma path_row_highest:
  assumes "e \<in> set es" "path_covered e p"
  shows "\<exists>row. path_row es p = Some row \<and> sensitivityRank (seSensitivity e) \<le> sensitivityRank (fst (snd row))"
proof -
  obtain pat where pat: "pat \<in> set (sePatterns e)" "MatchPath pat p"
    using assms(2) by (auto simp: path_covered_def list_ex_iff)
  then have row: "(pat, seSensitivity e, seReason e) \<in> set (path_rows es)"
    using assms(1) by (auto simp: path_rows_def)
  then obtain row where "path_row es p = Some row"
    using pat(2) find_found [OF row, where P = "\<lambda>row. MatchPath (fst row) p"] by (auto simp: path_row_def)
  then show ?thesis
    using find_sorted_least [OF row_sorted(1) _ row] pat(2) by (auto simp: path_row_def)
qed

lemma host_row_highest:
  assumes "e \<in> set es" "host_covered e h"
  shows "\<exists>r. host_row es h = Some r \<and> sensitivityRank (heSensitivity e) \<le> sensitivityRank (hrGrade r)"
proof -
  obtain pat where pat: "pat \<in> set (hePatterns e)" "MatchHost pat h"
    using assms(2) by (auto simp: host_covered_def list_ex_iff)
  define rule where "rule = \<lparr>hrPattern = pat, hrGrade = heSensitivity e, hrReason = heReason e,
    hrKind = ClassifyHost pat\<rparr>"
  have rule: "rule \<in> set (compileHostRules es)"
    using assms(1) pat(1) by (auto simp: compileHostRules_def rule_def)
  moreover have "MatchHost (hrPattern rule) h" using pat(2) by (simp add: rule_def)
  ultimately obtain r where "host_row es h = Some r"
    using find_found [OF rule, where P = "\<lambda>r. MatchHost (hrPattern r) h"] by (auto simp: host_row_def)
  then show ?thesis
    using find_sorted_least [OF row_sorted(2) _ rule] pat(2) by (auto simp: host_row_def rule_def)
qed

interpretation paths: graded_list path_covered seSensitivity path_grade
proof
  fix e es s
  assume e: "e \<in> set es" "path_covered e s"
  then obtain row where row: "path_row es s = Some row"
    "sensitivityRank (seSensitivity e) \<le> sensitivityRank (fst (snd row))"
    using path_row_highest by blast
  then show "sensitivityRank (seSensitivity e) \<le> sensitivityRank (path_grade es s)"
    "\<exists>e'\<in>set es. path_covered e' s \<and> path_grade es s = seSensitivity e'"
    using path_row_covers [OF row(1)] by (auto simp: path_grade_def)
next
  fix es s
  assume "\<forall>e\<in>set es. \<not> path_covered e s"
  then show "path_grade es s = SensitivityUnknown"
    using path_row_covers [of es s] by (auto simp: path_grade_def split: option.split)
qed

interpretation hosts: graded_list host_covered heSensitivity host_grade
proof
  fix e es s
  assume e: "e \<in> set es" "host_covered e s"
  then obtain r where r: "host_row es s = Some r"
    "sensitivityRank (heSensitivity e) \<le> sensitivityRank (hrGrade r)"
    using host_row_highest by blast
  then show "sensitivityRank (heSensitivity e) \<le> sensitivityRank (host_grade es s)"
    "\<exists>e'\<in>set es. host_covered e' s \<and> host_grade es s = heSensitivity e'"
    using host_row_covers [OF r(1)] by (auto simp: host_grade_def)
next
  fix es s
  assume "\<forall>e\<in>set es. \<not> host_covered e s"
  then show "host_grade es s = SensitivityUnknown"
    using host_row_covers [of es s] by (auto simp: host_grade_def split: option.split)
qed

lemma oracle_grades:
  assumes "NewResourceOracle (Some l) = Inr r"
  shows "PathSensitivity (Some r) p = path_grade (slPaths l) p"
    "HostSensitivity (Some r) h = host_grade (slHosts l) h"
  using PathSensitivityReason_row [OF assms, of p] HostSensitivityReason_row [OF assms, of h]
  by (auto simp: PathSensitivity_def HostSensitivity_def path_grade_def host_grade_def split: option.split)

lemma oracle_graded:
  assumes "NewResourceOracle (Some l) = Inr r"
  shows "PathSensitivity (Some r) p = SensitivityUnknown \<or> KnownSensitivity (PathSensitivity (Some r) p)"
    "HostSensitivity (Some r) h = SensitivityUnknown \<or> KnownSensitivity (HostSensitivity (Some r) h)"
proof -
  have "\<forall>e\<in>set (slPaths l). KnownSensitivity (seSensitivity e)"
    "\<forall>e\<in>set (slHosts l). KnownSensitivity (heSensitivity e)"
    using assms by (auto simp: NewResourceOracle_Inr admissible_def host_entries_None path_entries_None)
  then show "PathSensitivity (Some r) p = SensitivityUnknown \<or> KnownSensitivity (PathSensitivity (Some r) p)"
    "HostSensitivity (Some r) h = SensitivityUnknown \<or> KnownSensitivity (HostSensitivity (Some r) h)"
    by (simp_all add: oracle_grades [OF assms] paths.graded_by_list hosts.graded_by_list)
qed

end
