(* ===== verification/Risk.thy ===== *)
theory Risk
  imports GoFloat Sensitivity GoText SessionState "HOL-Library.AList"
begin

text \<open>
  The risk engine (\<open>internal/risk\<close>): the point tables, one definition per scorer, the bounded sum that
  combines them, and the engine that runs a scorer set over one event or over a session.

  Points are the natural numbers the tables write; a factor's weight is the \<open>float64\<close> of that number.
  The history a scorer reads is the session state. The oracle is the \<open>SensitivityOracle\<close> interface:
  the methods every oracle has, and those the scorers probe for, \<open>None\<close> where an oracle lacks one.
\<close>

unbundle bit_operations_syntax

section \<open>The scale\<close>

definition ScoreMin :: float64 where "ScoreMin = Finite 0"
definition ScoreMax :: float64 where "ScoreMax = Finite 100"
definition LevelBoundaryMedium :: float64 where "LevelBoundaryMedium = Finite 25"
definition LevelBoundaryHigh :: float64 where "LevelBoundaryHigh = Finite 55"
definition LevelBoundaryCritical :: float64 where "LevelBoundaryCritical = Finite 85"

definition clampScore :: "float64 \<Rightarrow> float64" where
  "clampScore s = (if s = NaN then ScoreMax else go_max ScoreMin (go_min ScoreMax s))"

definition LevelFor :: "float64 \<Rightarrow> level" where
  "LevelFor score =
     (if score = NaN then LevelCritical
      else
        (let s = clampScore score in
         if float_geq ScoreMin s then LevelNone
         else if float_less s LevelBoundaryMedium then LevelLow
         else if float_less s LevelBoundaryHigh then LevelMedium
         else if float_less s LevelBoundaryCritical then LevelHigh
         else LevelCritical))"

section \<open>Names\<close>

definition FactorVerdict :: string where "FactorVerdict = ''verdict''"
definition FactorViolationSeverity :: string where "FactorViolationSeverity = ''violation_severity''"
definition FactorWorkspaceEscape :: string where "FactorWorkspaceEscape = ''workspace_escape''"
definition FactorSensitivePath :: string where "FactorSensitivePath = ''sensitive_path''"
definition FactorNovelTarget :: string where "FactorNovelTarget = ''novel_target''"
definition FactorViolationHistory :: string where "FactorViolationHistory = ''violation_history''"
definition FactorEvidenceBasis :: string where "FactorEvidenceBasis = ''evidence_basis''"
definition FactorSensitiveHost :: string where "FactorSensitiveHost = ''sensitive_host''"
definition FactorUncorrelatedDestination :: string where
  "FactorUncorrelatedDestination = ''uncorrelated_destination''"
definition FactorUnverifiablePath :: string where "FactorUnverifiablePath = ''unverifiable_path''"
definition FactorPrivilegeChange :: string where "FactorPrivilegeChange = ''privilege_change''"
definition FactorCredentialEgress :: string where "FactorCredentialEgress = ''credential_access_egress''"

lemmas factor_names = FactorVerdict_def FactorViolationSeverity_def FactorWorkspaceEscape_def
  FactorSensitivePath_def FactorNovelTarget_def FactorViolationHistory_def FactorEvidenceBasis_def
  FactorSensitiveHost_def FactorUncorrelatedDestination_def FactorUnverifiablePath_def
  FactorPrivilegeChange_def FactorCredentialEgress_def

definition DimensionPath :: string where "DimensionPath = ''path''"
definition DimensionHost :: string where "DimensionHost = ''host''"
definition DimensionExecutable :: string where "DimensionExecutable = ''executable''"
definition DimensionUnrated :: string where "DimensionUnrated = ''unrated''"

lemmas dimension_names = DimensionPath_def DimensionHost_def DimensionExecutable_def DimensionUnrated_def

section \<open>Points and confidence\<close>

primrec verdictPoints :: "verdict \<Rightarrow> nat option" where
  "verdictPoints VerdictWithinEnvelope = Some 0"
| "verdictPoints VerdictIndeterminate = Some 20"
| "verdictPoints VerdictConstraintViolation = Some 25"
| "verdictPoints VerdictGrantExceeded = Some 25"
| "verdictPoints VerdictOutsideEnvelope = Some 30"
| "verdictPoints VerdictExplicitlyDenied = Some 55"
| "verdictPoints (VerdictOther s) = None"

primrec severityPoints :: "severity \<Rightarrow> nat option" where
  "severityPoints SeverityInfo = Some 0"
| "severityPoints SeverityLow = Some 5"
| "severityPoints SeverityMedium = Some 10"
| "severityPoints SeverityHigh = Some 15"
| "severityPoints SeverityCritical = Some 30"
| "severityPoints (SeverityOther s) = None"

primrec sensitivityPoints :: "severity \<Rightarrow> nat option" where
  "sensitivityPoints SeverityInfo = Some 0"
| "sensitivityPoints SeverityLow = Some 0"
| "sensitivityPoints SeverityMedium = Some 8"
| "sensitivityPoints SeverityHigh = Some 15"
| "sensitivityPoints SeverityCritical = Some 25"
| "sensitivityPoints (SeverityOther s) = None"

definition WorkspaceEscapePoints :: nat where "WorkspaceEscapePoints = 10"
definition NovelTargetPoints :: nat where "NovelTargetPoints = 5"
definition ViolationHistoryCap :: nat where "ViolationHistoryCap = 10"
definition UncorrelatedDestinationPoints :: nat where
  "UncorrelatedDestinationPoints = NovelTargetPoints"
definition UnverifiablePathPoints :: nat where "UnverifiablePathPoints = 30"
definition SequencePoints :: nat where "SequencePoints = 30"

lemmas point_constants = WorkspaceEscapePoints_def NovelTargetPoints_def ViolationHistoryCap_def
  UncorrelatedDestinationPoints_def UnverifiablePathPoints_def SequencePoints_def

definition severityPointsFor :: "severity \<Rightarrow> nat" where
  "severityPointsFor s =
     (case severityPoints s of Some p \<Rightarrow> p | None \<Rightarrow> the (severityPoints SeverityMedium))"

definition sensitivityPointsFor :: "severity \<Rightarrow> nat" where
  "sensitivityPointsFor s =
     (if s = SensitivityUnknown then 0
      else (case sensitivityPoints s of Some p \<Rightarrow> p | None \<Rightarrow> the (sensitivityPoints SeverityMedium)))"

definition historyPoints :: "int \<Rightarrow> float64" where
  "historyPoints n = go_min (fl (of_int n)) (whole ViolationHistoryCap)"

definition worstSeverity :: "violation list \<Rightarrow> severity" where
  "worstSeverity vs =
     foldl (\<lambda>worst v. if severityPointsFor (vSeverity v) > severityPointsFor worst then vSeverity v else worst)
       SeverityInfo vs"

definition ConfidenceCeiling :: float64 where "ConfidenceCeiling = fl (9 / 10)"

definition confidenceByBasisCount :: "float64 list" where
  "confidenceByBasisCount = [Finite 0, fl (3 / 10), fl (6 / 10), ConfidenceCeiling]"

definition confidenceFor :: "int \<Rightarrow> float64" where
  "confidenceFor n =
     (if n < 0 then Finite 0
      else if n \<ge> int (length confidenceByBasisCount) then ConfidenceCeiling
      else confidenceByBasisCount ! nat n)"

section \<open>Evidence\<close>

type_synonym evidence = "(string \<times> msg) list"

abbreviation put :: "string \<Rightarrow> msg \<Rightarrow> evidence \<Rightarrow> evidence" where
  "put k v ev \<equiv> AList.update k v ev"

abbreviation decimal :: "int \<Rightarrow> msg" where
  "decimal n \<equiv> lit (itoa n)"

definition boolStr :: "bool \<Rightarrow> msg" where
  "boolStr b = (if b then lit ''true'' else lit ''false'')"

definition countTrue :: "evidence \<Rightarrow> int" where
  "countTrue ev = int (length (filter (\<lambda>(k, v). v = lit ''true'') ev))"

definition verdictEvidence :: "verdict \<Rightarrow> evidence" where
  "verdictEvidence v = [(''verdict'', lit (verdict_string v))]"

definition severityEvidence :: "severity \<Rightarrow> evidence" where
  "severityEvidence s = [(''severity'', lit (severity_string s))]"

definition unknownSensitivityEvidence :: "string \<Rightarrow> evidence" where
  "unknownSensitivityEvidence dimension =
     [(''dimension'', lit dimension), (''sensitivity'', lit ''unknown'')]"

text \<open>The basis tables are indexed by a bit mask of the inputs that were available.\<close>

definition bit_if :: "bool \<Rightarrow> nat \<Rightarrow> nat" where
  "bit_if b v = (if b then v else 0)"

definition eventBasisTable :: "evidence list" where
  "eventBasisTable =
     map (\<lambda>i. [(''verdict_conclusive'', boolStr (i AND 1 \<noteq> 0)),
              (''target_resolved'', boolStr (i AND 2 \<noteq> 0)),
              (''history_available'', boolStr (i AND 4 \<noteq> 0))]) [0..<8]"

definition sessionBasisTable :: "evidence list" where
  "sessionBasisTable =
     map (\<lambda>i. [(''violations_available'', boolStr (i AND 1 \<noteq> 0)),
              (''history_available'', boolStr (i AND 2 \<noteq> 0))]) [0..<4]"

definition eventBasis :: "bool \<Rightarrow> bool \<Rightarrow> bool \<Rightarrow> evidence" where
  "eventBasis verdictConclusive targetResolved historyAvailable =
     eventBasisTable ! (bit_if verdictConclusive 1 OR bit_if targetResolved 2 OR bit_if historyAvailable 4)"

definition sessionBasis :: "bool \<Rightarrow> bool \<Rightarrow> evidence" where
  "sessionBasis violationsAvailable historyAvailable =
     sessionBasisTable ! (bit_if violationsAvailable 1 OR bit_if historyAvailable 2)"

section \<open>Requests\<close>

record sensitivity_source =
  orPath :: "string \<Rightarrow> severity"
  orHost :: "string \<Rightarrow> severity"
  orExecutable :: "string \<Rightarrow> severity"
  orPathReason :: "(string \<Rightarrow> severity \<times> string) option"
  orHostReason :: "(string \<Rightarrow> severity \<times> string) option"
  orRatesPaths :: "bool option"
  orRatesHosts :: "bool option"

definition oracle_of :: "resource_oracle \<Rightarrow> sensitivity_source" where
  "oracle_of r =
     \<lparr>orPath = PathSensitivity (Some r), orHost = HostSensitivity (Some r),
      orExecutable = ExecutableSensitivity (Some r),
      orPathReason = Some (PathSensitivityReason (Some r)),
      orHostReason = Some (HostSensitivityReason (Some r)),
      orRatesPaths = Some (RatesPaths (Some r)), orRatesHosts = Some (RatesHosts (Some r))\<rparr>"

record score_request =
  srEvent :: "event option"
  srValidation :: "validation option"
  srEnvelope :: "envelope option"
  srHistory :: "memory_state option"

record session_score_request =
  ssEnvelope :: "envelope option"
  ssHistory :: "memory_state option"
  ssViolations :: "violation list option"

text \<open>\<open>cxValidation\<close> is the request's validation, which every caller has found to be present.\<close>

record score_ctx =
  cxReq :: score_request
  cxValidation :: validation
  cxTarget :: string
  cxKind :: kind
  cxDeparted :: bool

definition newScoreCtx :: "score_request \<Rightarrow> validation \<Rightarrow> score_ctx" where
  "newScoreCtx req v =
     (let sc = \<lparr>cxReq = req, cxValidation = v, cxTarget = [], cxKind = KindOther [],
                cxDeparted = vrVerdict v \<noteq> VerdictWithinEnvelope\<rparr> in
      case ObservationOf (srEvent req) of
        Inl err \<Rightarrow> sc
      | Inr obs \<Rightarrow> sc\<lparr>cxTarget := obsTarget obs, cxKind := obsKind obs\<rparr>)"

definition ErrRiskNoEvent :: msg where "ErrRiskNoEvent = lit ''risk: event is required''"

definition ErrNoValidation :: msg where
  "ErrNoValidation = lit ''risk: validation result is required; an event that was never validated cannot be scored''"

section \<open>Scorers\<close>

text \<open>Each \<open>evaluate\<close> gives an error, no factor, or the factor.\<close>

subsection \<open>Verdict, severity, workspace\<close>

definition verdict_evaluate :: "score_ctx \<Rightarrow> msg + factor option" where
  "verdict_evaluate sc =
     (let v = vrVerdict (cxValidation sc) in
      case verdictPoints v of
        None \<Rightarrow> Inl (Fmt ''risk: unknown verdict %q; this build cannot score it'' [AStr (verdict_string v)])
      | Some pts \<Rightarrow>
          Inr (Some \<lparr>facName = FactorVerdict, facWeight = whole pts,
                     facDescription = ''how the validator classified this event against the envelope'',
                     facEvidence = verdictEvidence v\<rparr>))"

definition severity_evaluate :: "score_ctx \<Rightarrow> msg + factor option" where
  "severity_evaluate sc =
     (let vs = vrViolations (cxValidation sc) in
      if vs = [] then Inr None
      else
        (let worst = worstSeverity vs in
         Inr (Some \<lparr>facName = FactorViolationSeverity, facWeight = whole (severityPointsFor worst),
                    facDescription = ''the inherent seriousness of the most serious violation on this event'',
                    facEvidence = severityEvidence worst\<rparr>)))"

definition escape_evaluate :: "score_ctx \<Rightarrow> msg + factor option" where
  "escape_evaluate sc =
     (case find (\<lambda>v. vType v = ViolationWorkspaceEscape) (vrViolations (cxValidation sc)) of
        None \<Rightarrow> Inr None
      | Some v \<Rightarrow>
          Inr (Some \<lparr>facName = FactorWorkspaceEscape, facWeight = whole WorkspaceEscapePoints,
                     facDescription = ''the operation left the workspace the task declared'',
                     facEvidence = [(''expected'', vExpected v), (''observed'', vObserved v)]\<rparr>))"

subsection \<open>Sensitive paths\<close>

definition isProcID :: "string \<Rightarrow> bool" where
  "isProcID s = (s \<noteq> [] \<and> hd s \<noteq> CHR ''0'' \<and> list_all is_digit s)"

definition ownProcID :: "string \<Rightarrow> process \<Rightarrow> bool" where
  "ownProcID s p =
     (if s = ''self'' \<or> s = ''thread-self'' then True
      else if \<not> isProcID s then False
      else if dec_val s > 2147483647 then False
      else
        (let id = int (dec_val s) in
         sint (PID p) > 0 \<and> id = sint (PID p) \<or> sint (TID p) > 0 \<and> id = sint (TID p)))"

definition ownProcEntry :: "string \<Rightarrow> process \<Rightarrow> bool" where
  "ownProcEntry path p =
     (if \<not> prefix ''/proc/'' path then False
      else
        (let parts = split_byte CHR ''/'' (drop 6 path);
             parts = (if length parts = 4 \<and> parts ! 1 = ''task'' \<and> isProcID (parts ! 2)
                      then [parts ! 0, parts ! 3] else parts)
         in if length parts \<noteq> 2 \<or> \<not> ownProcID (parts ! 0) p then False
            else parts ! 1 \<notin> {[], ''.'', ''..'', ''root'', ''cwd'', ''exe''}))"

definition dimensionFor :: "kind \<Rightarrow> string" where
  "dimensionFor k =
     (case DomainOf k of
        None \<Rightarrow> DimensionUnrated
      | Some d \<Rightarrow>
          (case d of
             DomainFilesystem \<Rightarrow> DimensionPath
           | DomainNetwork \<Rightarrow> DimensionHost
           | DomainProcess \<Rightarrow> DimensionExecutable
           | _ \<Rightarrow> DimensionUnrated))"

definition rate :: "sensitivity_source \<Rightarrow> string \<Rightarrow> string \<Rightarrow> severity" where
  "rate o' dimension target =
     (if target = [] then SensitivityUnknown
      else if dimension = DimensionPath then orPath o' target
      else if dimension = DimensionHost then orHost o' target
      else if dimension = DimensionExecutable then orExecutable o' target
      else SensitivityUnknown)"

definition ownProcReason :: string where
  "ownProcReason =
     ''The reading process's own /proc entry. It already holds what is there, and runtimes read it at start (Rust's standard library reads /proc/self/maps), so it is not another process's environment or memory.''"

definition coveredOperation :: msg where
  "coveredOperation = lit ''the envelope covered this operation''"

definition sensitive_path_evaluate :: "sensitivity_source option \<Rightarrow> score_ctx \<Rightarrow> msg + factor option" where
  "sensitive_path_evaluate orc sc =
     (case orc of
        None \<Rightarrow> Inl (lit ''risk: sensitive_path scorer has no oracle'')
      | Some o' \<Rightarrow>
          (let dim = dimensionFor (cxKind sc) in
           if dim = DimensionHost then Inr None
           else
             (let grade = rate o' dim (cxTarget sc);
                  own = dim = DimensionPath \<and>
                    (case srEvent (cxReq sc) of
                       None \<Rightarrow> False | Some e \<Rightarrow> ownProcEntry (cxTarget sc) (evProcess e));
                  grade = (if own then SeverityInfo else grade)
              in
              if grade = SensitivityUnknown then
                Inr (Some \<lparr>facName = FactorSensitivePath, facWeight = whole 0,
                  facDescription = ''how consequential the resource touched is; this one is unrated'',
                  facEvidence = unknownSensitivityEvidence dim\<rparr>)
              else
                (let ev = [(''dimension'', lit dim), (''sensitivity'', lit (severity_string grade)),
                           (''target'', lit (cxTarget sc))];
                     ev =
                       (if own then put ''reason'' (lit ownProcReason) ev
                        else
                          (case orPathReason o' of
                             Some f \<Rightarrow>
                               (if dim = DimensionPath \<and> snd (f (cxTarget sc)) \<noteq> []
                                then put ''reason'' (lit (snd (f (cxTarget sc)))) ev else ev)
                           | None \<Rightarrow> ev));
                     points = (if cxDeparted sc then sensitivityPointsFor grade else 0);
                     ev = (if cxDeparted sc then ev else put ''not_charged'' coveredOperation ev)
                 in Inr (Some \<lparr>facName = FactorSensitivePath, facWeight = whole points,
                      facDescription = ''how consequential the resource touched is'',
                      facEvidence = ev\<rparr>)))))"

subsection \<open>Sensitive hosts\<close>

definition bareHost :: "string \<Rightarrow> string" where
  "bareHost target =
     (if target = [] then []
      else (case SplitHostPort target of Some (h, _) \<Rightarrow> h | None \<Rightarrow> target))"

definition hostKindLabel :: "string \<Rightarrow> string" where
  "hostKindLabel host =
     (case ClassifyHost host of
        HostKindName \<Rightarrow> ''name'' | HostKindIP \<Rightarrow> ''address'' | _ \<Rightarrow> ''unknown'')"

definition sensitive_host_evaluate :: "sensitivity_source option \<Rightarrow> score_ctx \<Rightarrow> msg + factor option" where
  "sensitive_host_evaluate orc sc =
     (case orc of
        None \<Rightarrow> Inl (lit ''risk: sensitive_host scorer has no oracle'')
      | Some o' \<Rightarrow>
          if dimensionFor (cxKind sc) \<noteq> DimensionHost then Inr None
          else
            (let host = bareHost (cxTarget sc);
                 ev = [(''dimension'', lit DimensionHost), (''target'', lit (cxTarget sc)),
                       (''host'', lit host), (''host_kind'', lit (hostKindLabel host))];
                 ev =
                   (case srEvent (cxReq sc) of
                      None \<Rightarrow> ev
                    | Some e \<Rightarrow>
                        (case obsAttributes (evObservation e) AttrHostnameCorrelated of
                           None \<Rightarrow> ev | Some v \<Rightarrow> put ''hostname_correlated'' (lit v) ev));
                 grade = orHost o' host
             in
             if grade = SensitivityUnknown then
               Inr (Some \<lparr>facName = FactorSensitiveHost, facWeight = whole 0,
                 facDescription = ''how consequential the destination reached is; this one is unrated'',
                 facEvidence = put ''sensitivity'' (lit ''unknown'') ev\<rparr>)
             else
               (let ev = put ''sensitivity'' (lit (severity_string grade)) ev;
                    ev =
                      (case orHostReason o' of
                         Some f \<Rightarrow> (if snd (f host) \<noteq> [] then put ''reason'' (lit (snd (f host))) ev else ev)
                       | None \<Rightarrow> ev);
                    points = (if cxDeparted sc then sensitivityPointsFor grade else 0);
                    ev = (if cxDeparted sc then ev else put ''not_charged'' coveredOperation ev)
                in Inr (Some \<lparr>facName = FactorSensitiveHost, facWeight = whole points,
                     facDescription = ''how consequential the destination reached is'',
                     facEvidence = ev\<rparr>))))"

subsection \<open>Uncorrelated destinations\<close>

datatype correlation_state = CorrelationPresent | CorrelationAbsent | CorrelationIndeterminate

definition classifyCorrelation :: "observation \<Rightarrow> string \<Rightarrow> correlation_state" where
  "classifyCorrelation obs hostKind =
     (let flag = obsAttributes obs AttrHostnameCorrelated in
      if flag \<noteq> None \<and> flag \<noteq> Some ''false'' then CorrelationIndeterminate
      else if hostKind = ''name'' then
        (if flag \<noteq> None then CorrelationIndeterminate else CorrelationPresent)
      else if hostKind = ''address'' then
        (if flag \<noteq> None then CorrelationAbsent else CorrelationIndeterminate)
      else CorrelationIndeterminate)"

definition namesRemoteDestination :: "kind \<Rightarrow> bool" where
  "namesRemoteDestination k =
     (case k of KindNetConnect \<Rightarrow> True | KindNetSend \<Rightarrow> True | _ \<Rightarrow> False)"

definition uncorrelated_evaluate :: "score_ctx \<Rightarrow> msg + factor option" where
  "uncorrelated_evaluate sc =
     (if \<not> namesRemoteDestination (cxKind sc) then Inr None
      else
        (let obs = (case srEvent (cxReq sc) of None \<Rightarrow> zero_observation | Some e \<Rightarrow> evObservation e);
             host = bareHost (cxTarget sc);
             hostKind = hostKindLabel host;
             state = classifyCorrelation obs hostKind
         in
         if state = CorrelationPresent then Inr None
         else
           (let ev = [(''capability'', lit (kind_string (cxKind sc))), (''target'', lit (cxTarget sc)),
                      (''host_kind'', lit hostKind)];
                ev = (if host \<noteq> [] then put ''host'' (lit host) ev else ev);
                ip = attr obs AttrDestIP;
                ev = (if ip \<noteq> [] then put ''dest_ip'' (lit ip) ev else ev)
            in
            if state = CorrelationIndeterminate then
              Inr (Some \<lparr>facName = FactorUncorrelatedDestination, facWeight = whole 0,
                facDescription = ''whether a hostname was correlated to this destination could not be established from the observation'',
                facEvidence = put ''correlation'' (lit ''indeterminate'') ev\<rparr>)
            else
              (let ev = put ''correlation'' (lit ''missing'') ev;
                   points = (if cxDeparted sc then UncorrelatedDestinationPoints else 0);
                   ev = (if cxDeparted sc then ev else put ''not_charged'' coveredOperation ev)
               in Inr (Some \<lparr>facName = FactorUncorrelatedDestination, facWeight = whole points,
                    facDescription = ''the destination was reached by address with no correlated hostname, so a grant naming hosts could not be compared against it'',
                    facEvidence = ev\<rparr>)))))"

subsection \<open>Paths the kernel could not vouch for\<close>

text \<open>The \<open>switch\<close> of \<open>evaluate\<close>: what is wrong with the path, with the name the probe captured.\<close>

definition path_problem :: "event \<Rightarrow> (evidence \<times> string) option" where
  "path_problem e =
     (if (case evExec e of None \<Rightarrow> False | Some x \<Rightarrow> epTruncated x) then
        Some ([(''problem'', lit ''exec filename truncated or unreadable in the kernel'')],
              Filename (the (evExec e)))
      else
        (case evFile e of
           None \<Rightarrow> None
         | Some f \<Rightarrow>
             (if fpTruncated f then
                Some ([(''problem'', lit ''path truncated or unreadable in the kernel'')], fpPath f)
              else if PathLate f \<and> ResolvedPath f = [] then
                Some ([(''problem'', lit ''path read after the syscall and not confirmed by the opened inode'')],
                      fpPath f)
              else if fpPath f \<noteq> [] \<and> \<not> prefix ''/'' (fpPath f) \<and>
                (DirStatus f = ''truncated'' \<or> DirStatus f = ''deleted'' \<or> DirStatus f = ''unavailable'') then
                Some ([(''problem'', lit ''base directory of a relative path could not be established''),
                       (''dir_status'', lit (DirStatus f)), (''dir_source'', lit (DirSource f))],
                      fpPath f)
              else None)))"

definition unverifiable_evaluate :: "score_ctx \<Rightarrow> msg + factor option" where
  "unverifiable_evaluate sc =
     (case srEvent (cxReq sc) of
        None \<Rightarrow> Inr None
      | Some e \<Rightarrow>
          if \<not> cxDeparted sc then Inr None
          else
            (case path_problem e of
               None \<Rightarrow> Inr None
             | Some (ev, raw) \<Rightarrow>
                 (let ev = put ''raw_path'' (lit raw) ev;
                      ev = put ''result''
                        (lit (if Succeeded (evResult e) then ''succeeded''
                              else if Errno (evResult e) \<noteq> [] then Errno (evResult e) else ''failed'')) ev;
                      ev =
                        (if Executable (evProcess e) \<noteq> [] then
                           put ''process'' (lit (Executable (evProcess e))) ev
                         else if Comm (evProcess e) \<noteq> [] then put ''process'' (lit (Comm (evProcess e))) ev
                         else ev)
                  in Inr (Some \<lparr>facName = FactorUnverifiablePath, facWeight = whole UnverifiablePathPoints,
                       facDescription = ''the kernel could not vouch for the path this event names'',
                       facEvidence = ev\<rparr>))))"

subsection \<open>Privilege changes\<close>

definition privEvidenceState :: "priv_payload option \<Rightarrow> string" where
  "privEvidenceState p =
     (case p of
        None \<Rightarrow> ''absent''
      | Some p \<Rightarrow> if trim_space (prOperation p) = [] then ''malformed'' else ''recorded'')"

definition uidTransition :: "32 word \<Rightarrow> 32 word \<Rightarrow> string" where
  "uidTransition oldUID newUID =
     (if oldUID = 0 \<and> newUID = 0 then ''unrecorded''
      else if oldUID = 0 \<or> newUID = 0 then ''ambiguous''
      else if oldUID = newUID then ''unchanged''
      else ''changed'')"

definition describePayload :: "priv_payload option \<Rightarrow> evidence \<Rightarrow> evidence" where
  "describePayload p ev =
     (case p of
        None \<Rightarrow> ev
      | Some p \<Rightarrow>
          (let op = trim_space (prOperation p);
               ev = (if op \<noteq> [] then put ''operation'' (lit op) ev else ev);
               ns = trim_space (NamespaceType p);
               ev = (if ns \<noteq> [] then put ''namespace_type'' (lit ns) ev else ev);
               ev =
                 (if CapabilitiesAdded p \<noteq> [] then
                    put ''capability_delta'' (lit ''added_only'')
                      (put ''capabilities_added'' (lit (join_byte CHR '' '' (CapabilitiesAdded p))) ev)
                  else ev);
               ev = put ''uid_transition'' (lit (uidTransition (OldUID p) (NewUID p))) ev;
               ev = put ''old_uid'' (decimal (sint (OldUID p))) ev
           in put ''new_uid'' (decimal (sint (NewUID p))) ev))"

definition privilege_evaluate :: "score_ctx \<Rightarrow> msg + factor option" where
  "privilege_evaluate sc =
     (case Describe (cxKind sc) of
        None \<Rightarrow> Inr None
      | Some desc \<Rightarrow>
          if descDomain desc \<noteq> DomainPrivilege then Inr None
          else
            (let payload = (case srEvent (cxReq sc) of None \<Rightarrow> None | Some e \<Rightarrow> evPrivil e);
                 ev = [(''capability'', lit (kind_string (cxKind sc))),
                       (''baseline_severity'', lit (severity_string (descBaselineSeverity desc))),
                       (''privilege_evidence'', lit (privEvidenceState payload))];
                 ev = describePayload payload ev;
                 points = (if cxDeparted sc then sensitivityPointsFor (descBaselineSeverity desc) else 0);
                 ev = (if cxDeparted sc then ev else put ''not_charged'' coveredOperation ev)
             in Inr (Some \<lparr>facName = FactorPrivilegeChange, facWeight = whole points,
                  facDescription = ''the process changed what it is permitted to do; the weight is the capability catalog's own grade for this kind of change'',
                  facEvidence = ev\<rparr>)))"

subsection \<open>History\<close>

definition novel_evaluate :: "score_ctx \<Rightarrow> msg + factor option" where
  "novel_evaluate sc =
     (let h = srHistory (cxReq sc) in
      if \<not> cxDeparted sc \<or> h = None \<or> cxTarget sc = [] then Inr None
      else if TargetSeen h (cxKind sc) (cxTarget sc) then Inr None
      else
        (let ev = [(''capability'', lit (kind_string (cxKind sc))), (''target'', lit (cxTarget sc))];
             ev = (if SeenTargetsSaturated h then put ''novelty_set_saturated'' (lit ''true'') ev else ev)
         in Inr (Some \<lparr>facName = FactorNovelTarget, facWeight = whole NovelTargetPoints,
              facDescription = ''this target had not been touched earlier in the session'',
              facEvidence = ev\<rparr>)))"

definition history_evaluate :: "score_ctx \<Rightarrow> msg + factor option" where
  "history_evaluate sc =
     (let h = srHistory (cxReq sc) in
      if \<not> cxDeparted sc \<or> h = None then Inr None
      else
        (let n = ViolationCount h in
         if n \<le> 0 then Inr None
         else
           Inr (Some \<lparr>facName = FactorViolationHistory, facWeight = historyPoints n,
             facDescription = ''violations already recorded this session, one point each up to the cap'',
             facEvidence = [(''prior_violations'', decimal n)]\<rparr>)))"

definition basis_evaluate :: "score_ctx \<Rightarrow> msg + factor option" where
  "basis_evaluate sc =
     Inr (Some \<lparr>facName = FactorEvidenceBasis, facWeight = whole 0,
       facDescription = ''which of the model's evidence inputs were available'',
       facEvidence = eventBasis (vrVerdict (cxValidation sc) \<noteq> VerdictIndeterminate) (cxTarget sc \<noteq> [])
         (srHistory (cxReq sc) \<noteq> None)\<rparr>)"

subsection \<open>A sensitive read followed by egress\<close>

definition DefaultSequenceWindow :: int where "DefaultSequenceWindow = 256"
definition MinAccessSensitivity :: severity where "MinAccessSensitivity = SeverityHigh"

definition IsEgress :: "kind \<Rightarrow> bool" where
  "IsEgress k = (k = KindNetConnect \<or> k = KindNetSend)"

definition AccessSensitivityQualifies :: "severity \<Rightarrow> bool" where
  "AccessSensitivityQualifies g =
     (if \<not> KnownSensitivity g then False
      else sensitivityRank g \<ge> sensitivityRank MinAccessSensitivity)"

text \<open>
  The body of the scan for one earlier event: the access it was, when it qualifies. The event under
  judgment is present whenever its capability is an egress.
\<close>

definition qualifying_access ::
  "sensitivity_source \<Rightarrow> event option \<Rightarrow> event \<Rightarrow> (observation \<times> severity) option" where
  "qualifying_access o' current prev =
     (if evID prev \<noteq> [] \<and> (case current of None \<Rightarrow> False | Some e \<Rightarrow> evID prev = evID e) then None
      else if \<not> Succeeded (evResult prev) then None
      else
        (case ObservationOf (Some prev) of
           Inl err \<Rightarrow> None
         | Inr obs \<Rightarrow>
             (if obsKind obs \<noteq> KindFileRead \<or> obsTarget obs = [] then None
              else if ownProcEntry (obsTarget obs) (evProcess prev) then None
              else
                (let grade = orPath o' (obsTarget obs) in
                 if \<not> AccessSensitivityQualifies grade then None else Some (obs, grade)))))"

text \<open>Backwards over the retained events, the distance counted from the newest.\<close>

fun egress_scan ::
  "sensitivity_source \<Rightarrow> event option \<Rightarrow> nat \<Rightarrow> event list \<Rightarrow> (event \<times> observation \<times> severity \<times> nat) option" where
  "egress_scan o' current distance [] = None"
| "egress_scan o' current distance (prev # older) =
     (case qualifying_access o' current prev of
        Some (obs, grade) \<Rightarrow> Some (prev, obs, grade, distance)
      | None \<Rightarrow> egress_scan o' current (Suc distance) older)"

definition egress_factor ::
  "sensitivity_source \<Rightarrow> int \<Rightarrow> score_ctx \<Rightarrow> string \<Rightarrow> observation \<Rightarrow> severity \<Rightarrow> int \<Rightarrow> bool \<Rightarrow> factor" where
  "egress_factor o' window sc accessID access grade distance truncated =
     (let ev = [(''access_event_id'', lit accessID), (''access_target'', lit (obsTarget access)),
                (''access_capability'', lit (kind_string (obsKind access))),
                (''access_sensitivity'', lit (severity_string grade)),
                (''access_succeeded'', lit ''true''),
                (''egress_capability'', lit (kind_string (cxKind sc))),
                (''window_events'', decimal window), (''distance_events'', decimal distance)];
          ev = (if cxTarget sc \<noteq> [] then put ''egress_target'' (lit (cxTarget sc)) ev else ev);
          ev = (if truncated then put ''window_truncated'' (lit ''true'') ev else ev);
          ev =
            (case orPathReason o' of
               Some f \<Rightarrow>
                 (if snd (f (obsTarget access)) \<noteq> []
                  then put ''access_reason'' (lit (snd (f (obsTarget access)))) ev else ev)
             | None \<Rightarrow> ev);
          points = (if cxDeparted sc then SequencePoints else 0);
          ev = (if cxDeparted sc then ev else put ''not_charged'' (lit ''the envelope covered this egress'') ev)
      in \<lparr>facName = FactorCredentialEgress, facWeight = whole points,
          facDescription = ''a successful read of a resource graded '' @ severity_string MinAccessSensitivity @
            '' or above was followed, within the detector's window, by a capability that moves data off the host'',
          facEvidence = ev\<rparr>)"

definition egress_evaluate :: "sensitivity_source option \<Rightarrow> int \<Rightarrow> score_ctx \<Rightarrow> msg + factor option" where
  "egress_evaluate orc window sc =
     (case orc of
        None \<Rightarrow> Inl (lit ''risk: credential_access_egress scorer has no oracle'')
      | Some o' \<Rightarrow>
          if \<not> IsEgress (cxKind sc) then Inr None
          else if srHistory (cxReq sc) = None then Inr None
          else
            (let recent = RecentEvents window (srHistory (cxReq sc)) in
             if recent = [] then Inr None
             else
               (case egress_scan o' (srEvent (cxReq sc)) 1 (rev recent) of
                  None \<Rightarrow> Inr None
                | Some (prev, obs, grade, distance) \<Rightarrow>
                    Inr (Some (egress_factor o' window sc (evID prev) obs grade (int distance)
                      (int (length recent) \<ge> window))))))"

section \<open>Scorer sets\<close>

text \<open>
  The scorers of the package, with what each is built over, and a scorer of another package: its name
  and its \<open>Evaluate\<close>. Only the first kind has the fast path \<open>evaluate\<close>.
\<close>

datatype scorer =
    VerdictScorer | ViolationSeverityScorer | WorkspaceEscapeScorer
  | SensitivePathScorer "sensitivity_source option" | SensitiveHostScorer "sensitivity_source option"
  | UncorrelatedDestinationScorer | UnverifiablePathScorer
  | CredentialEgressScorer "sensitivity_source option" int
  | PrivilegeChangeScorer | NovelTargetScorer | ViolationHistoryScorer | EvidenceBasisScorer
  | OtherScorer string "score_request \<Rightarrow> msg + factor option"

primrec scorerName :: "scorer \<Rightarrow> string" where
  "scorerName VerdictScorer = FactorVerdict"
| "scorerName ViolationSeverityScorer = FactorViolationSeverity"
| "scorerName WorkspaceEscapeScorer = FactorWorkspaceEscape"
| "scorerName (SensitivePathScorer o') = FactorSensitivePath"
| "scorerName (SensitiveHostScorer o') = FactorSensitiveHost"
| "scorerName UncorrelatedDestinationScorer = FactorUncorrelatedDestination"
| "scorerName UnverifiablePathScorer = FactorUnverifiablePath"
| "scorerName (CredentialEgressScorer o' w) = FactorCredentialEgress"
| "scorerName PrivilegeChangeScorer = FactorPrivilegeChange"
| "scorerName NovelTargetScorer = FactorNovelTarget"
| "scorerName ViolationHistoryScorer = FactorViolationHistory"
| "scorerName EvidenceBasisScorer = FactorEvidenceBasis"
| "scorerName (OtherScorer n f) = n"

text \<open>\<open>Weight\<close>: the most points a scorer contributes. The engine never reads it.\<close>

primrec scorerWeight :: "scorer \<Rightarrow> nat" where
  "scorerWeight VerdictScorer = the (verdictPoints VerdictExplicitlyDenied)"
| "scorerWeight ViolationSeverityScorer = the (severityPoints SeverityCritical)"
| "scorerWeight WorkspaceEscapeScorer = WorkspaceEscapePoints"
| "scorerWeight (SensitivePathScorer o') = the (sensitivityPoints SeverityCritical)"
| "scorerWeight (SensitiveHostScorer o') = the (sensitivityPoints SeverityCritical)"
| "scorerWeight UncorrelatedDestinationScorer = UncorrelatedDestinationPoints"
| "scorerWeight UnverifiablePathScorer = UnverifiablePathPoints"
| "scorerWeight (CredentialEgressScorer o' w) = SequencePoints"
| "scorerWeight PrivilegeChangeScorer = the (sensitivityPoints SeverityCritical)"
| "scorerWeight NovelTargetScorer = NovelTargetPoints"
| "scorerWeight ViolationHistoryScorer = ViolationHistoryCap"
| "scorerWeight EvidenceBasisScorer = 0"
| "scorerWeight (OtherScorer n f) = 0"

text \<open>The fast path; \<open>None\<close> for a scorer that has none.\<close>

primrec local_evaluate :: "scorer \<Rightarrow> (score_ctx \<Rightarrow> msg + factor option) option" where
  "local_evaluate VerdictScorer = Some verdict_evaluate"
| "local_evaluate ViolationSeverityScorer = Some severity_evaluate"
| "local_evaluate WorkspaceEscapeScorer = Some escape_evaluate"
| "local_evaluate (SensitivePathScorer o') = Some (sensitive_path_evaluate o')"
| "local_evaluate (SensitiveHostScorer o') = Some (sensitive_host_evaluate o')"
| "local_evaluate UncorrelatedDestinationScorer = Some uncorrelated_evaluate"
| "local_evaluate UnverifiablePathScorer = Some unverifiable_evaluate"
| "local_evaluate (CredentialEgressScorer o' w) = Some (egress_evaluate o' w)"
| "local_evaluate PrivilegeChangeScorer = Some privilege_evaluate"
| "local_evaluate NovelTargetScorer = Some novel_evaluate"
| "local_evaluate ViolationHistoryScorer = Some history_evaluate"
| "local_evaluate EvidenceBasisScorer = Some basis_evaluate"
| "local_evaluate (OtherScorer n f) = None"

text \<open>
  The exported \<open>Evaluate\<close> methods. Three of them hand their \<open>evaluate\<close> a context with nothing but the
  request in it.
\<close>

definition bare_ctx :: "score_request \<Rightarrow> validation \<Rightarrow> score_ctx" where
  "bare_ctx req v =
     \<lparr>cxReq = req, cxValidation = v, cxTarget = [], cxKind = KindOther [], cxDeparted = False\<rparr>"

definition checked_evaluate ::
  "(score_request \<Rightarrow> validation \<Rightarrow> score_ctx) \<Rightarrow> (score_ctx \<Rightarrow> msg + factor option) \<Rightarrow>
     score_request \<Rightarrow> msg + factor option" where
  "checked_evaluate ctx f req =
     (case srValidation req of None \<Rightarrow> Inl ErrNoValidation | Some v \<Rightarrow> f (ctx req v))"

primrec Evaluate_scorer :: "scorer \<Rightarrow> score_request \<Rightarrow> msg + factor option" where
  "Evaluate_scorer VerdictScorer = checked_evaluate bare_ctx verdict_evaluate"
| "Evaluate_scorer ViolationSeverityScorer = checked_evaluate bare_ctx severity_evaluate"
| "Evaluate_scorer WorkspaceEscapeScorer = checked_evaluate bare_ctx escape_evaluate"
| "Evaluate_scorer (SensitivePathScorer o') = checked_evaluate newScoreCtx (sensitive_path_evaluate o')"
| "Evaluate_scorer (SensitiveHostScorer o') = checked_evaluate newScoreCtx (sensitive_host_evaluate o')"
| "Evaluate_scorer UncorrelatedDestinationScorer = checked_evaluate newScoreCtx uncorrelated_evaluate"
| "Evaluate_scorer UnverifiablePathScorer = checked_evaluate newScoreCtx unverifiable_evaluate"
| "Evaluate_scorer (CredentialEgressScorer o' w) = checked_evaluate newScoreCtx (egress_evaluate o' w)"
| "Evaluate_scorer PrivilegeChangeScorer = checked_evaluate newScoreCtx privilege_evaluate"
| "Evaluate_scorer NovelTargetScorer = checked_evaluate newScoreCtx novel_evaluate"
| "Evaluate_scorer ViolationHistoryScorer = checked_evaluate newScoreCtx history_evaluate"
| "Evaluate_scorer EvidenceBasisScorer = checked_evaluate newScoreCtx basis_evaluate"
| "Evaluate_scorer (OtherScorer n f) = f"

subsection \<open>Constructors\<close>

definition NewCredentialEgressScorerWith :: "sensitivity_source option \<Rightarrow> int \<Rightarrow> msg + scorer" where
  "NewCredentialEgressScorerWith o' window =
     (if o' = None then
        Inl (lit ''risk: credential_access_egress needs a sensitivity oracle; without one no read can be recognized as sensitive and the detector would silently find nothing'')
      else if window \<le> 0 then
        Inl (Fmt ''risk: sequence window is %d; a window of no events can never contain a prior access, so a detector configured with one would be a disabled detector that reads as an enabled one''
          [AInt window])
      else Inr (CredentialEgressScorer o' window))"

definition NewCredentialEgressScorer :: "sensitivity_source option \<Rightarrow> msg + scorer" where
  "NewCredentialEgressScorer o' = NewCredentialEgressScorerWith o' DefaultSequenceWindow"

definition NewSensitivePathScorer :: "sensitivity_source option \<Rightarrow> scorer" where
  "NewSensitivePathScorer o' = SensitivePathScorer o'"

definition NewSensitiveHostScorer :: "sensitivity_source option \<Rightarrow> msg + scorer" where
  "NewSensitiveHostScorer o' =
     (if o' = None then Inl (lit ''risk: sensitive_host scorer needs a sensitivity oracle'')
      else Inr (SensitiveHostScorer o'))"

definition ratesPaths :: "sensitivity_source option \<Rightarrow> bool" where
  "ratesPaths o' =
     (case o' of None \<Rightarrow> False
      | Some o' \<Rightarrow> (case orRatesPaths o' of Some b \<Rightarrow> b | None \<Rightarrow> True))"

definition ratesHosts :: "sensitivity_source option \<Rightarrow> bool" where
  "ratesHosts o' =
     (case o' of None \<Rightarrow> False
      | Some o' \<Rightarrow> (case orRatesHosts o' of Some b \<Rightarrow> b | None \<Rightarrow> True))"

section \<open>Aggregation\<close>

definition add_factor :: "float64 \<times> float64 \<Rightarrow> factor \<Rightarrow> float64 \<times> float64" where
  "add_factor acc f =
     (case acc of (s, confidence) \<Rightarrow>
        if facName f = FactorEvidenceBasis then (s, confidenceFor (countTrue (facEvidence f)))
        else (float_add s (facWeight f), confidence))"

definition BoundedSumAggregate :: "factor list \<Rightarrow> float64 \<times> float64" where
  "BoundedSumAggregate factors =
     (case foldl add_factor (Finite 0, Finite 0) factors of (s, confidence) \<Rightarrow> (clampScore s, confidence))"

datatype aggregator = BoundedSumAggregator | OtherAggregator "factor list \<Rightarrow> float64 \<times> float64"

primrec Aggregate :: "aggregator \<Rightarrow> factor list \<Rightarrow> float64 \<times> float64" where
  "Aggregate BoundedSumAggregator factors = BoundedSumAggregate factors"
| "Aggregate (OtherAggregator f) factors = f factors"

section \<open>The engine\<close>

record baseline_engine =
  beScorers :: "scorer list"
  beAgg :: aggregator

definition NewRiskEngine :: baseline_engine where
  "NewRiskEngine =
     \<lparr>beScorers = [VerdictScorer, ViolationSeverityScorer, UncorrelatedDestinationScorer,
        UnverifiablePathScorer, PrivilegeChangeScorer, WorkspaceEscapeScorer, NovelTargetScorer,
        ViolationHistoryScorer, EvidenceBasisScorer],
      beAgg = BoundedSumAggregator\<rparr>"

definition NewEngineWithOracle :: "sensitivity_source option \<Rightarrow> msg + baseline_engine" where
  "NewEngineWithOracle o' =
     (if o' = None then
        Inl (lit ''risk: sensitivity oracle is required; use NewEngine for an engine that deliberately rates no resources'')
      else
        (case NewCredentialEgressScorer o' of
           Inl err \<Rightarrow> Inl err
         | Inr detector \<Rightarrow>
             Inr \<lparr>beScorers =
                [VerdictScorer, ViolationSeverityScorer] @
                (if ratesPaths o' then [SensitivePathScorer o'] else []) @
                (if ratesHosts o' then [SensitiveHostScorer o'] else []) @
                [UncorrelatedDestinationScorer, UnverifiablePathScorer, detector, PrivilegeChangeScorer,
                 WorkspaceEscapeScorer, NovelTargetScorer, ViolationHistoryScorer, EvidenceBasisScorer],
               beAgg = BoundedSumAggregator\<rparr>))"

text \<open>A scorer that is nil is \<open>None\<close>.\<close>

fun check_scorers :: "nat \<Rightarrow> string set \<Rightarrow> scorer option list \<Rightarrow> msg + scorer list" where
  "check_scorers i seen [] = Inr []"
| "check_scorers i seen (None # rest) = Inl (Fmt ''risk: scorer %d is nil'' [AInt (int i)])"
| "check_scorers i seen (Some s # rest) =
     (if scorerName s = [] then Inl (Fmt ''risk: scorer %d has no name'' [AInt (int i)])
      else if scorerName s \<in> seen then Inl (Fmt ''risk: duplicate scorer name %q'' [AStr (scorerName s)])
      else
        (case check_scorers (Suc i) (insert (scorerName s) seen) rest of
           Inl err \<Rightarrow> Inl err
         | Inr ss \<Rightarrow> Inr (s # ss)))"

definition NewEngineWith :: "scorer option list \<Rightarrow> aggregator option \<Rightarrow> msg + baseline_engine" where
  "NewEngineWith scorers agg =
     (if scorers = [] then Inl (lit ''risk: at least one scorer is required'')
      else
        (case check_scorers 0 {} scorers of
           Inl err \<Rightarrow> Inl err
         | Inr ss \<Rightarrow>
             Inr \<lparr>beScorers = ss,
                  beAgg = (case agg of None \<Rightarrow> BoundedSumAggregator | Some a \<Rightarrow> a)\<rparr>))"

definition scoreOne :: "scorer \<Rightarrow> score_ctx \<Rightarrow> msg + factor option" where
  "scoreOne s sc =
     (case local_evaluate s of Some f \<Rightarrow> f sc | None \<Rightarrow> Evaluate_scorer s (cxReq sc))"

fun score_all :: "score_ctx \<Rightarrow> scorer list \<Rightarrow> msg + factor list" where
  "score_all sc [] = Inr []"
| "score_all sc (s # ss) =
     (case scoreOne s sc of
        Inl err \<Rightarrow> Inl err
      | Inr applied \<Rightarrow>
          (case score_all sc ss of
             Inl err \<Rightarrow> Inl err
           | Inr factors \<Rightarrow> Inr ((case applied of None \<Rightarrow> [] | Some f \<Rightarrow> [f]) @ factors)))"

definition assess :: "baseline_engine \<Rightarrow> factor list \<Rightarrow> risk_assessment" where
  "assess e factors =
     (case Aggregate (beAgg e) factors of (score, confidence) \<Rightarrow>
        \<lparr>raScore = score, raLevel = LevelFor score, raFactors = factors, raConfidence = confidence\<rparr>)"

definition Score :: "baseline_engine \<Rightarrow> score_request \<Rightarrow> msg + risk_assessment" where
  "Score e req =
     (if srEvent req = None then Inl ErrRiskNoEvent
      else
        (case srValidation req of
           None \<Rightarrow> Inl ErrNoValidation
         | Some v \<Rightarrow>
             (case score_all (newScoreCtx req v) (beScorers e) of
                Inl err \<Rightarrow> Inl err
              | Inr factors \<Rightarrow> Inr (assess e factors))))"

definition violationCount :: "memory_state option \<Rightarrow> violation list \<Rightarrow> int" where
  "violationCount h vs = (if h \<noteq> None then ViolationCount h else int (length vs))"

definition ScoreSession :: "baseline_engine \<Rightarrow> session_score_request \<Rightarrow> risk_assessment" where
  "ScoreSession e req =
     (let vs = (case ssViolations req of None \<Rightarrow> [] | Some vs \<Rightarrow> vs);
          factors =
            (if vs \<noteq> [] then
               [\<lparr>facName = FactorViolationSeverity, facWeight = whole (severityPointsFor (worstSeverity vs)),
                 facDescription = ''the most serious violation recorded this session'',
                 facEvidence = severityEvidence (worstSeverity vs)\<rparr>]
             else []);
          n = violationCount (ssHistory req) vs;
          factors = factors @
            (if n > 0 then
               [\<lparr>facName = FactorViolationHistory, facWeight = historyPoints n,
                 facDescription = ''violations accumulated this session, one point each up to the cap'',
                 facEvidence = [(''prior_violations'', decimal n)]\<rparr>]
             else []);
          factors = factors @
            [\<lparr>facName = FactorEvidenceBasis, facWeight = whole 0,
              facDescription = ''which of the model's evidence inputs were available'',
              facEvidence = sessionBasis (ssViolations req \<noteq> None) (ssHistory req \<noteq> None)\<rparr>]
      in assess e factors)"

text \<open>The engine as the function the pipeline's score stage calls.\<close>

definition risk_fn_of ::
  "baseline_engine \<Rightarrow> event option \<Rightarrow> validation \<Rightarrow> envelope option \<Rightarrow> memory_state option \<Rightarrow> time \<Rightarrow>
     msg + risk_assessment option" where
  "risk_fn_of e ev v env st now =
     map_sum id Some (Score e \<lparr>srEvent = ev, srValidation = Some v, srEnvelope = env, srHistory = st\<rparr>)"

end
