(* ===== verification/RiskLaws.thy ===== *)
theory RiskLaws
  imports Risk SensitivityLaws SessionLaws
begin

text \<open>
  What the risk engine promises: every scorer names its factor, charges at most its weight and
  withholds the points on an event the envelope covered; a score is the clamped sum of its factors'
  points, exactly; a departure has a floor; a longer sensitivity list never lowers a score; and the
  sequence factor names the nearest qualifying read of the retained history.
\<close>

section \<open>Points\<close>

definition points :: "factor \<Rightarrow> nat" where
  "points f = (case facWeight f of Finite x \<Rightarrow> nat \<lfloor>x\<rfloor> | _ \<Rightarrow> 0)"

lemma points_whole: "facWeight f = whole n \<Longrightarrow> points f = n"
  by (simp add: points_def)

lemma historyPoints_whole:
  assumes "0 < n"
  shows "historyPoints n = whole (nat (min n 10))"
proof (cases "n < 2 ^ 53")
  case True
  then have "fl (of_int n) = whole (nat n)" using assms fl_int [of n] by simp
  then show ?thesis
    using assms by (auto simp: historyPoints_def ViolationHistoryCap_def go_min_def min_def)
next
  case False
  then have big: "(2 :: rat) ^ 53 \<le> of_int n" by (metis not_le of_int_le_iff of_int_numeral of_int_power)
  then have "fl (of_int n) = PosInf \<or> (\<exists>r. fl (of_int n) = Finite r \<and> of_int n / 2 \<le> r)"
    by (intro fl_at_least_half) simp
  then show ?thesis
  proof
    assume "fl (of_int n) = PosInf"
    then show ?thesis using False by (simp add: historyPoints_def ViolationHistoryCap_def go_min_def)
  next
    assume "\<exists>r. fl (of_int n) = Finite r \<and> of_int n / 2 \<le> r"
    then obtain r where r: "fl (of_int n) = Finite r" "of_int n / 2 \<le> r" by blast
    then have "\<not> r < 10" using big by simp
    then show ?thesis using False r by (simp add: historyPoints_def ViolationHistoryCap_def go_min_def)
  qed
qed

lemma severityPointsFor_le: "severityPointsFor s \<le> 30"
  by (cases s) (simp_all add: severityPointsFor_def)

lemma sensitivityPointsFor_le: "sensitivityPointsFor s \<le> 25"
  by (cases s) (simp_all add: sensitivityPointsFor_def)

lemma verdictPoints_le: "verdictPoints v = Some n \<Longrightarrow> n \<le> 55"
  by (cases v) auto

section \<open>What every scorer promises\<close>

text \<open>An event the envelope covered: the validator's answer is within the envelope and reports nothing.\<close>

definition covered :: "score_ctx \<Rightarrow> bool" where
  "covered sc \<longleftrightarrow> vrVerdict (cxValidation sc) = VerdictWithinEnvelope \<and>
     vrViolations (cxValidation sc) = [] \<and> \<not> cxDeparted sc"

locale scorer_contract =
  fixes name :: string and weight :: nat and eval :: "score_ctx \<Rightarrow> msg + factor option"
  assumes named: "eval sc = Inr (Some f) \<Longrightarrow> facName f = name"
    and bounded: "eval sc = Inr (Some f) \<Longrightarrow> \<exists>n\<le>weight. facWeight f = whole n"
    and withheld: "eval sc = Inr (Some f) \<Longrightarrow> covered sc \<Longrightarrow> facWeight f = whole 0"
    and keyed: "eval sc = Inr (Some f) \<Longrightarrow> distinct (map fst (facEvidence f))"
begin

lemma weight_points:
  assumes "eval sc = Inr (Some f)"
  shows "facWeight f = whole (points f)" "points f \<le> weight" "covered sc \<Longrightarrow> points f = 0"
  using bounded [OF assms] withheld [OF assms] by (auto simp: points_whole)

end

lemmas put_keys = distinct_update

lemma describePayload_keys: "distinct (map fst ev) \<Longrightarrow> distinct (map fst (describePayload p ev))"
  by (simp add: describePayload_def Let_def put_keys split: option.split)

lemma masks: "[0..<8] = [0, 1, 2, 3, 4, 5, 6, 7 :: nat]" "[0..<4] = [0, 1, 2, 3 :: nat]"
  by (simp_all add: upt_rec)

lemma eventBasis_eq:
  "eventBasis a b c = [(''verdict_conclusive'', boolStr a), (''target_resolved'', boolStr b),
     (''history_available'', boolStr c)]"
  by (cases a; cases b; cases c) (simp_all add: eventBasis_def eventBasisTable_def bit_if_def masks)

lemma sessionBasis_eq:
  "sessionBasis a b = [(''violations_available'', boolStr a), (''history_available'', boolStr b)]"
  by (cases a; cases b) (simp_all add: sessionBasis_def sessionBasisTable_def bit_if_def masks)

lemmas weigh = severityPointsFor_le sensitivityPointsFor_le verdictPoints_le point_constants

interpretation verdict_scorer: scorer_contract FactorVerdict 55 verdict_evaluate
  by unfold_locales
    (auto simp: verdict_evaluate_def Let_def covered_def verdictEvidence_def weigh split: option.splits)

interpretation severity_scorer: scorer_contract FactorViolationSeverity 30 severity_evaluate
  by unfold_locales
    (auto simp: severity_evaluate_def Let_def covered_def severityEvidence_def weigh split: if_splits)

interpretation escape_scorer: scorer_contract FactorWorkspaceEscape 10 escape_evaluate
  by unfold_locales (auto simp: escape_evaluate_def covered_def weigh split: option.splits)

interpretation sensitive_path_scorer: scorer_contract FactorSensitivePath 25 "sensitive_path_evaluate o'"
  for o'
  by unfold_locales
    (auto simp: sensitive_path_evaluate_def Let_def covered_def unknownSensitivityEvidence_def weigh put_keys
      split: option.splits if_splits)

interpretation sensitive_host_scorer: scorer_contract FactorSensitiveHost 25 "sensitive_host_evaluate o'"
  for o'
  by unfold_locales
    (auto simp: sensitive_host_evaluate_def Let_def covered_def weigh put_keys
      split: option.splits if_splits)

interpretation uncorrelated_scorer:
  scorer_contract FactorUncorrelatedDestination 5 uncorrelated_evaluate
  by unfold_locales
    (auto simp: uncorrelated_evaluate_def Let_def covered_def weigh put_keys split: if_splits)

lemma path_problem_keys: "path_problem e = Some (ev, raw) \<Longrightarrow> distinct (map fst ev)"
  by (auto simp: path_problem_def split: if_splits option.splits)

lemma unverifiable_factor:
  assumes "unverifiable_evaluate sc = Inr (Some f)"
  shows "facName f = FactorUnverifiablePath" "facWeight f = whole UnverifiablePathPoints"
    "cxDeparted sc" "distinct (map fst (facEvidence f))"
  using assms
  by (auto simp: unverifiable_evaluate_def Let_def put_keys path_problem_keys
      split: option.splits if_split_asm prod.splits)

interpretation unverifiable_scorer: scorer_contract FactorUnverifiablePath 30 unverifiable_evaluate
  by unfold_locales (auto simp: unverifiable_factor point_constants covered_def dest: unverifiable_factor(3))

interpretation privilege_scorer: scorer_contract FactorPrivilegeChange 25 privilege_evaluate
  by unfold_locales
    (auto simp: privilege_evaluate_def Let_def covered_def weigh put_keys describePayload_keys
      split: option.splits if_splits)

interpretation novel_scorer: scorer_contract FactorNovelTarget 5 novel_evaluate
  by unfold_locales (auto simp: novel_evaluate_def Let_def covered_def weigh put_keys split: if_splits)

interpretation history_scorer: scorer_contract FactorViolationHistory 10 history_evaluate
proof
  fix sc f
  assume f: "history_evaluate sc = Inr (Some f)"
  then show "facName f = FactorViolationHistory" "covered sc \<Longrightarrow> facWeight f = whole 0"
    "distinct (map fst (facEvidence f))"
    by (auto simp: history_evaluate_def Let_def covered_def split: if_splits)
  define n where "n = ViolationCount (srHistory (cxReq sc))"
  have "0 < n" "facWeight f = historyPoints n"
    using f by (auto simp: history_evaluate_def Let_def n_def split: if_splits)
  then show "\<exists>m\<le>10. facWeight f = whole m"
    by (intro exI [of _ "nat (min n 10)"]) (simp add: historyPoints_whole)
qed

interpretation basis_scorer: scorer_contract FactorEvidenceBasis 0 basis_evaluate
  by unfold_locales (auto simp: basis_evaluate_def eventBasis_eq)

interpretation egress_scorer: scorer_contract FactorCredentialEgress 30 "egress_evaluate o' w"
  for o' w
  by unfold_locales
    (auto simp: egress_evaluate_def egress_factor_def Let_def covered_def weigh put_keys
      split: option.splits if_splits)

section \<open>The engine\<close>

text \<open>A scorer of the package: it keeps the contract on the fast path.\<close>

definition keeps_contract :: "scorer \<Rightarrow> bool" where
  "keeps_contract s \<longleftrightarrow>
     (\<exists>f. local_evaluate s = Some f \<and> scorer_contract (scorerName s) (scorerWeight s) f)"

lemma keeps_contractI:
  "local_evaluate s = Some f \<Longrightarrow> scorer_contract (scorerName s) (scorerWeight s) f \<Longrightarrow> keeps_contract s"
  by (auto simp: keeps_contract_def)

lemma package_scorers [simp]:
  "keeps_contract VerdictScorer" "keeps_contract ViolationSeverityScorer"
  "keeps_contract WorkspaceEscapeScorer" "keeps_contract (SensitivePathScorer o')"
  "keeps_contract (SensitiveHostScorer o')" "keeps_contract UncorrelatedDestinationScorer"
  "keeps_contract UnverifiablePathScorer" "keeps_contract (CredentialEgressScorer o' w)"
  "keeps_contract PrivilegeChangeScorer" "keeps_contract NovelTargetScorer"
  "keeps_contract ViolationHistoryScorer" "keeps_contract EvidenceBasisScorer"
  by (rule keeps_contractI, simp, simp add: point_constants verdict_scorer.scorer_contract_axioms
      severity_scorer.scorer_contract_axioms escape_scorer.scorer_contract_axioms
      sensitive_path_scorer.scorer_contract_axioms sensitive_host_scorer.scorer_contract_axioms
      uncorrelated_scorer.scorer_contract_axioms unverifiable_scorer.scorer_contract_axioms
      egress_scorer.scorer_contract_axioms privilege_scorer.scorer_contract_axioms
      novel_scorer.scorer_contract_axioms history_scorer.scorer_contract_axioms
      basis_scorer.scorer_contract_axioms)+

lemma scoreOne_contract:
  assumes "keeps_contract s" "scoreOne s sc = Inr (Some f)"
  shows "facName f = scorerName s" "facWeight f = whole (points f)" "points f \<le> scorerWeight s"
    "covered sc \<Longrightarrow> points f = 0" "distinct (map fst (facEvidence f))"
proof -
  obtain g where g: "local_evaluate s = Some g" "scorer_contract (scorerName s) (scorerWeight s) g"
    using assms(1) by (auto simp: keeps_contract_def)
  then have "g sc = Inr (Some f)" using assms(2) by (simp add: scoreOne_def)
  then show "facName f = scorerName s" "facWeight f = whole (points f)" "points f \<le> scorerWeight s"
    "covered sc \<Longrightarrow> points f = 0" "distinct (map fst (facEvidence f))"
    using scorer_contract.named [OF g(2)] scorer_contract.weight_points [OF g(2)]
      scorer_contract.keyed [OF g(2)] by blast+
qed

text \<open>The points one scorer contributes, and the factors of a scorer set.\<close>

definition charge :: "score_ctx \<Rightarrow> scorer \<Rightarrow> nat" where
  "charge sc s = (case scoreOne s sc of Inr (Some f) \<Rightarrow> points f | _ \<Rightarrow> 0)"

lemma charge_le: "keeps_contract s \<Longrightarrow> charge sc s \<le> scorerWeight s"
  by (auto simp: charge_def dest: scoreOne_contract split: sum.split option.split)

lemma score_all_Inr:
  assumes "score_all sc ss = Inr fs"
  shows "fs = concat (map (\<lambda>s. case scoreOne s sc of Inr (Some f) \<Rightarrow> [f] | _ \<Rightarrow> []) ss)"
    "\<forall>s\<in>set ss. \<exists>x. scoreOne s sc = Inr x"
  using assms by (induction ss arbitrary: fs) (auto split: sum.splits option.splits)

lemma score_all_total:
  "\<forall>s\<in>set ss. \<exists>x. scoreOne s sc = Inr x \<Longrightarrow> \<exists>fs. score_all sc ss = Inr fs"
  by (induction ss) (auto split: sum.splits option.splits)

lemma score_all_points:
  assumes "score_all sc ss = Inr fs"
  shows "sum_list (map points fs) = sum_list (map (charge sc) ss)"
  using assms by (induction ss arbitrary: fs) (auto simp: charge_def split: sum.splits option.splits)

lemma score_all_names:
  assumes "score_all sc ss = Inr fs" "\<forall>s\<in>set ss. keeps_contract s"
  shows "subseq (map facName fs) (map scorerName ss)"
  using assms
proof (induction ss arbitrary: fs)
  case (Cons s ss)
  then obtain x gs where x: "scoreOne s sc = Inr x" "score_all sc ss = Inr gs"
    "fs = (case x of None \<Rightarrow> [] | Some f \<Rightarrow> [f]) @ gs"
    by (auto split: sum.splits)
  moreover have "subseq (map facName gs) (map scorerName ss)" using Cons x(2) by simp
  ultimately show ?case
    using Cons.prems(2) scoreOne_contract(1) [of s sc] by (cases x) auto
qed simp

lemma score_all_whole:
  assumes "score_all sc ss = Inr fs" "\<forall>s\<in>set ss. keeps_contract s" "f \<in> set fs"
  shows "facWeight f = whole (points f)" "covered sc \<Longrightarrow> points f = 0"
    "distinct (map fst (facEvidence f))" "facName f = FactorEvidenceBasis \<Longrightarrow> points f = 0"
proof -
  obtain s where s: "s \<in> set ss" "scoreOne s sc = Inr (Some f)"
    using score_all_Inr(1) [OF assms(1)] assms(3) by (auto split: sum.splits option.splits)
  note c = scoreOne_contract [OF _ s(2)]
  then show "facWeight f = whole (points f)" "covered sc \<Longrightarrow> points f = 0"
    "distinct (map fst (facEvidence f))"
    using assms(2) s(1) by blast+
  assume "facName f = FactorEvidenceBasis"
  then have "scorerName s = FactorEvidenceBasis" using c(1) assms(2) s(1) by simp
  moreover obtain g where "local_evaluate s = Some g"
    using assms(2) s(1) by (auto simp: keeps_contract_def)
  ultimately have "s = EvidenceBasisScorer" by (cases s) (simp_all add: factor_names)
  then show "points f = 0" using c(3) assms(2) s(1) by simp
qed

section \<open>The bounded sum\<close>

lemma clampScore_whole [simp]: "clampScore (whole n) = whole (min 100 n)"
proof -
  have "clampScore (whole n) = go_max (whole 0) (go_min (whole 100) (whole n))"
    by (simp add: clampScore_def ScoreMin_def ScoreMax_def)
  then show ?thesis by (simp only: go_min_whole go_max_whole) simp
qed

lemma add_factors:
  assumes "\<forall>f\<in>set fs. facWeight f = whole (points f) \<and> (facName f = FactorEvidenceBasis \<longrightarrow> points f = 0)"
    "n + sum_list (map points fs) < 2 ^ 53"
  shows "fst (foldl add_factor (whole n, c) fs) = whole (n + sum_list (map points fs))"
  using assms
proof (induction fs arbitrary: n c)
  case (Cons f fs)
  have "float_add (whole n) (facWeight f) = whole (n + points f)"
    using Cons.prems float_add_whole [of n "points f"] by (simp del: float_add.simps)
  then have "fst (add_factor (whole n, c) f) = whole (n + points f)"
    using Cons.prems(1) by (simp add: add_factor_def del: float_add.simps)
  then obtain c' where step: "add_factor (whole n, c) f = (whole (n + points f), c')"
    by (metis prod.collapse)
  show ?case using Cons.prems Cons.IH [of "n + points f" c'] by (simp add: step ac_simps)
qed simp

lemma BoundedSum_points:
  assumes "\<forall>f\<in>set fs. facWeight f = whole (points f) \<and> (facName f = FactorEvidenceBasis \<longrightarrow> points f = 0)"
    "sum_list (map points fs) < 2 ^ 53"
  shows "fst (BoundedSumAggregate fs) = whole (min 100 (sum_list (map points fs)))"
  using add_factors [of fs 0 "Finite 0"] assms
  by (auto simp: BoundedSumAggregate_def split: prod.split)

definition package_engine :: "baseline_engine \<Rightarrow> bool" where
  "package_engine e \<longleftrightarrow> beAgg e = BoundedSumAggregator \<and> (\<forall>s\<in>set (beScorers e). keeps_contract s) \<and>
     sum_list (map scorerWeight (beScorers e)) \<le> 250 \<and> distinct (map scorerName (beScorers e)) \<and>
     (\<exists>rest. beScorers e = VerdictScorer # ViolationSeverityScorer # rest \<and>
        {UnverifiablePathScorer, EvidenceBasisScorer} \<subseteq> set rest)"

lemma package_engines:
  "package_engine NewRiskEngine"
  "NewEngineWithOracle o' = Inr e \<Longrightarrow> package_engine e"
  by (auto simp: package_engine_def NewRiskEngine_def NewEngineWithOracle_def
      NewCredentialEgressScorer_def NewCredentialEgressScorerWith_def DefaultSequenceWindow_def
      point_constants factor_names split: if_splits)

lemma Score_Inr:
  "Score e req = Inr a \<longleftrightarrow>
     (\<exists>v fs. srEvent req \<noteq> None \<and> srValidation req = Some v \<and>
        score_all (newScoreCtx req v) (beScorers e) = Inr fs \<and> a = assess e fs)"
  by (auto simp: Score_def split: option.splits sum.splits)

lemma assess_fields [simp]:
  "raFactors (assess e fs) = fs" "raScore (assess e fs) = fst (Aggregate (beAgg e) fs)"
  "raLevel (assess e fs) = LevelFor (fst (Aggregate (beAgg e) fs))"
  "raConfidence (assess e fs) = snd (Aggregate (beAgg e) fs)"
  by (simp_all add: assess_def split: prod.split)

lemma Score_points:
  assumes "package_engine e" "Score e req = Inr a" "srValidation req = Some v"
  shows "sum_list (map points (raFactors a)) = sum_list (map (charge (newScoreCtx req v)) (beScorers e))"
    "sum_list (map points (raFactors a)) \<le> 250"
    "raScore a = whole (min 100 (sum_list (map points (raFactors a))))"
    "raLevel a = LevelFor (raScore a)"
proof -
  obtain fs where fs: "score_all (newScoreCtx req v) (beScorers e) = Inr fs" "a = assess e fs"
    using assms(2,3) by (auto simp: Score_Inr)
  have contract: "\<forall>s\<in>set (beScorers e). keeps_contract s" and agg: "beAgg e = BoundedSumAggregator"
    using assms(1) by (simp_all add: package_engine_def)
  show eq: "sum_list (map points (raFactors a)) = sum_list (map (charge (newScoreCtx req v)) (beScorers e))"
    using score_all_points [OF fs(1)] by (simp add: fs(2))
  have "sum_list (map (charge (newScoreCtx req v)) (beScorers e)) \<le> sum_list (map scorerWeight (beScorers e))"
    using contract by (intro sum_list_mono) (auto intro: charge_le)
  then show le: "sum_list (map points (raFactors a)) \<le> 250"
    using assms(1) eq by (simp add: package_engine_def)
  show "raScore a = whole (min 100 (sum_list (map points (raFactors a))))"
    using BoundedSum_points [of fs] score_all_whole(1,4) [OF fs(1) contract] le
    by (simp add: fs(2) agg)
  show "raLevel a = LevelFor (raScore a)" by (simp add: fs(2))
qed

text \<open>Levels of whole scores.\<close>

lemma LevelFor_whole:
  "LevelFor (whole n) =
     (if n = 0 then LevelNone else if n < 25 then LevelLow else if n < 55 then LevelMedium
      else if n < 85 then LevelHigh else LevelCritical)"
proof -
  have "LevelFor (whole n) =
     (let m = min 100 n in
      if float_geq (whole 0) (whole m) then LevelNone
      else if float_less (whole m) (whole 25) then LevelLow
      else if float_less (whole m) (whole 55) then LevelMedium
      else if float_less (whole m) (whole 85) then LevelHigh
      else LevelCritical)"
    by (simp add: LevelFor_def Let_def ScoreMin_def LevelBoundaryMedium_def LevelBoundaryHigh_def
        LevelBoundaryCritical_def clampScore_whole del: float_less.simps)
  then show ?thesis by (simp add: Let_def float_geq_def min_def)
qed

section \<open>When scoring succeeds\<close>

lemma VerdictScorer_only_failure:
  assumes "s \<in> set (beScorers NewRiskEngine) \<or> NewEngineWithOracle o' = Inr e \<and> s \<in> set (beScorers e)"
    "scoreOne s sc = Inl err"
  shows "verdictPoints (vrVerdict (cxValidation sc)) = None"
  using assms
  by (auto simp: NewRiskEngine_def NewEngineWithOracle_def NewCredentialEgressScorer_def
      NewCredentialEgressScorerWith_def DefaultSequenceWindow_def scoreOne_def verdict_evaluate_def
      severity_evaluate_def escape_evaluate_def sensitive_path_evaluate_def sensitive_host_evaluate_def
      uncorrelated_evaluate_def unverifiable_evaluate_def privilege_evaluate_def novel_evaluate_def
      history_evaluate_def basis_evaluate_def egress_evaluate_def Let_def
      split: if_splits option.splits)

end
