(* ===== verification/RiskScores.thy ===== *)
theory RiskScores
  imports RiskLaws
begin

text \<open>
  The scores the engine gives to what the validator decided: nothing for an expected event, at least
  the floor of its verdict for a departure, more for a path the kernel could not vouch for and for an
  egress that completes a sequence. And what a longer sensitivity list can do to a score.
\<close>

section \<open>Scoring what was validated\<close>

text \<open>The engines the package builds.\<close>

definition stock_engine :: "baseline_engine \<Rightarrow> bool" where
  "stock_engine e \<longleftrightarrow> e = NewRiskEngine \<or> (\<exists>orc. NewEngineWithOracle orc = Inr e)"

lemma stock_package: "stock_engine e \<Longrightarrow> package_engine e"
  using package_engines by (auto simp: stock_engine_def)

lemma stock_Score:
  assumes "stock_engine e" "srEvent req \<noteq> None" "srValidation req = Some v" "vrVerdict v \<in> set AllVerdicts"
  shows "\<exists>a. Score e req = Inr a"
proof -
  have known: "verdictPoints (vrVerdict (cxValidation (newScoreCtx req v))) \<noteq> None"
    using assms(4) by (auto simp: newScoreCtx_def Let_def AllVerdicts_def split: sum.split)
  then have "\<exists>x. scoreOne s (newScoreCtx req v) = Inr x" if s: "s \<in> set (beScorers e)" for s
  proof (cases "scoreOne s (newScoreCtx req v)")
    case (Inl err)
    obtain orc where set: "s \<in> set (beScorers NewRiskEngine) \<or> NewEngineWithOracle orc = Inr e \<and> s \<in> set (beScorers e)"
      using assms(1) s by (auto simp: stock_engine_def)
    show ?thesis using known VerdictScorer_only_failure [OF set Inl] by blast
  qed blast
  then show ?thesis
    using assms(2,3) score_all_total [of "beScorers e" "newScoreCtx req v"] by (auto simp: Score_Inr)
qed

lemma newScoreCtx_fields [simp]:
  "cxReq (newScoreCtx req v) = req" "cxValidation (newScoreCtx req v) = v"
  "cxDeparted (newScoreCtx req v) \<longleftrightarrow> vrVerdict v \<noteq> VerdictWithinEnvelope"
  by (auto simp: newScoreCtx_def Let_def split: sum.split)

lemma worstSeverity_ge:
  "v \<in> set vs \<Longrightarrow> severityPointsFor (vSeverity v) \<le> severityPointsFor (worstSeverity vs)"
proof -
  define worse where "worse = (\<lambda>worst (v :: violation).
    if severityPointsFor (vSeverity v) > severityPointsFor worst then vSeverity v else worst)"
  have keep: "severityPointsFor w \<le> severityPointsFor (foldl worse w vs)" for w vs
  proof (induction vs arbitrary: w)
    case (Cons x xs)
    have "severityPointsFor w \<le> severityPointsFor (worse w x)" by (simp add: worse_def)
    also have "\<dots> \<le> severityPointsFor (foldl worse (worse w x) xs)" by (rule Cons)
    finally show ?case by simp
  qed simp
  have "v \<in> set vs \<Longrightarrow> severityPointsFor (vSeverity v) \<le> severityPointsFor (foldl worse w vs)" for w
  proof (induction vs arbitrary: w)
    case (Cons x xs)
    have "severityPointsFor (vSeverity x) \<le> severityPointsFor (worse w x)" by (simp add: worse_def)
    also have "\<dots> \<le> severityPointsFor (foldl worse (worse w x) xs)" by (rule keep)
    finally show ?case using Cons by auto
  qed simp
  then show "v \<in> set vs \<Longrightarrow> severityPointsFor (vSeverity v) \<le> severityPointsFor (worstSeverity vs)"
    by (simp add: worstSeverity_def worse_def)
qed

lemma severityPointsFor_mono:
  "severityRank SeverityMedium \<le> severityRank s \<Longrightarrow> 10 \<le> severityPointsFor s"
  "severityRank SeverityHigh \<le> severityRank s \<Longrightarrow> 15 \<le> severityPointsFor s"
  "severityRank SeverityCritical \<le> severityRank s \<Longrightarrow> 30 \<le> severityPointsFor s"
  by (cases s; simp add: severityPointsFor_def)+

lemma charge_verdict:
  "verdictPoints (vrVerdict (cxValidation sc)) = Some n \<Longrightarrow> charge sc VerdictScorer = n"
  by (simp add: charge_def scoreOne_def verdict_evaluate_def points_whole Let_def)

lemma charge_severity:
  "v \<in> set (vrViolations (cxValidation sc)) \<Longrightarrow>
     severityPointsFor (vSeverity v) \<le> charge sc ViolationSeverityScorer"
  using worstSeverity_ge [of v "vrViolations (cxValidation sc)"]
  by (auto simp: charge_def scoreOne_def severity_evaluate_def points_whole Let_def)

lemma charge_unverifiable:
  assumes "srEvent (cxReq sc) = Some ev" "cxDeparted sc" "path_problem ev \<noteq> None"
  shows "charge sc UnverifiablePathScorer = 30"
proof -
  obtain f where "unverifiable_evaluate sc = Inr (Some f)"
    using assms by (auto simp: unverifiable_evaluate_def Let_def split: prod.split)
  then show ?thesis
    using unverifiable_factor(2) [of sc f]
    by (simp add: charge_def scoreOne_def points_whole UnverifiablePathPoints_def)
qed

lemma two_charges:
  assumes "package_engine e"
  shows "charge sc VerdictScorer + charge sc ViolationSeverityScorer \<le> sum_list (map (charge sc) (beScorers e))"
    "s \<in> set (drop 2 (beScorers e)) \<Longrightarrow>
       charge sc VerdictScorer + charge sc ViolationSeverityScorer + charge sc s \<le>
         sum_list (map (charge sc) (beScorers e))"
proof -
  obtain rest where rest: "beScorers e = VerdictScorer # ViolationSeverityScorer # rest"
    using assms by (auto simp: package_engine_def)
  then show "charge sc VerdictScorer + charge sc ViolationSeverityScorer \<le> sum_list (map (charge sc) (beScorers e))"
    by simp
  assume "s \<in> set (drop 2 (beScorers e))"
  then have "charge sc s \<le> sum_list (map (charge sc) rest)"
    using member_le_sum_list [of "charge sc s" "map (charge sc) rest"] rest by simp
  then show "charge sc VerdictScorer + charge sc ViolationSeverityScorer + charge sc s \<le>
         sum_list (map (charge sc) (beScorers e))"
    using rest by simp
qed

section \<open>The floor of a verdict\<close>

definition score_floor :: "verdict \<Rightarrow> nat" where
  "score_floor v =
     (case v of
        VerdictWithinEnvelope \<Rightarrow> 0
      | VerdictIndeterminate \<Rightarrow> 30
      | VerdictConstraintViolation \<Rightarrow> 35
      | VerdictGrantExceeded \<Rightarrow> 35
      | VerdictOutsideEnvelope \<Rightarrow> 40
      | VerdictExplicitlyDenied \<Rightarrow> 70
      | VerdictOther s \<Rightarrow> 0)"

lemma Validate_known_verdict:
  "Validate v (Some env) (Some ev) st = Inr r \<Longrightarrow> vrVerdict r \<in> set AllVerdicts"
  using Validate_verdict [of v env ev st r]
  by (auto simp: verdict_spec_def AllVerdicts_def Let_def split: if_splits sum.splits)

lemma denied_has_denial:
  assumes "Validate v (Some env) (Some ev) st = Inr r" "vrVerdict r = VerdictExplicitlyDenied"
  shows "\<exists>x\<in>set (vrViolations r). severityRank SeverityHigh \<le> severityRank (vSeverity x)"
proof -
  obtain obs where obs: "r = validate_observed v env ev st obs"
    using assms by (cases rule: Validate_cases [of v env ev st]) auto
  show ?thesis
  proof (cases rule: validate_observed_cases [of ev obs v env st])
    case (denied alt res)
    define x where "x = last (vrViolations r)"
    have "vType x = ViolationExplicitDenial \<and> vSeverity x = severityFor ViolationExplicitDenial (vCapability x)"
      "vrViolations r \<noteq> []"
      by (simp_all add: x_def obs denied(4) denied_result_def Let_def)
    then have "x \<in> set (vrViolations r)" "vSeverity x = severityFor ViolationExplicitDenial (vCapability x)"
      by (auto simp: x_def)
    moreover have "severityRank SeverityHigh \<le> severityRank (severityFor ViolationExplicitDenial k)" for k
      by (simp add: severityFor_rank severityFloor_def)
    ultimately show ?thesis by metis
  next
    case (undecided res x u c)
    then show ?thesis using assms(2) obs by simp
  next
    case (clear res)
    then show ?thesis using assms(2) obs by (simp add: validate_grants_verdict split: if_splits)
  qed
qed

lemma departure_charges:
  assumes "Validate v (Some env) (Some ev) st = Inr r" "cxValidation sc = r"
  shows "score_floor (vrVerdict r) \<le> charge sc VerdictScorer + charge sc ViolationSeverityScorer"
proof (cases "vrVerdict r = VerdictWithinEnvelope")
  case False
  then have "vrViolations r \<noteq> []" using Validate_within [OF assms(1)] by simp
  then obtain x where x: "x \<in> set (vrViolations r)" by (cases "vrViolations r") auto
  then have "vSeverity x = severityFor (vType x) (vCapability x)"
    using Validate_rated [OF assms(1)] by (simp add: rated_def)
  then have "10 \<le> severityPointsFor (vSeverity x)"
    using severityFor_well_rated [of x] by (intro severityPointsFor_mono(1)) (simp add: well_rated_def)
  then have ten: "10 \<le> charge sc ViolationSeverityScorer"
    using charge_severity [of x sc] x assms(2) by simp
  show ?thesis
  proof (cases "vrVerdict r = VerdictExplicitlyDenied")
    case True
    then obtain y where y: "y \<in> set (vrViolations r)" "15 \<le> severityPointsFor (vSeverity y)"
      using denied_has_denial [OF assms(1)] severityPointsFor_mono(2) by blast
    then have "15 \<le> charge sc ViolationSeverityScorer" using charge_severity [of y sc] assms(2) by simp
    moreover have "charge sc VerdictScorer = 55" using True assms(2) by (intro charge_verdict) simp
    ultimately show ?thesis using True by (simp add: score_floor_def)
  next
    case False
    have "vrVerdict r \<in> set AllVerdicts" by (rule Validate_known_verdict [OF assms(1)])
    then obtain n where n: "verdictPoints (vrVerdict r) = Some n" "score_floor (vrVerdict r) \<le> n + 10"
      using False by (auto simp: AllVerdicts_def score_floor_def)
    then show ?thesis using ten charge_verdict [of sc n] assms(2) by simp
  qed
qed (simp add: score_floor_def)

lemma covered_charges:
  assumes "package_engine e" "covered sc"
  shows "sum_list (map (charge sc) (beScorers e)) = 0"
proof -
  have "charge sc s = 0" if "s \<in> set (beScorers e)" for s
    using that assms by (auto simp: package_engine_def charge_def dest: scoreOne_contract(4)
        split: sum.split option.split)
  then show ?thesis by simp
qed

section \<open>The sequence\<close>

lemma egress_scan_None:
  "egress_scan o' cur d es = None \<longleftrightarrow> (\<forall>p\<in>set es. qualifying_access o' cur p = None)"
  by (induction es arbitrary: d) (auto split: option.split)

lemma egress_scan_Some:
  "egress_scan o' cur d es = Some (p, obs, grade, n) \<longleftrightarrow>
     (\<exists>newer older. es = newer @ p # older \<and> qualifying_access o' cur p = Some (obs, grade) \<and>
        n = d + length newer \<and> (\<forall>u\<in>set newer. qualifying_access o' cur u = None))"
proof (induction es arbitrary: d)
  case (Cons e es)
  show ?case
  proof (cases "qualifying_access o' cur e")
    case None
    have "(\<exists>newer older. e # es = newer @ p # older \<and> qualifying_access o' cur p = Some (obs, grade) \<and>
          n = d + length newer \<and> (\<forall>u\<in>set newer. qualifying_access o' cur u = None)) \<longleftrightarrow>
        (\<exists>newer older. es = newer @ p # older \<and> qualifying_access o' cur p = Some (obs, grade) \<and>
          n = Suc d + length newer \<and> (\<forall>u\<in>set newer. qualifying_access o' cur u = None))"
      (is "?L \<longleftrightarrow> ?R")
    proof
      assume ?L
      then obtain newer older where split: "e # es = newer @ p # older"
        "qualifying_access o' cur p = Some (obs, grade)" "n = d + length newer"
        "\<forall>u\<in>set newer. qualifying_access o' cur u = None" by blast
      with None obtain newer' where "newer = e # newer'" by (cases newer) auto
      with split show ?R by (intro exI [of _ newer'] exI [of _ older]) simp
    next
      assume ?R
      then obtain newer older where "es = newer @ p # older"
        "qualifying_access o' cur p = Some (obs, grade)" "n = Suc d + length newer"
        "\<forall>u\<in>set newer. qualifying_access o' cur u = None" by blast
      with None show ?L by (intro exI [of _ "e # newer"] exI [of _ older]) simp
    qed
    then show ?thesis using None by (simp add: Cons.IH)
  next
    case (Some a)
    then show ?thesis by (cases a) (auto simp: Cons_eq_append_conv)
  qed
qed simp

text \<open>The retained events of a session within the detector's window, newest first.\<close>

definition retained :: "int \<Rightarrow> state_config \<Rightarrow> state_op list \<Rightarrow> event list" where
  "retained w cfg ops =
     rev (last_n (nat w)
       (last_n (nat (default_bound DefaultHistorySize (scHistorySize cfg))) (events_of ops)))"

lemma RecentEvents_retained:
  "RecentEvents w (Some (run_ops ops (NewStateWith cfg))) = rev (retained w cfg ops)"
  by (simp add: RecentEvents_history [OF run_history(1)] run_history(2) retained_def)

lemma egress_evaluate_session:
  assumes "IsEgress (cxKind sc)" "srHistory (cxReq sc) = Some (run_ops ops (NewStateWith cfg))"
  shows "egress_evaluate (Some o') w sc =
    (case egress_scan o' (srEvent (cxReq sc)) (Suc 0) (retained w cfg ops) of
       None \<Rightarrow> Inr None
     | Some (prev, obs, grade, d) \<Rightarrow>
         Inr (Some (egress_factor o' w sc (evID prev) obs grade (int d)
           (int (length (retained w cfg ops)) \<ge> w))))"
  using assms
  by (auto simp: egress_evaluate_def RecentEvents_retained Let_def split: option.split)

section \<open>A longer list\<close>

lemma sensitivityPointsFor_mono:
  assumes "sensitivityRank a \<le> sensitivityRank b" "a = SensitivityUnknown \<or> KnownSensitivity a"
    "b = SensitivityUnknown \<or> KnownSensitivity b"
  shows "sensitivityPointsFor a \<le> sensitivityPointsFor b"
  using assms
  by (cases a; cases b)
    (auto simp: sensitivityPointsFor_def SensitivityUnknown_def KnownSensitivity_def)

lemma sensitivityPointsFor_unknown [simp]: "sensitivityPointsFor SensitivityUnknown = 0"
  by (simp add: sensitivityPointsFor_def)

text \<open>One source of grades that is nowhere below another.\<close>

definition source_below :: "sensitivity_source \<Rightarrow> sensitivity_source \<Rightarrow> bool" where
  "source_below o1 o2 \<longleftrightarrow>
     (\<forall>t. sensitivityRank (orPath o1 t) \<le> sensitivityRank (orPath o2 t) \<and>
          sensitivityPointsFor (orPath o1 t) \<le> sensitivityPointsFor (orPath o2 t) \<and>
          sensitivityPointsFor (orHost o1 t) \<le> sensitivityPointsFor (orHost o2 t) \<and>
          sensitivityPointsFor (orExecutable o1 t) \<le> sensitivityPointsFor (orExecutable o2 t))"

lemma charge_sensitive_path:
  "charge sc (SensitivePathScorer (Some o')) =
     (let dim = dimensionFor (cxKind sc);
          own = dim = DimensionPath \<and>
            (case srEvent (cxReq sc) of None \<Rightarrow> False | Some e \<Rightarrow> ownProcEntry (cxTarget sc) (evProcess e))
      in if dim = DimensionHost \<or> \<not> cxDeparted sc then 0
         else sensitivityPointsFor (if own then SeverityInfo else rate o' dim (cxTarget sc)))"
  by (simp add: charge_def scoreOne_def sensitive_path_evaluate_def Let_def points_whole)

lemma charge_sensitive_host:
  "charge sc (SensitiveHostScorer (Some o')) =
     (if dimensionFor (cxKind sc) \<noteq> DimensionHost \<or> \<not> cxDeparted sc then 0
      else sensitivityPointsFor (orHost o' (bareHost (cxTarget sc))))"
  by (simp add: charge_def scoreOne_def sensitive_host_evaluate_def Let_def points_whole)

lemma charge_egress:
  "charge sc (CredentialEgressScorer (Some o') w) =
     (if IsEgress (cxKind sc) \<and> srHistory (cxReq sc) \<noteq> None \<and> cxDeparted sc \<and>
         (\<exists>p\<in>set (RecentEvents w (srHistory (cxReq sc))). qualifying_access o' (srEvent (cxReq sc)) p \<noteq> None)
      then SequencePoints else 0)"
proof (cases "IsEgress (cxKind sc) \<and> srHistory (cxReq sc) \<noteq> None")
  case True
  let ?scan = "egress_scan o' (srEvent (cxReq sc)) (Suc 0) (rev (RecentEvents w (srHistory (cxReq sc))))"
  have some: "?scan = None \<longleftrightarrow>
      (\<forall>p\<in>set (RecentEvents w (srHistory (cxReq sc))). qualifying_access o' (srEvent (cxReq sc)) p = None)"
    by (simp add: egress_scan_None)
  have "charge sc (CredentialEgressScorer (Some o') w) =
      (if ?scan \<noteq> None \<and> cxDeparted sc then SequencePoints else 0)"
    using True
    by (cases ?scan) (auto simp: charge_def scoreOne_def egress_evaluate_def Let_def egress_factor_def points_whole)
  then show ?thesis using True some by auto
next
  case False
  then show ?thesis by (auto simp: charge_def scoreOne_def egress_evaluate_def)
qed

lemma below_charges:
  assumes "source_below o1 o2"
  shows "charge sc (SensitivePathScorer (Some o1)) \<le> charge sc (SensitivePathScorer (Some o2))"
    "charge sc (SensitiveHostScorer (Some o1)) \<le> charge sc (SensitiveHostScorer (Some o2))"
    "charge sc (CredentialEgressScorer (Some o1) w) \<le> charge sc (CredentialEgressScorer (Some o2) w)"
proof -
  have "sensitivityPointsFor (rate o1 d t) \<le> sensitivityPointsFor (rate o2 d t)" for d t
    using assms by (auto simp: rate_def source_below_def)
  then show "charge sc (SensitivePathScorer (Some o1)) \<le> charge sc (SensitivePathScorer (Some o2))"
    by (simp add: charge_sensitive_path Let_def)
  show "charge sc (SensitiveHostScorer (Some o1)) \<le> charge sc (SensitiveHostScorer (Some o2))"
    using assms by (simp add: charge_sensitive_host source_below_def)
  have "AccessSensitivityQualifies (orPath o2 t)" if "AccessSensitivityQualifies (orPath o1 t)" for t
    using that assms order_trans [of _ "sensitivityRank (orPath o1 t)" "sensitivityRank (orPath o2 t)"]
    by (auto simp: AccessSensitivityQualifies_def KnownSensitivity_def MinAccessSensitivity_def source_below_def
        split: if_splits)
  then have better: "qualifying_access o2 cur p \<noteq> None" if "qualifying_access o1 cur p \<noteq> None" for cur p
    using that by (auto simp: qualifying_access_def Let_def split: if_splits sum.splits)
  then show "charge sc (CredentialEgressScorer (Some o1) w) \<le> charge sc (CredentialEgressScorer (Some o2) w)"
    unfolding charge_egress using better by (auto simp del: not_None_eq)
qed

section \<open>Sessions and custom sets\<close>

text \<open>A session's assessment counts its worst violation and how many there were, so it stays medium.\<close>

lemma ScoreSession_score:
  assumes "beAgg e = BoundedSumAggregator"
  shows "\<exists>n\<le>40. raScore (ScoreSession e req) = whole n \<and>
    raLevel (ScoreSession e req) \<in> {LevelNone, LevelLow, LevelMedium}"
proof -
  define fs where "fs = raFactors (ScoreSession e req)"
  define n where "n = sum_list (map points fs)"
  have weights: "facWeight f = whole (points f) \<and> (facName f = FactorEvidenceBasis \<longrightarrow> points f = 0)"
    if "f \<in> set fs" for f
    using that by (auto simp: fs_def ScoreSession_def Let_def points_def historyPoints_whole factor_names
        split: option.splits if_splits)
  have le: "n \<le> 40"
    using severityPointsFor_le [of "worstSeverity (case ssViolations req of None \<Rightarrow> [] | Some vs \<Rightarrow> vs)"]
    by (simp add: n_def fs_def ScoreSession_def Let_def points_def historyPoints_whole split: option.splits)
      linarith+
  have "ScoreSession e req = assess e fs" by (simp add: fs_def ScoreSession_def Let_def)
  moreover have "fst (BoundedSumAggregate fs) = whole n"
    using BoundedSum_points [of fs] weights le by (simp add: n_def)
  ultimately show ?thesis
    using le LevelFor_whole [of n] by (intro exI [of _ n]) (simp add: assms)
qed

text \<open>A custom set that is accepted has a name for each scorer and no name twice.\<close>

lemma check_scorers_names:
  "check_scorers i seen ss = Inr xs \<Longrightarrow>
     map Some xs = ss \<and> distinct (map scorerName xs) \<and> [] \<notin> set (map scorerName xs) \<and>
     (\<forall>x\<in>set xs. scorerName x \<notin> seen)"
  by (induction i seen ss arbitrary: xs rule: check_scorers.induct)
    (fastforce split: if_splits sum.splits)+

section \<open>Properties\<close>

definition sample_validation :: validation where
  "sample_validation = empty_result\<lparr>vrVerdict := VerdictOutsideEnvelope,
     vrViolations := [\<lparr>vType = ViolationUngrantedCapability, vCapability = KindFileRead,
       vExpected = lit [], vObserved = lit [], vDetail = lit [], vSeverity = SeverityMedium\<rparr>]\<rparr>"

definition sample_request :: score_request where
  "sample_request = \<lparr>srEvent = Some (observed_event KindFileRead), srValidation = Some sample_validation,
     srEnvelope = None, srHistory = None\<rparr>"

lemma stock_base [simp]: "stock_engine NewRiskEngine"
  by (simp add: stock_engine_def)

lemma LevelFor_clamped: "LevelFor (whole (min 100 n)) = LevelFor (whole n)"
  unfolding LevelFor_whole by (simp add: min_def)

lemma subseq_distinct: "subseq xs ys \<Longrightarrow> distinct ys \<Longrightarrow> distinct xs"
  by (induction rule: list_emb.induct) (auto dest: list_emb_set)

lemma score_factor_weights:
  assumes "stock_engine e" "Score e req = Inr a" "f \<in> set (raFactors a)"
  shows "facWeight f = whole (points f)" "distinct (map fst (facEvidence f))"
proof -
  obtain v fs where fs: "score_all (newScoreCtx req v) (beScorers e) = Inr fs" "a = assess e fs"
    using assms(2) by (auto simp: Score_Inr)
  have "\<forall>s\<in>set (beScorers e). keeps_contract s"
    using stock_package [OF assms(1)] by (simp add: package_engine_def)
  then show "facWeight f = whole (points f)" "distinct (map fst (facEvidence f))"
    using score_all_whole(1,3) [OF fs(1)] assms(3) by (simp_all add: fs(2))
qed

text \<open>C23: a score is exactly the clamped sum of its factors. Whatever engine the package builds, with or
  without a sensitivity list, and whatever the event: each factor of an assessment weighs a natural
  number of points, no two factors share a name and no factor lists a piece of evidence twice; the
  score is the sum of those points cut at 100, with no rounding on the way; the sum cannot pass 250;
  and the level is the band the score lies in, the bands' lower ends belonging to them.\<close>

theorem score_is_the_sum_of_its_factors:
  assumes "stock_engine e" and "Score e req = Inr a"
  shows "(\<forall>f\<in>set (raFactors a). facWeight f = whole (points f) \<and> distinct (map fst (facEvidence f))) \<and>
    distinct (map facName (raFactors a)) \<and>
    (let n = sum_list (map points (raFactors a)) in
       n \<le> 250 \<and> raScore a = whole (min 100 n) \<and>
       raLevel a = (if n = 0 then LevelNone else if n < 25 then LevelLow else if n < 55 then LevelMedium
                    else if n < 85 then LevelHigh else LevelCritical))"
proof -
  obtain v fs where v: "srValidation req = Some v" and
    fs: "score_all (newScoreCtx req v) (beScorers e) = Inr fs" "a = assess e fs"
    using assms(2) by (auto simp: Score_Inr)
  note e = stock_package [OF assms(1)]
  then have contract: "\<forall>s\<in>set (beScorers e). keeps_contract s" "distinct (map scorerName (beScorers e))"
    by (simp_all add: package_engine_def)
  have "distinct (map facName fs)"
    using subseq_distinct [OF score_all_names [OF fs(1) contract(1)]] contract(2) by simp
  moreover have "\<forall>f\<in>set fs. facWeight f = whole (points f) \<and> distinct (map fst (facEvidence f))"
    using score_factor_weights [OF assms] by (simp add: fs(2))
  moreover have "raLevel a = LevelFor (whole (sum_list (map points (raFactors a))))"
    using Score_points(3,4) [OF e assms(2) v] LevelFor_clamped by simp
  ultimately show ?thesis
    using Score_points(2,3) [OF e assms(2) v] unfolding Let_def LevelFor_whole fs(2) by simp
qed

theorem score_is_the_sum_of_its_factors_witness:
  "\<exists>a. Score NewRiskEngine sample_request = Inr a \<and>
     raScore a = whole (min 100 (sum_list (map points (raFactors a))))"
proof -
  obtain a where a: "Score NewRiskEngine sample_request = Inr a"
    using stock_Score [of NewRiskEngine sample_request sample_validation]
    by (auto simp: sample_request_def sample_validation_def AllVerdicts_def)
  show ?thesis
    using score_is_the_sum_of_its_factors [OF stock_base a] a by (simp add: Let_def)
qed

text \<open>C21: an expected event scores nothing. When the validator puts an event within the envelope, every
  engine the package builds assesses it, at exactly zero and at the lowest level, and each factor it
  reports withholds its points; whatever the session did before.\<close>

theorem expected_events_score_nothing:
  assumes "stock_engine e" and "Validate v (Some env) (Some ev) st = Inr r"
    and "vrVerdict r = VerdictWithinEnvelope"
  shows "\<exists>a. Score e \<lparr>srEvent = Some ev, srValidation = Some r, srEnvelope = Some env, srHistory = h\<rparr> = Inr a \<and>
    raScore a = Finite 0 \<and> raLevel a = LevelNone \<and> (\<forall>f\<in>set (raFactors a). facWeight f = Finite 0)"
proof -
  define req where "req = \<lparr>srEvent = Some ev, srValidation = Some r, srEnvelope = Some env, srHistory = h\<rparr>"
  obtain a where a: "Score e req = Inr a"
    using stock_Score [OF assms(1), of req r] Validate_known_verdict [OF assms(2)] by (auto simp: req_def)
  have covered: "covered (newScoreCtx req r)"
    using assms(3) Validate_within [OF assms(2)] by (simp add: covered_def)
  note e = stock_package [OF assms(1)]
  have zero: "sum_list (map points (raFactors a)) = 0"
    using Score_points(1) [OF e a] covered_charges [OF e covered] by (simp add: req_def)
  then have "\<forall>f\<in>set (raFactors a). facWeight f = Finite 0"
    using score_factor_weights [OF assms(1) a] by simp
  then show ?thesis
    using a Score_points(3,4) [OF e a, of r] zero LevelFor_whole [of 0] by (simp add: req_def)
qed

text \<open>An expected read, and a departure whose path was cut in the kernel.\<close>

definition sample_validator :: default_validator where
  "sample_validator = \<lparr>dvMatcher = NewMatcher (=), dvNow = 1\<rparr>"

definition cut_event :: event where
  "cut_event = (observed_event KindFileRead)\<lparr>evFile := Some (zero_file\<lparr>fpTruncated := True\<rparr>)\<rparr>"

lemma sample_within:
  "\<exists>r. Validate sample_validator (Some (zero_envelope\<lparr>Grants := [plain_grant KindFileRead]\<rparr>))
     (Some (observed_event KindFileRead)) None = Inr r \<and> vrVerdict r = VerdictWithinEnvelope"
proof -
  let ?env = "zero_envelope\<lparr>Grants := [plain_grant KindFileRead]\<rparr>"
  have "verdict_spec sample_validator ?env (observed_event KindFileRead) None = VerdictWithinEnvelope"
    by (simp add: sample_validator_def verdict_spec_def past_expiry_def zero_envelope_def covers_some_def
        leaves_open_def budget_spent_def sessionConstraint_def DomainOf_rows Let_def)
  then show ?thesis
    using Validate_returns [of sample_validator ?env "observed_event KindFileRead" None]
      Validate_verdict by metis
qed

theorem expected_events_score_nothing_witness:
  "\<exists>a r. Score NewRiskEngine \<lparr>srEvent = Some (observed_event KindFileRead), srValidation = Some r,
       srEnvelope = Some (zero_envelope\<lparr>Grants := [plain_grant KindFileRead]\<rparr>), srHistory = None\<rparr> = Inr a \<and>
     raScore a = Finite 0"
  using sample_within expected_events_score_nothing [OF stock_base] by metis

text \<open>C20: a departure has a floor. What the validator does not put within the envelope scores at least its
  verdict's points and those of a medium violation: 30 when indeterminate, 35 when a grant or a
  budget is exceeded, 40 outside the envelope, and 70 when explicitly denied, since a denial is never
  rated below high. Thirty more come with a path the kernel could not vouch for. So the level is
  none exactly on expected events and is never low, and an explicit denial is high or critical.\<close>

theorem departures_have_a_floor:
  assumes "stock_engine e" and "Validate v (Some env) (Some ev) st = Inr r"
  shows "\<exists>a n. Score e \<lparr>srEvent = Some ev, srValidation = Some r, srEnvelope = Some env, srHistory = h\<rparr> = Inr a \<and>
    raScore a = whole n \<and> score_floor (vrVerdict r) \<le> n \<and>
    (vrVerdict r \<noteq> VerdictWithinEnvelope \<and> path_problem ev \<noteq> None \<longrightarrow> score_floor (vrVerdict r) + 30 \<le> n) \<and>
    (raLevel a = LevelNone \<longleftrightarrow> vrVerdict r = VerdictWithinEnvelope) \<and> raLevel a \<noteq> LevelLow \<and>
    (vrVerdict r = VerdictExplicitlyDenied \<longrightarrow> raLevel a \<in> {LevelHigh, LevelCritical})"
proof -
  define req where "req = \<lparr>srEvent = Some ev, srValidation = Some r, srEnvelope = Some env, srHistory = h\<rparr>"
  define sc where "sc = newScoreCtx req r"
  have known: "vrVerdict r \<in> set AllVerdicts" by (rule Validate_known_verdict [OF assms(2)])
  obtain a where a: "Score e req = Inr a"
    using stock_Score [OF assms(1), of req r] known by (auto simp: req_def)
  note e = stock_package [OF assms(1)]
  define m where "m = sum_list (map (charge sc) (beScorers e))"
  have score: "raScore a = whole (min 100 m)" "raLevel a = LevelFor (whole m)"
    using Score_points [OF e a, of r] LevelFor_clamped [of m] by (simp_all add: req_def m_def sc_def)
  have base: "score_floor (vrVerdict r) \<le> charge sc VerdictScorer + charge sc ViolationSeverityScorer"
    by (rule departure_charges [OF assms(2)]) (simp add: sc_def)
  then have floor: "score_floor (vrVerdict r) \<le> m" using two_charges(1) [OF e, of sc] by (simp add: m_def)
  have cut: "score_floor (vrVerdict r) + 30 \<le> m"
    if "vrVerdict r \<noteq> VerdictWithinEnvelope" "path_problem ev \<noteq> None"
  proof -
    have "charge sc UnverifiablePathScorer = 30"
      using that by (intro charge_unverifiable) (auto simp: sc_def req_def)
    moreover have "UnverifiablePathScorer \<in> set (drop 2 (beScorers e))"
      using e by (auto simp: package_engine_def)
    ultimately show ?thesis using base two_charges(2) [OF e, of UnverifiablePathScorer sc] by (simp add: m_def)
  qed
  have zero: "m = 0" if "vrVerdict r = VerdictWithinEnvelope"
    using that Validate_within [OF assms(2)] covered_charges [OF e, of sc]
    by (simp add: covered_def sc_def m_def)
  have bounds: "score_floor (vrVerdict r) \<le> 70"
    "vrVerdict r \<noteq> VerdictWithinEnvelope \<Longrightarrow> 30 \<le> score_floor (vrVerdict r)"
    "vrVerdict r = VerdictExplicitlyDenied \<Longrightarrow> score_floor (vrVerdict r) = 70"
    using known by (auto simp: score_floor_def AllVerdicts_def)
  have "raLevel a = LevelNone \<longleftrightarrow> vrVerdict r = VerdictWithinEnvelope" "raLevel a \<noteq> LevelLow"
    "vrVerdict r = VerdictExplicitlyDenied \<longrightarrow> raLevel a \<in> {LevelHigh, LevelCritical}"
  proof -
    have "vrVerdict r \<noteq> VerdictWithinEnvelope \<Longrightarrow> 30 \<le> m" using bounds(2) floor by linarith
    then show "raLevel a = LevelNone \<longleftrightarrow> vrVerdict r = VerdictWithinEnvelope" "raLevel a \<noteq> LevelLow"
      unfolding score(2) LevelFor_whole using zero by (cases "vrVerdict r = VerdictWithinEnvelope"; simp)+
    have "vrVerdict r = VerdictExplicitlyDenied \<Longrightarrow> 70 \<le> m" using bounds(3) floor by linarith
    then show "vrVerdict r = VerdictExplicitlyDenied \<longrightarrow> raLevel a \<in> {LevelHigh, LevelCritical}"
      unfolding score(2) LevelFor_whole by auto
  qed
  then show ?thesis
    using a score(1) floor cut bounds(1) unfolding req_def
    by (intro exI [of _ a] exI [of _ "min 100 m"]) auto
qed

theorem departures_have_a_floor_witness:
  "\<exists>a r n. Score NewRiskEngine \<lparr>srEvent = Some cut_event, srValidation = Some r,
       srEnvelope = Some zero_envelope, srHistory = None\<rparr> = Inr a \<and> raScore a = whole n \<and> 70 \<le> n"
proof -
  obtain r where r: "Validate sample_validator (Some zero_envelope) (Some cut_event) None = Inr r"
    using Validate_returns by blast
  have "ObservationOf (Some cut_event) = Inr (evObservation (observed_event KindFileRead))"
    by (simp add: cut_event_def ObservationOf_def observed_event_def)
  then have "verdict_spec sample_validator zero_envelope cut_event None = VerdictOutsideEnvelope"
    by (simp add: verdict_spec_def past_expiry_def zero_envelope_def covers_some_def leaves_open_def Let_def)
  then have "vrVerdict r = VerdictOutsideEnvelope" using Validate_verdict [OF r] by simp
  moreover have "path_problem cut_event \<noteq> None"
    by (simp add: path_problem_def cut_event_def observed_event_def zero_event_def zero_file_def)
  ultimately show ?thesis
    using departures_have_a_floor [OF stock_base r, of None] by (auto simp: score_floor_def)
qed

text \<open>The sequence factor is the nearest sensitive read. On an egress event of a session that went
  through any run of recorded events and decisions, the detector speaks exactly when some event of
  its window, among the ones the session still retains, is a successful read of another process's
  file that the list grades high or above; and what it then reports names the latest such read, at
  its distance from the present, with no later event qualifying.\<close>

theorem sequence_is_the_nearest_read:
  assumes "IsEgress (cxKind sc)" and "srHistory (cxReq sc) = Some (run_ops ops (NewStateWith cfg))"
  shows "(egress_evaluate (Some o') w sc = Inr None \<longleftrightarrow>
      (\<forall>p\<in>set (retained w cfg ops). qualifying_access o' (srEvent (cxReq sc)) p = None)) \<and>
    (egress_evaluate (Some o') w sc = Inr (Some f) \<longrightarrow>
      (\<exists>newer p older obs grade. retained w cfg ops = newer @ p # older \<and>
         qualifying_access o' (srEvent (cxReq sc)) p = Some (obs, grade) \<and>
         (\<forall>u\<in>set newer. qualifying_access o' (srEvent (cxReq sc)) u = None) \<and>
         f = egress_factor o' w sc (evID p) obs grade (int (Suc (length newer)))
           (int (length (retained w cfg ops)) \<ge> w)))"
proof -
  note eval = egress_evaluate_session [OF assms, of o' w]
  let ?scan = "egress_scan o' (srEvent (cxReq sc)) (Suc 0) (retained w cfg ops)"
  have "egress_evaluate (Some o') w sc = Inr None \<longleftrightarrow> ?scan = None"
    by (auto simp: eval split: option.split)
  moreover have "\<exists>newer p older obs grade. retained w cfg ops = newer @ p # older \<and>
         qualifying_access o' (srEvent (cxReq sc)) p = Some (obs, grade) \<and>
         (\<forall>u\<in>set newer. qualifying_access o' (srEvent (cxReq sc)) u = None) \<and>
         f = egress_factor o' w sc (evID p) obs grade (int (Suc (length newer)))
           (int (length (retained w cfg ops)) \<ge> w)"
    if some: "egress_evaluate (Some o') w sc = Inr (Some f)"
  proof -
    obtain p obs grade d where scan: "?scan = Some (p, obs, grade, d)"
      "f = egress_factor o' w sc (evID p) obs grade (int d) (int (length (retained w cfg ops)) \<ge> w)"
      using some by (auto simp: eval split: option.splits)
    then obtain newer older where "retained w cfg ops = newer @ p # older"
      "qualifying_access o' (srEvent (cxReq sc)) p = Some (obs, grade)" "d = Suc 0 + length newer"
      "\<forall>u\<in>set newer. qualifying_access o' (srEvent (cxReq sc)) u = None"
      unfolding egress_scan_Some by blast
    moreover from this(3) have "f = egress_factor o' w sc (evID p) obs grade (int (Suc (length newer)))
        (int (length (retained w cfg ops)) \<ge> w)"
      using scan(2) by simp
    ultimately show ?thesis by blast
  qed
  ultimately show ?thesis by (simp only: egress_scan_None) blast
qed

definition key_source :: sensitivity_source where
  "key_source = \<lparr>orPath = (\<lambda>p. if p = ''/src/main.c'' then SeverityCritical else SensitivityUnknown),
     orHost = (\<lambda>_. SensitivityUnknown), orExecutable = (\<lambda>_. SensitivityUnknown),
     orPathReason = None, orHostReason = None, orRatesPaths = None, orRatesHosts = None\<rparr>"

definition read_event :: event where
  "read_event = (observed_event KindFileRead)\<lparr>evResult :=
     \<lparr>ReturnCode = 3, Errno = [], Succeeded = True, OutcomeUnobserved = False\<rparr>\<rparr>"

definition no_config :: state_config where
  "no_config = \<lparr>scSessionID = [], scEnvelope = None, scStartedAt = 0, scHistorySize = 0, scMaxSeenTargets = 0\<rparr>"

definition egress_ctx :: score_ctx where
  "egress_ctx = \<lparr>cxReq = \<lparr>srEvent = Some (observed_event KindNetConnect), srValidation = Some sample_validation,
       srEnvelope = None, srHistory = Some (run_ops [OpEvent read_event] (NewStateWith no_config))\<rparr>,
     cxValidation = sample_validation, cxTarget = ''192.0.2.1:443'', cxKind = KindNetConnect, cxDeparted = True\<rparr>"

theorem sequence_is_the_nearest_read_witness:
  "egress_evaluate (Some key_source) 256 egress_ctx \<noteq> Inr None"
proof -
  have kept: "retained 256 no_config [OpEvent read_event] = [read_event]"
    by (simp add: retained_def events_of_def last_n_def no_config_def default_bound_def DefaultHistorySize_def)
  have "qualifying_access key_source (srEvent (cxReq egress_ctx)) read_event =
      Some (evObservation (observed_event KindFileRead), SeverityCritical)"
    by (simp add: qualifying_access_def read_event_def observed_event_def zero_event_def ObservationOf_def
        ownProcEntry_def key_source_def AccessSensitivityQualifies_def KnownSensitivity_def
        MinAccessSensitivity_def)
  then show ?thesis
    using sequence_is_the_nearest_read [of egress_ctx "[OpEvent read_event]" no_config key_source 256] kept
    by (simp add: egress_ctx_def IsEgress_def)
qed

lemma path_rows_Nil: "path_rows es = [] \<longleftrightarrow> (\<forall>e\<in>set es. sePatterns e = [])"
  by (auto simp: path_rows_def)

lemma host_rules_Nil: "compileHostRules es = [] \<longleftrightarrow> (\<forall>e\<in>set es. hePatterns e = [])"
  by (auto simp: compileHostRules_def)

lemma longer_list_below:
  assumes "NewResourceOracle (Some l) = Inr r" "NewResourceOracle (Some l') = Inr r'"
    "set (slPaths l) \<subseteq> set (slPaths l')" "set (slHosts l) \<subseteq> set (slHosts l')"
  shows "source_below (oracle_of r) (oracle_of r')"
    "RatesPaths (Some r) \<Longrightarrow> RatesPaths (Some r')" "RatesHosts (Some r) \<Longrightarrow> RatesHosts (Some r')"
proof -
  note graded = oracle_graded [OF assms(1)] oracle_graded [OF assms(2)]
  have path: "sensitivityRank (PathSensitivity (Some r) t) \<le> sensitivityRank (PathSensitivity (Some r') t)" for t
    unfolding oracle_grades [OF assms(1)] oracle_grades [OF assms(2)]
    by (rule paths.more_entries_raise [OF assms(3)])
  have host: "sensitivityRank (HostSensitivity (Some r) t) \<le> sensitivityRank (HostSensitivity (Some r') t)" for t
    unfolding oracle_grades [OF assms(1)] oracle_grades [OF assms(2)]
    by (rule hosts.more_entries_raise [OF assms(4)])
  show "source_below (oracle_of r) (oracle_of r')"
    using path host graded sensitivityPointsFor_mono
    by (simp add: source_below_def oracle_of_def ExecutableSensitivity_def)
  have "psLen (roSet r) = length (path_rows (slPaths l))" "psLen (roSet r') = length (path_rows (slPaths l'))"
    "roHosts r = compileHostRules (slHosts l)" "roHosts r' = compileHostRules (slHosts l')"
    using assms(1,2) by (auto simp: NewResourceOracle_Inr CompilePatterns_Inr psLen_def)
  then show "RatesPaths (Some r) \<Longrightarrow> RatesPaths (Some r')" "RatesHosts (Some r) \<Longrightarrow> RatesHosts (Some r')"
    using assms(3,4) by (auto simp: RatesPaths_def RatesHosts_def path_rows_Nil host_rules_Nil)
qed

lemma oracle_engine_charges:
  assumes "NewEngineWithOracle (Some (oracle_of r)) = Inr e"
  shows "sum_list (map (charge sc) (beScorers e)) =
    (if RatesPaths (Some r) then charge sc (SensitivePathScorer (Some (oracle_of r))) else 0) +
    (if RatesHosts (Some r) then charge sc (SensitiveHostScorer (Some (oracle_of r))) else 0) +
    charge sc (CredentialEgressScorer (Some (oracle_of r)) DefaultSequenceWindow) +
    sum_list (map (charge sc) [VerdictScorer, ViolationSeverityScorer, UncorrelatedDestinationScorer,
      UnverifiablePathScorer, PrivilegeChangeScorer, WorkspaceEscapeScorer, NovelTargetScorer,
      ViolationHistoryScorer, EvidenceBasisScorer])"
  using assms
  by (auto simp: NewEngineWithOracle_def NewCredentialEgressScorer_def NewCredentialEgressScorerWith_def
      DefaultSequenceWindow_def ratesPaths_def ratesHosts_def oracle_of_def)

text \<open>C22: a sensitivity list may only raise. Take two lists that load, the second with every entry of the
  first and any others besides: for every event, validation, envelope and session the engine built
  over the second scores at least what the engine over the first does.\<close>

theorem list_may_only_raise:
  assumes "NewResourceOracle (Some l) = Inr r" and "NewResourceOracle (Some l') = Inr r'"
    and "set (slPaths l) \<subseteq> set (slPaths l')" and "set (slHosts l) \<subseteq> set (slHosts l')"
    and "NewEngineWithOracle (Some (oracle_of r)) = Inr e"
    and "NewEngineWithOracle (Some (oracle_of r')) = Inr e'"
    and "Score e req = Inr a"
  shows "\<exists>a'. Score e' req = Inr a' \<and> \<not> float_less (raScore a') (raScore a)"
proof -
  obtain v where v: "srValidation req = Some v" using assms(7) by (auto simp: Score_Inr)
  have stock: "stock_engine e" "stock_engine e'" using assms(5,6) by (auto simp: stock_engine_def)
  note p = stock_package [OF stock(1)] stock_package [OF stock(2)]
  have "VerdictScorer \<in> set (beScorers e)" using p(1) by (auto simp: package_engine_def)
  then have "\<exists>x. verdict_evaluate (newScoreCtx req v) = Inr x"
    using assms(7) v score_all_Inr(2) by (fastforce simp: Score_Inr scoreOne_def)
  then have "verdictPoints (vrVerdict v) \<noteq> None"
    by (auto simp: verdict_evaluate_def Let_def split: option.splits)
  then have "vrVerdict v \<in> set AllVerdicts" by (cases "vrVerdict v") (simp_all add: AllVerdicts_def)
  then obtain a' where a': "Score e' req = Inr a'"
    using stock_Score [OF stock(2) _ v] assms(7) by (auto simp: Score_Inr)
  let ?sc = "newScoreCtx req v"
  note below = longer_list_below [OF assms(1-4)]
  have "sum_list (map (charge ?sc) (beScorers e)) \<le> sum_list (map (charge ?sc) (beScorers e'))"
    unfolding oracle_engine_charges [OF assms(5)] oracle_engine_charges [OF assms(6)]
    by (intro add_mono order_refl below_charges(3) [OF below(1)])
      (use below_charges(1,2) [OF below(1)] below(2,3) in auto)
  then show ?thesis
    using a' Score_points(1,3) [OF p(1) assms(7) v] Score_points(1,3) [OF p(2) a' v]
    by (intro exI [of _ a']) (simp only: float_less_whole, simp)
qed

definition short_list :: sensitivity_list where
  "short_list = \<lparr>slName = ''local'', slVersion = ''1'', slDescription = [],
     slPaths = [\<lparr>sePatterns = [''/etc/shadow''], seSensitivity = SeverityHigh, seReason = ''password hashes''\<rparr>],
     slHosts = []\<rparr>"

definition long_list :: sensitivity_list where
  "long_list = short_list\<lparr>slPaths := slPaths short_list @
     [\<lparr>sePatterns = [''/src/**''], seSensitivity = SeverityCritical, seReason = ''the sources''\<rparr>]\<rparr>"

lemma sample_patterns: "ValidatePattern ''/etc/shadow'' = None" "ValidatePattern ''/src/**'' = None"
  by code_simp+

lemma sample_lists:
  "\<exists>r. NewResourceOracle (Some short_list) = Inr r" "\<exists>r. NewResourceOracle (Some long_list) = Inr r"
proof -
  have "admissible short_list" "admissible long_list"
    by (simp_all add: admissible_def short_list_def long_list_def path_entries_None sample_patterns
        KnownSensitivity_def del: path_entries_loop.simps)
  then show "\<exists>r. NewResourceOracle (Some short_list) = Inr r" "\<exists>r. NewResourceOracle (Some long_list) = Inr r"
    using admissible_compiles by blast+
qed

theorem list_may_only_raise_witness:
  "\<exists>r r' e e' a a'. NewResourceOracle (Some short_list) = Inr r \<and> NewResourceOracle (Some long_list) = Inr r' \<and>
     NewEngineWithOracle (Some (oracle_of r)) = Inr e \<and> NewEngineWithOracle (Some (oracle_of r')) = Inr e' \<and>
     Score e sample_request = Inr a \<and> Score e' sample_request = Inr a' \<and> \<not> float_less (raScore a') (raScore a)"
proof -
  obtain r r' where r: "NewResourceOracle (Some short_list) = Inr r" "NewResourceOracle (Some long_list) = Inr r'"
    using sample_lists by blast
  have "\<exists>e. NewEngineWithOracle (Some o') = Inr e" for o'
    by (simp add: NewEngineWithOracle_def NewCredentialEgressScorer_def NewCredentialEgressScorerWith_def
        DefaultSequenceWindow_def)
  then obtain e e' where e: "NewEngineWithOracle (Some (oracle_of r)) = Inr e"
    "NewEngineWithOracle (Some (oracle_of r')) = Inr e'" by metis
  then have "stock_engine e" by (auto simp: stock_engine_def)
  then obtain a where a: "Score e sample_request = Inr a"
    using stock_Score [of e sample_request sample_validation]
    by (auto simp: sample_request_def sample_validation_def AllVerdicts_def)
  show ?thesis
    using list_may_only_raise [OF r _ _ e a] r e a by (fastforce simp: long_list_def short_list_def)
qed

text \<open>The fast path is the interface. For every scorer, the package's own and any other, what the
  engine runs on the context it resolved once for the event is what the scorer's exported
  \<open>Evaluate\<close> answers to the request itself.\<close>

theorem fast_path_is_the_interface:
  assumes "srValidation req = Some v"
  shows "scoreOne s (newScoreCtx req v) = Evaluate_scorer s req"
  using assms
  by (cases s)
    (simp_all add: scoreOne_def checked_evaluate_def bare_ctx_def verdict_evaluate_def
      severity_evaluate_def escape_evaluate_def)

theorem fast_path_is_the_interface_witness:
  "scoreOne VerdictScorer (newScoreCtx sample_request sample_validation) =
     Evaluate_scorer VerdictScorer sample_request"
  by (rule fast_path_is_the_interface) (simp add: sample_request_def)

end
