(* ===== verification/Intent.thy ===== *)
theory Intent
  imports Ece GoFloat GoStrings
begin

text \<open>
  Reading a prompt (\<open>internal/intent\<close>): the deterministic analyzer of \<open>rules.go\<close> with its ordered
  tables, and the sanitizer of \<open>sanitize.go\<close> that removes what a reader cannot see and flags phrases
  addressed to the governor. Two functions of the standard library are parameters, because they consult
  the Unicode tables beyond ASCII: \<open>ulower\<close> (lower case) and \<open>ufold\<close> (case folding).
\<close>

section \<open>Data\<close>

datatype necessity = NecessityRequired | NecessityLikely | NecessityPossible

record intent_action =
  acVerb :: string
  acObject :: string
  acTargets :: "string list"
  acNecessity :: necessity

record intent_scope =
  scPathHints :: "string list"
  scNetworkHints :: "string list"
  scToolHints :: "string list"
  scWorkspaceOnly :: bool

record analysis =
  anRecord :: intent_record
  anActions :: "intent_action list"
  anScope :: intent_scope
  anRequiresNetwork :: bool
  anDestructive :: bool

record workspace_context =
  wcLanguages :: "string list"
  wcBuildSystems :: "string list"
  wcHasVCS :: bool
  wcTopLevelDirs :: "string list"
  wcSensitivePaths :: "string list"

record intent_request =
  iqPrompt :: string
  iqWorkspaceRoot :: string
  iqContext :: workspace_context
  iqPriorTurns :: "string list"
  iqAgentIdentity :: string

section \<open>Tables\<close>

definition RuleAnalyzerName :: string where
  "RuleAnalyzerName = ''rules:v1''"

definition TaskTypeBuild :: string where "TaskTypeBuild = ''build''"
definition TaskTypeTest :: string where "TaskTypeTest = ''test''"
definition TaskTypeDependencyInstall :: string where "TaskTypeDependencyInstall = ''dependency-install''"
definition TaskTypeGitOperation :: string where "TaskTypeGitOperation = ''git-operation''"
definition TaskTypeRefactor :: string where "TaskTypeRefactor = ''refactor''"
definition TaskTypeDocsEdit :: string where "TaskTypeDocsEdit = ''docs-edit''"
definition TaskTypeUnknown :: string where "TaskTypeUnknown = ''unknown''"

lemmas task_types = TaskTypeBuild_def TaskTypeTest_def TaskTypeDependencyInstall_def
  TaskTypeGitOperation_def TaskTypeRefactor_def TaskTypeDocsEdit_def TaskTypeUnknown_def

definition ErrEmptyPrompt :: msg where
  "ErrEmptyPrompt = Fmt ''intent: prompt is empty'' []"

text \<open>The constants are decimal; a \<open>float64\<close> holds the nearest number to one.\<close>

definition confidenceSingleMatch :: rat where "confidenceSingleMatch = 90 / 100"
definition confidenceMultiMatch :: rat where "confidenceMultiMatch = 60 / 100"
definition confidenceNoMatch :: rat where "confidenceNoMatch = 25 / 100"
definition penaltyUnresolvedRef :: rat where "penaltyUnresolvedRef = 15 / 100"
definition penaltyVeryShort :: rat where "penaltyVeryShort = 5 / 100"

definition taskRules :: "(string \<times> string list) list" where
  "taskRules =
     [(TaskTypeDependencyInstall,
         [''npm install'', ''npm ci'', ''yarn install'', ''pnpm install'', ''pip install'',
          ''go mod download'', ''go mod tidy'', ''cargo fetch'', ''bundle install'',
          ''install the dependencies'', ''install dependencies'', ''install the project dependencies'',
          ''add a dependency'', ''upgrade the dependencies'', ''upgrade all dependencies'',
          ''update the dependencies'', ''update dependencies'']),
      (TaskTypeTest,
         [''run the tests'', ''run tests'', ''test suite'', ''go test'', ''npm test'', ''pytest'',
          ''cargo test'', ''make test'', ''unit test'', ''failing test'', ''failing spec'', ''run the spec'']),
      (TaskTypeBuild,
         [''build the project'', ''go build'', ''npm run build'', ''make build'', ''cargo build'',
          ''compile the'', ''recompile'']),
      (TaskTypeGitOperation,
         [''git commit'', ''git push'', ''git pull'', ''git checkout'', ''git merge'', ''git rebase'',
          ''commit the'', ''push to'', ''create a branch'', ''stage the changes'', ''cherry-pick'']),
      (TaskTypeRefactor,
         [''refactor'', ''rename the'', ''extract the'', ''simplify the'', ''reorganize'',
          ''move the function'', ''clean up the code'']),
      (TaskTypeDocsEdit,
         [''readme'', ''changelog'', ''the documentation'', ''the docs'', ''docstring'',
          ''update the comment''])]"

text \<open>A map of the source; a key it does not have gives the zero value.\<close>

definition summaries :: "string \<Rightarrow> string" where
  "summaries t =
     (case map_of
        [(TaskTypeBuild, ''Build the project.''),
         (TaskTypeTest, ''Run the project's test suite.''),
         (TaskTypeDependencyInstall, ''Install or update project dependencies.''),
         (TaskTypeGitOperation, ''Run a git operation in the project.''),
         (TaskTypeRefactor, ''Modify source files in the project.''),
         (TaskTypeDocsEdit, ''Edit project documentation.''),
         (TaskTypeUnknown, ''No recognized task type; the request needs a human reading.'')] t of
        Some s \<Rightarrow> s | None \<Rightarrow> [])"

definition act :: "string \<Rightarrow> string \<Rightarrow> necessity \<Rightarrow> intent_action" where
  "act verb object n = \<lparr>acVerb = verb, acObject = object, acTargets = [], acNecessity = n\<rparr>"

definition baseActions :: "string \<Rightarrow> intent_action list" where
  "baseActions t =
     (case map_of
        [(TaskTypeBuild,
            [act ''read'' ''source files'' NecessityRequired,
             act ''execute'' ''build toolchain'' NecessityRequired,
             act ''write'' ''build output'' NecessityLikely]),
         (TaskTypeTest,
            [act ''read'' ''source files'' NecessityRequired,
             act ''execute'' ''test runner'' NecessityRequired,
             act ''write'' ''test artifacts'' NecessityPossible]),
         (TaskTypeDependencyInstall,
            [act ''fetch'' ''package registry'' NecessityRequired,
             act ''write'' ''dependency tree'' NecessityRequired,
             act ''execute'' ''package manager'' NecessityRequired]),
         (TaskTypeGitOperation,
            [act ''read'' ''repository'' NecessityRequired,
             act ''execute'' ''git'' NecessityRequired,
             act ''write'' ''repository metadata'' NecessityLikely]),
         (TaskTypeRefactor,
            [act ''read'' ''source files'' NecessityRequired,
             act ''write'' ''source files'' NecessityRequired]),
         (TaskTypeDocsEdit,
            [act ''read'' ''documentation'' NecessityRequired,
             act ''write'' ''documentation'' NecessityRequired]),
         (TaskTypeUnknown, [])] t of
        Some as \<Rightarrow> as | None \<Rightarrow> [])"

definition toolSignals :: "(string \<times> string) list" where
  "toolSignals =
     [(''go test'', ''go''), (''go build'', ''go''), (''go mod'', ''go''), (''gofmt'', ''gofmt''),
      (''npm'', ''npm''), (''yarn'', ''yarn''), (''pnpm'', ''pnpm''), (''node'', ''node''),
      (''pytest'', ''pytest''), (''pip'', ''pip''), (''python'', ''python''),
      (''cargo'', ''cargo''), (''make'', ''make''), (''git'', ''git''),
      (''docker'', ''docker''), (''curl'', ''curl''), (''wget'', ''wget'')]"

definition registries :: "(string \<times> string) list" where
  "registries =
     [(''go'', ''proxy.golang.org''), (''javascript'', ''registry.npmjs.org''),
      (''typescript'', ''registry.npmjs.org''), (''python'', ''pypi.org''), (''rust'', ''crates.io'')]"

definition networkSignals :: "string list" where
  "networkSignals =
     [''install'', ''download'', ''fetch'', ''clone'', ''git pull'', ''git push'',
      ''push to'', ''curl'', ''wget'', ''http://'', ''https://'', ''registry'',
      ''upgrade the dependencies'', ''upgrade all dependencies'']"

definition destructiveSignals :: "string list" where
  "destructiveSignals =
     [''rm -rf'', ''rm -r'', ''force push'', ''force-push'', ''push --force'',
      ''reset --hard'', ''git clean'', ''drop the table'', ''drop table'',
      ''truncate'', ''wipe'', ''purge'', ''delete the branch'', ''delete the file'',
      ''delete the files'', ''delete the directory'', ''remove the directory'']"

definition weakDestructive :: "string list" where
  "weakDestructive = [''delete'', ''remove'']"

definition escapeSignals :: "string list" where
  "escapeSignals =
     [''~/'', ''/etc/'', ''/usr/'', ''/var/'', ''/root/'', ''$home'', ''home directory'',
      ''outside the workspace'', ''system-wide'', ''/proc/'', ''.ssh'']"

definition unresolvedRefs :: "string list" where
  "unresolvedRefs = [''the same'', ''do that'', ''do it'', ''same thing'', ''as before'', ''the other one'']"

definition sourceExts :: "string list" where
  "sourceExts = [''.go'', ''.c'', ''.h'', ''.py'', ''.js'', ''.ts'', ''.rs'', ''.md'', ''.yaml'', ''.yml'', ''.json'']"

section \<open>Text\<close>

definition normalize_prompt :: "(string \<Rightarrow> string) \<Rightarrow> string \<Rightarrow> string" where
  "normalize_prompt ulower s = lower ulower (join_byte CHR '' '' (Fields s))"

definition containsAny :: "string \<Rightarrow> string list \<Rightarrow> bool" where
  "containsAny p needles = list_ex (\<lambda>n. sublist n p) needles"

text \<open>The replacer turns each of these bytes into a space; nothing else changes.\<close>

definition sentence_marks :: "char list" where
  "sentence_marks = [CHR '','', CHR ''.'', CHR '';'', CHR '':'', CHR ''!'', CHR ''?'', CHR ''('', CHR '')'',
     CHR 0x22, CHR 0x27]"

definition tokenView :: "string \<Rightarrow> string" where
  "tokenView p =
     '' '' @ join_byte CHR '' '' (Fields (map (\<lambda>c. if c \<in> set sentence_marks then CHR '' '' else c) p)) @ '' ''"

definition containsPhrase :: "string \<Rightarrow> string \<Rightarrow> bool" where
  "containsPhrase view phrase = sublist ('' '' @ phrase @ '' '') view"

definition hasVerb :: "intent_action list \<Rightarrow> string \<Rightarrow> bool" where
  "hasVerb as verb = list_ex (\<lambda>a. acVerb a = verb) as"

definition dedupe :: "string list \<Rightarrow> string list" where
  "dedupe xs = first_seen {} xs"

definition hasSourceExt :: "string \<Rightarrow> bool" where
  "hasSourceExt tok = list_ex (\<lambda>e. suffix e tok) sourceExts"

definition path_breaks :: "char set" where
  "path_breaks = {CHR '' '', CHR '','', CHR 0x22, CHR 0x27, CHR ''('', CHR '')''}"

definition pathHints :: "(string \<Rightarrow> string) \<Rightarrow> string \<Rightarrow> string list \<Rightarrow> string list" where
  "pathHints ulower p topLevel =
     filter (\<lambda>tok. tok \<noteq> [] \<and>
         (sublist ''/'' tok \<or> prefix ''~'' tok \<or> hasSourceExt tok \<or>
          list_ex (\<lambda>d. d \<noteq> [] \<and> tok = lower ulower d) topLevel))
       (map (trim_set {CHR ''.'', CHR '':'', CHR '';''}) (fields_func path_breaks p))"

definition looksLikeHost :: "string \<Rightarrow> bool" where
  "looksLikeHost tok =
     (if \<not> sublist ''.'' tok \<or> prefix ''.'' tok \<or> suffix ''.'' tok then False
      else if hasSourceExt tok \<or> sublist ''/'' tok then False
      else
        (let tld = last (split_byte CHR ''.'' tok) in
         length tld \<ge> 2 \<and> list_all (\<lambda>c. CHR ''a'' \<le> c \<and> c \<le> CHR ''z'') tld))"

definition host_token :: "string \<Rightarrow> string" where
  "host_token tok =
     (let tok = trim_set {CHR 0x22, CHR 0x27, CHR ''('', CHR '')'', CHR '','', CHR '';'', CHR '':''} tok;
          tok = trim_prefix ''http://'' (trim_prefix ''https://'' tok)
      in (case index_byte CHR ''/'' tok of Some i \<Rightarrow> (if i > 0 then take i tok else tok) | None \<Rightarrow> tok))"

definition registry_hosts :: "(string \<Rightarrow> string \<Rightarrow> bool) \<Rightarrow> string list \<Rightarrow> string list" where
  "registry_hosts ufold langs =
     concat (map (\<lambda>lang. map snd (filter (\<lambda>r. equal_fold ufold lang (fst r)) registries)) langs)"

definition networkHints :: "(string \<Rightarrow> string \<Rightarrow> bool) \<Rightarrow> string \<Rightarrow> workspace_context \<Rightarrow> string list" where
  "networkHints ufold p ctx =
     sort (filter looksLikeHost (map host_token (Fields p)) @
       (if containsAny p [''install'', ''upgrade the dependencies'', ''upgrade all dependencies'']
        then registry_hosts ufold (wcLanguages ctx) else []))"

section \<open>Classification\<close>

record classification =
  clTaskType :: string
  clConfidence :: float64
  clAmbiguities :: "string list"

definition task_matches :: "string \<Rightarrow> string list" where
  "task_matches p = map fst (filter (\<lambda>r. containsAny p (snd r)) taskRules)"

definition classify :: "string \<Rightarrow> classification" where
  "classify p =
     (case task_matches p of
        [] \<Rightarrow> \<lparr>clTaskType = TaskTypeUnknown, clConfidence = fl confidenceNoMatch,
               clAmbiguities = [''no task type matched the prompt'']\<rparr>
      | [t] \<Rightarrow> \<lparr>clTaskType = t, clConfidence = fl confidenceSingleMatch, clAmbiguities = []\<rparr>
      | t # ts \<Rightarrow> \<lparr>clTaskType = t, clConfidence = fl confidenceMultiMatch,
               clAmbiguities = [''prompt matches several task types: '' @ join_with '', '' (t # ts)]\<rparr>)"

text \<open>Arithmetic with a finite constant: what is not finite stays as it is, the constants being positive.\<close>

definition float_apply :: "(rat \<Rightarrow> rat) \<Rightarrow> float64 \<Rightarrow> float64" where
  "float_apply f x = (case x of Finite r \<Rightarrow> fl (f r) | _ \<Rightarrow> x)"

definition float_value :: "float64 \<Rightarrow> rat" where
  "float_value x = (case x of Finite r \<Rightarrow> r | _ \<Rightarrow> 0)"

definition float_minus :: "float64 \<Rightarrow> rat \<Rightarrow> float64" where
  "float_minus x c = float_apply (\<lambda>r. r - float_value (fl c)) x"

text \<open>\<open>math.Round\<close> rounds halves away from zero.\<close>

definition math_round :: "float64 \<Rightarrow> float64" where
  "math_round x =
     (case x of
        Finite r \<Rightarrow> Finite (of_int (if 0 \<le> r then \<lfloor>r + 1 / 2\<rfloor> else \<lceil>r - 1 / 2\<rceil>))
      | _ \<Rightarrow> x)"

definition round2 :: "float64 \<Rightarrow> float64" where
  "round2 f = float_apply (\<lambda>r. r / 100) (math_round (float_apply (\<lambda>r. r * 100) f))"

definition clamp01 :: "float64 \<Rightarrow> float64" where
  "clamp01 f = go_max (Finite 0) (go_min (Finite 1) f)"

definition Classify :: "(string \<Rightarrow> string) \<Rightarrow> string \<Rightarrow> msg + string \<times> float64" where
  "Classify ulower prompt =
     (if trim_space prompt = [] then Inl ErrEmptyPrompt
      else (let c = classify (normalize_prompt ulower prompt) in Inr (clTaskType c, round2 (clConfidence c))))"

section \<open>Analysis\<close>

definition scope ::
  "(string \<Rightarrow> string) \<Rightarrow> (string \<Rightarrow> string \<Rightarrow> bool) \<Rightarrow> string \<Rightarrow> workspace_context \<Rightarrow> intent_scope" where
  "scope ulower ufold p ctx =
     (let view = tokenView p in
      \<lparr>scPathHints = dedupe (pathHints ulower p (wcTopLevelDirs ctx)),
       scNetworkHints = dedupe (networkHints ufold p ctx),
       scToolHints = dedupe (map snd (filter (\<lambda>t. containsPhrase view (fst t)) toolSignals)),
       scWorkspaceOnly =
         (if list_ex (\<lambda>sp. sp \<noteq> [] \<and> sublist (lower ulower sp) p) (wcSensitivePaths ctx) then False
          else \<not> containsAny p escapeSignals)\<rparr>)"

definition Analyze ::
  "(string \<Rightarrow> string) \<Rightarrow> (string \<Rightarrow> string \<Rightarrow> bool) \<Rightarrow> intent_request \<Rightarrow> msg + analysis" where
  "Analyze ulower ufold req =
     (let raw = trim_space (iqPrompt req) in
      if raw = [] then Inl (Fmt ''%w: nothing to analyze'' [AMsg ErrEmptyPrompt])
      else
        (let p = normalize_prompt ulower raw;
             c = classify p;
             destructive = containsAny p destructiveSignals;
             vague = (\<not> destructive \<and> containsAny p weakDestructive);
             s = scope ulower ufold p (iqContext req);
             net = (clTaskType c = TaskTypeDependencyInstall \<or> containsAny p networkSignals);
             base = baseActions (clTaskType c);
             base = base @ (if destructive then [act ''delete'' ''files'' NecessityRequired] else []);
             base = base @ (if net \<and> \<not> hasVerb base ''fetch''
                            then [act ''fetch'' ''remote resource'' NecessityLikely] else []);
             unresolved = (containsAny p unresolvedRefs \<and> iqPriorTurns req = []);
             short = (length (Fields p) < 3);
             confidence = clConfidence c;
             confidence = (if unresolved then float_minus confidence penaltyUnresolvedRef else confidence);
             confidence = (if short then float_minus confidence penaltyVeryShort else confidence);
             ambiguities = clAmbiguities c @
               (if vague then [''prompt asks to remove something without naming what is removed''] else []) @
               (if net \<and> scNetworkHints s = [] then [''the task reaches the network but names no host''] else []) @
               (if unresolved then [''prompt refers to an earlier turn that was not supplied''] else []) @
               (if short then [''prompt is too short to ground an interpretation''] else []) @
               (if \<not> scWorkspaceOnly s then [''prompt reaches outside the workspace root''] else [])
         in
         Inr \<lparr>anRecord =
              \<lparr>inRawPrompt = iqPrompt req, inSummary = summaries (clTaskType c), inTaskType = clTaskType c,
               inAnalyzer = RuleAnalyzerName, inConfidence = round2 (clamp01 confidence),
               inAmbiguities = dedupe ambiguities\<rparr>,
              anActions = base, anScope = s, anRequiresNetwork = net, anDestructive = destructive\<rparr>))"

section \<open>Sanitizing\<close>

text \<open>The format characters of Unicode 15, category Cf, as inclusive ranges.\<close>

definition format_ranges :: "(nat \<times> nat) list" where
  "format_ranges =
     [(0xAD, 0xAD), (0x600, 0x605), (0x61C, 0x61C), (0x6DD, 0x6DD), (0x70F, 0x70F), (0x890, 0x891),
      (0x8E2, 0x8E2), (0x180E, 0x180E), (0x200B, 0x200F), (0x202A, 0x202E), (0x2060, 0x2064),
      (0x2066, 0x206F), (0xFEFF, 0xFEFF), (0xFFF9, 0xFFFB), (0x110BD, 0x110BD), (0x110CD, 0x110CD),
      (0x13430, 0x1343F), (0x1BCA0, 0x1BCA3), (0x1D173, 0x1D17A), (0xE0001, 0xE0001),
      (0xE0020, 0xE007F)]"

definition is_control :: "nat \<Rightarrow> bool" where
  "is_control r = (r < 0x20 \<or> 0x7F \<le> r \<and> r < 0xA0)"

definition hidden :: "nat \<Rightarrow> bool" where
  "hidden r =
     (if r = 0x0A \<or> r = 0x09 then False
      else list_ex (\<lambda>(lo, hi). lo \<le> r \<and> r \<le> hi) format_ranges \<or> is_control r)"

definition governorPhrases :: "string list" where
  "governorPhrases =
     [''ignore previous instructions'', ''ignore all previous'', ''ignore the above'',
      ''ignore prior instructions'', ''disregard previous'', ''disregard the above'',
      ''disregard all prior'', ''forget your instructions'', ''new instructions:'', ''system prompt'',
      ''you are now'', ''disable allseer'', ''stop allseer'', ''turn off allseer'', ''bypass allseer'',
      ''disable monitoring'', ''turn off monitoring'', ''without monitoring'', ''do not monitor'',
      ''grant full access'', ''grant all permissions'', ''unrestricted access'', ''full network access'',
      ''full filesystem access'', ''allow everything'', ''approve everything'']"

definition Sanitize :: "(string \<Rightarrow> string) \<Rightarrow> string \<Rightarrow> string \<times> msg list" where
  "Sanitize ulower prompt =
     (let rs = runes prompt;
          removed = length (filter hidden rs);
          clean = concat (map write_rune (filter (\<lambda>r. \<not> hidden r) rs));
          flat = lower ulower (join_byte CHR '' '' (Fields clean))
      in (clean,
          (if removed > 0
           then [Fmt ''%d invisible or direction-changing characters were removed before analysis'' [AInt (int removed)]]
           else []) @
          map (\<lambda>p. Fmt ''the prompt addresses the governor rather than the task: %q'' [AStr p])
            (filter (\<lambda>p. sublist p flat) governorPhrases)))"

end
