(* ===== verification/IntentLaws.thy ===== *)
theory IntentLaws
  imports Intent
begin

text \<open>
  What the reading of a prompt promises: the analyzer sees what a person sees, and an analysis without
  a stated doubt is one the table settles.
\<close>

section \<open>The classification\<close>

lemma first_seen_empty: "first_seen seen xs = [] \<longleftrightarrow> set xs \<subseteq> seen"
  by (metis Diff_eq_empty_iff empty_set set_empty set_first_seen)

lemma dedupe_Nil: "dedupe xs = [] \<longleftrightarrow> xs = []"
  by (simp add: dedupe_def first_seen_empty)

lemma taskRules_names: "TaskTypeUnknown \<notin> fst ` set taskRules"
  by (simp add: taskRules_def task_types)

lemma matches_named: "t \<in> set (task_matches p) \<Longrightarrow> t \<noteq> TaskTypeUnknown"
  using taskRules_names by (auto simp: task_matches_def image_iff)

lemma classify_certain:
  assumes "clAmbiguities (classify p) = []"
  obtains t where "task_matches p = [t]" "clTaskType (classify p) = t"
    "clConfidence (classify p) = fl confidenceSingleMatch"
proof (cases "task_matches p")
  case Nil
  then show thesis using assms by (simp add: classify_def)
next
  case (Cons t ts)
  then show thesis using assms that [of t] by (cases ts) (simp_all add: classify_def)
qed

text \<open>Whatever the prompt, exactly the rules whose phrases occur are reported.\<close>

lemma classify_named:
  "clTaskType (classify p) = TaskTypeUnknown \<longleftrightarrow> task_matches p = []"
proof (cases "task_matches p")
  case Nil
  then show ?thesis by (simp add: classify_def)
next
  case (Cons t ts)
  then have "t \<noteq> TaskTypeUnknown" using matches_named [of t p] by simp
  moreover have "clTaskType (classify p) = t" using Cons by (cases ts) (simp_all add: classify_def)
  ultimately show ?thesis using Cons by simp
qed

section \<open>Properties\<close>

text \<open>An analysis without a doubt is a settled one. When the analyzer reports no ambiguity, exactly one task type matched
  and is the one reported, with the confidence of a single match and no penalty; the task stays in
  the workspace; and when it needs the network it names a host.\<close>

theorem no_doubt_means_one_task:
  assumes "Analyze ulower ufold req = Inr an" and "inAmbiguities (anRecord an) = []"
  shows "task_matches (normalize_prompt ulower (trim_space (iqPrompt req))) = [inTaskType (anRecord an)] \<and>
    inTaskType (anRecord an) \<noteq> TaskTypeUnknown \<and>
    inConfidence (anRecord an) = round2 (clamp01 (fl confidenceSingleMatch)) \<and>
    scWorkspaceOnly (anScope an) \<and> (anRequiresNetwork an \<longrightarrow> scNetworkHints (anScope an) \<noteq> [])"
proof -
  let ?p = "normalize_prompt ulower (trim_space (iqPrompt req))"
  let ?unresolved = "containsAny ?p unresolvedRefs \<and> iqPriorTurns req = []"
  let ?short = "length (Fields ?p) < 3"
  have raw: "trim_space (iqPrompt req) \<noteq> []"
    using assms(1) by (auto simp: Analyze_def)
  note an = assms(1) [unfolded Analyze_def Let_def if_not_P [OF raw] sum.inject, symmetric]
  have none: "clAmbiguities (classify ?p) = []" "\<not> ?unresolved" "\<not> ?short"
    "scWorkspaceOnly (anScope an)" "anRequiresNetwork an \<Longrightarrow> scNetworkHints (anScope an) \<noteq> []"
    using assms(2) unfolding an by (simp_all add: dedupe_Nil split: if_splits)
  from none(1) obtain t where t: "task_matches ?p = [t]" "clTaskType (classify ?p) = t"
    "clConfidence (classify ?p) = fl confidenceSingleMatch" by (rule classify_certain)
  have "inTaskType (anRecord an) = t" using t(2) by (simp add: an)
  moreover have "inConfidence (anRecord an) = round2 (clamp01 (fl confidenceSingleMatch))"
    using none(2,3) t(3) unfolding an by auto
  moreover have "t \<noteq> TaskTypeUnknown" using matches_named [of t ?p] t(1) by simp
  ultimately show ?thesis using t(1) none(4,5) by blast
qed

definition build_request :: intent_request where
  "build_request = \<lparr>iqPrompt = ''please go build it'', iqWorkspaceRoot = ''/w'',
     iqContext = \<lparr>wcLanguages = [], wcBuildSystems = [], wcHasVCS = False, wcTopLevelDirs = [], wcSensitivePaths = []\<rparr>,
     iqPriorTurns = [], iqAgentIdentity = []\<rparr>"

theorem no_doubt_means_one_task_witness:
  "\<exists>an. Analyze id (=) build_request = Inr an \<and> inTaskType (anRecord an) = TaskTypeBuild \<and>
     inConfidence (anRecord an) = round2 (clamp01 (fl confidenceSingleMatch))"
proof -
  let ?p = "normalize_prompt id (trim_space (iqPrompt build_request))"
  have flat: "?p = ''please go build it''" by code_simp
  have words: "length (Fields ?p) = 4" unfolding flat by code_simp
  have "containsAny ?p signals \<longleftrightarrow> list_ex (\<lambda>n. sublist n ''please go build it'') signals" for signals
    unfolding flat by (simp add: containsAny_def)
  note any = this
  have "task_matches ?p = [TaskTypeBuild]"
    unfolding task_matches_def any taskRules_def by (simp add: sublist_Cons_right task_types)
  then have c: "classify ?p = \<lparr>clTaskType = TaskTypeBuild, clConfidence = fl confidenceSingleMatch, clAmbiguities = []\<rparr>"
    by (simp add: classify_def)
  have calm: "\<not> containsAny ?p networkSignals" "\<not> containsAny ?p destructiveSignals"
    "\<not> containsAny ?p weakDestructive" "\<not> containsAny ?p unresolvedRefs" "\<not> containsAny ?p escapeSignals"
    unfolding any networkSignals_def destructiveSignals_def weakDestructive_def unresolvedRefs_def escapeSignals_def
    by (simp_all add: sublist_Cons_right)
  have inside: "scWorkspaceOnly (scope id (=) ?p (iqContext build_request))"
    using calm(5) by (simp add: scope_def build_request_def)
  have raw: "trim_space (iqPrompt build_request) \<noteq> []" using flat by (auto simp: normalize_prompt_def) code_simp
  obtain an where an: "Analyze id (=) build_request = Inr an" "inAmbiguities (anRecord an) = []"
    using raw calm(1-4) inside words by (simp add: Analyze_def Let_def c dedupe_Nil task_types)
  from no_doubt_means_one_task [OF an] \<open>task_matches ?p = [TaskTypeBuild]\<close> show ?thesis using an(1) by auto
qed

text \<open>The remarks on phrases addressed to the governor, for a text as a person sees it.\<close>

definition governor_remarks :: "(string \<Rightarrow> string) \<Rightarrow> string \<Rightarrow> msg list" where
  "governor_remarks ulower seen =
     map (\<lambda>p. Fmt ''the prompt addresses the governor rather than the task: %q'' [AStr p])
       (filter (\<lambda>p. sublist p (lower ulower (join_byte CHR '' '' (Fields seen)))) governorPhrases)"

text \<open>C32: what is analyzed is what is seen. The code points of the sanitized text are those of the prompt that a person can
  see, in their order: every hidden one is gone and nothing else is changed. What is reported is how
  many were removed, when any was, and then the phrases of the visible text that address the governor.
  Sanitizing once more changes nothing and reports exactly those phrases again, so that hidden
  characters inside a phrase do not keep it from being reported.\<close>

theorem analyzed_text_is_visible:
  "runes (fst (Sanitize ulower prompt)) = filter (\<lambda>r. \<not> hidden r) (runes prompt) \<and>
   snd (Sanitize ulower prompt) =
     (if list_ex hidden (runes prompt)
      then [Fmt ''%d invisible or direction-changing characters were removed before analysis''
              [AInt (int (length (runes prompt) - length (runes (fst (Sanitize ulower prompt)))))]]
      else []) @ governor_remarks ulower (fst (Sanitize ulower prompt)) \<and>
   Sanitize ulower (fst (Sanitize ulower prompt)) =
     (fst (Sanitize ulower prompt), governor_remarks ulower (fst (Sanitize ulower prompt)))"
proof -
  let ?vis = "filter (\<lambda>r. \<not> hidden r) (runes prompt)"
  have fst: "fst (Sanitize ulower s) = concat (map write_rune (filter (\<lambda>r. \<not> hidden r) (runes s)))" for s
    by (simp add: Sanitize_def Let_def)
  have snd: "snd (Sanitize ulower s) =
      (if list_ex hidden (runes s)
       then [Fmt ''%d invisible or direction-changing characters were removed before analysis''
               [AInt (int (length (filter hidden (runes s))))]] else []) @
      governor_remarks ulower (fst (Sanitize ulower s))" for s
    by (simp add: Sanitize_def Let_def governor_remarks_def list_ex_iff filter_empty_conv)
  have runes: "runes (concat (map write_rune ?vis)) = ?vis"
    using runes_valid by (intro runes_write_all) auto
  have again: "fst (Sanitize ulower (fst (Sanitize ulower prompt))) = fst (Sanitize ulower prompt)"
    by (simp add: fst runes)
  have none: "\<not> list_ex hidden (runes (fst (Sanitize ulower prompt)))"
    by (simp add: fst runes list_ex_iff)
  have "length (filter hidden (runes prompt)) = length (runes prompt) - length ?vis"
    using sum_length_filter_compl[of hidden "runes prompt"] by simp
  then have "snd (Sanitize ulower prompt) =
     (if list_ex hidden (runes prompt)
      then [Fmt ''%d invisible or direction-changing characters were removed before analysis''
              [AInt (int (length (runes prompt) - length (runes (fst (Sanitize ulower prompt)))))]]
      else []) @ governor_remarks ulower (fst (Sanitize ulower prompt))"
    using snd[of prompt] by (simp add: fst runes)
  moreover have "Sanitize ulower (fst (Sanitize ulower prompt)) =
     (fst (Sanitize ulower prompt), governor_remarks ulower (fst (Sanitize ulower prompt)))"
    using snd[of "fst (Sanitize ulower prompt)"] again none by (simp add: prod_eq_iff)
  moreover have "runes (fst (Sanitize ulower prompt)) = ?vis" by (simp add: fst runes)
  ultimately show ?thesis by blast
qed

end
