(* ===== verification/Generate.thy ===== *)
theory Generate
  imports Intent GoNet
begin

text \<open>
  From an analysis to an envelope (\<open>internal/envelope\<close>): the rule generator with its limits, the seal
  over an envelope's content, and the line an approver reads for a selector. Random bytes, the clock,
  the JSON encoder and SHA-256 are parameters.
\<close>

section \<open>Paths\<close>

text \<open>
  \<open>filepath.Clean\<close> and \<open>filepath.IsAbs\<close> on Unix: the segments of a path from left to right, \<open>..\<close>
  taking back the one before it where there is one to take back. \<open>out\<close> holds the kept ones reversed.
\<close>

definition clean_step :: "bool \<Rightarrow> string list \<Rightarrow> string \<Rightarrow> string list" where
  "clean_step rooted out seg =
     (if seg = [] \<or> seg = ''.'' then out
      else if seg = ''..'' then
        (case out of
           [] \<Rightarrow> (if rooted then [] else [seg])
         | s # rest \<Rightarrow> (if s = ''..'' then seg # out else rest))
      else seg # out)"

definition clean_path :: "string \<Rightarrow> string" where
  "clean_path p =
     (let rooted = prefix ''/'' p;
          body = join_byte CHR ''/'' (rev (foldl (clean_step rooted) [] (split_byte CHR ''/'' p)))
      in if rooted then ''/'' @ body else if body = [] then ''.'' else body)"

definition is_abs :: "string \<Rightarrow> bool" where
  "is_abs p = prefix ''/'' p"

section \<open>Data\<close>

record limits =
  lmMaxGrants :: int
  lmForbiddenKinds :: "kind list"
  lmRequireApprovalKinds :: "kind list"
  lmMaxSeverity :: severity
  lmAllowUnboundedSelectors :: bool
  lmMinConfidence :: float64

record params =
  pmSessionID :: string
  pmWorkspaceRoot :: string
  pmHome :: string
  pmResolvers :: "string list"
  pmTTL :: duration
  pmNow :: time
  pmUnobservable :: "kind list"

definition where_of :: "params \<Rightarrow> kind \<Rightarrow> string" where
  "where_of p k = (if k \<in> set (pmUnobservable p) then ''on this host'' else ''in this build'')"

record generation =
  gnEnvelope :: envelope
  gnWarnings :: "msg list"

definition ErrNoAnalysis :: msg where
  "ErrNoAnalysis = Fmt ''envelope: an analysis is required'' []"
definition ErrNoWorkspace :: msg where
  "ErrNoWorkspace = Fmt ''envelope: an absolute workspace root is required'' []"
definition ErrTooMany :: msg where
  "ErrTooMany = Fmt ''envelope: generated grants exceed the configured maximum'' []"

section \<open>Building grants\<close>

record envelope_builder =
  blWs :: string
  blHome :: string
  blGrants :: "grant list"
  blDenials :: "grant list"

text \<open>This package's \<open>dedupe\<close> drops empty strings as well as repeats.\<close>

definition dedupe_values :: "string list \<Rightarrow> string list" where
  "dedupe_values xs = first_seen {[]} xs"

definition union_values :: "string list \<Rightarrow> string list \<Rightarrow> string list" where
  "union_values a b = dedupe_values (a @ b)"

definition sameDims :: "selector \<Rightarrow> selector \<Rightarrow> bool" where
  "sameDims a b \<longleftrightarrow>
     (PathPatterns a \<noteq> []) = (PathPatterns b \<noteq> []) \<and> (Hosts a \<noteq> []) = (Hosts b \<noteq> []) \<and>
     (Executables a \<noteq> []) = (Executables b \<noteq> []) \<and>
     Ports a = [] \<and> Ports b = [] \<and> Protocols a = [] \<and> Protocols b = []"

definition merge_selector :: "selector \<Rightarrow> selector \<Rightarrow> selector" where
  "merge_selector sel extra =
     sel\<lparr>PathPatterns := union_values (PathPatterns sel) (PathPatterns extra),
         Hosts := union_values (Hosts sel) (Hosts extra),
         Executables := union_values (Executables sel) (Executables extra)\<rparr>"

definition new_grant :: "kind \<Rightarrow> selector \<Rightarrow> string \<Rightarrow> grant" where
  "new_grant k sel why =
     \<lparr>grantKind = k, grantDomain = (case DomainOf k of Some d \<Rightarrow> d | None \<Rightarrow> DomainOther []),
      grantSelector = sel, grantRationale = why, grantOptional = False\<rparr>"

fun add_grant :: "kind \<Rightarrow> selector \<Rightarrow> string \<Rightarrow> grant list \<Rightarrow> grant list" where
  "add_grant k sel why [] = [new_grant k sel why]"
| "add_grant k sel why (g # gs) =
     (if grantKind g = k \<and> sameDims (grantSelector g) sel
      then g\<lparr>grantSelector := merge_selector (grantSelector g) sel\<rparr> # gs
      else g # add_grant k sel why gs)"

definition builder_add :: "kind \<Rightarrow> selector \<Rightarrow> string \<Rightarrow> envelope_builder \<Rightarrow> envelope_builder" where
  "builder_add k sel why b = b\<lparr>blGrants := add_grant k sel why (blGrants b)\<rparr>"

definition paths_sel :: "string list \<Rightarrow> selector" where
  "paths_sel ps = empty_selector\<lparr>PathPatterns := ps\<rparr>"

definition programs_sel :: "string list \<Rightarrow> selector" where
  "programs_sel ps = empty_selector\<lparr>Executables := ps\<rparr>"

definition builder_deny :: "kind \<Rightarrow> string list \<Rightarrow> string \<Rightarrow> envelope_builder \<Rightarrow> envelope_builder" where
  "builder_deny k ps why b = b\<lparr>blDenials := blDenials b @ [new_grant k (paths_sel ps) why]\<rparr>"

definition builder_homePaths :: "envelope_builder \<Rightarrow> string list \<Rightarrow> string list" where
  "builder_homePaths b rel = (if blHome b = [] then [] else map (\<lambda>r. blHome b @ ''/'' @ r) rel)"

definition systemReads :: "string list" where
  "systemReads =
     [''/usr/**'', ''/lib/**'', ''/lib64/**'', ''/bin/**'', ''/sbin/**'', ''/opt/**'', ''/snap/**'',
      ''/etc/ld.so.cache'', ''/etc/ld.so.conf'', ''/etc/ld.so.conf.d/**'', ''/etc/localtime'',
      ''/etc/nsswitch.conf'', ''/etc/passwd'', ''/etc/group'', ''/etc/hosts'', ''/etc/host.conf'',
      ''/etc/resolv.conf'', ''/etc/gai.conf'', ''/etc/ssl/**'', ''/etc/ca-certificates/**'',
      ''/etc/alternatives/**'', ''/etc/os-release'', ''/etc/lsb-release'', ''/etc/mime.types'',
      ''/etc/locale.alias'', ''/etc/inputrc'', ''/etc/bash.bashrc'', ''/etc/profile'', ''/etc/profile.d/**'',
      ''/etc/environment'', ''/etc/gitconfig'', ''/etc/timezone'', ''/run/systemd/resolve/**'',
      ''/proc/**'', ''/sys/**'', ''/dev/null'', ''/dev/zero'', ''/dev/urandom'', ''/dev/random'',
      ''/dev/tty'', ''/dev/pts/**'', ''/tmp/**'', ''/var/tmp/**'']"

definition systemExecs :: "string list" where
  "systemExecs =
     [''/usr/bin/**'', ''/bin/**'', ''/usr/local/bin/**'', ''/usr/lib/**'', ''/usr/libexec/**'',
      ''/usr/local/go/**'', ''/usr/local/lib/**'', ''/snap/**'', ''/tmp/**'']"

definition builder_base :: "envelope_builder \<Rightarrow> envelope_builder" where
  "builder_base b =
     (let ws = blWs b @ ''/**'';
          reads = ws # systemReads @
            builder_homePaths b [''.gitconfig'', ''.config/git/**'', ''.cache/**'', ''.bashrc'', ''.profile''];
          writes = [ws, ''/tmp/**'', ''/var/tmp/**'', ''/dev/null'', ''/dev/tty'', ''/dev/pts/**''] @
            builder_homePaths b [''.cache/**''];
          execs = ws # systemExecs @ builder_homePaths b [''go/bin/**'', ''.local/bin/**'', ''.cargo/bin/**''];
          b = builder_add KindFileRead (paths_sel reads)
            ''The workspace, system libraries, and the configuration every toolchain reads. Credential stores are excluded.'' b;
          b = builder_add KindFileWrite (paths_sel writes)
            ''Changes stay in the workspace, temporary directories and caches.'' b;
          b = builder_add KindFileCreate (paths_sel writes)
            ''New files stay in the workspace, temporary directories and caches.'' b;
          b = builder_add KindFileLink (paths_sel writes)
            ''Hard links to files in the workspace, temporary directories and caches.'' b;
          b = builder_add KindProcessExec (programs_sel execs)
            ''System and user toolchain binaries, and programs built in the workspace.'' b
      in builder_add KindProcessExit (programs_sel execs) ''Exit of the same programs.'' b)"

definition toolchain_caches :: "envelope_builder \<Rightarrow> envelope_builder" where
  "toolchain_caches b =
     (let caches = builder_homePaths b [''go/**'', ''.npm/**'', ''.cargo/**'', ''.rustup/**'', ''.local/lib/**'',
            ''.m2/**'', ''.gradle/**'', ''.config/go/**'']
      in if caches = [] then b
         else
           builder_add KindFileCreate (paths_sel caches) ''Language toolchains populate their module and package caches.''
             (builder_add KindFileWrite (paths_sel caches) ''Language toolchains populate their module and package caches.''
               (builder_add KindFileRead (paths_sel caches) ''Language toolchains read their module and package caches.'' b)))"

definition downloaded_toolchains :: "envelope_builder \<Rightarrow> envelope_builder" where
  "downloaded_toolchains b =
     (let tools = builder_homePaths b [''go/pkg/mod/golang.org/toolchain@*/**'', ''.rustup/toolchains/**'']
      in if tools = [] then b
         else
           builder_add KindProcessExit (programs_sel tools) ''Exit of the same toolchain binaries.''
             (builder_add KindProcessExec (programs_sel tools)
               ''Toolchains the language's version manager downloaded into its cache.'' b))"

definition git_keys :: "envelope_builder \<Rightarrow> envelope_builder" where
  "git_keys b =
     (let ssh = builder_homePaths b [''.ssh/**''] in
      if ssh = [] then b
      else builder_add KindFileRead (paths_sel ssh)
        ''Git over SSH reads keys and known_hosts. Review: this grants credential access.'' b)"

definition builder_task :: "analysis \<Rightarrow> envelope_builder \<Rightarrow> envelope_builder" where
  "builder_task an b =
     (let t = inTaskType (anRecord an) in
      if t = TaskTypeBuild \<or> t = TaskTypeTest \<or> t = TaskTypeDependencyInstall
      then downloaded_toolchains (toolchain_caches b)
      else if t = TaskTypeGitOperation then (if anRequiresNetwork an then git_keys b else b)
      else b)"

definition registryHosts :: "string \<Rightarrow> string list option" where
  "registryHosts =
     [''proxy.golang.org'' \<mapsto> [''proxy.golang.org'', ''sum.golang.org'', ''storage.googleapis.com''],
      ''registry.npmjs.org'' \<mapsto> [''registry.npmjs.org''],
      ''pypi.org'' \<mapsto> [''pypi.org'', ''files.pythonhosted.org''],
      ''crates.io'' \<mapsto> [''crates.io'', ''index.crates.io'', ''static.crates.io'']]"

definition implied_hosts :: "string list \<Rightarrow> string list" where
  "implied_hosts hints = concat (map (\<lambda>h. case registryHosts h of Some known \<Rightarrow> known | None \<Rightarrow> [h]) hints)"

definition builder_network :: "analysis \<Rightarrow> string list \<Rightarrow> envelope_builder \<Rightarrow> envelope_builder" where
  "builder_network an resolvers b =
     (if \<not> anRequiresNetwork an then b
      else
        (let hosts = implied_hosts (scNetworkHints (anScope an));
             b = (if resolvers \<noteq> []
                  then builder_add KindNetConnect (empty_selector\<lparr>Hosts := dedupe_values resolvers, Ports := [53]\<rparr>)
                    ''Name resolution through the configured resolvers.'' b
                  else b)
         in if hosts \<noteq> []
            then builder_add KindNetConnect (empty_selector\<lparr>Hosts := dedupe_values hosts\<rparr>)
              ''Hosts the task names or implies.'' b
            else b))"

definition credential_files :: "bool \<Rightarrow> string list" where
  "credential_files gitNet =
     [''.aws/**'', ''.gnupg/**'', ''.kube/**'', ''.docker/config.json'', ''.netrc'',
      ''.config/gh/**'', ''.git-credentials'', ''.password-store/**'', ''.pgpass''] @
     (if gitNet then [] else [''.ssh/**''])"

definition denied_reads :: "analysis \<Rightarrow> envelope_builder \<Rightarrow> string list" where
  "denied_reads an b =
     builder_homePaths b (credential_files
       (inTaskType (anRecord an) = TaskTypeGitOperation \<and> anRequiresNetwork an)) @
     [''/etc/shadow'', ''/etc/gshadow'', ''/etc/sudoers'', ''/etc/sudoers.d/**''] @
     (if blHome b \<noteq> ''/root'' \<and> \<not> prefix ''/root/'' (blWs b) then [''/root/**''] else [])"

definition persistence_points :: "analysis \<Rightarrow> envelope_builder \<Rightarrow> string list" where
  "persistence_points an b =
     [blWs b @ ''/.git/hooks/**''] @
     builder_homePaths b
       [''.ssh/**'', ''.bashrc'', ''.profile'', ''.bash_profile'', ''.zshrc'', ''.config/autostart/**''] @
     (if inTaskType (anRecord an) \<noteq> TaskTypeGitOperation then [blWs b @ ''/.github/workflows/**''] else [])"

definition builder_denials :: "analysis \<Rightarrow> envelope_builder \<Rightarrow> envelope_builder" where
  "builder_denials an b =
     (let reads = denied_reads an b;
          persist = persistence_points an b;
          b = builder_deny KindFileRead reads ''Credential stores are never part of a coding task.'' b;
          b = builder_deny KindFileWrite persist
            ''Hooks, CI workflows and shell startup files are persistence points.'' b
      in builder_deny KindFileCreate persist
            ''Hooks, CI workflows and shell startup files are persistence points.'' b)"

section \<open>Generation\<close>

definition forbidden :: "limits \<Rightarrow> kind \<Rightarrow> bool" where
  "forbidden l k = list_ex (\<lambda>f. f = k) (lmForbiddenKinds l)"

definition letters :: "char list" where
  "letters = ''abcdefghijklmnopqrstuvwxyz''"

definition hasHostnameGrant :: "grant list \<Rightarrow> bool" where
  "hasHostnameGrant gs =
     list_ex (\<lambda>g. list_ex (\<lambda>h. list_ex (\<lambda>c. c \<in> set letters) h \<and> CHR '':'' \<notin> set h)
       (Hosts (grantSelector g))) gs"

definition hex_digit :: "nat \<Rightarrow> char" where
  "hex_digit n = ''0123456789abcdef'' ! (n mod 16)"

text \<open>\<open>hex.EncodeToString\<close>; the random bytes are the parameter.\<close>

definition hex_encode :: "nat list \<Rightarrow> string" where
  "hex_encode bs = concat (map (\<lambda>b. [hex_digit (b div 16), hex_digit b]) bs)"

definition newID :: "nat list \<Rightarrow> string" where
  "newID rnd =
     (let h = hex_encode rnd in
      take 8 h @ ''-'' @ take 4 (drop 8 h) @ ''-'' @ take 4 (drop 12 h) @ ''-'' @
      take 4 (drop 16 h) @ ''-'' @ take 12 (drop 20 h))"

text \<open>\<open>stamp\<close> renders a time in the layout \<open>20060102t150405\<close>.\<close>

definition NewSessionID :: "(time \<Rightarrow> string) \<Rightarrow> nat list \<Rightarrow> time \<Rightarrow> string" where
  "NewSessionID stamp rnd now = ''s-'' @ stamp now @ ''-'' @ hex_encode rnd"

definition observed_by :: "catalog option \<Rightarrow> kind \<Rightarrow> bool" where
  "observed_by cat k = (case cat of None \<Rightarrow> True | Some c \<Rightarrow> catIsObservable c k)"

text \<open>The two loops that keep what may be kept and say why the rest is not.\<close>

definition kept_grants :: "limits \<Rightarrow> catalog option \<Rightarrow> params \<Rightarrow> grant list \<Rightarrow> grant list \<times> msg list" where
  "kept_grants l cat p gs =
     (filter (\<lambda>g. \<not> forbidden l (grantKind g) \<and> observed_by cat (grantKind g)) gs,
      concat (map (\<lambda>g.
        if forbidden l (grantKind g) then
          [Fmt ''dropped %s grant: the kind is forbidden by configuration'' [AStr (kind_string (grantKind g))]]
        else if \<not> observed_by cat (grantKind g) then
          [Fmt ''dropped %s grant: no probe %s observes it''
            [AStr (kind_string (grantKind g)), AStr (where_of p (grantKind g))]]
        else []) gs))"

definition kept_denials :: "catalog option \<Rightarrow> params \<Rightarrow> grant list \<Rightarrow> grant list \<times> msg list" where
  "kept_denials cat p ds =
     (filter (\<lambda>d. observed_by cat (grantKind d)) ds,
      concat (map (\<lambda>d.
        if observed_by cat (grantKind d) then []
        else [Fmt ''denial of %s is unenforceable: no probe %s observes it''
               [AStr (kind_string (grantKind d)), AStr (where_of p (grantKind d))]]) ds))"

definition requester_home :: "params \<Rightarrow> string" where
  "requester_home p =
     (if pmHome p \<noteq> [] \<and> is_abs (pmHome p) \<and> clean_path (pmHome p) \<noteq> ''/''
      then clean_path (pmHome p) else [])"

definition empty_builder :: "params \<Rightarrow> string \<Rightarrow> envelope_builder" where
  "empty_builder p ws = \<lparr>blWs = ws, blHome = requester_home p, blGrants = [], blDenials = []\<rparr>"

definition built :: "analysis \<Rightarrow> params \<Rightarrow> string \<Rightarrow> envelope_builder" where
  "built an p ws =
     builder_denials an
       (builder_network an (pmResolvers p) (builder_task an (builder_base (empty_builder p ws))))"

definition Generate_envelope ::
  "limits \<Rightarrow> nat list \<Rightarrow> time \<Rightarrow> analysis option \<Rightarrow> catalog option \<Rightarrow> params \<Rightarrow> msg + generation" where
  "Generate_envelope l rnd clock analysis cat p =
     (case analysis of
        None \<Rightarrow> Inl ErrNoAnalysis
      | Some an \<Rightarrow>
          (let ws = clean_path (pmWorkspaceRoot p) in
           if pmWorkspaceRoot p = [] \<or> \<not> is_abs ws \<or> ws = ''/'' then
             Inl (Fmt ''%w: %q'' [AMsg ErrNoWorkspace, AStr (pmWorkspaceRoot p)])
           else
             (let now = (if pmNow p = 0 then clock else pmNow p);
                  ttl = (if pmTTL p \<le> 0 then 3600000000000 else pmTTL p);
                  b = built an p ws;
                  (grants, dropped) = kept_grants l cat p (blGrants b);
                  (denials, unenforceable) = kept_denials cat p (blDenials b)
              in
              if lmMaxGrants l > 0 \<and> int (length grants) > lmMaxGrants l then
                Inl (Fmt ''%w: %d > %d'' [AMsg ErrTooMany, AInt (int (length grants)), AInt (lmMaxGrants l)])
              else
                Inr \<lparr>gnEnvelope =
                  \<lparr>envSchemaVersion = SchemaVersion, envID = newID rnd, envSessionID = pmSessionID p,
                   envCreatedAt = now, envExpiresAt = now + ttl, envIntent = anRecord an,
                   Grants = grants, Denials = denials,
                   Constraints = zero_constraints\<lparr>WorkspaceRoot := ws, MaxDuration := ttl\<rparr>,
                   DefaultAction = ActionRequestApproval, envApproval = None,
                   envSealed = False, envDigest = []\<rparr>,
                  gnWarnings = dropped @ unenforceable @
                    (if hasHostnameGrant grants then
                       [Fmt ''network grants name hosts, but this build does not correlate DNS answers; connections to them reach policy as indeterminate rather than as matched'' []]
                     else []) @
                    (if float_less (inConfidence (anRecord an)) (lmMinConfidence l) then
                       [Fmt ''analysis confidence %.2f is below the configured minimum %.2f''
                         [AFloat (inConfidence (anRecord an)), AFloat (lmMinConfidence l)]]
                     else [])\<rparr>)))"

text \<open>\<open>GrantedKinds\<close>: each kind once, in the order of the kinds' names.\<close>

definition GrantedKinds :: "envelope \<Rightarrow> kind list" where
  "GrantedKinds env = sort_key kind_string (first_seen {} (map grantKind (Grants env)))"

section \<open>Sealing\<close>

definition ErrAlreadySealed :: msg where
  "ErrAlreadySealed = Fmt ''envelope: already sealed; a changed envelope needs a new one, not a re-seal'' []"
definition ErrNotSealed :: msg where
  "ErrNotSealed = Fmt ''envelope: not sealed'' []"
definition ErrTampered :: msg where
  "ErrTampered = Fmt ''envelope: digest does not match content'' []"

text \<open>\<open>json\<close> is \<open>json.Marshal\<close> on an envelope, \<open>sha\<close> is \<open>sha256.Sum256\<close>.\<close>

definition Digest ::
  "(envelope \<Rightarrow> msg + string) \<Rightarrow> (string \<Rightarrow> nat list) \<Rightarrow> envelope \<Rightarrow> msg + string" where
  "Digest json sha env =
     (case json (env\<lparr>envDigest := [], envApproval := None\<rparr>) of
        Inl err \<Rightarrow> Inl (Fmt ''envelope: encoding for digest: %w'' [AMsg err])
      | Inr b \<Rightarrow> Inr (''sha256:'' @ hex_encode (sha b)))"

definition Seal_envelope ::
  "(envelope \<Rightarrow> msg + string) \<Rightarrow> (string \<Rightarrow> nat list) \<Rightarrow> envelope option \<Rightarrow> go_error \<times> envelope option" where
  "Seal_envelope json sha env =
     (case env of
        None \<Rightarrow> (Some (Fmt ''envelope: nil envelope'' []), None)
      | Some e \<Rightarrow>
          if envSealed e then (Some ErrAlreadySealed, Some e)
          else
            (case Digest json sha (e\<lparr>envSealed := True\<rparr>) of
               Inl err \<Rightarrow> (Some err, Some (e\<lparr>envSealed := False\<rparr>))
             | Inr d \<Rightarrow> (None, Some (e\<lparr>envSealed := True, envDigest := d\<rparr>))))"

definition Verify_envelope ::
  "(envelope \<Rightarrow> msg + string) \<Rightarrow> (string \<Rightarrow> nat list) \<Rightarrow> envelope option \<Rightarrow> go_error" where
  "Verify_envelope json sha env =
     (case env of
        None \<Rightarrow> Some ErrNotSealed
      | Some e \<Rightarrow>
          if \<not> envSealed e \<or> envDigest e = [] then Some ErrNotSealed
          else
            (case Digest json sha e of
               Inl err \<Rightarrow> Some err
             | Inr d \<Rightarrow>
                 if d \<noteq> envDigest e
                 then Some (Fmt ''%w: have %s, computed %s'' [AMsg ErrTampered, AStr (envDigest e), AStr d])
                 else None))"

section \<open>Describing a selector\<close>

definition described :: "string \<Rightarrow> string list \<Rightarrow> string list" where
  "described label vs =
     (if vs = [] then []
      else if length vs > 6 then
        [label @ '' '' @ join_with '', '' (take 6 vs) @ '' (+'' @ itoa (int (length vs - 6)) @ '' more)'']
      else [label @ '' '' @ join_with '', '' vs])"

definition DescribeSelector :: "selector \<Rightarrow> string" where
  "DescribeSelector s =
     (let parts = described ''paths'' (PathPatterns s) @ described ''hosts'' (Hosts s) @
            described ''ports'' (map itoa (Ports s)) @ described ''protocols'' (Protocols s) @
            described ''executables'' (Executables s) @ described ''args'' (ArgPatterns s) @
            (if MaxCount s > 0 then [''at most '' @ itoa (MaxCount s) @ '' times''] else [])
      in if parts = [] then ''(any target)'' else join_with ''; '' parts)"

end
