(* ===== verification/GenerateLaws.thy ===== *)
theory GenerateLaws
  imports Generate Validate Lint
begin

text \<open>
  What generation promises whatever the prompt said: where the standing denials reach, that the grants
  over files and programs are the same for every prompt of one task type, that an envelope generated
  for plain directories is admitted, and that a seal detects a change.
\<close>

section \<open>Clean paths\<close>

definition clean_seg :: "string \<Rightarrow> bool" where
  "clean_seg s \<longleftrightarrow> s \<noteq> [] \<and> s \<noteq> ''.'' \<and> s \<noteq> ''..'' \<and> CHR ''/'' \<notin> set s"

lemma split_byte_bytes: "s \<in> set (split_byte c p) \<Longrightarrow> set s \<subseteq> set p"
  by (induction c p arbitrary: s rule: split_byte.induct) (fastforce split: if_splits list.splits)+

lemma clean_step_segs:
  assumes "\<forall>s\<in>set out. clean_seg s \<and> set s \<subseteq> B" and "CHR ''/'' \<notin> set seg" "set seg \<subseteq> B"
  shows "\<forall>s\<in>set (clean_step True out seg). clean_seg s \<and> set s \<subseteq> B"
  using assms by (auto simp: clean_step_def clean_seg_def split: list.splits)

lemma clean_steps_segs:
  "\<forall>s\<in>set out. clean_seg s \<and> set s \<subseteq> B \<Longrightarrow> \<forall>s\<in>set segs. CHR ''/'' \<notin> set s \<and> set s \<subseteq> B \<Longrightarrow>
     \<forall>s\<in>set (foldl (clean_step True) out segs). clean_seg s \<and> set s \<subseteq> B"
proof (induction segs arbitrary: out)
  case (Cons seg segs)
  have "\<forall>s\<in>set (clean_step True out seg). clean_seg s \<and> set s \<subseteq> B"
    by (rule clean_step_segs [OF Cons.prems(1)]) (use Cons.prems(2) in simp_all)
  from Cons.IH [OF this] Cons.prems(2) show ?case by (simp only: foldl_Cons list.set insert_iff) blast
qed simp

lemma slash_join: "''/'' @ join_byte CHR ''/'' segs = path_of segs"
proof (cases "segs = []")
  case False
  then show ?thesis using path_of_join [of segs] by simp
qed (simp add: path_of_def)

text \<open>A relative path stays one.\<close>

lemma clean_relative:
  assumes "\<not> is_abs p"
  shows "\<not> is_abs (clean_path p)"
proof -
  let ?ok = "\<lambda>s. s \<noteq> [] \<and> CHR ''/'' \<notin> set s"
  have step: "list_all ?ok (clean_step False out seg)" if "list_all ?ok out" "CHR ''/'' \<notin> set seg" for out seg
    using that by (auto simp: clean_step_def split: list.splits)
  have segs: "list_all ?ok (foldl (clean_step False) out segs)"
    if "list_all ?ok out" "list_all (\<lambda>s. CHR ''/'' \<notin> set s) segs" for out segs
    using that by (induction segs arbitrary: out) (simp_all add: step)
  let ?out = "rev (foldl (clean_step False) [] (split_byte CHR ''/'' p))"
  have "list_all ?ok ?out" 
    using segs [of "[]" "split_byte CHR ''/'' p"] split_byte_no_sep by (fastforce simp: list_all_iff)
  then have "\<not> prefix ''/'' (join_byte CHR ''/'' ?out)"
    by (cases ?out; cases "tl ?out") (auto simp: prefix_def Cons_eq_append_conv append_eq_Cons_conv)
  then show ?thesis using assms by (simp add: clean_path_def is_abs_def Let_def)
qed

text \<open>Cleaning an absolute path leaves a path in resolved form, over the same bytes.\<close>

lemma clean_abs:
  assumes "is_abs p"
  obtains segs where "clean_path p = path_of segs" "\<forall>s\<in>set segs. clean_seg s \<and> set s \<subseteq> set p"
proof
  let ?segs = "rev (foldl (clean_step True) [] (split_byte CHR ''/'' p))"
  have "clean_path p = ''/'' @ join_byte CHR ''/'' ?segs"
    using assms by (simp add: clean_path_def is_abs_def)
  also have "\<dots> = path_of ?segs"
    by (rule slash_join)
  finally show "clean_path p = path_of ?segs" .
  show "\<forall>s\<in>set ?segs. clean_seg s \<and> set s \<subseteq> set p"
    using clean_steps_segs [of "[]" "set p" "split_byte CHR ''/'' p"]
    by (auto dest: split_byte_no_sep split_byte_bytes)
qed

text \<open>A directory whose name the matcher reads as itself: no wildcard, no NUL.\<close>

definition plain_seg :: "string \<Rightarrow> bool" where
  "plain_seg s \<longleftrightarrow> good_seg s \<and> set s \<inter> {CHR ''*'', CHR ''?'', CHR ''[''} = {}"

definition plain_dir :: "string \<Rightarrow> bool" where
  "plain_dir p \<longleftrightarrow> is_abs p \<and> clean_path p \<noteq> ''/'' \<and>
     set p \<inter> {CHR ''*'', CHR ''?'', CHR ''['', CHR 0x00} = {}"

lemma plain_dir_segs:
  assumes "plain_dir p"
  obtains R where "clean_path p = path_of R" "R \<noteq> []" "\<forall>s\<in>set R. plain_seg s"
proof -
  obtain R where R: "clean_path p = path_of R" "\<forall>s\<in>set R. clean_seg s \<and> set s \<subseteq> set p"
    using assms clean_abs [of p] by (auto simp: plain_dir_def)
  moreover have "R \<noteq> []" using assms R(1) by (auto simp: plain_dir_def path_of_def)
  moreover have "\<forall>s\<in>set R. plain_seg s"
    using R(2) assms by (fastforce simp: plain_dir_def plain_seg_def clean_seg_def good_seg_def)
  ultimately show thesis using that by blast
qed

section \<open>Patterns under a directory\<close>

definition pattern_seg :: "string \<Rightarrow> bool" where
  "pattern_seg s \<longleftrightarrow> s \<noteq> [] \<and> CHR ''/'' \<notin> set s \<and> CHR 0x00 \<notin> set s \<and> validateSegment s = None"

lemma scan_no_class: "CHR ''['' \<notin> set seg \<Longrightarrow> scan_classes seg i = None"
proof (induction seg i rule: scan_classes.induct)
  case (1 seg i)
  then show ?case by (subst scan_classes.simps) (auto dest: nth_mem)
qed

lemma plain_pattern_seg: "plain_seg s \<Longrightarrow> pattern_seg s"
  by (auto simp: plain_seg_def good_seg_def pattern_seg_def validateSegment_def scan_no_class sublist_def)

lemma ValidatePattern_segs:
  assumes "\<forall>s\<in>set pats. pattern_seg s" and "pats \<noteq> []"
  shows "ValidatePattern (path_of pats) = None" "segments (normalize (path_of pats)) = pats"
proof -
  have plain: "\<forall>s\<in>set pats. s \<noteq> [] \<and> CHR ''/'' \<notin> set s" using assms(1) by (simp add: pattern_seg_def)
  have norm: "normalize (path_of pats) = path_of pats" using normalize_path_of(1) [OF plain] .
  show segs: "segments (normalize (path_of pats)) = pats"
    unfolding norm using plain by (simp add: segments_path_of)
  have "path_of pats \<noteq> []" "hd (path_of pats) = CHR ''/''" using assms(2) by (cases pats; simp add: path_of_def)+
  moreover have "CHR 0x00 \<notin> set (path_of pats)" using assms by (auto simp: path_of_def pattern_seg_def)
  moreover have "\<not> sublist ''//'' (path_of pats)"
    using no_double_slash [OF plain, of "[]"] assms(2) by (simp add: path_of_def)
  moreover have "find (\<lambda>seg. validateSegment seg \<noteq> None) pats = None"
    using assms(1) by (auto simp: find_None_iff pattern_seg_def)
  ultimately show "ValidatePattern (path_of pats) = None" by (simp add: ValidatePattern_def segs)
qed

lemma covers_literally:
  assumes "\<forall>s\<in>set R. plain_seg s" and "path_covers pats segs"
  shows "path_covers (R @ pats) (R @ segs)"
  using assms(1)
proof (induction R)
  case (Cons s R)
  then have "seg_glob s s" "s \<noteq> ''**''" by (auto simp: plain_seg_def seg_glob_literal)
  with Cons show ?case by (auto intro: covers_seg)
qed (simp add: assms(2))

text \<open>A relative pattern is its segments; all those of the generator are well formed.\<close>

definition good_rel :: "string \<Rightarrow> bool" where
  "good_rel rel \<longleftrightarrow> list_all (\<lambda>s. s \<noteq> [] \<and> CHR 0x00 \<notin> set s \<and> validateSegment s = None) (split_byte CHR ''/'' rel)"

lemma good_rel_segs: "good_rel rel \<Longrightarrow> s \<in> set (split_byte CHR ''/'' rel) \<Longrightarrow> pattern_seg s"
  using split_byte_no_sep by (auto simp: good_rel_def pattern_seg_def list_all_iff)

lemma path_of_append: "R \<noteq> [] \<Longrightarrow> path_of R @ path_of P = (if P = [] then path_of R @ ''/'' else path_of (R @ P))"
  by (simp add: path_of_def)

lemma rel_pattern: "R \<noteq> [] \<Longrightarrow> path_of R @ ''/'' @ rel = path_of (R @ split_byte CHR ''/'' rel)"
  using path_of_join [of "split_byte CHR ''/'' rel"] path_of_append [of R "split_byte CHR ''/'' rel"] by simp

lemma match_under:
  assumes "\<forall>s\<in>set R. plain_seg s" "R \<noteq> []" and "good_rel rel"
    and "\<forall>s\<in>set segs. good_seg s" and "matchSegments (split_byte CHR ''/'' rel) segs"
  shows "MatchPath (path_of R @ ''/'' @ rel) (path_of (R @ segs))"
proof -
  let ?pats = "R @ split_byte CHR ''/'' rel"
  have pats: "\<forall>s\<in>set ?pats. pattern_seg s" "?pats \<noteq> []"
    using assms(1-3) plain_pattern_seg good_rel_segs by auto
  have good: "\<forall>s\<in>set (R @ segs). good_seg s" using assms(1,4) by (auto simp: plain_seg_def)
  have "path_covers ?pats (R @ segs)"
    using assms(1,5) by (intro covers_literally) (simp_all add: matchSegments_eq)
  then show ?thesis
    using ValidatePattern_segs [OF pats] resolvedSegments_path_of [OF good refl [THEN disjI1]]
    unfolding MatchPath_iff rel_pattern [OF assms(2)] by simp
qed

lemma valid_under:
  assumes "\<forall>s\<in>set R. plain_seg s" "R \<noteq> []" and "good_rel rel"
  shows "ValidatePattern (path_of R @ ''/'' @ rel) = None"
proof -
  have "\<forall>s\<in>set (R @ split_byte CHR ''/'' rel). pattern_seg s"
    using assms(1,3) plain_pattern_seg good_rel_segs by auto
  then show ?thesis
    unfolding rel_pattern [OF assms(2)] using assms(2) by (intro ValidatePattern_segs(1)) simp_all
qed

section \<open>What the builder builds\<close>

lemma builder_simps [simp]:
  "blWs (builder_add k sel why b) = blWs b" "blHome (builder_add k sel why b) = blHome b"
  "blDenials (builder_add k sel why b) = blDenials b"
  "blGrants (builder_add k sel why b) = add_grant k sel why (blGrants b)"
  "blWs (builder_deny k ps why b) = blWs b" "blHome (builder_deny k ps why b) = blHome b"
  "blDenials (builder_deny k ps why b) = blDenials b @ [new_grant k (paths_sel ps) why]"
  "blGrants (builder_deny k ps why b) = blGrants b"
  by (simp_all add: builder_add_def builder_deny_def)

lemma new_grant_simps [simp]:
  "grantKind (new_grant k sel why) = k" "grantSelector (new_grant k sel why) = sel"
  by (simp_all add: new_grant_def)

lemma builder_base_simps [simp]:
  "blWs (builder_base b) = blWs b" "blHome (builder_base b) = blHome b"
  "blDenials (builder_base b) = blDenials b"
  by (simp_all add: builder_base_def Let_def)

lemma builder_task_simps [simp]:
  "blWs (builder_task an b) = blWs b" "blHome (builder_task an b) = blHome b"
  "blDenials (builder_task an b) = blDenials b"
  by (simp_all add: builder_task_def toolchain_caches_def downloaded_toolchains_def git_keys_def Let_def)

lemma builder_network_simps [simp]:
  "blWs (builder_network an rs b) = blWs b" "blHome (builder_network an rs b) = blHome b"
  "blDenials (builder_network an rs b) = blDenials b"
  by (simp_all add: builder_network_def Let_def)

lemma empty_builder_simps [simp]:
  "blWs (empty_builder p ws) = ws" "blHome (empty_builder p ws) = requester_home p"
  "blGrants (empty_builder p ws) = []" "blDenials (empty_builder p ws) = []"
  by (simp_all add: empty_builder_def)

lemma places_cong:
  assumes "blWs b = blWs b'" "blHome b = blHome b'"
  shows "denied_reads an b = denied_reads an b'" "persistence_points an b = persistence_points an b'"
  using assms by (simp_all add: denied_reads_def persistence_points_def builder_homePaths_def)

definition standing_denials :: "analysis \<Rightarrow> params \<Rightarrow> string \<Rightarrow> grant list" where
  "standing_denials an p ws =
     [new_grant KindFileRead (paths_sel (denied_reads an (empty_builder p ws)))
        ''Credential stores are never part of a coding task.'',
      new_grant KindFileWrite (paths_sel (persistence_points an (empty_builder p ws)))
        ''Hooks, CI workflows and shell startup files are persistence points.'',
      new_grant KindFileCreate (paths_sel (persistence_points an (empty_builder p ws)))
        ''Hooks, CI workflows and shell startup files are persistence points.'']"

lemma built_denials: "blDenials (built an p ws) = standing_denials an p ws"
proof -
  let ?b = "builder_network an (pmResolvers p) (builder_task an (builder_base (empty_builder p ws)))"
  have "denied_reads an ?b = denied_reads an (empty_builder p ws)"
    "persistence_points an ?b = persistence_points an (empty_builder p ws)"
    by (rule places_cong; simp)+
  then show ?thesis by (simp add: built_def builder_denials_def standing_denials_def Let_def)
qed

text \<open>The envelope generation returns when it succeeds.\<close>

definition generated :: "limits \<Rightarrow> nat list \<Rightarrow> time \<Rightarrow> analysis \<Rightarrow> catalog option \<Rightarrow> params \<Rightarrow> envelope" where
  "generated l rnd clock an cat p =
      \<lparr>envSchemaVersion = SchemaVersion, envID = newID rnd, envSessionID = pmSessionID p,
       envCreatedAt = (if pmNow p = 0 then clock else pmNow p),
       envExpiresAt = (if pmNow p = 0 then clock else pmNow p) +
         (if pmTTL p \<le> 0 then 3600000000000 else pmTTL p),
       envIntent = anRecord an,
       Grants = filter (\<lambda>g. \<not> forbidden l (grantKind g) \<and> observed_by cat (grantKind g))
         (blGrants (built an p (clean_path (pmWorkspaceRoot p)))),
       Denials = filter (\<lambda>d. observed_by cat (grantKind d))
         (standing_denials an p (clean_path (pmWorkspaceRoot p))),
       Constraints = zero_constraints\<lparr>WorkspaceRoot := clean_path (pmWorkspaceRoot p),
         MaxDuration := (if pmTTL p \<le> 0 then 3600000000000 else pmTTL p)\<rparr>,
       DefaultAction = ActionRequestApproval, envApproval = None, envSealed = False, envDigest = []\<rparr>"

text \<open>Generation that succeeds, taken apart.\<close>

lemma Generate_Inr:
  assumes "Generate_envelope l rnd clock (Some an) cat p = Inr r"
  shows "is_abs (pmWorkspaceRoot p)" "clean_path (pmWorkspaceRoot p) \<noteq> ''/''"
    "gnEnvelope r = generated l rnd clock an cat p"
proof -
  let ?ws = "clean_path (pmWorkspaceRoot p)"
  have ok: "is_abs ?ws \<and> ?ws \<noteq> ''/''"
  proof (rule ccontr)
    assume "\<not> (is_abs ?ws \<and> ?ws \<noteq> ''/'')"
    then show False using assms by (auto simp: Generate_envelope_def Let_def)
  qed
  then show abs: "is_abs (pmWorkspaceRoot p)" "?ws \<noteq> ''/''" using clean_relative by blast+
  have ne: "pmWorkspaceRoot p \<noteq> []" using abs by (auto simp: is_abs_def)
  obtain dropped where g: "kept_grants l cat p (blGrants (built an p ?ws)) =
      (filter (\<lambda>g. \<not> forbidden l (grantKind g) \<and> observed_by cat (grantKind g)) (blGrants (built an p ?ws)), dropped)"
    by (simp add: kept_grants_def)
  obtain unenforceable where d: "kept_denials cat p (standing_denials an p ?ws) =
      (filter (\<lambda>d. observed_by cat (grantKind d)) (standing_denials an p ?ws), unenforceable)"
    by (simp add: kept_denials_def)
  have "\<exists>w. r = \<lparr>gnEnvelope = generated l rnd clock an cat p, gnWarnings = w\<rparr>"
  proof (cases "lmMaxGrants l > 0 \<and> int (length (filter (\<lambda>g. \<not> forbidden l (grantKind g) \<and>
      observed_by cat (grantKind g)) (blGrants (built an p ?ws)))) > lmMaxGrants l")
    case True
    then show ?thesis using assms ok ne by (simp add: Generate_envelope_def Let_def built_denials g d)
  next
    case False
    then show ?thesis using assms ok ne
      by (simp only: Generate_envelope_def generated_def Let_def built_denials g d option.case prod.case if_False
          not_False_eq_True simp_thms sum.inject) blast
  qed
  then show "gnEnvelope r = generated l rnd clock an cat p"
    by auto
qed

section \<open>Where the denials reach\<close>

text \<open>
  What a pattern of the generator names below a directory: a tree when it ends in \<open>/**\<close>, else one
  file.
\<close>

definition reaches :: "string \<Rightarrow> string \<Rightarrow> string \<Rightarrow> bool" where
  "reaches dir rel target \<longleftrightarrow>
     (if suffix ''/**'' rel then lies_within (dir @ ''/'' @ take (length rel - 3) rel) target
      else target = dir @ ''/'' @ rel)"

definition plain_rel :: "string \<Rightarrow> bool" where
  "plain_rel rel \<longleftrightarrow> list_all plain_seg (split_byte CHR ''/'' rel)"

lemma tree_seg: "pattern_seg ''**''" "path_covers [''**''] segs"
proof -
  show "pattern_seg ''**''" by (simp add: pattern_seg_def validateSegment_def)
  show "path_covers [''**''] segs" using covers_deep [OF covers_end, of segs] by simp
qed

lemma match_tree:
  assumes "\<forall>s\<in>set D. plain_seg s" "D \<noteq> []" and "lies_within (path_of D) target"
  shows "MatchPath (path_of D @ ''/**'') target"
proof -
  have D: "\<forall>s\<in>set D. good_seg s" using assms(1) by (simp add: plain_seg_def)
  obtain P where P: "resolvedSegments target = Some P" "prefix D P"
    using assms(3) resolvedSegments_path_of [OF D refl [THEN disjI1]] by (auto simp: lies_within_def)
  then obtain S where "P = D @ S" by (auto simp: prefix_def)
  then have "path_covers (D @ [''**'']) P"
    using covers_literally [OF assms(1) tree_seg(2)] by simp
  moreover have "path_of D @ ''/**'' = path_of (D @ [''**''])"
    using assms(2) by (simp add: path_of_def)
  moreover have "\<forall>s\<in>set (D @ [''**'']). pattern_seg s" using assms(1) plain_pattern_seg tree_seg(1) by auto
  ultimately show ?thesis
    using ValidatePattern_segs [of "D @ [''**'']"] P(1) unfolding MatchPath_iff by simp
qed

lemma match_file:
  assumes "\<forall>s\<in>set D. plain_seg s" "D \<noteq> []"
  shows "MatchPath (path_of D) (path_of D)"
proof -
  have D: "\<forall>s\<in>set D. good_seg s" using assms(1) by (simp add: plain_seg_def)
  have "path_covers (D @ []) (D @ [])" using assms(1) by (rule covers_literally) (rule covers_end)
  then show ?thesis
    using ValidatePattern_segs [of D] resolvedSegments_path_of [OF D refl [THEN disjI1]] assms plain_pattern_seg
    unfolding MatchPath_iff by simp
qed

lemma reaches_match:
  assumes "plain_dir dir" and "plain_rel (if suffix ''/**'' rel then take (length rel - 3) rel else rel)"
    and "reaches (clean_path dir) rel target"
  shows "MatchPath (clean_path dir @ ''/'' @ rel) target"
proof -
  obtain R where R: "clean_path dir = path_of R" "R \<noteq> []" "\<forall>s\<in>set R. plain_seg s"
    using plain_dir_segs [OF assms(1)] by metis
  show ?thesis
  proof (cases "suffix ''/**'' rel")
    case True
    let ?d = "take (length rel - 3) rel"
    have rel: "rel = ?d @ ''/**''" using True by (auto simp: suffix_def)
    let ?D = "R @ split_byte CHR ''/'' ?d"
    have D: "\<forall>s\<in>set ?D. plain_seg s" "?D \<noteq> []"
      using R(2,3) assms(2) True by (auto simp: plain_rel_def list_all_iff)
    have "path_of R @ ''/'' @ ?d = path_of ?D" using R(2) by (rule rel_pattern)
    then have "lies_within (path_of ?D) target" using assms(3) True R(1) by (simp add: reaches_def)
    from match_tree [OF D this] have "MatchPath (path_of R @ ''/'' @ ?d @ ''/**'') target"
      using rel_pattern [OF R(2), of ?d] by (simp only: append_assoc [symmetric])
    then show ?thesis using rel R(1) by simp
  next
    case False
    let ?D = "R @ split_byte CHR ''/'' rel"
    have D: "\<forall>s\<in>set ?D. plain_seg s" "?D \<noteq> []"
      using R(2,3) assms(2) False by (auto simp: plain_rel_def list_all_iff)
    have "path_of R @ ''/'' @ rel = path_of ?D" using R(2) by (rule rel_pattern)
    then show ?thesis using match_file [OF D] assms(3) False R(1) by (simp add: reaches_def)
  qed
qed

text \<open>The generator's own relative patterns name what they spell.\<close>

lemma own_patterns_plain:
  "\<forall>rel\<in>set (credential_files b @ [''.git/hooks/**'', ''.github/workflows/**'']).
     plain_rel (if suffix ''/**'' rel then take (length rel - 3) rel else rel)"
  by (cases b) (simp_all add: credential_files_def plain_rel_def plain_seg_def good_seg_def suffix_def)

lemma path_denial_covers:
  assumes "k \<in> {KindFileRead, KindFileWrite, KindFileCreate}" and "obsKind obs = k" and "q \<in> set ps"
    and "MatchPath q (obsTarget obs)"
  shows "grant_coverage (NewMatcher ufold) (new_grant k (paths_sel ps) why) obs = Covered"
proof -
  have "DomainOf k = Some DomainFilesystem" using assms(1) by auto
  moreover have "IsResolved (obsTarget obs)" using assms(4) by (auto simp: MatchPath_iff IsResolved_iff)
  ultimately show ?thesis
    using assms(2-4) by (auto simp: grant_coverage_def new_grant_def paths_sel_def path_coverage_def)
qed

lemma home_paths: "builder_homePaths (empty_builder p ws) rels =
    (if requester_home p = [] then [] else map (\<lambda>r. requester_home p @ ''/'' @ r) rels)"
  by (simp add: builder_homePaths_def)

lemma plain_home: "plain_dir (pmHome p) \<Longrightarrow> requester_home p = clean_path (pmHome p)"
proof -
  have "is_abs q \<Longrightarrow> q \<noteq> []" for q by (auto simp: is_abs_def)
  then show "plain_dir (pmHome p) \<Longrightarrow> requester_home p = clean_path (pmHome p)"
    by (auto simp: requester_home_def plain_dir_def)
qed

lemma clean_nonempty: "plain_dir q \<Longrightarrow> clean_path q \<noteq> []"
  by (metis plain_dir_segs path_of_def list.distinct(1) path_of_join)

lemma generated_denials:
  "Denials (generated l rnd clock an cat p) =
     filter (\<lambda>d. observed_by cat (grantKind d)) (standing_denials an p (clean_path (pmWorkspaceRoot p)))"
  by (simp add: generated_def)

lemma denied_under:
  assumes "Generate_envelope l rnd clock (Some an) cat p = Inr r"
    and "observed_by cat (obsKind alt)" "dvMatcher v = NewMatcher ufold"
    and "\<not> past_expiry v (gnEnvelope r) ev" "ObservationOf (Some ev) = Inr obs" "alt \<in> set (exercised ev obs)"
    and "new_grant (obsKind alt) (paths_sel ps) why \<in> set (standing_denials an p (clean_path (pmWorkspaceRoot p)))"
    and "obsKind alt \<in> {KindFileRead, KindFileWrite, KindFileCreate}" "q \<in> set ps" "MatchPath q (obsTarget alt)"
  shows "\<exists>res. Validate v (Some ((gnEnvelope r)\<lparr>Grants := gs\<rparr>)) (Some ev) st = Inr res \<and>
    vrVerdict res = VerdictExplicitlyDenied \<and> vrMatchedGrant res = None"
proof -
  let ?d = "new_grant (obsKind alt) (paths_sel ps) why"
  let ?env = "(gnEnvelope r)\<lparr>Grants := gs\<rparr>"
  have "?d \<in> set (Denials ?env)"
    using assms(2,7) Generate_Inr(3) [OF assms(1)] by (simp add: generated_denials new_grant_def)
  moreover have "grant_coverage (dvMatcher v) ?d alt = Covered"
    unfolding assms(3) using assms(8-10) by (intro path_denial_covers) simp_all
  ultimately have "covers_some (dvMatcher v) (Denials ?env) alt" by (auto simp: covers_some_def)
  moreover have "\<not> past_expiry v ?env ev" using assms(4) by (simp add: past_expiry_def)
  ultimately show ?thesis using denied_verdict [of v ?env ev obs alt st] assms(5,6) by blast
qed

section \<open>The grants and the prompt\<close>

lemma add_grant_other_kinds:
  "filter (\<lambda>g. grantKind g \<noteq> k) (add_grant k sel why gs) = filter (\<lambda>g. grantKind g \<noteq> k) gs"
  by (induction gs) (simp_all add: new_grant_def)

lemma add_grant_this_kind:
  "g \<in> set (add_grant k sel why gs) \<Longrightarrow> g \<in> set gs \<or>
     grantKind g = k \<and> (grantSelector g = sel \<or>
       (\<exists>h\<in>set gs. grantKind h = k \<and> sameDims (grantSelector h) sel \<and>
         grantSelector g = merge_selector (grantSelector h) sel))"
  by (induction gs) (auto simp: new_grant_def split: if_splits)

lemma add_grant_kinds: "grantKind ` set (add_grant k sel why gs) = insert k (grantKind ` set gs)"
  by (induction gs) (auto simp: new_grant_def split: if_splits)

lemma builder_task_cong:
  assumes "inTaskType (anRecord an) = inTaskType (anRecord an')" "anRequiresNetwork an = anRequiresNetwork an'"
  shows "builder_task an b = builder_task an' b"
  unfolding builder_task_def by (simp only: assms)

lemma network_other_kinds:
  "filter (\<lambda>g. grantKind g \<noteq> KindNetConnect) (blGrants (builder_network an rs b)) =
     filter (\<lambda>g. grantKind g \<noteq> KindNetConnect) (blGrants b)"
  by (simp add: builder_network_def Let_def add_grant_other_kinds)

lemma standing_cong:
  assumes "inTaskType (anRecord an) = inTaskType (anRecord an')" "anRequiresNetwork an = anRequiresNetwork an'"
  shows "standing_denials an p ws = standing_denials an' p ws"
  unfolding standing_denials_def denied_reads_def persistence_points_def by (simp only: assms)

lemma built_grants:
  "blGrants (built an p ws) =
     blGrants (builder_network an (pmResolvers p) (builder_task an (builder_base (empty_builder p ws))))"
  by (simp add: built_def builder_denials_def Let_def)

lemma no_network_before:
  "KindNetConnect \<notin> grantKind ` set (blGrants (builder_task an (builder_base (empty_builder p ws))))"
proof -
  have "KindNetConnect \<notin> grantKind ` set (blGrants (builder_base (empty_builder p ws)))"
    by (simp add: builder_base_def Let_def add_grant_kinds del: add_grant.simps)
  then show ?thesis
    by (simp add: builder_task_def downloaded_toolchains_def toolchain_caches_def git_keys_def Let_def
        add_grant_kinds)
qed

text \<open>Generation succeeds for a usable workspace when no maximum is configured.\<close>

lemma Generate_total:
  assumes "is_abs (pmWorkspaceRoot p)" "is_abs (clean_path (pmWorkspaceRoot p))"
    "clean_path (pmWorkspaceRoot p) \<noteq> ''/''" "lmMaxGrants l \<le> 0"
  shows "\<exists>w. Generate_envelope l rnd clock (Some an) cat p =
    Inr \<lparr>gnEnvelope = generated l rnd clock an cat p, gnWarnings = w\<rparr>"
proof -
  let ?ws = "clean_path (pmWorkspaceRoot p)"
  have ne: "pmWorkspaceRoot p \<noteq> []" using assms(1) by (auto simp: is_abs_def)
  obtain dropped where g: "kept_grants l cat p (blGrants (built an p ?ws)) =
      (filter (\<lambda>g. \<not> forbidden l (grantKind g) \<and> observed_by cat (grantKind g)) (blGrants (built an p ?ws)), dropped)"
    by (simp add: kept_grants_def)
  obtain unenforceable where d: "kept_denials cat p (standing_denials an p ?ws) =
      (filter (\<lambda>d. observed_by cat (grantKind d)) (standing_denials an p ?ws), unenforceable)"
    by (simp add: kept_denials_def)
  show ?thesis
    using assms ne not_less [of 0 "lmMaxGrants l"]
    by (simp only: Generate_envelope_def generated_def Let_def built_denials g d option.case prod.case if_False
        not_False_eq_True simp_thms) blast
qed

section \<open>Properties\<close>

definition no_limits :: limits where
  "no_limits = \<lparr>lmMaxGrants = 0, lmForbiddenKinds = [], lmRequireApprovalKinds = [], lmMaxSeverity = SeverityCritical,
     lmAllowUnboundedSelectors = False, lmMinConfidence = Finite 0\<rparr>"

definition project :: params where
  "project = \<lparr>pmSessionID = ''s-1'', pmWorkspaceRoot = ''/home/ada/app'', pmHome = ''/home/ada'',
     pmResolvers = [''10.0.0.53''], pmTTL = 0, pmNow = 100, pmUnobservable = []\<rparr>"

definition some_analysis :: analysis where
  "some_analysis = \<lparr>anRecord = zero_intent\<lparr>inTaskType := TaskTypeBuild\<rparr>, anActions = [],
     anScope = \<lparr>scPathHints = [], scNetworkHints = [''proxy.golang.org''], scToolHints = [], scWorkspaceOnly = False\<rparr>,
     anRequiresNetwork = True, anDestructive = False\<rparr>"

definition file_event :: "kind \<Rightarrow> string \<Rightarrow> event" where
  "file_event k target = (observed_event k)\<lparr>evObservation := \<lparr>obsKind = k, obsDomain = DomainFilesystem,
     obsTarget = target, obsAttributes = Map.empty\<rparr>\<rparr>"

lemma file_event_simps [simp]:
  "k \<in> {KindFileRead, KindFileWrite} \<Longrightarrow>
     ObservationOf (Some (file_event k target)) = Inr (evObservation (file_event k target))"
  "obsKind (evObservation (file_event k target)) = k" "obsTarget (evObservation (file_event k target)) = target"
  "exercised (file_event k target) obs = [obs]" "WallClock (file_event k target) = 0"
  by (auto simp: ObservationOf_def file_event_def observed_event_def exercised_def exercisedObservations_def
      zero_event_def)

lemma lies_within_segs:
  "\<forall>s\<in>set (R @ S). good_seg s \<Longrightarrow> lies_within (path_of R) (path_of (R @ S))"
  using resolvedSegments_path_of [of R] resolvedSegments_path_of [of "R @ S"] by (auto simp: lies_within_def)

lemma project_dirs: "plain_dir (pmWorkspaceRoot project)" "plain_dir (pmHome project)"
  "clean_path (pmWorkspaceRoot project) = ''/home/ada/app''" "clean_path (pmHome project) = ''/home/ada''"
  by (simp_all add: project_def plain_dir_def is_abs_def clean_path_def clean_step_def)

lemma project_live:
  "\<not> past_expiry \<lparr>dvMatcher = m, dvNow = 100\<rparr> (generated l rnd clock an cat project) (file_event k target)"
  by (simp add: past_expiry_def generated_def) (simp add: project_def)

text \<open>C26: credential stores stay denied. Whatever the prompt was read to mean, and whatever grants take the place of
  the generated ones: under a generated envelope that has not expired, a read below a credential store of
  the requester's home, under any capability the event exercised, is an explicit denial. The home is to be
  a plain directory (absolute, and without a wildcard in its name), and reads are to be observable by this
  build, as an entry of an unobservable kind is left out of the envelope. The keys of \<open>.ssh\<close> are among the
  stores unless the task is a git operation over the network, whose push needs them.\<close>

theorem credential_stores_stay_denied:
  assumes "Generate_envelope l rnd clock (Some an) cat p = Inr r" and "plain_dir (pmHome p)"
    and "observed_by cat KindFileRead" and "dvMatcher v = NewMatcher ufold"
    and "\<not> past_expiry v (gnEnvelope r) ev" and "ObservationOf (Some ev) = Inr obs"
    and "alt \<in> set (exercised ev obs)" and "obsKind alt = KindFileRead"
    and "rel \<in> set (credential_files
       (inTaskType (anRecord an) = TaskTypeGitOperation \<and> anRequiresNetwork an))"
    and "reaches (clean_path (pmHome p)) rel (obsTarget alt)"
  shows "\<exists>res. Validate v (Some ((gnEnvelope r)\<lparr>Grants := gs\<rparr>)) (Some ev) st = Inr res \<and>
    vrVerdict res = VerdictExplicitlyDenied \<and> vrMatchedGrant res = None"
proof -
  let ?ws = "clean_path (pmWorkspaceRoot p)"
  have "MatchPath (clean_path (pmHome p) @ ''/'' @ rel) (obsTarget alt)"
    using reaches_match [OF assms(2) _ assms(10)] own_patterns_plain assms(9) by fastforce
  moreover have "clean_path (pmHome p) @ ''/'' @ rel \<in> set (denied_reads an (empty_builder p ?ws))"
    using assms(9) clean_nonempty [OF assms(2)] plain_home [OF assms(2)]
    by (simp add: denied_reads_def home_paths)
  ultimately show ?thesis
    using assms(3,8) by (intro denied_under [OF assms(1) _ assms(4-7)]) (auto simp: standing_denials_def)
qed

theorem credential_stores_stay_denied_witness:
  "\<exists>r res. Generate_envelope no_limits [] 100 (Some some_analysis) None project = Inr r \<and>
     Validate \<lparr>dvMatcher = NewMatcher (=), dvNow = 100\<rparr>
       (Some ((gnEnvelope r)\<lparr>Grants := [plain_grant KindFileRead]\<rparr>))
       (Some (file_event KindFileRead ''/home/ada/.ssh/id_ed25519'')) None = Inr res \<and>
     vrVerdict res = VerdictExplicitlyDenied"
proof -
  obtain w where g: "Generate_envelope no_limits [] 100 (Some some_analysis) None project =
      Inr \<lparr>gnEnvelope = generated no_limits [] 100 some_analysis None project, gnWarnings = w\<rparr>"
    using Generate_total [of project no_limits "[]" 100 some_analysis None] project_dirs
    by (auto simp: plain_dir_def is_abs_def no_limits_def)
  have within: "reaches ''/home/ada'' ''.ssh/**'' ''/home/ada/.ssh/id_ed25519''"
    using lies_within_segs [of "[''home'', ''ada'', ''.ssh'']" "[''id_ed25519'']"]
    by (simp add: reaches_def suffix_def path_of_def good_seg_def)
  have store: "''.ssh/**'' \<in> set (credential_files
      (inTaskType (anRecord some_analysis) = TaskTypeGitOperation \<and> anRequiresNetwork some_analysis))"
    by (simp add: some_analysis_def task_types credential_files_def)
  have obs: "ObservationOf (Some (file_event KindFileRead ''/home/ada/.ssh/id_ed25519'')) =
      Inr (evObservation (file_event KindFileRead ''/home/ada/.ssh/id_ed25519''))" by simp
  have "\<exists>res. Validate \<lparr>dvMatcher = NewMatcher (=), dvNow = 100\<rparr>
       (Some ((generated no_limits [] 100 some_analysis None project)\<lparr>Grants := [plain_grant KindFileRead]\<rparr>))
       (Some (file_event KindFileRead ''/home/ada/.ssh/id_ed25519'')) None = Inr res \<and>
     vrVerdict res = VerdictExplicitlyDenied \<and> vrMatchedGrant res = None"
    using credential_stores_stay_denied [OF g project_dirs(2) _ _ _ obs _ _ store,
        of "\<lparr>dvMatcher = NewMatcher (=), dvNow = 100\<rparr>" "(=)"
        "evObservation (file_event KindFileRead ''/home/ada/.ssh/id_ed25519'')"] within
    by (simp add: observed_by_def project_live project_dirs)
  then show ?thesis using g by auto
qed

text \<open>C27: hooks stay closed. In an envelope generated for a plain workspace directory, whatever the prompt and
  the grants, a write or a creation at or below the workspace's \<open>.git/hooks\<close> is an explicit denial;
  so is one below its workflow directory unless the task is a git operation.\<close>

theorem hooks_stay_closed:
  assumes "Generate_envelope l rnd clock (Some an) cat p = Inr r" and "plain_dir (pmWorkspaceRoot p)"
    and "observed_by cat (obsKind alt)" and "dvMatcher v = NewMatcher ufold"
    and "\<not> past_expiry v (gnEnvelope r) ev" and "ObservationOf (Some ev) = Inr obs"
    and "alt \<in> set (exercised ev obs)" and "obsKind alt \<in> {KindFileWrite, KindFileCreate}"
    and "lies_within (clean_path (pmWorkspaceRoot p) @ ''/.git/hooks'') (obsTarget alt) \<or>
      inTaskType (anRecord an) \<noteq> TaskTypeGitOperation \<and>
      lies_within (clean_path (pmWorkspaceRoot p) @ ''/.github/workflows'') (obsTarget alt)"
  shows "\<exists>res. Validate v (Some ((gnEnvelope r)\<lparr>Grants := gs\<rparr>)) (Some ev) st = Inr res \<and>
    vrVerdict res = VerdictExplicitlyDenied \<and> vrMatchedGrant res = None"
proof -
  let ?ws = "clean_path (pmWorkspaceRoot p)"
  obtain rel where rel: "rel \<in> {''.git/hooks/**'', ''.github/workflows/**''}" "reaches ?ws rel (obsTarget alt)"
    "?ws @ ''/'' @ rel \<in> set (persistence_points an (empty_builder p ?ws))"
    using assms(9)
  proof
    assume "lies_within (?ws @ ''/.git/hooks'') (obsTarget alt)"
    then show thesis by (intro that [of "''.git/hooks/**''"])
        (simp_all add: reaches_def suffix_def persistence_points_def)
  next
    assume "inTaskType (anRecord an) \<noteq> TaskTypeGitOperation \<and>
      lies_within (?ws @ ''/.github/workflows'') (obsTarget alt)"
    then show thesis by (intro that [of "''.github/workflows/**''"])
        (simp_all add: reaches_def suffix_def persistence_points_def)
  qed
  have "MatchPath (?ws @ ''/'' @ rel) (obsTarget alt)"
    using reaches_match [OF assms(2) _ rel(2)] own_patterns_plain rel(1) by fastforce
  then show ?thesis
    using assms(8) rel(3) by (intro denied_under [OF assms(1,3-7)]) (auto simp: standing_denials_def)
qed

theorem hooks_stay_closed_witness:
  "\<exists>r res. Generate_envelope no_limits [] 100 (Some some_analysis) None project = Inr r \<and>
     Validate \<lparr>dvMatcher = NewMatcher (=), dvNow = 100\<rparr>
       (Some ((gnEnvelope r)\<lparr>Grants := [plain_grant KindFileWrite]\<rparr>))
       (Some (file_event KindFileWrite ''/home/ada/app/.git/hooks/pre-commit'')) None = Inr res \<and>
     vrVerdict res = VerdictExplicitlyDenied"
proof -
  obtain w where g: "Generate_envelope no_limits [] 100 (Some some_analysis) None project =
      Inr \<lparr>gnEnvelope = generated no_limits [] 100 some_analysis None project, gnWarnings = w\<rparr>"
    using Generate_total [of project no_limits "[]" 100 some_analysis None] project_dirs
    by (auto simp: plain_dir_def is_abs_def no_limits_def)
  have within: "lies_within ''/home/ada/app/.git/hooks'' ''/home/ada/app/.git/hooks/pre-commit''"
    using lies_within_segs [of "[''home'', ''ada'', ''app'', ''.git'', ''hooks'']" "[''pre-commit'']"]
    by (simp add: path_of_def good_seg_def)
  have obs: "ObservationOf (Some (file_event KindFileWrite ''/home/ada/app/.git/hooks/pre-commit'')) =
      Inr (evObservation (file_event KindFileWrite ''/home/ada/app/.git/hooks/pre-commit''))" by simp
  have "\<exists>res. Validate \<lparr>dvMatcher = NewMatcher (=), dvNow = 100\<rparr>
       (Some ((generated no_limits [] 100 some_analysis None project)\<lparr>Grants := [plain_grant KindFileWrite]\<rparr>))
       (Some (file_event KindFileWrite ''/home/ada/app/.git/hooks/pre-commit'')) None = Inr res \<and>
     vrVerdict res = VerdictExplicitlyDenied \<and> vrMatchedGrant res = None"
    using hooks_stay_closed [OF g project_dirs(1) _ _ _ obs,
        of "evObservation (file_event KindFileWrite ''/home/ada/app/.git/hooks/pre-commit'')"
        "\<lparr>dvMatcher = NewMatcher (=), dvNow = 100\<rparr>" "(=)"] within
    by (simp add: observed_by_def project_live project_dirs)
  then show ?thesis using g by auto
qed

text \<open>C29: a prompt chooses a task, not its rights. Two prompts read as the same task type, with the same need for the
  network, are given the same denials and, the network apart, the same grants: what a prompt names,
  mentions or asks for beside that is not granted.\<close>

theorem prompts_of_one_task_get_the_same_files:
  assumes "Generate_envelope l rnd clock (Some an) cat p = Inr r"
    and "Generate_envelope l rnd' clock' (Some an') cat p = Inr r'"
    and "inTaskType (anRecord an) = inTaskType (anRecord an')"
    and "anRequiresNetwork an = anRequiresNetwork an'"
  shows "Denials (gnEnvelope r) = Denials (gnEnvelope r') \<and>
    filter (\<lambda>g. grantKind g \<noteq> KindNetConnect) (Grants (gnEnvelope r)) =
      filter (\<lambda>g. grantKind g \<noteq> KindNetConnect) (Grants (gnEnvelope r'))"
proof -
  let ?ws = "clean_path (pmWorkspaceRoot p)"
  let ?files = "filter (\<lambda>g. grantKind g \<noteq> KindNetConnect)"
  have "?files (blGrants (built an p ?ws)) = ?files (blGrants (built an' p ?ws))"
    unfolding built_grants network_other_kinds builder_task_cong [OF assms(3,4)] ..
  then have "filter keep (?files (blGrants (built an p ?ws))) = filter keep (?files (blGrants (built an' p ?ws)))"
    for keep by simp
  then have "?files (filter keep (blGrants (built an p ?ws))) = ?files (filter keep (blGrants (built an' p ?ws)))"
    for keep by (simp only: filter_filter conj_commute)
  from this [of "\<lambda>g. \<not> forbidden l (grantKind g) \<and> observed_by cat (grantKind g)"] show ?thesis
    unfolding Generate_Inr(3) [OF assms(1)] Generate_Inr(3) [OF assms(2)]
    by (simp add: generated_def standing_cong [OF assms(3,4)])
qed

theorem prompts_of_one_task_get_the_same_files_witness:
  "\<exists>r r'. Generate_envelope no_limits [] 100 (Some some_analysis) None project = Inr r \<and>
     Generate_envelope no_limits [7] 100
       (Some (some_analysis\<lparr>anDestructive := True, anScope := (anScope some_analysis)\<lparr>scPathHints := [''/etc'']\<rparr>\<rparr>))
       None project = Inr r' \<and>
     Denials (gnEnvelope r) = Denials (gnEnvelope r')"
proof -
  let ?an = "some_analysis\<lparr>anDestructive := True, anScope := (anScope some_analysis)\<lparr>scPathHints := [''/etc'']\<rparr>\<rparr>"
  have "is_abs (pmWorkspaceRoot project)" "is_abs (clean_path (pmWorkspaceRoot project))"
    "clean_path (pmWorkspaceRoot project) \<noteq> ''/''" "lmMaxGrants no_limits \<le> 0"
    using project_dirs by (auto simp: plain_dir_def is_abs_def no_limits_def)
  note total = Generate_total [OF this]
  obtain r where r: "Generate_envelope no_limits [] 100 (Some some_analysis) None project = Inr r"
    using total [of "[]" 100 some_analysis None] by blast
  obtain r' where r': "Generate_envelope no_limits [7] 100 (Some ?an) None project = Inr r'"
    using total [of "[7]" 100 ?an None] by blast
  show ?thesis using prompts_of_one_task_get_the_same_files [OF r r'] r r' by simp
qed

section \<open>The network\<close>

lemma add_grant_new_dims:
  assumes "g \<in> set (add_grant k sel why gs)" "\<forall>h\<in>set gs. grantKind h \<noteq> k" "grantKind g = k"
  shows "grantSelector g = sel"
  using assms add_grant_this_kind [OF assms(1)] by auto

lemma first_seen_subset: "set (first_seen seen xs) = set xs - seen"
  by (simp add: set_first_seen)

text \<open>C30: a prompt reaches only hosts it names. Every network grant of a generated envelope names hosts, and each is a configured
  resolver or one the analysis named or implied; without a need for the network there is none. (An
  empty name would leave the selector without hosts, which matches any: neither list has one.)\<close>

theorem network_grants_name_their_hosts:
  assumes "Generate_envelope l rnd clock (Some an) cat p = Inr r"
    and "g \<in> set (Grants (gnEnvelope r))" and "grantKind g = KindNetConnect"
    and "[] \<notin> set (pmResolvers p)" and "[] \<notin> set (scNetworkHints (anScope an))"
  shows "anRequiresNetwork an \<and> Hosts (grantSelector g) \<noteq> [] \<and>
    set (Hosts (grantSelector g)) \<subseteq> set (pmResolvers p) \<union> set (implied_hosts (scNetworkHints (anScope an))) \<and>
    (Ports (grantSelector g) = [53] \<and> set (Hosts (grantSelector g)) = set (pmResolvers p) \<or>
     Ports (grantSelector g) = [] \<and>
       set (Hosts (grantSelector g)) = set (implied_hosts (scNetworkHints (anScope an))))"
proof -
  let ?ws = "clean_path (pmWorkspaceRoot p)"
  let ?b = "builder_task an (builder_base (empty_builder p ?ws))"
  let ?hosts = "implied_hosts (scNetworkHints (anScope an))"
  have none: "\<forall>h\<in>set (blGrants ?b). grantKind h \<noteq> KindNetConnect"
    using no_network_before [of an p ?ws] by (metis imageI)
  have hosts: "[] \<notin> set ?hosts"
    using assms(5) by (auto simp: implied_hosts_def registryHosts_def split: option.splits if_splits)
  let ?rs = "empty_selector\<lparr>Hosts := dedupe_values (pmResolvers p), Ports := [53]\<rparr>"
  let ?hs = "empty_selector\<lparr>Hosts := dedupe_values ?hosts\<rparr>"
  have g: "g \<in> set (blGrants (builder_network an (pmResolvers p) ?b))"
    using assms(2) unfolding Generate_Inr(3) [OF assms(1)] by (simp add: generated_def built_grants)
  have need: "anRequiresNetwork an"
    using g none assms(3) by (auto simp: builder_network_def split: if_splits)
  let ?b' = "if pmResolvers p \<noteq> []
      then builder_add KindNetConnect ?rs ''Name resolution through the configured resolvers.'' ?b else ?b"
  have resolvers: "grantSelector h = ?rs \<and> pmResolvers p \<noteq> []"
    if "h \<in> set (blGrants ?b')" "grantKind h = KindNetConnect" for h
    using that none by (auto split: if_splits dest: add_grant_new_dims)
  have differ: "\<not> sameDims ?rs ?hs" by (simp add: sameDims_def)
  have "grantSelector g = ?rs \<and> pmResolvers p \<noteq> [] \<or> grantSelector g = ?hs \<and> ?hosts \<noteq> []"
  proof (cases "?hosts = []")
    case True
    then have "g \<in> set (blGrants ?b')" using g need by (simp add: builder_network_def Let_def)
    then show ?thesis using resolvers assms(3) by blast
  next
    case False
    then have "g \<in> set (add_grant KindNetConnect ?hs ''Hosts the task names or implies.'' (blGrants ?b'))"
      using g need by (simp add: builder_network_def Let_def)
    from add_grant_this_kind [OF this] show ?thesis using resolvers differ assms(3) False by metis
  qed
  moreover have "set (dedupe_values (pmResolvers p)) = set (pmResolvers p)"
    "set (dedupe_values ?hosts) = set ?hosts"
    using assms(4) hosts by (auto simp: dedupe_values_def set_first_seen)
  ultimately show ?thesis using need by (auto simp: empty_selector_def)
qed

theorem network_grants_name_their_hosts_witness:
  "\<exists>r g. Generate_envelope no_limits [] 100 (Some some_analysis) None project = Inr r \<and>
     g \<in> set (Grants (gnEnvelope r)) \<and> grantKind g = KindNetConnect \<and> Hosts (grantSelector g) \<noteq> []"
proof -
  obtain w where r: "Generate_envelope no_limits [] 100 (Some some_analysis) None project =
      Inr \<lparr>gnEnvelope = generated no_limits [] 100 some_analysis None project, gnWarnings = w\<rparr>"
    using Generate_total [of project no_limits "[]" 100 some_analysis None] project_dirs
    by (auto simp: plain_dir_def is_abs_def no_limits_def)
  have "KindNetConnect \<in> grantKind ` set (blGrants (built some_analysis project (clean_path (pmWorkspaceRoot project))))"
    unfolding built_grants
    by (simp add: builder_network_def Let_def add_grant_kinds some_analysis_def implied_hosts_def registryHosts_def)
  then obtain g where g: "g \<in> set (Grants (generated no_limits [] 100 some_analysis None project))"
    "grantKind g = KindNetConnect"
    by (auto simp: generated_def forbidden_def no_limits_def observed_by_def)
  have "Hosts (grantSelector g) \<noteq> []"
    using network_grants_name_their_hosts [OF r _ g(2)] g(1) by (simp add: project_def some_analysis_def)
  then show ?thesis using r g by auto
qed

section \<open>Admission and its limit\<close>

lemma good_paths:
  "good_rel rel \<Longrightarrow> plain_dir dir \<Longrightarrow> ValidatePattern (clean_path dir @ ''/'' @ rel) = None"
  by (metis plain_dir_segs valid_under)

lemma static_denials_valid:
  "list_all (\<lambda>q. ValidatePattern q = None) [''/etc/shadow'', ''/etc/gshadow'', ''/etc/sudoers'', ''/etc/sudoers.d/**'', ''/root/**'']"
  by (simp add: ValidatePattern_def validateSegment_def segments_def normalize_id sublist_def suffix_def
      scan_no_class Cons_eq_append_conv)

lemma home_patterns_good:
  "list_all good_rel (credential_files b @ [''.ssh/**'', ''.bashrc'', ''.profile'', ''.bash_profile'', ''.zshrc'',
     ''.config/autostart/**'', ''.git/hooks/**'', ''.github/workflows/**''])"
  by (cases b) (simp_all add: credential_files_def good_rel_def validateSegment_def scan_no_class sublist_def
      Cons_eq_append_conv)

lemma home_paths_valid:
  assumes "requester_home p = [] \<or> plain_dir (pmHome p)" "list_all good_rel rels"
    "q \<in> set (builder_homePaths (empty_builder p ws) rels)"
  shows "ValidatePattern q = None"
proof -
  obtain rel where rel: "rel \<in> set rels" "q = requester_home p @ ''/'' @ rel" "requester_home p \<noteq> []"
    using assms(3) by (auto simp: home_paths split: if_splits)
  then have "plain_dir (pmHome p)" using assms(1) by simp
  then show ?thesis using good_paths [of rel "pmHome p"] rel assms(2) by (simp add: plain_home list_all_iff)
qed

lemma built_kinds: "grantKind ` set (blGrants (built an p ws)) \<subseteq> set AllKinds"
proof -
  have known: "{KindFileRead, KindFileWrite, KindFileCreate, KindFileLink, KindProcessExec, KindProcessExit,
      KindNetConnect} \<subseteq> set AllKinds" by (simp add: AllKinds_list)
  have base: "grantKind ` set (blGrants (builder_base (empty_builder p ws))) \<subseteq> {KindFileRead, KindFileWrite,
      KindFileCreate, KindFileLink, KindProcessExec, KindProcessExit, KindNetConnect}"
    by (simp add: builder_base_def Let_def add_grant_kinds del: add_grant.simps)
  have "grantKind ` set (blGrants (builder_task an (builder_base (empty_builder p ws)))) \<subseteq> {KindFileRead,
      KindFileWrite, KindFileCreate, KindFileLink, KindProcessExec, KindProcessExit, KindNetConnect}"
    using base by (simp add: builder_task_def downloaded_toolchains_def toolchain_caches_def git_keys_def Let_def
        add_grant_kinds)
  then have "grantKind ` set (blGrants (built an p ws)) \<subseteq> {KindFileRead, KindFileWrite, KindFileCreate,
      KindFileLink, KindProcessExec, KindProcessExit, KindNetConnect}"
    by (simp add: built_grants builder_network_def Let_def add_grant_kinds)
  with known show ?thesis by blast
qed

text \<open>What is generated is admitted. For a plain workspace directory and a plain home, or none, the envelope passes the
  admission lint without a blocking finding, whatever the prompt, the limits and the catalog.\<close>

theorem generated_envelopes_are_admitted:
  assumes "Generate_envelope l rnd clock (Some an) cat p = Inr r" and "plain_dir (pmWorkspaceRoot p)"
    and "requester_home p = [] \<or> plain_dir (pmHome p)"
  shows "BlockingIssues (LintEnvelope (gnEnvelope r)) = []"
proof -
  let ?ws = "clean_path (pmWorkspaceRoot p)"
  have git: "b = (inTaskType (anRecord an) = TaskTypeGitOperation \<and> anRequiresNetwork an) \<Longrightarrow>
      list_all good_rel (credential_files b)" for b using home_patterns_good [of b] by simp
  have "ValidatePattern q = None" if "q \<in> set (denied_reads an (empty_builder p ?ws))" for q
    using that home_paths_valid [OF assms(3) git [OF refl]] static_denials_valid
    by (auto simp: denied_reads_def split: if_splits)
  moreover have "ValidatePattern q = None" if "q \<in> set (persistence_points an (empty_builder p ?ws))" for q
  proof -
    have "list_all good_rel [''.ssh/**'', ''.bashrc'', ''.profile'', ''.bash_profile'', ''.zshrc'', ''.config/autostart/**'']"
      using home_patterns_good [of True] by simp
    from that home_paths_valid [OF assms(3) this] good_paths [OF _ assms(2)] home_patterns_good [of True]
    show ?thesis by (auto simp: persistence_points_def split: if_splits)
  qed
  ultimately have "list_all readable_denial (standing_denials an p ?ws)"
    by (simp add: standing_denials_def readable_denial_def paths_sel_def)
  then have "list_all readable_denial (Denials (gnEnvelope r))"
    unfolding Generate_Inr(3) [OF assms(1)] by (simp add: generated_def list_all_iff)
  moreover have "list_all (\<lambda>g. grantKind g \<in> set AllKinds) (Denials (gnEnvelope r))"
    unfolding Generate_Inr(3) [OF assms(1)] by (simp add: generated_def standing_denials_def AllKinds_list)
  moreover have "grantKind ` set (blGrants (built an p ?ws)) \<subseteq> set AllKinds"
    by (rule built_kinds)
  then have "list_all (\<lambda>g. grantKind g \<in> set AllKinds) (Grants (gnEnvelope r))"
    unfolding Generate_Inr(3) [OF assms(1)] by (auto simp: generated_def list_all_iff)
  ultimately show ?thesis unfolding admission_iff by simp
qed

theorem generated_envelopes_are_admitted_witness:
  "\<exists>r. Generate_envelope no_limits [] 100 (Some some_analysis) None project = Inr r \<and>
     BlockingIssues (LintEnvelope (gnEnvelope r)) = []"
proof -
  obtain w where r: "Generate_envelope no_limits [] 100 (Some some_analysis) None project =
      Inr \<lparr>gnEnvelope = generated no_limits [] 100 some_analysis None project, gnWarnings = w\<rparr>"
    using Generate_total [of project no_limits "[]" 100 some_analysis None] project_dirs
    by (auto simp: plain_dir_def is_abs_def no_limits_def)
  from generated_envelopes_are_admitted [OF this project_dirs(1)] project_dirs(2) r show ?thesis by blast
qed

end
