(* ===== verification/SealLaws.thy ===== *)
theory SealLaws
  imports GenerateLaws
begin

text \<open>
  What the seal binds, and the one place where generation promises less than it means to: a workspace
  whose name a pattern does not read as itself.
\<close>

section \<open>The seal\<close>

lemma hex_digit_inj: "i < 16 \<Longrightarrow> j < 16 \<Longrightarrow> hex_digit i = hex_digit j \<longleftrightarrow> i = j"
proof -
  have "inj_on (\<lambda>i. ''0123456789abcdef'' ! i) {..<16}"
    by (rule inj_on_nth) auto
  then show "i < 16 \<Longrightarrow> j < 16 \<Longrightarrow> hex_digit i = hex_digit j \<longleftrightarrow> i = j"
    by (auto simp: hex_digit_def dest: inj_onD)
qed

lemma hex_encode_inj:
  "list_all (\<lambda>b. b < 256) bs \<Longrightarrow> list_all (\<lambda>b. b < 256) cs \<Longrightarrow> hex_encode bs = hex_encode cs \<Longrightarrow> bs = cs"
proof (induction bs arbitrary: cs)
  case Nil
  then show ?case by (cases cs) (simp_all add: hex_encode_def)
next
  case (Cons b bs)
  from Cons.prems obtain c cs' where cs: "cs = c # cs'" by (cases cs) (simp_all add: hex_encode_def)
  have mods: "hex_digit n = hex_digit (n mod 16)" for n by (simp add: hex_digit_def)
  have "hex_digit (b div 16) = hex_digit (c div 16)" "hex_digit b = hex_digit c" "hex_encode bs = hex_encode cs'"
    using Cons.prems(3) unfolding cs by (simp_all add: hex_encode_def)
  moreover have "b div 16 < 16" "c div 16 < 16" using Cons.prems(1,2) cs by auto
  ultimately have "b div 16 = c div 16" "b mod 16 = c mod 16"
    using hex_digit_inj [of "b div 16" "c div 16"] hex_digit_inj [of "b mod 16" "c mod 16"] mods [of b] mods [of c]
    by auto
  then have "b = c" by (metis div_mult_mod_eq)
  then show ?case using Cons.IH [of cs'] Cons.prems cs \<open>hex_encode bs = hex_encode cs'\<close> by simp
qed

definition content :: "envelope \<Rightarrow> envelope" where
  "content env = env\<lparr>envDigest := [], envApproval := None\<rparr>"

text \<open>What sealing returns verifies, and still does when an approval is attached. Whatever else verifies under
  the same digest is encoded as the sealed content is, or the two encodings are different byte strings
  with one SHA-256. A seal binds no more than the encoding: \<open>encoding/json\<close> writes the replacement
  character for every invalid byte of a string, so envelopes that differ in such bytes only share a seal.\<close>

lemma a_seal_binds_its_encoding:
  assumes "Seal_envelope json sha (Some env) = (None, Some s)"
    and "\<forall>b. list_all (\<lambda>n. n < 256) (sha b)"
  shows "Verify_envelope json sha (Some (s\<lparr>envApproval := a\<rparr>)) = None \<and> content s = content (env\<lparr>envSealed := True\<rparr>) \<and>
    (\<forall>x. Verify_envelope json sha (Some (x\<lparr>envDigest := envDigest s\<rparr>)) \<noteq> None \<or>
      json (content x) = json (content s) \<or>
      (\<exists>b c. json (content x) = Inr b \<and> json (content s) = Inr c \<and> b \<noteq> c \<and> sha b = sha c))"
proof -
  obtain d where d: "Digest json sha (env\<lparr>envSealed := True\<rparr>) = Inr d"
    and s: "s = env\<lparr>envSealed := True, envDigest := d\<rparr>"
    using assms(1) by (auto simp: Seal_envelope_def split: if_splits sum.splits)
  obtain c where c: "json (content s) = Inr c" "d = ''sha256:'' @ hex_encode (sha c)"
    using d unfolding s by (auto simp: Digest_def content_def split: sum.splits)
  have same: "Digest json sha (s\<lparr>envApproval := a\<rparr>) = Inr d"
    using c by (simp add: Digest_def content_def)
  have "Verify_envelope json sha (Some (s\<lparr>envApproval := a\<rparr>)) = None"
    using same c(2) by (simp add: Verify_envelope_def s)
  moreover have "content s = content (env\<lparr>envSealed := True\<rparr>)" by (simp add: s content_def)
  moreover have "json (content x) = json (content s) \<or>
      (\<exists>b c. json (content x) = Inr b \<and> json (content s) = Inr c \<and> b \<noteq> c \<and> sha b = sha c)"
    if "Verify_envelope json sha (Some (x\<lparr>envDigest := envDigest s\<rparr>)) = None" for x
  proof -
    from that have "Digest json sha (x\<lparr>envDigest := d\<rparr>) = Inr d"
      by (auto simp: Verify_envelope_def s split: if_splits sum.splits)
    then obtain b where b: "json (content x) = Inr b" "''sha256:'' @ hex_encode (sha b) = d"
      by (auto simp: Digest_def content_def split: sum.splits)
    then have "hex_encode (sha b) = hex_encode (sha c)" using c(2) by simp
    then have "sha b = sha c" using hex_encode_inj assms(2) by blast
    then show ?thesis using b(1) c(1) by auto
  qed
  ultimately show ?thesis by blast
qed

section \<open>A workspace a pattern does not read as itself\<close>

text \<open>The requester's home is unknown, the workspace is \<open>/tmp/p[1]\<close>.\<close>

definition bracketed :: params where
  "bracketed = project\<lparr>pmWorkspaceRoot := ''/tmp/p[1]'', pmHome := []\<rparr>"

definition hook_write :: event where
  "hook_write = file_event KindFileWrite ''/tmp/p[1]/.git/hooks/pre-commit''"

lemma bracketed_simps:
  "clean_path (pmWorkspaceRoot bracketed) = ''/tmp/p[1]''" "requester_home bracketed = []"
  "is_abs (pmWorkspaceRoot bracketed)"
  by (simp_all add: bracketed_def requester_home_def clean_path_def clean_step_def is_abs_def)

lemma hooks_pattern_misses:
  "\<not> MatchPath ''/tmp/p[1]/.git/hooks/**'' ''/tmp/p[1]/.git/hooks/pre-commit''"
  "\<not> MatchPath ''/tmp/p[1]/.github/workflows/**'' ''/tmp/p[1]/.git/hooks/pre-commit''"
  by code_simp+

lemma tmp_pattern_reaches: "MatchPath ''/tmp/**'' ''/tmp/p[1]/.git/hooks/pre-commit''"
  by code_simp

lemma keeps_patterns:
  "\<exists>g\<in>set gs. grantKind g = k \<and> q \<in> set (PathPatterns (grantSelector g)) \<Longrightarrow> q \<noteq> [] \<Longrightarrow>
     \<exists>g\<in>set (add_grant k' sel why gs). grantKind g = k \<and> q \<in> set (PathPatterns (grantSelector g))"
  by (induction gs) (auto simp: merge_selector_def union_values_def dedupe_values_def set_first_seen)

lemma adds_patterns:
  "q \<in> set (PathPatterns sel) \<Longrightarrow> q \<noteq> [] \<Longrightarrow>
     \<exists>g\<in>set (add_grant k sel why gs). grantKind g = k \<and> q \<in> set (PathPatterns (grantSelector g))"
  by (induction gs) (auto simp: merge_selector_def union_values_def dedupe_values_def set_first_seen)

lemma tmp_writes_granted:
  "\<exists>g\<in>set (blGrants (built an bracketed ws)). grantKind g = KindFileWrite \<and>
     ''/tmp/**'' \<in> set (PathPatterns (grantSelector g))"
proof -
  have base: "\<exists>g\<in>set (blGrants (builder_base (empty_builder bracketed ws))). grantKind g = KindFileWrite \<and>
      ''/tmp/**'' \<in> set (PathPatterns (grantSelector g))"
    unfolding builder_base_def Let_def builder_simps(4)
    by (intro adds_patterns keeps_patterns) (simp_all add: paths_sel_def)
  have home: "builder_homePaths b rels = []" if "blHome b = []" for b rels
    using that by (simp add: builder_homePaths_def)
  have "builder_task an (builder_base (empty_builder bracketed ws)) = builder_base (empty_builder bracketed ws)"
    by (simp add: builder_task_def downloaded_toolchains_def toolchain_caches_def git_keys_def home bracketed_simps Let_def)
  then show ?thesis
    unfolding built_grants builder_network_def Let_def
    using base by (auto intro!: keeps_patterns)
qed

lemma path_denial_misses:
  assumes "\<forall>q\<in>set ps. \<not> MatchPath q (obsTarget obs)" "ps \<noteq> []" "IsResolved (obsTarget obs)"
    and "DomainOf k = Some DomainFilesystem"
  shows "grant_coverage (NewMatcher ufold) (new_grant k (paths_sel ps) why) obs = Uncovered"
  using assms by (auto simp: grant_coverage_def paths_sel_def path_coverage_def)

text \<open>C28: a bracket in its name disarms a workspace's denials. The generator writes the workspace into its patterns as it
  is. Below a directory named \<open>/tmp/p[1]\<close> the denial of hook writes then reads a character class and
  covers nothing, the grant over \<open>/tmp\<close> covers everything, and the lint admits the envelope: writing
  \<open>.git/hooks/pre-commit\<close> is within it, for every prompt.\<close>

theorem brackets_disarm_the_hooks_denial:
  "\<exists>r res. Generate_envelope no_limits rnd 100 (Some an) None bracketed = Inr r \<and>
     BlockingIssues (LintEnvelope (gnEnvelope r)) = [] \<and>
     Validate \<lparr>dvMatcher = NewMatcher ufold, dvNow = 100\<rparr> (Some (gnEnvelope r)) (Some hook_write) None = Inr res \<and>
     vrVerdict res = VerdictWithinEnvelope"
proof -
  let ?v = "\<lparr>dvMatcher = NewMatcher ufold, dvNow = 100\<rparr>"
  let ?ws = "clean_path (pmWorkspaceRoot bracketed)"
  let ?obs = "evObservation hook_write"
  let ?env = "generated no_limits rnd 100 an None bracketed"
  obtain w where g: "Generate_envelope no_limits rnd 100 (Some an) None bracketed =
      Inr \<lparr>gnEnvelope = ?env, gnWarnings = w\<rparr>"
    using Generate_total [of bracketed no_limits rnd 100 an None] bracketed_simps
    by (auto simp: is_abs_def no_limits_def)
  have resolved: "IsResolved ''/tmp/p[1]/.git/hooks/pre-commit''"
    using tmp_pattern_reaches by (auto simp: MatchPath_iff IsResolved_iff)
  have target: "obsTarget ?obs = ''/tmp/p[1]/.git/hooks/pre-commit''" "obsKind ?obs = KindFileWrite"
    "ObservationOf (Some hook_write) = Inr ?obs" "exercised hook_write ?obs = [?obs]"
    by (simp_all add: hook_write_def)
  have places: "set (persistence_points an (empty_builder bracketed ?ws)) \<subseteq>
      {''/tmp/p[1]/.git/hooks/**'', ''/tmp/p[1]/.github/workflows/**''}"
    "persistence_points an (empty_builder bracketed ?ws) \<noteq> []"
    by (auto simp: persistence_points_def home_paths bracketed_simps)
  have "\<forall>q\<in>set (persistence_points an (empty_builder bracketed ?ws)). \<not> MatchPath q (obsTarget ?obs)"
    using places(1) hooks_pattern_misses unfolding target(1) by blast
  then have misses: "grant_coverage (NewMatcher ufold)
      (new_grant k (paths_sel (persistence_points an (empty_builder bracketed ?ws))) why) ?obs = Uncovered"
    if "k = KindFileWrite" for k why
    using that places(2) resolved target(1) by (intro path_denial_misses) simp_all
  have denials: "grant_coverage (NewMatcher ufold) d ?obs = Uncovered" if "d \<in> set (Denials ?env)" for d
  proof (cases "grantKind d = KindFileWrite")
    case True
    moreover have "d \<in> set (standing_denials an bracketed ?ws)"
      using that by (simp only: generated_denials set_filter) blast
    ultimately have "\<exists>why. d = new_grant KindFileWrite
        (paths_sel (persistence_points an (empty_builder bracketed ?ws))) why"
      by (auto simp: standing_denials_def)
    then show ?thesis using misses [OF refl] by blast
  next
    case False
    then show ?thesis using target(2) by (intro other_kind_uncovered) simp
  qed
  obtain gr where gr: "gr \<in> set (blGrants (built an bracketed ?ws))" "grantKind gr = KindFileWrite"
    "''/tmp/**'' \<in> set (PathPatterns (grantSelector gr))" using tmp_writes_granted by blast
  have "gr \<in> set (Grants ?env)"
    using gr by (simp add: generated_def forbidden_def no_limits_def observed_by_def)
  moreover have "grant_coverage (NewMatcher ufold) gr ?obs = Covered"
    using gr(2,3) tmp_pattern_reaches resolved target by (auto simp: grant_coverage_def path_coverage_def)
  ultimately have covered: "covers_some (NewMatcher ufold) (Grants ?env) ?obs" by (auto simp: covers_some_def)
  have live: "\<not> past_expiry ?v ?env hook_write"
    by (simp add: past_expiry_def generated_def hook_write_def bracketed_def) (simp add: project_def)
  have "verdict_spec ?v ?env hook_write None = VerdictWithinEnvelope"
    using live covered denials target
    by (simp add: verdict_spec_def covers_some_def leaves_open_def budget_spent_def sessionConstraint_def)
  moreover obtain res where "Validate ?v (Some ?env) (Some hook_write) None = Inr res"
    using Validate_returns by blast
  moreover have "readable_denial d" if "d \<in> set (standing_denials an bracketed ?ws)" for d
  proof -
    have "ValidatePattern q = None" if "q \<in> set (persistence_points an (empty_builder bracketed ?ws))" for q
    proof -
      have "ValidatePattern ''/tmp/p[1]/.git/hooks/**'' = None"
        "ValidatePattern ''/tmp/p[1]/.github/workflows/**'' = None" by code_simp+
      then show ?thesis using that places(1) by blast
    qed
    moreover have "ValidatePattern q = None" if "q \<in> set (denied_reads an (empty_builder bracketed ?ws))" for q
      using that static_denials_valid by (auto simp: denied_reads_def home_paths bracketed_simps split: if_splits)
    ultimately show ?thesis using that
      by (auto simp: standing_denials_def readable_denial_def paths_sel_def)
  qed
  then have "BlockingIssues (LintEnvelope ?env) = []"
    unfolding admission_iff
    using built_kinds [of an bracketed ?ws]
    by (auto simp: generated_def list_all_iff standing_denials_def AllKinds_list)
  ultimately show ?thesis using g Validate_verdict by fastforce
qed

end
