(* ===== verification/Probes.thy ===== *)
theory Probes
  imports Capability GoStrings
begin

text \<open>
  What the attached probes can observe (\<open>internal/telemetry/probes.go\<close>): the table of programs in the
  kernel object, the families they load and degrade in, the coverage computed from what attached, and
  the search for the families to leave out when the kernel refuses one (\<open>degrade.go\<close>).
\<close>

section \<open>Event types and operations\<close>

text \<open>From \<open>internal/telemetry/abi\<close>; a number outside an enumeration is kept as it is.\<close>

datatype event_type =
    EvtUnknown | EvtFileOpen | EvtFileWrite | EvtFileUnlink | EvtFileRename | EvtFileChmod
  | EvtProcExec | EvtProcExit | EvtNetConnect | EvtNetBind | EvtNetSend | EvtPrivChange | EvtPtrace
  | EvtFileLink | EvtOther nat

datatype priv_op =
    OpUnknown | OpSetuid | OpSetreuid | OpSetresuid | OpSetgid | OpSetregid | OpSetresgid | OpSetgroups
  | OpCapset | OpUnshare | OpSetns | OpSeccomp | OpOther nat

datatype priv_op_error = ErrUnsetPrivOp | ErrUnknownPrivOp priv_op

definition kindForPrivOp :: "priv_op \<Rightarrow> priv_op_error + kind" where
  "kindForPrivOp op =
     (if op \<in> {OpSetuid, OpSetreuid, OpSetresuid, OpSetgid, OpSetregid, OpSetresgid, OpSetgroups}
      then Inr KindPrivSetuid
      else if op = OpCapset then Inr KindPrivCapSet
      else if op \<in> {OpUnshare, OpSetns} then Inr KindPrivNamespace
      else if op = OpSeccomp then Inr KindPrivSeccomp
      else if op = OpUnknown then Inl ErrUnsetPrivOp
      else Inl (ErrUnknownPrivOp op))"

fun CapabilitiesFor :: "event_type \<Rightarrow> kind list" where
  "CapabilitiesFor EvtFileOpen = [KindFileRead, KindFileWrite, KindFileCreate]"
| "CapabilitiesFor EvtFileWrite = [KindFileWrite]"
| "CapabilitiesFor EvtFileUnlink = [KindFileDelete]"
| "CapabilitiesFor EvtFileRename = [KindFileRename]"
| "CapabilitiesFor EvtFileChmod = [KindFileChmod]"
| "CapabilitiesFor EvtFileLink = [KindFileLink]"
| "CapabilitiesFor EvtProcExec = [KindProcessExec]"
| "CapabilitiesFor EvtProcExit = [KindProcessExit]"
| "CapabilitiesFor EvtNetConnect = [KindNetConnect, KindIPCUnixSock]"
| "CapabilitiesFor EvtNetBind = [KindNetBind]"
| "CapabilitiesFor EvtNetSend = [KindNetSend]"
| "CapabilitiesFor EvtPrivChange = [KindPrivSetuid, KindPrivCapSet, KindPrivNamespace, KindPrivSeccomp]"
| "CapabilitiesFor EvtPtrace = [KindProcessPtrace]"
| "CapabilitiesFor _ = []"

section \<open>Programs\<close>

definition ProgProcExec :: string where "ProgProcExec = ''proc_exec''"
definition ProgProcExit :: string where "ProgProcExit = ''proc_exit''"
definition ProgOpenatEnter :: string where "ProgOpenatEnter = ''openat_enter''"
definition ProgOpenatExit :: string where "ProgOpenatExit = ''openat_exit''"
definition ProgConnectEnter :: string where "ProgConnectEnter = ''connect_enter''"
definition ProgConnectExit :: string where "ProgConnectExit = ''connect_exit''"
definition ProgFileOpen :: string where "ProgFileOpen = ''file_open''"
definition ProgSocketConnect :: string where "ProgSocketConnect = ''socket_connect''"
definition ProgPathLink :: string where "ProgPathLink = ''path_link''"

lemmas program_names = ProgProcExec_def ProgProcExit_def ProgOpenatEnter_def ProgOpenatExit_def
  ProgConnectEnter_def ProgConnectExit_def ProgFileOpen_def ProgSocketConnect_def ProgPathLink_def

definition FamilyProcExec :: string where "FamilyProcExec = ''proc_exec''"
definition FamilyProcExit :: string where "FamilyProcExit = ''proc_exit''"
definition FamilyOpenat :: string where "FamilyOpenat = ''openat''"
definition FamilyConnect :: string where "FamilyConnect = ''connect''"
definition FamilyFileOpen :: string where "FamilyFileOpen = ''file_open''"
definition FamilySocketConnect :: string where "FamilySocketConnect = ''socket_connect''"
definition FamilyPathLink :: string where "FamilyPathLink = ''path_link''"

lemmas family_names = FamilyProcExec_def FamilyProcExit_def FamilyOpenat_def FamilyConnect_def
  FamilyFileOpen_def FamilySocketConnect_def FamilyPathLink_def

definition PrivFamilyFor :: "string \<Rightarrow> string" where
  "PrivFamilyFor call = ''priv_'' @ call"

definition privSyscalls :: "(string \<times> priv_op) list" where
  "privSyscalls =
     [(''setuid'', OpSetuid), (''setreuid'', OpSetreuid), (''setresuid'', OpSetresuid),
      (''setgid'', OpSetgid), (''setregid'', OpSetregid), (''setresgid'', OpSetresgid),
      (''setgroups'', OpSetgroups), (''capset'', OpCapset), (''unshare'', OpUnshare),
      (''setns'', OpSetns), (''seccomp'', OpSeccomp)]"

definition ProgPrivPairs :: "string list" where
  "ProgPrivPairs =
     [''priv_enter_setuid'', ''priv_exit_setuid'', ''priv_enter_setreuid'', ''priv_exit_setreuid'',
      ''priv_enter_setresuid'', ''priv_exit_setresuid'', ''priv_enter_setgid'', ''priv_exit_setgid'',
      ''priv_enter_setregid'', ''priv_exit_setregid'', ''priv_enter_setresgid'', ''priv_exit_setresgid'',
      ''priv_enter_setgroups'', ''priv_exit_setgroups'', ''priv_enter_capset'', ''priv_exit_capset'',
      ''priv_enter_unshare'', ''priv_exit_unshare'', ''priv_enter_setns'', ''priv_exit_setns'',
      ''priv_enter_seccomp'', ''priv_exit_seccomp'']"

record probe_descriptor =
  pdName :: string
  pdFamily :: string
  pdType :: string
  pdAttachPoint :: string
  pdEmits :: event_type
  pdPrivOp :: priv_op
  pdOptional :: bool
  pdSuccessOnly :: bool
  pdSyscalls :: "string list"

text \<open>A literal of the table; the fields it leaves out are zero.\<close>

definition probe ::
  "string \<Rightarrow> string \<Rightarrow> string \<Rightarrow> string \<Rightarrow> event_type \<Rightarrow> string list \<Rightarrow> probe_descriptor" where
  "probe name family typ point emits calls =
     \<lparr>pdName = name, pdFamily = family, pdType = typ, pdAttachPoint = point, pdEmits = emits,
      pdPrivOp = OpUnknown, pdOptional = False, pdSuccessOnly = False, pdSyscalls = calls\<rparr>"

definition priv_probes :: "string \<times> priv_op \<Rightarrow> probe_descriptor list" where
  "priv_probes s =
     [(probe (''priv_enter_'' @ fst s) (PrivFamilyFor (fst s)) ''tracepoint''
         (''syscalls/sys_enter_'' @ fst s) EvtUnknown [fst s])\<lparr>pdPrivOp := snd s\<rparr>,
      (probe (''priv_exit_'' @ fst s) (PrivFamilyFor (fst s)) ''tracepoint''
         (''syscalls/sys_exit_'' @ fst s) EvtPrivChange [fst s])\<lparr>pdPrivOp := snd s\<rparr>]"

text \<open>The programs written out; the twenty-two privilege programs follow from the list of syscalls.\<close>

definition syscall_probes :: "probe_descriptor list" where
  "syscall_probes =
     [probe ProgProcExec FamilyProcExec ''tracepoint'' ''sched/sched_process_exec'' EvtProcExec
        [''execve'', ''execveat''],
      probe ProgProcExit FamilyProcExit ''tracepoint'' ''sched/sched_process_exit'' EvtProcExit
        [''exit'', ''exit_group''],
      probe ProgOpenatEnter FamilyOpenat ''fentry'' ''do_sys_openat2'' EvtUnknown
        [''open'', ''openat'', ''openat2'', ''creat''],
      probe ProgOpenatExit FamilyOpenat ''fexit'' ''do_sys_openat2'' EvtFileOpen
        [''open'', ''openat'', ''openat2'', ''creat''],
      probe ProgConnectEnter FamilyConnect ''tracepoint'' ''syscalls/sys_enter_connect'' EvtUnknown
        [''connect''],
      probe ProgConnectExit FamilyConnect ''tracepoint'' ''syscalls/sys_exit_connect'' EvtNetConnect
        [''connect''],
      (probe ProgFileOpen FamilyFileOpen ''fentry'' ''security_file_open'' EvtFileOpen
        [''open'', ''openat'', ''openat2'', ''creat'', ''open_by_handle_at'', ''io_uring''])
        \<lparr>pdOptional := True, pdSuccessOnly := True\<rparr>,
      (probe ProgSocketConnect FamilySocketConnect ''fentry'' ''security_socket_connect'' EvtNetConnect
        [''connect'', ''io_uring''])\<lparr>pdOptional := True\<rparr>,
      (probe ProgPathLink FamilyPathLink ''fentry'' ''security_path_link'' EvtFileLink
        [''link'', ''linkat'', ''io_uring''])\<lparr>pdOptional := True, pdSuccessOnly := True\<rparr>]"

definition AllProbes :: "probe_descriptor list" where
  "AllProbes = syscall_probes @ concat (map priv_probes privSyscalls)"

section \<open>Families\<close>

record probe_family =
  pfName :: string
  pfPrograms :: "string list"
  pfFloor :: bool
  pfCapabilities :: "kind list"
  pfSyscalls :: "string list"
  pfSuccessOnly :: bool

definition probe_kinds :: "probe_descriptor \<Rightarrow> kind list" where
  "probe_kinds d =
     (if pdEmits d = EvtUnknown then []
      else if pdEmits d = EvtPrivChange then
        (case kindForPrivOp (pdPrivOp d) of Inl _ \<Rightarrow> [] | Inr k \<Rightarrow> [k])
      else CapabilitiesFor (pdEmits d))"

definition capabilitiesFor :: "probe_descriptor list \<Rightarrow> kind list" where
  "capabilitiesFor ds =
     first_seen {} (filter (\<lambda>k. kind_string k \<noteq> []) (concat (map probe_kinds ds)))"

definition OptionalPrograms :: "string list" where
  "OptionalPrograms = map pdName (filter pdOptional AllProbes)"

definition successOnly :: "probe_descriptor list \<Rightarrow> bool" where
  "successOnly ds =
     (let emitting = filter (\<lambda>d. pdEmits d \<noteq> EvtUnknown) ds in
      list_all pdSuccessOnly emitting \<and> emitting \<noteq> [])"

definition syscallsOf :: "probe_descriptor list \<Rightarrow> string list" where
  "syscallsOf ds = first_seen {} (concat (map pdSyscalls ds))"

definition family_of :: "string \<Rightarrow> probe_descriptor list \<Rightarrow> probe_family" where
  "family_of name ds =
     \<lparr>pfName = name, pfPrograms = map pdName ds,
      pfFloor = (name = FamilyProcExec \<or> name = FamilyProcExit),
      pfCapabilities = capabilitiesFor ds, pfSyscalls = syscallsOf ds, pfSuccessOnly = successOnly ds\<rparr>"

definition AllProbeFamilies :: "probe_family list" where
  "AllProbeFamilies =
     map (\<lambda>name. family_of name (filter (\<lambda>d. pdFamily d = name) AllProbes))
       (first_seen {} (map pdFamily AllProbes))"

section \<open>Coverage\<close>

record probe_info =
  piName :: string
  piFamily :: string
  piType :: string
  piAttachPoint :: string
  piCapabilities :: "kind list"
  piLoaded :: bool
  piAttached :: bool
  piError :: string

record entry_point_gap =
  egKind :: kind
  egObserved :: "string list"
  egMissing :: "string list"
  egSuccessOnly :: "string list"

record family_coverage =
  fcName :: string
  fcFloor :: bool
  fcComplete :: bool
  fcMissing :: "string list"
  fcCapabilities :: "kind list"
  fcSyscalls :: "string list"

record coverage_report =
  cvProbes :: "probe_info list"
  cvFamilies :: "family_coverage list"
  cvObservable :: "kind list"
  cvUnobservable :: "kind list"
  cvUnsupported :: "kind list"
  cvFloorIntact :: bool
  cvDegraded :: bool
  cvEntryPoints :: "entry_point_gap list"

text \<open>The status map of the source: the last entry for a name counts, a missing one is not attached.\<close>

definition attached_in :: "probe_info list \<Rightarrow> string \<Rightarrow> bool" where
  "attached_in probes name =
     (case map_of (rev (map (\<lambda>p. (piName p, piAttached p)) probes)) name of Some b \<Rightarrow> b | None \<Rightarrow> False)"

definition family_coverage_of :: "(string \<Rightarrow> bool) \<Rightarrow> probe_family \<Rightarrow> family_coverage" where
  "family_coverage_of attached f =
     (let missing = filter (\<lambda>name. \<not> attached name) (pfPrograms f) in
      \<lparr>fcName = pfName f, fcFloor = pfFloor f, fcComplete = (missing = []), fcMissing = missing,
       fcCapabilities = pfCapabilities f, fcSyscalls = pfSyscalls f\<rparr>)"

text \<open>The maps \<open>watched\<close> and \<open>fully\<close>, as the predicates they decide, over a set of families.\<close>

definition watched_by :: "probe_family list \<Rightarrow> kind \<Rightarrow> string \<Rightarrow> bool" where
  "watched_by fs k call = list_ex (\<lambda>f. k \<in> set (pfCapabilities f) \<and> call \<in> set (pfSyscalls f)) fs"

definition fully_watched_by :: "probe_family list \<Rightarrow> kind \<Rightarrow> string \<Rightarrow> bool" where
  "fully_watched_by fs k call = watched_by (filter (\<lambda>f. \<not> pfSuccessOnly f) fs) k call"

definition entry_gap :: "probe_family list \<Rightarrow> kind \<Rightarrow> string list \<Rightarrow> entry_point_gap" where
  "entry_gap fs k calls =
     \<lparr>egKind = k, egObserved = filter (watched_by fs k) calls,
      egMissing = filter (\<lambda>c. \<not> watched_by fs k c) calls,
      egSuccessOnly = filter (\<lambda>c. watched_by fs k c \<and> \<not> fully_watched_by fs k c) calls\<rparr>"

definition has_gap :: "entry_point_gap \<Rightarrow> bool" where
  "has_gap g = (egMissing g \<noteq> [] \<or> egSuccessOnly g \<noteq> [])"

definition ComputeCoverage :: "probe_info list \<Rightarrow> coverage_report" where
  "ComputeCoverage probes =
     (let attached = attached_in probes;
          complete = filter (\<lambda>f. fcComplete (family_coverage_of attached f)) AllProbeFamilies;
          families = map (family_coverage_of attached) AllProbeFamilies;
          observes = (\<lambda>fs k. list_ex (\<lambda>f. k \<in> set (pfCapabilities f)) fs);
          observable = filter (observes complete) AllKinds
      in \<lparr>cvProbes = probes, cvFamilies = families, cvObservable = observable,
          cvUnobservable = filter (\<lambda>k. \<not> observes complete k \<and> observes AllProbeFamilies k) AllKinds,
          cvUnsupported = filter (\<lambda>k. \<not> observes complete k \<and> \<not> observes AllProbeFamilies k) AllKinds,
          cvFloorIntact = list_all (\<lambda>fc. fcFloor fc \<longrightarrow> fcComplete fc) families,
          cvDegraded = list_ex (\<lambda>fc. \<not> fcComplete fc) families,
          cvEntryPoints = filter has_gap
            (concat (map (\<lambda>k. case Describe k of
                None \<Rightarrow> [] | Some d \<Rightarrow> [entry_gap complete k (descSyscalls d)]) observable))\<rparr>)"

text \<open>Of a gap, what a fully attached build would have watched.\<close>

definition avoidable :: "entry_point_gap \<Rightarrow> entry_point_gap" where
  "avoidable g =
     g\<lparr>egMissing := filter (watched_by AllProbeFamilies (egKind g)) (egMissing g),
       egSuccessOnly := filter (fully_watched_by AllProbeFamilies (egKind g)) (egSuccessOnly g)\<rparr>"

definition DegradedEntryPoints :: "coverage_report \<Rightarrow> entry_point_gap list" where
  "DegradedEntryPoints c = filter has_gap (map avoidable (cvEntryPoints c))"

definition CoreKinds :: "kind list" where
  "CoreKinds = [KindFileRead, KindFileWrite, KindFileCreate, KindNetConnect]"

definition UnobservableCore :: "coverage_report \<Rightarrow> kind list" where
  "UnobservableCore c = filter (\<lambda>k. k \<notin> set (cvObservable c)) CoreKinds"

definition Apply :: "coverage_report \<Rightarrow> catalog \<Rightarrow> catalog" where
  "Apply c cat = SetObservable cat (cvObservable c)"

definition GrantGap :: "coverage_report \<Rightarrow> kind list \<Rightarrow> kind list" where
  "GrantGap c granted = filter (\<lambda>k. k \<notin> set (cvObservable c)) granted"

section \<open>Leaving families out\<close>

text \<open>
  A load error is an errno or something else. \<open>load\<close> tries the object with the named families left
  out; it is the kernel's answer, a parameter. The number beside a result counts the loads; the source has no
  such counter.
\<close>

datatype load_error = Errno nat | NotErrno msg

definition refusal :: "load_error \<Rightarrow> bool" where
  "refusal err =
     (case err of NotErrno _ \<Rightarrow> False | Errno n \<Rightarrow> n \<in> {13, 1, 22, 7, 3, 2, 95, 524})"

text \<open>The inner search: the least \<open>k\<close> for which \<open>rest[:k]\<close> fails, and the error of its load.\<close>

function bisect ::
  "(string set \<Rightarrow> load_error option) \<Rightarrow> string set \<Rightarrow> string list \<Rightarrow> nat \<Rightarrow> nat \<Rightarrow> load_error \<Rightarrow> nat \<Rightarrow>
     (load_error + nat \<times> load_error) \<times> nat" where
  "bisect load out rest lo hi err n =
     (if lo < hi then
        (let mid = (lo + hi) div 2 in
         case load (out \<union> set (drop mid rest)) of
           Some e \<Rightarrow> (if refusal e then bisect load out rest lo mid e (Suc n) else (Inl e, Suc n))
         | None \<Rightarrow> bisect load out rest (Suc mid) hi err (Suc n))
      else (Inr (lo, err), n))"
  by pat_completeness auto
termination by (relation "measure (\<lambda>(load, out, rest, lo, hi, err, n). hi - lo)") auto

declare bisect.simps [simp del]

text \<open>The outer loop, which runs once per family at most: \<open>fuel\<close> is the iterations \<open>range families\<close> has left.\<close>

fun degrade_loop ::
  "nat \<Rightarrow> (string set \<Rightarrow> load_error option) \<Rightarrow> string list \<Rightarrow> load_error \<Rightarrow> (string \<times> load_error) list \<Rightarrow>
     load_error \<Rightarrow> nat \<Rightarrow> (load_error + (string \<times> load_error) list) \<times> nat" where
  "degrade_loop 0 load families first why failing n = (Inl first, n)"
| "degrade_loop (Suc turns) load families first why failing n =
     (let out = set (map fst why);
          rest = filter (\<lambda>f. f \<notin> out) families
      in
      case bisect load out rest 0 (length rest) failing n of
        (Inl e, n) \<Rightarrow> (Inl e, n)
      | (Inr (lo, hiErr), n) \<Rightarrow>
          if lo = 0 then (Inl first, n)
          else
            (let why = why @ [(rest ! (lo - 1), hiErr)] in
             case load (set (map fst why)) of
               None \<Rightarrow> (Inr why, Suc n)
             | Some e \<Rightarrow>
                 (if refusal e then degrade_loop turns load families first why e (Suc n)
                  else (Inl e, Suc n))))"

definition degradeFamilies ::
  "string list \<Rightarrow> load_error \<Rightarrow> (string set \<Rightarrow> load_error option) \<Rightarrow>
     (load_error + (string \<times> load_error) list) \<times> nat" where
  "degradeFamilies families first load =
     (if \<not> refusal first then (Inl first, 0)
      else degrade_loop (length families) load families first [] first 0)"

end
