(* ===== verification/ProbeLaws.thy ===== *)
theory ProbeLaws
  imports Probes "HOL-Library.Log_Nat"
begin

text \<open>
  What the search for refused families finds and how many loads it takes, and what coverage says: it is
  monotone in what attached, a family is all or nothing, and nothing a full build would watch goes
  missing without being named.
\<close>

section \<open>The binary search\<close>

text \<open>Whatever the loads answer: the bounds hold, and a search that stops early met another kind of error.\<close>

lemma bisect_bounds:
  "bisect load out rest lo hi err n = (Inr (k, e), m) \<Longrightarrow> lo \<le> hi \<Longrightarrow> lo \<le> k \<and> k \<le> hi"
proof (induction load out rest lo hi err n rule: bisect.induct)
  case (1 load out rest lo hi err n)
  show ?case
  proof (cases "lo < hi")
    case True
    let ?mid = "(lo + hi) div 2"
    have mid: "lo \<le> ?mid" "?mid < hi" using True by auto
    with 1 True show ?thesis
      by (subst (asm) (3) bisect.simps) (fastforce simp: Let_def split: option.splits if_splits)
  qed (use 1 in \<open>subst (asm) (3) bisect.simps, simp\<close>)
qed

lemma bisect_stops:
  "bisect load out rest lo hi err n = (Inl e, m) \<Longrightarrow> \<not> refusal e \<and> (\<exists>X. load X = Some e)"
proof (induction load out rest lo hi err n rule: bisect.induct)
  case (1 load out rest lo hi err n)
  then show ?case
    by (subst (asm) (3) bisect.simps) (auto simp: Let_def split: option.splits if_splits)
qed

text \<open>Where the loads fail from \<open>k\<close> on and only from there, the search ends at \<open>k\<close>, halving as it goes.\<close>

lemma bisect_finds:
  assumes "\<forall>j. lo \<le> j \<and> j < hi \<longrightarrow>
      (case load (out \<union> set (drop j rest)) of None \<Rightarrow> j < k | Some e \<Rightarrow> k \<le> j \<and> refusal e)"
    and "lo \<le> k" "k \<le> hi" "refusal err"
  shows "\<exists>e m. bisect load out rest lo hi err n = (Inr (k, e), m) \<and> refusal e \<and>
    m \<le> n + floorlog 2 (hi - lo)"
  using assms
proof (induction load out rest lo hi err n rule: bisect.induct)
  case (1 load out rest lo hi err n)
  show ?case
  proof (cases "lo < hi")
    case True
    let ?mid = "(lo + hi) div 2"
    have mid: "lo \<le> ?mid" "?mid < hi" using True by auto
    have half: "floorlog 2 (hi - lo) = floorlog 2 ((hi - lo) div 2) + 1"
      using True by (subst compute_floorlog) simp
    show ?thesis
    proof (cases "load (out \<union> set (drop ?mid rest))")
      case None
      then have "?mid < k" using "1.prems"(1) mid by (auto dest!: spec [of _ ?mid])
      then obtain e m where "bisect load out rest (Suc ?mid) hi err (Suc n) = (Inr (k, e), m)" "refusal e"
        "m \<le> Suc n + floorlog 2 (hi - Suc ?mid)"
        using "1.IH"(1) [OF True refl None] "1.prems" mid by auto
      moreover have "floorlog 2 (hi - Suc ?mid) \<le> floorlog 2 ((hi - lo) div 2)"
        by (rule floorlog_mono) (use mid in linarith)
      ultimately show ?thesis using True None half by (subst bisect.simps) (simp add: Let_def)
    next
      case (Some e0)
      then have "k \<le> ?mid" "refusal e0" using "1.prems"(1) mid by (auto dest!: spec [of _ ?mid])
      then obtain e m where "bisect load out rest lo ?mid e0 (Suc n) = (Inr (k, e), m)" "refusal e"
        "m \<le> Suc n + floorlog 2 (?mid - lo)"
        using "1.IH"(2) [OF True refl Some \<open>refusal e0\<close>] "1.prems" mid by auto
      moreover have "?mid - lo = (hi - lo) div 2" by linarith
      ultimately show ?thesis using True Some \<open>refusal e0\<close> half by (subst bisect.simps) (simp add: Let_def)
    qed
  next
    case False
    then show ?thesis using "1.prems" by (subst bisect.simps) simp
  qed
qed

section \<open>Leaving families out\<close>

text \<open>A kernel that refuses the families of \<open>bad\<close>, each on its own account, and nothing else.\<close>

definition refuses :: "(string set \<Rightarrow> load_error option) \<Rightarrow> string set \<Rightarrow> bool" where
  "refuses load bad \<longleftrightarrow>
     (\<forall>out. (load out = None \<longleftrightarrow> bad \<subseteq> out) \<and> (\<forall>e. load out = Some e \<longrightarrow> refusal e))"

lemma next_refused:
  assumes "refuses load bad" and "distinct families" "bad \<subseteq> set families"
    and "set done_so_far \<subseteq> bad" and "rest = filter (\<lambda>f. f \<notin> set done_so_far) families"
    and "rest = us @ b # vs" "b \<in> bad" "\<forall>u\<in>set us. u \<notin> bad" "refusal err"
  shows "\<exists>e m. bisect load (set done_so_far) rest 0 (length rest) err n = (Inr (Suc (length us), e), m) \<and>
    refusal e \<and> m \<le> n + floorlog 2 (length rest)"
proof -
  have distinct: "distinct rest" using assms(2,5) by simp
  have "case load (set done_so_far \<union> set (drop j rest)) of
      None \<Rightarrow> j < Suc (length us) | Some e \<Rightarrow> Suc (length us) \<le> j \<and> refusal e" if "j < length rest" for j
  proof -
    have "bad \<subseteq> set done_so_far \<union> set (drop j rest) \<longleftrightarrow> j \<le> length us"
    proof
      assume sub: "bad \<subseteq> set done_so_far \<union> set (drop j rest)"
      show "j \<le> length us"
      proof (rule ccontr)
        assume "\<not> j \<le> length us"
        then have "b \<in> set (take j rest)" by (simp add: assms(6) take_Cons')
        moreover have "b \<in> set rest" by (simp add: assms(6))
        then have "b \<notin> set done_so_far" using assms(5) by simp
        then have "b \<in> set (drop j rest)" using sub assms(7) by auto
        ultimately show False using distinct set_take_disj_set_drop_if_distinct [of rest j j] by auto
      qed
    next
      assume j: "j \<le> length us"
      have "x \<in> set (drop j rest)" if "x \<in> bad" "x \<notin> set done_so_far" for x
      proof -
        have "x \<in> set rest" using that assms(3,5) by auto
        moreover have "x \<notin> set (take j rest)"
          using that(1) assms(8) j by (auto simp: assms(6) dest: in_set_takeD)
        ultimately show ?thesis by (metis UnE append_take_drop_id set_append)
      qed
      then show "bad \<subseteq> set done_so_far \<union> set (drop j rest)" by auto
    qed
    then have "load (set done_so_far \<union> set (drop j rest)) = None \<longleftrightarrow> j \<le> length us"
      and "load (set done_so_far \<union> set (drop j rest)) = Some e \<Longrightarrow> refusal e" for e
      using assms(1) unfolding refuses_def by metis+
    then show ?thesis by (cases "load (set done_so_far \<union> set (drop j rest))") auto
  qed
  then show ?thesis
    using bisect_finds [where lo = 0 and hi = "length rest" and load = load and out = "set done_so_far"
        and rest = rest and k = "Suc (length us)" and err = err and n = n] assms(6,9) by simp
qed

lemma degrade_loop_finds:
  assumes "refuses load bad" and "distinct families" "bad \<subseteq> set families"
    and "filter (\<lambda>f. f \<in> bad) families = map fst why @ todo" "todo \<noteq> []" "length todo \<le> turns"
    and "refusal failing" "\<forall>p\<in>set why. refusal (snd p)"
  shows "\<exists>why' m. degrade_loop turns load families first why failing n = (Inr why', m) \<and>
    map fst why' = filter (\<lambda>f. f \<in> bad) families \<and> (\<forall>p\<in>set why'. refusal (snd p)) \<and>
    m \<le> n + length todo * (floorlog 2 (length families) + 1)"
  using assms(4-8)
proof (induction turns arbitrary: why todo failing n)
  case (Suc turns)
  let ?out = "set (map fst why)"
  let ?rest = "filter (\<lambda>f. f \<notin> ?out) families"
  obtain b todo' where todo: "todo = b # todo'" using Suc.prems(2) by (cases todo) auto
  have bad_eq: "bad = ?out \<union> set todo"
    using arg_cong [OF Suc.prems(1), of set] assms(3) by auto
  have "distinct (map fst why @ todo)" using Suc.prems(1) assms(2) by (metis distinct_filter)
  then have disj: "?out \<inter> set todo = {}" "distinct todo" by auto
  have "filter (\<lambda>f. f \<in> bad) ?rest = todo"
  proof -
    have "filter (\<lambda>f. f \<in> bad) ?rest = filter (\<lambda>f. f \<notin> ?out) (filter (\<lambda>f. f \<in> bad) families)"
      by (simp add: conj_commute)
    also have "\<dots> = filter (\<lambda>f. f \<notin> ?out) (map fst why @ todo)" by (simp only: Suc.prems(1))
    also have "\<dots> = todo" using disj by (auto simp: filter_empty_conv filter_id_conv)
    finally show ?thesis .
  qed
  then obtain us vs where rest: "?rest = us @ b # vs" "\<forall>u\<in>set us. u \<notin> bad" "b \<in> bad"
    unfolding todo filter_eq_Cons_iff by blast
  obtain e m where e: "bisect load ?out ?rest 0 (length ?rest) failing n = (Inr (Suc (length us), e), m)"
    "refusal e" "m \<le> n + floorlog 2 (length ?rest)"
    using next_refused [OF assms(1-3) _ refl rest(1,3,2) Suc.prems(4), of n] bad_eq by auto
  have "floorlog 2 (length ?rest) \<le> floorlog 2 (length families)" by (rule floorlog_mono) simp
  with e(3) have m: "m \<le> n + floorlog 2 (length families)" by simp
  have at: "?rest ! (Suc (length us) - 1) = b" by (simp only: rest(1) diff_Suc_1 nth_append_length)
  let ?why = "why @ [(b, e)]"
  have step: "degrade_loop (Suc turns) load families first why failing n =
    (case load (set (map fst ?why)) of None \<Rightarrow> (Inr ?why, Suc m)
     | Some e' \<Rightarrow> if refusal e' then degrade_loop turns load families first ?why e' (Suc m) else (Inl e', Suc m))"
    by (simp only: degrade_loop.simps Let_def e(1) at prod.case sum.case nat.simps(3) if_False)
  have why: "filter (\<lambda>f. f \<in> bad) families = map fst ?why @ todo'" "\<forall>p\<in>set ?why. refusal (snd p)"
    using Suc.prems(1,5) todo e(2) by auto
  show ?case
  proof (cases "todo' = []")
    case True
    then have "bad \<subseteq> set (map fst ?why)" using bad_eq todo by auto
    then have "load (set (map fst ?why)) = None" using assms(1) unfolding refuses_def by metis
    then show ?thesis using step why m True todo by simp
  next
    case False
    have "b \<notin> set todo'" using disj todo by simp
    with False disj todo have "\<not> bad \<subseteq> set (map fst ?why)" using bad_eq by (cases todo') auto
    then have "load (set (map fst ?why)) \<noteq> None" using assms(1) unfolding refuses_def by metis
    then obtain e' where e': "load (set (map fst ?why)) = Some e'" by blast
    then have e'': "refusal e'" using assms(1) unfolding refuses_def by metis
    obtain why' m' where "degrade_loop turns load families first ?why e' (Suc m) = (Inr why', m')"
      "map fst why' = filter (\<lambda>f. f \<in> bad) families" "\<forall>p\<in>set why'. refusal (snd p)"
      "m' \<le> Suc m + length todo' * (floorlog 2 (length families) + 1)"
      using Suc.IH [OF why(1) False _ e'' why(2), of "Suc m"] Suc.prems(3) todo by auto
    then show ?thesis using step e' e'' m todo by auto
  qed
qed simp

lemma degrade_loop_sound:
  assumes "degrade_loop turns load families first why failing n = (r, m)"
    and "set (map fst why) \<subseteq> set families" "distinct (map fst why)"
  shows "(\<forall>why'. r = Inr why' \<longrightarrow> load (set (map fst why')) = None \<and>
      set (map fst why') \<subseteq> set families \<and> distinct (map fst why')) \<and>
    (\<forall>e. r = Inl e \<longrightarrow> e = first \<or> \<not> refusal e \<and> (\<exists>X. load X = Some e))"
  using assms
proof (induction turns arbitrary: why failing n)
  case (Suc turns)
  let ?out = "set (map fst why)"
  let ?rest = "filter (\<lambda>f. f \<notin> ?out) families"
  obtain b m0 where bi: "bisect load ?out ?rest 0 (length ?rest) failing n = (b, m0)" by fastforce
  show ?case
  proof (cases b)
    case (Inl e)
    then show ?thesis using Suc.prems(1) bi bisect_stops [of load ?out ?rest 0 "length ?rest" failing n e m0]
      by (auto simp: Let_def)
  next
    case (Inr ke)
    then obtain k e where b: "b = Inr (k, e)" by (cases ke) auto
    show ?thesis
    proof (cases "k = 0")
      case True
      then show ?thesis using Suc.prems(1) bi b by (auto simp: Let_def)
    next
      case False
      have "k \<le> length ?rest" using bisect_bounds [of load ?out ?rest 0 "length ?rest" failing n k e m0] bi b by simp
      then have "?rest ! (k - 1) \<in> set ?rest" using False by (intro nth_mem) simp
      then have new: "?rest ! (k - 1) \<in> set families" "?rest ! (k - 1) \<notin> ?out" by auto
      let ?why = "why @ [(?rest ! (k - 1), e)]"
      have step: "(case load (set (map fst ?why)) of None \<Rightarrow> (Inr ?why, Suc m0)
         | Some e' \<Rightarrow> if refusal e' then degrade_loop turns load families first ?why e' (Suc m0)
             else (Inl e', Suc m0)) = (r, m)"
        using Suc.prems(1) by (simp only: degrade_loop.simps Let_def bi b prod.case sum.case False if_False)
      have inv: "set (map fst ?why) \<subseteq> set families" "distinct (map fst ?why)"
        using Suc.prems(2,3) new by auto
      show ?thesis
      proof (cases "load (set (map fst ?why))")
        case None
        then have "r = Inr ?why" using step by simp
        with inv None show ?thesis by (metis sum.inject(2) sum.simps(4))
      next
        case (Some e')
        show ?thesis
        proof (cases "refusal e'")
          case True
          then have "degrade_loop turns load families first ?why e' (Suc m0) = (r, m)"
            using step Some by simp
          then show ?thesis by (rule Suc.IH) (use inv in auto)
        next
          case False
          then show ?thesis using step Some by auto
        qed
      qed
    qed
  qed
qed auto

section \<open>Coverage\<close>

text \<open>The table of families, evaluated once.\<close>

lemmas probe_table = syscall_probes_def probe_def priv_probes_def privSyscalls_def PrivFamilyFor_def
  program_names family_names

definition priv_family :: "string \<Rightarrow> kind \<Rightarrow> probe_family" where
  "priv_family call k =
     \<lparr>pfName = ''priv_'' @ call, pfPrograms = [''priv_enter_'' @ call, ''priv_exit_'' @ call], pfFloor = False,
      pfCapabilities = [k], pfSyscalls = [call], pfSuccessOnly = False\<rparr>"

definition file_families :: "probe_family list" where
  "file_families =
     [\<lparr>pfName = ''proc_exec'', pfPrograms = [''proc_exec''], pfFloor = True,
        pfCapabilities = [KindProcessExec], pfSyscalls = [''execve'', ''execveat''], pfSuccessOnly = False\<rparr>,
      \<lparr>pfName = ''proc_exit'', pfPrograms = [''proc_exit''], pfFloor = True,
        pfCapabilities = [KindProcessExit], pfSyscalls = [''exit'', ''exit_group''], pfSuccessOnly = False\<rparr>,
      \<lparr>pfName = ''openat'', pfPrograms = [''openat_enter'', ''openat_exit''], pfFloor = False,
        pfCapabilities = [KindFileRead, KindFileWrite, KindFileCreate],
        pfSyscalls = [''open'', ''openat'', ''openat2'', ''creat''], pfSuccessOnly = False\<rparr>,
      \<lparr>pfName = ''connect'', pfPrograms = [''connect_enter'', ''connect_exit''], pfFloor = False,
        pfCapabilities = [KindNetConnect, KindIPCUnixSock], pfSyscalls = [''connect''], pfSuccessOnly = False\<rparr>,
      \<lparr>pfName = ''file_open'', pfPrograms = [''file_open''], pfFloor = False,
        pfCapabilities = [KindFileRead, KindFileWrite, KindFileCreate],
        pfSyscalls = [''open'', ''openat'', ''openat2'', ''creat'', ''open_by_handle_at'', ''io_uring''],
        pfSuccessOnly = True\<rparr>,
      \<lparr>pfName = ''socket_connect'', pfPrograms = [''socket_connect''], pfFloor = False,
        pfCapabilities = [KindNetConnect, KindIPCUnixSock], pfSyscalls = [''connect'', ''io_uring''],
        pfSuccessOnly = False\<rparr>,
      \<lparr>pfName = ''path_link'', pfPrograms = [''path_link''], pfFloor = False,
        pfCapabilities = [KindFileLink], pfSyscalls = [''link'', ''linkat'', ''io_uring''], pfSuccessOnly = True\<rparr>]"

lemma family_names_in_order:
  "first_seen {} (map pdFamily AllProbes) =
     [''proc_exec'', ''proc_exit'', ''openat'', ''connect'', ''file_open'', ''socket_connect'', ''path_link'',
      ''priv_setuid'', ''priv_setreuid'', ''priv_setresuid'', ''priv_setgid'', ''priv_setregid'',
      ''priv_setresgid'', ''priv_setgroups'', ''priv_capset'', ''priv_unshare'', ''priv_setns'', ''priv_seccomp'']"
  by (simp add: AllProbes_def probe_table)

text \<open>Which programs a family has: the privilege families come from the syscall list, the others not.\<close>

lemma priv_members:
  "filter (\<lambda>d. pdFamily d = PrivFamilyFor call) (concat (map priv_probes calls)) =
     concat (map priv_probes (filter (\<lambda>s. fst s = call) calls))"
  by (induction calls) (auto simp: priv_probes_def probe_def PrivFamilyFor_def)

lemma other_members:
  "\<not> prefix ''priv_'' name \<Longrightarrow> filter (\<lambda>d. pdFamily d = name) (concat (map priv_probes calls)) = []"
  by (induction calls) (auto simp: priv_probes_def probe_def PrivFamilyFor_def)

lemma priv_family_members:
  "filter (\<lambda>d. pdFamily d = PrivFamilyFor call) AllProbes =
     concat (map priv_probes (filter (\<lambda>s. fst s = call) privSyscalls))"
proof -
  have "filter (\<lambda>d. pdFamily d = PrivFamilyFor call) syscall_probes = []"
    by (simp add: probe_table)
  then show ?thesis by (simp add: AllProbes_def priv_members)
qed

lemma other_family_members:
  "\<not> prefix ''priv_'' name \<Longrightarrow>
     filter (\<lambda>d. pdFamily d = name) AllProbes = filter (\<lambda>d. pdFamily d = name) syscall_probes"
  by (simp add: AllProbes_def other_members)

lemma successOnly_iff:
  "successOnly ds \<longleftrightarrow> list_all (\<lambda>d. pdEmits d \<noteq> EvtUnknown \<longrightarrow> pdSuccessOnly d) ds \<and>
     list_ex (\<lambda>d. pdEmits d \<noteq> EvtUnknown) ds"
  by (auto simp: successOnly_def Let_def list_all_iff list_ex_iff filter_empty_conv)

lemma priv_family_of:
  "kindForPrivOp op = Inr k \<Longrightarrow> kind_string k \<noteq> [] \<Longrightarrow>
     family_of (PrivFamilyFor call) (priv_probes (call, op)) = priv_family call k"
  by (simp add: family_of_def priv_probes_def probe_def capabilitiesFor_def probe_kinds_def syscallsOf_def
      successOnly_def priv_family_def PrivFamilyFor_def family_names)

lemma family_table:
  "AllProbeFamilies = file_families @
     [priv_family ''setuid'' KindPrivSetuid, priv_family ''setreuid'' KindPrivSetuid,
      priv_family ''setresuid'' KindPrivSetuid, priv_family ''setgid'' KindPrivSetuid,
      priv_family ''setregid'' KindPrivSetuid, priv_family ''setresgid'' KindPrivSetuid,
      priv_family ''setgroups'' KindPrivSetuid, priv_family ''capset'' KindPrivCapSet,
      priv_family ''unshare'' KindPrivNamespace, priv_family ''setns'' KindPrivNamespace,
      priv_family ''seccomp'' KindPrivSeccomp]"
proof -
  have "map (\<lambda>name. family_of name (filter (\<lambda>d. pdFamily d = name) AllProbes))
      [''proc_exec'', ''proc_exit'', ''openat'', ''connect'', ''file_open'', ''socket_connect'', ''path_link''] =
    file_families"
    by (simp add: other_family_members probe_table family_of_def capabilitiesFor_def probe_kinds_def
        syscallsOf_def successOnly_iff file_families_def)
  moreover have "map (\<lambda>name. family_of name (filter (\<lambda>d. pdFamily d = name) AllProbes))
      (map PrivFamilyFor [''setuid'', ''setreuid'', ''setresuid'', ''setgid'', ''setregid'', ''setresgid'',
        ''setgroups'', ''capset'', ''unshare'', ''setns'', ''seccomp'']) =
      [priv_family ''setuid'' KindPrivSetuid, priv_family ''setreuid'' KindPrivSetuid,
      priv_family ''setresuid'' KindPrivSetuid, priv_family ''setgid'' KindPrivSetuid,
      priv_family ''setregid'' KindPrivSetuid, priv_family ''setresgid'' KindPrivSetuid,
      priv_family ''setgroups'' KindPrivSetuid, priv_family ''capset'' KindPrivCapSet,
      priv_family ''unshare'' KindPrivNamespace, priv_family ''setns'' KindPrivNamespace,
      priv_family ''seccomp'' KindPrivSeccomp]"
    by (simp add: priv_family_members privSyscalls_def priv_family_of kindForPrivOp_def)
  ultimately show ?thesis
    unfolding AllProbeFamilies_def family_names_in_order by (simp add: PrivFamilyFor_def)
qed

lemma privilege_programs: "ProgPrivPairs = map pdName (concat (map priv_probes privSyscalls))"
  by (simp add: ProgPrivPairs_def probe_table)

definition complete_families :: "probe_info list \<Rightarrow> probe_family list" where
  "complete_families probes =
     filter (\<lambda>f. \<forall>name\<in>set (pfPrograms f). attached_in probes name) AllProbeFamilies"

lemma fcComplete_iff:
  "fcComplete (family_coverage_of attached f) \<longleftrightarrow> (\<forall>name\<in>set (pfPrograms f). attached name)"
  by (simp add: family_coverage_of_def Let_def filter_empty_conv)

lemma coverage_fields:
  "set (cvObservable (ComputeCoverage probes)) =
     {k \<in> set AllKinds. \<exists>f\<in>set (complete_families probes). k \<in> set (pfCapabilities f)}"
  "set (cvUnobservable (ComputeCoverage probes)) =
     {k \<in> set AllKinds. (\<exists>f\<in>set AllProbeFamilies. k \<in> set (pfCapabilities f)) \<and>
        k \<notin> set (cvObservable (ComputeCoverage probes))}"
  "set (cvUnsupported (ComputeCoverage probes)) =
     {k \<in> set AllKinds. \<not> (\<exists>f\<in>set AllProbeFamilies. k \<in> set (pfCapabilities f))}"
  "cvFloorIntact (ComputeCoverage probes) \<longleftrightarrow>
     (\<forall>f\<in>set AllProbeFamilies. pfFloor f \<longrightarrow> f \<in> set (complete_families probes))"
  "cvDegraded (ComputeCoverage probes) \<longleftrightarrow> complete_families probes \<noteq> AllProbeFamilies"
  "cvEntryPoints (ComputeCoverage probes) = filter has_gap (concat (map (\<lambda>k. case Describe k of
      None \<Rightarrow> [] | Some d \<Rightarrow> [entry_gap (complete_families probes) k (descSyscalls d)])
      (cvObservable (ComputeCoverage probes))))"
proof -
  have c: "filter (\<lambda>f. fcComplete (family_coverage_of (attached_in probes) f)) AllProbeFamilies =
      complete_families probes"
    by (simp add: complete_families_def fcComplete_iff)
  have floor: "fcFloor (family_coverage_of attached f) = pfFloor f" for attached f
    by (simp add: family_coverage_of_def Let_def)
  show "set (cvObservable (ComputeCoverage probes)) =
     {k \<in> set AllKinds. \<exists>f\<in>set (complete_families probes). k \<in> set (pfCapabilities f)}"
    by (auto simp: ComputeCoverage_def Let_def c [symmetric] list_ex_iff)
  show "set (cvUnobservable (ComputeCoverage probes)) =
     {k \<in> set AllKinds. (\<exists>f\<in>set AllProbeFamilies. k \<in> set (pfCapabilities f)) \<and>
        k \<notin> set (cvObservable (ComputeCoverage probes))}"
    by (auto simp: ComputeCoverage_def Let_def list_ex_iff)
  show "set (cvUnsupported (ComputeCoverage probes)) =
     {k \<in> set AllKinds. \<not> (\<exists>f\<in>set AllProbeFamilies. k \<in> set (pfCapabilities f))}"
    by (auto simp: ComputeCoverage_def Let_def c list_ex_iff complete_families_def)
  show "cvFloorIntact (ComputeCoverage probes) \<longleftrightarrow>
     (\<forall>f\<in>set AllProbeFamilies. pfFloor f \<longrightarrow> f \<in> set (complete_families probes))"
    by (auto simp: ComputeCoverage_def Let_def list_all_iff floor fcComplete_iff complete_families_def)
  show "cvDegraded (ComputeCoverage probes) \<longleftrightarrow> complete_families probes \<noteq> AllProbeFamilies"
    by (auto simp: ComputeCoverage_def Let_def list_ex_iff fcComplete_iff complete_families_def filter_id_conv)
  show "cvEntryPoints (ComputeCoverage probes) = filter has_gap (concat (map (\<lambda>k. case Describe k of
      None \<Rightarrow> [] | Some d \<Rightarrow> [entry_gap (complete_families probes) k (descSyscalls d)])
      (cvObservable (ComputeCoverage probes))))"
    by (simp add: ComputeCoverage_def Let_def c cong: option.case_cong)
qed

lemma watched_by_iff:
  "watched_by fs k call \<longleftrightarrow> (\<exists>f\<in>set fs. k \<in> set (pfCapabilities f) \<and> call \<in> set (pfSyscalls f))"
  "fully_watched_by fs k call \<longleftrightarrow>
     (\<exists>f\<in>set fs. \<not> pfSuccessOnly f \<and> k \<in> set (pfCapabilities f) \<and> call \<in> set (pfSyscalls f))"
  by (auto simp: watched_by_def fully_watched_by_def list_ex_iff)

lemma watched_by_mono:
  assumes "set fs \<subseteq> set fs'"
  shows "watched_by fs k call \<Longrightarrow> watched_by fs' k call"
    and "fully_watched_by fs k call \<Longrightarrow> fully_watched_by fs' k call"
  using assms by (auto simp: watched_by_iff)

lemma complete_subset: "set (complete_families probes) \<subseteq> set AllProbeFamilies"
  by (auto simp: complete_families_def)

text \<open>A degraded entry point comes from the gap of its kind.\<close>

lemma degraded_iff:
  assumes "k \<in> set (cvObservable (ComputeCoverage probes))" and "Describe k = Some d"
  shows "(\<exists>g\<in>set (DegradedEntryPoints (ComputeCoverage probes)). egKind g = k \<and> call \<in> set (egMissing g)) \<longleftrightarrow>
      call \<in> set (descSyscalls d) \<and> watched_by AllProbeFamilies k call \<and>
      \<not> watched_by (complete_families probes) k call"
    and "(\<exists>g\<in>set (DegradedEntryPoints (ComputeCoverage probes)). egKind g = k \<and> call \<in> set (egSuccessOnly g)) \<longleftrightarrow>
      call \<in> set (descSyscalls d) \<and> fully_watched_by AllProbeFamilies k call \<and>
      watched_by (complete_families probes) k call \<and> \<not> fully_watched_by (complete_families probes) k call"
proof -
  let ?c = "ComputeCoverage probes"
  let ?g = "entry_gap (complete_families probes) k (descSyscalls d)"
  have shrink: "has_gap (avoidable g) \<Longrightarrow> has_gap g" for g by (auto simp: has_gap_def avoidable_def)
  have kind: "egKind (entry_gap fs k' calls) = k'" for fs k' calls by (simp add: entry_gap_def)
  have kept: "egKind (avoidable g) = egKind g" for g by (simp add: avoidable_def)
  have "g \<in> set (DegradedEntryPoints ?c) \<and> egKind g = k \<longleftrightarrow> has_gap g \<and> g = avoidable ?g" for g
  proof
    assume g: "g \<in> set (DegradedEntryPoints ?c) \<and> egKind g = k"
    then obtain g0 where g0: "g = avoidable g0" "g0 \<in> set (cvEntryPoints ?c)" "has_gap g"
      by (auto simp: DegradedEntryPoints_def)
    then obtain k' d' where "g0 = entry_gap (complete_families probes) k' (descSyscalls d')" "Describe k' = Some d'"
      by (auto simp: coverage_fields split: option.splits)
    then show "has_gap g \<and> g = avoidable ?g" using g g0 assms(2) kind kept by simp
  next
    assume g: "has_gap g \<and> g = avoidable ?g"
    then have "has_gap ?g" using shrink by blast
    then have "?g \<in> set (cvEntryPoints ?c)" using assms by (auto simp: coverage_fields(6) intro!: bexI [of _ k])
    then show "g \<in> set (DegradedEntryPoints ?c) \<and> egKind g = k"
      using g by (auto simp: DegradedEntryPoints_def kind kept)
  qed
  then have gaps: "(\<exists>g\<in>set (DegradedEntryPoints ?c). egKind g = k \<and> call \<in> set (f g)) \<longleftrightarrow>
      has_gap (avoidable ?g) \<and> call \<in> set (f (avoidable ?g))" for f by metis
  have "call \<in> set (egMissing (avoidable ?g)) \<longleftrightarrow> call \<in> set (descSyscalls d) \<and>
      watched_by AllProbeFamilies k call \<and> \<not> watched_by (complete_families probes) k call"
    "call \<in> set (egSuccessOnly (avoidable ?g)) \<longleftrightarrow> call \<in> set (descSyscalls d) \<and>
      fully_watched_by AllProbeFamilies k call \<and>
      watched_by (complete_families probes) k call \<and> \<not> fully_watched_by (complete_families probes) k call"
    by (auto simp: entry_gap_def avoidable_def)
  moreover have "call \<in> set (egMissing g) \<or> call \<in> set (egSuccessOnly g) \<Longrightarrow> has_gap g" for g
    by (auto simp: has_gap_def)
  ultimately show "(\<exists>g\<in>set (DegradedEntryPoints ?c). egKind g = k \<and> call \<in> set (egMissing g)) \<longleftrightarrow>
      call \<in> set (descSyscalls d) \<and> watched_by AllProbeFamilies k call \<and>
      \<not> watched_by (complete_families probes) k call"
    and "(\<exists>g\<in>set (DegradedEntryPoints ?c). egKind g = k \<and> call \<in> set (egSuccessOnly g)) \<longleftrightarrow>
      call \<in> set (descSyscalls d) \<and> fully_watched_by AllProbeFamilies k call \<and>
      watched_by (complete_families probes) k call \<and> \<not> fully_watched_by (complete_families probes) k call"
    unfolding gaps by blast+
qed

section \<open>Properties\<close>

text \<open>C33: leaving out exactly what is refused. When the kernel refuses some probe families, each on its own
  account, and nothing else, the search leaves out precisely those, in the order of the table, each
  with the refusal that singled it out, and it needs at most one load per refused family for every
  bit of the number of families and one more: eleven families' worth of trial loads is never spent
  on two. The rest of the object loads.\<close>

theorem refused_families_are_left_out:
  assumes "refuses load bad" and "bad \<subseteq> set families" "bad \<noteq> {}" and "distinct families" and "refusal first"
  shows "\<exists>why loads. degradeFamilies families first load = (Inr why, loads) \<and>
    map fst why = filter (\<lambda>f. f \<in> bad) families \<and> (\<forall>p\<in>set why. refusal (snd p)) \<and>
    load (set (map fst why)) = None \<and>
    loads \<le> card bad * (floorlog 2 (length families) + 1)"
proof -
  let ?bs = "filter (\<lambda>f. f \<in> bad) families"
  have bs: "set ?bs = bad" "distinct ?bs" "?bs \<noteq> []" using assms(2-4) by (auto simp: filter_empty_conv)
  then have card: "card bad = length ?bs" by (metis distinct_card)
  obtain why m where why: "degrade_loop (length families) load families first [] first 0 = (Inr why, m)"
    "map fst why = ?bs" "\<forall>p\<in>set why. refusal (snd p)" "m \<le> length ?bs * (floorlog 2 (length families) + 1)"
    using degrade_loop_finds [OF assms(1,4,2), of "[]" ?bs "length families" first first 0] bs(3) assms(5)
    by auto
  have "degradeFamilies families first load = (Inr why, m)"
    using why(1) assms(5) by (simp add: degradeFamilies_def)
  moreover have "load (set (map fst why)) = None"
    using assms(1) bs(1) unfolding why(2) refuses_def by simp
  ultimately show ?thesis using why(2-4) unfolding card by blast
qed

definition one_refused :: "string set \<Rightarrow> load_error option" where
  "one_refused out = (if FamilyPathLink \<in> out then None else Some (Errno 22))"

theorem refused_families_are_left_out_witness:
  "\<exists>why loads. degradeFamilies (map pfName AllProbeFamilies) (Errno 22) one_refused = (Inr why, loads) \<and>
     map fst why = [FamilyPathLink]"
proof -
  have "refuses one_refused {FamilyPathLink}"
    by (simp add: refuses_def one_refused_def refusal_def split: if_splits)
  from refused_families_are_left_out [OF this, of "map pfName AllProbeFamilies" "Errno 22"] show ?thesis
    by (auto simp: family_table file_families_def priv_family_def family_names refusal_def)
qed

text \<open>What degradation reports, it did. Whatever the kernel answers, and however inconsistently: when the
  search returns a set of families, the object loaded with exactly those left out and each is one of
  the table, named once; when it returns an error, that is the first load's, or the error of some
  load that no omission could cure.\<close>

theorem degradation_is_sound:
  assumes "degradeFamilies families first load = (r, loads)"
  shows "case r of
      Inr why \<Rightarrow> load (set (map fst why)) = None \<and> set (map fst why) \<subseteq> set families \<and> distinct (map fst why)
    | Inl e \<Rightarrow> e = first \<or> \<not> refusal e \<and> (\<exists>out. load out = Some e)"
proof (cases "refusal first")
  case True
  then have "degrade_loop (length families) load families first [] first 0 = (r, loads)"
    using assms by (simp add: degradeFamilies_def)
  from degrade_loop_sound [OF this] show ?thesis by (cases r) auto
qed (use assms in \<open>auto simp: degradeFamilies_def\<close>)

theorem degradation_is_sound_witness:
  "one_refused (set (map fst [(FamilyPathLink, Errno 22)])) = None \<and>
   set (map fst [(FamilyPathLink, Errno 22)]) \<subseteq> set [FamilyOpenat, FamilyPathLink]"
proof -
  have "degradeFamilies [FamilyOpenat, FamilyPathLink] (Errno 22) one_refused =
      (Inr [(FamilyPathLink, Errno 22)], 2)" by code_simp
  from degradation_is_sound [OF this] show ?thesis by simp
qed

text \<open>No loss goes unnamed. For a capability the attached probes observe, the coverage report names as
  lost exactly those of its declared entry points that a full build watches and the complete
  families do not, and as reduced to successes exactly those that a full build watches for refused
  attempts too and the complete families only for permitted ones.\<close>

theorem lost_entry_points_are_named:
  assumes "k \<in> set (cvObservable (ComputeCoverage probes))" and "Describe k = Some d"
  shows "((\<exists>g\<in>set (DegradedEntryPoints (ComputeCoverage probes)). egKind g = k \<and> call \<in> set (egMissing g)) \<longleftrightarrow>
      call \<in> set (descSyscalls d) \<and> watched_by AllProbeFamilies k call \<and>
      \<not> watched_by (complete_families probes) k call) \<and>
    ((\<exists>g\<in>set (DegradedEntryPoints (ComputeCoverage probes)). egKind g = k \<and> call \<in> set (egSuccessOnly g)) \<longleftrightarrow>
      call \<in> set (descSyscalls d) \<and> fully_watched_by AllProbeFamilies k call \<and>
      watched_by (complete_families probes) k call \<and> \<not> fully_watched_by (complete_families probes) k call)"
  using degraded_iff [OF assms] by blast

definition every_probe :: "probe_info list" where
  "every_probe = map (\<lambda>d. \<lparr>piName = pdName d, piFamily = pdFamily d, piType = pdType d,
     piAttachPoint = pdAttachPoint d, piCapabilities = [], piLoaded = True,
     piAttached = (pdName d \<noteq> ProgFileOpen), piError = []\<rparr>) AllProbes"

lemma attached_by_name:
  "attached_in (map (\<lambda>d. \<lparr>piName = pdName d, piFamily = pdFamily d, piType = pdType d,
     piAttachPoint = pdAttachPoint d, piCapabilities = [], piLoaded = True,
     piAttached = P (pdName d), piError = []\<rparr>) ds) name \<longleftrightarrow> name \<in> pdName ` set ds \<and> P name"
proof -
  have "map_of (rev (map (\<lambda>d. (pdName d, P (pdName d))) ds)) name =
      (if name \<in> pdName ` set ds then Some (P name) else None)"
    by (induction ds) (auto simp: map_add_def split: option.splits)
  then show ?thesis by (simp add: attached_in_def comp_def)
qed

text \<open>Without the hook on \<open>security_file_open\<close>, reads through io_uring go unseen, and the report says so.\<close>

theorem lost_entry_points_are_named_witness:
  "\<exists>g\<in>set (DegradedEntryPoints (ComputeCoverage every_probe)).
     egKind g = KindFileRead \<and> ''io_uring'' \<in> set (egMissing g)"
proof -
  have table: "complete_families every_probe = filter (\<lambda>f. ''file_open'' \<notin> set (pfPrograms f)) AllProbeFamilies"
  proof -
    have "name \<in> pdName ` set AllProbes" if "f \<in> set AllProbeFamilies" "name \<in> set (pfPrograms f)" for f name
      using that by (auto simp: AllProbeFamilies_def family_of_def)
    then show ?thesis
      unfolding complete_families_def every_probe_def attached_by_name [where P = "\<lambda>n. n \<noteq> ProgFileOpen"]
      by (auto simp: program_names intro!: filter_cong)
  qed
  have "\<exists>f\<in>set (complete_families every_probe). KindFileRead \<in> set (pfCapabilities f)"
    by (simp add: table family_table file_families_def)
  then have obs: "KindFileRead \<in> set (cvObservable (ComputeCoverage every_probe))"
    by (auto simp: coverage_fields AllKinds_list)
  have "map_option descSyscalls (Describe KindFileRead) = Some [''open'', ''openat'', ''openat2'', ''creat'',
      ''open_by_handle_at'', ''io_uring'', ''read'', ''pread64'', ''readv'', ''preadv'', ''mmap'']"
    by (simp add: Describe_def kindIndex_column descriptors_def filesystem_descriptors_def)
  then obtain d where d: "Describe KindFileRead = Some d" "''io_uring'' \<in> set (descSyscalls d)"
    by auto
  have "watched_by AllProbeFamilies KindFileRead ''io_uring''"
    by (simp add: watched_by_def family_table file_families_def)
  moreover have "\<not> watched_by (complete_families every_probe) KindFileRead ''io_uring''"
    by (simp add: watched_by_def table family_table file_families_def priv_family_def)
  ultimately show ?thesis
    using lost_entry_points_are_named [OF obs d(1), of "''io_uring''"] d(2) by blast
qed

end
