(* ===== verification/PolicyLint.thy ===== *)
theory PolicyLint
  imports Policy GoStrings
begin

text \<open>
  Linting and loading of rule sets (\<open>internal/policy/lint.go\<close>, \<open>load.go\<close>): what is reported of a rule
  set before it runs, and what a file must be to become one. The conversions of the source from its
  string types to strings are the identity here. The YAML decoder is a parameter.
\<close>

section \<open>Issues\<close>

record policy_issue =
  piSeverity :: severity
  piRuleID :: string
  piMessage :: msg

definition impossible :: "string \<Rightarrow> msg \<Rightarrow> string \<Rightarrow> policy_issue" where
  "impossible rid what why =
     \<lparr>piSeverity = SeverityCritical, piRuleID = rid, piMessage = Fmt ''%s; %s'' [AMsg what, AStr why]\<rparr>"

definition policy_BlockingIssues :: "policy_issue list \<Rightarrow> policy_issue list" where
  "policy_BlockingIssues issues = filter (\<lambda>i. piSeverity i = SeverityCritical) issues"

definition knownDomain :: "domain \<Rightarrow> bool" where
  "knownDomain d = list_ex (\<lambda>known. known = d) AllDomains"

text \<open>From \<open>internal/validator/validator.go\<close>.\<close>

primrec violation_string :: "violation_type \<Rightarrow> string" where
  "violation_string ViolationUngrantedCapability = ''ungranted_capability''"
| "violation_string ViolationSelectorMismatch = ''selector_mismatch''"
| "violation_string ViolationExplicitDenial = ''explicit_denial''"
| "violation_string ViolationCountExceeded = ''count_exceeded''"
| "violation_string ViolationConstraintExceeded = ''constraint_exceeded''"
| "violation_string ViolationEnvelopeExpired = ''envelope_expired''"
| "violation_string ViolationWorkspaceEscape = ''workspace_escape''"
| "violation_string ViolationUnresolvable = ''unresolvable''"
| "violation_string (ViolationOther s) = s"

section \<open>One rule\<close>

text \<open>One loop of \<open>lintClosedSets\<close>: the values outside a closed set.\<close>

definition outside :: "string \<Rightarrow> ('a \<Rightarrow> bool) \<Rightarrow> ('a \<Rightarrow> msg) \<Rightarrow> string \<Rightarrow> 'a list \<Rightarrow> policy_issue list" where
  "outside rid known what why vs = concat (map (\<lambda>v. if known v then [] else [impossible rid (what v) why]) vs)"

definition lintClosedSets :: "string \<Rightarrow> condition \<Rightarrow> policy_issue list" where
  "lintClosedSets rid c =
     outside rid ValidVerdict
       (\<lambda>v. Fmt ''verdict %q is not one the validator produces (%s)''
          [AStr (verdict_string v), AStr (join_with '', '' (map verdict_string AllVerdicts))])
       ''the rule can never match, since every event carries one of the known verdicts'' (cVerdicts c) @
     outside rid Known
       (\<lambda>k. Fmt ''capability %q is not in the catalog'' [AStr (kind_string k)])
       ''no observation can carry it, so the rule can never match'' (cCapabilities c) @
     outside rid knownDomain
       (\<lambda>d. Fmt ''domain %q is not one of %s''
          [AStr (domain_string d), AStr (join_with '', '' (map domain_string AllDomains))])
       ''no capability resolves to it, so the rule can never match'' (cDomains c) @
     outside rid ValidViolationType
       (\<lambda>vt. Fmt ''violation type %q is not one the validator reports (%s)''
          [AStr (violation_string vt), AStr (join_with '', '' (map violation_string AllViolationTypes))])
       ''the rule can never match'' (cViolationTypes c) @
     outside rid ValidLevel
       (\<lambda>l. Fmt ''risk level %q is not one of %s''
          [AStr (level_string l), AStr (join_with '', '' (map level_string AllLevels))])
       ''the rule can never match'' (cRiskLevels c)"

definition lintRiskRange :: "string \<Rightarrow> condition \<Rightarrow> policy_issue list" where
  "lintRiskRange rid c =
     (case (cMinRiskScore c, cMaxRiskScore c) of
        (Some mn, Some mx) \<Rightarrow>
          (if float_geq mn mx then
             [impossible rid (Fmt ''min_risk_score %g is not below max_risk_score %g'' [AFloat mn, AFloat mx])
                ''the band is empty: a score must be at least the minimum and strictly below the maximum'']
           else [])
      | _ \<Rightarrow> []) @
     (case cMinRiskScore c of
        Some mn \<Rightarrow>
          (if float_less (Finite 100) mn then
             [impossible rid (Fmt ''min_risk_score %g is above the top of the scale'' [AFloat mn])
                ''risk scores are normalized to [0,100]'']
           else [])
      | None \<Rightarrow> []) @
     (case cMaxRiskScore c of
        Some mx \<Rightarrow>
          (if float_geq (Finite 0) mx then
             [impossible rid (Fmt ''max_risk_score %g leaves no score below it'' [AFloat mx])
                ''risk scores are normalized to [0,100] and the maximum is exclusive'']
           else [])
      | None \<Rightarrow> []) @
     (case cMinConfidence c of
        Some mn \<Rightarrow>
          (if float_less (Finite 1) mn then
             [impossible rid (Fmt ''min_confidence %g is above the top of the scale'' [AFloat mn])
                ''confidence is normalized to [0,1]'']
           else [])
      | None \<Rightarrow> [])"

text \<open>An unknown capability, or one inside a listed domain, ends the search without a finding.\<close>

fun all_elsewhere :: "domain list \<Rightarrow> kind list \<Rightarrow> bool" where
  "all_elsewhere domains [] = True"
| "all_elsewhere domains (k # ks) =
     (case DomainOf k of
        None \<Rightarrow> False
      | Some d \<Rightarrow> if list_ex (\<lambda>want. d = want) domains then False else all_elsewhere domains ks)"

definition lintCapabilityDomain :: "string \<Rightarrow> condition \<Rightarrow> policy_issue list" where
  "lintCapabilityDomain rid c =
     (if cCapabilities c = [] \<or> cDomains c = [] then []
      else if all_elsewhere (cDomains c) (cCapabilities c) then
        [impossible rid
           (Fmt ''no capability in %v belongs to any domain in %v''
              [AStrs (map kind_string (cCapabilities c)), AStrs (map domain_string (cDomains c))])
           ''the two conditions are ANDed, and the catalog places every listed capability elsewhere'']
      else [])"

definition lint_pattern :: "string \<Rightarrow> string \<Rightarrow> (string \<Rightarrow> go_error) \<Rightarrow> int \<times> string \<Rightarrow> policy_issue list" where
  "lint_pattern rid field validate ip =
     (case validate (snd ip) of
        None \<Rightarrow> []
      | Some err \<Rightarrow>
          [\<lparr>piSeverity = SeverityMedium, piRuleID = rid,
            piMessage = Fmt ''%s[%d] is unusable and matches nothing: %v'' [AStr field, AInt (fst ip), AMsg err]\<rparr>])"

definition policy_lintPatterns ::
  "string \<Rightarrow> string \<Rightarrow> string list \<Rightarrow> (string \<Rightarrow> go_error) \<Rightarrow> policy_issue list" where
  "policy_lintPatterns rid field patterns validate =
     (if patterns = [] then []
      else
        concat (map (lint_pattern rid field validate) (zip (map int [0..<length patterns]) patterns)) @
        (if length (filter (\<lambda>p. validate p \<noteq> None) patterns) = length patterns then
           [impossible rid (Fmt ''every pattern in %s is unusable'' [AStr field])
              ''the condition can never hold, so the rule can never match'']
         else []))"

definition lintRule :: "rule \<Rightarrow> policy_issue list" where
  "lintRule r =
     (if \<not> rEnabled r then []
      else
        lintClosedSets (rID r) (rMatch r) @ lintRiskRange (rID r) (rMatch r) @
        lintCapabilityDomain (rID r) (rMatch r) @
        policy_lintPatterns (rID r) ''path_patterns'' (cPathPatterns (rMatch r)) ValidatePattern @
        policy_lintPatterns (rID r) ''hosts'' (cHosts (rMatch r)) ValidateHostPattern)"

section \<open>The rule set\<close>

definition subsumeStrings :: "'a list \<Rightarrow> 'a list \<Rightarrow> bool" where
  "subsumeStrings a b = (if a = [] then True else if b = [] then False else list_all (contains a) b)"

definition modesSubsume :: "mode list \<Rightarrow> mode list \<Rightarrow> bool" where
  "modesSubsume a b =
     (if a = [] then True else if b = [] then False else list_all (\<lambda>m. list_ex (\<lambda>n. n = m) a) b)"

definition subsumeMin :: "float64 option \<Rightarrow> float64 option \<Rightarrow> bool" where
  "subsumeMin a b =
     (case a of None \<Rightarrow> True | Some x \<Rightarrow> (case b of None \<Rightarrow> False | Some y \<Rightarrow> float_geq y x))"

definition subsumeMax :: "float64 option \<Rightarrow> float64 option \<Rightarrow> bool" where
  "subsumeMax a b =
     (case a of None \<Rightarrow> True | Some x \<Rightarrow> (case b of None \<Rightarrow> False | Some y \<Rightarrow> float_geq x y))"

definition subsumes :: "rule \<Rightarrow> rule \<Rightarrow> bool" where
  "subsumes a b =
     (if \<not> modesSubsume (rModes a) (rModes b) then False
      else
        (let ac = rMatch a; bc = rMatch b in
         subsumeStrings (cVerdicts ac) (cVerdicts bc) \<and>
         subsumeStrings (cCapabilities ac) (cCapabilities bc) \<and>
         subsumeStrings (cDomains ac) (cDomains bc) \<and>
         subsumeStrings (cViolationTypes ac) (cViolationTypes bc) \<and>
         subsumeStrings (cRiskLevels ac) (cRiskLevels bc) \<and>
         subsumeStrings (cTaskTypes ac) (cTaskTypes bc) \<and>
         subsumeStrings (cPathPatterns ac) (cPathPatterns bc) \<and>
         subsumeStrings (cHosts ac) (cHosts bc) \<and>
         subsumeMin (cMinRiskScore ac) (cMinRiskScore bc) \<and>
         subsumeMax (cMaxRiskScore ac) (cMaxRiskScore bc) \<and>
         subsumeMin (cMinConfidence ac) (cMinConfidence bc)))"

text \<open>\<open>before\<close> are the rules evaluated before \<open>r\<close>.\<close>

definition lintReachability :: "rule list \<Rightarrow> rule \<Rightarrow> policy_issue list" where
  "lintReachability before r =
     (if \<not> rEnabled r then []
      else
        (case find (\<lambda>earlier. rEnabled earlier \<and> subsumes earlier r) before of
           None \<Rightarrow> []
         | Some earlier \<Rightarrow>
             (let differs = (rAction earlier \<noteq> rAction r);
                  detail =
                    (if differs then
                       Fmt ''it can never fire: every event it describes is already %s by the earlier rule, never %s''
                         [AStr (action_string (rAction earlier)), AStr (action_string (rAction r))]
                     else lit ''it can never fire, and its ID will never appear in an audit record'')
              in
              [\<lparr>piSeverity = (if differs then SeverityHigh else SeverityLow), piRuleID = rID r,
                piMessage = Fmt ''unreachable: rule %q (priority %d) matches everything this rule does; %s''
                  [AStr (rID earlier), AInt (rPriority earlier), AMsg detail]\<rparr>])))"

definition matchesEverything :: "condition \<Rightarrow> bool" where
  "matchesEverything c \<longleftrightarrow>
     cVerdicts c = [] \<and> cCapabilities c = [] \<and> cDomains c = [] \<and> cViolationTypes c = [] \<and>
     cRiskLevels c = [] \<and> cTaskTypes c = [] \<and> cPathPatterns c = [] \<and> cHosts c = [] \<and>
     cMinRiskScore c = None \<and> cMaxRiskScore c = None \<and> cMinConfidence c = None"

definition lintDefaultAction :: "rule_set \<Rightarrow> rule list \<Rightarrow> policy_issue list" where
  "lintDefaultAction rs ordered =
     (case find (\<lambda>r. rEnabled r \<and> rModes r = [] \<and> matchesEverything (rMatch r)) ordered of
        None \<Rightarrow> []
      | Some r \<Rightarrow>
          [\<lparr>piSeverity = SeverityMedium, piRuleID = rID r,
            piMessage = Fmt ''this rule has no conditions and matches every event, so default_action %q can never apply''
              [AStr (action_string (rsDefaultAction rs))]\<rparr>])"

fun lint_rules :: "rule list \<Rightarrow> rule list \<Rightarrow> policy_issue list" where
  "lint_rules before [] = []"
| "lint_rules before (r # rs) = lintRule r @ lintReachability before r @ lint_rules (before @ [r]) rs"

definition LintRuleSet :: "rule_set option \<Rightarrow> policy_issue list" where
  "LintRuleSet rs =
     (case rs of
        None \<Rightarrow> []
      | Some rs \<Rightarrow>
          (let ordered = evaluationOrder (rsRules rs) in lint_rules [] ordered @ lintDefaultAction rs ordered))"

definition RiskConditioned :: "rule \<Rightarrow> bool" where
  "RiskConditioned r \<longleftrightarrow>
     (let c = rMatch r in
      cMinRiskScore c \<noteq> None \<or> cMaxRiskScore c \<noteq> None \<or> cMinConfidence c \<noteq> None \<or> cRiskLevels c \<noteq> [])"

section \<open>Loading\<close>

text \<open>What the decoder answers on a stream: its end, an error, or a document.\<close>

datatype 'a document = EndOfFile | BadDocument msg | Document 'a

definition ErrNoRules :: msg where "ErrNoRules = lit ''policy: rule set file is empty''"

text \<open>The second reading of the file, for the presence of \<open>enabled\<close>: the identifier of every rule and the
  value it writes for it, if any.\<close>

fun explicit_enabled :: "string \<Rightarrow> nat \<Rightarrow> (string \<times> bool option) list \<Rightarrow> go_error" where
  "explicit_enabled source i [] = None"
| "explicit_enabled source i ((rid, on) # rs) =
     (if on \<noteq> None then explicit_enabled source (Suc i) rs
      else
        Some (Fmt ''policy: rule %q in %s does not set enabled; write it out, since an omitted enabled is a rule silently absent from the policy''
          [AStr (if rid = [] then ''#'' @ itoa (int i) else rid), AStr source]))"

definition requireExplicitEnabled :: "(string \<Rightarrow> msg + (string \<times> bool option) list) \<Rightarrow> string \<Rightarrow> string \<Rightarrow> go_error" where
  "requireExplicitEnabled probe data source =
     (case probe data of
        Inl err \<Rightarrow> Some (Fmt ''policy: re-reading rule set %s: %w'' [AStr source, AMsg err])
      | Inr rules \<Rightarrow> explicit_enabled source 0 rules)"

text \<open>\<open>decode\<close> reads the first document strictly, \<open>second\<close> what follows it.\<close>

definition parseRuleSet ::
  "(string \<Rightarrow> rule_set document) \<Rightarrow> (string \<Rightarrow> unit document) \<Rightarrow> (string \<Rightarrow> msg + (string \<times> bool option) list) \<Rightarrow>
     string \<Rightarrow> string \<Rightarrow> msg + rule_set" where
  "parseRuleSet decode second probe data source =
     (case decode data of
        EndOfFile \<Rightarrow> Inl (Fmt ''%w: %s'' [AMsg ErrNoRules, AStr source])
      | BadDocument err \<Rightarrow> Inl (Fmt ''policy: parse rule set %s: %w'' [AStr source, AMsg err])
      | Document rs \<Rightarrow>
          (case second data of
             BadDocument err \<Rightarrow> Inl (Fmt ''policy: parse rule set %s: %w'' [AStr source, AMsg err])
           | Document _ \<Rightarrow>
               Inl (Fmt ''policy: rule set %s contains more than one YAML document; only the first would be used'' [AStr source])
           | EndOfFile \<Rightarrow>
               (case requireExplicitEnabled probe data source of
                  Some err \<Rightarrow> Inl err
                | None \<Rightarrow>
                    (case compile (rsRules rs) (rsDefaultAction rs) of
                       Inl err \<Rightarrow> Inl (Fmt ''%w (in %s)'' [AMsg err, AStr source])
                     | Inr _ \<Rightarrow> Inr rs))))"

text \<open>\<open>read\<close> opens and reads a file: the error of either, or its bytes.\<close>

datatype read_error = OpenFailed msg | ReadFailed msg

definition Load ::
  "(string \<Rightarrow> read_error + string) \<Rightarrow> (string \<Rightarrow> rule_set document) \<Rightarrow> (string \<Rightarrow> unit document) \<Rightarrow>
     (string \<Rightarrow> msg + (string \<times> bool option) list) \<Rightarrow> string \<Rightarrow> msg + rule_set" where
  "Load read decode second probe path =
     (case read path of
        Inl (OpenFailed err) \<Rightarrow> Inl (Fmt ''policy: open rule set: %w'' [AMsg err])
      | Inl (ReadFailed err) \<Rightarrow> Inl (Fmt ''policy: read rule set %s: %w'' [AStr path, AMsg err])
      | Inr data \<Rightarrow> parseRuleSet decode second probe data path)"

definition ErrWatchUnsupported :: msg where
  "ErrWatchUnsupported =
     Fmt ''policy: this loader cannot watch a rule set for changes: %w'' [AMsg (lit ''unsupported operation'')]"

definition Watch :: "string \<Rightarrow> msg" where
  "Watch path = ErrWatchUnsupported"

end
