(* ===== verification/PolicyLintLaws.thy ===== *)
theory PolicyLintLaws
  imports PolicyLint
begin

text \<open>A finding of the linter is a proof about the engine, with one exception: a host pattern with a zone.\<close>

section \<open>Patterns the matcher cannot use\<close>

definition zoned :: "string \<Rightarrow> bool" where
  "zoned h \<longleftrightarrow> (\<exists>a. ParseAddr h = Some a \<and> addr_zone a \<noteq> [])"

definition blank_char :: "char \<Rightarrow> bool" where
  "blank_char c \<longleftrightarrow> c = CHR '' '' \<or> c = CHR 0x09 \<or> c = CHR 0x0D \<or> c = CHR 0x0A"

lemma blank_char_plain:
  "blank_char c \<Longrightarrow> \<not> is_digit c \<and> \<not> is_hex c \<and> \<not> is_label_byte c \<and> c \<noteq> CHR ''.'' \<and> c \<noteq> CHR '':'' \<and> c \<noteq> CHR ''*'' \<and> c \<noteq> CHR ''/''"
  by (auto simp: blank_char_def is_digit_def is_hex_def is_label_byte_def byte_range_def)

lemma set_split_byte: "c \<in> set s \<Longrightarrow> c = sep \<or> (\<exists>p\<in>set (split_byte sep s). c \<in> set p)"
proof (induction sep s rule: split_byte.induct)
  case (2 sep d s)
  then show ?case by (auto split: list.splits if_splits)
qed auto

lemma octet_digits: "octet s = Some n \<Longrightarrow> list_all is_digit s"
  by (auto simp: octet_def split: if_splits)

lemma octets4_chars: "octets4 s = Some bs \<Longrightarrow> c \<in> set s \<Longrightarrow> is_digit c \<or> c = CHR ''.''"
proof -
  assume "octets4 s = Some bs" "c \<in> set s"
  then obtain a b d e where p: "split_byte CHR ''.'' s = [a, b, d, e]" "octet a \<noteq> None" "octet b \<noteq> None" "octet d \<noteq> None" "octet e \<noteq> None"
    by (auto simp: octets4_def split: list.splits option.splits)
  then have "list_all is_digit a" "list_all is_digit b" "list_all is_digit d" "list_all is_digit e"
    using octet_digits by auto
  then show ?thesis using set_split_byte [OF \<open>c \<in> set s\<close>, of "CHR ''.''"] p(1) by (auto simp: list_all_iff)
qed

lemma ipv6_loop_chars:
  "ipv6_loop ip el s = Some (ip', el', rest) \<Longrightarrow> c \<in> set s \<Longrightarrow> is_hex c \<or> c = CHR ''.'' \<or> c = CHR '':'' \<or> c \<in> set rest"
proof (induction s arbitrary: ip el ip' el' rest rule: length_induct)
  case (1 s)
  let ?hex = "takeWhile is_hex s" and ?rest = "dropWhile is_hex s"
  let ?ip = "ip @ [hexs_val ?hex div 256, hexs_val ?hex mod 256]"
  have s: "s = ?hex @ ?rest" by simp
  have hex: "c \<in> set ?hex \<Longrightarrow> is_hex c" by (auto dest: set_takeWhileD)
  show ?case
  proof (cases "c \<in> set ?rest")
    case False
    then show ?thesis using "1.prems"(2) hex s by (metis Un_iff set_append)
  next
    case inrest: True
    show ?thesis
    proof (cases "length ip < 16")
      case False
      then show ?thesis using "1.prems" by (simp add: ipv6_loop.simps)
    next
      case short: True
      show ?thesis
      proof (cases "hd ?rest = CHR ''.''")
        case True
        have "?rest \<noteq> []" using inrest by (metis emptyE list.set(1))
        with True obtain bs where "octets4 s = Some bs"
          using "1.prems"(1) short inrest by (subst (asm) ipv6_loop.simps) (auto simp: Let_def split: if_splits)
        from octets4_chars [OF this "1.prems"(2)] show ?thesis by (auto simp: is_hex_def)
      next
        case False
        obtain d ds where r: "?rest = d # ds" using inrest by (cases ?rest) auto
        have step: "d = CHR '':'' \<and> ds \<noteq> [] \<and>
            (if hd ds = CHR '':'' then
               (if tl ds = [] then rest = [] else ipv6_loop ?ip (Some (length ?ip)) (tl ds) = Some (ip', el', rest))
             else ipv6_loop ?ip el ds = Some (ip', el', rest))"
          using "1.prems"(1) short False r
          by (subst (asm) ipv6_loop.simps) (auto simp: Let_def split: if_splits)
        have "length ?rest \<le> length s" by (simp add: length_dropWhile_le)
        then have shorter: "length ds < length s" "length (tl ds) < length s" using r by auto
        show ?thesis
        proof (cases "hd ds = CHR '':''")
          case True
          then have ds: "ds = CHR '':'' # tl ds" using step by (cases ds) auto
          show ?thesis
          proof (cases "tl ds = []")
            case False
            have "c \<in> set (tl ds) \<Longrightarrow> ?thesis"
              using "1.IH" [rule_format, OF shorter(2), of ?ip "Some (length ?ip)" ip' el' rest] step True False by simp
            then show ?thesis using inrest r step ds by (metis set_ConsD)
          qed (use inrest r step ds in \<open>metis empty_iff set_ConsD set_empty\<close>)
        next
          case False
          have "c \<in> set ds \<Longrightarrow> ?thesis"
            using "1.IH" [rule_format, OF shorter(1), of ?ip el ip' el' rest] step False by simp
          then show ?thesis using inrest r step by auto
        qed
      qed
    qed
  qed
qed

lemma ParseAddr_chars:
  assumes "ParseAddr s = Some a" "addr_zone a = []" "c \<in> set s"
  shows "is_hex c \<or> c = CHR ''.'' \<or> c = CHR '':''"
proof (cases a)
  case (V4 w)
  then have "parse_ipv4 s = Some a" using assms(1)
    by (auto simp: ParseAddr_def parse_ipv6_def Let_def split: option.splits if_splits)
  then obtain bs where "octets4 s = Some bs" by (auto simp: parse_ipv4_def)
  from octets4_chars [OF this assms(3)] show ?thesis by (auto simp: is_hex_def)
next
  case (V6 w z)
  then have p: "parse_ipv6 s = Some (V6 w [])" using assms(1,2)
    by (auto simp: ParseAddr_def parse_ipv4_def split: option.splits if_splits)
  have no: "index_byte CHR ''%'' s = None"
  proof (cases "index_byte CHR ''%'' s")
    case (Some i)
    then show ?thesis using p by (auto simp: parse_ipv6_def Let_def split: if_splits)
  qed simp
  show ?thesis
  proof (cases "s = ''::''")
    case False
    then obtain r where r: "(if prefix ''::'' s then ipv6_loop [] (Some 0) (drop 2 s) else ipv6_loop [] None s) = Some r"
      "ipv6_finish r \<noteq> None"
      using p no by (auto simp: parse_ipv6_def bind_eq_Some_conv)
    obtain ip el where rest: "r = (ip, el, [])" using r(2) by (cases r) (auto simp: ipv6_finish_def split: if_splits)
    show ?thesis
    proof (cases "prefix ''::'' s")
      case True
      then obtain t where s: "s = ''::'' @ t" by (auto simp: prefix_def)
      have "ipv6_loop [] (Some 0) t = Some (ip, el, [])" using r(1) rest True s by simp
      then have "c \<in> set t \<Longrightarrow> ?thesis" using ipv6_loop_chars [of "[]" "Some 0" t ip el "[]" c] by simp
      then show ?thesis using assms(3) s by auto
    next
      case False
      then have "ipv6_loop [] None s = Some (ip, el, [])" using r(1) rest by simp
      from ipv6_loop_chars [OF this assms(3)] show ?thesis by simp
    qed
  qed (use assms(3) in auto)
qed

lemma isValidName_chars: "isValidName s \<Longrightarrow> c \<in> set s \<Longrightarrow> is_label_byte c \<or> c = CHR ''.''"
proof -
  assume v: "isValidName s" and c: "c \<in> set s"
  have "list_all (list_all is_label_byte) (split_byte CHR ''.'' (trim_suffix s ''.''))"
    using v by (auto simp: isValidName_def valid_label_def Let_def list_all_iff split: if_splits)
  moreover have "c \<in> set (trim_suffix s ''.'') \<or> c = CHR ''.''"
    using c by (auto simp: trim_suffix_def suffix_def split: if_splits)
  ultimately show ?thesis using set_split_byte [of c "trim_suffix s ''.''" "CHR ''.''"] by (auto simp: list_all_iff)
qed

lemma atoi_chars: "atoi s = Some n \<Longrightarrow> c \<in> set s \<Longrightarrow> is_digit c \<or> c = CHR ''+'' \<or> c = CHR ''-''"
  by (cases s) (auto simp: atoi_def Let_def list_all_iff split: if_splits)

lemma MatchHost_valid:
  assumes "MatchHost h x" "\<not> zoned h"
  shows "ValidateHostPattern h = None"
proof -
  have k: "ClassifyHost h \<noteq> HostKindInvalid" using assms(1) by (auto simp: MatchHost_def)
  then have ne: "h \<noteq> []" by (auto simp: ClassifyHost_def)
  have chars: "is_hex c \<or> is_label_byte c \<or> c \<in> set ''.:*/+-'' \<or> is_digit c" if "c \<in> set h" for c
  proof (cases "ClassifyHost h")
    case HostKindIP
    then obtain a where a: "ParseAddr h = Some a" using ClassifyHost_IP_parse by blast
    then have "addr_zone a = []" using assms(2) by (auto simp: zoned_def)
    from ParseAddr_chars [OF a this that] show ?thesis by auto
  next
    case HostKindCIDR
    then obtain p where "ParsePrefix h = Some p" using ClassifyHost_CIDR_parse by blast
    then obtain i a n where i: "last_index_byte CHR ''/'' h = Some i" "ParseAddr (take i h) = Some a" "addr_zone a = []"
      "atoi (drop (i + 1) h) = Some n"
      by (auto simp: ParsePrefix_def Let_def split: option.splits if_splits)
    have "h = take i h @ h ! i # drop (Suc i) h" using last_index_byte_Some [OF i(1)] id_take_nth_drop by blast
    then have "c \<in> set (take i h) \<or> c = CHR ''/'' \<or> c \<in> set (drop (Suc i) h)"
      using that last_index_byte_Some [OF i(1)] by (metis Un_iff set_ConsD set_append)
    then show ?thesis using ParseAddr_chars [OF i(2,3)] atoi_chars [OF i(4)] by auto
  next
    case HostKindName
    then show ?thesis using ClassifyHost_Name isValidName_chars [of h c] that by auto
  next
    case HostKindWildcard
    then obtain d where "h = ''*.'' @ d" "isValidName d" using ClassifyHost_Wildcard by blast
    then show ?thesis using isValidName_chars [of d c] that by auto
  qed (use k in simp)
  have plain: "c \<in> set h \<Longrightarrow> \<not> blank_char c" for c
    using chars [of c] blank_char_plain [of c] by (auto simp: blank_char_def)
  have colon: "\<not> (CHR '':'' \<in> set h \<and> CHR ''/'' \<notin> set h \<and> ParseAddr h = None)"
  proof (cases "ClassifyHost h")
    case HostKindName
    then show ?thesis using ClassifyHost_Name isValidName_chars [of h "CHR '':''"]
      by (auto simp: is_label_byte_def byte_range_def)
  next
    case HostKindWildcard
    then obtain d where "h = ''*.'' @ d" "isValidName d" using ClassifyHost_Wildcard by blast
    then show ?thesis using isValidName_chars [of d "CHR '':''"] by (auto simp: is_label_byte_def byte_range_def)
  next
    case HostKindIP
    then show ?thesis using ClassifyHost_IP_parse by blast
  next
    case HostKindCIDR
    then show ?thesis by (auto simp: ClassifyHost_def split: if_splits option.splits)
  qed (use k in simp)
  have "\<not> list_ex (\<lambda>c. c = CHR '' '' \<or> c = CHR 0x09 \<or> c = CHR 0x0D \<or> c = CHR 0x0A) h"
    using plain by (auto simp: list_ex_iff blank_char_def)
  then show ?thesis using ne colon k assms(2)
    by (auto simp: ValidateHostPattern_def zoned_def Let_def split: host_kind.splits option.splits)
qed

section \<open>What the stages before produce\<close>

definition normalized :: "risk_assessment \<Rightarrow> bool" where
  "normalized r \<longleftrightarrow> ValidLevel (raLevel r) \<and>
     (\<exists>x. raScore r = Finite x \<and> 0 \<le> x \<and> x \<le> 100) \<and> (\<exists>y. raConfidence r = Finite y \<and> y \<le> 1)"

text \<open>The verdict and the violations are the validator's, the capability is in the catalog, an assessment is
  on the scale.\<close>

definition produced :: "evaluate_request \<Rightarrow> bool" where
  "produced req \<longleftrightarrow>
     (\<forall>val. rqValidation req = Some val \<longrightarrow>
        ValidVerdict (vrVerdict val) \<and> (\<forall>v\<in>set (vrViolations val). ValidViolationType (vType v))) \<and>
     (\<forall>k. eventKind req = Some k \<longrightarrow> Known k) \<and> (\<forall>r. rqRisk req = Some r \<longrightarrow> normalized r)"

section \<open>Critical findings\<close>

lemma outside_critical:
  "i \<in> set (outside rid known what why vs) \<Longrightarrow> piRuleID i = rid \<and> (\<exists>v\<in>set vs. \<not> known v)"
  by (auto simp: outside_def impossible_def split: if_splits)

text \<open>Within a closed list values are alternatives: a list is dead when none of them is known. Lists that mix known
  and unknown values are set apart.\<close>

definition unmixed :: "('a \<Rightarrow> bool) \<Rightarrow> 'a list \<Rightarrow> bool" where
  "unmixed known vs \<longleftrightarrow> list_all known vs \<or> list_all (\<lambda>v. \<not> known v) vs"

definition plain_condition :: "condition \<Rightarrow> bool" where
  "plain_condition c \<longleftrightarrow>
     unmixed ValidVerdict (cVerdicts c) \<and> unmixed Known (cCapabilities c) \<and> unmixed knownDomain (cDomains c) \<and>
     unmixed ValidViolationType (cViolationTypes c) \<and> unmixed ValidLevel (cRiskLevels c) \<and>
     list_all (\<lambda>h. \<not> zoned h) (cHosts c)"

lemma unmixed_dead: "unmixed known vs \<Longrightarrow> \<exists>v\<in>set vs. \<not> known v \<Longrightarrow> vs \<noteq> [] \<and> (\<forall>v\<in>set vs. \<not> known v)"
  by (auto simp: unmixed_def list_all_iff)

lemma set_domains_seen: "set (domains_seen seen ds) = descDomain ` set ds - set seen"
  by (induction seen ds rule: domains_seen.induct) auto

lemma DomainOf_knownDomain: "DomainOf k = Some d \<Longrightarrow> knownDomain d"
proof -
  have "kindIndex k = Some desc \<Longrightarrow> desc \<in> set descriptors" for desc
    by (simp add: kindIndex_Some)
  then show "DomainOf k = Some d \<Longrightarrow> knownDomain d"
    by (auto simp: DomainOf_def knownDomain_def AllDomains_def set_domains_seen list_ex_iff)
qed

lemma closed_sets_issue:
  assumes "i \<in> set (lintClosedSets rid c)"
  obtains "\<exists>v\<in>set (cVerdicts c). \<not> ValidVerdict v" | "\<exists>v\<in>set (cCapabilities c). \<not> Known v"
    | "\<exists>v\<in>set (cDomains c). \<not> knownDomain v" | "\<exists>v\<in>set (cViolationTypes c). \<not> ValidViolationType v"
    | "\<exists>v\<in>set (cRiskLevels c). \<not> ValidLevel v"
  using assms unfolding lintClosedSets_def set_append Un_iff
  by (elim disjE) (drule outside_critical, blast)+

lemma closed_sets_critical:
  assumes "i \<in> set (lintClosedSets rid c)" "plain_condition c" "produced req" "rqValidation req = Some val"
  shows "\<not> matches c req val"
proof
  assume m: "matches c req val"
  have fresh: "ValidVerdict (vrVerdict val)" "\<forall>v\<in>set (vrViolations val). ValidViolationType (vType v)"
    "\<And>k. eventKind req = Some k \<Longrightarrow> Known k" "\<And>r. rqRisk req = Some r \<Longrightarrow> ValidLevel (raLevel r)"
    using assms(3,4) by (auto simp: produced_def normalized_def)
  consider (v) "\<exists>v\<in>set (cVerdicts c). \<not> ValidVerdict v" | (k) "\<exists>v\<in>set (cCapabilities c). \<not> Known v"
    | (d) "\<exists>v\<in>set (cDomains c). \<not> knownDomain v" | (t) "\<exists>v\<in>set (cViolationTypes c). \<not> ValidViolationType v"
    | (l) "\<exists>v\<in>set (cRiskLevels c). \<not> ValidLevel v"
    by (rule closed_sets_issue [OF assms(1)])
  then show False
  proof cases
    case v
    then show ?thesis using unmixed_dead [OF _ v] assms(2) m fresh(1)
      by (auto simp: plain_condition_def matches_iff)
  next
    case k
    then show ?thesis using unmixed_dead [OF _ k] assms(2) m fresh(3)
      by (auto simp: plain_condition_def matches_iff kindMatches_iff)
  next
    case d
    then show ?thesis using unmixed_dead [OF _ d] assms(2) m DomainOf_knownDomain
      by (auto simp: plain_condition_def matches_iff kindMatches_iff)
  next
    case t
    then show ?thesis using unmixed_dead [OF _ t] assms(2) m fresh(2)
      by (auto simp: plain_condition_def matches_iff)
  next
    case l
    then show ?thesis using unmixed_dead [OF _ l] assms(2) m fresh(4)
      by (auto simp: plain_condition_def matches_iff riskMatches_iff)
  qed
qed

lemma risk_range_critical:
  assumes "i \<in> set (lintRiskRange rid c)" "produced req"
  shows "\<not> matches c req val"
proof
  assume m: "matches c req val"
  then have risk: "riskMatches c (rqRisk req)" by (simp add: matches_iff)
  have "cMinRiskScore c \<noteq> None \<or> cMaxRiskScore c \<noteq> None \<or> cMinConfidence c \<noteq> None"
    using assms(1) by (auto simp: lintRiskRange_def split: option.splits if_splits)
  then have "\<exists>r. rqRisk req = Some r \<and> (\<forall>m. cMinRiskScore c = Some m \<longrightarrow> \<not> float_less (raScore r) m) \<and>
      (\<forall>m. cMaxRiskScore c = Some m \<longrightarrow> \<not> float_geq (raScore r) m) \<and>
      (\<forall>m. cMinConfidence c = Some m \<longrightarrow> \<not> float_less (raConfidence r) m)"
    using risk by (auto simp: riskMatches_iff)
  then obtain r where r: "rqRisk req = Some r" "\<And>m. cMinRiskScore c = Some m \<Longrightarrow> \<not> float_less (raScore r) m"
    "\<And>m. cMaxRiskScore c = Some m \<Longrightarrow> \<not> float_geq (raScore r) m"
    "\<And>m. cMinConfidence c = Some m \<Longrightarrow> \<not> float_less (raConfidence r) m"
    by blast
  obtain x y where x: "raScore r = Finite x" "0 \<le> x" "x \<le> 100" "raConfidence r = Finite y" "y \<le> 1"
    using assms(2) r(1) by (auto simp: produced_def normalized_def)
  have band: "\<not> float_geq mn mx" if "cMinRiskScore c = Some mn" "cMaxRiskScore c = Some mx" for mn mx
    using r(2) [OF that(1)] r(3) [OF that(2)] x(1) by (cases mn; cases mx) (auto simp: float_geq_def)
  have top: "\<not> float_less (Finite 100) mn" if "cMinRiskScore c = Some mn" for mn
    using r(2) [OF that] x(1,3) by (cases mn) auto
  have bottom: "\<not> float_geq (Finite 0) mx" if "cMaxRiskScore c = Some mx" for mx
    using r(3) [OF that] x(1,2) by (cases mx) (auto simp: float_geq_def)
  have conf: "\<not> float_less (Finite 1) mn" if "cMinConfidence c = Some mn" for mn
    using r(4) [OF that] x(4,5) by (cases mn) auto
  show False using assms(1) band top bottom conf
    by (auto simp: lintRiskRange_def split: option.splits if_splits)
qed

lemma all_elsewhere_iff:
  "all_elsewhere ds ks \<longleftrightarrow> (\<forall>k\<in>set ks. \<exists>d. DomainOf k = Some d \<and> d \<notin> set ds)"
  by (induction ks) (auto simp: list_ex_iff split: option.splits)

lemma capability_domain_critical:
  assumes "i \<in> set (lintCapabilityDomain rid c)"
  shows "\<not> matches c req val"
  using assms by (auto simp: lintCapabilityDomain_def all_elsewhere_iff matches_iff kindMatches_iff split: if_splits)

lemma lint_pattern_issue:
  "i \<in> set (lint_pattern rid field validate ip) \<Longrightarrow> piRuleID i = rid \<and> piSeverity i = SeverityMedium"
  by (auto simp: lint_pattern_def split: option.splits)

lemma patterns_issue:
  assumes "i \<in> set (policy_lintPatterns rid field ps validate)"
  shows "piRuleID i = rid \<and>
    (piSeverity i = SeverityMedium \<or> piSeverity i = SeverityCritical \<and> ps \<noteq> [] \<and> (\<forall>p\<in>set ps. validate p \<noteq> None))"
proof -
  have ne: "ps \<noteq> []" using assms by (auto simp: policy_lintPatterns_def)
  consider (one) ip where "i \<in> set (lint_pattern rid field validate ip)"
    | (all) "length (filter (\<lambda>p. validate p \<noteq> None) ps) = length ps" "piRuleID i = rid" "piSeverity i = SeverityCritical"
    using assms ne by (auto simp: policy_lintPatterns_def impossible_def split: if_splits)
  then show ?thesis
  proof cases
    case one
    then show ?thesis using lint_pattern_issue by blast
  next
    case all
    have "\<forall>p\<in>set ps. validate p \<noteq> None"
    proof (rule ccontr)
      assume "\<not> (\<forall>p\<in>set ps. validate p \<noteq> None)"
      then obtain p where "p \<in> set ps" "\<not> validate p \<noteq> None" by blast
      from length_filter_less [where P = "\<lambda>p. validate p \<noteq> None", OF this] all(1) show False by simp
    qed
    then show ?thesis using all ne by simp
  qed
qed

lemma patterns_critical:
  assumes "piSeverity i = SeverityCritical" "plain_condition c"
    and "i \<in> set (policy_lintPatterns rid ''path_patterns'' (cPathPatterns c) ValidatePattern) \<or>
      i \<in> set (policy_lintPatterns rid ''hosts'' (cHosts c) ValidateHostPattern)"
  shows "\<not> matches c req val"
  using assms(3)
proof
  assume "i \<in> set (policy_lintPatterns rid ''path_patterns'' (cPathPatterns c) ValidatePattern)"
  from patterns_issue [OF this] assms(1) show ?thesis
    by (auto simp: matches_iff targetMatches_iff MatchPath_iff)
next
  assume "i \<in> set (policy_lintPatterns rid ''hosts'' (cHosts c) ValidateHostPattern)"
  from patterns_issue [OF this] assms(1) have p: "cHosts c \<noteq> []" "\<forall>p\<in>set (cHosts c). ValidateHostPattern p \<noteq> None" by auto
  moreover have "\<not> MatchHost h x" if "h \<in> set (cHosts c)" for h x
    using MatchHost_valid [of h x] p(2) that assms(2) by (auto simp: plain_condition_def list_all_iff)
  ultimately show ?thesis by (auto simp: matches_iff targetMatches_iff anyHostMatches_def)
qed

lemma lintRule_parts:
  assumes "i \<in> set (lintRule r)"
  shows "i \<in> set (lintClosedSets (rID r) (rMatch r)) \<or> i \<in> set (lintRiskRange (rID r) (rMatch r)) \<or>
    i \<in> set (lintCapabilityDomain (rID r) (rMatch r)) \<or>
    i \<in> set (policy_lintPatterns (rID r) ''path_patterns'' (cPathPatterns (rMatch r)) ValidatePattern) \<or>
    i \<in> set (policy_lintPatterns (rID r) ''hosts'' (cHosts (rMatch r)) ValidateHostPattern)"
  using assms unfolding lintRule_def by (cases "rEnabled r") simp_all

lemma lintRule_critical:
  assumes "i \<in> set (lintRule r)" "piSeverity i = SeverityCritical" "plain_condition (rMatch r)" "produced req"
    "rqValidation req = Some val"
  shows "\<not> applicable req val r"
proof -
  have "\<not> matches (rMatch r) req val"
    using lintRule_parts [OF assms(1)] closed_sets_critical [OF _ assms(3,4,5)] risk_range_critical [OF _ assms(4)]
      capability_domain_critical patterns_critical [OF assms(2,3)] by metis
  then show ?thesis by (simp add: applicable_def)
qed

lemma outside_id: "i \<in> set (outside rid known what why vs) \<Longrightarrow> piRuleID i = rid \<and> piSeverity i = SeverityCritical"
  by (auto simp: outside_def impossible_def split: if_splits)

lemma lintRule_id:
  assumes "i \<in> set (lintRule r)"
  shows "piRuleID i = rID r \<and> piSeverity i \<in> {SeverityCritical, SeverityMedium}"
proof -
  have "i \<in> set (lintClosedSets (rID r) (rMatch r)) \<Longrightarrow> ?thesis"
    unfolding lintClosedSets_def set_append Un_iff by (elim disjE) (drule outside_id, simp)+
  moreover have "i \<in> set (lintRiskRange (rID r) (rMatch r)) \<Longrightarrow> ?thesis"
    by (auto simp: lintRiskRange_def impossible_def split: option.splits if_splits)
  moreover have "i \<in> set (lintCapabilityDomain (rID r) (rMatch r)) \<Longrightarrow> ?thesis"
    by (auto simp: lintCapabilityDomain_def impossible_def split: if_splits)
  ultimately show ?thesis using lintRule_parts [OF assms] patterns_issue by blast
qed

section \<open>Rules that are never reached\<close>

lemma subsumeStrings_wider: "subsumeStrings a b \<Longrightarrow> wider_field a b"
  by (auto simp: subsumeStrings_def wider_field_def list_all_iff split: if_splits)

lemma subsumeMin_lower: "subsumeMin a b \<Longrightarrow> lower_bound a b"
  by (auto simp: subsumeMin_def lower_bound_def float_geq_def split: option.splits)

lemma subsumeMax_higher: "subsumeMax a b \<Longrightarrow> higher_bound a b"
  by (auto simp: subsumeMax_def higher_bound_def float_geq_def split: option.splits)

lemma subsumes_wider: "subsumes a b \<Longrightarrow> wider (rMatch a) (rMatch b)"
  by (simp add: subsumes_def wider_def Let_def subsumeStrings_wider subsumeMin_lower subsumeMax_higher split: if_splits)

lemma subsumes_applicable:
  assumes "subsumes a b" "rEnabled a" "applicable req val b"
  shows "applicable req val a"
proof -
  have "modeApplies a (rqMode req)" using assms(1,3)
    by (auto simp: subsumes_def modesSubsume_def applicable_def modeApplies_def list_ex_iff list_all_iff split: if_splits)
  then show ?thesis using assms(2,3) matches_wider [OF subsumes_wider [OF assms(1)]]
    by (simp add: applicable_def)
qed

lemma lintReachability_issue:
  assumes "i \<in> set (lintReachability before r)"
  shows "piRuleID i = rID r \<and> piSeverity i \<in> {SeverityLow, SeverityHigh} \<and>
    (\<exists>a\<in>set before. rEnabled a \<and> subsumes a r)"
proof (cases "find (\<lambda>earlier. rEnabled earlier \<and> subsumes earlier r) before")
  case None
  then show ?thesis using assms by (simp add: lintReachability_def split: if_splits)
next
  case (Some a)
  then show ?thesis using assms find_SomeD [OF Some]
    by (cases "rAction a = rAction r") (auto simp: lintReachability_def Let_def split: if_splits)
qed

text \<open>Where a finding comes from.\<close>

lemma lint_rules_issue:
  assumes "i \<in> set (lint_rules before rs)"
  obtains (rule) r where "r \<in> set rs" "i \<in> set (lintRule r)"
  | (reach) us r vs where "rs = us @ r # vs" "i \<in> set (lintReachability (before @ us) r)"
  using assms
proof (induction before rs arbitrary: thesis rule: lint_rules.induct)
  case (2 before r rs)
  then consider "i \<in> set (lintRule r)" | "i \<in> set (lintReachability before r)"
    | "i \<in> set (lint_rules (before @ [r]) rs)" by auto
  then show ?case
  proof cases
    case 1
    then show ?thesis using "2.prems"(1) by auto
  next
    case 2
    then show ?thesis using "2.prems"(2) [of "[]" r rs] by simp
  next
    case 3
    show ?thesis
    proof (rule "2.IH" [OF _ _ 3])
      fix us q vs
      assume "rs = us @ q # vs" "i \<in> set (lintReachability ((before @ [r]) @ us) q)"
      then show thesis using "2.prems"(2) [of "r # us" q vs] by simp
    qed (use "2.prems"(1) in auto)
  qed
qed simp

lemma find_append_found: "find P us = Some q \<Longrightarrow> find P (us @ vs) = Some q"
  by (induction us) (auto split: if_splits)

lemma unreached:
  assumes "a \<in> set us" "rEnabled a" "subsumes a r" "r \<notin> set us"
  shows "find (applicable req val) (us @ r # vs) \<noteq> Some r"
proof
  assume f: "find (applicable req val) (us @ r # vs) = Some r"
  then have "applicable req val r" by (metis find_SomeD(1))
  then have "applicable req val a" by (rule subsumes_applicable [OF assms(3,2)])
  then have "find (applicable req val) us \<noteq> None" using assms(1) by (auto simp: find_None_iff)
  then obtain q where "find (applicable req val) us = Some q" by auto
  then have "find (applicable req val) (us @ r # vs) = Some q" "q \<in> set us"
    using find_append_found find_SomeD by metis+
  then show False using f assms(4) by simp
qed

section \<open>Loading\<close>

lemma explicit_enabled_iff: "explicit_enabled source i rs = None \<longleftrightarrow> list_all (\<lambda>(_, on). on \<noteq> None) rs"
  by (induction source i rs rule: explicit_enabled.induct) auto

text \<open>What loads runs: the engine accepts it, the file held nothing else, and every rule says whether it is enabled.\<close>

theorem loaded_rule_sets_run:
  assumes "Load read decode second probe path = Inr rs"
  shows "\<exists>e data rules. NewEngine (Some rs) = Inr e \<and> read path = Inr data \<and> decode data = Document rs \<and>
    second data = EndOfFile \<and> probe data = Inr rules \<and> list_all (\<lambda>(_, on). on \<noteq> None) rules"
  using assms
  by (auto simp: Load_def parseRuleSet_def requireExplicitEnabled_def NewEngine_def explicit_enabled_iff
      split: sum.splits read_error.splits document.splits option.splits)

section \<open>Findings\<close>

lemma LintRuleSet_issue:
  assumes "i \<in> set (LintRuleSet (Some rs))"
  obtains (rule) r where "r \<in> set (rsRules rs)" "i \<in> set (lintRule r)"
  | (reach) us r vs where "evaluationOrder (rsRules rs) = us @ r # vs" "i \<in> set (lintReachability us r)"
  | (default) "i \<in> set (lintDefaultAction rs (evaluationOrder (rsRules rs)))"
proof -
  consider "i \<in> set (lint_rules [] (evaluationOrder (rsRules rs)))"
    | "i \<in> set (lintDefaultAction rs (evaluationOrder (rsRules rs)))"
    using assms by (auto simp: LintRuleSet_def Let_def)
  then show ?thesis
  proof cases
    case 1
    then show ?thesis
      by (cases rule: lint_rules_issue) (use rule reach in \<open>simp_all\<close>)
  qed (rule default)
qed

lemma lintDefaultAction_severity: "i \<in> set (lintDefaultAction rs ordered) \<Longrightarrow> piSeverity i = SeverityMedium"
  by (auto simp: lintDefaultAction_def split: option.splits)

lemma matchesEverything_matches: "matchesEverything c \<Longrightarrow> matches c req val"
  by (simp add: matchesEverything_def matches_iff kindMatches_iff riskMatches_iff)

lemma Evaluate_found:
  assumes "NewEngine (Some rs) = Inr e" "Evaluate e req = Inr out"
  obtains val where "rqValidation req = Some val"
    "(find (applicable req val) (evaluationOrder (rsRules rs)) = None \<and> ocRuleID out = DefaultRuleID) \<or>
     (\<exists>r. find (applicable req val) (evaluationOrder (rsRules rs)) = Some r \<and> ocRuleID out = rID r)"
proof -
  obtain val where v: "rqValidation req = Some val"
    using assms(2) by (cases "rqValidation req") (simp_all add: Evaluate_def)
  have "out = (case find (applicable req val) (evaluationOrder (rsRules rs)) of
      Some r \<Rightarrow> rule_outcome r req val | None \<Rightarrow> default_outcome e req val)"
    using assms v by (auto simp: NewEngine_def compile_Inr Evaluate_def evaluate_rules_find)
  then show ?thesis using that [OF v]
    by (cases "find (applicable req val) (evaluationOrder (rsRules rs))")
      (simp_all add: default_outcome_def rule_outcome_def)
qed

lemma displaced_default:
  assumes "i \<in> set (lintDefaultAction rs ordered)"
  shows "find (applicable req val) ordered \<noteq> None"
proof -
  obtain r where "find (\<lambda>r. rEnabled r \<and> rModes r = [] \<and> matchesEverything (rMatch r)) ordered = Some r"
    using assms by (cases "find (\<lambda>r. rEnabled r \<and> rModes r = [] \<and> matchesEverything (rMatch r)) ordered")
      (auto simp: lintDefaultAction_def)
  from find_SomeD [OF this] have "r \<in> set ordered" "applicable req val r"
    by (simp_all add: applicable_def modeApplies_def matchesEverything_matches)
  then show ?thesis by (auto simp: find_None_iff)
qed

text \<open>C39: a finding of the rule linter is a proof. For a rule set the engine accepts, a rule reported unreachable never
  decides any request, and a rule under a critical finding never decides one whose verdict, violations,
  capability and assessment are of the kinds the stages before produce, provided the rule set does not
  mix known and unknown values in one list and names no host with a zone, and the rule is not named
  \<open>default\<close>, which is what an outcome without a rule is named. Once a rule is reported to
  displace the default action, some rule decides every request.\<close>

theorem lint_findings_are_proofs:
  assumes "NewEngine (Some rs) = Inr e" and "Evaluate e req = Inr out"
    and "i \<in> set (LintRuleSet (Some rs))" and "piRuleID i \<noteq> DefaultRuleID"
  shows "(piSeverity i \<in> {SeverityLow, SeverityHigh} \<longrightarrow> ocRuleID out \<noteq> piRuleID i) \<and>
    (piSeverity i = SeverityCritical \<and> produced req \<and> (\<forall>r\<in>set (rsRules rs). plain_condition (rMatch r)) \<longrightarrow>
       ocRuleID out \<noteq> piRuleID i) \<and>
    (i \<in> set (lintDefaultAction rs (evaluationOrder (rsRules rs))) \<longrightarrow>
       (\<exists>r\<in>set (rsRules rs). rEnabled r \<and> ocRuleID out = rID r))"
proof -
  obtain val where val: "rqValidation req = Some val"
    "(find (applicable req val) (evaluationOrder (rsRules rs)) = None \<and> ocRuleID out = DefaultRuleID) \<or>
     (\<exists>r. find (applicable req val) (evaluationOrder (rsRules rs)) = Some r \<and> ocRuleID out = rID r)"
    by (rule Evaluate_found [OF assms(1,2)])
  have ok: "rules_ok (rsRules rs)" using assms(1) by (simp add: NewEngine_def compile_Inr)
  have fired: "\<exists>r. r \<in> set (rsRules rs) \<and> rID r = piRuleID i \<and> applicable req val r \<and>
      find (applicable req val) (evaluationOrder (rsRules rs)) = Some r" if "ocRuleID out = piRuleID i"
    using val(2) that assms(4) find_SomeD [of "applicable req val" "evaluationOrder (rsRules rs)"] by auto
  have distinct: "distinct (evaluationOrder (rsRules rs))"
    using ok rules_ok_evaluationOrder [of "rsRules rs"] distinct_map by (auto simp: rules_ok_def)
  have displaced: "\<exists>r\<in>set (rsRules rs). rEnabled r \<and> ocRuleID out = rID r"
    if "i \<in> set (lintDefaultAction rs (evaluationOrder (rsRules rs)))"
    using displaced_default [OF that, of req val] val(2) find_SomeD [of "applicable req val" "evaluationOrder (rsRules rs)"]
    by (auto simp: applicable_def)
  show ?thesis using assms(3)
  proof (cases rule: LintRuleSet_issue)
    case (rule r)
    note about = lintRule_id [OF rule(2)]
    have "ocRuleID out \<noteq> piRuleID i" if "piSeverity i = SeverityCritical" "produced req"
      "\<forall>r\<in>set (rsRules rs). plain_condition (rMatch r)"
    proof
      assume "ocRuleID out = piRuleID i"
      from fired [OF this] obtain q where q: "q \<in> set (rsRules rs)" "rID q = piRuleID i" "applicable req val q" by blast
      then have "q = r" using rules_ok_unique [OF ok] rule(1) about by metis
      then show False using lintRule_critical [OF rule(2) that(1) _ that(2) val(1)] that(3) rule(1) q(3) by blast
    qed
    then show ?thesis using about displaced by auto
  next
    case (reach us r vs)
    note about = lintReachability_issue [OF reach(2)]
    have "ocRuleID out \<noteq> piRuleID i"
    proof
      assume "ocRuleID out = piRuleID i"
      from fired [OF this] obtain q where q: "q \<in> set (rsRules rs)" "rID q = piRuleID i"
        "find (applicable req val) (evaluationOrder (rsRules rs)) = Some q" by blast
      have "r \<in> set (rsRules rs)" using reach(1) by (metis in_set_conv_decomp set_evaluationOrder)
      then have "q = r" using rules_ok_unique [OF ok] q(1,2) about by metis
      moreover have "r \<notin> set us" using distinct reach(1) by auto
      ultimately show False using about unreached [of _ us r req val vs] q(3) reach(1) by metis
    qed
    then show ?thesis using displaced by blast
  next
    case default
    then show ?thesis using displaced lintDefaultAction_severity by fastforce
  qed
qed

text \<open>A rule that blocks, under a given condition, and the set that holds just it.\<close>

definition one_rule :: "condition \<Rightarrow> rule_set" where
  "one_rule c = \<lparr>rsName = [], rsVersion = [], rsDescription = [], rsDefaultAction = ActionAllow,
     rsRules = [(plain_rule ''r'' 1 ActionBlock)\<lparr>rMatch := c\<rparr>]\<rparr>"

lemma one_rule_engine: "NewEngine (Some (one_rule c)) = Inr \<lparr>activeRules = rsRules (one_rule c), activeDefault = ActionAllow\<rparr>"
proof -
  have "\<not> is_blank ''r''" by code_simp
  then show ?thesis
    by (simp add: NewEngine_def compile_Inr one_rule_def plain_rule_def rules_ok_def validateRule_def evaluationOrder_def)
qed

lemma one_rule_fires:
  assumes "rqValidation req = Some val" "matches c req val"
  obtains out where "Evaluate \<lparr>activeRules = rsRules (one_rule c), activeDefault = ActionAllow\<rparr> req = Inr out"
    "ocRuleID out = ''r''" "ocAction out = ActionBlock"
  using assms that by (auto simp: Evaluate_def one_rule_def plain_rule_def modeApplies_def rule_outcome_def)

lemma one_rule_issue: "i \<in> set (lintClosedSets ''r'' c) \<union> set (policy_lintPatterns ''r'' ''hosts'' (cHosts c) ValidateHostPattern)
    \<Longrightarrow> i \<in> set (LintRuleSet (Some (one_rule c)))"
  by (auto simp: LintRuleSet_def Let_def one_rule_def plain_rule_def evaluationOrder_def lintRule_def)

lemma outside_issue:
  "v \<in> set vs \<Longrightarrow> \<not> known v \<Longrightarrow>
     \<exists>i\<in>set (outside rid known what why vs). piSeverity i = SeverityCritical \<and> piRuleID i = rid"
  by (auto simp: outside_def impossible_def)

lemma closed_verdict_issue:
  "v \<in> set (cVerdicts c) \<Longrightarrow> \<not> ValidVerdict v \<Longrightarrow>
     \<exists>i\<in>set (lintClosedSets rid c). piSeverity i = SeverityCritical \<and> piRuleID i = rid"
  unfolding lintClosedSets_def set_append
  by (drule outside_issue [of v "cVerdicts c" ValidVerdict rid], assumption) blast

text \<open>A rule set of one rule that the linter blocks and that decides a request of the kind the stages before produce.\<close>

definition condemned_and_fires :: "condition \<Rightarrow> evaluate_request \<Rightarrow> bool" where
  "condemned_and_fires c req \<longleftrightarrow>
     (\<exists>e out i. NewEngine (Some (one_rule c)) = Inr e \<and> produced req \<and> Evaluate e req = Inr out \<and>
        i \<in> set (policy_BlockingIssues (LintRuleSet (Some (one_rule c)))) \<and> piRuleID i = ocRuleID out \<and>
        ocAction out = ActionBlock)"

lemma condemned_and_firesI:
  assumes "rqValidation req = Some val" "matches c req val" "produced req" "piSeverity i = SeverityCritical" "piRuleID i = ''r''"
    and "i \<in> set (lintClosedSets ''r'' c) \<union> set (policy_lintPatterns ''r'' ''hosts'' (cHosts c) ValidateHostPattern)"
  shows "condemned_and_fires c req"
proof -
  obtain out where "Evaluate \<lparr>activeRules = rsRules (one_rule c), activeDefault = ActionAllow\<rparr> req = Inr out"
    "ocRuleID out = ''r''" "ocAction out = ActionBlock" by (rule one_rule_fires [OF assms(1,2)])
  then show ?thesis unfolding condemned_and_fires_def one_rule_engine
    using assms(3-5) one_rule_issue [OF assms(6)]
    by (intro exI [of _ out] exI [of _ i] exI) (auto simp: policy_BlockingIssues_def)
qed

definition request_of :: "event option \<Rightarrow> evaluate_request" where
  "request_of e = \<lparr>rqEvent = e, rqValidation = Some (empty_result\<lparr>vrVerdict := VerdictOutsideEnvelope\<rparr>),
     rqRisk = None, rqEnvelope = None, rqMode = ModeEnforce\<rparr>"

definition link_local :: event where
  "link_local = zero_event\<lparr>evCapability := KindNetConnect, evDomain := DomainNetwork,
     evNetwork := Some (zero_network\<lparr>npProtocol := ''tcp'', DestAddr := ''fe80::1'', DestPort := 443\<rparr>)\<rparr>"

lemma zone_is_stripped:
  "MatchHost ''fe80::1%eth0'' ''fe80::1''" "ValidateHostPattern ''fe80::1%eth0'' \<noteq> None"
proof -
  have "Option.bind (ipv6_loop [] None ''fe80::1'') ipv6_finish \<noteq> None"
    by (simp add: ipv6_loop.simps Let_def is_hex_def is_digit_def ipv6_finish_def)
  then obtain bs where bs: "Option.bind (ipv6_loop [] None ''fe80::1'') ipv6_finish = Some bs" by blast
  let ?special = "\<lambda>c. c = CHR ''.'' \<or> c = CHR '':'' \<or> c = CHR ''%''"
  have special: "find ?special ''fe80::1%eth0'' = Some (CHR '':'')" "find ?special ''fe80::1'' = Some (CHR '':'')"
    by code_simp+
  have pct: "index_byte CHR ''%'' ''fe80::1%eth0'' = Some 7" "index_byte CHR ''%'' ''fe80::1'' = None" by code_simp+
  have cutoff: "take 7 ''fe80::1%eth0'' = ''fe80::1''" "drop (7 + 1) ''fe80::1%eth0'' = ''eth0''"
    "prefix ''::'' ''fe80::1'' = False" by code_simp+
  have parse: "ParseAddr ''fe80::1%eth0'' = Some (V6 (word_of_bytes bs) ''eth0'')"
    "ParseAddr ''fe80::1'' = Some (V6 (word_of_bytes bs) [])"
    using bs special pct cutoff by (simp_all add: ParseAddr_def parse_ipv6_def del: index_byte.simps find.simps take_Suc_Cons)
  then have kinds: "ClassifyHost ''fe80::1%eth0'' = HostKindIP" "ClassifyHost ''fe80::1'' = HostKindIP"
    by (simp_all add: ClassifyHost_def)
  show "MatchHost ''fe80::1%eth0'' ''fe80::1''" by (simp add: MatchHost_def kinds parseAddr_def parse)
  show "ValidateHostPattern ''fe80::1%eth0'' \<noteq> None" by (simp add: ValidateHostPattern_def kinds parse)
qed

theorem lint_findings_are_proofs_witness:
  "\<exists>e out. NewEngine (Some (one_rule (any_condition\<lparr>cMinRiskScore := Some (Finite 101)\<rparr>))) = Inr e \<and>
     Evaluate e (request_of None) = Inr out \<and> ocRuleID out \<noteq> ''r''"
proof -
  let ?c = "any_condition\<lparr>cMinRiskScore := Some (Finite 101)\<rparr>"
  let ?i = "impossible ''r'' (Fmt ''min_risk_score %g is above the top of the scale'' [AFloat (Finite 101)])
              ''risk scores are normalized to [0,100]''"
  obtain out where out: "Evaluate \<lparr>activeRules = rsRules (one_rule ?c), activeDefault = ActionAllow\<rparr> (request_of None) = Inr out"
    by (simp add: Evaluate_def request_of_def)
  have "?i \<in> set (lintRiskRange ''r'' ?c)" by (simp add: lintRiskRange_def any_condition_def)
  then have i: "?i \<in> set (LintRuleSet (Some (one_rule ?c)))"
    by (auto simp: LintRuleSet_def Let_def one_rule_def plain_rule_def evaluationOrder_def lintRule_def)
  have sev: "piSeverity ?i = SeverityCritical" "piRuleID ?i = ''r''" "''r'' \<noteq> DefaultRuleID"
    by (simp_all add: impossible_def DefaultRuleID_def)
  have "produced (request_of None)"
    by (simp add: produced_def request_of_def eventKind_def ValidVerdict_def AllVerdicts_def empty_result_def)
  moreover have "\<forall>r\<in>set (rsRules (one_rule ?c)). plain_condition (rMatch r)"
    by (simp add: one_rule_def plain_condition_def unmixed_def any_condition_def)
  ultimately have "ocRuleID out \<noteq> ''r''"
    using lint_findings_are_proofs [OF one_rule_engine out i] sev by simp
  then show ?thesis using one_rule_engine out by blast
qed

text \<open>C40: the rule linter condemns rules that work. A rule for verdicts with one unknown name beside a known one still
  matches on the known one, as values of a list are alternatives, but is reported as one that can never
  match; so is a rule for a link-local address written with its zone, which the host matcher strips. Both
  findings are blocking, and both rules block a request the earlier stages can produce.\<close>

theorem working_rules_are_condemned:
  "condemned_and_fires (any_condition\<lparr>cVerdicts := [VerdictOutsideEnvelope, VerdictOther ''denied'']\<rparr>) (request_of None) \<and>
   condemned_and_fires (any_condition\<lparr>cHosts := [''fe80::1%eth0'']\<rparr>) (request_of (Some link_local))"
proof
  let ?c = "any_condition\<lparr>cVerdicts := [VerdictOutsideEnvelope, VerdictOther ''denied'']\<rparr>"
  have "VerdictOther ''denied'' \<in> set (cVerdicts ?c)" "\<not> ValidVerdict (VerdictOther ''denied'')"
    by (simp_all add: ValidVerdict_def AllVerdicts_def)
  then obtain i where i: "i \<in> set (lintClosedSets ''r'' ?c)" "piSeverity i = SeverityCritical" "piRuleID i = ''r''"
    using closed_verdict_issue by blast
  show "condemned_and_fires ?c (request_of None)"
  proof (rule condemned_and_firesI)
    show "rqValidation (request_of None) = Some (empty_result\<lparr>vrVerdict := VerdictOutsideEnvelope\<rparr>)"
      by (simp add: request_of_def)
    show "matches ?c (request_of None) (empty_result\<lparr>vrVerdict := VerdictOutsideEnvelope\<rparr>)"
      by (simp add: matches_iff kindMatches_iff riskMatches_iff any_condition_def)
    show "produced (request_of None)"
      by (simp add: produced_def request_of_def eventKind_def ValidVerdict_def AllVerdicts_def empty_result_def)
    show "piSeverity i = SeverityCritical" "piRuleID i = ''r''" by (fact i)+
    show "i \<in> set (lintClosedSets ''r'' ?c) \<union> set (policy_lintPatterns ''r'' ''hosts'' (cHosts ?c) ValidateHostPattern)"
      using i(1) by blast
  qed
next
  let ?c = "any_condition\<lparr>cHosts := [''fe80::1%eth0'']\<rparr>"
  let ?val = "empty_result\<lparr>vrVerdict := VerdictOutsideEnvelope\<rparr>"
  have port: "itoa 443 = ''443''" by code_simp
  obtain obs where obs: "ObservationOf (Some link_local) = Inr obs" "obsTarget obs = ''[fe80::1]:443''"
    by (simp add: ObservationOf_def Observe_def observeNetwork_def link_local_def zero_event_def zero_observation_def
        zero_network_def DomainOf_rows Let_def JoinHostPort_def port)
  have target: "hostOf ''[fe80::1]:443'' = ''fe80::1''"
    using SplitHostPort_JoinHostPort [of "''fe80::1''" "''443''"] by (simp add: hostOf_def JoinHostPort_def)
  note host = zone_is_stripped
  show "condemned_and_fires ?c (request_of (Some link_local))"
  proof (rule condemned_and_firesI)
    show "rqValidation (request_of (Some link_local)) = Some ?val" by (simp add: request_of_def)
    show "matches ?c (request_of (Some link_local)) ?val"
      using obs host(1) by (simp add: matches_iff kindMatches_iff riskMatches_iff targetMatches_iff any_condition_def
          request_of_def anyHostMatches_def target)
    show "produced (request_of (Some link_local))"
      by (simp add: produced_def request_of_def eventKind_def link_local_def ValidVerdict_def AllVerdicts_def
          empty_result_def Known_iff_AllKinds AllKinds_list)
    let ?i = "impossible ''r'' (Fmt ''every pattern in %s is unusable'' [AStr ''hosts''])
              ''the condition can never hold, so the rule can never match''"
    show "piSeverity ?i = SeverityCritical" "piRuleID ?i = ''r''" by (simp_all add: impossible_def)
    show "?i \<in> set (lintClosedSets ''r'' ?c) \<union> set (policy_lintPatterns ''r'' ''hosts'' (cHosts ?c) ValidateHostPattern)"
      using host(2) by (auto simp: policy_lintPatterns_def any_condition_def)
  qed
qed

end
