(* ===== verification/Abi.thy ===== *)
theory Abi
  imports Probes GoNet
begin

text \<open>
  The record a probe submits, byte for byte (\<open>internal/telemetry/abi\<close>): bounds, enumerations, sizes
  and offsets, and the functions that read a record and the member of its union. Byte order is the
  host's, which is little-endian on both targets the layout is generated for.
\<close>

unbundle bit_operations_syntax

section \<open>Bytes\<close>

text \<open>Go's \<open>b[lo:hi]\<close>, reading and writing an unsigned integer, and \<open>copy(raw[off:], s)\<close>.\<close>

definition slice :: "nat \<Rightarrow> nat \<Rightarrow> string \<Rightarrow> string" where
  "slice lo hi b = take (hi - lo) (drop lo b)"

fun le_word :: "string \<Rightarrow> 'a :: len word" where
  "le_word [] = 0"
| "le_word (c # cs) = of_nat (of_char c) OR push_bit 8 (le_word cs)"

fun le_bytes :: "nat \<Rightarrow> 'a :: len word \<Rightarrow> string" where
  "le_bytes 0 w = []"
| "le_bytes (Suc n) w = char_of (unat w) # le_bytes n (drop_bit 8 w)"

definition Uint16 :: "string \<Rightarrow> nat \<Rightarrow> 16 word" where "Uint16 b off = le_word (slice off (off + 2) b)"
definition Uint32 :: "string \<Rightarrow> nat \<Rightarrow> 32 word" where "Uint32 b off = le_word (slice off (off + 4) b)"
definition Uint64 :: "string \<Rightarrow> nat \<Rightarrow> 64 word" where "Uint64 b off = le_word (slice off (off + 8) b)"

definition write_at :: "string \<Rightarrow> nat \<Rightarrow> string \<Rightarrow> string" where
  "write_at raw off s = take off raw @ take (length raw - off) s @ drop (off + length s) raw"

text \<open>\<open>CString\<close>: the bytes before the first NUL, and whether there is one.\<close>

definition CString :: "string \<Rightarrow> string \<times> bool" where
  "CString b = (case index_byte CHR 0x00 b of Some i \<Rightarrow> (take i b, True) | None \<Rightarrow> (b, False))"

section \<open>Bounds and enumerations\<close>

definition PathMax :: nat where "PathMax = 1024"
definition CommLen :: nat where "CommLen = 16"
definition DirMax :: nat where "DirMax = 512"
definition ArgvMax :: nat where "ArgvMax = 8"
definition ArgLen :: nat where "ArgLen = 64"
definition ABIVersion :: "32 word" where "ABIVersion = 7"

lemmas abi_bounds = PathMax_def CommLen_def DirMax_def ArgvMax_def ArgLen_def ABIVersion_def

text \<open>The declared enumerators in declaration order: number, value, name in the header.\<close>

definition AllEventTypes :: "(32 word \<times> event_type \<times> string) list" where
  "AllEventTypes =
     [(0, EvtUnknown, ''ALLSEER_EVT_UNKNOWN''), (1, EvtFileOpen, ''ALLSEER_EVT_FILE_OPEN''),
      (2, EvtFileWrite, ''ALLSEER_EVT_FILE_WRITE''), (3, EvtFileUnlink, ''ALLSEER_EVT_FILE_UNLINK''),
      (4, EvtFileRename, ''ALLSEER_EVT_FILE_RENAME''), (5, EvtFileChmod, ''ALLSEER_EVT_FILE_CHMOD''),
      (6, EvtProcExec, ''ALLSEER_EVT_PROC_EXEC''), (7, EvtProcExit, ''ALLSEER_EVT_PROC_EXIT''),
      (8, EvtNetConnect, ''ALLSEER_EVT_NET_CONNECT''), (9, EvtNetBind, ''ALLSEER_EVT_NET_BIND''),
      (10, EvtNetSend, ''ALLSEER_EVT_NET_SEND''), (11, EvtPrivChange, ''ALLSEER_EVT_PRIV_CHANGE''),
      (12, EvtPtrace, ''ALLSEER_EVT_PTRACE''), (13, EvtFileLink, ''ALLSEER_EVT_FILE_LINK'')]"

definition AllPrivOps :: "(32 word \<times> priv_op \<times> string) list" where
  "AllPrivOps =
     [(0, OpUnknown, ''ALLSEER_PRIV_OP_UNKNOWN''), (1, OpSetuid, ''ALLSEER_PRIV_OP_SETUID''),
      (2, OpSetreuid, ''ALLSEER_PRIV_OP_SETREUID''), (3, OpSetresuid, ''ALLSEER_PRIV_OP_SETRESUID''),
      (4, OpSetgid, ''ALLSEER_PRIV_OP_SETGID''), (5, OpSetregid, ''ALLSEER_PRIV_OP_SETREGID''),
      (6, OpSetresgid, ''ALLSEER_PRIV_OP_SETRESGID''), (7, OpSetgroups, ''ALLSEER_PRIV_OP_SETGROUPS''),
      (8, OpCapset, ''ALLSEER_PRIV_OP_CAPSET''), (9, OpUnshare, ''ALLSEER_PRIV_OP_UNSHARE''),
      (10, OpSetns, ''ALLSEER_PRIV_OP_SETNS''), (11, OpSeccomp, ''ALLSEER_PRIV_OP_SECCOMP'')]"

text \<open>The value of a number and its name; a number outside the enumeration is rendered as it is.\<close>

definition EventType :: "32 word \<Rightarrow> event_type" where
  "EventType w = (case map_of AllEventTypes w of Some (t, _) \<Rightarrow> t | None \<Rightarrow> EvtOther (unat w))"

definition EventType_String :: "32 word \<Rightarrow> string" where
  "EventType_String w =
     (case map_of AllEventTypes w of
        Some (_, s) \<Rightarrow> s | None \<Rightarrow> ''EventType('' @ itoa (uint w) @ '')'')"

definition EventType_IsKnown :: "32 word \<Rightarrow> bool" where
  "EventType_IsKnown w \<longleftrightarrow> w \<in> fst ` set AllEventTypes"

definition PrivOp :: "32 word \<Rightarrow> priv_op" where
  "PrivOp w = (case map_of AllPrivOps w of Some (t, _) \<Rightarrow> t | None \<Rightarrow> OpOther (unat w))"

definition PrivOp_String :: "32 word \<Rightarrow> string" where
  "PrivOp_String w =
     (case map_of AllPrivOps w of Some (_, s) \<Rightarrow> s | None \<Rightarrow> ''PrivOp('' @ itoa (uint w) @ '')'')"

definition PrivOp_IsKnown :: "32 word \<Rightarrow> bool" where
  "PrivOp_IsKnown w \<longleftrightarrow> w \<in> fst ` set AllPrivOps"

text \<open>The numbers a probe writes: the inverse of \<open>EventType\<close>.\<close>

fun event_number :: "event_type \<Rightarrow> 32 word" where
  "event_number EvtUnknown = 0"
| "event_number EvtFileOpen = 1"
| "event_number EvtFileWrite = 2"
| "event_number EvtFileUnlink = 3"
| "event_number EvtFileRename = 4"
| "event_number EvtFileChmod = 5"
| "event_number EvtProcExec = 6"
| "event_number EvtProcExit = 7"
| "event_number EvtNetConnect = 8"
| "event_number EvtNetBind = 9"
| "event_number EvtNetSend = 10"
| "event_number EvtPrivChange = 11"
| "event_number EvtPtrace = 12"
| "event_number EvtFileLink = 13"
| "event_number (EvtOther n) = of_nat n"

definition FieldBeforeCred :: "32 word" where "FieldBeforeCred = 1"
definition FieldAfterCred :: "32 word" where "FieldAfterCred = 2"
definition FieldBeforeUserns :: "32 word" where "FieldBeforeUserns = 4"
definition FieldAfterUserns :: "32 word" where "FieldAfterUserns = 8"
definition FieldNsFlags :: "32 word" where "FieldNsFlags = 256"

lemmas priv_fields = FieldBeforeCred_def FieldAfterCred_def FieldBeforeUserns_def FieldAfterUserns_def
  FieldNsFlags_def

definition AllseerPathInfo :: "32 word" where "AllseerPathInfo = 1"
definition AllseerPathTruncated :: "32 word" where "AllseerPathTruncated = 2"
definition AllseerPathUnreadable :: "32 word" where "AllseerPathUnreadable = 4"
definition AllseerDirCwd :: "32 word" where "AllseerDirCwd = 8"
definition AllseerDirFd :: "32 word" where "AllseerDirFd = 16"
definition AllseerDirComplete :: "32 word" where "AllseerDirComplete = 32"
definition AllseerDirTruncated :: "32 word" where "AllseerDirTruncated = 64"
definition AllseerDirUnavailable :: "32 word" where "AllseerDirUnavailable = 128"
definition AllseerDirDeleted :: "32 word" where "AllseerDirDeleted = 256"
definition AllseerPathLate :: "32 word" where "AllseerPathLate = 512"
definition AllseerPathKernel :: "32 word" where "AllseerPathKernel = 1024"

lemmas path_flags = AllseerPathInfo_def AllseerPathTruncated_def AllseerPathUnreadable_def
  AllseerDirCwd_def AllseerDirFd_def AllseerDirComplete_def AllseerDirTruncated_def
  AllseerDirUnavailable_def AllseerDirDeleted_def AllseerPathLate_def AllseerPathKernel_def

definition AllseerEvtFOutcomeUnknown :: "32 word" where "AllseerEvtFOutcomeUnknown = 1"

definition RecordSize :: nat where "RecordSize = 2680"

section \<open>The structures\<close>

record abi_proc =
  apCgroupID :: "64 word"
  apStartTime :: "64 word"
  apPID :: "32 word"
  apTID :: "32 word"
  apPPID :: "32 word"
  apUID :: "32 word"
  apGID :: "32 word"
  apPad :: "32 word"
  apComm :: string

record abi_file =
  xfInode :: "64 word"
  xfDevice :: "64 word"
  xfBytes :: "64 word"
  xfFlags :: "32 word"
  xfMode :: "32 word"
  xfDirfd :: "32 word"
  xfPathFlags :: "32 word"
  xfPath :: string
  xfNewPath :: string
  xfDir :: string

record abi_link =
  xlInode :: "64 word"
  xlDevice :: "64 word"
  xlSrcFlags :: "32 word"
  xlDstFlags :: "32 word"
  xlSrc :: string
  xlDst :: string

record abi_net =
  xnSaddr :: string
  xnDaddr :: string
  xnBytes :: "64 word"
  xnSport :: "16 word"
  xnDport :: "16 word"
  xnFamily :: "16 word"
  xnProtocol :: "16 word"
  xnSockType :: "16 word"
  xnPad :: "16 word"

record abi_exec =
  xeArgc :: "32 word"
  xeFlags :: "32 word"
  xeFilename :: string
  xeArgv :: "string list"

record priv_state =
  psCapEffective :: "64 word"
  psCapPermitted :: "64 word"
  psCapInheritable :: "64 word"
  psCapAmbient :: "64 word"
  psCapBounding :: "64 word"
  psUIDReal :: "32 word"
  psUIDEffective :: "32 word"
  psUIDSaved :: "32 word"
  psUIDFs :: "32 word"
  psGIDReal :: "32 word"
  psGIDEffective :: "32 word"
  psGIDSaved :: "32 word"
  psGIDFs :: "32 word"
  psNgroups :: "32 word"
  psSecurebits :: "32 word"
  psUsernsInum :: "32 word"
  psSeccompMode :: "32 word"
  psPad :: "32 word"

record abi_priv =
  xpBefore :: priv_state
  xpAfter :: priv_state
  xpOperation :: "32 word"
  xpFieldsPresent :: "32 word"
  xpNsFlags :: "32 word"
  xpPad :: "32 word"

record abi_event =
  xvTimestamp :: "64 word"
  xvType :: "32 word"
  xvRet :: "32 word"
  xvVersion :: "32 word"
  xvFlags :: "32 word"
  xvProc :: abi_proc
  xvPayload :: string

section \<open>Reading a record\<close>

definition decodeProc :: "string \<Rightarrow> abi_proc" where
  "decodeProc b =
     \<lparr>apCgroupID = Uint64 b 0, apStartTime = Uint64 b 8, apPID = Uint32 b 16, apTID = Uint32 b 20,
      apPPID = Uint32 b 24, apUID = Uint32 b 28, apGID = Uint32 b 32, apPad = Uint32 b 36,
      apComm = slice 40 56 b\<rparr>"

definition decodeFilePayload :: "string \<Rightarrow> abi_file" where
  "decodeFilePayload b =
     \<lparr>xfInode = Uint64 b 0, xfDevice = Uint64 b 8, xfBytes = Uint64 b 16, xfFlags = Uint32 b 24,
      xfMode = Uint32 b 28, xfDirfd = Uint32 b 32, xfPathFlags = Uint32 b 36,
      xfPath = slice 40 1064 b, xfNewPath = slice 1064 2088 b, xfDir = slice 2088 2600 b\<rparr>"

definition decodeLinkPayload :: "string \<Rightarrow> abi_link" where
  "decodeLinkPayload b =
     \<lparr>xlInode = Uint64 b 0, xlDevice = Uint64 b 8, xlSrcFlags = Uint32 b 16, xlDstFlags = Uint32 b 20,
      xlSrc = slice 24 536 b, xlDst = slice 536 1048 b\<rparr>"

definition decodeNetPayload :: "string \<Rightarrow> abi_net" where
  "decodeNetPayload b =
     \<lparr>xnSaddr = slice 0 16 b, xnDaddr = slice 16 32 b, xnBytes = Uint64 b 32, xnSport = Uint16 b 40,
      xnDport = Uint16 b 42, xnFamily = Uint16 b 44, xnProtocol = Uint16 b 46, xnSockType = Uint16 b 48,
      xnPad = Uint16 b 50\<rparr>"

definition decodeExecPayload :: "string \<Rightarrow> abi_exec" where
  "decodeExecPayload b =
     \<lparr>xeArgc = Uint32 b 0, xeFlags = Uint32 b 4, xeFilename = slice 8 1032 b,
      xeArgv = map (\<lambda>i. slice (1032 + i * 64) (1032 + (i + 1) * 64) b) [0..<8]\<rparr>"

definition decodePrivState :: "string \<Rightarrow> priv_state" where
  "decodePrivState b =
     \<lparr>psCapEffective = Uint64 b 0, psCapPermitted = Uint64 b 8, psCapInheritable = Uint64 b 16,
      psCapAmbient = Uint64 b 24, psCapBounding = Uint64 b 32, psUIDReal = Uint32 b 40,
      psUIDEffective = Uint32 b 44, psUIDSaved = Uint32 b 48, psUIDFs = Uint32 b 52,
      psGIDReal = Uint32 b 56, psGIDEffective = Uint32 b 60, psGIDSaved = Uint32 b 64,
      psGIDFs = Uint32 b 68, psNgroups = Uint32 b 72, psSecurebits = Uint32 b 76,
      psUsernsInum = Uint32 b 80, psSeccompMode = Uint32 b 84, psPad = Uint32 b 88\<rparr>"

definition decodePrivPayload :: "string \<Rightarrow> abi_priv" where
  "decodePrivPayload b =
     \<lparr>xpBefore = decodePrivState (slice 0 96 b), xpAfter = decodePrivState (slice 96 192 b),
      xpOperation = Uint32 b 192, xpFieldsPresent = Uint32 b 196, xpNsFlags = Uint32 b 200,
      xpPad = Uint32 b 204\<rparr>"

definition decodeEvent :: "string \<Rightarrow> abi_event" where
  "decodeEvent b =
     \<lparr>xvTimestamp = Uint64 b 0, xvType = Uint32 b 8, xvRet = Uint32 b 12, xvVersion = Uint32 b 16,
      xvFlags = Uint32 b 20, xvProc = decodeProc (slice 24 80 b), xvPayload = slice 80 2680 b\<rparr>"

definition ErrShortRecord :: msg where
  "ErrShortRecord = Fmt ''abi: record shorter than the expected layout'' []"

definition ErrLongRecord :: msg where
  "ErrLongRecord = Fmt ''abi: record longer than the expected layout'' []"

definition DecodeRecord :: "string \<Rightarrow> msg + abi_event" where
  "DecodeRecord raw =
     (if length raw < RecordSize then
        Inl (Fmt ''%w: got %d bytes, want %d''
          [AMsg ErrShortRecord, AInt (int (length raw)), AInt (int RecordSize)])
      else if RecordSize < length raw then
        Inl (Fmt ''%w: got %d bytes, want %d''
          [AMsg ErrLongRecord, AInt (int (length raw)), AInt (int RecordSize)])
      else Inr (decodeEvent raw))"

definition abi_File :: "abi_event \<Rightarrow> abi_file" where "abi_File v = decodeFilePayload (xvPayload v)"
definition abi_Net :: "abi_event \<Rightarrow> abi_net" where "abi_Net v = decodeNetPayload (xvPayload v)"
definition abi_Exec :: "abi_event \<Rightarrow> abi_exec" where "abi_Exec v = decodeExecPayload (xvPayload v)"
definition abi_Priv :: "abi_event \<Rightarrow> abi_priv" where "abi_Priv v = decodePrivPayload (xvPayload v)"
definition abi_Link :: "abi_event \<Rightarrow> abi_link" where "abi_Link v = decodeLinkPayload (xvPayload v)"

section \<open>Laws\<close>

lemma length_slice [simp]: "length (slice lo hi b) = min (hi - lo) (length b - lo)"
  by (simp add: slice_def)

lemma slice_slice [simp]: "c + hi \<le> d \<Longrightarrow> slice lo hi (slice c d b) = slice (c + lo) (c + hi) b"
  by (auto simp: slice_def take_drop min_def ac_simps)

lemma length_le_bytes [simp]: "length (le_bytes n w) = n"
  by (induction n arbitrary: w) auto

lemma low_byte: "(of_nat (unat w mod 256) :: 'a :: len word) = take_bit 8 (w :: 'a word)"
proof -
  have "unat w mod 256 = unat (take_bit 8 w)"
    using take_bit_eq_mod[of 8 "unat w"] by (simp only: unsigned_take_bit_eq) simp
  then show ?thesis by simp
qed

lemma le_word_bytes: "le_word (le_bytes n w) = take_bit (8 * n) (w :: 'a :: len word)"
proof (induction n arbitrary: w)
  case (Suc n)
  show ?case
    by (rule bit_word_eqI)
      (auto simp: Suc low_byte bit_or_iff bit_push_bit_iff bit_take_bit_iff bit_drop_bit_eq not_le)
qed simp

lemma le_word_bytes_all [simp]:
  "le_word (le_bytes 2 (x :: 16 word)) = x" "le_word (le_bytes 4 (y :: 32 word)) = y"
  "le_word (le_bytes 8 (z :: 64 word)) = z"
  by (simp_all add: le_word_bytes take_bit_word_eq_self)

lemma length_write_at [simp]: "length (write_at raw off s) = length raw"
  by (auto simp: write_at_def min_def)

lemma slice_write_at_before:
  "hi \<le> off \<Longrightarrow> off \<le> length raw \<Longrightarrow> slice lo hi (write_at raw off s) = slice lo hi raw"
  by (auto simp: slice_def write_at_def take_drop min_def)

lemma slice_write_at_after:
  assumes "off + length s \<le> lo" and "off + length s \<le> length raw"
  shows "slice lo hi (write_at raw off s) = slice lo hi raw"
proof -
  have "drop lo (write_at raw off s) = drop (lo - length (take off raw @ s)) (drop (off + length s) raw)"
    using assms by (simp add: write_at_def del: drop_drop)
  also have "\<dots> = drop lo raw" using assms by simp
  finally show ?thesis by (simp add: slice_def)
qed

lemma slice_write_at_field:
  assumes "off + length s \<le> hi" and "off + length s \<le> length raw"
  shows "slice off hi (write_at raw off s) = s @ slice (off + length s) hi raw"
proof -
  have "hi - off = length s + (hi - (off + length s))" using assms by simp
  then show ?thesis using assms by (simp add: slice_def write_at_def)
qed

lemma slice_write_at_same:
  "hi = off + length s \<Longrightarrow> hi \<le> length raw \<Longrightarrow> slice off hi (write_at raw off s) = s"
  using slice_write_at_field[of off s hi raw] by (simp add: slice_def)

lemmas slice_write_at = slice_write_at_same slice_write_at_before slice_write_at_after slice_write_at_field

lemma slice_replicate: "hi \<le> n \<Longrightarrow> slice lo hi (replicate n c) = replicate (hi - lo) c"
  by (simp add: slice_def)

lemma CString_field: "CHR 0x00 \<notin> set s \<Longrightarrow> 0 < k \<Longrightarrow> CString (s @ replicate k CHR 0x00) = (s, True)"
  by (cases k) (simp_all add: CString_def index_byte_append)

lemma CString_terminated:
  assumes "CString b = (s, True)"
  shows "CHR 0x00 \<notin> set s" "length s < length b" "prefix s b"
proof -
  obtain i where i: "index_byte CHR 0x00 b = Some i" "s = take i b"
    using assms by (auto simp: CString_def split: option.splits)
  show "CHR 0x00 \<notin> set s" "length s < length b" "prefix s b"
    using index_byte_Some [OF i(1)] i(2) by (auto simp: take_is_prefix)
qed

lemma EventType_number: "(\<And>n. t \<noteq> EvtOther n) \<Longrightarrow> EventType (event_number t) = t"
  by (cases t) (auto simp: EventType_def AllEventTypes_def)

lemma EventType_known: "EventType_IsKnown w \<longleftrightarrow> (\<forall>n. EventType w \<noteq> EvtOther n)"
  by (auto simp: EventType_IsKnown_def EventType_def AllEventTypes_def)

lemma PrivOp_known: "PrivOp_IsKnown w \<longleftrightarrow> (\<forall>n. PrivOp w \<noteq> OpOther n)"
  by (auto simp: PrivOp_IsKnown_def PrivOp_def AllPrivOps_def)

end
