(* ===== verification/Decode.thy ===== *)
theory Decode
  imports Abi Event Resolve
begin

text \<open>
  From a record to an event (\<open>internal/telemetry/decode.go\<close>, \<open>errno.go\<close>): which capability an operation
  exercised, what its result is called, how an address field is read, and which records are refused.
\<close>

section \<open>Errors\<close>

definition ErrUnsetEventType :: msg where
  "ErrUnsetEventType = Fmt ''telemetry: record carries ALLSEER_EVT_UNKNOWN, so it states no operation'' []"

definition ErrABIVersionMismatch :: msg where
  "ErrABIVersionMismatch = Fmt ''telemetry: record's ABI version is not the one this build decodes'' []"

definition ErrUnknownEventType :: msg where
  "ErrUnknownEventType = Fmt ''telemetry: event type is not in this build's ABI'' []"

definition ErrTruncatedString :: msg where
  "ErrTruncatedString =
     Fmt ''telemetry: fixed-size string field is not NUL-terminated, so the value is truncated'' []"

definition priv_op_msg :: "32 word \<Rightarrow> priv_op_error \<Rightarrow> msg" where
  "priv_op_msg op err =
     (case err of
        ErrUnsetPrivOp \<Rightarrow> Fmt ''telemetry: privilege record states no operation'' []
      | ErrUnknownPrivOp _ \<Rightarrow>
          Fmt ''%w: %s'' [AMsg (Fmt ''telemetry: privilege operation is not in this build's ABI'' []),
            AStr (PrivOp_String op)])"

definition truncated_field :: "string \<Rightarrow> msg" where
  "truncated_field name = Fmt (''%w: '' @ name) [AMsg ErrTruncatedString]"

section \<open>Results\<close>

definition errnoNames :: "string list" where
  "errnoNames =
     [''''] @
     [''EPERM'', ''ENOENT'', ''ESRCH'', ''EINTR'', ''EIO'', ''ENXIO'', ''E2BIG'', ''ENOEXEC'', ''EBADF'', ''ECHILD''] @
     [''EAGAIN'', ''ENOMEM'', ''EACCES'', ''EFAULT'', ''ENOTBLK'', ''EBUSY'', ''EEXIST'', ''EXDEV'', ''ENODEV'', ''ENOTDIR''] @
     [''EISDIR'', ''EINVAL'', ''ENFILE'', ''EMFILE'', ''ENOTTY'', ''ETXTBSY'', ''EFBIG'', ''ENOSPC'', ''ESPIPE'', ''EROFS''] @
     [''EMLINK'', ''EPIPE'', ''EDOM'', ''ERANGE'', ''EDEADLK'', ''ENAMETOOLONG'', ''ENOLCK'', ''ENOSYS'', ''ENOTEMPTY'', ''ELOOP''] @
     ['''', ''ENOMSG'', ''EIDRM'', ''ECHRNG'', ''EL2NSYNC'', ''EL3HLT'', ''EL3RST'', ''ELNRNG'', ''EUNATCH'', ''ENOCSI''] @
     [''EL2HLT'', ''EBADE'', ''EBADR'', ''EXFULL'', ''ENOANO'', ''EBADRQC'', ''EBADSLT'', '''', ''EBFONT'', ''ENOSTR''] @
     [''ENODATA'', ''ETIME'', ''ENOSR'', ''ENONET'', ''ENOPKG'', ''EREMOTE'', ''ENOLINK'', ''EADV'', ''ESRMNT'', ''ECOMM''] @
     [''EPROTO'', ''EMULTIHOP'', ''EDOTDOT'', ''EBADMSG'', ''EOVERFLOW'', ''ENOTUNIQ'', ''EBADFD'', ''EREMCHG'', ''ELIBACC'', ''ELIBBAD''] @
     [''ELIBSCN'', ''ELIBMAX'', ''ELIBEXEC'', ''EILSEQ'', ''ERESTART'', ''ESTRPIPE'', ''EUSERS'', ''ENOTSOCK'', ''EDESTADDRREQ'', ''EMSGSIZE''] @
     [''EPROTOTYPE'', ''ENOPROTOOPT'', ''EPROTONOSUPPORT'', ''ESOCKTNOSUPPORT'', ''EOPNOTSUPP'', ''EPFNOSUPPORT'', ''EAFNOSUPPORT'', ''EADDRINUSE'', ''EADDRNOTAVAIL'', ''ENETDOWN''] @
     [''ENETUNREACH'', ''ENETRESET'', ''ECONNABORTED'', ''ECONNRESET'', ''ENOBUFS'', ''EISCONN'', ''ENOTCONN'', ''ESHUTDOWN'', ''ETOOMANYREFS'', ''ETIMEDOUT''] @
     [''ECONNREFUSED'', ''EHOSTDOWN'', ''EHOSTUNREACH'', ''EALREADY'', ''EINPROGRESS'', ''ESTALE'', ''EUCLEAN'', ''ENOTNAM'', ''ENAVAIL'', ''EISNAM''] @
     [''EREMOTEIO'', ''EDQUOT'', ''ENOMEDIUM'', ''EMEDIUMTYPE'', ''ECANCELED'', ''ENOKEY'', ''EKEYEXPIRED'', ''EKEYREVOKED'', ''EKEYREJECTED'', ''EOWNERDEAD''] @
     [''ENOTRECOVERABLE'', ''ERFKILL'', ''EHWPOISON'']"

definition errnoName :: "int \<Rightarrow> string" where
  "errnoName e = (if e < 0 \<or> int (length errnoNames) \<le> e then [] else errnoNames ! nat e)"

definition resultOf :: "32 word \<Rightarrow> 32 word \<Rightarrow> op_result" where
  "resultOf ret flags =
     (if flags AND AllseerEvtFOutcomeUnknown \<noteq> 0 then
        \<lparr>ReturnCode = 0, op_result.Errno = [], Succeeded = True, OutcomeUnobserved = True\<rparr>
      else
        \<lparr>ReturnCode = sint ret, op_result.Errno = (if sint ret < 0 then errnoName (- sint ret) else []),
         Succeeded = 0 \<le> sint ret, OutcomeUnobserved = False\<rparr>)"

section \<open>Privileges\<close>

fun privOpNames :: "priv_op \<Rightarrow> string" where
  "privOpNames OpSetuid = ''setuid''"
| "privOpNames OpSetreuid = ''setreuid''"
| "privOpNames OpSetresuid = ''setresuid''"
| "privOpNames OpSetgid = ''setgid''"
| "privOpNames OpSetregid = ''setregid''"
| "privOpNames OpSetresgid = ''setresgid''"
| "privOpNames OpSetgroups = ''setgroups''"
| "privOpNames OpCapset = ''capset''"
| "privOpNames OpUnshare = ''unshare''"
| "privOpNames OpSetns = ''setns''"
| "privOpNames OpSeccomp = ''seccomp''"
| "privOpNames _ = []"

definition namespaceName :: "32 word \<Rightarrow> string" where
  "namespaceName flags =
     (if flags AND 0x10000000 \<noteq> 0 then ''user''
      else if flags AND 0x20000000 \<noteq> 0 then ''pid''
      else if flags AND 0x40000000 \<noteq> 0 then ''net''
      else if flags AND 0x00020000 \<noteq> 0 then ''mount''
      else if flags AND 0x08000000 \<noteq> 0 then ''ipc''
      else if flags AND 0x04000000 \<noteq> 0 then ''uts''
      else if flags AND 0x02000000 \<noteq> 0 then ''cgroup''
      else if flags AND 0x00000080 \<noteq> 0 then ''time''
      else [])"

definition capabilityNames :: "string list" where
  "capabilityNames =
     [''CAP_CHOWN'', ''CAP_DAC_OVERRIDE'', ''CAP_DAC_READ_SEARCH'', ''CAP_FOWNER''] @
     [''CAP_FSETID'', ''CAP_KILL'', ''CAP_SETGID'', ''CAP_SETUID''] @
     [''CAP_SETPCAP'', ''CAP_LINUX_IMMUTABLE'', ''CAP_NET_BIND_SERVICE'', ''CAP_NET_BROADCAST''] @
     [''CAP_NET_ADMIN'', ''CAP_NET_RAW'', ''CAP_IPC_LOCK'', ''CAP_IPC_OWNER''] @
     [''CAP_SYS_MODULE'', ''CAP_SYS_RAWIO'', ''CAP_SYS_CHROOT'', ''CAP_SYS_PTRACE''] @
     [''CAP_SYS_PACCT'', ''CAP_SYS_ADMIN'', ''CAP_SYS_BOOT'', ''CAP_SYS_NICE''] @
     [''CAP_SYS_RESOURCE'', ''CAP_SYS_TIME'', ''CAP_SYS_TTY_CONFIG'', ''CAP_MKNOD''] @
     [''CAP_LEASE'', ''CAP_AUDIT_WRITE'', ''CAP_AUDIT_CONTROL'', ''CAP_SETFCAP''] @
     [''CAP_MAC_OVERRIDE'', ''CAP_MAC_ADMIN'', ''CAP_SYSLOG'', ''CAP_WAKE_ALARM''] @
     [''CAP_BLOCK_SUSPEND'', ''CAP_AUDIT_READ'', ''CAP_PERFMON'', ''CAP_BPF''] @
     [''CAP_CHECKPOINT_RESTORE'']"

definition capability_name :: "nat \<Rightarrow> string" where
  "capability_name b =
     (if b < length capabilityNames then capabilityNames ! b else ''CAP_'' @ itoa (int b))"

definition capabilityDelta :: "64 word \<Rightarrow> 64 word \<Rightarrow> string list" where
  "capabilityDelta before after =
     (let gained = after AND NOT before in
      if gained = 0 then []
      else map capability_name (filter (\<lambda>b. gained AND push_bit b 1 \<noteq> 0) [0..<64]))"

definition privPayload :: "abi_priv \<Rightarrow> priv_payload" where
  "privPayload p =
     (let present = (\<lambda>f. xpFieldsPresent p AND f \<noteq> 0);
          comparableCreds = present FieldBeforeCred \<and> present FieldAfterCred;
          comparableNS = present FieldBeforeUserns \<and> present FieldAfterUserns \<and>
            psUsernsInum (xpBefore p) = psUsernsInum (xpAfter p)
      in \<lparr>prOperation = privOpNames (PrivOp (xpOperation p)),
          OldUID = (if present FieldBeforeCred then psUIDEffective (xpBefore p) else 0),
          NewUID = (if present FieldAfterCred then psUIDEffective (xpAfter p) else 0),
          CapabilitiesAdded =
            (if comparableCreds \<and> comparableNS then
               capabilityDelta (psCapEffective (xpBefore p)) (psCapEffective (xpAfter p))
             else []),
          NamespaceType = (if present FieldNsFlags then namespaceName (xpNsFlags p) else [])\<rparr>)"

section \<open>Capabilities that depend on the payload\<close>

definition afUnix :: "16 word" where "afUnix = 1"
definition afInet :: "16 word" where "afInet = 2"
definition afInet6 :: "16 word" where "afInet6 = 10"

lemmas families = afUnix_def afInet_def afInet6_def

definition kindForConnectFamily :: "16 word \<Rightarrow> kind" where
  "kindForConnectFamily family = (if family = afUnix then KindIPCUnixSock else KindNetConnect)"

definition kindForOpenFlags :: "32 word \<Rightarrow> kind" where
  "kindForOpenFlags flags =
     (if flags AND 0x40 \<noteq> 0 then KindFileCreate
      else if flags AND 0x3 = 0x1 \<or> flags AND 0x3 = 0x2 then KindFileWrite
      else if flags AND 0x3 = 0x0 then KindFileRead
      else KindFileWrite)"

section \<open>Files\<close>

text \<open>The kernel's \<open>c/b/a/\<close> as \<open>/a/b/c\<close>; \<open>None\<close> when it is not such a walk.\<close>

definition reverseDir :: "string \<Rightarrow> string option" where
  "reverseDir raw =
     (if raw = [] then Some ''/''
      else if \<not> suffix ''/'' raw then None
      else
        (let parts = split_byte CHR ''/'' (trim_suffix raw ''/'') in
         if list_ex (\<lambda>p. p = [] \<or> p = ''.'' \<or> p = ''..'') parts then None
         else Some (concat (map (\<lambda>p. CHR ''/'' # p) (rev parts)))))"

definition walkedPath :: "string \<Rightarrow> 32 word \<Rightarrow> string option" where
  "walkedPath raw f =
     (if f AND AllseerDirComplete = 0 \<or>
         f AND (AllseerDirTruncated OR AllseerDirUnavailable OR AllseerDirDeleted) \<noteq> 0 then None
      else
        (case CString raw of (s, terminated) \<Rightarrow> if \<not> terminated \<or> s = [] then None else reverseDir s))"

definition linkPayload :: "abi_link \<Rightarrow> file_payload" where
  "linkPayload p =
     (let out = zero_file\<lparr>Inode := xlInode p, Device := xlDevice p, KernelPath := True\<rparr>;
          out = (case walkedPath (xlSrc p) (xlSrcFlags p) of
                   Some src \<Rightarrow> out\<lparr>fpPath := src\<rparr> | None \<Rightarrow> out\<lparr>fpTruncated := True\<rparr>)
      in case walkedPath (xlDst p) (xlDstFlags p) of
           Some dst \<Rightarrow> out\<lparr>NewPath := dst\<rparr> | None \<Rightarrow> out)"

definition dir_source :: "32 word \<Rightarrow> 32 word \<Rightarrow> string" where
  "dir_source f dirfd =
     (if f AND AllseerDirCwd \<noteq> 0 then ''cwd''
      else if f AND AllseerDirFd \<noteq> 0 then ''fd:'' @ itoa (sint dirfd)
      else [])"

definition dir_status :: "32 word \<Rightarrow> string \<Rightarrow> string" where
  "dir_status f src =
     (if f AND AllseerDirDeleted \<noteq> 0 then ''deleted''
      else if f AND AllseerDirUnavailable \<noteq> 0 \<or> src = [] then ''unavailable''
      else if f AND AllseerDirTruncated \<noteq> 0 then ''truncated''
      else if f AND AllseerDirComplete \<noteq> 0 then ''complete''
      else ''unavailable'')"

definition decodeBaseDir :: "abi_file \<Rightarrow> file_payload \<Rightarrow> msg + file_payload" where
  "decodeBaseDir p out =
     (let f = xfPathFlags p;
          out = out\<lparr>fpTruncated := fpTruncated out \<or> f AND AllseerPathInfo = 0 \<or>
                      f AND (AllseerPathTruncated OR AllseerPathUnreadable) \<noteq> 0,
                    PathLate := f AND AllseerPathLate \<noteq> 0,
                    KernelPath := f AND AllseerPathKernel \<noteq> 0\<rparr>
      in if fpPath out = [] \<or> prefix ''/'' (fpPath out) then Inr out
         else
           (let out = out\<lparr>DirSource := dir_source f (xfDirfd p)\<rparr>;
                out = out\<lparr>DirStatus := dir_status f (DirSource out)\<rparr>
            in if DirStatus out \<noteq> ''complete'' then Inr out
               else
                 (case CString (xfDir p) of
                    (_, False) \<Rightarrow> Inl (truncated_field ''file.dir'')
                  | (raw, True) \<Rightarrow>
                      (case reverseDir raw of
                         None \<Rightarrow> Inr (out\<lparr>DirStatus := ''unavailable''\<rparr>)
                       | Some dir \<Rightarrow> Inr (out\<lparr>fpDir := dir\<rparr>)))))"

definition filePayload :: "abi_file \<Rightarrow> bool \<Rightarrow> msg + file_payload" where
  "filePayload p withNewPath =
     (case CString (xfPath p) of
        (_, False) \<Rightarrow> Inl (truncated_field ''file.path'')
      | (path, True) \<Rightarrow>
          (case decodeBaseDir p (zero_file\<lparr>fpPath := path, Flags := xfFlags p, fpMode := xfMode p,
                    Inode := xfInode p, Device := xfDevice p, BytesTransferred := sint (xfBytes p)\<rparr>) of
             Inl err \<Rightarrow> Inl err
           | Inr out \<Rightarrow>
               if withNewPath then
                 (case CString (xfNewPath p) of
                    (_, False) \<Rightarrow> Inl (truncated_field ''file.new_path'')
                  | (newPath, True) \<Rightarrow> Inr (out\<lparr>NewPath := newPath\<rparr>))
               else Inr out))"

section \<open>Executions\<close>

fun exec_args :: "nat \<Rightarrow> string list \<Rightarrow> msg + string list" where
  "exec_args i [] = Inr []"
| "exec_args i (a # as) =
     (case CString a of
        (_, False) \<Rightarrow> Inl (Fmt ''%w: exec.argv[%d]'' [AMsg ErrTruncatedString, AInt (int i)])
      | (arg, True) \<Rightarrow>
          (case exec_args (Suc i) as of Inl err \<Rightarrow> Inl err | Inr args \<Rightarrow> Inr (arg # args)))"

definition execPayload :: "abi_exec \<Rightarrow> msg + exec_payload" where
  "execPayload p =
     (case CString (xeFilename p) of
        (_, False) \<Rightarrow> Inl (truncated_field ''exec.filename'')
      | (filename, True) \<Rightarrow>
          (let n = min (unat (xeArgc p)) ArgvMax;
               truncated = xeFlags p AND AllseerPathInfo = 0 \<or>
                 xeFlags p AND (AllseerPathTruncated OR AllseerPathUnreadable) \<noteq> 0
           in case exec_args 0 (take n (xeArgv p)) of
                Inl err \<Rightarrow> Inl err
              | Inr args \<Rightarrow>
                  Inr \<lparr>Filename = filename, Argv = args, EnvKeys = [], Interpreter = [], BinaryHash = [],
                       epTruncated = truncated\<rparr>))"

section \<open>Addresses\<close>

text \<open>\<open>netip.Addr.String\<close>: a dotted quad, or eight groups in hexadecimal with the first longest run of
  at least two zeros left out.\<close>

definition octets_of :: "32 word \<Rightarrow> nat list" where
  "octets_of w = map (\<lambda>k. unat (drop_bit k w AND 255)) [24, 16, 8, 0]"

definition dotted :: "nat list \<Rightarrow> string" where
  "dotted bs = join_byte CHR ''.'' (map itoa_nat bs)"

fun hex_nat :: "nat \<Rightarrow> string" where
  "hex_nat n =
     (let d = (\<lambda>k. if k < 10 then char_of (48 + k) else char_of (87 + k)) in
      if n < 16 then [d n] else hex_nat (n div 16) @ [d (n mod 16)])"

declare hex_nat.simps [simp del]

definition zero_run :: "nat list \<Rightarrow> nat \<Rightarrow> nat" where
  "zero_run gs i = length (takeWhile (\<lambda>g. g = 0) (drop i gs))"

definition longest_zeros :: "nat list \<Rightarrow> (nat \<times> nat) option" where
  "longest_zeros gs =
     fold (\<lambda>i best.
         let l = zero_run gs i in
         if 2 \<le> l \<and> (case best of None \<Rightarrow> 0 | Some (a, b) \<Rightarrow> b - a) < l then Some (i, i + l) else best)
       [0..<8] None"

definition groups_text :: "nat list \<Rightarrow> string" where
  "groups_text gs =
     (case longest_zeros gs of
        None \<Rightarrow> join_byte CHR '':'' (map hex_nat gs)
      | Some (a, b) \<Rightarrow>
          join_byte CHR '':'' (map hex_nat (take a gs)) @ ''::'' @
          join_byte CHR '':'' (map hex_nat (drop b gs)))"

definition groups_of :: "128 word \<Rightarrow> nat list" where
  "groups_of w = map (\<lambda>k. unat (drop_bit k w AND 65535)) [112, 96, 80, 64, 48, 32, 16, 0]"

definition addr_String :: "addr \<Rightarrow> string" where
  "addr_String a =
     (case a of
        V4 w \<Rightarrow> dotted (octets_of w)
      | V6 w z \<Rightarrow>
          (if drop_bit 32 w = 0xFFFF then ''::ffff:'' @ dotted (octets_of (ucast w))
           else groups_text (groups_of w)) @
          (if z = [] then [] else CHR ''%'' # z))"

definition addr_of_bytes4 :: "string \<Rightarrow> addr" where
  "addr_of_bytes4 b = V4 (word_of_bytes (map of_char (take 4 b)))"

definition addr_of_bytes16 :: "string \<Rightarrow> addr" where
  "addr_of_bytes16 b = V6 (word_of_bytes (map of_char b)) []"

definition addressString :: "string \<Rightarrow> 16 word \<Rightarrow> string" where
  "addressString raw family =
     (if family = afInet then addr_String (addr_of_bytes4 raw)
      else if family = afInet6 then addr_String (addr_of_bytes16 raw)
      else [])"

section \<open>Network operations\<close>

definition familyName :: "16 word \<Rightarrow> string" where
  "familyName family =
     (if family = afInet then ''AF_INET''
      else if family = afInet6 then ''AF_INET6''
      else if family = afUnix then ''AF_UNIX''
      else if family = 0 then ''AF_UNSPEC''
      else ''AddressFamily('' @ itoa (uint family) @ '')'')"

definition protocolName :: "16 word \<Rightarrow> string" where
  "protocolName proto =
     (if proto = 6 then ''tcp''
      else if proto = 17 then ''udp''
      else if proto = 0 then []
      else ''IPPROTO('' @ itoa (uint proto) @ '')'')"

definition socketTypeName :: "16 word \<Rightarrow> string" where
  "socketTypeName t =
     (if t = 1 then ''SOCK_STREAM''
      else if t = 2 then ''SOCK_DGRAM''
      else if t = 3 then ''SOCK_RAW''
      else if t = 5 then ''SOCK_SEQPACKET''
      else if t = 0 then []
      else ''SockType('' @ itoa (uint t) @ '')'')"

definition netPayload :: "abi_net \<Rightarrow> bool \<Rightarrow> network_payload" where
  "netPayload p withBytes =
     \<lparr>npProtocol = protocolName (xnProtocol p), SourceAddr = addressString (xnSaddr p) (xnFamily p),
      SourcePort = uint (xnSport p), DestAddr = addressString (xnDaddr p) (xnFamily p),
      DestPort = uint (xnDport p), AddressFamily = familyName (xnFamily p),
      SocketType = socketTypeName (xnSockType p), Hostname = [],
      BytesSent = (if withBytes then sint (xnBytes p) else 0), BytesReceived = 0\<rparr>"

section \<open>Records\<close>

definition decoded_file :: "event \<Rightarrow> kind \<Rightarrow> msg + file_payload \<Rightarrow> msg + event" where
  "decoded_file e k payload =
     (case payload of
        Inl err \<Rightarrow> Inl err | Inr f \<Rightarrow> Inr (e\<lparr>evCapability := k, evFile := Some f\<rparr>))"

definition decodePayload :: "abi_event \<Rightarrow> event \<Rightarrow> msg + event" where
  "decodePayload r e =
     (case EventType (xvType r) of
        EvtFileOpen \<Rightarrow> decoded_file e (kindForOpenFlags (xfFlags (abi_File r))) (filePayload (abi_File r) False)
      | EvtFileWrite \<Rightarrow> decoded_file e KindFileWrite (filePayload (abi_File r) False)
      | EvtFileUnlink \<Rightarrow> decoded_file e KindFileDelete (filePayload (abi_File r) False)
      | EvtFileRename \<Rightarrow> decoded_file e KindFileRename (filePayload (abi_File r) True)
      | EvtFileLink \<Rightarrow> decoded_file e KindFileLink (Inr (linkPayload (abi_Link r)))
      | EvtFileChmod \<Rightarrow> decoded_file e KindFileChmod (filePayload (abi_File r) False)
      | EvtProcExec \<Rightarrow>
          (case execPayload (abi_Exec r) of
             Inl err \<Rightarrow> Inl err
           | Inr x \<Rightarrow> Inr (e\<lparr>evCapability := KindProcessExec, evExec := Some x\<rparr>))
      | EvtProcExit \<Rightarrow> Inr (e\<lparr>evCapability := KindProcessExit\<rparr>)
      | EvtNetConnect \<Rightarrow>
          Inr (e\<lparr>evCapability := kindForConnectFamily (xnFamily (abi_Net r)),
                 evNetwork := Some (netPayload (abi_Net r) False)\<rparr>)
      | EvtNetBind \<Rightarrow>
          Inr (e\<lparr>evCapability := KindNetBind, evNetwork := Some (netPayload (abi_Net r) False)\<rparr>)
      | EvtNetSend \<Rightarrow>
          Inr (e\<lparr>evCapability := KindNetSend, evNetwork := Some (netPayload (abi_Net r) True)\<rparr>)
      | EvtPtrace \<Rightarrow> Inr (e\<lparr>evCapability := KindProcessPtrace\<rparr>)
      | EvtPrivChange \<Rightarrow>
          (case kindForPrivOp (PrivOp (xpOperation (abi_Priv r))) of
             Inl err \<Rightarrow> Inl (priv_op_msg (xpOperation (abi_Priv r)) err)
           | Inr k \<Rightarrow> Inr (e\<lparr>evCapability := k, evPrivil := Some (privPayload (abi_Priv r))\<rparr>))
      | EvtUnknown \<Rightarrow> Inl ErrUnsetEventType
      | EvtOther _ \<Rightarrow>
          Inl (Fmt ''%w: %s'' [AMsg ErrUnknownEventType, AStr (EventType_String (xvType r))]))"

text \<open>What every record carries.\<close>

definition event_base :: "abi_event \<Rightarrow> string \<Rightarrow> event" where
  "event_base r comm =
     zero_event\<lparr>KernelTimestamp := xvTimestamp r, evResult := resultOf (xvRet r) (xvFlags r),
       evProcess :=
         \<lparr>PID = apPID (xvProc r), TID = apTID (xvProc r), PPID = apPPID (xvProc r), UID = apUID (xvProc r),
          GID = apGID (xvProc r), Comm = comm, Executable = [], CgroupID = apCgroupID (xvProc r),
          StartTime = apStartTime (xvProc r), AncestryDepth = 0\<rparr>\<rparr>"

definition Decode :: "string \<Rightarrow> msg + event" where
  "Decode raw =
     (case DecodeRecord raw of
        Inl err \<Rightarrow> Inl (Fmt ''telemetry: decoding record: %w'' [AMsg err])
      | Inr r \<Rightarrow>
          if xvVersion r \<noteq> ABIVersion then
            Inl (Fmt ''%w: record says %d, this build decodes %d''
              [AMsg ErrABIVersionMismatch, AInt (uint (xvVersion r)), AInt (uint ABIVersion)])
          else
            (case CString (apComm (xvProc r)) of
               (_, False) \<Rightarrow> Inl (truncated_field ''proc.comm'')
             | (comm, True) \<Rightarrow>
                 (case decodePayload r (event_base r comm) of
                    Inl err \<Rightarrow> Inl err
                  | Inr e \<Rightarrow>
                      (case DomainOf (evCapability e) of
                         None \<Rightarrow>
                           Inl (Fmt ''telemetry: capability %q is not in this build's catalog''
                             [AStr (kind_string (evCapability e))])
                       | Some domain \<Rightarrow> Inr (e\<lparr>evDomain := domain\<rparr>)))))"

definition EventSize :: nat where "EventSize = RecordSize"

end
