(* ===== verification/Tracker.thy ===== *)
theory Tracker
  imports Assoc
begin

text \<open>
  Process ancestry (\<open>internal/telemetry/tracker.go\<close>): which processes a session has, how far each is
  below the session's root, and the image each runs. An operation holds the tracker's lock throughout.
\<close>

section \<open>Data\<close>

datatype proc_key = ProcKey (keyPid: "32 word") (keyStart: "64 word")

record proc_entry =
  peSession :: string
  peDepth :: int
  peExecutable :: string

record proc_tracker =
  ptProcs :: "(proc_key \<times> proc_entry) list"
  ptLive :: "(32 word \<times> proc_key) list"
  ptRoots :: "(32 word \<times> string) list"

abbreviation tracked :: "proc_tracker \<Rightarrow> proc_key \<Rightarrow> proc_entry option" where
  "tracked t k \<equiv> map_of (ptProcs t) k"

abbreviation holder :: "proc_tracker \<Rightarrow> 32 word \<Rightarrow> proc_key option" where
  "holder t pid \<equiv> map_of (ptLive t) pid"

definition NewProcTracker :: proc_tracker where
  "NewProcTracker = \<lparr>ptProcs = [], ptLive = [], ptRoots = []\<rparr>"

section \<open>Operations\<close>

definition TrackRoot :: "string \<Rightarrow> 32 word \<Rightarrow> proc_tracker \<Rightarrow> proc_tracker" where
  "TrackRoot sid pid t = t\<lparr>ptRoots := AList.update pid sid (ptRoots t)\<rparr>"

text \<open>The flag tells the source's \<open>ErrProcessTracked\<close> from success.\<close>

definition trackLocked :: "string \<Rightarrow> proc_key \<Rightarrow> int \<Rightarrow> proc_tracker \<Rightarrow> bool \<times> proc_tracker" where
  "trackLocked sid k depth t =
     (case tracked t k of
        Some cur \<Rightarrow> (peSession cur = sid, t)
      | None \<Rightarrow>
          (True, t\<lparr>ptProcs := AList.update k \<lparr>peSession = sid, peDepth = depth, peExecutable = []\<rparr> (ptProcs t),
                   ptLive := AList.update (keyPid k) k (ptLive t)\<rparr>))"

definition Track :: "string \<Rightarrow> 32 word \<Rightarrow> 64 word \<Rightarrow> proc_tracker \<Rightarrow> bool \<times> proc_tracker" where
  "Track sid pid start t = trackLocked sid (ProcKey pid start) 0 t"

definition set_image :: "proc_key \<Rightarrow> string \<Rightarrow> proc_tracker \<Rightarrow> proc_tracker" where
  "set_image k exe t =
     (case tracked t k of
        Some e \<Rightarrow> t\<lparr>ptProcs := AList.update k (e\<lparr>peExecutable := exe\<rparr>) (ptProcs t)\<rparr>
      | None \<Rightarrow> t)"

text \<open>The entry of the process that holds a number now, if it is of the session.\<close>

definition parent_of :: "string \<Rightarrow> 32 word \<Rightarrow> proc_tracker \<Rightarrow> proc_entry option" where
  "parent_of sid ppid t =
     (case holder t ppid of
        None \<Rightarrow> None
      | Some pk \<Rightarrow>
          (case tracked t pk of Some pe \<Rightarrow> if peSession pe = sid then Some pe else None | None \<Rightarrow> None))"

definition tracker_Observe ::
  "string \<Rightarrow> 32 word \<Rightarrow> 64 word \<Rightarrow> 32 word \<Rightarrow> proc_tracker \<Rightarrow> int \<times> proc_tracker" where
  "tracker_Observe sid pid start ppid t =
     (let k = ProcKey pid start;
          place =
            (if map_of (ptRoots t) pid = Some sid then
               (0, [], t\<lparr>ptRoots := AList.delete pid (ptRoots t)\<rparr>)
             else
               (case parent_of sid ppid t of
                  Some pe \<Rightarrow> (peDepth pe + 1, peExecutable pe, t)
                | None \<Rightarrow> (1, [], t)));
          fresh =
            (case place of
               (depth, exe, t) \<Rightarrow>
                 (let t = snd (trackLocked sid k depth t) in
                  (depth, if exe \<noteq> [] then set_image k exe t else t)))
      in case tracked t k of
           Some e \<Rightarrow> if peSession e = sid then (peDepth e, t) else fresh
         | None \<Rightarrow> fresh)"

definition SetExecutable :: "32 word \<Rightarrow> 64 word \<Rightarrow> string \<Rightarrow> proc_tracker \<Rightarrow> proc_tracker" where
  "SetExecutable pid start exe t = set_image (ProcKey pid start) exe t"

definition tracker_Executable :: "32 word \<Rightarrow> 64 word \<Rightarrow> proc_tracker \<Rightarrow> string" where
  "tracker_Executable pid start t =
     (case tracked t (ProcKey pid start) of Some e \<Rightarrow> peExecutable e | None \<Rightarrow> [])"

definition Untrack :: "32 word \<Rightarrow> 64 word \<Rightarrow> proc_tracker \<Rightarrow> proc_tracker" where
  "Untrack pid start t =
     (let k = ProcKey pid start in
      t\<lparr>ptProcs := AList.delete k (ptProcs t),
        ptLive := (if holder t pid = Some k then AList.delete pid (ptLive t) else ptLive t)\<rparr>)"

definition SessionFor :: "32 word \<Rightarrow> 64 word \<Rightarrow> proc_tracker \<Rightarrow> string option" where
  "SessionFor pid start t = map_option peSession (tracked t (ProcKey pid start))"

definition Descendants :: "string \<Rightarrow> proc_tracker \<Rightarrow> 32 word list" where
  "Descendants sid t =
     sort_key sint (map (keyPid \<circ> fst) (filter (\<lambda>e. peSession (snd e) = sid) (ptProcs t)))"

definition tracker_Depth :: "32 word \<Rightarrow> 64 word \<Rightarrow> proc_tracker \<Rightarrow> int" where
  "tracker_Depth pid start t =
     (case tracked t (ProcKey pid start) of Some e \<Rightarrow> peDepth e | None \<Rightarrow> -1)"

text \<open>The loop over the processes deletes one entry and the number it holds at a time.\<close>

definition ForgetSession :: "string \<Rightarrow> proc_tracker \<Rightarrow> proc_tracker" where
  "ForgetSession sid t =
     (let gone = map fst (filter (\<lambda>e. peSession (snd e) = sid) (ptProcs t)) in
      t\<lparr>ptProcs := fold AList.delete gone (ptProcs t),
        ptLive := fold (\<lambda>k live. if map_of live (keyPid k) = Some k then AList.delete (keyPid k) live else live)
          gone (ptLive t),
        ptRoots := filter (\<lambda>r. snd r \<noteq> sid) (ptRoots t)\<rparr>)"

section \<open>Runs\<close>

datatype tracker_call =
    CallTrackRoot string "32 word"
  | CallTrack string "32 word" "64 word"
  | CallObserve string "32 word" "64 word" "32 word"
  | CallSetExecutable "32 word" "64 word" string
  | CallUntrack "32 word" "64 word"
  | CallForget string

fun tracker_do :: "tracker_call \<Rightarrow> proc_tracker \<Rightarrow> proc_tracker" where
  "tracker_do (CallTrackRoot sid pid) t = TrackRoot sid pid t"
| "tracker_do (CallTrack sid pid start) t = snd (Track sid pid start t)"
| "tracker_do (CallObserve sid pid start ppid) t = snd (tracker_Observe sid pid start ppid t)"
| "tracker_do (CallSetExecutable pid start exe) t = SetExecutable pid start exe t"
| "tracker_do (CallUntrack pid start) t = Untrack pid start t"
| "tracker_do (CallForget sid) t = ForgetSession sid t"

inductive tracker_reachable :: "proc_tracker \<Rightarrow> bool" where
  tracker_start: "tracker_reachable NewProcTracker"
| tracker_call: "tracker_reachable t \<Longrightarrow> tracker_reachable (tracker_do c t)"

section \<open>What the operations do to a process\<close>

lemma tracked_trackLocked:
  "tracked (snd (trackLocked sid k depth t)) k' =
     (if k' = k \<and> tracked t k = None
      then Some \<lparr>peSession = sid, peDepth = depth, peExecutable = []\<rparr> else tracked t k')"
  by (auto simp: trackLocked_def update_conv' split: option.splits)

lemma holder_trackLocked:
  "holder (snd (trackLocked sid k depth t)) pid =
     (if pid = keyPid k \<and> tracked t k = None then Some k else holder t pid)"
  by (auto simp: trackLocked_def update_conv' split: option.splits)

lemma tracked_set_image:
  "tracked (set_image k exe t) k' =
     (if k' = k then map_option (\<lambda>e. e\<lparr>peExecutable := exe\<rparr>) (tracked t k) else tracked t k')"
  by (auto simp: set_image_def update_conv' split: option.splits)

lemma holder_set_image: "holder (set_image k exe t) pid = holder t pid"
  by (auto simp: set_image_def split: option.splits)

lemma tracked_Untrack:
  "tracked (Untrack pid start t) k = (if k = ProcKey pid start then None else tracked t k)"
  by (auto simp: Untrack_def Let_def delete_conv')

lemma holder_Untrack:
  "holder (Untrack pid start t) pid' =
     (if holder t pid' = Some (ProcKey pid start) \<and> pid' = pid then None else holder t pid')"
  by (auto simp: Untrack_def Let_def delete_conv')

lemma map_of_fold_delete:
  "map_of (fold AList.delete ks xs) k = (if k \<in> set ks then None else map_of xs k)"
  by (induction ks arbitrary: xs) (auto simp: delete_conv')

lemma map_of_fold_delete_held:
  "map_of (fold (\<lambda>k live. if map_of live (keyPid k) = Some k then AList.delete (keyPid k) live else live) ks live) pid =
     (case map_of live pid of
        None \<Rightarrow> None
      | Some k \<Rightarrow> if k \<in> set ks \<and> keyPid k = pid then None else Some k)"
proof (induction ks arbitrary: live)
  case Nil
  then show ?case by (auto split: option.splits)
next
  case (Cons k ks)
  then show ?case by (auto simp: delete_conv' split: option.splits)
qed

definition distinct_procs :: "proc_tracker \<Rightarrow> bool" where
  "distinct_procs t \<longleftrightarrow> distinct (map fst (ptProcs t))"

lemma tracked_Forget:
  assumes "distinct_procs t"
  shows "tracked (ForgetSession sid t) k =
     (case tracked t k of None \<Rightarrow> None | Some e \<Rightarrow> if peSession e = sid then None else Some e)"
proof -
  have "k \<in> set (map fst (filter (\<lambda>e. peSession (snd e) = sid) (ptProcs t))) \<longleftrightarrow>
      (\<exists>e. tracked t k = Some e \<and> peSession e = sid)"
    using assms by (force simp: distinct_procs_def)
  then show ?thesis
    by (auto simp: ForgetSession_def Let_def map_of_fold_delete split: option.splits)
qed

lemma holder_Forget:
  assumes "distinct_procs t"
  shows "holder (ForgetSession sid t) pid =
     (case holder t pid of
        None \<Rightarrow> None
      | Some k \<Rightarrow>
          if keyPid k = pid \<and> (\<exists>e. tracked t k = Some e \<and> peSession e = sid) then None else Some k)"
proof -
  have "k \<in> set (map fst (filter (\<lambda>e. peSession (snd e) = sid) (ptProcs t))) \<longleftrightarrow>
      (\<exists>e. tracked t k = Some e \<and> peSession e = sid)" for k
    using assms by (force simp: distinct_procs_def)
  then show ?thesis
    by (auto simp: ForgetSession_def Let_def map_of_fold_delete_held split: option.splits)
qed

text \<open>An observation of a process its session knows changes nothing; of another, it may place it below
  the parent, and pass on the parent's image.\<close>

lemma Observe_known:
  "tracked t (ProcKey pid start) = Some e \<Longrightarrow> peSession e = sid \<Longrightarrow>
     tracker_Observe sid pid start ppid t = (peDepth e, t)"
  by (simp add: tracker_Observe_def Let_def)

lemma Observe_other:
  assumes "\<And>e. tracked t (ProcKey pid start) = Some e \<Longrightarrow> peSession e \<noteq> sid"
  obtains t' depth exe where "ptProcs t' = ptProcs t" "ptLive t' = ptLive t"
    "tracker_Observe sid pid start ppid t =
       (depth, (if exe \<noteq> [] then set_image (ProcKey pid start) exe else (\<lambda>t. t))
          (snd (trackLocked sid (ProcKey pid start) depth t')))"
    "map_of (ptRoots t) pid = Some sid \<Longrightarrow> depth = 0 \<and> exe = []"
    "map_of (ptRoots t) pid \<noteq> Some sid \<Longrightarrow>
       (depth, exe) = (case parent_of sid ppid t of
          Some pe \<Rightarrow> (peDepth pe + 1, peExecutable pe) | None \<Rightarrow> (1, []))"
proof (cases "map_of (ptRoots t) pid = Some sid")
  case True
  show ?thesis
    by (rule that[of "t\<lparr>ptRoots := AList.delete pid (ptRoots t)\<rparr>" 0 "[]"])
      (use assms True in \<open>auto simp: tracker_Observe_def Let_def split: option.splits\<close>)
next
  case False
  show ?thesis
    by (rule that[of t "fst (case parent_of sid ppid t of
          Some pe \<Rightarrow> (peDepth pe + 1, peExecutable pe) | None \<Rightarrow> (1, []))"
        "snd (case parent_of sid ppid t of
          Some pe \<Rightarrow> (peDepth pe + 1, peExecutable pe) | None \<Rightarrow> (1, []))"])
      (use assms False in \<open>auto simp: tracker_Observe_def Let_def split: option.splits\<close>)
qed

section \<open>What a reachable tracker is\<close>

text \<open>Keys are held once, a number is held by a tracked process of that number, and depths are not negative.\<close>

definition tracker_ok :: "proc_tracker \<Rightarrow> bool" where
  "tracker_ok t \<longleftrightarrow> distinct_procs t \<and>
     (\<forall>pid k. holder t pid = Some k \<longrightarrow> keyPid k = pid \<and> tracked t k \<noteq> None) \<and>
     (\<forall>k e. tracked t k = Some e \<longrightarrow> 0 \<le> peDepth e)"

lemma tracker_okI:
  assumes "distinct_procs t" "\<And>pid k. holder t pid = Some k \<Longrightarrow> keyPid k = pid \<and> tracked t k \<noteq> None"
    and "\<And>k e. tracked t k = Some e \<Longrightarrow> 0 \<le> peDepth e"
  shows "tracker_ok t"
  using assms unfolding tracker_ok_def by blast

lemma tracker_okD:
  assumes "tracker_ok t"
  shows "distinct_procs t" "holder t pid = Some k \<Longrightarrow> keyPid k = pid" "holder t pid = Some k \<Longrightarrow> tracked t k \<noteq> None"
    and "tracked t k = Some e \<Longrightarrow> 0 \<le> peDepth e"
  using assms unfolding tracker_ok_def by blast+

lemma distinct_procs_kept:
  assumes "distinct_procs t"
  shows "distinct_procs (snd (trackLocked sid k depth t))" "distinct_procs (set_image k exe t)"
    and "distinct_procs (Untrack pid start t)" "distinct_procs (ForgetSession sid t)"
proof -
  have "distinct (map fst (fold AList.delete ks xs))" if "distinct (map fst xs)" for ks and xs :: "(proc_key \<times> proc_entry) list"
    using that by (induction ks arbitrary: xs) (auto simp: distinct_delete)
  then show "distinct_procs (ForgetSession sid t)" using assms by (simp add: ForgetSession_def Let_def distinct_procs_def)
  show "distinct_procs (snd (trackLocked sid k depth t))"
    using assms by (simp add: trackLocked_def distinct_procs_def distinct_update split: option.split)
  show "distinct_procs (set_image k exe t)"
    using assms by (simp add: set_image_def distinct_procs_def distinct_update split: option.split)
  show "distinct_procs (Untrack pid start t)"
    using assms by (simp add: Untrack_def Let_def distinct_procs_def distinct_delete)
qed

lemma trackLocked_ok:
  assumes "tracker_ok t" "0 \<le> depth"
  shows "tracker_ok (snd (trackLocked sid k depth t))"
  using tracker_okD[OF assms(1)] assms(2)
  by (intro tracker_okI distinct_procs_kept(1)) (auto simp: tracked_trackLocked holder_trackLocked split: if_splits)

lemma set_image_ok:
  assumes "tracker_ok t"
  shows "tracker_ok (set_image k exe t)"
  using tracker_okD[OF assms]
  by (intro tracker_okI distinct_procs_kept(2)) (auto simp: tracked_set_image holder_set_image split: if_splits)

lemma Untrack_ok:
  assumes "tracker_ok t"
  shows "tracker_ok (Untrack pid start t)"
proof (rule tracker_okI)
  show "distinct_procs (Untrack pid start t)" using tracker_okD(1)[OF assms] by (rule distinct_procs_kept(3))
  show "keyPid k = n \<and> tracked (Untrack pid start t) k \<noteq> None" if h: "holder (Untrack pid start t) n = Some k" for n k
  proof -
    have old: "holder t n = Some k" "\<not> (k = ProcKey pid start \<and> n = pid)"
      using h unfolding holder_Untrack by (auto split: if_splits)
    have "keyPid k = n" using tracker_okD(2)[OF assms old(1)] .
    moreover from this old(2) have "k \<noteq> ProcKey pid start" by auto
    ultimately show ?thesis using tracker_okD(3)[OF assms old(1)] by (simp only: tracked_Untrack if_False) simp
  qed
  show "0 \<le> peDepth e" if "tracked (Untrack pid start t) k = Some e" for k e
    using that tracker_okD(4)[OF assms, of k e] unfolding tracked_Untrack by (simp split: if_splits)
qed

lemma ForgetSession_ok:
  assumes "tracker_ok t" shows "tracker_ok (ForgetSession sid t)"
proof (rule tracker_okI)
  note d = tracker_okD(1)[OF assms]
  show "distinct_procs (ForgetSession sid t)" using d by (rule distinct_procs_kept(4))
  show "keyPid k = n \<and> tracked (ForgetSession sid t) k \<noteq> None" if h: "holder (ForgetSession sid t) n = Some k" for n k
  proof -
    have old: "holder t n = Some k" "\<not> (keyPid k = n \<and> (\<exists>e. tracked t k = Some e \<and> peSession e = sid))"
      using h unfolding holder_Forget[OF d] by (auto split: option.splits if_splits)
    have "keyPid k = n" using tracker_okD(2)[OF assms old(1)] .
    moreover obtain e where "tracked t k = Some e" using tracker_okD(3)[OF assms old(1)] by blast
    ultimately show ?thesis using old(2) by (simp add: tracked_Forget[OF d])
  qed
  show "0 \<le> peDepth e" if "tracked (ForgetSession sid t) k = Some e" for k e
    using that tracker_okD(4)[OF assms, of k e] unfolding tracked_Forget[OF d] by (simp split: option.splits if_splits)
qed

lemma Observe_ok:
  assumes "tracker_ok t"
  shows "tracker_ok (snd (tracker_Observe sid pid start ppid t))"
proof (cases "\<exists>e. tracked t (ProcKey pid start) = Some e \<and> peSession e = sid")
  case True
  then obtain e where "tracked t (ProcKey pid start) = Some e" "peSession e = sid" by blast
  from Observe_known[OF this] show ?thesis using assms by simp
next
  case False
  then have other: "\<And>e. tracked t (ProcKey pid start) = Some e \<Longrightarrow> peSession e \<noteq> sid" by blast
  have nonneg: "0 \<le> peDepth pe" if "parent_of sid ppid t = Some pe" for pe
    using that tracker_okD(4)[OF assms] by (simp add: parent_of_def split: option.splits if_splits)
  show ?thesis
  proof (rule Observe_other[of t pid start sid ppid])
    show "\<And>e. tracked t (ProcKey pid start) = Some e \<Longrightarrow> peSession e \<noteq> sid" by (rule other)
  next
    fix t' depth exe
    assume o: "ptProcs t' = ptProcs t" "ptLive t' = ptLive t"
      "tracker_Observe sid pid start ppid t =
       (depth, (if exe \<noteq> [] then set_image (ProcKey pid start) exe else (\<lambda>t. t))
          (snd (trackLocked sid (ProcKey pid start) depth t')))"
      "map_of (ptRoots t) pid = Some sid \<Longrightarrow> depth = 0 \<and> exe = []"
      "map_of (ptRoots t) pid \<noteq> Some sid \<Longrightarrow>
       (depth, exe) = (case parent_of sid ppid t of
          Some pe \<Rightarrow> (peDepth pe + 1, peExecutable pe) | None \<Rightarrow> (1, []))"
    have t': "tracker_ok t'" using assms unfolding tracker_ok_def distinct_procs_def o(1,2) .
    have "0 \<le> depth"
      using o(4,5) nonneg by (cases "map_of (ptRoots t) pid = Some sid"; cases "parent_of sid ppid t") fastforce+
    then show ?thesis using trackLocked_ok[OF t'] set_image_ok by (simp add: o(3))
  qed
qed

lemma tracker_reachable_ok: "tracker_reachable t \<Longrightarrow> tracker_ok t"
proof (induction rule: tracker_reachable.induct)
  case tracker_start
  show ?case by (rule tracker_okI) (simp_all add: NewProcTracker_def distinct_procs_def)
next
  case (tracker_call t c)
  have "tracker_ok (TrackRoot sid pid t)" for sid pid
  proof -
    have same: "ptProcs (TrackRoot sid pid t) = ptProcs t" "ptLive (TrackRoot sid pid t) = ptLive t"
      by (simp_all add: TrackRoot_def)
    show ?thesis using tracker_call(2) unfolding tracker_ok_def distinct_procs_def same .
  qed
  then show ?case
    using tracker_call(2) trackLocked_ok set_image_ok Untrack_ok ForgetSession_ok Observe_ok
    by (cases c) (simp_all add: Track_def SetExecutable_def)
qed

text \<open>A depth is one more than that of the parent the tracker holds for the session, and zero for a root.\<close>

lemma observed_depth:
  assumes "tracked t (ProcKey pid start) = None"
  shows "tracker_Depth pid start (snd (tracker_Observe sid pid start ppid t)) =
    (if map_of (ptRoots t) pid = Some sid then 0
     else case parent_of sid ppid t of Some pe \<Rightarrow> peDepth pe + 1 | None \<Rightarrow> 1)"
proof (rule Observe_other[of t pid start sid ppid])
  show "\<And>e. tracked t (ProcKey pid start) = Some e \<Longrightarrow> peSession e \<noteq> sid" using assms by simp
next
  fix t' depth exe
  assume o: "ptProcs t' = ptProcs t" "ptLive t' = ptLive t"
    "tracker_Observe sid pid start ppid t =
       (depth, (if exe \<noteq> [] then set_image (ProcKey pid start) exe else (\<lambda>t. t))
          (snd (trackLocked sid (ProcKey pid start) depth t')))"
    "map_of (ptRoots t) pid = Some sid \<Longrightarrow> depth = 0 \<and> exe = []"
    "map_of (ptRoots t) pid \<noteq> Some sid \<Longrightarrow>
       (depth, exe) = (case parent_of sid ppid t of
          Some pe \<Rightarrow> (peDepth pe + 1, peExecutable pe) | None \<Rightarrow> (1, []))"
  have "tracked t' (ProcKey pid start) = None" using assms o(1) by simp
  then have "tracker_Depth pid start (snd (tracker_Observe sid pid start ppid t)) = depth"
    by (simp add: o(3) tracker_Depth_def tracked_set_image tracked_trackLocked)
  then show ?thesis
    using o(4,5) by (cases "map_of (ptRoots t) pid = Some sid"; cases "parent_of sid ppid t") simp_all
qed

text \<open>
  An observation keeps a process that another session tracks in that session, but gives it the image of
  the parent the observing session knows: the refusal of \<open>trackLocked\<close> is dropped and the image written.
\<close>

lemma observed_elsewhere:
  assumes "tracked t (ProcKey pid start) = Some e" "peSession e \<noteq> sid" "map_of (ptRoots t) pid \<noteq> Some sid"
    and "parent_of sid ppid t = Some pe" "peExecutable pe \<noteq> []"
  shows "tracked (snd (tracker_Observe sid pid start ppid t)) (ProcKey pid start) =
    Some (e\<lparr>peExecutable := peExecutable pe\<rparr>)"
  using assms by (simp add: tracker_Observe_def Let_def tracked_set_image tracked_trackLocked)

end
