(* ===== verification/Enrich.thy ===== *)
theory Enrich
  imports Event Generate
begin

text \<open>
  Resolving the path of an event (\<open>internal/telemetry/enrich.go\<close>): which directory a name is below, the
  walk through symbolic links, and when a path that was read after the fact may still be believed. What
  the host's file system answers is the parameter \<open>host_files\<close>.
\<close>

section \<open>The host\<close>

text \<open>\<open>os.Lstat\<close> as the walk reads it: the name is missing (or lies below a file), the call fails, or it is
  there, a symbolic link or not.\<close>

datatype lstat_answer = NotThere | LstatFailed msg | NoLink | IsLink

record host_files =
  hfRoot :: string
  hfLstat :: "string \<Rightarrow> lstat_answer"
  hfReadlink :: "string \<Rightarrow> msg + string"
  hfInode :: "string \<Rightarrow> msg + 64 word"
  hfNofollow :: "32 word"

definition oCreat :: "32 word" where "oCreat = 0x40"
definition oExcl :: "32 word" where "oExcl = 0x80"

definition ErrUnresolvable :: msg where "ErrUnresolvable = Fmt ''telemetry: path cannot be resolved'' []"

definition unresolvable :: "string \<Rightarrow> arg list \<Rightarrow> msg" where
  "unresolvable format args = Fmt (''%w: '' @ format) (AMsg ErrUnresolvable # args)"

definition maxSymlinkHops :: nat where "maxSymlinkHops = 40"

section \<open>Paths\<close>

text \<open>\<open>filepath.Dir\<close>, \<open>filepath.Base\<close> and \<open>filepath.Join\<close> of non-empty parts.\<close>

definition dir_of :: "string \<Rightarrow> string" where
  "dir_of p = clean_path (case last_index_byte CHR ''/'' p of None \<Rightarrow> [] | Some i \<Rightarrow> take (i + 1) p)"

definition base_of :: "string \<Rightarrow> string" where
  "base_of p =
     (if p = [] then ''.''
      else
        (let p = rev (dropWhile (\<lambda>c. c = CHR ''/'') (rev p));
             p = (case last_index_byte CHR ''/'' p of None \<Rightarrow> p | Some i \<Rightarrow> drop (i + 1) p)
         in if p = [] then ''/'' else p))"

definition join_paths :: "string list \<Rightarrow> string" where
  "join_paths ps = clean_path (join_byte CHR ''/'' ps)"

definition components :: "string \<Rightarrow> string list" where
  "components path = split_byte CHR ''/'' (trim_set {CHR ''/''} path)"

definition host :: "host_files \<Rightarrow> string \<Rightarrow> string" where
  "host h path = (if hfRoot h = [] \<or> hfRoot h = ''/'' then path else join_paths [hfRoot h, path])"

definition pid_text :: "32 word \<Rightarrow> string" where
  "pid_text w = itoa (sint w)"

definition rewriteSelf :: "string \<Rightarrow> 32 word \<Rightarrow> 32 word \<Rightarrow> string" where
  "rewriteSelf path pid tid =
     (if path = ''/proc/self'' \<and> 0 < sint pid then ''/proc/'' @ pid_text pid
      else if path = ''/proc/thread-self'' \<and> 0 < sint pid \<and> 0 < sint tid then
        ''/proc/'' @ pid_text pid @ ''/task/'' @ pid_text tid
      else path)"

section \<open>The walk\<close>

record walk_result =
  wrPath :: string
  wrMissing :: "string list"

definition wr_resolved :: "walk_result \<Rightarrow> string" where
  "wr_resolved w = (if wrMissing w = [] then wrPath w else clean_path (join_paths (wrPath w # wrMissing w)))"

function walk_from ::
  "host_files \<Rightarrow> string \<Rightarrow> 32 word \<Rightarrow> 32 word \<Rightarrow> string \<Rightarrow> string list \<Rightarrow> nat \<Rightarrow> msg + walk_result" where
  "walk_from h path pid tid resolved [] hops = Inr \<lparr>wrPath = resolved, wrMissing = []\<rparr>"
| "walk_from h path pid tid resolved (c # rest) hops =
     (if c = [] \<or> c = ''.'' then walk_from h path pid tid resolved rest hops
      else if c = ''..'' then walk_from h path pid tid (dir_of resolved) rest hops
      else
        (let nxt = rewriteSelf (join_paths [resolved, c]) pid tid in
         case hfLstat h (host h nxt) of
           NotThere \<Rightarrow>
             Inr \<lparr>wrPath = dir_of nxt, wrMissing = base_of nxt # filter (\<lambda>m. m \<noteq> [] \<and> m \<noteq> ''.'') rest\<rparr>
         | LstatFailed err \<Rightarrow> Inl (unresolvable ''%s: %v'' [AStr nxt, AMsg err])
         | NoLink \<Rightarrow> walk_from h path pid tid nxt rest hops
         | IsLink \<Rightarrow>
             (if hops + 1 > maxSymlinkHops then Inl (unresolvable ''too many symlinks in %q'' [AStr path])
              else
                (case hfReadlink h (host h nxt) of
                   Inl err \<Rightarrow> Inl (unresolvable ''readlink %s: %v'' [AStr nxt, AMsg err])
                 | Inr target \<Rightarrow>
                     (if \<not> is_abs target then
                        (if sublist '':['' target then walk_from h path pid tid nxt rest (hops + 1)
                         else walk_from h path pid tid resolved (components target @ rest) (hops + 1))
                      else walk_from h path pid tid ''/'' (components target @ rest) (hops + 1))))))"
  by pat_completeness auto
termination
  by (relation "measures [\<lambda>(h, path, pid, tid, resolved, rest, hops). maxSymlinkHops - hops,
      \<lambda>(h, path, pid, tid, resolved, rest, hops). length rest]") (auto simp: maxSymlinkHops_def)

definition walk :: "host_files \<Rightarrow> string \<Rightarrow> 32 word \<Rightarrow> 32 word \<Rightarrow> msg + walk_result" where
  "walk h path pid tid =
     (if \<not> is_abs path then Inl (unresolvable ''%q is not absolute'' [AStr path])
      else walk_from h path pid tid ''/'' (components path) 0)"

definition Resolve_path :: "host_files \<Rightarrow> string \<Rightarrow> 32 word \<Rightarrow> 32 word \<Rightarrow> msg + string" where
  "Resolve_path h path pid tid =
     (case walk h path pid tid of Inl err \<Rightarrow> Inl err | Inr w \<Rightarrow> Inr (wr_resolved w))"

section \<open>Opens\<close>

definition noFinalSymlink :: "host_files \<Rightarrow> 32 word \<Rightarrow> bool" where
  "noFinalSymlink h flags \<longleftrightarrow> flags AND hfNofollow h \<noteq> 0 \<or> flags AND (oCreat OR oExcl) = oCreat OR oExcl"

definition procLinks :: "string list" where
  "procLinks = [''root'', ''cwd'', ''exe'', ''fd'', ''task'', ''ns'', ''map_files'']"

definition finalNameIsExact :: "host_files \<Rightarrow> 32 word \<Rightarrow> walk_result \<Rightarrow> 32 word \<Rightarrow> bool" where
  "finalNameIsExact h flags w pid =
     (if length (wrMissing w) = 1 \<and> noFinalSymlink h flags then True
      else if sint pid \<le> 0 then False
      else if wrPath w = ''/proc'' \<and> length (wrMissing w) = 2 \<and> wrMissing w ! 0 = pid_text pid then
        wrMissing w ! 1 \<notin> set procLinks
      else if wrPath w = ''/proc/'' @ pid_text pid \<and> length (wrMissing w) = 1 then
        wrMissing w ! 0 \<notin> set procLinks
      else False)"

definition isOpenKind :: "kind \<Rightarrow> bool" where
  "isOpenKind k \<longleftrightarrow> k = KindFileRead \<or> k = KindFileWrite \<or> k = KindFileCreate"

definition deletedSuffix :: string where "deletedSuffix = '' (deleted)''"

definition kernelPath :: "file_payload \<Rightarrow> msg + string" where
  "kernelPath f =
     (if \<not> is_abs (fpPath f) then Inl (unresolvable ''the kernel reported no path for this open'' [])
      else if suffix deletedSuffix (fpPath f) then
        Inl (unresolvable ''%q names a file unlinked while open'' [AStr (fpPath f)])
      else Inr (clean_path (fpPath f)))"

definition opened :: "event \<Rightarrow> bool" where
  "opened e \<longleftrightarrow> Succeeded (evResult e) \<and> 0 \<le> ReturnCode (evResult e) \<and> isOpenKind (evCapability e)"

definition enrichLate :: "host_files \<Rightarrow> event \<Rightarrow> file_payload \<Rightarrow> string \<Rightarrow> msg + string" where
  "enrichLate h e f full =
     (if Inode f = 0 then
        Inl (unresolvable ''%q was read after the syscall and no opened inode confirms it'' [AStr (fpPath f)])
      else
        (case walk h full (PID (evProcess e)) (TID (evProcess e)) of
           Inl err \<Rightarrow> Inl err
         | Inr w \<Rightarrow>
             if wrMissing w \<noteq> [] then
               Inl (unresolvable ''%q was read after the syscall and no longer exists'' [AStr full])
             else
               (case hfInode h (host h (wrPath w)) of
                  Inl err \<Rightarrow> Inl (unresolvable ''%s: %v'' [AStr (wrPath w), AMsg err])
                | Inr ino \<Rightarrow>
                    if ino \<noteq> Inode f then
                      Inl (unresolvable ''%q was read after the syscall and names inode %d, not the opened inode %d''
                        [AStr full, AInt (uint ino), AInt (uint (Inode f))])
                    else Inr (wrPath w))))"

text \<open>The directory a name is below: the root for an absolute one, the one the kernel captured for another.\<close>

definition base_dir :: "file_payload \<Rightarrow> msg + string" where
  "base_dir f =
     (if is_abs (fpPath f) then Inr (fpPath f)
      else if DirStatus f \<noteq> ''complete'' \<or> \<not> is_abs (fpDir f) then
        Inl (unresolvable ''relative path %q: base directory (%s) is %s''
          [AStr (fpPath f), AStr (DirSource f), AStr (if DirStatus f = [] then ''not captured'' else DirStatus f)])
      else Inr (fpDir f @ ''/'' @ fpPath f))"

text \<open>The general case: the walk, and what an open that succeeded must agree with.\<close>

definition enrich_walk :: "host_files \<Rightarrow> event \<Rightarrow> file_payload \<Rightarrow> string \<Rightarrow> msg + string" where
  "enrich_walk h e f full =
     (case walk h full (PID (evProcess e)) (TID (evProcess e)) of
        Inl err \<Rightarrow> Inl err
      | Inr w \<Rightarrow>
          if wrMissing w \<noteq> [] then
            (if list_ex (\<lambda>c. c = ''..'') (wrMissing w) then
               Inl (unresolvable ''%q: \"..\" after a component that no longer exists is ambiguous'' [AStr full])
             else if opened e \<and> \<not> finalNameIsExact h (Flags f) w (PID (evProcess e)) then
               Inl (unresolvable ''%q no longer exists; the path changed after the open'' [AStr full])
             else Inr (wr_resolved w))
          else if opened e \<and> Inode f \<noteq> 0 then
            (case hfInode h (host h (wrPath w)) of
               Inl err \<Rightarrow> Inl (unresolvable ''%s: %v'' [AStr (wrPath w), AMsg err])
             | Inr ino \<Rightarrow>
                 if ino \<noteq> Inode f then
                   Inl (unresolvable ''%s is inode %d but the open returned inode %d; the path changed after the open''
                     [AStr (wrPath w), AInt (uint ino), AInt (uint (Inode f))])
                 else Inr (wr_resolved w))
          else Inr (wr_resolved w))"

definition resolve_file :: "host_files \<Rightarrow> event \<Rightarrow> file_payload \<Rightarrow> msg + string" where
  "resolve_file h e f =
     (if fpTruncated f then Inl (unresolvable ''the kernel reported the path as truncated or unreadable'' [])
      else if fpPath f = [] then Inl (unresolvable ''the record carries no path'' [])
      else if KernelPath f then kernelPath f
      else
        (case base_dir f of
           Inl err \<Rightarrow> Inl err
         | Inr full \<Rightarrow>
             if PathLate f \<and> opened e then enrichLate h e f full
             else if \<not> is_abs (fpPath f) \<and> CHR ''/'' \<notin> set (fpPath f) \<and> noFinalSymlink h (Flags f) then
               Inr (clean_path full)
             else enrich_walk h e f full))"

text \<open>An error leaves the event as it was.\<close>

definition Enrich_path :: "host_files \<Rightarrow> event option \<Rightarrow> go_error \<times> event option" where
  "Enrich_path h e =
     (case e of
        None \<Rightarrow> (None, e)
      | Some ev \<Rightarrow>
          (case evFile ev of
             None \<Rightarrow> (None, e)
           | Some f \<Rightarrow>
               if ResolvedPath f \<noteq> [] then (None, e)
               else
                 (case resolve_file h ev f of
                    Inl err \<Rightarrow> (Some err, e)
                  | Inr p \<Rightarrow> (None, Some (ev\<lparr>evFile := Some (f\<lparr>ResolvedPath := p\<rparr>)\<rparr>)))))"

section \<open>The executed image\<close>

text \<open>\<open>proc\<close> is the root of procfs, empty for the default.\<close>

definition Enrich_exec :: "host_files \<Rightarrow> string \<Rightarrow> event option \<Rightarrow> go_error \<times> event option" where
  "Enrich_exec h proc e =
     (case e of
        None \<Rightarrow> (None, e)
      | Some ev \<Rightarrow>
          if evCapability ev \<noteq> KindProcessExec \<or> Executable (evProcess ev) \<noteq> [] then (None, e)
          else
            (let root = (if proc = [] then ''/proc'' else proc);
                 image = (\<lambda>exe. Some (ev\<lparr>evProcess := (evProcess ev)\<lparr>Executable := exe\<rparr>\<rparr>));
                 named =
                   (case evExec ev of
                      Some x \<Rightarrow>
                        if is_abs (Filename x) then
                          (case Resolve_path h (Filename x) (PID (evProcess ev)) (TID (evProcess ev)) of
                             Inl err \<Rightarrow> (Some err, e)
                           | Inr r \<Rightarrow> (None, image r))
                        else (Some (unresolvable ''executable of pid %d'' [AInt (sint (PID (evProcess ev)))]), e)
                    | None \<Rightarrow> (Some (unresolvable ''executable of pid %d'' [AInt (sint (PID (evProcess ev)))]), e))
             in
             case hfReadlink h (join_paths [root, pid_text (PID (evProcess ev)), ''exe'']) of
               Inr exe \<Rightarrow>
                 (if is_abs exe \<and> \<not> suffix deletedSuffix exe then (None, image exe) else named)
             | Inl _ \<Rightarrow> named))"

section \<open>What a resolved path is\<close>

lemma walk_returns: "(\<exists>err. walk h path pid tid = Inl err) \<or> (\<exists>w. walk h path pid tid = Inr w)"
  by (cases "walk h path pid tid") auto

text \<open>A path the kernel reported as cut is not resolved, nor one it read late without an inode to confirm it.\<close>

lemma cut_paths_stay_unresolved: "fpTruncated f \<Longrightarrow> \<exists>err. resolve_file h e f = Inl err"
  by (simp add: resolve_file_def)

lemma late_paths_need_an_inode:
  assumes "PathLate f" "opened e" "Inode f = 0" "\<not> KernelPath f"
  shows "\<exists>err. resolve_file h e f = Inl err"
  using assms by (simp add: resolve_file_def enrichLate_def split: sum.split)

text \<open>
  The path given to an open that succeeded is one of three: the kernel's own name; a file that, looked up
  again, is the one the kernel opened; or a name that could not be a link and is exact without looking.
\<close>

definition exact_name :: "host_files \<Rightarrow> event \<Rightarrow> file_payload \<Rightarrow> string \<Rightarrow> bool" where
  "exact_name h e f full \<longleftrightarrow>
     (\<not> is_abs (fpPath f) \<and> CHR ''/'' \<notin> set (fpPath f) \<and> noFinalSymlink h (Flags f)) \<or>
     (\<exists>w. walk h full (PID (evProcess e)) (TID (evProcess e)) = Inr w \<and> wrMissing w \<noteq> [] \<and>
        finalNameIsExact h (Flags f) w (PID (evProcess e)))"

lemma enrichLate_confirmed:
  assumes "enrichLate h e f full = Inr p"
  shows "Inode f \<noteq> 0 \<and> hfInode h (host h p) = Inr (Inode f)"
  using assms by (auto simp: enrichLate_def split: if_splits sum.splits)

lemma enrich_walk_confirmed:
  assumes "enrich_walk h e f full = Inr p" "opened e" "Inode f \<noteq> 0"
  shows "hfInode h (host h p) = Inr (Inode f) \<or>
    (\<exists>w. walk h full (PID (evProcess e)) (TID (evProcess e)) = Inr w \<and> wrMissing w \<noteq> [] \<and>
       finalNameIsExact h (Flags f) w (PID (evProcess e)))"
proof -
  obtain w where w: "walk h full (PID (evProcess e)) (TID (evProcess e)) = Inr w"
    using assms(1) by (auto simp: enrich_walk_def split: sum.splits)
  show ?thesis
  proof (cases "wrMissing w = []")
    case True
    then show ?thesis
      using assms w by (auto simp: enrich_walk_def wr_resolved_def split: sum.splits if_splits)
  next
    case False
    then have "finalNameIsExact h (Flags f) w (PID (evProcess e))"
      using assms w by (auto simp: enrich_walk_def split: if_splits)
    then show ?thesis using w False by blast
  qed
qed

lemma opened_paths_are_confirmed:
  assumes "resolve_file h e f = Inr p" "opened e" "Inode f \<noteq> 0"
  shows "KernelPath f \<and> is_abs (fpPath f) \<and> p = clean_path (fpPath f) \<or>
    hfInode h (host h p) = Inr (Inode f) \<or>
    (\<exists>full. base_dir f = Inr full \<and> exact_name h e f full)"
proof (cases "KernelPath f")
  case True
  then show ?thesis using assms(1) by (auto simp: resolve_file_def kernelPath_def split: if_splits)
next
  case False
  then obtain full where full: "base_dir f = Inr full"
    using assms(1) by (auto simp: resolve_file_def split: if_splits sum.splits)
  have steps: "PathLate f \<and> enrichLate h e f full = Inr p \<or>
      (\<not> is_abs (fpPath f) \<and> CHR ''/'' \<notin> set (fpPath f) \<and> noFinalSymlink h (Flags f)) \<or>
      enrich_walk h e f full = Inr p"
    using assms(1,2) False full by (auto simp: resolve_file_def split: if_splits)
  then show ?thesis
    using full enrichLate_confirmed enrich_walk_confirmed[OF _ assms(2,3)] unfolding exact_name_def by blast
qed

text \<open>A failed resolution leaves the event as it was, and no event is resolved twice.\<close>

lemma Enrich_path_error: "Enrich_path h e = (Some err, e') \<Longrightarrow> e' = e"
  by (auto simp: Enrich_path_def split: option.splits if_splits sum.splits)

text \<open>Whatever is resolved is an absolute path.\<close>

lemma clean_path_abs: "is_abs p \<Longrightarrow> is_abs (clean_path p)"
  by (simp add: clean_path_def is_abs_def)

lemma join_abs: "is_abs p \<Longrightarrow> is_abs (join_paths (p # ps))"
  unfolding join_paths_def by (rule clean_path_abs) (cases ps; simp add: join_byte_Cons is_abs_def)

lemma dir_of_abs:
  assumes "is_abs p" shows "is_abs (dir_of p)"
proof -
  obtain q where p: "p = CHR ''/'' # q" using assms by (auto simp: is_abs_def prefix_def)
  have "last_index_byte CHR ''/'' p \<noteq> None" by (simp add: p split: option.split)
  then obtain i where i: "last_index_byte CHR ''/'' p = Some i" by blast
  have "is_abs (take (i + 1) p)" by (simp add: p is_abs_def)
  then show ?thesis using clean_path_abs by (simp add: dir_of_def i)
qed

lemma rewriteSelf_abs: "is_abs p \<Longrightarrow> is_abs (rewriteSelf p pid tid)"
  by (simp add: rewriteSelf_def is_abs_def)

lemma walk_from_abs:
  "is_abs resolved \<Longrightarrow> walk_from h path pid tid resolved rest hops = Inr w \<Longrightarrow> is_abs (wrPath w)"
proof (induction h path pid tid resolved rest hops rule: walk_from.induct)
  case (2 h path pid tid resolved c rest hops)
  let ?next = "rewriteSelf (join_paths [resolved, c]) pid tid"
  have next_abs: "is_abs ?next" using 2(7) by (intro rewriteSelf_abs join_abs)
  have root: "is_abs ''/''" by (simp add: is_abs_def)
  show ?case
  proof (cases "c = [] \<or> c = ''.''")
    case True
    then show ?thesis using 2(1)[OF True 2(7)] 2(8) by simp
  next
    case named: False
    show ?thesis
    proof (cases "c = ''..''")
      case True
      then show ?thesis using 2(2)[OF named True dir_of_abs[OF 2(7)]] 2(8) named by simp
    next
      case False
      note steps = 2(3-6)[OF named False refl]
      show ?thesis
      proof (cases "hfLstat h (host h ?next)")
        case NotThere
        then show ?thesis using 2(8) named False dir_of_abs[OF next_abs] by (auto simp: Let_def)
      next
        case (LstatFailed err)
        then show ?thesis using 2(8) named False by (simp add: Let_def)
      next
        case NoLink
        then show ?thesis using steps(1)[OF NoLink next_abs] 2(8) named False by (simp add: Let_def)
      next
        case IsLink
        then obtain target where t: "\<not> hops + 1 > maxSymlinkHops" "hfReadlink h (host h ?next) = Inr target"
          using 2(8) named False by (auto simp: Let_def split: if_splits sum.splits)
        show ?thesis
          using 2(8) named False IsLink t steps(2)[OF IsLink t _ _ next_abs] steps(3)[OF IsLink t _ _ 2(7)]
            steps(4)[OF IsLink t _ root]
          by (simp add: Let_def split: if_splits)
      qed
    qed
  qed
qed auto

lemma walk_abs: "walk h path pid tid = Inr w \<Longrightarrow> is_abs (wrPath w) \<and> is_abs (wr_resolved w)"
  using walk_from_abs[of "''/''" h path pid tid "components path" 0 w] clean_path_abs join_abs
  by (auto simp: walk_def wr_resolved_def is_abs_def[of "''/''"] split: if_splits)

lemma resolve_file_abs:
  assumes "resolve_file h e f = Inr p" shows "is_abs p"
proof -
  have longer: "is_abs (q @ r)" if "is_abs q" for q r
    using that by (auto simp: is_abs_def intro: prefix_order.trans)
  have "is_abs full" if "base_dir f = Inr full" for full
    using that longer[of "fpDir f"] by (auto simp: base_dir_def split: if_splits)
  then show ?thesis
    using assms walk_abs clean_path_abs
    by (auto simp: resolve_file_def kernelPath_def enrichLate_def enrich_walk_def
        split: if_splits sum.splits)
qed

lemma Enrich_path_again:
  assumes "Enrich_path h e = (None, e')"
  shows "Enrich_path h' e' = (None, e')"
proof (cases e)
  case (Some ev)
  show ?thesis
  proof (cases "evFile ev")
    case None
    then show ?thesis using assms Some by (auto simp: Enrich_path_def)
  next
    case f: (Some f)
    show ?thesis
    proof (cases "ResolvedPath f = []")
      case True
      then obtain p where p: "resolve_file h ev f = Inr p" "e' = Some (ev\<lparr>evFile := Some (f\<lparr>ResolvedPath := p\<rparr>)\<rparr>)"
        using assms Some f by (auto simp: Enrich_path_def split: sum.splits)
      have "p \<noteq> []" using resolve_file_abs[OF p(1)] by (auto simp: is_abs_def)
      then show ?thesis by (simp add: p(2) Enrich_path_def)
    next
      case False
      then show ?thesis using assms Some f by (auto simp: Enrich_path_def)
    qed
  qed
qed (use assms in \<open>simp add: Enrich_path_def\<close>)

end
