(* ===== verification/Synth.thy ===== *)
theory Synth
  imports Decode
begin

text \<open>
  The generator of synthetic records and events (\<open>internal/telemetry/synth\<close>): an operation is described in
  the record's vocabulary, written as the bytes a probe would have submitted, and decoded by the decoder
  of the live collector. What the record cannot say is refused.
\<close>

section \<open>Descriptions\<close>

record synth_proc =
  ypPID :: "32 word"
  ypTID :: "32 word"
  ypPPID :: "32 word"
  ypUID :: "32 word"
  ypGID :: "32 word"
  ypComm :: string
  ypCgroupID :: "64 word"
  ypStartTime :: "64 word"
  ypExecutable :: string
  ypAncestryDepth :: int

record synth_file =
  yfPath :: string
  yfNewPath :: string
  yfResolvedPath :: string
  yfFlags :: "32 word"
  yfMode :: "32 word"
  yfInode :: "64 word"
  yfDevice :: "64 word"
  yfBytes :: "64 word"
  yfDir :: string
  yfDirFD :: "32 word"
  yfPathFlags :: "32 word"

text \<open>An address that is not valid, \<open>netip\<close>'s zero value, is \<open>None\<close>.\<close>

record synth_net =
  ynFamily :: "16 word"
  ynProtocol :: "16 word"
  ynSockType :: "16 word"
  ynSourceAddr :: "addr option"
  ynDestAddr :: "addr option"
  ynSourcePort :: "16 word"
  ynDestPort :: "16 word"
  ynBytes :: "64 word"
  ynHostname :: string

record synth_exec =
  yeFilename :: string
  yeArgv :: "string list"
  yeInterpreter :: string
  yeBinaryHash :: string
  yeEnvKeys :: "string list"
  yePathFlags :: "32 word"

record synth_spec =
  ysType :: "32 word"
  ysRet :: "32 word"
  ysFlags :: "32 word"
  ysProc :: "synth_proc option"
  ysFile :: "synth_file option"
  ysNet :: "synth_net option"
  ysExec :: "synth_exec option"
  ysDropped :: "64 word"

section \<open>Errors\<close>

definition ErrPayloadMismatch :: msg where
  "ErrPayloadMismatch = Fmt ''synth: payload does not match the event type'' []"

definition ErrValueTooLong :: msg where
  "ErrValueTooLong = Fmt ''synth: value does not fit its fixed-size ABI field'' []"

definition ErrEmbeddedNUL :: msg where
  "ErrEmbeddedNUL = Fmt ''synth: value contains a NUL, which would truncate it in the record'' []"

definition ErrTooManyArgs :: msg where
  "ErrTooManyArgs = Fmt ''synth: more arguments than the record can carry'' []"

definition ErrAddressFamily :: msg where
  "ErrAddressFamily = Fmt ''synth: address does not match the address family'' []"

text \<open>An error ends the writing of a record.\<close>

fun and_next :: "msg + 'a \<Rightarrow> ('a \<Rightarrow> msg + 'b) \<Rightarrow> msg + 'b" where
  "and_next (Inl err) f = Inl err"
| "and_next (Inr x) f = f x"

lemma and_next_Inr: "and_next m f = Inr y \<longleftrightarrow> (\<exists>x. m = Inr x \<and> f x = Inr y)"
  by (cases m) auto

section \<open>Writing fields\<close>

definition put16 :: "nat \<Rightarrow> 16 word \<Rightarrow> string \<Rightarrow> string" where "put16 off w b = write_at b off (le_bytes 2 w)"
definition put32 :: "nat \<Rightarrow> 32 word \<Rightarrow> string \<Rightarrow> string" where "put32 off w b = write_at b off (le_bytes 4 w)"
definition put64 :: "nat \<Rightarrow> 64 word \<Rightarrow> string \<Rightarrow> string" where "put64 off w b = write_at b off (le_bytes 8 w)"

definition putString :: "string \<Rightarrow> nat \<Rightarrow> nat \<Rightarrow> string \<Rightarrow> msg \<Rightarrow> msg + string" where
  "putString raw off size_of s field =
     (if CHR 0x00 \<in> set s then Inl (Fmt ''%w: %s'' [AMsg ErrEmbeddedNUL, AMsg field])
      else if size_of \<le> length s then
        Inl (Fmt ''%w: %s is %d bytes and the field holds %d including the terminator''
          [AMsg ErrValueTooLong, AMsg field, AInt (int (length s)), AInt (int size_of)])
      else Inr (write_at raw off s))"

definition bytes4 :: "32 word \<Rightarrow> string" where
  "bytes4 w = map (\<lambda>k. char_of (unat (drop_bit k w))) [24, 16, 8, 0]"

definition bytes16 :: "128 word \<Rightarrow> string" where
  "bytes16 w =
     map (\<lambda>k. char_of (unat (drop_bit k w)))
       [120, 112, 104, 96, 88, 80, 72, 64, 56, 48, 40, 32, 24, 16, 8, 0]"

definition putAddr :: "string \<Rightarrow> nat \<Rightarrow> 16 word \<Rightarrow> addr option \<Rightarrow> string \<Rightarrow> msg + string" where
  "putAddr raw off family a field =
     (case a of
        None \<Rightarrow> Inr raw
      | Some a \<Rightarrow>
          if family = afInet then
            (case a of
               V4 w \<Rightarrow> Inr (write_at raw off (bytes4 w))
             | V6 _ _ \<Rightarrow>
                 Inl (Fmt ''%w: %s is %s, and AF_INET occupies the first 4 bytes of the field''
                   [AMsg ErrAddressFamily, AStr field, AStr (addr_String a)]))
          else if family = afInet6 then
            (case a of
               V6 w _ \<Rightarrow> Inr (write_at raw off (bytes16 w))
             | V4 _ \<Rightarrow>
                 Inl (Fmt ''%w: %s is %s, and AF_INET6 occupies all 16 bytes of the field''
                   [AMsg ErrAddressFamily, AStr field, AStr (addr_String a)]))
          else
            Inl (Fmt ''%w: %s is %s, and address family %d carries no address of that shape''
              [AMsg ErrAddressFamily, AStr field, AStr (addr_String a), AInt (uint family)]))"

section \<open>Writing a record\<close>

definition putProc :: "string \<Rightarrow> synth_proc \<Rightarrow> msg + string" where
  "putProc raw p =
     (let raw = put64 24 (ypCgroupID p) raw;
          raw = put64 32 (ypStartTime p) raw;
          raw = put32 40 (ypPID p) raw;
          raw = put32 44 (ypTID p) raw;
          raw = put32 48 (ypPPID p) raw;
          raw = put32 52 (ypUID p) raw;
          raw = put32 56 (ypGID p) raw
      in putString raw 64 CommLen (ypComm p) (Fmt ''proc.comm'' []))"

definition synth_reverseDir :: "string \<Rightarrow> string" where
  "synth_reverseDir dir =
     concat (map (\<lambda>p. p @ ''/'') (filter (\<lambda>p. p \<noteq> []) (rev (split_byte CHR ''/'' (trim_set {CHR ''/''} dir)))))"

definition atFDCWD :: "32 word" where "atFDCWD = - 100"

definition putFile :: "string \<Rightarrow> synth_file \<Rightarrow> msg + string" where
  "putFile raw f =
     (let raw = put64 80 (yfInode f) raw;
          raw = put64 88 (yfDevice f) raw;
          raw = put64 96 (yfBytes f) raw;
          raw = put32 104 (yfFlags f) raw;
          raw = put32 108 (yfMode f) raw;
          plain = yfDir f \<noteq> [] \<and> yfPathFlags f = 0;
          flags = yfPathFlags f OR AllseerPathInfo;
          flags = (if plain then flags OR (AllseerDirCwd OR AllseerDirComplete) else flags);
          dirfd = (if plain \<and> yfDirFD f = 0 then atFDCWD else yfDirFD f);
          reversed = (if yfDir f \<noteq> [] then synth_reverseDir (yfDir f) else []);
          raw = put32 112 dirfd raw;
          raw = put32 116 flags raw
      in and_next (putString raw 120 PathMax (yfPath f) (Fmt ''file.path'' [])) (\<lambda>raw.
         and_next (putString raw 2168 DirMax reversed (Fmt ''file.dir'' [])) (\<lambda>raw.
         putString raw 1144 PathMax (yfNewPath f) (Fmt ''file.new_path'' []))))"

definition putLink :: "string \<Rightarrow> synth_file \<Rightarrow> msg + string" where
  "putLink raw f =
     (let raw = put64 80 (yfInode f) raw;
          raw = put64 88 (yfDevice f) raw;
          raw = put32 96 AllseerDirComplete raw;
          raw = (if yfNewPath f \<noteq> [] then put32 100 AllseerDirComplete raw else raw)
      in and_next (putString raw 104 DirMax (synth_reverseDir (yfPath f)) (Fmt ''link.src'' [])) (\<lambda>raw.
         putString raw 616 DirMax (synth_reverseDir (yfNewPath f)) (Fmt ''link.dst'' [])))"

definition putNet :: "string \<Rightarrow> synth_net \<Rightarrow> msg + string" where
  "putNet raw n =
     (let raw = put64 112 (ynBytes n) raw;
          raw = put16 120 (ynSourcePort n) raw;
          raw = put16 122 (ynDestPort n) raw;
          raw = put16 124 (ynFamily n) raw;
          raw = put16 126 (ynProtocol n) raw;
          raw = put16 128 (ynSockType n) raw
      in and_next (putAddr raw 80 (ynFamily n) (ynSourceAddr n) ''net.saddr'') (\<lambda>raw.
         putAddr raw 96 (ynFamily n) (ynDestAddr n) ''net.daddr''))"

fun put_args :: "nat \<Rightarrow> string list \<Rightarrow> string \<Rightarrow> msg + string" where
  "put_args i [] raw = Inr raw"
| "put_args i (a # as) raw =
     and_next (putString raw (1112 + i * ArgLen) ArgLen a (Fmt ''exec.argv[%d]'' [AInt (int i)]))
       (put_args (Suc i) as)"

definition putExec :: "string \<Rightarrow> synth_exec \<Rightarrow> msg + string" where
  "putExec raw x =
     (if ArgvMax < length (yeArgv x) then
        Inl (Fmt ''%w: %d arguments, and struct allseer_exec_payload holds %d''
          [AMsg ErrTooManyArgs, AInt (int (length (yeArgv x))), AInt (int ArgvMax)])
      else
        (let raw = put32 80 (of_nat (length (yeArgv x))) raw;
             raw = put32 84 (yePathFlags x OR AllseerPathInfo) raw
         in and_next (putString raw 88 PathMax (yeFilename x) (Fmt ''exec.filename'' []))
              (put_args 0 (yeArgv x))))"

definition payload_mismatch :: "string \<Rightarrow> arg list \<Rightarrow> msg" where
  "payload_mismatch format args = Fmt (''%w: '' @ format) (AMsg ErrPayloadMismatch # args)"

text \<open>\<open>Spec.check\<close>.\<close>

definition check_spec :: "synth_spec \<Rightarrow> go_error" where
  "check_spec s =
     (let n = length (filter id [ysFile s \<noteq> None, ysNet s \<noteq> None, ysExec s \<noteq> None]);
          typ = EventType (ysType s);
          name = AStr (EventType_String (ysType s))
      in if 1 < n then
           Some (payload_mismatch ''a record carries one payload, and %s designates one union member'' [name])
         else if typ \<in> {EvtFileOpen, EvtFileWrite, EvtFileUnlink, EvtFileRename, EvtFileChmod} then
           (case ysFile s of
              None \<Rightarrow> Some (payload_mismatch ''%s carries struct allseer_file_payload and the spec has none'' [name])
            | Some f \<Rightarrow>
                if yfNewPath f \<noteq> [] \<and> typ \<noteq> EvtFileRename then
                  Some (payload_mismatch
                    ''the header defines new_path as the rename/link destination, so %s would not carry it'' [name])
                else None)
         else if typ = EvtFileLink then
           (case ysFile s of
              Some f \<Rightarrow>
                if prefix ''/'' (yfPath f) then None
                else Some (payload_mismatch ''%s carries the source as the kernel walked it, so the spec needs an absolute File.Path'' [name])
            | None \<Rightarrow> Some (payload_mismatch ''%s carries the source as the kernel walked it, so the spec needs an absolute File.Path'' [name]))
         else if typ = EvtProcExec then
           (if ysExec s = None then
              Some (payload_mismatch ''%s carries struct allseer_exec_payload and the spec has none'' [name])
            else None)
         else if typ \<in> {EvtNetConnect, EvtNetBind, EvtNetSend} then
           (case ysNet s of
              None \<Rightarrow> Some (payload_mismatch ''%s carries struct allseer_net_payload and the spec has none'' [name])
            | Some net \<Rightarrow>
                if ynBytes net \<noteq> 0 \<and> typ \<noteq> EvtNetSend then
                  Some (payload_mismatch ''the header gives `bytes` a direction on %s alone, so %s would not carry it''
                    [AStr (EventType_String (event_number EvtNetSend)), name])
                else None)
         else if 0 < n then Some (payload_mismatch ''%s designates no union member the decoder reads'' [name])
         else None)"

definition putPayload :: "synth_spec \<Rightarrow> string \<Rightarrow> msg + string" where
  "putPayload s raw =
     (case (ysFile s, ysNet s, ysExec s) of
        (Some f, _, _) \<Rightarrow> if EventType (ysType s) = EvtFileLink then putLink raw f else putFile raw f
      | (None, Some n, _) \<Rightarrow> putNet raw n
      | (None, None, Some x) \<Rightarrow> putExec raw x
      | (None, None, None) \<Rightarrow> Inr raw)"

definition synth_record :: "synth_spec \<Rightarrow> synth_proc \<Rightarrow> 64 word \<Rightarrow> msg + string" where
  "synth_record s proc timestamp =
     (case check_spec s of
        Some err \<Rightarrow> Inl err
      | None \<Rightarrow>
          (let raw = replicate RecordSize CHR 0x00;
               raw = put64 0 timestamp raw;
               raw = put32 8 (ysType s) raw;
               raw = put32 12 (ysRet s) raw;
               raw = put32 16 ABIVersion raw;
               raw = put32 20 (ysFlags s) raw
           in and_next (putProc raw proc) (putPayload s)))"

definition zero_synth_proc :: synth_proc where
  "zero_synth_proc = \<lparr>ypPID = 0, ypTID = 0, ypPPID = 0, ypUID = 0, ypGID = 0, ypComm = [], ypCgroupID = 0,
     ypStartTime = 0, ypExecutable = [], ypAncestryDepth = 0\<rparr>"

definition synth_Record :: "synth_spec \<Rightarrow> 64 word \<Rightarrow> msg + string" where
  "synth_Record s timestamp =
     synth_record s (case ysProc s of Some p \<Rightarrow> p | None \<Rightarrow> zero_synth_proc) timestamp"

section \<open>The generator\<close>

record generator_config =
  gcSessionID :: string
  gcProcess :: synth_proc
  gcStartTimestamp :: "64 word"
  gcInterval :: "64 word"
  gcBootWallClock :: time

record generator =
  gnCfg :: generator_config
  gnStep :: "64 word"

definition ErrNoSessionID :: msg where
  "ErrNoSessionID = Fmt ''synth: a session ID is required'' []"

definition NewGenerator :: "generator_config \<Rightarrow> msg + generator" where
  "NewGenerator cfg =
     (if gcSessionID cfg = [] then Inl ErrNoSessionID
      else
        Inr \<lparr>gnCfg = cfg\<lparr>gcStartTimestamp := (if gcStartTimestamp cfg = 0 then 1000000 else gcStartTimestamp cfg),
                       gcInterval := (if gcInterval cfg = 0 then 1000000 else gcInterval cfg)\<rparr>,
             gnStep = 0\<rparr>)"

definition synth_enrich :: "synth_spec \<Rightarrow> synth_proc \<Rightarrow> event \<Rightarrow> event" where
  "synth_enrich s proc e =
     (let e = e\<lparr>evProcess := (evProcess e)\<lparr>Executable := ypExecutable proc, AncestryDepth := ypAncestryDepth proc\<rparr>,
               evDropped := ysDropped s\<rparr>
      in case (ysFile s, evFile e, ysNet s, evNetwork e, ysExec s, evExec e) of
           (Some sf, Some f, _) \<Rightarrow> e\<lparr>evFile := Some (f\<lparr>ResolvedPath := yfResolvedPath sf\<rparr>)\<rparr>
         | (_, _, Some sn, Some n, _) \<Rightarrow> e\<lparr>evNetwork := Some (n\<lparr>Hostname := ynHostname sn\<rparr>)\<rparr>
         | (_, _, _, _, Some sx, Some x) \<Rightarrow>
             e\<lparr>evExec := Some (x\<lparr>Interpreter := yeInterpreter sx, BinaryHash := yeBinaryHash sx,
                                EnvKeys := yeEnvKeys sx\<rparr>)\<rparr>
         | _ \<Rightarrow> e)"

text \<open>The clock and the sequence number advance by the records lost before the event and by the event
  itself; an error leaves the generator where it was.\<close>

definition generator_Next :: "generator \<Rightarrow> synth_spec \<Rightarrow> (msg + event) \<times> generator" where
  "generator_Next g s =
     (let cfg = gnCfg g;
          step = gnStep g + ysDropped s;
          ts = gcStartTimestamp cfg + step * gcInterval cfg;
          proc = (case ysProc s of Some p \<Rightarrow> p | None \<Rightarrow> gcProcess cfg)
      in case synth_record s proc ts of
           Inl err \<Rightarrow> (Inl err, g)
         | Inr raw \<Rightarrow>
             (case Decode raw of
                Inl err \<Rightarrow> (Inl (Fmt ''synth: %w'' [AMsg err]), g)
              | Inr e \<Rightarrow>
                  (let e = synth_enrich s proc e in
                   case Observe (Some e) of
                     Inl err \<Rightarrow> (Inl (Fmt ''synth: resolving the generated event: %w'' [AMsg err]), g)
                   | Inr obs \<Rightarrow>
                       (let e = e\<lparr>evObservation := obs, evSessionID := gcSessionID cfg,
                                 evSequence := step + 1,
                                 evID := gcSessionID cfg @ ''/'' @ itoa (uint (step + 1)),
                                 WallClock := (if gcBootWallClock cfg = 0 then 0 else gcBootWallClock cfg + sint ts)\<rparr>
                        in (Inr e, g\<lparr>gnStep := step + 1\<rparr>)))))"

fun generate_from :: "nat \<Rightarrow> generator \<Rightarrow> synth_spec list \<Rightarrow> (msg + event list) \<times> generator" where
  "generate_from i g [] = (Inr [], g)"
| "generate_from i g (s # ss) =
     (case generator_Next g s of
        (Inl err, g) \<Rightarrow> (Inl (Fmt ''synth: spec %d: %w'' [AInt (int i), AMsg err]), g)
      | (Inr e, g) \<Rightarrow>
          (case generate_from (Suc i) g ss of
             (Inl err, g) \<Rightarrow> (Inl err, g) | (Inr es, g) \<Rightarrow> (Inr (e # es), g)))"

definition generator_Generate :: "generator \<Rightarrow> synth_spec list \<Rightarrow> (msg + event list) \<times> generator" where
  "generator_Generate g ss = generate_from 0 g ss"

end
