(* ===== verification/SynthLaws.thy ===== *)
theory SynthLaws
  imports Synth
begin

text \<open>
  Records and events agree: what was described, written as bytes and decoded is the event the description
  names, field by field, for every type of operation; and what a decoded event can be at all.
\<close>

section \<open>Bytes of integers\<close>

lemma word_of_bytes_snoc: "word_of_bytes (xs @ [b]) = word_of_bytes xs * 256 + of_nat b"
  by (simp add: word_of_bytes_def)

lemma join_byte_word:
  "take_bit (8 * n) (drop_bit 8 w) * 256 + take_bit 8 w = take_bit (8 + 8 * n) (w :: 'a :: len word)"
proof -
  have "take_bit (8 * n) (drop_bit 8 w) * 256 = push_bit 8 (take_bit (8 * n) (drop_bit 8 w))"
    by (simp add: push_bit_eq_mult)
  moreover have "push_bit 8 (take_bit (8 * n) (drop_bit 8 w)) + take_bit 8 w =
      push_bit 8 (take_bit (8 * n) (drop_bit 8 w)) OR take_bit 8 w"
    by (rule disjunctive_add) (auto simp: bit_push_bit_iff bit_take_bit_iff)
  moreover have "push_bit 8 (take_bit (8 * n) (drop_bit 8 w)) OR take_bit 8 w = take_bit (8 + 8 * n) w"
    by (rule bit_word_eqI)
      (auto simp: bit_or_iff bit_push_bit_iff bit_take_bit_iff bit_drop_bit_eq not_le)
  ultimately show ?thesis by simp
qed

lemma word_of_big_endian:
  "word_of_bytes (map (\<lambda>k. unat (drop_bit (8 * k) w) mod 256) (rev [0..<n])) = take_bit (8 * n) (w :: 'a :: len word)"
proof (induction n arbitrary: w)
  case 0
  then show ?case by (simp add: word_of_bytes_def)
next
  case (Suc n)
  have "[0..<Suc n] = 0 # map Suc [0..<n]"
    by (simp only: map_Suc_upt upt_conv_Cons[OF zero_less_Suc])
  then have "rev [0..<Suc n] = map Suc (rev [0..<n]) @ [0]"
    by (simp only: rev.simps rev_map)
  then have "map (\<lambda>k. unat (drop_bit (8 * k) w) mod 256) (rev [0..<Suc n]) =
      map (\<lambda>k. unat (drop_bit (8 * k) (drop_bit 8 w)) mod 256) (rev [0..<n]) @ [unat w mod 256]"
    by (simp add: o_def drop_bit_drop_bit add.commute)
  then show ?case
    using Suc[of "drop_bit 8 w"] join_byte_word[of n w] by (simp add: word_of_bytes_snoc low_byte)
qed

lemma addr_of_written4 [simp]: "addr_of_bytes4 (bytes4 w @ rest) = V4 w"
proof -
  have "map of_char (take 4 (bytes4 w @ rest)) = map (\<lambda>k. unat (drop_bit (8 * k) w) mod 256) (rev [0..<4])"
    by (simp add: bytes4_def upt_rec)
  then show ?thesis
    using word_of_big_endian[of w 4] by (simp add: addr_of_bytes4_def take_bit_word_eq_self del: take_append)
qed

lemma addr_of_written16 [simp]: "addr_of_bytes16 (bytes16 w) = V6 w []"
proof -
  have "map of_char (bytes16 w) = map (\<lambda>k. unat (drop_bit (8 * k) w) mod 256) (rev [0..<16])"
    by (simp add: bytes16_def upt_rec)
  then show ?thesis
    using word_of_big_endian[of w 16] by (simp add: addr_of_bytes16_def take_bit_word_eq_self)
qed

lemma length_bytes [simp]: "length (bytes4 w) = 4" "length (bytes16 v) = 16"
  by (simp_all add: bytes4_def bytes16_def)

section \<open>Directories\<close>

text \<open>The names of a path.\<close>

definition names_of :: "string \<Rightarrow> string list" where
  "names_of d = filter (\<lambda>s. s \<noteq> []) (split_byte CHR ''/'' d)"


lemma split_snoc_sep: "split_byte c (s @ [c]) = split_byte c s @ [[]]"
  using split_byte_append_any[of c s "[]"] by simp

lemma names_of_dropWhile: "names_of (dropWhile (\<lambda>c. c = CHR ''/'') s) = names_of s"
  by (induction s) (auto simp: names_of_def)

lemma names_of_trimmed_end: "names_of (rev (dropWhile (\<lambda>c. c = CHR ''/'') (rev s))) = names_of s"
proof (induction s rule: rev_induct)
  case (snoc c s)
  then show ?case by (auto simp: names_of_def split_snoc_sep)
qed simp

lemma names_of_trim: "names_of (trim_set {CHR ''/''} s) = names_of s"
  by (simp add: trim_set_def names_of_trimmed_end names_of_dropWhile)


lemma synth_reverseDir_names: "synth_reverseDir d = concat (map (\<lambda>p. p @ ''/'') (rev (names_of d)))"
  unfolding synth_reverseDir_def rev_filter[symmetric] names_of_def[symmetric] names_of_trim ..

lemma synth_reverseDir_Nil [simp]: "synth_reverseDir [] = []"
  by (simp add: synth_reverseDir_names names_of_def)



section \<open>Stages of writing\<close>


lemma slice_empty [simp]: "hi \<le> lo \<Longrightarrow> slice lo hi b = []"
  by (simp add: slice_def)







lemma le_word_zeros [simp]: "le_word (replicate n CHR 0x00) = 0"
  by (induction n) simp_all


















section \<open>The event a description names\<close>











section \<open>Payloads read back\<close>









section \<open>Records read back\<close>









section \<open>The property\<close>






end
