(* ===== verification/Collector.thy ===== *)
theory Collector
  imports Decode Tracker Enrich
begin

text \<open>
  The live collector (\<open>internal/telemetry/collector.go\<close>): records drained from the ring are decoded,
  attributed to the session of their cgroup, placed in its tree of processes, enriched, resolved and
  delivered on a channel that is never waited for. What is lost is charged to a session, and the next
  event it is delivered carries the charge.

  The two maps of sessions share one structure per attachment: \<open>clStore\<close> holds the structures, the maps
  hold addresses. The handling of a record has two critical sections, attribution and delivery; other
  goroutines run between them. What loader, kernel counter and file system answer are parameters.
\<close>

section \<open>Data\<close>

text \<open>\<open>csCharged\<close> counts the kernel's losses charged so far; the source does not keep it.\<close>

record coll_session =
  csID :: string
  csCgroup :: "64 word"
  csSeq :: "64 word"
  csPending :: "64 word"
  csDetached :: bool
  csCharged :: "64 word"

text \<open>\<open>clSent\<close> is everything ever put on the channel, with the structure it was sent for; the consumer has
  taken the first \<open>clTaken\<close> of it.\<close>

record collector =
  clStore :: "coll_session list"
  clSessions :: "(string \<times> nat) list"
  clByCgroup :: "(64 word \<times> nat) list"
  clGrace :: "nat list"
  clTracker :: proc_tracker
  clProbes :: "probe_info list"
  clStarted :: bool
  clClosed :: bool
  clSize :: nat
  clSent :: "(nat \<times> event) list"
  clTaken :: nat
  clReceived :: "64 word"
  clDecodeErrs :: "64 word"
  clKernelDrops :: "64 word"
  clOverflow :: "64 word"
  clUnattributed :: "64 word"
  clEnrichErrs :: "64 word"

type_synonym enricher = "event \<Rightarrow> go_error \<times> event"

definition defaultEventChannelSize :: nat where "defaultEventChannelSize = 4096"

definition NewLiveCollector :: "int \<Rightarrow> collector" where
  "NewLiveCollector channel_size =
     \<lparr>clStore = [], clSessions = [], clByCgroup = [], clGrace = [], clTracker = NewProcTracker, clProbes = [],
      clStarted = False, clClosed = False,
      clSize = (if channel_size \<le> 0 then defaultEventChannelSize else nat channel_size),
      clSent = [], clTaken = 0, clReceived = 0, clDecodeErrs = 0, clKernelDrops = 0, clOverflow = 0,
      clUnattributed = 0, clEnrichErrs = 0\<rparr>"

text \<open>The enrichers installed by default.\<close>

definition default_enrichers :: "host_files \<Rightarrow> enricher list" where
  "default_enrichers h =
     map (\<lambda>f ev. case f (Some ev) of (err, Some ev) \<Rightarrow> (err, ev) | (err, None) \<Rightarrow> (err, ev))
       [Enrich_path h, Enrich_exec h []]"

section \<open>Starting\<close>

definition isFloor :: "string \<Rightarrow> bool" where
  "isFloor name \<longleftrightarrow> name = ProgProcExec \<or> name = ProgProcExit"

definition probe_error :: "string list \<Rightarrow> (string \<Rightarrow> string option) \<Rightarrow> probe_descriptor \<Rightarrow> string option" where
  "probe_error enabled attach d =
     (if enabled \<noteq> [] \<and> pdName d \<notin> set enabled \<and> pdFamily d \<notin> set enabled \<and> \<not> isFloor (pdName d)
      then Some ''not enabled by configuration''
      else attach (pdName d))"

text \<open>\<open>reported\<close>: what a loader that keeps the status of its probes itself says of them.\<close>

definition attachLocked ::
  "string list \<Rightarrow> (string \<Rightarrow> string option) \<Rightarrow> probe_info list option \<Rightarrow> probe_info list" where
  "attachLocked enabled attach reported =
     (let errs = map_of (map (\<lambda>d. (pdName d, probe_error enabled attach d)) AllProbes);
          error_of = (\<lambda>n. case errs n of Some (Some e) \<Rightarrow> e | _ \<Rightarrow> [])
      in case reported of
           Some probes \<Rightarrow> map (\<lambda>p. if piError p = [] then p\<lparr>piError := error_of (piName p)\<rparr> else p) probes
         | None \<Rightarrow>
             map (\<lambda>d. \<lparr>piName = pdName d, piFamily = pdFamily d, piType = pdType d,
                 piAttachPoint = pdAttachPoint d, piCapabilities = capabilitiesFor [d], piLoaded = True,
                 piAttached = (errs (pdName d) = Some None), piError = error_of (pdName d)\<rparr>) AllProbes)"

definition floorAttached :: "probe_info list \<Rightarrow> bool" where
  "floorAttached probes \<longleftrightarrow>
     (\<forall>n\<in>{ProgProcExec, ProgProcExit}.
        case find (\<lambda>p. piName p = n) (rev probes) of None \<Rightarrow> False | Some p \<Rightarrow> piAttached p)"

datatype start_error = StartClosed | LoadError msg | TelemetryFloor | CoreUnobservable "kind list" | RingError msg

text \<open>\<open>load\<close> and \<open>ring\<close>: the errors of loading the object and of opening the ring, where there is one.\<close>

definition collector_Start ::
  "go_error \<Rightarrow> string list \<Rightarrow> (string \<Rightarrow> string option) \<Rightarrow> probe_info list option \<Rightarrow> go_error \<Rightarrow>
     collector \<Rightarrow> start_error option \<times> collector" where
  "collector_Start load enabled attach reported ring c =
     (if clClosed c then (Some StartClosed, c)
      else if clStarted c then (None, c)
      else
        (case load of
           Some err \<Rightarrow> (Some (LoadError err), c)
         | None \<Rightarrow>
             (let probes = attachLocked enabled attach reported; c = c\<lparr>clProbes := probes\<rparr>;
                  core = UnobservableCore (ComputeCoverage probes)
              in if \<not> floorAttached probes then (Some TelemetryFloor, c)
                 else if core \<noteq> [] then (Some (CoreUnobservable core), c)
                 else
                   (case ring of
                      Some err \<Rightarrow> (Some (RingError err), c)
                    | None \<Rightarrow> (None, c\<lparr>clStarted := True\<rparr>)))))"

section \<open>Sessions\<close>

datatype attach_error = AttachIncomplete | AttachNotStarted | AttachTwice | AttachMap msg

definition live_at :: "nat option \<Rightarrow> collector \<Rightarrow> bool" where
  "live_at a c = (case a of None \<Rightarrow> False | Some a \<Rightarrow> \<not> csDetached (clStore c ! a))"

definition AttachCgroup ::
  "go_error \<Rightarrow> string \<Rightarrow> 64 word \<Rightarrow> 32 word \<Rightarrow> collector \<Rightarrow> attach_error option \<times> collector" where
  "AttachCgroup update sid cgroup root_pid c =
     (if sid = [] \<or> cgroup = 0 then (Some AttachIncomplete, c)
      else if \<not> clStarted c \<or> clClosed c then (Some AttachNotStarted, c)
      else if live_at (map_of (clSessions c) sid) c then (Some AttachTwice, c)
      else if live_at (map_of (clByCgroup c) cgroup) c then (Some AttachTwice, c)
      else
        (let a = length (clStore c);
             s = \<lparr>csID = sid, csCgroup = cgroup, csSeq = 0, csPending = 0, csDetached = False, csCharged = 0\<rparr>;
             c = c\<lparr>clStore := clStore c @ [s], clSessions := AList.update sid a (clSessions c),
                   clByCgroup := AList.update cgroup a (clByCgroup c),
                   clTracker := (if 0 < sint root_pid then TrackRoot sid root_pid (clTracker c) else clTracker c)\<rparr>
         in case update of
              None \<Rightarrow> (None, c)
            | Some err \<Rightarrow>
                (Some (AttachMap err),
                 c\<lparr>clSessions := AList.delete sid (clSessions c), clByCgroup := AList.delete cgroup (clByCgroup c),
                   clTracker := ForgetSession sid (clTracker c)\<rparr>)))"

text \<open>Detaching: the structure is marked and, after a grace period, forgotten.\<close>

definition change_session :: "nat \<Rightarrow> (coll_session \<Rightarrow> coll_session) \<Rightarrow> collector \<Rightarrow> collector" where
  "change_session a f c = c\<lparr>clStore := (clStore c)[a := f (clStore c ! a)]\<rparr>"

definition DetachSession :: "string \<Rightarrow> collector \<Rightarrow> bool \<times> collector" where
  "DetachSession sid c =
     (case map_of (clSessions c) sid of
        None \<Rightarrow> (False, c)
      | Some a \<Rightarrow>
          if csDetached (clStore c ! a) then (False, c)
          else
            (let c = change_session a (\<lambda>s. s\<lparr>csDetached := True\<rparr>) c
             in (True, c\<lparr>clGrace := clGrace c @ [a]\<rparr>)))"

definition grace_over :: "nat \<Rightarrow> collector \<Rightarrow> collector" where
  "grace_over a c =
     (let s = clStore c ! a in
      c\<lparr>clGrace := remove1 a (clGrace c),
        clSessions := (if map_of (clSessions c) (csID s) = Some a then AList.delete (csID s) (clSessions c)
                       else clSessions c),
        clByCgroup := (if map_of (clByCgroup c) (csCgroup s) = Some a
                       then AList.delete (csCgroup s) (clByCgroup c) else clByCgroup c),
        clTracker := ForgetSession (csID s) (clTracker c)\<rparr>)"

definition collector_Close :: "collector \<Rightarrow> collector" where
  "collector_Close c = c\<lparr>clClosed := True\<rparr>"

section \<open>Records\<close>

text \<open>\<open>pollKernelDrops\<close>: the counter is of the whole ring, so its increase is charged to every session
  attached. \<open>counter\<close> is what reading it gives, \<open>before\<close> what it gave last.\<close>

definition charge_loss :: "64 word \<Rightarrow> coll_session \<Rightarrow> coll_session" where
  "charge_loss n s = s\<lparr>csPending := csPending s + n, csCharged := csCharged s + n\<rparr>"

definition pollKernelDrops :: "msg + 64 word \<Rightarrow> 64 word \<Rightarrow> collector \<Rightarrow> 64 word \<times> collector" where
  "pollKernelDrops counter before c =
     (case counter of
        Inl _ \<Rightarrow> (before, c)
      | Inr n \<Rightarrow>
          if n \<le> before then (before, c)
          else
            (let held = snd ` set (clSessions c) in
             (n, c\<lparr>clKernelDrops := clKernelDrops c + (n - before),
                   clStore := map (\<lambda>(a, s). if a \<in> held \<and> \<not> csDetached s then charge_loss (n - before) s else s)
                     (enumerate 0 (clStore c))\<rparr>)))"

text \<open>The first critical section: whose record it is, and its number.\<close>

definition collect_attribute :: "string \<Rightarrow> collector \<Rightarrow> (nat \<times> event) option \<times> collector" where
  "collect_attribute rec c =
     (case Decode rec of
        Inl _ \<Rightarrow> (None, c\<lparr>clDecodeErrs := clDecodeErrs c + 1\<rparr>)
      | Inr ev \<Rightarrow>
          (let c = c\<lparr>clReceived := clReceived c + 1\<rparr> in
           case map_of (clByCgroup c) (CgroupID (evProcess ev)) of
             None \<Rightarrow> (None, c\<lparr>clUnattributed := clUnattributed c + 1\<rparr>)
           | Some a \<Rightarrow>
               (let c = change_session a (\<lambda>s. s\<lparr>csSeq := csSeq s + 1\<rparr>) c; s = clStore c ! a
                in (Some (a, ev\<lparr>evSessionID := csID s, evSequence := csSeq s,
                     evID := csID s @ ''/'' @ itoa (uint (csSeq s))\<rparr>), c))))"

definition placed :: "string \<Rightarrow> event \<Rightarrow> proc_tracker \<Rightarrow> event \<times> proc_tracker" where
  "placed sid ev t =
     (let p = evProcess ev;
          (depth, t) = tracker_Observe sid (PID p) (StartTime p) (PPID p) t;
          p = (if 0 < depth then p\<lparr>AncestryDepth := depth\<rparr> else p);
          p = (if Executable p = [] \<and> evCapability ev \<noteq> KindProcessExec
               then p\<lparr>Executable := tracker_Executable (PID p) (StartTime p) t\<rparr> else p)
      in (ev\<lparr>evProcess := p\<rparr>, t))"

definition enriched :: "enricher list \<Rightarrow> event \<Rightarrow> 64 word \<times> event" where
  "enriched enrichers ev =
     fold (\<lambda>en (errs, ev). case en ev of (err, ev) \<Rightarrow> (if err = None then errs else errs + 1, ev))
       enrichers (0, ev)"

definition settled :: "event \<Rightarrow> proc_tracker \<Rightarrow> event \<times> proc_tracker" where
  "settled ev t =
     (let p = evProcess ev;
          t = (if evCapability ev = KindProcessExec \<and> Executable p \<noteq> []
               then SetExecutable (PID p) (StartTime p) (Executable p) t else t);
          ev = (case Observe (Some ev) of Inr obs \<Rightarrow> ev\<lparr>evObservation := obs\<rparr> | Inl _ \<Rightarrow> ev);
          t = (if evCapability ev = KindProcessExit then Untrack (PID p) (StartTime p) t else t)
      in (ev, t))"

text \<open>What happens outside the lock: ancestry, enrichment, the observation.\<close>

definition collect_enrich :: "enricher list \<Rightarrow> nat \<Rightarrow> event \<Rightarrow> collector \<Rightarrow> event \<times> collector" where
  "collect_enrich enrichers a ev c =
     (let (ev, t) = placed (csID (clStore c ! a)) ev (clTracker c);
          (errs, ev) = enriched enrichers ev;
          (ev, t) = settled ev t
      in (ev, c\<lparr>clTracker := t, clEnrichErrs := clEnrichErrs c + errs\<rparr>))"

text \<open>The second critical section: a full channel loses the event, and the session is charged.\<close>

definition collect_deliver :: "nat \<Rightarrow> event \<Rightarrow> collector \<Rightarrow> collector" where
  "collect_deliver a ev c =
     (let ev = ev\<lparr>evDropped := csPending (clStore c ! a)\<rparr> in
      if length (clSent c) - clTaken c < clSize c then
        (change_session a (\<lambda>s. s\<lparr>csPending := 0\<rparr>) c)\<lparr>clSent := clSent c @ [(a, ev)]\<rparr>
      else
        (change_session a (\<lambda>s. s\<lparr>csPending := csPending s + 1\<rparr>) c)\<lparr>clOverflow := clOverflow c + 1\<rparr>)"

definition collect_finish :: "enricher list \<Rightarrow> nat \<Rightarrow> event \<Rightarrow> collector \<Rightarrow> collector" where
  "collect_finish enrichers a ev c =
     (let (ev, c) = collect_enrich enrichers a ev c in collect_deliver a ev c)"

text \<open>\<open>handle\<close>, uninterrupted.\<close>

definition collector_handle :: "enricher list \<Rightarrow> string \<Rightarrow> collector \<Rightarrow> collector" where
  "collector_handle enrichers rec c =
     (case collect_attribute rec c of
        (None, c) \<Rightarrow> c
      | (Some (a, ev), c) \<Rightarrow> collect_finish enrichers a ev c)"

text \<open>The consumer takes the next event.\<close>

definition collector_take :: "collector \<Rightarrow> event option \<times> collector" where
  "collector_take c =
     (if clTaken c < length (clSent c)
      then (Some (snd (clSent c ! clTaken c)), c\<lparr>clTaken := Suc (clTaken c)\<rparr>) else (None, c))"

definition collector_Sessions :: "collector \<Rightarrow> nat" where
  "collector_Sessions c = length (filter (\<lambda>(sid, a). \<not> csDetached (clStore c ! a)) (clSessions c))"

definition collector_DroppedEvents :: "collector \<Rightarrow> 64 word" where
  "collector_DroppedEvents c = clKernelDrops c + clOverflow c"

section \<open>Runs\<close>

text \<open>
  The state of a run: the collector, the record the drain goroutine is between the two critical sections
  of, and the last reading of the kernel's counter. The drain goroutine takes a record or reads the
  counter when it holds none; the other operations come at any time.
\<close>

type_synonym collecting = "collector \<times> (nat \<times> event) option \<times> 64 word"

inductive collector_step :: "collecting \<Rightarrow> collecting \<Rightarrow> bool" where
  cs_start: "collector_step (c, q, k) (snd (collector_Start load enabled attach reported ring c), q, k)"
| cs_attach: "collector_step (c, q, k) (snd (AttachCgroup update sid cgroup pid c), q, k)"
| cs_detach: "collector_step (c, q, k) (snd (DetachSession sid c), q, k)"
| cs_grace: "a \<in> set (clGrace c) \<Longrightarrow> collector_step (c, q, k) (grace_over a c, q, k)"
| cs_close: "collector_step (c, q, k) (collector_Close c, q, k)"
| cs_take: "collector_step (c, q, k) (snd (collector_take c), q, k)"
| cs_poll: "pollKernelDrops counter k c = (k', c') \<Longrightarrow> collector_step (c, None, k) (c', None, k')"
| cs_record: "collect_attribute rec c = (q, c') \<Longrightarrow> collector_step (c, None, k) (c', q, k)"
| cs_finish: "collector_step (c, Some (a, ev), k) (collect_finish (default_enrichers h) a ev c, None, k)"

inductive collector_reachable :: "collecting \<Rightarrow> bool" where
  cr_new: "collector_reachable (NewLiveCollector channel_size, None, 0)"
| cr_step: "collector_reachable s \<Longrightarrow> collector_step s s' \<Longrightarrow> collector_reachable s'"

section \<open>No loss goes unreported\<close>

definition sent_to :: "nat \<Rightarrow> collector \<Rightarrow> event list" where
  "sent_to a c = map snd (filter (\<lambda>x. fst x = a) (clSent c))"

definition reported_to :: "nat \<Rightarrow> collector \<Rightarrow> 64 word" where
  "reported_to a c = sum_list (map evDropped (sent_to a c))"

text \<open>
  The numbers given out for a session are accounted for: the events delivered, the one being handled,
  and what was lost, which is either reported with a delivered event or waits to be; the losses of the
  kernel that were charged to the session are reported along with them.
\<close>

definition losses_accounted :: "nat \<Rightarrow> (nat \<times> event) option \<Rightarrow> collector \<Rightarrow> bool" where
  "losses_accounted a q c \<longleftrightarrow>
     (let s = clStore c ! a in
      csSeq s + csCharged s =
        of_nat (length (sent_to a c)) + (if map_option fst q = Some a then 1 else 0) +
        (reported_to a c + csPending s))"

definition addresses_ok :: "(nat \<times> event) option \<Rightarrow> collector \<Rightarrow> bool" where
  "addresses_ok q c \<longleftrightarrow>
     (\<forall>k a. map_of (clSessions c) k = Some a \<longrightarrow> a < length (clStore c)) \<and>
     (\<forall>k a. map_of (clByCgroup c) k = Some a \<longrightarrow> a < length (clStore c) \<and> csCgroup (clStore c ! a) = k) \<and>
     (\<forall>x\<in>set (clSent c). fst x < length (clStore c)) \<and>
     (\<forall>a ev. q = Some (a, ev) \<longrightarrow> a < length (clStore c))"

text \<open>An event carries the name of the session that holds its cgroup.\<close>

definition attributed :: "nat \<Rightarrow> event \<Rightarrow> collector \<Rightarrow> bool" where
  "attributed a ev c \<longleftrightarrow>
     evSessionID ev = csID (clStore c ! a) \<and> CgroupID (evProcess ev) = csCgroup (clStore c ! a)"

definition collecting_ok :: "(nat \<times> event) option \<Rightarrow> collector \<Rightarrow> bool" where
  "collecting_ok q c \<longleftrightarrow> addresses_ok q c \<and>
     (\<forall>a<length (clStore c). losses_accounted a q c) \<and>
     (\<forall>(a, ev)\<in>set (clSent c). attributed a ev c) \<and> (\<forall>a ev. q = Some (a, ev) \<longrightarrow> attributed a ev c)"

text \<open>Steps that keep what is attached.\<close>

lemma collecting_ok_kept:
  assumes "collecting_ok q c" "clStore c' = clStore c" "clSent c' = clSent c"
    and "\<And>k a. map_of (clSessions c') k = Some a \<Longrightarrow> map_of (clSessions c) k = Some a"
    and "\<And>k a. map_of (clByCgroup c') k = Some a \<Longrightarrow> map_of (clByCgroup c) k = Some a"
  shows "collecting_ok q c'"
proof -
  have "losses_accounted a q c' = losses_accounted a q c" for a
    by (simp add: losses_accounted_def sent_to_def reported_to_def assms(2,3))
  then show ?thesis
    using assms(1,4,5) unfolding collecting_ok_def addresses_ok_def attributed_def assms(2,3) by blast
qed

text \<open>Steps that change one structure's counters, or all of them.\<close>

definition same_identity :: "coll_session list \<Rightarrow> coll_session list \<Rightarrow> bool" where
  "same_identity xs ys \<longleftrightarrow> length xs = length ys \<and>
     (\<forall>a<length xs. csID (ys ! a) = csID (xs ! a) \<and> csCgroup (ys ! a) = csCgroup (xs ! a))"

lemma collecting_ok_changed:
  assumes ok: "collecting_ok q c" and same: "same_identity (clStore c) (clStore c')"
    and maps: "clSessions c' = clSessions c" "clByCgroup c' = clByCgroup c"
    and sent: "\<And>a ev. (a, ev) \<in> set (clSent c') \<Longrightarrow> (a, ev) \<notin> set (clSent c) \<Longrightarrow>
      a < length (clStore c) \<and> attributed a ev c"
    and flight: "\<And>a ev. q' = Some (a, ev) \<Longrightarrow> q = Some (a, ev) \<or> a < length (clStore c) \<and> attributed a ev c"
    and counts: "\<And>a. a < length (clStore c) \<Longrightarrow> losses_accounted a q c \<Longrightarrow> losses_accounted a q' c'"
  shows "collecting_ok q' c'"
proof -
  have len: "length (clStore c') = length (clStore c)" using same by (simp add: same_identity_def)
  have ids: "a < length (clStore c) \<Longrightarrow> csID (clStore c' ! a) = csID (clStore c ! a)"
    "a < length (clStore c) \<Longrightarrow> csCgroup (clStore c' ! a) = csCgroup (clStore c ! a)" for a
    using same by (simp_all add: same_identity_def)
  have att: "a < length (clStore c) \<Longrightarrow> attributed a ev c' = attributed a ev c" for a ev
    by (simp add: attributed_def ids)
  have old: "a < length (clStore c) \<and> attributed a ev c" if "(a, ev) \<in> set (clSent c) \<or> q = Some (a, ev)" for a ev
    using ok that unfolding collecting_ok_def addresses_ok_def by fastforce
  have addr: "addresses_ok q' c'"
    using ok old sent flight unfolding collecting_ok_def addresses_ok_def len maps by (fastforce simp: ids)
  have "attributed a ev c'" if "(a, ev) \<in> set (clSent c') \<or> q' = Some (a, ev)" for a ev
  proof -
    have "a < length (clStore c) \<and> attributed a ev c" using that old sent flight by blast
    then show ?thesis by (simp add: att)
  qed
  moreover have "losses_accounted a q' c'" if "a < length (clStore c)" for a
    using counts[OF that] ok that by (simp add: collecting_ok_def)
  ultimately show ?thesis using addr by (auto simp: collecting_ok_def len)
qed

lemma same_identity_update:
  "csID (f (xs ! a)) = csID (xs ! a) \<Longrightarrow> csCgroup (f (xs ! a)) = csCgroup (xs ! a) \<Longrightarrow>
     same_identity xs (xs[a := f (xs ! a)])"
  by (cases "a < length xs") (auto simp: same_identity_def nth_list_update)


lemma change_session_simps [simp]:
  "clSent (change_session a f c) = clSent c" "clSessions (change_session a f c) = clSessions c"
  "clByCgroup (change_session a f c) = clByCgroup c" "clTaken (change_session a f c) = clTaken c"
  "clStore (change_session a f c) = (clStore c)[a := f (clStore c ! a)]"
  by (simp_all add: change_session_def)

lemma accounted_change:
  assumes "losses_accounted b q c" "a < length (clStore c)"
    and "csSeq (f (clStore c ! a)) = csSeq (clStore c ! a)" "csPending (f (clStore c ! a)) = csPending (clStore c ! a)"
      "csCharged (f (clStore c ! a)) = csCharged (clStore c ! a)"
  shows "losses_accounted b q (change_session a f c)"
  using assms by (cases "a = b") (simp_all add: losses_accounted_def sent_to_def reported_to_def Let_def)

lemma Start_ok:
  assumes "collecting_ok q c"
  shows "collecting_ok q (snd (collector_Start load enabled attach reported ring c))"
  by (rule collecting_ok_kept[OF assms]) (auto simp: collector_Start_def Let_def split: option.splits if_splits)

lemma grace_ok:
  assumes "collecting_ok q c"
  shows "collecting_ok q (grace_over a c)"
  by (rule collecting_ok_kept[OF assms]) (auto simp: grace_over_def Let_def delete_conv' split: if_splits)

lemma take_ok:
  assumes "collecting_ok q c"
  shows "collecting_ok q (snd (collector_take c))"
  by (rule collecting_ok_kept[OF assms]) (auto simp: collector_take_def split: if_splits)

lemma close_ok:
  assumes "collecting_ok q c"
  shows "collecting_ok q (collector_Close c)"
  by (rule collecting_ok_kept[OF assms]) (auto simp: collector_Close_def)

lemma detach_ok:
  assumes ok: "collecting_ok q c"
  shows "collecting_ok q (snd (DetachSession sid c))"
proof (cases "map_of (clSessions c) sid")
  case (Some a)
  then have a: "a < length (clStore c)" using ok by (auto simp: collecting_ok_def addresses_ok_def)
  let ?f = "\<lambda>s. s\<lparr>csDetached := True\<rparr>"
  have "collecting_ok q (change_session a ?f c)"
    by (rule collecting_ok_changed[OF ok])
      (use a accounted_change[of _ q c a ?f] in \<open>auto intro!: same_identity_update\<close>)
  then have "collecting_ok q ((change_session a ?f c)\<lparr>clGrace := clGrace c @ [a]\<rparr>)"
    by (rule collecting_ok_kept) simp_all
  then show ?thesis using Some ok by (simp add: DetachSession_def Let_def change_session_def)
qed (use ok in \<open>simp add: DetachSession_def\<close>)

text \<open>A new attachment starts with nothing to account for.\<close>

lemma attach_ok:
  assumes ok: "collecting_ok q c"
  shows "collecting_ok q (snd (AttachCgroup update sid cgroup pid c))"
proof -
  let ?a = "length (clStore c)"
  let ?s = "\<lparr>csID = sid, csCgroup = cgroup, csSeq = 0, csPending = 0, csDetached = False, csCharged = 0\<rparr>"
  let ?c = "\<lambda>t. c\<lparr>clStore := clStore c @ [?s], clSessions := AList.update sid ?a (clSessions c),
      clByCgroup := AList.update cgroup ?a (clByCgroup c), clTracker := t\<rparr>"
  have old: "\<forall>x\<in>set (clSent c). fst x < ?a" "\<forall>a ev. q = Some (a, ev) \<longrightarrow> a < ?a"
    using ok by (simp_all add: collecting_ok_def addresses_ok_def)
  have new: "sent_to ?a c = []" "map_option fst q \<noteq> Some ?a"
    using old by (fastforce simp: sent_to_def filter_empty_conv, auto)
  have addr: "addresses_ok q (?c t)" for t
    using ok unfolding collecting_ok_def addresses_ok_def
    by (fastforce simp: update_conv' nth_append split: if_splits)
  have "losses_accounted b q (?c t)" if "b < Suc ?a" for b t
  proof (cases "b = ?a")
    case True
    then show ?thesis using new by (simp add: losses_accounted_def reported_to_def sent_to_def Let_def)
  next
    case False
    then have b: "b < ?a" using that by simp
    then have "losses_accounted b q c" using ok by (simp add: collecting_ok_def)
    then show ?thesis using b by (simp add: losses_accounted_def reported_to_def sent_to_def nth_append)
  qed
  moreover have "attributed b ev (?c t) = attributed b ev c" if "b < ?a" for b ev t
    using that by (simp add: attributed_def nth_append)
  ultimately have put: "collecting_ok q (?c t)" for t
    using addr ok old unfolding collecting_ok_def by (fastforce simp: split_beta)
  have "collecting_ok q ((?c t)\<lparr>clSessions := AList.delete sid (clSessions (?c t)),
      clByCgroup := AList.delete cgroup (clByCgroup (?c t)), clTracker := t'\<rparr>)" for t t'
    by (rule collecting_ok_kept[OF put[of t]]) (auto simp: delete_conv' split: if_splits)
  then show ?thesis
    using ok put[of "clTracker c"] put[of "TrackRoot sid pid (clTracker c)"]
    by (cases update; cases "0 < sint pid") (simp_all add: AttachCgroup_def Let_def)
qed

lemma poll_ok:
  assumes ok: "collecting_ok q c" and run: "pollKernelDrops counter k c = (k', c')"
  shows "collecting_ok q c'"
proof (cases "\<exists>n. counter = Inr n \<and> \<not> n \<le> k")
  case True
  then obtain n where n: "counter = Inr n" "\<not> n \<le> k" by blast
  let ?held = "snd ` set (clSessions c)"
  let ?f = "\<lambda>(a, s). if a \<in> ?held \<and> \<not> csDetached s then charge_loss (n - k) s else s"
  have c': "c' = c\<lparr>clKernelDrops := clKernelDrops c + (n - k), clStore := map ?f (enumerate 0 (clStore c))\<rparr>"
    using run n by (auto simp: pollKernelDrops_def Let_def)
  have nth: "clStore c' ! a = (if a \<in> ?held \<and> \<not> csDetached (clStore c ! a) then charge_loss (n - k) (clStore c ! a)
      else clStore c ! a)" if "a < length (clStore c)" for a
    using that by (simp add: c' nth_enumerate_eq)
  show ?thesis
  proof (rule collecting_ok_changed[OF ok])
    show "same_identity (clStore c) (clStore c')"
      unfolding same_identity_def using nth by (auto simp: c' charge_loss_def)
    show "losses_accounted a q c'" if "a < length (clStore c)" "losses_accounted a q c" for a
      using that nth[OF that(1)]
      by (simp add: losses_accounted_def sent_to_def reported_to_def c' charge_loss_def Let_def algebra_simps)
  qed (auto simp: c')
next
  case False
  then have "c' = c" using run by (auto simp: pollKernelDrops_def split: sum.splits)
  then show ?thesis using ok by simp
qed

lemma attribute_ok:
  assumes ok: "collecting_ok None c" and run: "collect_attribute rec c = (q, c')"
  shows "collecting_ok q c'"
proof (cases "\<exists>ev a. Decode rec = Inr ev \<and> map_of (clByCgroup c) (CgroupID (evProcess ev)) = Some a")
  case True
  then obtain ev a where ev: "Decode rec = Inr ev" "map_of (clByCgroup c) (CgroupID (evProcess ev)) = Some a" by blast
  then have a: "a < length (clStore c)" "csCgroup (clStore c ! a) = CgroupID (evProcess ev)"
    using ok by (auto simp: collecting_ok_def addresses_ok_def)
  let ?f = "\<lambda>s. s\<lparr>csSeq := csSeq s + 1\<rparr>"
  let ?c = "change_session a ?f (c\<lparr>clReceived := clReceived c + 1\<rparr>)"
  have c': "c' = ?c" "\<exists>ev'. q = Some (a, ev') \<and> evSessionID ev' = csID (clStore c ! a) \<and>
      CgroupID (evProcess ev') = csCgroup (clStore c ! a)"
    using run ev a by (auto simp: collect_attribute_def Let_def)
  show ?thesis
  proof (rule collecting_ok_changed[OF ok])
    show "same_identity (clStore c) (clStore c')" by (simp add: c'(1) same_identity_update)
    show "losses_accounted b q c'" if "b < length (clStore c)" "losses_accounted b None c" for b
      using that c'(2) a(1) by (auto simp: losses_accounted_def sent_to_def reported_to_def c'(1) Let_def nth_list_update)
  qed (use a c' in \<open>auto simp: attributed_def\<close>)
next
  case False
  then have "q = None \<and> clStore c' = clStore c \<and> clSent c' = clSent c \<and> clSessions c' = clSessions c \<and>
      clByCgroup c' = clByCgroup c"
    using run by (auto simp: collect_attribute_def Let_def split: sum.splits option.splits)
  then show ?thesis using collecting_ok_kept[OF ok, of c'] by simp
qed

text \<open>Neither enricher touches what an event is attributed by.\<close>

lemma Enrich_path_keeps:
  "Enrich_path h (Some ev) = (err, e') \<Longrightarrow> \<exists>f. e' = Some (ev\<lparr>evFile := f\<rparr>)"
  by (cases "evFile ev") (auto simp: Enrich_path_def split: if_splits sum.splits intro: exI[of _ "evFile ev"])

lemma Enrich_exec_keeps:
  "Enrich_exec h proc (Some ev) = (err, e') \<Longrightarrow> \<exists>x. e' = Some (ev\<lparr>evProcess := (evProcess ev)\<lparr>Executable := x\<rparr>\<rparr>)"
  by (auto simp: Enrich_exec_def Let_def split: if_splits sum.splits option.splits
      intro: exI[of _ "Executable (evProcess ev)"])

lemma collect_enrich_parts:
  assumes "collect_enrich (default_enrichers h) a ev c = (ev', c')"
  shows "evSessionID ev' = evSessionID ev \<and> CgroupID (evProcess ev') = CgroupID (evProcess ev) \<and>
    evSequence ev' = evSequence ev \<and>
    clStore c' = clStore c \<and> clSent c' = clSent c \<and> clSessions c' = clSessions c \<and>
    clByCgroup c' = clByCgroup c \<and> clTaken c' = clTaken c \<and> clSize c' = clSize c"
proof -
  obtain ev1 t1 where one: "placed (csID (clStore c ! a)) ev (clTracker c) = (ev1, t1)" by fastforce
  obtain errs ev2 where two: "enriched (default_enrichers h) ev1 = (errs, ev2)" by fastforce
  obtain ev3 t3 where three: "settled ev2 t1 = (ev3, t3)" by fastforce
  have s1: "evSessionID ev1 = evSessionID ev \<and> CgroupID (evProcess ev1) = CgroupID (evProcess ev) \<and>
      evSequence ev1 = evSequence ev"
    using one by (auto simp: placed_def Let_def split: prod.splits)
  obtain e1 x1 where p: "Enrich_path h (Some ev1) = (e1, x1)" by fastforce
  obtain f where f: "x1 = Some (ev1\<lparr>evFile := f\<rparr>)" using Enrich_path_keeps[OF p] by blast
  obtain e2 x2 where x: "Enrich_exec h [] (Some (ev1\<lparr>evFile := f\<rparr>)) = (e2, x2)" by fastforce
  obtain exe where exe: "x2 = Some ((ev1\<lparr>evFile := f\<rparr>)\<lparr>evProcess := (evProcess (ev1\<lparr>evFile := f\<rparr>))\<lparr>Executable := exe\<rparr>\<rparr>)"
    using Enrich_exec_keeps[OF x] by blast
  have s2: "evSessionID ev2 = evSessionID ev1 \<and> CgroupID (evProcess ev2) = CgroupID (evProcess ev1) \<and>
      evSequence ev2 = evSequence ev1"
    using two p f x exe by (auto simp: enriched_def default_enrichers_def)
  have s3: "evSessionID ev3 = evSessionID ev2 \<and> CgroupID (evProcess ev3) = CgroupID (evProcess ev2) \<and>
      evSequence ev3 = evSequence ev2"
    using three by (auto simp: settled_def Let_def split: sum.splits)
  have "ev' = ev3 \<and> c' = c\<lparr>clTracker := t3, clEnrichErrs := clEnrichErrs c + errs\<rparr>"
    using assms one two three by (simp add: collect_enrich_def)
  then show ?thesis using s1 s2 s3 by simp
qed

lemma finish_ok:
  assumes ok: "collecting_ok (Some (a, ev)) c"
  shows "collecting_ok None (collect_finish (default_enrichers h) a ev c)"
proof -
  obtain ev1 c1 where e: "collect_enrich (default_enrichers h) a ev c = (ev1, c1)" by fastforce
  note p = collect_enrich_parts[OF e]
  have ok1: "collecting_ok (Some (a, ev)) c1" by (rule collecting_ok_kept[OF ok]) (simp_all add: p)
  have a: "a < length (clStore c1)" "attributed a ev c1"
    using ok1 by (simp_all add: collecting_ok_def addresses_ok_def)
  then have att: "attributed a (ev1\<lparr>evDropped := n\<rparr>) c1" for n using p by (simp add: attributed_def)
  show ?thesis
  proof (cases "length (clSent c1) - clTaken c1 < clSize c1")
    case True
    let ?ev = "ev1\<lparr>evDropped := csPending (clStore c1 ! a)\<rparr>"
    let ?c = "(change_session a (\<lambda>s. s\<lparr>csPending := 0\<rparr>) c1)\<lparr>clSent := clSent c1 @ [(a, ?ev)]\<rparr>"
    have "collecting_ok None ?c"
    proof (rule collecting_ok_changed[OF ok1])
      show "same_identity (clStore c1) (clStore ?c)" by (simp add: same_identity_update)
      show "losses_accounted b None ?c" if "b < length (clStore c1)" "losses_accounted b (Some (a, ev)) c1" for b
        using that a(1)
        by (cases "b = a") (simp_all add: losses_accounted_def sent_to_def reported_to_def Let_def algebra_simps)
    qed (use a att in auto)
    then show ?thesis using e True by (simp add: collect_finish_def collect_deliver_def Let_def)
  next
    case False
    let ?c = "(change_session a (\<lambda>s. s\<lparr>csPending := csPending s + 1\<rparr>) c1)\<lparr>clOverflow := clOverflow c1 + 1\<rparr>"
    have "collecting_ok None ?c"
    proof (rule collecting_ok_changed[OF ok1])
      show "same_identity (clStore c1) (clStore ?c)" by (simp add: same_identity_update)
      show "losses_accounted b None ?c" if "b < length (clStore c1)" "losses_accounted b (Some (a, ev)) c1" for b
        using that a(1)
        by (cases "b = a") (simp_all add: losses_accounted_def sent_to_def reported_to_def Let_def algebra_simps)
    qed auto
    then show ?thesis using e False by (simp add: collect_finish_def collect_deliver_def Let_def)
  qed
qed

lemma step_collecting_ok:
  assumes "collector_step (c, q, k) (c', q', k')" and ok: "collecting_ok q c"
  shows "collecting_ok q' c'"
  using assms(1)
proof cases
  case (cs_poll counter)
  then show ?thesis using poll_ok[of None c] ok by simp
next
  case (cs_record rec)
  then show ?thesis using attribute_ok[of c] ok by simp
next
  case (cs_finish a ev h)
  then show ?thesis using finish_ok[of a ev c] ok by simp
qed (use ok in \<open>simp_all add: Start_ok attach_ok detach_ok grace_ok close_ok take_ok\<close>)

lemma collector_accounts:
  assumes "collector_reachable (c, q, k)"
  shows "collecting_ok q c"
proof -
  have "collecting_ok (fst (snd s)) (fst s)" if "collector_reachable s" for s
    using that
  proof induction
    case (cr_new channel_size)
    show ?case by (simp add: collecting_ok_def addresses_ok_def NewLiveCollector_def)
  next
    case (cr_step s s')
    then show ?case
      using step_collecting_ok[of "fst s" "fst (snd s)" "snd (snd s)" "fst s'" "fst (snd s')" "snd (snd s')"] by simp
  qed
  from this[OF assms] show ?thesis by simp
qed

text \<open>Between two records: the numbers given out, less those of the events delivered, were all reported lost
  or will be with the next event, and so were the losses of the kernel while the session was attached.\<close>

lemma losses_are_reported:
  assumes "collector_reachable (c, None, k)" "a < length (clStore c)"
  shows "csSeq (clStore c ! a) - of_nat (length (sent_to a c)) + csCharged (clStore c ! a) =
    reported_to a c + csPending (clStore c ! a)"
proof -
  have "losses_accounted a None c" using collector_accounts[OF assms(1)] assms(2) by (simp add: collecting_ok_def)
  then show ?thesis by (simp add: losses_accounted_def Let_def algebra_simps)
qed

text \<open>What is delivered names the session its cgroup was attached for.\<close>

lemma delivered_is_attributed:
  assumes "collector_reachable (c, q, k)" "(a, ev) \<in> set (clSent c)"
  shows "a < length (clStore c) \<and> evSessionID ev = csID (clStore c ! a) \<and>
    CgroupID (evProcess ev) = csCgroup (clStore c ! a)"
  using collector_accounts[OF assms(1)] assms(2)
  by (fastforce simp: collecting_ok_def addresses_ok_def attributed_def)

text \<open>A collector that started attached the floor and can observe the core kinds.\<close>

lemma started_observes_the_core:
  assumes "collector_Start load enabled attach reported ring c = (None, c')" "\<not> clStarted c"
  shows "clStarted c' \<and> floorAttached (clProbes c') \<and> UnobservableCore (ComputeCoverage (clProbes c')) = []"
  using assms by (auto simp: collector_Start_def Let_def split: if_splits option.splits)

text \<open>
  The end of a grace period forgets the processes of the name that was detached, also when the name has
  been attached anew since: the maps are compared with the structure, the tracker is not.
\<close>

lemma grace_forgets_the_reattached:
  assumes "map_of (clSessions c) (csID (clStore c ! a)) = Some b" "b \<noteq> a" "distinct_procs (clTracker c)"
    and "tracked (clTracker c) p = Some e" "peSession e = csID (clStore c ! a)"
  shows "map_of (clSessions (grace_over a c)) (csID (clStore c ! a)) = Some b \<and>
    tracked (clTracker (grace_over a c)) p = None"
  using assms by (simp add: grace_over_def Let_def tracked_Forget)

end
