(* ===== verification/Control.thy ===== *)
theory Control
  imports Enforce Generate Probes
begin

text \<open>
  The control protocol (\<open>internal/daemon/rpc.go\<close>, \<open>leftovers.go\<close>, \<open>records.go\<close>, with \<open>Restrict\<close> of
  \<open>internal/config\<close>): who may ask the daemon for what, how a session is created, approved, started and
  ended, and the session cgroups an earlier daemon left behind. A call is one step; what the other
  goroutines do while it waits for the loop is the parameter \<open>ceMeanwhile\<close>. What the kernel, the file
  system, the audit trail and the standard library answer during a call is in its \<open>control_env\<close>.
\<close>

section \<open>Modes\<close>

definition ModeRank :: "mode \<Rightarrow> int" where
  "ModeRank m =
     (case m of ModeMonitor \<Rightarrow> 0 | ModeWarn \<Rightarrow> 1 | ModeInteractive \<Rightarrow> 2 | ModeEnforce \<Rightarrow> 3
      | ModeOther _ \<Rightarrow> - 1)"

definition ValidMode :: "mode \<Rightarrow> bool" where
  "ValidMode m = (ModeRank m \<ge> 0)"

definition Restrict :: "mode \<Rightarrow> mode \<Rightarrow> mode" where
  "Restrict configured requested = (if ModeRank requested > ModeRank configured then requested else configured)"

section \<open>Requests and replies\<close>

datatype error_code = ErrCodeInvalidRequest | ErrCodeSessionNotFound | ErrCodeEnvelopeNotFound
  | ErrCodeNotApproved | ErrCodeAlreadyStarted | ErrCodeAnalysisFailed | ErrCodeTelemetryFailed
  | ErrCodePermissionDenied | ErrCodeVersionMismatch | ErrCodeInternal

datatype call_error = IpcError error_code msg | ManagerError session_error | PlainError msg

text \<open>Parameters as they arrive: none, some that do not parse, or a value.\<close>

datatype 'a raw_params = NoParams | Malformed msg | Params 'a

record create_session_request =
  csPrompt :: string
  csWorkspaceRoot :: string
  csMode :: mode
  csAgentIdentity :: string
  csWorkspace :: workspace_context

record create_session_response =
  csrSessionID :: string
  csrEnvelope :: envelope
  csrRequiresApproval :: bool
  csrWarnings :: "msg list"

record approve_envelope_request =
  aeSessionID :: string
  aeApproved :: bool
  aeModifications :: "string list"
  aeReason :: string

record start_session_request =
  ssSessionID :: string
  ssRootPID :: int

record end_session_request =
  esSessionID :: string
  esExitCode :: int

record leftover_info =
  liName :: string
  liFrozen :: bool
  liPIDs :: "int list"
  liUsers :: "string list"

record self_test_result =
  stPassed :: bool
  stProbe :: string
  stDetail :: string
  stLatency :: duration
  stAt :: time

record status_response =
  srSelfTest :: self_test_result
  srVersion :: string
  srProtocolVersion :: string
  srUptime :: duration
  srActiveSessions :: int
  srMode :: mode
  srTelemetryHealthy :: bool
  srProbesAttached :: int
  srEnforcerMechanism :: string
  srDroppedEvents :: "64 word"
  srCoverage :: coverage_report
  srRefusedRequests :: int
  srAuditErrors :: "64 word"
  srLeftovers :: nat
  srDispatch :: dispatch_stats

datatype request =
    MethodStatus
  | MethodCreateSession "create_session_request raw_params"
  | MethodApproveEnvelope "approve_envelope_request raw_params"
  | MethodStartSession "start_session_request raw_params"
  | MethodEndSession "end_session_request raw_params"
  | MethodGetSession "string raw_params"
  | MethodGetEnvelope "string raw_params"
  | MethodListSessions "session_filter raw_params"
  | MethodPendingApprovals
  | MethodRespondApproval "approval_response raw_params"
  | MethodReloadPolicy
  | MethodListLeftovers
  | MethodThawLeftover "string raw_params"
  | MethodKillLeftover "string raw_params"
  | MethodOther string

datatype reply =
    ReplyStatus status_response
  | ReplyCreated create_session_response
  | ReplySession session
  | ReplyEnvelope envelope
  | ReplySessions "session list"
  | ReplyApprovals "approval_request list"
  | ReplyLeftovers "leftover_info list"
  | ReplyEmpty

section \<open>The daemon and its surroundings\<close>

record audit_gap =
  agKind :: kind
  agMissing :: "string list"
  agSuccessOnly :: "string list"

record audit_coverage =
  acObservable :: "kind list"
  acUnobservable :: "kind list"
  acDegraded :: bool
  acEntryPoints :: "audit_gap list"

record session_start =
  snSessionID :: string
  snTimestamp :: time
  snOwner :: string
  snOwnerUID :: int
  snMode :: string
  snRootPID :: int
  snCgroupID :: nat
  snEnvelope :: envelope
  snCoverage :: audit_coverage
  snDaemonVersion :: string

record control_refused =
  cfTimestamp :: time
  cfMethod :: string
  cfPID :: int
  cfUID :: int
  cfSessionID :: string
  cfReason :: msg

datatype leftover_action = LeftoverFrozen | LeftoverFreezeFailed | LeftoverThawed | LeftoverKilled

record leftover_record =
  lvSessionID :: string
  lvTimestamp :: time
  lvAction :: leftover_action
  lvPIDs :: "int list"
  lvBy :: string
  lvReason :: string

datatype control_record = RecStart session_start | RecRefused control_refused | RecLeftover leftover_record

record control_config =
  ccDefaultMode :: mode
  ccMaxConcurrentSessions :: int
  ccEnableSanitizer :: bool
  ccRetainPrompt :: bool
  ccDefaultTTL :: duration
  ccMaxGrants :: int
  ccResolvers :: "string list"
  ccVersion :: string
  ccStarted :: time

text \<open>
  \<open>ctLeftovers\<close> is the map of names the source keeps; \<open>ctRecords\<close> the session-level audit records, in
  the order they were handed to the trail.
\<close>

record control =
  ctDaemon :: daemon
  ctConfig :: control_config
  ctSelfTest :: self_test_result
  ctRefusals :: int
  ctLeftovers :: "string list"
  ctRecords :: "control_record list"

text \<open>What becomes of a function given to the loop: it runs, it stays queued as the caller goes away, or the
  caller goes away before there was room for it.\<close>

datatype loop_answer = LoopRan | LoopQueued | LoopRefused

record leftover_group =
  lgPids :: "int list"
  lgFrozen :: bool
  lgThaw :: go_error
  lgKill :: go_error

record control_env =
  ceNow :: time
  ceGoverned :: "int \<Rightarrow> msg + (string \<times> bool)"
  ceProcess :: "int \<Rightarrow> msg + (int \<times> int)"
  ceHome :: "int \<Rightarrow> string"
  ceUserName :: "int \<Rightarrow> string"
  ceEvalSymlinks :: "string \<Rightarrow> msg + string"
  ceIsDir :: "string \<Rightarrow> bool"
  ceCoverage :: coverage_report
  ceDroppedEvents :: "64 word"
  ceCreateGroup :: "string \<Rightarrow> msg + nat"
  ceAdopt :: "string \<Rightarrow> int \<Rightarrow> go_error"
  ceAttachCgroup :: "string \<Rightarrow> int \<Rightarrow> go_error"
  ceLeftover :: "string \<Rightarrow> msg + leftover_group"
  ceEmitRecord :: "control_record \<Rightarrow> go_error"
  ceLoop :: loop_answer
  ceMeanwhile :: "daemon \<Rightarrow> daemon"
  ceContextErr :: msg
  ceSessionRandom :: "nat list"
  ceEnvelopeRandom :: "nat list"
  ceStamp :: "time \<Rightarrow> string"
  ceJson :: "envelope \<Rightarrow> msg + string"
  ceSha :: "string \<Rightarrow> nat list"
  ceLower :: "string \<Rightarrow> string"
  ceFold :: "string \<Rightarrow> string \<Rightarrow> bool"

definition peer_root :: "peer \<Rightarrow> bool" where
  "peer_root p = (prUID p = 0)"

definition on_daemon :: "(daemon \<Rightarrow> daemon) \<Rightarrow> control \<Rightarrow> control" where
  "on_daemon f c = c\<lparr>ctDaemon := f (ctDaemon c)\<rparr>"

section \<open>Records\<close>

definition record_control :: "control_env \<Rightarrow> control_record \<Rightarrow> control \<Rightarrow> control" where
  "record_control env r c =
     (let c = c\<lparr>ctRecords := ctRecords c @ [r]\<rparr> in
      if ceEmitRecord env r = None then c
      else on_daemon (\<lambda>d. d\<lparr>dmSinkErrors := dmSinkErrors d + 1\<rparr>) c)"

definition coverageRecord :: "coverage_report \<Rightarrow> audit_coverage" where
  "coverageRecord c =
     \<lparr>acObservable = cvObservable c, acUnobservable = cvUnobservable c, acDegraded = cvDegraded c,
      acEntryPoints = map (\<lambda>g. \<lparr>agKind = egKind g, agMissing = egMissing g, agSuccessOnly = egSuccessOnly g\<rparr>)
        (filter has_gap (cvEntryPoints c))\<rparr>"

definition sessionStart :: "control_env \<Rightarrow> control_config \<Rightarrow> session \<Rightarrow> int \<Rightarrow> nat \<Rightarrow> session_start" where
  "sessionStart env cfg s uid cg =
     \<lparr>snSessionID = sesID s, snTimestamp = sesStartedAt s, snOwner = ceUserName env uid, snOwnerUID = uid,
      snMode = mode_string (sesMode s), snRootPID = sesRootPID s, snCgroupID = cg, snEnvelope = sesEnvelope s,
      snCoverage = coverageRecord (ceCoverage env), snDaemonVersion = ccVersion cfg\<rparr>"

definition refuse :: "control_env \<Rightarrow> string \<Rightarrow> peer \<Rightarrow> string \<Rightarrow> msg \<Rightarrow> control \<Rightarrow> control" where
  "refuse env meth p sid why c =
     record_control env
       (RecRefused \<lparr>cfTimestamp = ceNow env, cfMethod = meth, cfPID = prPID p, cfUID = prUID p,
          cfSessionID = sid, cfReason = why\<rparr>)
       (c\<lparr>ctRefusals := ctRefusals c + 1\<rparr>)"

section \<open>Texts\<close>

primrec lifecycle_string :: "lifecycle \<Rightarrow> string" where
  "lifecycle_string StatePending = ''pending''"
| "lifecycle_string StateAwaitingApproval = ''awaiting_approval''"
| "lifecycle_string StateReady = ''ready''"
| "lifecycle_string StateActive = ''active''"
| "lifecycle_string StateSuspended = ''suspended''"
| "lifecycle_string StateCompleted = ''completed''"
| "lifecycle_string StateTerminated = ''terminated''"
| "lifecycle_string StateFailed = ''failed''"
| "lifecycle_string (StateOther s) = s"

primrec action_name :: "lifecycle_action \<Rightarrow> string" where
  "action_name ActionSeal = ''seal''"
| "action_name ActionApprove = ''approve''"
| "action_name ActionStart = ''start''"
| "action_name ActionSuspend = ''suspend''"
| "action_name ActionResume = ''resume''"
| "action_name ActionEnd = ''end''"

text \<open>The manager's errors in words. The two that name a supervisor carry a text of their own.\<close>

primrec session_error_msg :: "session_error \<Rightarrow> msg" where
  "session_error_msg (ErrNotFound sid) = Fmt ''session: not found: %q'' [AStr sid]"
| "session_error_msg (ErrExists sid) = Fmt ''session: already exists: %q'' [AStr sid]"
| "session_error_msg ErrEnvelopeRequired =
     Fmt ''session: an envelope is required: creating one from a prompt is intent analysis (M8) and envelope generation (M9), neither of which is implemented'' []"
| "session_error_msg ErrNoSessionID = Fmt ''session: the envelope carries no session_id'' []"
| "session_error_msg (ErrEnvelopeInadmissible field m) =
     Fmt ''session: envelope is inadmissible: %s: %s'' [AStr field, AMsg m]"
| "session_error_msg ErrEnvelopeUnsealed = Fmt ''session: envelope is not sealed'' []"
| "session_error_msg (ErrNoSupervisor sid) = Fmt ''session: no supervisor configured: %q'' [AStr sid]"
| "session_error_msg (ErrSupervisor a sid err) =
     Fmt ''session: %s %q: %w''
       [AStr (if a = ActionSuspend then ''suspending'' else ''resuming''), AStr sid, AMsg err]"
| "session_error_msg (ErrNoRootPID pid) = Fmt ''session: a root PID is required: got %d'' [AInt pid]"
| "session_error_msg (ErrBadOutcome st) =
     Fmt ''session: outcome result must be a terminal state: got %q'' [AStr (lifecycle_string st)]"
| "session_error_msg ErrNoApprover = Fmt ''session: an approval must name who gave it'' []"
| "session_error_msg (TransitionError sid a from_state) =
     Fmt ''session: cannot %s session %q from state %q''
       [AStr (action_name a), AStr sid, AStr (lifecycle_string from_state)]"

section \<open>Who may ask\<close>

definition decode_params :: "'a raw_params \<Rightarrow> call_error + 'a" where
  "decode_params raw =
     (case raw of
        NoParams \<Rightarrow> Inl (IpcError ErrCodeInvalidRequest (Fmt ''missing params'' []))
      | Malformed err \<Rightarrow> Inl (IpcError ErrCodeInvalidRequest (Fmt ''malformed params: %v'' [AMsg err]))
      | Params v \<Rightarrow> Inr v)"

definition ungoverned :: "control_env \<Rightarrow> peer \<Rightarrow> string \<Rightarrow> control \<Rightarrow> call_error option \<times> control" where
  "ungoverned env p meth c =
     (if peer_root p then (None, c)
      else
        (case ceGoverned env (prPID p) of
           Inl err \<Rightarrow>
             (Some (IpcError ErrCodePermissionDenied
                (Fmt ''refusing %s: the calling process could not be located (%v)'' [AStr meth, AMsg err])),
              refuse env meth p [] (Fmt ''the caller could not be located: %s'' [AMsg err]) c)
         | Inr (sid, governed) \<Rightarrow>
             (if governed then
                (Some (IpcError ErrCodePermissionDenied
                   (Fmt ''refusing %s: a governed process cannot govern'' [AStr meth])),
                 refuse env meth p sid (Fmt ''the caller is inside a governed session'' []) c)
              else (None, c))))"

definition authorize :: "peer \<Rightarrow> string \<Rightarrow> control \<Rightarrow> call_error option" where
  "authorize p sid c =
     (case map_of (dmSessions (ctDaemon c)) sid of
        None \<Rightarrow> Some (IpcError ErrCodeSessionNotFound (Fmt ''no session %q'' [AStr sid]))
      | Some info \<Rightarrow>
          (if peer_root p \<or> prUID p = prUID (siOwner info) then None
           else Some (IpcError ErrCodePermissionDenied (Fmt ''session %q belongs to another user'' [AStr sid]))))"

definition every_session :: session_filter where
  "every_session = \<lparr>sfState = None, sfSince = 0, sfUntil = 0, sfLimit = 0\<rparr>"

definition activeCount :: "control \<Rightarrow> int" where
  "activeCount c =
     int (length (filter (\<lambda>s. \<not> IsTerminal (sesState s)) (list_sessions every_session (dmManager (ctDaemon c)))))"

section \<open>The loop\<close>

definition onLoop :: "control_env \<Rightarrow> deferred \<Rightarrow> control \<Rightarrow> go_error \<times> control" where
  "onLoop env f c =
     (case ceLoop env of
        LoopRan \<Rightarrow> (None, on_daemon (\<lambda>d. run_deferred (ceNow env) f (ceMeanwhile env d)) c)
      | LoopQueued \<Rightarrow> (Some (ceContextErr env), on_daemon (later f) c)
      | LoopRefused \<Rightarrow> (Some (ceContextErr env), c))"

definition loop_result :: "go_error \<times> control \<Rightarrow> (call_error + reply) \<times> control" where
  "loop_result r = (case r of (None, c) \<Rightarrow> (Inr ReplyEmpty, c) | (Some err, c) \<Rightarrow> (Inl (PlainError err), c))"

section \<open>Creating a session\<close>

text \<open>The checks before the prompt is read; what passes is the workspace, its symbolic links resolved.\<close>

definition create_checks :: "control_env \<Rightarrow> create_session_request \<Rightarrow> control \<Rightarrow> call_error + string" where
  "create_checks env req c =
     (let cfg = ctConfig c;
          ws = clean_path (csWorkspaceRoot req);
          real = (case ceEvalSymlinks env ws of Inl _ \<Rightarrow> ws | Inr r \<Rightarrow> r);
          cov = ceCoverage env
      in
      if \<not> stPassed (ctSelfTest c) then
        Inl (IpcError ErrCodeTelemetryFailed
          (Fmt ''refusing to govern: the telemetry self-test has not passed (%s)'' [AStr (stDetail (ctSelfTest c))]))
      else if csPrompt req = [] then
        Inl (IpcError ErrCodeInvalidRequest (Fmt ''a prompt is required: the envelope is derived from it'' []))
      else if \<not> is_abs ws then
        Inl (IpcError ErrCodeInvalidRequest
          (Fmt ''workspace_root must be absolute, got %q'' [AStr (csWorkspaceRoot req)]))
      else if \<not> ceIsDir env real then
        Inl (IpcError ErrCodeInvalidRequest (Fmt ''workspace_root %q is not a directory'' [AStr real]))
      else if mode_string (csMode req) \<noteq> [] \<and> \<not> ValidMode (csMode req) then
        Inl (IpcError ErrCodeInvalidRequest (Fmt ''unknown mode %q'' [AStr (mode_string (csMode req))]))
      else if activeCount c \<ge> ccMaxConcurrentSessions cfg then
        Inl (IpcError ErrCodeInvalidRequest
          (Fmt ''the daemon is at its limit of %d live sessions'' [AInt (ccMaxConcurrentSessions cfg)]))
      else if Restrict (ccDefaultMode cfg) (csMode req) = ModeEnforce \<and> cvDegraded cov then
        Inl (IpcError ErrCodeTelemetryFailed
          (Fmt ''refusing an enforce session: telemetry is degraded on this host (missing families: %s; unobservable: %v); run in interactive or monitor mode, or restore the probes (allseerctl status)''
             [AStr (join_with '', '' (map fcName (filter (\<lambda>f. \<not> fcComplete f) (cvFamilies cov)))),
              AStr (join_with '' '' (map kind_string (cvUnobservable cov)))]))
      else Inr real)"

text \<open>The analyzer reads the sanitized prompt; what the sanitizer found becomes an ambiguity.\<close>

definition read_prompt ::
  "control_env \<Rightarrow> create_session_request \<Rightarrow> string \<Rightarrow> control \<Rightarrow> msg + analysis" where
  "read_prompt env req ws c =
     (let (prompt, indicators) =
            (if ccEnableSanitizer (ctConfig c) then Sanitize (ceLower env) (csPrompt req) else (csPrompt req, []))
      in
      case Analyze (ceLower env) (ceFold env)
          \<lparr>iqPrompt = prompt, iqWorkspaceRoot = ws, iqContext = csWorkspace req, iqPriorTurns = [],
           iqAgentIdentity = csAgentIdentity req\<rparr> of
        Inl err \<Rightarrow> Inl err
      | Inr an \<Rightarrow>
          Inr (an\<lparr>anRecord := (anRecord an)
            \<lparr>inRawPrompt := (if ccRetainPrompt (ctConfig c) then csPrompt req else []),
             inAmbiguities := inAmbiguities (anRecord an) @
               map (\<lambda>i. ''possible prompt injection: '' @ dmText (ctDaemon c) i) indicators\<rparr>\<rparr>))"

definition generator_limits :: "control_config \<Rightarrow> limits" where
  "generator_limits cfg =
     \<lparr>lmMaxGrants = ccMaxGrants cfg, lmForbiddenKinds = [], lmRequireApprovalKinds = [],
      lmMaxSeverity = SeverityOther [], lmAllowUnboundedSelectors = False, lmMinConfidence = Finite 0\<rparr>"

definition envelope_params :: "control_env \<Rightarrow> peer \<Rightarrow> string \<Rightarrow> string \<Rightarrow> control_config \<Rightarrow> params" where
  "envelope_params env p sid ws cfg =
     \<lparr>pmSessionID = sid, pmWorkspaceRoot = ws, pmHome = ceHome env (prUID p), pmResolvers = ccResolvers cfg,
      pmTTL = ccDefaultTTL cfg, pmNow = ceNow env, pmUnobservable = cvUnobservable (ceCoverage env)\<rparr>"

text \<open>The warnings of the reply beside the generator's.\<close>

definition session_warnings :: "coverage_report \<Rightarrow> mode \<Rightarrow> mode \<Rightarrow> msg list" where
  "session_warnings cov requested mode =
     (if mode_string requested \<noteq> [] \<and> mode \<noteq> requested then
        [Fmt ''requested mode %s is weaker than the configured %s; running in %s''
           [AStr (mode_string requested), AStr (mode_string mode), AStr (mode_string mode)]] else []) @
     (if cvDegraded cov then
        Fmt ''telemetry is degraded on this host; unobservable: %v''
          [AStr (join_with '' '' (map kind_string (cvUnobservable cov)))] #
        concat (map (\<lambda>g.
          (if egMissing g \<noteq> [] then
             [Fmt ''%s is not observed through %s on this host; those operations produce no records''
                [AStr (kind_string (egKind g)), AStr (join_with '', '' (egMissing g))]] else []) @
          (if egSuccessOnly g \<noteq> [] then
             [Fmt ''%s through %s is observed only when the kernel permits it on this host; refused attempts produce no records''
                [AStr (kind_string (egKind g)), AStr (join_with '', '' (egSuccessOnly g))]] else []))
          (DegradedEntryPoints cov))
      else [])"

text \<open>From a sealed envelope to a session the manager holds and its owner is remembered for.\<close>

definition open_session ::
  "control_env \<Rightarrow> peer \<Rightarrow> create_session_request \<Rightarrow> string \<Rightarrow> string \<Rightarrow> analysis \<Rightarrow> envelope \<Rightarrow> msg list \<Rightarrow>
     control \<Rightarrow> (call_error + create_session_response) \<times> control" where
  "open_session env p req sid ws an sealed notes c =
     (let mode = Restrict (ccDefaultMode (ctConfig c)) (csMode req);
          (created, m) = Create \<lparr>crEnvelope = Some sealed, crPrompt = inRawPrompt (anRecord an),
            crWorkspaceRoot = ws, crMode = mode, crAgentIdentity = csAgentIdentity req\<rparr>
            (ceNow env) (dmManager (ctDaemon c));
          c = on_daemon (\<lambda>d. d\<lparr>dmManager := m\<rparr>) c
      in
      case created of
        Inl err \<Rightarrow> (Inl (ManagerError err), c)
      | Inr _ \<Rightarrow>
          (let c = on_daemon (\<lambda>d. d\<lparr>dmSessions := AList.update sid
                 \<lparr>siOwner = p, siGroup = False, siEmptySince = 0, siEnding = False\<rparr> (dmSessions d)\<rparr>) c;
               (err, m) = Seal sid (dmManager (ctDaemon c));
               c = on_daemon (\<lambda>d. d\<lparr>dmManager := m\<rparr>) c
           in
           case err of
             Some err \<Rightarrow> (Inl (ManagerError err), c)
           | None \<Rightarrow>
               (case Get sid (dmManager (ctDaemon c)) of
                  Inl err \<Rightarrow> (Inl (ManagerError err), c)
                | Inr s \<Rightarrow>
                    (Inr \<lparr>csrSessionID = sid, csrEnvelope = sesEnvelope s,
                       csrRequiresApproval = (sesState s = StateAwaitingApproval),
                       csrWarnings = notes @ session_warnings (ceCoverage env) (csMode req) mode\<rparr>, c))))"

definition createSession ::
  "control_env \<Rightarrow> peer \<Rightarrow> create_session_request \<Rightarrow> control \<Rightarrow>
     (call_error + create_session_response) \<times> control" where
  "createSession env p req c =
     (case create_checks env req c of
        Inl err \<Rightarrow> (Inl err, c)
      | Inr ws \<Rightarrow>
          (case read_prompt env req ws c of
             Inl err \<Rightarrow> (Inl (IpcError ErrCodeAnalysisFailed err), c)
           | Inr an \<Rightarrow>
               (let sid = NewSessionID (ceStamp env) (ceSessionRandom env) (ceNow env) in
                case Generate_envelope (generator_limits (ctConfig c)) (ceEnvelopeRandom env) (ceNow env)
                    (Some an) (Some (NewCatalog (cvObservable (ceCoverage env))))
                    (envelope_params env p sid ws (ctConfig c)) of
                  Inl err \<Rightarrow> (Inl (IpcError ErrCodeAnalysisFailed (Fmt ''generating the envelope: %v'' [AMsg err])), c)
                | Inr res \<Rightarrow>
                    (case Seal_envelope (ceJson env) (ceSha env) (Some (gnEnvelope res)) of
                       (Some err, _) \<Rightarrow> (Inl (PlainError err), c)
                     | (None, None) \<Rightarrow> (Inl (PlainError (Fmt ''envelope: nil envelope'' [])), c)
                     | (None, Some sealed) \<Rightarrow>
                         open_session env p req sid ws an sealed (gnWarnings res) c))))"

section \<open>The life of a session\<close>

definition approveEnvelope ::
  "control_env \<Rightarrow> peer \<Rightarrow> approve_envelope_request \<Rightarrow> control \<Rightarrow> (call_error + reply) \<times> control" where
  "approveEnvelope env p req c =
     (case authorize p (aeSessionID req) c of
        Some err \<Rightarrow> (Inl err, c)
      | None \<Rightarrow>
          if \<not> aeApproved req then
            loop_result (onLoop env
              (Deferred False (aeSessionID req) StateTerminated
                 (''envelope rejected by '' @ ceUserName env (prUID p) @
                  (if aeReason req = [] then [] else '': '' @ aeReason req))) c)
          else
            (let (err, m) = Approve (aeSessionID req)
                   \<lparr>apApprovedBy = ceUserName env (prUID p), apApprovedAt = ceNow env,
                    apMethod = ''allseer-shim'', apModifications = aeModifications req\<rparr>
                   (ceNow env) (dmManager (ctDaemon c));
                 c = on_daemon (\<lambda>d. d\<lparr>dmManager := m\<rparr>) c
             in case err of None \<Rightarrow> (Inr ReplyEmpty, c) | Some err \<Rightarrow> (Inl (ManagerError err), c)))"

text \<open>What a start asks before it touches anything: the session, and the process it is to adopt.\<close>

definition start_checks ::
  "control_env \<Rightarrow> peer \<Rightarrow> start_session_request \<Rightarrow> control \<Rightarrow> call_error option \<times> control" where
  "start_checks env p req c =
     (let sid = ssSessionID req; pid = ssRootPID req in
      case authorize p sid c of
        Some err \<Rightarrow> (Some err, c)
      | None \<Rightarrow>
          (case Get sid (dmManager (ctDaemon c)) of
             Inl err \<Rightarrow> (Some (ManagerError err), c)
           | Inr s \<Rightarrow>
               if sesState s = StateAwaitingApproval then
                 (Some (IpcError ErrCodeNotApproved (Fmt ''session %q is awaiting approval'' [AStr sid])), c)
               else if sesState s \<noteq> StateReady then
                 (Some (IpcError ErrCodeAlreadyStarted
                    (Fmt ''session %q is %s'' [AStr sid, AStr (lifecycle_string (sesState s))])), c)
               else
                 (case Verify_envelope (ceJson env) (ceSha env) (Some (sesEnvelope s)) of
                    Some err \<Rightarrow>
                      (Some (IpcError ErrCodePermissionDenied (Fmt ''refusing to enforce: %v'' [AMsg err])), c)
                  | None \<Rightarrow>
                      (case ceProcess env pid of
                         Inl err \<Rightarrow>
                           (Some (IpcError ErrCodeInvalidRequest (Fmt ''root pid %d: %v'' [AInt pid, AMsg err])), c)
                       | Inr (ppid, uid) \<Rightarrow>
                           if ppid \<noteq> prPID p then
                             (Some (IpcError ErrCodePermissionDenied
                                (Fmt ''pid %d is not a child of the caller'' [AInt pid])), c)
                           else if \<not> peer_root p \<and> uid \<noteq> prUID p then
                             (Some (IpcError ErrCodePermissionDenied
                                (Fmt ''pid %d belongs to another user'' [AInt pid])), c)
                           else
                             (case ceGoverned env pid of
                                Inl err \<Rightarrow>
                                  (Some (IpcError ErrCodePermissionDenied
                                     (Fmt ''refusing to adopt pid %d: it could not be located (%v)'' [AInt pid, AMsg err])),
                                   refuse env ''StartSession'' p []
                                     (Fmt ''root pid %d could not be located: %v'' [AInt pid, AMsg err]) c)
                              | Inr (holder, governed) \<Rightarrow>
                                  if governed then
                                    (Some (IpcError ErrCodePermissionDenied
                                       (Fmt ''refusing to adopt pid %d: it is already governed by another session'' [AInt pid])),
                                     refuse env ''StartSession'' p holder
                                       (Fmt ''root pid %d is already governed'' [AInt pid]) c)
                                  else (None, c))))))"

text \<open>The closure \<open>fail\<close>: the group goes, the session ends as failed.\<close>

definition start_fail ::
  "control_env \<Rightarrow> string \<Rightarrow> string \<Rightarrow> msg \<Rightarrow> control \<Rightarrow> (call_error + reply) \<times> control" where
  "start_fail env sid stage err c =
     (let c = on_daemon (\<lambda>d. snd (call_group CallRemove sid (snd (call_group CallKill sid d)))) c;
          (_, c) = onLoop env
            (Deferred False sid StateFailed (stage @ '': '' @ dmText (ctDaemon c) err)) c
      in (Inl (IpcError ErrCodeTelemetryFailed (Fmt ''%s: %v'' [AStr stage, AMsg err])), c))"

definition startSession ::
  "control_env \<Rightarrow> peer \<Rightarrow> start_session_request \<Rightarrow> control \<Rightarrow> (call_error + reply) \<times> control" where
  "startSession env p req c =
     (let sid = ssSessionID req; pid = ssRootPID req in
      case start_checks env p req c of
        (Some err, c) \<Rightarrow> (Inl err, c)
      | (None, c) \<Rightarrow>
          (case ceCreateGroup env sid of
             Inl err \<Rightarrow>
               (Inl (IpcError ErrCodeTelemetryFailed (Fmt ''creating the session cgroup: %v'' [AMsg err])), c)
           | Inr cg \<Rightarrow>
               (case ceAdopt env sid pid of
                  Some err \<Rightarrow> start_fail env sid ''moving the agent into its cgroup'' err c
                | None \<Rightarrow>
                    (let c = on_daemon (\<lambda>d. d\<lparr>dmSessions :=
                           map (\<lambda>(k, info). (k, if k = sid then info\<lparr>siGroup := True\<rparr> else info)) (dmSessions d)\<rparr>) c
                     in
                     case ceAttachCgroup env sid pid of
                       Some err \<Rightarrow> start_fail env sid ''attaching telemetry'' err c
                     | None \<Rightarrow>
                         (let (err, m) = Start sid pid (ceNow env) (dmManager (ctDaemon c));
                              c = on_daemon (\<lambda>d. d\<lparr>dmManager := m\<rparr>) c
                          in
                          case err of
                            Some err \<Rightarrow> start_fail env sid ''starting the session'' (session_error_msg err) c
                          | None \<Rightarrow>
                              (case (Get sid (dmManager (ctDaemon c)), map_of (dmSessions (ctDaemon c)) sid) of
                                 (Inr s, Some info) \<Rightarrow>
                                   (Inr ReplyEmpty, record_control env (RecStart
                                      (sessionStart env (ctConfig c) s (prUID (siOwner info)) cg)) c)
                               | _ \<Rightarrow> (Inr ReplyEmpty, c)))))))"

definition endSession ::
  "control_env \<Rightarrow> peer \<Rightarrow> end_session_request \<Rightarrow> control \<Rightarrow> (call_error + session) \<times> control" where
  "endSession env p req c =
     (let sid = esSessionID req;
          answer = (\<lambda>c. case Get sid (dmManager (ctDaemon c)) of
             Inl err \<Rightarrow> Inl (ManagerError err) | Inr s \<Rightarrow> Inr s)
      in
      case authorize p sid c of
        Some err \<Rightarrow> (Inl err, c)
      | None \<Rightarrow>
          (case Get sid (dmManager (ctDaemon c)) of
             Inl err \<Rightarrow> (Inl (ManagerError err), c)
           | Inr s \<Rightarrow>
               if IsTerminal (sesState s) then (answer c, c)
               else
                 (let c = on_daemon (\<lambda>d. d\<lparr>dmSessions :=
                        map (\<lambda>(k, info). (k, if k = sid then info\<lparr>siEnding := True\<rparr> else info)) (dmSessions d)\<rparr>) c
                  in
                  case onLoop env (Deferred False sid StateCompleted
                      (''agent exited with code '' @ itoa (esExitCode req))) c of
                    (Some err, c) \<Rightarrow> (Inl (PlainError err), c)
                  | (None, c) \<Rightarrow> (answer c, c))))"

section \<open>Leftovers\<close>

definition not_root :: call_error where
  "not_root = IpcError ErrCodePermissionDenied
     (Fmt ''leftover session cgroups are root's to inspect and act on'' [])"

definition leftover :: "control_env \<Rightarrow> peer \<Rightarrow> string \<Rightarrow> control \<Rightarrow> call_error + leftover_group" where
  "leftover env p name c =
     (if \<not> peer_root p then Inl not_root
      else if name \<notin> set (ctLeftovers c) then
        Inl (IpcError ErrCodeSessionNotFound (Fmt ''no leftover session cgroup %q'' [AStr name]))
      else
        (case ceLeftover env name of
           Inl err \<Rightarrow> Inl (IpcError ErrCodeInternal (Fmt ''opening leftover %q: %v'' [AStr name, AMsg err]))
         | Inr g \<Rightarrow> Inr g))"

definition leftover_entry :: "control_env \<Rightarrow> string \<Rightarrow> leftover_info" where
  "leftover_entry env name =
     (let (frozen, pids) =
            (case ceLeftover env name of Inl _ \<Rightarrow> (False, []) | Inr g \<Rightarrow> (lgFrozen g, lgPids g));
          users = concat (map (\<lambda>pid. case ceProcess env pid of
            Inl _ \<Rightarrow> [] | Inr (_, uid) \<Rightarrow> [ceUserName env uid]) pids)
      in \<lparr>liName = name, liFrozen = frozen, liPIDs = pids, liUsers = sort (first_seen {} users)\<rparr>)"

definition listLeftovers :: "control_env \<Rightarrow> peer \<Rightarrow> control \<Rightarrow> call_error + leftover_info list" where
  "listLeftovers env p c =
     (if \<not> peer_root p then Inl not_root
      else Inr (map (leftover_entry env) (sort (ctLeftovers c))))"

definition leftover_note ::
  "control_env \<Rightarrow> peer \<Rightarrow> string \<Rightarrow> leftover_action \<Rightarrow> int list \<Rightarrow> control \<Rightarrow> control" where
  "leftover_note env p name what pids c =
     record_control env (RecLeftover \<lparr>lvSessionID = name, lvTimestamp = ceNow env, lvAction = what,
       lvPIDs = pids, lvBy = ceUserName env (prUID p), lvReason = []\<rparr>) c"

definition thawLeftover ::
  "control_env \<Rightarrow> peer \<Rightarrow> string \<Rightarrow> control \<Rightarrow> (call_error + reply) \<times> control" where
  "thawLeftover env p name c =
     (case leftover env p name c of
        Inl err \<Rightarrow> (Inl err, c)
      | Inr g \<Rightarrow>
          (case lgThaw g of
             Some err \<Rightarrow> (Inl (IpcError ErrCodeInternal (Fmt ''thawing %q: %v'' [AStr name, AMsg err])), c)
           | None \<Rightarrow> (Inr ReplyEmpty, leftover_note env p name LeftoverThawed (lgPids g) c)))"

definition killLeftover ::
  "control_env \<Rightarrow> peer \<Rightarrow> string \<Rightarrow> control \<Rightarrow> (call_error + reply) \<times> control" where
  "killLeftover env p name c =
     (case leftover env p name c of
        Inl err \<Rightarrow> (Inl err, c)
      | Inr g \<Rightarrow>
          (case lgKill g of
             Some err \<Rightarrow> (Inl (IpcError ErrCodeInternal (Fmt ''killing %q: %v'' [AStr name, AMsg err])), c)
           | None \<Rightarrow>
               (Inr ReplyEmpty, leftover_note env p name LeftoverKilled (lgPids g)
                  (c\<lparr>ctLeftovers := removeAll name (ctLeftovers c)\<rparr>))))"

text \<open>What the startup sweep found, one record each: the names with processes, and those it froze.\<close>

definition note_leftover :: "control_env \<Rightarrow> string list \<Rightarrow> string \<Rightarrow> control \<Rightarrow> control" where
  "note_leftover env frozen name c =
     record_control env (RecLeftover
       \<lparr>lvSessionID = name, lvTimestamp = ceNow env,
        lvAction = (if name \<in> set frozen then LeftoverFrozen else LeftoverFreezeFailed),
        lvPIDs = (case ceLeftover env name of Inl _ \<Rightarrow> [] | Inr g \<Rightarrow> lgPids g), lvBy = ''startup'',
        lvReason = (if name \<in> set frozen then []
          else ''the group could not be frozen; its processes are running with nothing governing them'')\<rparr>)
       (c\<lparr>ctLeftovers := (if name \<in> set (ctLeftovers c) then ctLeftovers c else ctLeftovers c @ [name])\<rparr>)"

definition noteLeftovers :: "control_env \<Rightarrow> string list \<Rightarrow> string list \<Rightarrow> control \<Rightarrow> control" where
  "noteLeftovers env populated frozen c = fold (note_leftover env frozen) populated c"

section \<open>Calls\<close>

definition status :: "control_env \<Rightarrow> control \<Rightarrow> status_response" where
  "status env c =
     \<lparr>srSelfTest = ctSelfTest c, srVersion = ccVersion (ctConfig c),
      srProtocolVersion = ''1'',
      srUptime = time_sub (ceNow env) (ccStarted (ctConfig c)), srActiveSessions = activeCount c,
      srMode = ccDefaultMode (ctConfig c),
      srTelemetryHealthy = (cvFloorIntact (ceCoverage env) \<and> stPassed (ctSelfTest c)),
      srProbesAttached = int (length (filter piAttached (cvProbes (ceCoverage env)))),
      srEnforcerMechanism = ''cgroup-v2 freeze/kill after detection'', srDroppedEvents = ceDroppedEvents env,
      srCoverage = ceCoverage env, srRefusedRequests = ctRefusals c,
      srAuditErrors = dmSinkErrors (ctDaemon c), srLeftovers = length (ctLeftovers c),
      srDispatch = dsStats (dmProcessors (ctDaemon c))\<rparr>"

definition is_owner :: "peer \<Rightarrow> control \<Rightarrow> string \<Rightarrow> bool" where
  "is_owner p c sid = (authorize p sid c = None)"

definition listSessions :: "peer \<Rightarrow> session_filter \<Rightarrow> control \<Rightarrow> session list" where
  "listSessions p f c =
     filter (\<lambda>s. is_owner p c (sesID s)) (list_sessions f (dmManager (ctDaemon c)))"

text \<open>Decoding, then the caller's place, then the handler.\<close>

definition governing_call ::
  "control_env \<Rightarrow> peer \<Rightarrow> string \<Rightarrow> 'a raw_params \<Rightarrow> ('a \<Rightarrow> control \<Rightarrow> (call_error + 'b) \<times> control) \<Rightarrow>
     control \<Rightarrow> (call_error + 'b) \<times> control" where
  "governing_call env p meth raw handler c =
     (case decode_params raw of
        Inl err \<Rightarrow> (Inl err, c)
      | Inr req \<Rightarrow>
          (case ungoverned env p meth c of
             (Some err, c) \<Rightarrow> (Inl err, c)
           | (None, c) \<Rightarrow> handler req c))"

definition map_reply :: "('b \<Rightarrow> reply) \<Rightarrow> (call_error + 'b) \<times> control \<Rightarrow> (call_error + reply) \<times> control" where
  "map_reply f r = (case r of (Inl err, c) \<Rightarrow> (Inl err, c) | (Inr v, c) \<Rightarrow> (Inr (f v), c))"

definition read_session ::
  "peer \<Rightarrow> string raw_params \<Rightarrow> (string \<Rightarrow> call_error + reply) \<Rightarrow> control \<Rightarrow> (call_error + reply) \<times> control" where
  "read_session p raw get c =
     (case decode_params raw of
        Inl err \<Rightarrow> (Inl err, c)
      | Inr sid \<Rightarrow> (case authorize p sid c of Some err \<Rightarrow> (Inl err, c) | None \<Rightarrow> (get sid, c)))"

definition respond_approval ::
  "control_env \<Rightarrow> peer \<Rightarrow> approval_response raw_params \<Rightarrow> control \<Rightarrow> (call_error + reply) \<times> control" where
  "respond_approval env p raw c =
     (case decode_params raw of
        Inl err \<Rightarrow> (Inl err, c)
      | Inr resp \<Rightarrow>
          (case sessionOf (asRequestID resp) (dmApprovals (ctDaemon c)) of
             None \<Rightarrow>
               (Inl (IpcError ErrCodeInvalidRequest (Fmt ''no pending approval %q'' [AStr (asRequestID resp)])), c)
           | Some sid \<Rightarrow>
               (case ungoverned env p ''RespondApproval'' c of
                  (Some err, c) \<Rightarrow> (Inl err, c)
                | (None, c) \<Rightarrow>
                    (case authorize p sid c of
                       Some err \<Rightarrow> (Inl err, c)
                     | None \<Rightarrow>
                         (Inr ReplyEmpty, on_daemon (answer (ceNow env)
                            (resp\<lparr>asRespondedBy := ceUserName env (prUID p), asRespondedAt := ceNow env,
                                  asTimedOut := False\<rparr>)) c)))))"

definition control_call ::
  "control_env \<Rightarrow> peer \<Rightarrow> request \<Rightarrow> control \<Rightarrow> (call_error + reply) \<times> control" where
  "control_call env p rq c =
     (case rq of
        MethodStatus \<Rightarrow> (Inr (ReplyStatus (status env c)), c)
      | MethodCreateSession raw \<Rightarrow>
          map_reply ReplyCreated (governing_call env p ''CreateSession'' raw (createSession env p) c)
      | MethodApproveEnvelope raw \<Rightarrow> governing_call env p ''ApproveEnvelope'' raw (approveEnvelope env p) c
      | MethodStartSession raw \<Rightarrow> governing_call env p ''StartSession'' raw (startSession env p) c
      | MethodEndSession raw \<Rightarrow>
          map_reply ReplySession (governing_call env p ''EndSession'' raw (endSession env p) c)
      | MethodGetSession raw \<Rightarrow>
          read_session p raw (\<lambda>sid. case Get sid (dmManager (ctDaemon c)) of
             Inl err \<Rightarrow> Inl (ManagerError err) | Inr s \<Rightarrow> Inr (ReplySession s)) c
      | MethodGetEnvelope raw \<Rightarrow>
          read_session p raw (\<lambda>sid. case Get sid (dmManager (ctDaemon c)) of
             Inl err \<Rightarrow> Inl (IpcError ErrCodeEnvelopeNotFound (session_error_msg err))
           | Inr s \<Rightarrow> Inr (ReplyEnvelope (sesEnvelope s))) c
      | MethodListSessions raw \<Rightarrow>
          (case (if raw = NoParams then Inr every_session else decode_params raw) of
             Inl err \<Rightarrow> (Inl err, c)
           | Inr f \<Rightarrow> (Inr (ReplySessions (listSessions p f c)), c))
      | MethodPendingApprovals \<Rightarrow>
          (Inr (ReplyApprovals (list_requests (is_owner p c) (dmApprovals (ctDaemon c)))), c)
      | MethodRespondApproval raw \<Rightarrow> respond_approval env p raw c
      | MethodReloadPolicy \<Rightarrow>
          (Inl (IpcError ErrCodeInvalidRequest
             (Fmt ''policy reload is not supported by this build; restart the daemon'' [])), c)
      | MethodListLeftovers \<Rightarrow>
          (case listLeftovers env p c of Inl err \<Rightarrow> (Inl err, c) | Inr infos \<Rightarrow> (Inr (ReplyLeftovers infos), c))
      | MethodThawLeftover raw \<Rightarrow>
          (case decode_params raw of Inl err \<Rightarrow> (Inl err, c) | Inr name \<Rightarrow> thawLeftover env p name c)
      | MethodKillLeftover raw \<Rightarrow>
          (case decode_params raw of Inl err \<Rightarrow> (Inl err, c) | Inr name \<Rightarrow> killLeftover env p name c)
      | MethodOther name \<Rightarrow> (Inl (IpcError ErrCodeInvalidRequest (Fmt ''unknown method %q'' [AStr name])), c))"

end
