(* ===== verification/ControlLaws.thy ===== *)
theory ControlLaws
  imports Control EnforceLaws SealLaws
begin

text \<open>
  Who can do what over the control socket: a governed process nothing, another user nothing to a session
  that is not theirs; what a created session is bound to; and a slot that a refused creation keeps.
\<close>

section \<open>Records\<close>

lemma on_daemon_simps [simp]:
  "ctDaemon (on_daemon f c) = f (ctDaemon c)" "ctConfig (on_daemon f c) = ctConfig c"
  "ctLeftovers (on_daemon f c) = ctLeftovers c" "ctRecords (on_daemon f c) = ctRecords c"
  "ctSelfTest (on_daemon f c) = ctSelfTest c" "ctRefusals (on_daemon f c) = ctRefusals c"
  by (simp_all add: on_daemon_def)

text \<open>Two daemons that differ in the count of failed writes only.\<close>

definition but_errors :: "daemon \<Rightarrow> daemon \<Rightarrow> bool" where
  "but_errors d d' \<longleftrightarrow> d' = d\<lparr>dmSinkErrors := dmSinkErrors d'\<rparr>"

lemma but_errors_refl [simp]: "but_errors d d"
  by (simp add: but_errors_def)

lemma record_control_simps [simp]:
  "ctConfig (record_control env r c) = ctConfig c" "ctLeftovers (record_control env r c) = ctLeftovers c"
  "ctRecords (record_control env r c) = ctRecords c @ [r]"
  "ctSelfTest (record_control env r c) = ctSelfTest c"
  "but_errors (ctDaemon c) (ctDaemon (record_control env r c))"
  by (simp_all add: record_control_def Let_def but_errors_def)

lemma refuse_simps [simp]:
  "ctLeftovers (refuse env meth p sid why c) = ctLeftovers c"
  "ctConfig (refuse env meth p sid why c) = ctConfig c"
  "but_errors (ctDaemon c) (ctDaemon (refuse env meth p sid why c))"
  unfolding refuse_def using record_control_simps(5) [of "c\<lparr>ctRefusals := ctRefusals c + 1\<rparr>"] by simp_all

section \<open>The part of one session\<close>

text \<open>Everything the daemon keeps for a session: the managed record, its owner and group, its open requests, its
  processor, the calls made to its group, and what is queued for it.\<close>

definition deferred_session :: "deferred \<Rightarrow> string" where
  "deferred_session f = (case f of Deferred _ sid _ _ \<Rightarrow> sid)"

definition same_for :: "string \<Rightarrow> daemon \<Rightarrow> daemon \<Rightarrow> bool" where
  "same_for sid d d' \<longleftrightarrow>
     map_of (mgSessions (dmManager d')) sid = map_of (mgSessions (dmManager d)) sid \<and>
     map_of (dmSessions d') sid = map_of (dmSessions d) sid \<and>
     filter (\<lambda>kp. request_session kp = sid) (apPending (dmApprovals d')) =
       filter (\<lambda>kp. request_session kp = sid) (apPending (dmApprovals d)) \<and>
     (sid \<in> apTerminating (dmApprovals d') \<longleftrightarrow> sid \<in> apTerminating (dmApprovals d)) \<and>
     map_of (dsProcessors (dmProcessors d')) sid = map_of (dsProcessors (dmProcessors d)) sid \<and>
     filter (\<lambda>x. snd x = sid) (dmApplied d') = filter (\<lambda>x. snd x = sid) (dmApplied d) \<and>
     filter (\<lambda>f. deferred_session f = sid) (dmControl d') = filter (\<lambda>f. deferred_session f = sid) (dmControl d)"

lemma same_for_refl [simp]: "same_for sid d d"
  by (simp add: same_for_def)

lemma same_for_trans: "same_for sid d d' \<Longrightarrow> same_for sid d' d'' \<Longrightarrow> same_for sid d d''"
  by (simp add: same_for_def)

lemma but_errors_same:
  assumes "but_errors d d'"
  shows "same_for sid d d'"
proof -
  obtain n where "d' = d\<lparr>dmSinkErrors := n\<rparr>" using assms unfolding but_errors_def by blast
  then show ?thesis by (simp add: same_for_def)
qed

section \<open>What leaves another session alone\<close>

text \<open>A session that has not ended.\<close>

definition live_session :: "string \<Rightarrow> daemon \<Rightarrow> bool" where
  "live_session sid d \<longleftrightarrow>
     (\<exists>rec. map_of (mgSessions (dmManager d)) sid = Some rec \<and> \<not> IsTerminal (sesState (mdSession rec)))"

lemma same_for_live: "same_for sid d d' \<Longrightarrow> live_session sid d \<Longrightarrow> live_session sid d'"
  by (simp add: same_for_def live_session_def)

lemma transition_other:
  "other \<noteq> sid \<Longrightarrow> map_of (mgSessions (snd (transition a sid body m))) other = map_of (mgSessions m) other"
  by (cases rule: transition_cases [of a sid body m]) simp_all

lemma lifecycle_other:
  assumes "other \<noteq> sid"
  shows "map_of (mgSessions (snd (Seal sid m))) other = map_of (mgSessions m) other"
    and "map_of (mgSessions (snd (Approve sid ap now m))) other = map_of (mgSessions m) other"
    and "map_of (mgSessions (snd (Start sid pid now m))) other = map_of (mgSessions m) other"
  unfolding Seal_def Approve_def Start_def using assms by (simp_all add: transition_other)

lemma evictEnded_filter:
  "evictEnded m = (out, m') \<Longrightarrow> mgSessions m' = filter (\<lambda>(k, rec). k \<notin> set out) (mgSessions m)"
proof -
  have "mgSessions (snd (evictEnded m)) = filter (\<lambda>(k, rec). k \<notin> set (fst (evictEnded m))) (mgSessions m)"
    by (simp add: evictEnded_def Let_def)
  then show "evictEnded m = (out, m') \<Longrightarrow> mgSessions m' = filter (\<lambda>(k, rec). k \<notin> set out) (mgSessions m)"
    by simp
qed

lemma End_other:
  assumes "manager_ok m" "other \<noteq> sid" "map_of (mgSessions m) other = Some rec"
    "\<not> IsTerminal (sesState (mdSession rec))" "End sid oc now m = (err, evicted, m')"
  shows "map_of (mgSessions m') other = Some rec" "other \<notin> set evicted"
proof -
  show kept: "map_of (mgSessions m') other = Some rec" by (rule End_suspended(2) [OF assms(1,5,2,3,4)])
  show "other \<notin> set evicted"
  proof (cases rule: End_cases [of sid oc now m])
    case (ended r r')
    have gone: "map_of (filter (\<lambda>(k, rec). k \<notin> A) xs) other = None" if "other \<in> A" for A and xs :: "(string \<times> managed) list"
      using that by (induction xs) auto
    have "evictEnded (store sid r' m) = (evicted, m')" using ended(5) assms(5) by simp
    from evictEnded_filter [OF this] show ?thesis using kept gone [of "set evicted"] by (metis option.distinct(1))
  qed (use assms(5) in simp)
qed

lemma applied_call:
  "filter (\<lambda>x. snd x = other) (dmApplied (snd (call_group k sid d))) =
     filter (\<lambda>x. snd x = other) (dmApplied d)" if "other \<noteq> sid"
  using that by (simp add: call_group_def Let_def)

lemma call_group_other: "other \<noteq> sid \<Longrightarrow> same_for other d (snd (call_group k sid d))"
  by (simp add: same_for_def applied_call) (simp add: call_group_def Let_def)

lemma cancelSession_other:
  "other \<noteq> sid \<Longrightarrow> same_for other d (d\<lparr>dmApprovals := cancelSession sid (dmApprovals d)\<rparr>)"
  by (auto simp: same_for_def cancelSession_def intro!: filter_cong)

lemma find_kept: "map_of (filter (\<lambda>kv. fst kv \<notin> A) xs) k = (if k \<in> A then None else map_of xs k)"
  by (induction xs) auto

lemma finish_other:
  assumes "manager_ok (dmManager d)" "other \<noteq> sid" "live_session other d"
  shows "same_for other d (finish now sid result reason d)"
proof -
  let ?d1 = "(kill_and_remove sid d)\<lparr>dmApprovals := cancelSession sid (dmApprovals (kill_and_remove sid d))\<rparr>"
  have "same_for other d (kill_and_remove sid d)"
    unfolding kill_and_remove_def
    using same_for_trans [OF call_group_other call_group_other, OF assms(2) assms(2)] by simp
  then have d1: "same_for other d ?d1" using cancelSession_other [OF assms(2)] same_for_trans by blast
  have m1: "dmManager ?d1 = dmManager d" by (simp add: kill_and_remove_def call_group_def Let_def)
  obtain rec where rec: "map_of (mgSessions (dmManager d)) other = Some rec" "\<not> IsTerminal (sesState (mdSession rec))"
    using assms(3) by (auto simp: live_session_def)
  let ?oc = "case State sid (dmManager ?d1) of
      None \<Rightarrow> zero_outcome\<lparr>soResult := result, soReason := reason\<rparr>
    | Some st \<Rightarrow> telemetry_note ((Outcome reason (Some st))\<lparr>soResult := result\<rparr>)"
  obtain err evicted m where e: "End sid ?oc now (dmManager ?d1) = (err, evicted, m)" by (metis prod.collapse)
  have e': "End sid ?oc now (dmManager d) = (err, evicted, m)" using e m1 by simp
  have "finish now sid result reason d = ?d1\<lparr>dmManager := m,
      dmSessions := filter (\<lambda>kv. fst kv \<notin> set evicted) (dmSessions ?d1),
      dmProcessors := Release sid (dmProcessors ?d1)\<rparr>"
    using e by (simp add: finish_def Let_def)
  moreover have "map_of (dsProcessors (Release sid ps)) other = map_of (dsProcessors ps) other" for ps :: "pipeline dispatcher"
    using assms(2) by (auto simp: Release_def tally_def split: option.splits)
  moreover note End_other [OF assms(1,2) rec e']
  ultimately have "same_for other ?d1 (finish now sid result reason d)"
    using rec(1) m1 by (simp add: same_for_def find_kept)
  then show ?thesis using d1 same_for_trans by blast
qed

lemma failSessionAs_other:
  assumes "manager_ok (dmManager d)" "other \<noteq> sid" "live_session other d"
  shows "same_for other d (failSessionAs now sid result reason d)"
  using finish_other [OF assms] by (simp add: failSessionAs_def split: sum.splits)

lemma onLoop_other:
  assumes "manager_ok (dmManager (ctDaemon c))" "other \<noteq> sid" "live_session other (ctDaemon c)"
    and "ceMeanwhile env = (\<lambda>d. d)" "onLoop env (Deferred False sid st why) c = (err, c')"
  shows "same_for other (ctDaemon c) (ctDaemon c')"
proof -
  have "same_for other (ctDaemon c) (later (Deferred False sid st why) (ctDaemon c))"
    using assms(2) by (simp add: same_for_def later_def deferred_session_def)
  then show ?thesis
    using assms(4,5) failSessionAs_other [OF assms(1-3)]
    by (auto simp: onLoop_def run_deferred_def split: loop_answer.splits)
qed

section \<open>The handlers and a session that is not the caller's\<close>

text \<open>A caller who is neither root nor the owner.\<close>

definition stranger :: "peer \<Rightarrow> string \<Rightarrow> control \<Rightarrow> bool" where
  "stranger p sid c \<longleftrightarrow> \<not> peer_root p \<and>
     (\<exists>info. map_of (dmSessions (ctDaemon c)) sid = Some info \<and> prUID p \<noteq> prUID (siOwner info))"

lemma stranger_refused: "stranger p sid c \<Longrightarrow> authorize p sid c \<noteq> None"
  by (auto simp: stranger_def authorize_def)

lemma authorized_other: "stranger p sid c \<Longrightarrow> authorize p sid' c = None \<Longrightarrow> sid \<noteq> sid'"
  using stranger_refused by blast

lemma record_control_same [simp]: "same_for sid (ctDaemon c) (ctDaemon (record_control env r c))"
  by (rule but_errors_same) simp

lemma refuse_same [simp]: "same_for sid (ctDaemon c) (ctDaemon (refuse env meth p s why c))"
  by (rule but_errors_same) simp

lemma ungoverned_same: "ungoverned env p meth c = (err, c') \<Longrightarrow> same_for sid (ctDaemon c) (ctDaemon c')"
  by (auto simp: ungoverned_def split: if_splits sum.splits prod.splits)

lemma ungoverned_passes: "ungoverned env p meth c = (None, c') \<Longrightarrow> c' = c"
  by (auto simp: ungoverned_def split: if_splits sum.splits prod.splits)

lemma map_of_mark:
  "map_of (map (\<lambda>(k, v). (k, if k = s then f v else v)) xs) other =
     (if other = s then map_option f (map_of xs other) else map_of xs other)"
  by (induction xs) auto

lemma Create_other:
  assumes "Create req now m = (r, m')" "crEnvelope req = Some env" "map_of (mgSessions m) other = Some rec"
  shows "map_of (mgSessions m') other = Some rec" "\<forall>s. r = Inr s \<longrightarrow> envSessionID env \<noteq> other"
  using assms by (auto simp: Create_def Let_def store_def update_conv' split: if_splits)

lemma sealed_session:
  assumes "Generate_envelope l rnd now (Some an) cat pm = Inr res"
    and "Seal_envelope json sha (Some (gnEnvelope res)) = (None, Some sealed)"
  shows "envSessionID sealed = pmSessionID pm" "Verify_envelope json sha (Some sealed) = None" "envSealed sealed"
proof -
  have unsealed: "envSessionID (gnEnvelope res) = pmSessionID pm" "\<not> envSealed (gnEnvelope res)"
    using Generate_Inr(3) [OF assms(1)] by (simp_all add: generated_def)
  obtain d where d: "Digest json sha ((gnEnvelope res)\<lparr>envSealed := True\<rparr>) = Inr d"
    and s: "sealed = (gnEnvelope res)\<lparr>envSealed := True, envDigest := d\<rparr>"
    using assms(2) unsealed(2) by (auto simp: Seal_envelope_def split: sum.splits)
  obtain b where b: "d = ''sha256:'' @ hex_encode b" "Digest json sha sealed = Inr d"
    using d unfolding s by (auto simp: Digest_def split: sum.splits)
  show "envSessionID sealed = pmSessionID pm" "envSealed sealed" using unsealed(1) by (simp_all add: s)
  show "Verify_envelope json sha (Some sealed) = None"
    using b by (simp add: Verify_envelope_def) (simp add: s)
qed

lemma open_session_other:
  assumes "open_session env p req sid ws an sealed notes c = (r, c')" "live_session other (ctDaemon c)"
    and "envSessionID sealed = sid"
  shows "same_for other (ctDaemon c) (ctDaemon c')" "\<forall>v. r = Inr v \<longrightarrow> csrSessionID v \<noteq> other"
proof -
  obtain rec where rec: "map_of (mgSessions (dmManager (ctDaemon c))) other = Some rec"
    using assms(2) by (auto simp: live_session_def)
  let ?req = "\<lparr>crEnvelope = Some sealed, crPrompt = inRawPrompt (anRecord an), crWorkspaceRoot = ws,
      crMode = Restrict (ccDefaultMode (ctConfig c)) (csMode req), crAgentIdentity = csAgentIdentity req\<rparr>"
  obtain created m where cr: "Create ?req (ceNow env) (dmManager (ctDaemon c)) = (created, m)" by fastforce
  note kept = Create_other [OF cr _ rec, of sealed]
  have "same_for other (ctDaemon c) (ctDaemon c') \<and> (\<forall>v. r = Inr v \<longrightarrow> csrSessionID v \<noteq> other)"
  proof (cases created)
    case (Inl err)
    then show ?thesis using assms(1) cr kept(1) rec by (auto simp: open_session_def same_for_def)
  next
    case (Inr s)
    then have sid: "other \<noteq> sid" using kept(2) assms(3) by auto
    obtain e m' where seal: "Seal sid m = (e, m')" by fastforce
    have "map_of (mgSessions m') other = Some rec"
      using lifecycle_other(1) [OF sid, of m] seal kept(1) by simp
    then show ?thesis
      using assms(1) cr seal Inr rec sid
      by (auto simp: open_session_def same_for_def Let_def update_conv' split: option.splits sum.splits)
  qed
  then show "same_for other (ctDaemon c) (ctDaemon c')" "\<forall>v. r = Inr v \<longrightarrow> csrSessionID v \<noteq> other" by auto
qed

lemma createSession_other:
  assumes "createSession env p req c = (r, c')" "live_session other (ctDaemon c)"
  shows "same_for other (ctDaemon c) (ctDaemon c') \<and> (\<forall>v. r = Inr v \<longrightarrow> csrSessionID v \<noteq> other)"
proof (cases "c' = c \<and> (\<exists>err. r = Inl err)")
  case False
  then obtain ws an res sealed where
    parts: "create_checks env req c = Inr ws" "read_prompt env req ws c = Inr an"
      "Generate_envelope (generator_limits (ctConfig c)) (ceEnvelopeRandom env) (ceNow env)
         (Some an) (Some (NewCatalog (cvObservable (ceCoverage env))))
         (envelope_params env p (NewSessionID (ceStamp env) (ceSessionRandom env) (ceNow env)) ws (ctConfig c)) = Inr res"
      "Seal_envelope (ceJson env) (ceSha env) (Some (gnEnvelope res)) = (None, Some sealed)"
      "open_session env p req (NewSessionID (ceStamp env) (ceSessionRandom env) (ceNow env)) ws an sealed
         (gnWarnings res) c = (r, c')"
    using assms(1) by (auto simp: createSession_def Let_def split: sum.splits prod.splits option.splits)
  have "envSessionID sealed = NewSessionID (ceStamp env) (ceSessionRandom env) (ceNow env)"
    using sealed_session(1) [OF parts(3,4)] by (simp add: envelope_params_def)
  then show ?thesis using open_session_other [OF parts(5) assms(2)] by blast
qed auto

lemma loop_result_snd [simp]: "snd (loop_result x) = snd x"
  by (cases x; cases "fst x") (auto simp: loop_result_def split: option.splits prod.splits)

lemma approveEnvelope_other:
  assumes "approveEnvelope env p req c = (r, c')" "stranger p other c"
    and "manager_ok (dmManager (ctDaemon c))" "live_session other (ctDaemon c)" "ceMeanwhile env = (\<lambda>d. d)"
  shows "same_for other (ctDaemon c) (ctDaemon c')"
proof (cases "authorize p (aeSessionID req) c")
  case None
  then have sid: "other \<noteq> aeSessionID req" using assms(2) stranger_refused by blast
  show ?thesis
  proof (cases "aeApproved req")
    case True
    let ?ap = "\<lparr>apApprovedBy = ceUserName env (prUID p), apApprovedAt = ceNow env,
        apMethod = ''allseer-shim'', apModifications = aeModifications req\<rparr>"
    have "ctDaemon c' = (ctDaemon c)\<lparr>dmManager :=
        snd (Approve (aeSessionID req) ?ap (ceNow env) (dmManager (ctDaemon c)))\<rparr>"
      using assms(1) None True by (auto simp: approveEnvelope_def Let_def split: prod.splits option.splits)
    then show ?thesis using lifecycle_other(2) [OF sid] by (simp add: same_for_def)
  next
    case False
    let ?why = "''envelope rejected by '' @ ceUserName env (prUID p) @
      (if aeReason req = [] then [] else '': '' @ aeReason req)"
    obtain err c1 where l: "onLoop env (Deferred False (aeSessionID req) StateTerminated ?why) c = (err, c1)"
      by fastforce
    have "loop_result (err, c1) = (r, c')" using assms(1) None False l by (simp add: approveEnvelope_def)
    then have "c1 = c'" by (cases err) (auto simp: loop_result_def)
    then show ?thesis using onLoop_other [OF assms(3) sid assms(4,5) l] by simp
  qed
qed (use assms(1) in \<open>simp add: approveEnvelope_def\<close>)

lemma start_checks_other:
  "start_checks env p req c = (err, c') \<Longrightarrow> same_for other (ctDaemon c) (ctDaemon c')"
  by (auto simp: start_checks_def Let_def split: option.splits sum.splits if_splits prod.splits)

text \<open>A start that goes on has checked everything the child and its session must be.\<close>

lemma start_checks_pass:
  assumes "start_checks env p req c = (None, c')"
  shows "c' = c" "authorize p (ssSessionID req) c = None"
    "\<exists>s uid holder. Get (ssSessionID req) (dmManager (ctDaemon c)) = Inr s \<and> sesState s = StateReady \<and>
       Verify_envelope (ceJson env) (ceSha env) (Some (sesEnvelope s)) = None \<and>
       ceProcess env (ssRootPID req) = Inr (prPID p, uid) \<and> (peer_root p \<or> uid = prUID p) \<and>
       ceGoverned env (ssRootPID req) = Inr (holder, False)"
  using assms
  by (auto simp: start_checks_def Let_def split: option.splits sum.splits if_splits prod.splits)

lemma start_fail_other:
  assumes "start_fail env sid stage err c = (r, c')" "other \<noteq> sid"
    and "manager_ok (dmManager (ctDaemon c))" "live_session other (ctDaemon c)" "ceMeanwhile env = (\<lambda>d. d)"
  shows "same_for other (ctDaemon c) (ctDaemon c')"
proof -
  let ?c1 = "on_daemon (\<lambda>d. snd (call_group CallRemove sid (snd (call_group CallKill sid d)))) c"
  have c1: "same_for other (ctDaemon c) (ctDaemon ?c1)"
    using same_for_trans [OF call_group_other call_group_other, OF assms(2) assms(2)] by simp
  have m1: "dmManager (ctDaemon ?c1) = dmManager (ctDaemon c)" by (simp add: call_group_def Let_def)
  obtain e why where "onLoop env (Deferred False sid StateFailed why) ?c1 = (e, c')"
    using assms(1) by (auto simp: start_fail_def Let_def split: prod.splits)
  from onLoop_other [OF _ assms(2) _ assms(5) this] show ?thesis
    using m1 assms(3) same_for_live [OF c1 assms(4)] same_for_trans [OF c1] by simp
qed

lemma startSession_other:
  assumes "startSession env p req c = (r, c')" "stranger p other c"
    and ok: "manager_ok (dmManager (ctDaemon c))" and live: "live_session other (ctDaemon c)"
    and alone: "ceMeanwhile env = (\<lambda>d. d)"
  shows "same_for other (ctDaemon c) (ctDaemon c')"
proof -
  let ?sid = "ssSessionID req"
  obtain err c0 where checks: "start_checks env p req c = (err, c0)" by fastforce
  show ?thesis
  proof (cases err)
    case (Some e)
    then show ?thesis using assms(1) checks start_checks_other by (auto simp: startSession_def Let_def)
  next
    case None
    note pass = start_checks_pass [OF checks [unfolded None]]
    have sid: "other \<noteq> ?sid" using pass(2) assms(2) stranger_refused by blast
    let ?c1 = "on_daemon (\<lambda>d. d\<lparr>dmSessions :=
        map (\<lambda>(k, info). (k, if k = ?sid then info\<lparr>siGroup := True\<rparr> else info)) (dmSessions d)\<rparr>) c"
    have c1: "same_for other (ctDaemon c) (ctDaemon ?c1)" using sid by (simp add: same_for_def map_of_mark)
    have m1: "dmManager (ctDaemon ?c1) = dmManager (ctDaemon c)" by simp
    obtain e m where st: "Start ?sid (ssRootPID req) (ceNow env) (dmManager (ctDaemon c)) = (e, m)" by fastforce
    let ?c2 = "on_daemon (\<lambda>d. d\<lparr>dmManager := m\<rparr>) ?c1"
    have "map_of (mgSessions m) other = map_of (mgSessions (dmManager (ctDaemon c))) other"
      using lifecycle_other(3) [OF sid, of "ssRootPID req" "ceNow env" "dmManager (ctDaemon c)"] st by simp
    then have c2: "same_for other (ctDaemon c) (ctDaemon ?c2)" using c1 by (simp add: same_for_def)
    have m2: "manager_ok (dmManager (ctDaemon ?c2))"
      using step_ok [OF step_start ok, of ?sid "ssRootPID req" "ceNow env"] st by simp
    have rest: "same_for other (ctDaemon c) (ctDaemon x')"
      if "start_fail env ?sid stage err x = (q, x')" "x \<in> {c, ?c1, ?c2}" for stage err x q x'
    proof -
      have x: "same_for other (ctDaemon c) (ctDaemon x)" using that(2) c1 c2 by auto
      have "manager_ok (dmManager (ctDaemon x))" using that(2) ok m1 m2 by auto
      from start_fail_other [OF that(1) sid this same_for_live [OF x live] alone] show ?thesis
        using same_for_trans [OF x] by blast
    qed
    show ?thesis
    proof (cases "ceCreateGroup env ?sid")
      case (Inl err)
      then show ?thesis using assms(1) checks None pass(1) by (simp add: startSession_def)
    next
      case made: (Inr cg)
      show ?thesis
      proof (cases "ceAdopt env ?sid (ssRootPID req)")
        case (Some err)
        then have "start_fail env ?sid ''moving the agent into its cgroup'' err c = (r, c')"
          using assms(1) checks None pass(1) made by (simp add: startSession_def)
        then show ?thesis using rest by blast
      next
        case adopted: None
        show ?thesis
        proof (cases "ceAttachCgroup env ?sid (ssRootPID req)")
          case (Some err)
          then have "start_fail env ?sid ''attaching telemetry'' err ?c1 = (r, c')"
            using assms(1) checks None pass(1) made adopted by (simp add: startSession_def Let_def)
          then show ?thesis using rest by blast
        next
          case attached: None
          note steps = assms(1) checks None pass(1) made adopted attached st
          show ?thesis
          proof (cases e)
            case (Some err)
            then have "start_fail env ?sid ''starting the session'' (session_error_msg err) ?c2 = (r, c')"
              using steps by (simp add: startSession_def Let_def)
            then show ?thesis using rest by blast
          next
            case started: None
            have "c' = ?c2 \<or> (\<exists>rec. c' = record_control env rec ?c2)"
              using steps started
              by (cases "Get ?sid m"; cases "map_of (dmSessions (ctDaemon ?c2)) ?sid")
                (auto simp: startSession_def Let_def)
            then show ?thesis using c2 record_control_same same_for_trans [OF c2] by blast
          qed
        qed
      qed
    qed
  qed
qed

lemma endSession_other:
  assumes "endSession env p req c = (r, c')" "stranger p other c"
    and ok: "manager_ok (dmManager (ctDaemon c))" and live: "live_session other (ctDaemon c)"
    and alone: "ceMeanwhile env = (\<lambda>d. d)"
  shows "same_for other (ctDaemon c) (ctDaemon c')"
proof (cases "authorize p (esSessionID req) c")
  case None
  let ?sid = "esSessionID req"
  have sid: "other \<noteq> ?sid" using None assms(2) stranger_refused by blast
  let ?c1 = "on_daemon (\<lambda>d. d\<lparr>dmSessions :=
      map (\<lambda>(k, info). (k, if k = ?sid then info\<lparr>siEnding := True\<rparr> else info)) (dmSessions d)\<rparr>) c"
  have c1: "same_for other (ctDaemon c) (ctDaemon ?c1)" using sid by (simp add: same_for_def map_of_mark)
  have loop: "same_for other (ctDaemon c) (ctDaemon c2)"
    if "onLoop env (Deferred False ?sid StateCompleted why) ?c1 = (e, c2)" for why e c2
    using onLoop_other [OF _ sid _ alone that] ok same_for_live [OF c1 live] same_for_trans [OF c1] by simp
  show ?thesis using assms(1) None loop
    by (auto simp: endSession_def Let_def split: sum.splits if_splits prod.splits option.splits)
qed (use assms(1) in \<open>simp add: endSession_def Let_def\<close>)

lemma delete_other_requests:
  assumes "approvals_ok a" "map_of (apPending a) rid = Some req" "arSessionID req \<noteq> other"
  shows "filter (\<lambda>kp. request_session kp = other) (AList.delete rid (apPending a)) =
    filter (\<lambda>kp. request_session kp = other) (apPending a)"
proof -
  have d: "distinct (map fst (apPending a))" using assms(1) by (simp add: approvals_ok_def)
  have "fst kp \<noteq> rid \<or> request_session kp \<noteq> other" if "kp \<in> set (apPending a)" for kp
  proof (cases "fst kp = rid")
    case True
    then have "(rid, snd kp) \<in> set (apPending a)" using that by (metis prod.collapse)
    then have "snd kp = req" using d assms(2) by simp
    then show ?thesis using assms(3) by (simp add: request_session_def)
  qed simp
  then show ?thesis unfolding AList.delete_eq filter_filter by (intro filter_cong) (auto simp: case_prod_beta)
qed

lemma respond_other:
  assumes "respond_approval env p raw c = (r, c')" "stranger p other c" "approvals_ok (dmApprovals (ctDaemon c))"
  shows "same_for other (ctDaemon c) (ctDaemon c')"
proof -
  have answered: "same_for other (ctDaemon c) (answer now resp (ctDaemon c))"
    if sid: "sessionOf (asRequestID resp) (dmApprovals (ctDaemon c)) = Some sid" "authorize p sid c = None" for now resp sid
  proof -
    let ?a = "dmApprovals (ctDaemon c)"
    obtain req where req: "map_of (apPending ?a) (asRequestID resp) = Some req" "arSessionID req = sid"
      using sid(1) by (auto simp: sessionOf_def)
    have other: "arSessionID req \<noteq> other" using req(2) sid(2) assms(2) stranger_refused by blast
    note rest = delete_other_requests [OF assms(3) req(1) other]
    have drop: "filter (\<lambda>kp. request_session kp = other) (filter (\<lambda>kp. request_session kp \<noteq> arSessionID req) xs) =
        filter (\<lambda>kp. request_session kp = other) xs" for xs
      using other unfolding filter_filter by (intro filter_cong) auto
    show ?thesis
    proof (cases "asApproved resp")
      case True
      then show ?thesis using resolve_approved [OF req(1) True, of now] rest
        by (simp add: answer_def same_for_def without_def Let_def)
    next
      case False
      then obtain m where "resolve now resp ?a =
          (True, [AuditApproval (answer_record now resp req EffectTerminate), KillSession (arSessionID req) m],
           ?a\<lparr>apPending := filter (\<lambda>kp. request_session kp \<noteq> arSessionID req)
                (AList.delete (asRequestID resp) (apPending ?a)),
              apTerminating := insert (arSessionID req) (apTerminating ?a)\<rparr>)"
        using resolve_denied [OF req(1) False, of now] by blast
      then show ?thesis using other rest drop by (simp add: answer_def same_for_def)
    qed
  qed
  show ?thesis
  proof (cases "decode_params raw")
    case (Inl err)
    then show ?thesis using assms(1) by (simp add: respond_approval_def)
  next
    case decoded: (Inr resp)
    show ?thesis
    proof (cases "sessionOf (asRequestID resp) (dmApprovals (ctDaemon c))")
      case None
      then show ?thesis using assms(1) decoded by (simp add: respond_approval_def)
    next
      case asked: (Some sid)
      obtain e c1 where u: "ungoverned env p ''RespondApproval'' c = (e, c1)" by fastforce
      show ?thesis
      proof (cases e)
        case (Some err)
        then have "c' = c1" using assms(1) decoded asked u by (simp add: respond_approval_def)
        then show ?thesis using ungoverned_same [OF u] by simp
      next
        case None
        then have "c1 = c" using u ungoverned_passes by blast
        then have "c' = c \<or> authorize p sid c = None \<and>
          c' = on_daemon (answer (ceNow env) (resp\<lparr>asRespondedBy := ceUserName env (prUID p),
            asRespondedAt := ceNow env, asTimedOut := False\<rparr>)) c"
          using assms(1) decoded asked u None by (cases "authorize p sid c") (simp_all add: respond_approval_def)
        then show ?thesis using answered asked by auto
      qed
    qed
  qed
qed

section \<open>Calls\<close>

text \<open>A call that governs: it is not decoded, it is refused for the caller's place, or it reaches its handler.\<close>

lemma governing_cases:
  obtains (undecoded) err where "governing_call env p meth raw h c = (Inl err, c)"
  | (refused) err c1 where "ungoverned env p meth c = (Some err, c1)" "governing_call env p meth raw h c = (Inl err, c1)"
  | (handled) req where "raw = Params req" "ungoverned env p meth c = (None, c)"
      "governing_call env p meth raw h c = h req c"
proof (cases "decode_params raw")
  case (Inl err)
  then show ?thesis using undecoded by (simp add: governing_call_def)
next
  case (Inr req)
  then have raw: "raw = Params req" by (cases raw) (simp_all add: decode_params_def)
  obtain e c1 where u: "ungoverned env p meth c = (e, c1)" by fastforce
  show ?thesis
  proof (cases e)
    case None
    then show ?thesis using handled [OF raw] u ungoverned_passes [of env p meth c c1] Inr by (simp add: governing_call_def)
  next
    case (Some err)
    then show ?thesis using refused [of err c1] u Inr by (simp add: governing_call_def)
  qed
qed

lemma map_reply_pair:
  assumes "map_reply f x = (r, c')"
  obtains y where "x = (y, c')" "r = (case y of Inl err \<Rightarrow> Inl err | Inr v \<Rightarrow> Inr (f v))"
proof -
  obtain y d where "x = (y, d)" by fastforce
  then show ?thesis using assms that by (cases y) (auto simp: map_reply_def)
qed

text \<open>The session a request names, and the sessions a reply tells of.\<close>

definition asks_about :: "request \<Rightarrow> string \<Rightarrow> bool" where
  "asks_about rq sid =
     (case rq of
        MethodApproveEnvelope (Params q) \<Rightarrow> aeSessionID q = sid
      | MethodStartSession (Params q) \<Rightarrow> ssSessionID q = sid
      | MethodEndSession (Params q) \<Rightarrow> esSessionID q = sid
      | MethodGetSession (Params s) \<Rightarrow> s = sid
      | MethodGetEnvelope (Params s) \<Rightarrow> s = sid
      | _ \<Rightarrow> False)"

definition tells_of :: "reply \<Rightarrow> string \<Rightarrow> bool" where
  "tells_of v sid =
     (case v of
        ReplyCreated x \<Rightarrow> csrSessionID x = sid
      | ReplySession s \<Rightarrow> sesID s = sid
      | ReplySessions ss \<Rightarrow> list_ex (\<lambda>s. sesID s = sid) ss
      | ReplyApprovals qs \<Rightarrow> list_ex (\<lambda>q. arSessionID q = sid) qs
      | _ \<Rightarrow> False)"

definition answers_nothing :: "request \<Rightarrow> string \<Rightarrow> call_error + reply \<Rightarrow> bool" where
  "answers_nothing rq sid r =
     (case r of Inl _ \<Rightarrow> True | Inr v \<Rightarrow> \<not> asks_about rq sid \<and> \<not> tells_of v sid)"

lemma Get_id: "manager_ok m \<Longrightarrow> Get sid m = Inr s \<Longrightarrow> sesID s = sid"
  using sessions_ok_lookup(1) [of m sid]
  by (auto simp: Get_def lookup_def view_def Let_def manager_ok_def split: option.splits)

text \<open>Nobody else's session: a call leaves it as it was, and its answer says nothing of it.\<close>

definition left_alone :: "string \<Rightarrow> request \<Rightarrow> control \<Rightarrow> (call_error + reply) \<times> control \<Rightarrow> bool" where
  "left_alone sid rq c r \<longleftrightarrow> same_for sid (ctDaemon c) (ctDaemon (snd r)) \<and> answers_nothing rq sid (fst r)"

lemma left_alone_refused: "ungoverned env p meth c = (e, c1) \<Longrightarrow> left_alone sid rq c (Inl err, c1)"
  by (simp add: left_alone_def answers_nothing_def ungoverned_same)

lemma left_alone_same [simp]: "left_alone sid rq c (Inl err, c)"
  by (simp add: left_alone_def answers_nothing_def)

end
