(* ===== verification/ControlCalls.thy ===== *)
theory ControlCalls
  imports ControlLaws
begin

text \<open>The promises of the control protocol, over whole calls.\<close>

section \<open>Strangers\<close>

lemma left_alone_governing:
  assumes "\<And>req. raw = Params req \<Longrightarrow> left_alone sid rq c (map_reply f (h req c))"
  shows "left_alone sid rq c (map_reply f (governing_call env p meth raw h c))"
proof (cases rule: governing_cases [of env p meth raw h c])
  case (undecoded err)
  then show ?thesis by (simp add: map_reply_def)
next
  case (refused err c1)
  then show ?thesis using left_alone_refused [OF refused(1)] by (simp add: map_reply_def)
next
  case (handled req)
  then show ?thesis using assms by simp
qed

lemma map_reply_id: "map_reply (\<lambda>v. v) x = x"
  by (simp add: map_reply_def split: sum.splits prod.splits)

lemma not_mine: "stranger p sid c \<Longrightarrow> \<not> is_owner p c sid"
  using stranger_refused by (auto simp: is_owner_def)

definition strange_call :: "control_env \<Rightarrow> peer \<Rightarrow> string \<Rightarrow> control \<Rightarrow> bool" where
  "strange_call env p sid c \<longleftrightarrow>
     stranger p sid c \<and> live_session sid (ctDaemon c) \<and> manager_ok (dmManager (ctDaemon c)) \<and>
     approvals_ok (dmApprovals (ctDaemon c)) \<and> ceMeanwhile env = (\<lambda>d. d)"

lemma create_alone:
  assumes "strange_call env p sid c"
  shows "left_alone sid (MethodCreateSession raw) c (map_reply ReplyCreated (createSession env p req c))"
proof -
  obtain r c' where e: "createSession env p req c = (r, c')" by fastforce
  then show ?thesis using createSession_other [OF e, of sid] assms
    by (cases r) (auto simp: strange_call_def left_alone_def answers_nothing_def map_reply_def asks_about_def tells_of_def)
qed

lemma approve_alone:
  assumes "strange_call env p sid c"
  shows "left_alone sid (MethodApproveEnvelope (Params req)) c (approveEnvelope env p req c)"
proof -
  obtain r c' where e: "approveEnvelope env p req c = (r, c')" by fastforce
  have s: "stranger p sid c" using assms by (simp add: strange_call_def)
  have "same_for sid (ctDaemon c) (ctDaemon c')" using approveEnvelope_other [OF e s] assms by (simp add: strange_call_def)
  moreover have "\<exists>err. r = Inl err" if "aeSessionID req = sid"
    using e stranger_refused [OF s] that by (auto simp: approveEnvelope_def split: option.splits)
  moreover have "r = Inr v \<Longrightarrow> v = ReplyEmpty" for v
    using e by (auto simp: approveEnvelope_def loop_result_def Let_def split: option.splits prod.splits if_splits)
  ultimately show ?thesis using e
    by (cases r) (auto simp: left_alone_def answers_nothing_def asks_about_def tells_of_def)
qed

lemma startSession_reply: "startSession env p req c = (Inr v, c') \<Longrightarrow> v = ReplyEmpty"
  by (auto simp: startSession_def start_fail_def Let_def split: option.splits prod.splits sum.splits)

lemma start_alone:
  assumes "strange_call env p sid c"
  shows "left_alone sid (MethodStartSession (Params req)) c (startSession env p req c)"
proof -
  obtain r c' where e: "startSession env p req c = (r, c')" by fastforce
  have s: "stranger p sid c" using assms by (simp add: strange_call_def)
  have "same_for sid (ctDaemon c) (ctDaemon c')" using startSession_other [OF e s] assms by (simp add: strange_call_def)
  moreover have "\<exists>err. r = Inl err" if "ssSessionID req = sid"
    using e stranger_refused [OF s] that by (auto simp: startSession_def start_checks_def Let_def)
  ultimately show ?thesis using e startSession_reply [of env p req c]
    by (cases r) (auto simp: left_alone_def answers_nothing_def asks_about_def tells_of_def)
qed

lemma failSessionAs_manager:
  assumes "manager_ok (dmManager d)"
  shows "manager_ok (dmManager (failSessionAs now sid result reason d))"
proof -
  have "manager_ok (dmManager (finish now sid result reason d))"
    using End_ok [of "dmManager d" sid _ now] assms
    by (auto simp: finish_def Let_def kill_and_remove_def call_group_def split: prod.splits)
      (metis snd_conv)+
  then show ?thesis using assms by (simp add: failSessionAs_def split: sum.splits)
qed

lemma onLoop_manager:
  assumes "onLoop env (Deferred False sid st why) c = (err, c')" "manager_ok (dmManager (ctDaemon c))"
    "ceMeanwhile env = (\<lambda>d. d)"
  shows "manager_ok (dmManager (ctDaemon c'))"
  using assms failSessionAs_manager
  by (auto simp: onLoop_def run_deferred_def later_def split: loop_answer.splits)

lemma end_alone:
  assumes "strange_call env p sid c"
  shows "left_alone sid (MethodEndSession (Params req)) c (map_reply ReplySession (endSession env p req c))"
proof -
  obtain r c' where e: "endSession env p req c = (r, c')" by fastforce
  have s: "stranger p sid c" using assms by (simp add: strange_call_def)
  have same: "same_for sid (ctDaemon c) (ctDaemon c')"
    using endSession_other [OF e s] assms by (simp add: strange_call_def)
  have id: "sesID v = esSessionID req" if "r = Inr v" for v
  proof -
    have "\<exists>m. Get (esSessionID req) m = Inr v \<and> manager_ok m"
    proof (cases "authorize p (esSessionID req) c")
      case (Some err)
      then show ?thesis using e that by (auto simp: endSession_def Let_def)
    next
      case mine: None
      show ?thesis
      proof (cases "Get (esSessionID req) (dmManager (ctDaemon c))")
        case (Inl err)
        then show ?thesis using e mine that by (auto simp: endSession_def Let_def)
      next
        case got: (Inr q)
        show ?thesis
        proof (cases "IsTerminal (sesState q)")
          case True
          then have "Get (esSessionID req) (dmManager (ctDaemon c)) = Inr v"
            using e mine got that by (simp add: endSession_def Let_def)
          then show ?thesis using assms by (auto simp: strange_call_def)
        next
          case False
          let ?c1 = "on_daemon (\<lambda>d. d\<lparr>dmSessions := map (\<lambda>(k, info).
              (k, if k = esSessionID req then info\<lparr>siEnding := True\<rparr> else info)) (dmSessions d)\<rparr>) c"
          obtain err c2 where l: "onLoop env (Deferred False (esSessionID req) StateCompleted
              (''agent exited with code '' @ itoa (esExitCode req))) ?c1 = (err, c2)" by fastforce
          have "Get (esSessionID req) (dmManager (ctDaemon c2)) = Inr v"
            using e mine got False l that by (cases err) (auto simp: endSession_def Let_def split: sum.splits)
          moreover have "manager_ok (dmManager (ctDaemon c2))"
            using onLoop_manager [OF l] assms by (simp add: strange_call_def)
          ultimately show ?thesis by blast
        qed
      qed
    qed
    then show ?thesis using Get_id by blast
  qed
  have "\<exists>err. r = Inl err" if "esSessionID req = sid"
    using e stranger_refused [OF s] that by (auto simp: endSession_def Let_def)
  then show ?thesis using e id same
    by (cases r) (auto simp: left_alone_def answers_nothing_def asks_about_def tells_of_def map_reply_def)
qed

lemma read_alone:
  assumes "stranger p sid c" and "\<And>s v. get s = Inr v \<Longrightarrow> s \<noteq> sid \<Longrightarrow> \<not> tells_of v sid"
    and "\<And>s. asks_about rq sid \<Longrightarrow> raw = Params s \<Longrightarrow> s = sid"
  shows "left_alone sid rq c (read_session p raw get c)"
proof (cases "decode_params raw")
  case (Inl err)
  then show ?thesis by (simp add: read_session_def)
next
  case (Inr s)
  then have raw: "raw = Params s" by (cases raw) (simp_all add: decode_params_def)
  show ?thesis
  proof (cases "authorize p s c")
    case None
    then have "s \<noteq> sid" using assms(1) stranger_refused by blast
    then show ?thesis using None Inr assms(2,3) raw
      by (auto simp: read_session_def left_alone_def answers_nothing_def split: sum.splits)
  qed (use Inr in \<open>simp add: read_session_def\<close>)
qed

lemma lists_own:
  assumes "stranger p sid c" "manager_ok (dmManager (ctDaemon c))"
  shows "\<forall>s\<in>set (listSessions p f c). sesID s \<noteq> sid"
    and "\<forall>q\<in>set (list_requests (is_owner p c) a). arSessionID q \<noteq> sid"
  using not_mine [OF assms(1)] by (auto simp: listSessions_def list_requests_def)

lemma respond_alone:
  assumes "strange_call env p sid c"
  shows "left_alone sid (MethodRespondApproval raw) c (respond_approval env p raw c)"
proof -
  obtain r c' where e: "respond_approval env p raw c = (r, c')" by fastforce
  have "same_for sid (ctDaemon c) (ctDaemon c')"
    using respond_other [OF e] assms by (simp add: strange_call_def)
  moreover have "r = Inr v \<Longrightarrow> v = ReplyEmpty" for v
    using e by (auto simp: respond_approval_def split: sum.splits option.splits prod.splits)
  ultimately show ?thesis using e
    by (cases r) (auto simp: left_alone_def answers_nothing_def asks_about_def tells_of_def)
qed

lemma leftover_alone:
  assumes "strange_call env p sid c"
  shows "listLeftovers env p c = Inl not_root" "leftover env p name c = Inl not_root"
  using assms by (simp_all add: strange_call_def stranger_def listLeftovers_def leftover_def)

lemma strange_call_alone:
  assumes "strange_call env p sid c"
  shows "left_alone sid rq c (control_call env p rq c)"
proof -
  have s: "stranger p sid c" and ok: "manager_ok (dmManager (ctDaemon c))" using assms by (simp_all add: strange_call_def)
  note own = lists_own [OF s ok]
  note gone = left_alone_governing [where f = "\<lambda>v. v", unfolded map_reply_id]
  note got = Get_id [OF ok]
  show ?thesis
  proof (cases rq)
    case (MethodCreateSession raw)
    then show ?thesis 
      using left_alone_governing [of raw sid rq c ReplyCreated "createSession env p"] create_alone [OF assms]
      by (simp add: control_call_def)
  next
    case (MethodApproveEnvelope raw)
    then show ?thesis using gone [of raw sid rq c "approveEnvelope env p"] approve_alone [OF assms] by (simp add: control_call_def)
  next
    case (MethodStartSession raw)
    then show ?thesis using gone [of raw sid rq c "startSession env p"] start_alone [OF assms] by (simp add: control_call_def)
  next
    case (MethodEndSession raw)
    then show ?thesis
      using left_alone_governing [of raw sid rq c ReplySession "endSession env p"] end_alone [OF assms]
      by (simp add: control_call_def)
  next
    case (MethodGetSession raw)
    then show ?thesis unfolding control_call_def MethodGetSession request.case
      by (intro read_alone [OF s]) (auto simp: asks_about_def tells_of_def dest: got split: sum.splits)
  next
    case (MethodGetEnvelope raw)
    then show ?thesis unfolding control_call_def MethodGetEnvelope request.case
      by (intro read_alone [OF s]) (auto simp: asks_about_def tells_of_def split: sum.splits)
  next
    case (MethodListSessions raw)
    then show ?thesis using own(1)
      by (auto simp: control_call_def left_alone_def answers_nothing_def asks_about_def tells_of_def list_ex_iff
        split: sum.splits)
  next
    case MethodPendingApprovals
    then show ?thesis using own(2)
      by (auto simp: control_call_def left_alone_def answers_nothing_def asks_about_def tells_of_def list_ex_iff)
  next
    case (MethodRespondApproval raw)
    then show ?thesis using respond_alone [OF assms] by (simp add: control_call_def)
  next
    case (MethodThawLeftover raw)
    then show ?thesis using leftover_alone [OF assms] by (simp add: control_call_def thawLeftover_def split: sum.splits)
  next
    case (MethodKillLeftover raw)
    then show ?thesis using leftover_alone [OF assms] by (simp add: control_call_def killLeftover_def split: sum.splits)
  qed (use leftover_alone [OF assms] in
    \<open>simp_all add: control_call_def left_alone_def answers_nothing_def asks_about_def tells_of_def\<close>)
qed

section \<open>Governed callers\<close>

text \<open>A caller inside a session, or one that cannot be placed.\<close>

definition governed_caller :: "control_env \<Rightarrow> peer \<Rightarrow> bool" where
  "governed_caller env p \<longleftrightarrow> \<not> peer_root p \<and>
     (case ceGoverned env (prPID p) of Inl _ \<Rightarrow> True | Inr (_, inside) \<Rightarrow> inside)"

text \<open>The requests that change something.\<close>

definition governs :: "request \<Rightarrow> bool" where
  "governs rq =
     (case rq of
        MethodCreateSession _ \<Rightarrow> True | MethodApproveEnvelope _ \<Rightarrow> True | MethodStartSession _ \<Rightarrow> True
      | MethodEndSession _ \<Rightarrow> True | MethodRespondApproval _ \<Rightarrow> True | MethodThawLeftover _ \<Rightarrow> True
      | MethodKillLeftover _ \<Rightarrow> True | _ \<Rightarrow> False)"

text \<open>What a refusal may leave behind: a count, a record of the refusal, and that record's failed write.\<close>

definition only_noted :: "peer \<Rightarrow> control \<Rightarrow> control \<Rightarrow> bool" where
  "only_noted p c c' \<longleftrightarrow>
     but_errors (ctDaemon c) (ctDaemon c') \<and> ctConfig c' = ctConfig c \<and> ctLeftovers c' = ctLeftovers c \<and>
     (ctRecords c' = ctRecords c \<or>
      (\<exists>r. ctRecords c' = ctRecords c @ [RecRefused r] \<and> cfPID r = prPID p \<and> cfUID r = prUID p))"

lemma only_noted_refl [simp]: "only_noted p c c"
  by (simp add: only_noted_def)

lemma refused_noted: "only_noted p c (refuse env meth p sid why c)"
  by (simp add: only_noted_def) (simp add: refuse_def)

lemma ungoverned_refuses:
  assumes "governed_caller env p"
  obtains err sid why where "ungoverned env p meth c = (Some err, refuse env meth p sid why c)"
  using assms by (auto simp: governed_caller_def ungoverned_def split: sum.splits prod.splits)

lemma governing_refused:
  assumes "governed_caller env p"
  shows "\<exists>err c'. governing_call env p meth raw h c = (Inl err, c') \<and> only_noted p c c'"
proof (cases rule: governing_cases [of env p meth raw h c])
  case (undecoded err)
  then show ?thesis by simp
next
  case (refused err c1)
  then show ?thesis using ungoverned_refuses [OF assms, of meth c] refused_noted by (metis prod.inject)
next
  case (handled req)
  then show ?thesis using ungoverned_refuses [OF assms, of meth c] by (metis option.distinct(1) prod.inject)
qed

lemma map_reply_refused:
  "\<exists>err c'. x = (Inl err, c') \<and> only_noted p c c' \<Longrightarrow> \<exists>err c'. map_reply f x = (Inl err, c') \<and> only_noted p c c'"
  by (auto simp: map_reply_def)

lemma governed_call:
  assumes "governed_caller env p"
  shows "only_noted p c (snd (control_call env p rq c))"
    and "governs rq \<Longrightarrow> \<exists>err. fst (control_call env p rq c) = Inl err"
proof -
  have root: "\<not> peer_root p" using assms by (simp add: governed_caller_def)
  have g: "\<exists>err c'. governing_call env p meth raw h c = (Inl err, c') \<and> only_noted p c c'"
    for meth raw and h :: "'x \<Rightarrow> control \<Rightarrow> (call_error + 'y) \<times> control"
    by (rule governing_refused [OF assms])
  have resp: "\<exists>err c'. respond_approval env p raw c = (Inl err, c') \<and> only_noted p c c'" for raw
    using ungoverned_refuses [OF assms, of "''RespondApproval''" c] refused_noted
    by (auto simp: respond_approval_def split: sum.splits option.splits)
      (metis (no_types, lifting) case_prod_conv option.case(2))+
  have "only_noted p c (snd (control_call env p rq c)) \<and> (governs rq \<longrightarrow> (\<exists>err. fst (control_call env p rq c) = Inl err))"
  proof (cases rq)
    case (MethodCreateSession raw)
    then show ?thesis using map_reply_refused [OF governing_refused [OF assms], of ReplyCreated "''CreateSession''" raw "createSession env p" c]
      by (auto simp: control_call_def)
  next
    case (MethodApproveEnvelope raw)
    then show ?thesis using governing_refused [OF assms, of "''ApproveEnvelope''" raw "approveEnvelope env p" c]
      by (auto simp: control_call_def)
  next
    case (MethodStartSession raw)
    then show ?thesis using governing_refused [OF assms, of "''StartSession''" raw "startSession env p" c]
      by (auto simp: control_call_def)
  next
    case (MethodEndSession raw)
    then show ?thesis using map_reply_refused [OF governing_refused [OF assms], of ReplySession "''EndSession''" raw "endSession env p" c]
      by (auto simp: control_call_def)
  next
    case (MethodRespondApproval raw)
    then show ?thesis using resp [of raw] by (auto simp: control_call_def)
  qed (use root in \<open>auto simp: control_call_def governs_def read_session_def listLeftovers_def thawLeftover_def
      killLeftover_def leftover_def split: sum.splits option.splits\<close>)
  then show "only_noted p c (snd (control_call env p rq c))"
    "governs rq \<Longrightarrow> \<exists>err. fst (control_call env p rq c) = Inl err" by auto
qed

section \<open>Created sessions\<close>

definition live_count :: "manager \<Rightarrow> nat" where
  "live_count m = length (filter (\<lambda>kr. \<not> IsTerminal (sesState (mdSession (snd kr)))) (mgSessions m))"

lemma activeCount_eq: "activeCount c = int (live_count (dmManager (ctDaemon c)))"
proof -
  let ?P = "\<lambda>s. \<not> IsTerminal (sesState s)"
  have st: "sesState (view rec) = sesState (mdSession rec)" for rec by (simp add: view_def Let_def)
  have all: "filter_matches every_session s" for s by (simp add: filter_matches_def every_session_def)
  have "length (filter ?P (sort_key f xs)) = length (filter ?P xs)" for f :: "session \<Rightarrow> time \<times> string" and xs
    by (metis filter_sort length_sort)
  then show ?thesis
    by (simp add: activeCount_def live_count_def list_sessions_def every_session_def [symmetric] all st
        filter_map o_def) (simp add: every_session_def filter_map o_def st)
qed

lemma live_count_new:
  "map_of (mgSessions m) sid = None \<Longrightarrow> \<not> IsTerminal (sesState (mdSession rec)) \<Longrightarrow>
     live_count (store sid rec m) = live_count m + 1"
proof -
  have "map_of xs sid = None \<Longrightarrow> AList.update sid rec xs = xs @ [(sid, rec)]" for xs :: "(string \<times> managed) list"
    by (induction xs) (auto split: if_splits)
  then show "map_of (mgSessions m) sid = None \<Longrightarrow> \<not> IsTerminal (sesState (mdSession rec)) \<Longrightarrow>
     live_count (store sid rec m) = live_count m + 1"
    by (simp add: live_count_def store_def)
qed

lemma live_count_same:
  "map_of (mgSessions m) sid = Some old \<Longrightarrow> IsTerminal (sesState (mdSession rec)) = IsTerminal (sesState (mdSession old)) \<Longrightarrow>
     live_count (store sid rec m) = live_count m"
proof -
  have "map_of xs sid = Some old \<Longrightarrow> IsTerminal (sesState (mdSession rec)) = IsTerminal (sesState (mdSession old)) \<Longrightarrow>
     length (filter (\<lambda>kr. \<not> IsTerminal (sesState (mdSession (snd kr)))) (AList.update sid rec xs)) =
     length (filter (\<lambda>kr. \<not> IsTerminal (sesState (mdSession (snd kr)))) xs)" for xs
    by (induction xs) (auto split: if_splits)
  then show "map_of (mgSessions m) sid = Some old \<Longrightarrow> IsTerminal (sesState (mdSession rec)) = IsTerminal (sesState (mdSession old)) \<Longrightarrow>
     live_count (store sid rec m) = live_count m"
    by (simp add: live_count_def store_def)
qed

text \<open>What the manager holds for a session it was asked to create.\<close>

definition fresh_record :: "control_env \<Rightarrow> create_session_request \<Rightarrow> string \<Rightarrow> envelope \<Rightarrow> control \<Rightarrow> managed \<Rightarrow> bool" where
  "fresh_record env req sid sealed c rec \<longleftrightarrow>
     sesID (mdSession rec) = sid \<and> sesState (mdSession rec) = StatePending \<and> sesEnvelope (mdSession rec) = sealed \<and>
     (mode_string (Restrict (ccDefaultMode (ctConfig c)) (csMode req)) \<noteq> [] \<longrightarrow>
       sesMode (mdSession rec) = Restrict (ccDefaultMode (ctConfig c)) (csMode req))"

lemma open_session_fresh:
  assumes "map_of (mgSessions (dmManager (ctDaemon c))) sid = None" "envSessionID sealed = sid" "sid \<noteq> []"
  obtains rec where "fresh_record env req sid sealed c rec"
    "Create \<lparr>crEnvelope = Some sealed, crPrompt = inRawPrompt (anRecord an), crWorkspaceRoot = ws,
       crMode = Restrict (ccDefaultMode (ctConfig c)) (csMode req), crAgentIdentity = csAgentIdentity req\<rparr>
       (ceNow env) (dmManager (ctDaemon c)) = (Inr (mdSession rec), store sid rec (dmManager (ctDaemon c)))"
proof -
  let ?req = "\<lparr>crEnvelope = Some sealed, crPrompt = inRawPrompt (anRecord an), crWorkspaceRoot = ws,
     crMode = Restrict (ccDefaultMode (ctConfig c)) (csMode req), crAgentIdentity = csAgentIdentity req\<rparr>"
  let ?mode = "Restrict (ccDefaultMode (ctConfig c)) (csMode req)"
  let ?rec = "\<lparr>mdSession = \<lparr>sesID = sid, sesState = StatePending, sesEnvelope = sealed,
      sesMode = (if mode_string ?mode = [] then mgDefaultMode (dmManager (ctDaemon c)) else ?mode), sesRootPID = 0,
      sesWorkspaceRoot = (if ws = [] then WorkspaceRoot (Constraints sealed) else ws), sesCreatedAt = ceNow env,
      sesStartedAt = 0, sesEndedAt = None, sesOutcome = zero_outcome, sesSummary = zero_summary\<rparr>,
    mdState = NewStateWith ((mgStateConfig (dmManager (ctDaemon c)))
      \<lparr>scSessionID := sid, scEnvelope := Some sealed, scStartedAt := 0\<rparr>)\<rparr>"
  show ?thesis
  proof (rule that [of ?rec])
    show "fresh_record env req sid sealed c ?rec" by (simp add: fresh_record_def)
    show "Create ?req (ceNow env) (dmManager (ctDaemon c)) =
        (Inr (mdSession ?rec), store sid ?rec (dmManager (ctDaemon c)))"
      using assms by (simp add: Create_def Let_def)
  qed
qed

definition owned :: "peer \<Rightarrow> session_info" where
  "owned p = \<lparr>siOwner = p, siGroup = False, siEmptySince = 0, siEnding = False\<rparr>"

definition registered :: "peer \<Rightarrow> string \<Rightarrow> managed \<Rightarrow> control \<Rightarrow> control" where
  "registered p sid rec c =
     on_daemon (\<lambda>d. d\<lparr>dmManager := store sid rec (dmManager d), dmSessions := AList.update sid (owned p) (dmSessions d)\<rparr>) c"

text \<open>The lint decides whether a fresh session is sealed. It is registered with the manager either way.\<close>

lemma open_session_refused:
  assumes "fresh_record env req sid sealed c rec"
    and "Create \<lparr>crEnvelope = Some sealed, crPrompt = inRawPrompt (anRecord an), crWorkspaceRoot = ws,
       crMode = Restrict (ccDefaultMode (ctConfig c)) (csMode req), crAgentIdentity = csAgentIdentity req\<rparr>
       (ceNow env) (dmManager (ctDaemon c)) = (Inr (mdSession rec), store sid rec (dmManager (ctDaemon c)))"
    and "BlockingIssues (LintEnvelope sealed) = i # is"
  shows "open_session env p req sid ws an sealed notes c =
    (Inl (ManagerError (ErrEnvelopeInadmissible (isField i) (isMessage i))), registered p sid rec c)"
proof -
  let ?m = "store sid rec (dmManager (ctDaemon c))"
  have "Seal sid ?m = (Some (ErrEnvelopeInadmissible (isField i) (isMessage i)), ?m)"
    using assms(1,3) by (simp add: Seal_def transition_def lookup_def check_def lifecycle_defs seal_body_def fresh_record_def)
  then show ?thesis using assms(2) by (simp add: open_session_def registered_def owned_def on_daemon_def)
qed

lemma open_session_opened:
  assumes "fresh_record env req sid sealed c rec"
    and "Create \<lparr>crEnvelope = Some sealed, crPrompt = inRawPrompt (anRecord an), crWorkspaceRoot = ws,
       crMode = Restrict (ccDefaultMode (ctConfig c)) (csMode req), crAgentIdentity = csAgentIdentity req\<rparr>
       (ceNow env) (dmManager (ctDaemon c)) = (Inr (mdSession rec), store sid rec (dmManager (ctDaemon c)))"
    and "BlockingIssues (LintEnvelope sealed) = []" "envSealed sealed"
  obtains rec' v where "open_session env p req sid ws an sealed notes c = (Inr v, registered p sid rec' c)"
    "csrSessionID v = sid" "csrEnvelope v = sealed" "sesEnvelope (mdSession rec') = sealed"
    "sesMode (mdSession rec') = sesMode (mdSession rec)"
    "sesState (mdSession rec') = (if csrRequiresApproval v then StateAwaitingApproval else StateReady)"
    "csrRequiresApproval v \<longleftrightarrow> mgRequireApproval (dmManager (ctDaemon c)) \<and> envApproval sealed = None"
proof -
  let ?m = "store sid rec (dmManager (ctDaemon c))"
  let ?st = "if mgRequireApproval (dmManager (ctDaemon c)) \<and> envApproval sealed = None then StateAwaitingApproval else StateReady"
  let ?rec = "set_session (\<lambda>s. s\<lparr>sesEnvelope := sealed\<lparr>envSealed := True\<rparr>, sesState := ?st\<rparr>) rec"
  have again: "store sid r (store sid r' m) = store sid r m" for r r' m
    by (simp add: store_def update_last)
  have "sealed\<lparr>envSealed := True\<rparr> = sealed" using assms(4) by simp
  moreover have "Seal sid ?m = (None, store sid ?rec (dmManager (ctDaemon c)))"
    using assms(1,3) by (simp add: Seal_def transition_def lookup_def check_def lifecycle_defs seal_body_def
        fresh_record_def again)
  moreover have "sesState (view ?rec) = ?st" "sesEnvelope (view ?rec) = sealed\<lparr>envSealed := True\<rparr>"
    by (simp_all add: view_def set_session_def Let_def)
  ultimately show ?thesis
    using assms(2) that [of _ ?rec]
    by (simp add: open_session_def registered_def owned_def on_daemon_def Get_def lookup_def set_session_def Let_def)
qed

end
