(* ===== verification/ControlSessions.thy ===== *)
theory ControlSessions
  imports ControlCalls DaemonRuns
begin

text \<open>Sessions from the prompt to the running child.\<close>

section \<open>Creation\<close>

lemma Restrict_rank: "ModeRank (Restrict a b) = max (ModeRank a) (ModeRank b)"
  by (simp add: Restrict_def)

lemma ModeRank_named: "0 \<le> ModeRank m \<Longrightarrow> mode_string m \<noteq> []"
  by (cases m) (simp_all add: ModeRank_def)

text \<open>A creation that reaches the manager, taken apart.\<close>

lemma createSession_parts:
  assumes "createSession env p req c = (r, c')" "c' \<noteq> c \<or> (\<exists>v. r = Inr v) \<or> (\<exists>e. r = Inl (ManagerError e))"
  obtains ws an res sealed where "create_checks env req c = Inr ws" "read_prompt env req ws c = Inr an"
    "Generate_envelope (generator_limits (ctConfig c)) (ceEnvelopeRandom env) (ceNow env)
       (Some an) (Some (NewCatalog (cvObservable (ceCoverage env))))
       (envelope_params env p (NewSessionID (ceStamp env) (ceSessionRandom env) (ceNow env)) ws (ctConfig c)) = Inr res"
    "Seal_envelope (ceJson env) (ceSha env) (Some (gnEnvelope res)) = (None, Some sealed)"
    "open_session env p req (NewSessionID (ceStamp env) (ceSessionRandom env) (ceNow env)) ws an sealed
       (gnWarnings res) c = (r, c')"
  using assms by (auto simp: createSession_def Let_def create_checks_def
      split: sum.splits prod.splits option.splits if_splits)

lemma create_checks_pass:
  assumes "create_checks env req c = Inr ws"
  shows "stPassed (ctSelfTest c)" "activeCount c < ccMaxConcurrentSessions (ctConfig c)"
    "Restrict (ccDefaultMode (ctConfig c)) (csMode req) = ModeEnforce \<Longrightarrow> \<not> cvDegraded (ceCoverage env)"
  using assms by (auto simp: create_checks_def Let_def split: if_splits)

lemma open_session_known:
  assumes "map_of (mgSessions (dmManager (ctDaemon c))) sid = Some rec" "envSessionID sealed = sid" "sid \<noteq> []"
  shows "open_session env p req sid ws an sealed notes c = (Inl (ManagerError (ErrExists sid)), c)"
  using assms by (simp add: open_session_def Create_def on_daemon_def)

lemma open_session_unnamed:
  "envSessionID sealed = [] \<Longrightarrow>
     open_session env p req sid ws an sealed notes c = (Inl (ManagerError ErrNoSessionID), c)"
  by (simp add: open_session_def Create_def on_daemon_def)

text \<open>The session identifier is never empty: the stamp is followed by a dash.\<close>

lemma NewSessionID_named: "NewSessionID stamp rnd now \<noteq> []"
  by (simp add: NewSessionID_def)

lemma lint_digest [simp]: "LintEnvelope (env\<lparr>envDigest := d\<rparr>) = LintEnvelope env"
  by (simp add: LintEnvelope_def)

lemma sealed_fields:
  assumes "Seal_envelope json sha (Some e) = (None, Some sealed)"
  shows "LintEnvelope sealed = LintEnvelope e" "envApproval sealed = envApproval e"
  using assms by (auto simp: Seal_envelope_def split: if_splits sum.splits)

text \<open>A creation that reaches the manager either registers a session or finds its name taken.\<close>

lemma createSession_registers:
  assumes "createSession env p req c = (r, c')" "(\<exists>v. r = Inr v) \<or> (\<exists>e. r = Inl (ManagerError e))"
  obtains (taken) err where "c' = c" "r = Inl (ManagerError err)" "\<And>f m. err \<noteq> ErrEnvelopeInadmissible f m"
  | (refused) sid rec and i :: issue where "map_of (mgSessions (dmManager (ctDaemon c))) sid = None"
      "sesState (mdSession rec) = StatePending" "c' = registered p sid rec c"
      "r = Inl (ManagerError (ErrEnvelopeInadmissible (isField i) (isMessage i)))"
  | (opened) sid rec v where "map_of (mgSessions (dmManager (ctDaemon c))) sid = None"
      "c' = registered p sid rec c" "r = Inr v" "csrSessionID v = sid" "csrEnvelope v = sesEnvelope (mdSession rec)"
      "sesState (mdSession rec) = (if csrRequiresApproval v then StateAwaitingApproval else StateReady)"
      "csrRequiresApproval v = mgRequireApproval (dmManager (ctDaemon c))"
      "mode_string (Restrict (ccDefaultMode (ctConfig c)) (csMode req)) \<noteq> [] \<Longrightarrow>
        sesMode (mdSession rec) = Restrict (ccDefaultMode (ctConfig c)) (csMode req)"
      "envSessionID (sesEnvelope (mdSession rec)) = sid" "envSealed (sesEnvelope (mdSession rec))"
      "Verify_envelope (ceJson env) (ceSha env) (Some (sesEnvelope (mdSession rec))) = None"
      "BlockingIssues (LintEnvelope (sesEnvelope (mdSession rec))) = []"
proof -
  let ?sid = "NewSessionID (ceStamp env) (ceSessionRandom env) (ceNow env)"
  from assms obtain ws an res sealed where g: "Generate_envelope (generator_limits (ctConfig c)) (ceEnvelopeRandom env)
      (ceNow env) (Some an) (Some (NewCatalog (cvObservable (ceCoverage env)))) (envelope_params env p ?sid ws (ctConfig c)) = Inr res"
    and sl: "Seal_envelope (ceJson env) (ceSha env) (Some (gnEnvelope res)) = (None, Some sealed)"
    and op: "open_session env p req ?sid ws an sealed (gnWarnings res) c = (r, c')"
    by (blast elim: createSession_parts)
  have id: "envSessionID sealed = ?sid" and ver: "Verify_envelope (ceJson env) (ceSha env) (Some sealed) = None"
    and sd: "envSealed sealed"
    using sealed_session [OF g sl] by (simp_all add: envelope_params_def)
  have unapproved: "envApproval sealed = None"
    using sealed_fields(2) [OF sl] Generate_Inr(3) [OF g] by (simp add: generated_def)
  show ?thesis
  proof (cases "map_of (mgSessions (dmManager (ctDaemon c))) ?sid")
    case (Some rec)
    then show ?thesis using op open_session_known [OF Some id NewSessionID_named] taken by auto
  next
    case fresh: None
    obtain rec where rec: "fresh_record env req ?sid sealed c rec"
      "Create \<lparr>crEnvelope = Some sealed, crPrompt = inRawPrompt (anRecord an), crWorkspaceRoot = ws,
         crMode = Restrict (ccDefaultMode (ctConfig c)) (csMode req), crAgentIdentity = csAgentIdentity req\<rparr>
         (ceNow env) (dmManager (ctDaemon c)) = (Inr (mdSession rec), store ?sid rec (dmManager (ctDaemon c)))"
      by (rule open_session_fresh [OF fresh id NewSessionID_named])
    show ?thesis
    proof (cases "BlockingIssues (LintEnvelope sealed)")
      case (Cons i "is")
      have "r = Inl (ManagerError (ErrEnvelopeInadmissible (isField i) (isMessage i)))" "c' = registered p ?sid rec c"
        using op open_session_refused [OF rec Cons] by auto
      then show ?thesis using refused [OF fresh, of rec i] rec(1) by (simp add: fresh_record_def)
    next
      case Nil
      obtain rec' v where o: "open_session env p req ?sid ws an sealed (gnWarnings res) c = (Inr v, registered p ?sid rec' c)"
        "csrSessionID v = ?sid" "csrEnvelope v = sealed" "sesEnvelope (mdSession rec') = sealed"
        "sesMode (mdSession rec') = sesMode (mdSession rec)"
        "sesState (mdSession rec') = (if csrRequiresApproval v then StateAwaitingApproval else StateReady)"
        "csrRequiresApproval v \<longleftrightarrow> mgRequireApproval (dmManager (ctDaemon c)) \<and> envApproval sealed = None"
        by (rule open_session_opened [OF rec Nil sd])
      show ?thesis
        by (rule opened [OF fresh, of rec' v])
          (use o op rec(1) id ver sd unapproved Nil in \<open>auto simp: fresh_record_def\<close>)
    qed
  qed
qed

lemma registered_parts:
  "map_of (mgSessions (dmManager (ctDaemon (registered p sid rec c)))) sid = Some rec"
  "map_of (dmSessions (ctDaemon (registered p sid rec c))) sid = Some (owned p)"
  by (simp_all add: registered_def update_conv')

lemma registered_count:
  "map_of (mgSessions (dmManager (ctDaemon c))) sid = None \<Longrightarrow> \<not> IsTerminal (sesState (mdSession rec)) \<Longrightarrow>
     activeCount (registered p sid rec c) = activeCount c + 1"
  by (simp add: activeCount_eq registered_def live_count_new)

section \<open>A small daemon and its surroundings\<close>

definition demo_control :: control where
  "demo_control =
     \<lparr>ctDaemon = demo_running,
      ctConfig = \<lparr>ccDefaultMode = ModeInteractive, ccMaxConcurrentSessions = 4, ccEnableSanitizer = False,
        ccRetainPrompt = False, ccDefaultTTL = 0, ccMaxGrants = 0, ccResolvers = [], ccVersion = [], ccStarted = 0\<rparr>,
      ctSelfTest = \<lparr>stPassed = True, stProbe = ''openat'', stDetail = [], stLatency = 0, stAt = 0\<rparr>, ctRefusals = 0, ctLeftovers = [], ctRecords = []\<rparr>"

text \<open>The user with UID 1000 owns the running session; the process 77 is inside it.\<close>

definition demo_env :: control_env where
  "demo_env =
     \<lparr>ceNow = 100, ceGoverned = (\<lambda>pid. Inr (''s-1'', pid = 77)), ceProcess = (\<lambda>_. Inr (41, 1000)),
      ceHome = (\<lambda>_. []), ceUserName = (\<lambda>_. ''ada''), ceEvalSymlinks = (\<lambda>w. Inr w), ceIsDir = (\<lambda>_. True),
      ceCoverage = \<lparr>cvProbes = [], cvFamilies = [], cvObservable = AllKinds, cvUnobservable = [], cvUnsupported = [],
        cvFloorIntact = True, cvDegraded = False, cvEntryPoints = []\<rparr>,
      ceDroppedEvents = 0,
      ceCreateGroup = (\<lambda>_. Inr 9), ceAdopt = (\<lambda>_ _. None), ceAttachCgroup = (\<lambda>_ _. None),
      ceLeftover = (\<lambda>_. Inl (lit ''none'')), ceEmitRecord = (\<lambda>_. None), ceLoop = LoopRan,
      ceMeanwhile = (\<lambda>d. d), ceContextErr = lit ''canceled'', ceSessionRandom = [], ceEnvelopeRandom = [],
      ceStamp = (\<lambda>_. ''t''), ceJson = (\<lambda>e. Inr (envID e)), ceSha = map (\<lambda>c. of_char c mod 256),
      ceLower = (\<lambda>s. s), ceFold = (=)\<rparr>"

definition demo_ask :: "string \<Rightarrow> create_session_request" where
  "demo_ask ws = \<lparr>csPrompt = ''build it'', csWorkspaceRoot = ws, csMode = ModeMonitor, csAgentIdentity = [],
     csWorkspace = \<lparr>wcLanguages = [], wcBuildSystems = [], wcHasVCS = False, wcTopLevelDirs = [], wcSensitivePaths = []\<rparr>\<rparr>"

lemma demo_daemon_ok:
  "manager_ok (dmManager (ctDaemon demo_control))" "approvals_ok (dmApprovals (ctDaemon demo_control))"
  "live_session ''s-1'' (ctDaemon demo_control)" "stranger \<lparr>prPID = 60, prUID = 1001\<rparr> ''s-1'' demo_control"
  "ceMeanwhile demo_env = (\<lambda>d. d)"
proof -
  have "parts_ok demo_running" using reachable_invariant [OF demo_running_reachable] by (simp add: daemon_ok_def)
  then show "manager_ok (dmManager (ctDaemon demo_control))" "approvals_ok (dmApprovals (ctDaemon demo_control))"
    by (simp_all add: parts_ok_def demo_control_def)
  show "live_session ''s-1'' (ctDaemon demo_control)"
    using demo_running_session by (auto simp: live_session_def demo_control_def lifecycle_defs)
  show "stranger \<lparr>prPID = 60, prUID = 1001\<rparr> ''s-1'' demo_control"
    by (simp add: stranger_def peer_root_def demo_control_def demo_running_def)
qed (simp add: demo_env_def)

lemma Analyze_total: "trim_space (iqPrompt req) \<noteq> [] \<Longrightarrow> \<exists>an. Analyze l f req = Inr an"
  by (simp add: Analyze_def Let_def)

lemma demo_read: "\<exists>an. read_prompt demo_env (demo_ask ws) w demo_control = Inr an"
proof -
  have "trim_space ''build it'' \<noteq> []" by code_simp
  then obtain an where "Analyze (ceLower demo_env) (ceFold demo_env)
      \<lparr>iqPrompt = ''build it'', iqWorkspaceRoot = w, iqContext = csWorkspace (demo_ask ws), iqPriorTurns = [],
       iqAgentIdentity = csAgentIdentity (demo_ask ws)\<rparr> = Inr an"
    using Analyze_total [of "\<lparr>iqPrompt = ''build it'', iqWorkspaceRoot = w, iqContext = csWorkspace (demo_ask ws),
      iqPriorTurns = [], iqAgentIdentity = csAgentIdentity (demo_ask ws)\<rparr>"] by auto
  moreover have "csPrompt (demo_ask ws) = ''build it''" by (simp add: demo_ask_def)
  moreover have "\<not> ccEnableSanitizer (ctConfig demo_control)" by (simp add: demo_control_def)
  ultimately show ?thesis by (simp add: read_prompt_def)
qed

lemma demo_count: "activeCount demo_control = 1"
  using demo_running_session by (auto simp: activeCount_eq live_count_def demo_control_def lifecycle_defs)

lemma demo_checks:
  assumes "clean_path ws = ws" "is_abs ws"
  shows "create_checks demo_env (demo_ask ws) demo_control = Inr ws"
proof -
  have "Restrict ModeInteractive ModeMonitor = ModeInteractive" "ValidMode ModeMonitor"
    by (simp_all add: Restrict_def ModeRank_def ValidMode_def)
  then show ?thesis using assms demo_count
    by (simp add: create_checks_def demo_ask_def) (simp add: demo_control_def demo_env_def)
qed

lemma demo_creation:
  assumes "clean_path ws = ws" "is_abs ws" "ws \<noteq> ''/''"
  obtains an sealed ns where
    "createSession demo_env p (demo_ask ws) demo_control =
       open_session demo_env p (demo_ask ws) ''s-t-'' ws an sealed ns demo_control"
    "LintEnvelope sealed = LintEnvelope (generated (generator_limits (ctConfig demo_control)) [] 100 an
       (Some (NewCatalog AllKinds)) (envelope_params demo_env p ''s-t-'' ws (ctConfig demo_control)))"
    "envSessionID sealed = ''s-t-''" "envSealed sealed"
proof -
  let ?pm = "envelope_params demo_env p ''s-t-'' ws (ctConfig demo_control)"
  let ?l = "generator_limits (ctConfig demo_control)"
  obtain an where an: "read_prompt demo_env (demo_ask ws) ws demo_control = Inr an" using demo_read by blast
  have pm: "pmWorkspaceRoot ?pm = ws" "lmMaxGrants ?l \<le> 0"
    by (simp_all add: envelope_params_def generator_limits_def demo_control_def)
  obtain w where g: "Generate_envelope ?l [] 100 (Some an) (Some (NewCatalog AllKinds)) ?pm =
      Inr \<lparr>gnEnvelope = generated ?l [] 100 an (Some (NewCatalog AllKinds)) ?pm, gnWarnings = w\<rparr>"
    using Generate_total [of ?pm ?l "[]" 100 an "Some (NewCatalog AllKinds)"] pm assms by auto
  let ?e = "generated ?l [] 100 an (Some (NewCatalog AllKinds)) ?pm"
  have json: "ceJson demo_env = (\<lambda>e. Inr (envID e))" by (simp add: demo_env_def)
  obtain sealed where sl: "Seal_envelope (ceJson demo_env) (ceSha demo_env) (Some ?e) = (None, Some sealed)"
    by (simp add: Seal_envelope_def Digest_def json generated_def)
  have named: "NewSessionID (ceStamp demo_env) (ceSessionRandom demo_env) 100 = ''s-t-''"
    by (simp add: NewSessionID_def demo_env_def hex_encode_def)
  have env: "ceEnvelopeRandom demo_env = []" "ceNow demo_env = 100" "cvObservable (ceCoverage demo_env) = AllKinds"
    by (simp_all add: demo_env_def)
  have "createSession demo_env p (demo_ask ws) demo_control =
      open_session demo_env p (demo_ask ws) ''s-t-'' ws an sealed w demo_control"
    using sl g by (simp add: createSession_def demo_checks [OF assms(1,2)] an named env del: NewSessionID_def)
  moreover have "envSessionID sealed = ''s-t-''" "envSealed sealed"
    using sealed_session(1,3) [OF g, simplified, OF sl] by (simp_all add: envelope_params_def)
  ultimately show ?thesis using that sealed_fields(1) [OF sl] by blast
qed

text \<open>The lint alone decides how a creation for a workspace ends.\<close>

definition demo_envelope :: "peer \<Rightarrow> string \<Rightarrow> analysis \<Rightarrow> envelope" where
  "demo_envelope p ws an = generated (generator_limits (ctConfig demo_control)) [] 100 an
     (Some (NewCatalog AllKinds)) (envelope_params demo_env p ''s-t-'' ws (ctConfig demo_control))"

lemma demo_outcome:
  assumes "clean_path ws = ws" "is_abs ws" "ws \<noteq> ''/''"
  shows "(\<And>an. BlockingIssues (LintEnvelope (demo_envelope p ws an)) = []) \<Longrightarrow>
      \<exists>v c'. createSession demo_env p (demo_ask ws) demo_control = (Inr v, c')"
    and "(\<And>an. BlockingIssues (LintEnvelope (demo_envelope p ws an)) \<noteq> []) \<Longrightarrow>
      \<exists>f m c'. createSession demo_env p (demo_ask ws) demo_control = (Inl (ManagerError (ErrEnvelopeInadmissible f m)), c')"
proof -
  obtain an sealed ns where
    run: "createSession demo_env p (demo_ask ws) demo_control =
       open_session demo_env p (demo_ask ws) ''s-t-'' ws an sealed ns demo_control"
    and lint: "LintEnvelope sealed = LintEnvelope (demo_envelope p ws an)"
    and id: "envSessionID sealed = ''s-t-''" "envSealed sealed"
    unfolding demo_envelope_def by (rule demo_creation [OF assms])
  have fresh: "map_of (mgSessions (dmManager (ctDaemon demo_control))) ''s-t-'' = None"
    using demo_running_session by (auto simp: demo_control_def)
  obtain rec where rec: "fresh_record demo_env (demo_ask ws) ''s-t-'' sealed demo_control rec"
    "Create \<lparr>crEnvelope = Some sealed, crPrompt = inRawPrompt (anRecord an), crWorkspaceRoot = ws,
       crMode = Restrict (ccDefaultMode (ctConfig demo_control)) (csMode (demo_ask ws)),
       crAgentIdentity = csAgentIdentity (demo_ask ws)\<rparr>
       (ceNow demo_env) (dmManager (ctDaemon demo_control)) =
     (Inr (mdSession rec), store ''s-t-'' rec (dmManager (ctDaemon demo_control)))"
    by (rule open_session_fresh [OF fresh id(1)]) simp
  show "\<exists>v c'. createSession demo_env p (demo_ask ws) demo_control = (Inr v, c')"
    if "\<And>an. BlockingIssues (LintEnvelope (demo_envelope p ws an)) = []"
    proof -
    have clean: "BlockingIssues (LintEnvelope sealed) = []" using that lint by simp
    show ?thesis
    proof (rule open_session_opened [OF rec clean id(2), of p ns])
      fix rec' v
      assume "open_session demo_env p (demo_ask ws) ''s-t-'' ws an sealed ns demo_control =
        (Inr v, registered p ''s-t-'' rec' demo_control)"
      then show ?thesis using run by simp
    qed
  qed
  show "\<exists>f m c'. createSession demo_env p (demo_ask ws) demo_control = (Inl (ManagerError (ErrEnvelopeInadmissible f m)), c')"
    if blocked: "\<And>an. BlockingIssues (LintEnvelope (demo_envelope p ws an)) \<noteq> []"
  proof -
    obtain i "is" where "BlockingIssues (LintEnvelope sealed) = i # is"
      using blocked [of an] lint by (cases "BlockingIssues (LintEnvelope sealed)") simp_all
    from open_session_refused [OF rec this] show ?thesis unfolding run by blast
  qed
qed

end
