(* ===== verification/ControlProps.thy ===== *)
theory ControlProps
  imports ControlSessions
begin

text \<open>The properties of the control protocol.\<close>

text \<open>C34: a governed process cannot govern. Whatever an unprivileged caller asks from inside a session, or from a place
  the daemon cannot determine, sessions, approvals, processors, groups and leftovers stay as they are:
  the call adds at most one record, that of its refusal with the caller's own identity, and the count of
  failed writes; and a request that would change something is answered with an error.\<close>

theorem governed_callers_change_nothing:
  assumes "governed_caller env p"
  shows "only_noted p c (snd (control_call env p rq c)) \<and>
    (governs rq \<longrightarrow> (\<exists>err. fst (control_call env p rq c) = Inl err))"
  using governed_call [OF assms] by blast

theorem governed_callers_change_nothing_witness:
  "\<exists>err. fst (control_call demo_env \<lparr>prPID = 77, prUID = 1000\<rparr>
     (MethodApproveEnvelope (Params \<lparr>aeSessionID = ''s-1'', aeApproved = True, aeModifications = [], aeReason = []\<rparr>))
     demo_control) = Inl err"
proof -
  have "governed_caller demo_env \<lparr>prPID = 77, prUID = 1000\<rparr>"
    by (simp add: governed_caller_def peer_root_def demo_env_def)
  from governed_callers_change_nothing [OF this] show ?thesis by (simp add: governs_def)
qed

text \<open>C35: strangers leave a session alone. For a session that has not ended and a caller who is neither root nor its owner,
  every call there is, while nothing else happens, leaves the session's record, owner, open approval
  requests, processor, group calls and queued functions as they were; a request that names the session is
  answered with an error, and no answer mentions the session.\<close>

theorem strangers_leave_a_session_alone:
  assumes "stranger p sid c" "live_session sid (ctDaemon c)" "manager_ok (dmManager (ctDaemon c))"
    and "approvals_ok (dmApprovals (ctDaemon c))" "ceMeanwhile env = (\<lambda>d. d)"
  shows "same_for sid (ctDaemon c) (ctDaemon (snd (control_call env p rq c))) \<and>
    answers_nothing rq sid (fst (control_call env p rq c))"
  using strange_call_alone [of env p sid c rq] assms by (simp add: strange_call_def left_alone_def)

theorem strangers_leave_a_session_alone_witness:
  "same_for ''s-1'' demo_running (ctDaemon (snd (control_call demo_env \<lparr>prPID = 60, prUID = 1001\<rparr>
     (MethodEndSession (Params \<lparr>esSessionID = ''s-1'', esExitCode = 0\<rparr>)) demo_control)))"
proof -
  have "ctDaemon demo_control = demo_running" by (simp add: demo_control_def)
  then show ?thesis
    using strangers_leave_a_session_alone [OF demo_daemon_ok(4,3,1,2,5)] by metis
qed

text \<open>C36: what a created session is bound to. With calls taken one at a time, a session the daemon agrees to create was created on passed telemetry and,
  when it enforces, on telemetry that is not degraded, within the limit of live sessions. It has a fresh
  name, belongs to the caller, runs in the stricter of the configured and the requested mode, waits for
  approval exactly when the manager demands one, and carries the envelope of the reply: named after the
  session, sealed, verified against its digest and without a blocking finding.\<close>

theorem created_sessions_are_bound:
  assumes "createSession env p req c = (Inr v, c')" and "ValidMode (ccDefaultMode (ctConfig c))"
  shows "stPassed (ctSelfTest c) \<and> activeCount c' = activeCount c + 1 \<and>
    activeCount c' \<le> ccMaxConcurrentSessions (ctConfig c) \<and>
    map_of (mgSessions (dmManager (ctDaemon c))) (csrSessionID v) = None \<and>
    map_of (dmSessions (ctDaemon c')) (csrSessionID v) = Some (owned p) \<and>
    (\<exists>rec. map_of (mgSessions (dmManager (ctDaemon c'))) (csrSessionID v) = Some rec \<and>
       ModeRank (sesMode (mdSession rec)) = max (ModeRank (ccDefaultMode (ctConfig c))) (ModeRank (csMode req)) \<and>
       (sesMode (mdSession rec) = ModeEnforce \<longrightarrow> \<not> cvDegraded (ceCoverage env)) \<and>
       csrRequiresApproval v = mgRequireApproval (dmManager (ctDaemon c)) \<and>
       sesState (mdSession rec) = (if csrRequiresApproval v then StateAwaitingApproval else StateReady) \<and>
       csrEnvelope v = sesEnvelope (mdSession rec) \<and> envSessionID (csrEnvelope v) = csrSessionID v \<and>
       envSealed (csrEnvelope v) \<and> Verify_envelope (ceJson env) (ceSha env) (Some (csrEnvelope v)) = None \<and>
       BlockingIssues (LintEnvelope (csrEnvelope v)) = [])"
proof -
  let ?mode = "Restrict (ccDefaultMode (ctConfig c)) (csMode req)"
  have named: "mode_string ?mode \<noteq> []"
    using assms(2) Restrict_rank [of "ccDefaultMode (ctConfig c)" "csMode req"]
    by (intro ModeRank_named) (simp add: ValidMode_def)
  obtain ws where "create_checks env req c = Inr ws"
    using assms(1) by (auto elim: createSession_parts)
  note checks = create_checks_pass [OF this]
  show ?thesis using assms(1)
  proof (cases rule: createSession_registers [of env p req c "Inr v" c', case_names reached taken refused opened])
    case (opened sid rec w)
    then have "\<not> IsTerminal (sesState (mdSession rec))" by (simp add: lifecycle_defs)
    then have "activeCount c' = activeCount c + 1" using opened(1,2) registered_count by simp
    then show ?thesis using opened checks named registered_parts [of p sid rec c] Restrict_rank
      by (auto simp: opened(2))
  qed auto
qed

text \<open>The lint of what the small daemon generates.\<close>

lemma demo_dirs:
  "clean_path ''/home/ada/app'' = ''/home/ada/app''" "is_abs ''/home/ada/app''"
  "clean_path ''/tmp/a['' = ''/tmp/a[''" "is_abs ''/tmp/a[''"
  by (simp_all add: clean_path_def clean_step_def is_abs_def)

lemma demo_lint_plain:
  fixes p :: peer and an :: analysis
  shows "BlockingIssues (LintEnvelope (demo_envelope p ''/home/ada/app'' an)) = []"
proof -
  let ?pm = "envelope_params demo_env p ''s-t-'' ''/home/ada/app'' (ctConfig demo_control)"
  let ?l = "generator_limits (ctConfig demo_control)"
  have pm: "pmWorkspaceRoot ?pm = ''/home/ada/app''" "lmMaxGrants ?l \<le> 0" "requester_home ?pm = []"
    by (simp_all add: envelope_params_def generator_limits_def demo_control_def requester_home_def demo_env_def)
  have dir: "plain_dir ''/home/ada/app''" using project_dirs(1) by (simp add: project_def)
  obtain w where g: "Generate_envelope ?l [] 100 (Some an) (Some (NewCatalog AllKinds)) ?pm =
      Inr \<lparr>gnEnvelope = generated ?l [] 100 an (Some (NewCatalog AllKinds)) ?pm, gnWarnings = w\<rparr>"
    using Generate_total [of ?pm ?l "[]" 100 an "Some (NewCatalog AllKinds)"] pm demo_dirs(1,2) by auto
  from generated_envelopes_are_admitted [OF g] pm dir show ?thesis by (simp add: demo_envelope_def)
qed

lemma demo_lint_bracket:
  fixes p :: peer and an :: analysis
  shows "BlockingIssues (LintEnvelope (demo_envelope p ''/tmp/a['' an)) \<noteq> []"
proof -
  let ?pm = "envelope_params demo_env p ''s-t-'' ''/tmp/a['' (ctConfig demo_control)"
  let ?d = "new_grant KindFileWrite (paths_sel (persistence_points an (empty_builder ?pm ''/tmp/a['')))
      ''Hooks, CI workflows and shell startup files are persistence points.''"
  have ws: "clean_path (pmWorkspaceRoot ?pm) = ''/tmp/a[''"
    by (simp add: envelope_params_def demo_dirs)
  have "ValidatePattern ''/tmp/a[/.git/hooks/**'' \<noteq> None" by code_simp
  then have "\<not> readable_denial ?d"
    by (auto simp: readable_denial_def paths_sel_def persistence_points_def empty_builder_def)
  moreover have "observed_by (Some (NewCatalog AllKinds)) KindFileWrite"
    by code_simp
  then have "?d \<in> set (Denials (generated (generator_limits (ctConfig demo_control)) [] 100 an
      (Some (NewCatalog AllKinds)) ?pm))"
    by (simp add: generated_denials ws standing_denials_def)
  ultimately show ?thesis unfolding admission_iff list_all_iff demo_envelope_def by blast
qed

lemma demo_created:
  obtains v c' where "createSession demo_env \<lparr>prPID = 41, prUID = 1000\<rparr> (demo_ask ''/home/ada/app'') demo_control = (Inr v, c')"
  using demo_outcome(1) [OF demo_dirs(1,2) _ demo_lint_plain] by fastforce

theorem created_sessions_are_bound_witness:
  "\<exists>v c'. createSession demo_env \<lparr>prPID = 41, prUID = 1000\<rparr> (demo_ask ''/home/ada/app'') demo_control = (Inr v, c') \<and>
     activeCount c' \<le> 4"
proof -
  obtain v c' where v: "createSession demo_env \<lparr>prPID = 41, prUID = 1000\<rparr> (demo_ask ''/home/ada/app'') demo_control = (Inr v, c')"
    by (rule demo_created)
  have "ValidMode (ccDefaultMode (ctConfig demo_control))" "ccMaxConcurrentSessions (ctConfig demo_control) = 4"
    by (simp_all add: demo_control_def ValidMode_def ModeRank_def)
  then show ?thesis using created_sessions_are_bound [OF v] v by auto
qed

text \<open>C38: a creation the lint refuses keeps its slot. When the manager will not seal the session it was just given, the
  caller gets an error without a session in it, and the session stays: pending, owned by the caller, and
  counted against the limit of live sessions as if it had been created.\<close>

theorem refused_creations_keep_their_slot:
  assumes "createSession env p req c = (Inl (ManagerError (ErrEnvelopeInadmissible f m)), c')"
  shows "activeCount c' = activeCount c + 1 \<and>
    (\<exists>sid rec. map_of (mgSessions (dmManager (ctDaemon c))) sid = None \<and>
       map_of (mgSessions (dmManager (ctDaemon c'))) sid = Some rec \<and> sesState (mdSession rec) = StatePending \<and>
       map_of (dmSessions (ctDaemon c')) sid = Some (owned p))"
  using assms
proof (cases rule: createSession_registers
    [of env p req c "Inl (ManagerError (ErrEnvelopeInadmissible f m))" c', case_names reached taken refused opened])
  case (refused sid rec i)
  then have "activeCount c' = activeCount c + 1" using registered_count [OF refused(1)] by (simp add: lifecycle_defs)
  then show ?thesis using refused(1,2) registered_parts [of p sid rec c] unfolding refused(3) by blast
qed auto

theorem refused_creations_keep_their_slot_witness:
  "\<exists>f m c'. createSession demo_env \<lparr>prPID = 41, prUID = 1000\<rparr> (demo_ask ''/tmp/a['') demo_control =
     (Inl (ManagerError (ErrEnvelopeInadmissible f m)), c') \<and> activeCount c' = 2"
proof -
  have "\<exists>f m c'. createSession demo_env \<lparr>prPID = 41, prUID = 1000\<rparr> (demo_ask ''/tmp/a['') demo_control =
      (Inl (ManagerError (ErrEnvelopeInadmissible f m)), c')"
    using demo_outcome(2) [OF demo_dirs(3,4) _ demo_lint_bracket] by auto
  then show ?thesis using refused_creations_keep_their_slot demo_count by (metis one_add_one)
qed

text \<open>A start that succeeds, taken apart.\<close>

lemma start_fail_reply [simp]: "start_fail env sid stage err c \<noteq> (Inr v, c')"
  by (auto simp: start_fail_def Let_def split: prod.splits)

lemma startSession_steps:
  assumes "startSession env p req c = (Inr v, c')"
  obtains cg rec rec' where "start_checks env p req c = (None, c)"
    "ceCreateGroup env (ssSessionID req) = Inr cg" "ceAdopt env (ssSessionID req) (ssRootPID req) = None"
    "ceAttachCgroup env (ssSessionID req) (ssRootPID req) = None"
    "map_of (mgSessions (dmManager (ctDaemon c))) (ssSessionID req) = Some rec"
    "start_body (ssRootPID req) (ceNow env) rec = Inr rec'"
    "map_of (mgSessions (dmManager (ctDaemon c'))) (ssSessionID req) = Some rec'"
    "\<exists>info. map_of (dmSessions (ctDaemon c)) (ssSessionID req) = Some info \<and>
       map_of (dmSessions (ctDaemon c')) (ssSessionID req) = Some (info\<lparr>siGroup := True\<rparr>) \<and>
       ctRecords c' = ctRecords c @
         [RecStart (sessionStart env (ctConfig c) (view rec') (prUID (siOwner info)) cg)]"
proof -
  let ?sid = "ssSessionID req" and ?pid = "ssRootPID req"
  obtain err c0 where checks: "start_checks env p req c = (err, c0)" by fastforce
  have ok: "err = None" using assms checks by (cases err) (simp_all add: startSession_def)
  note pass = start_checks_pass [OF checks [unfolded ok]]
  obtain cg where cg: "ceCreateGroup env ?sid = Inr cg"
    using assms checks ok by (cases "ceCreateGroup env ?sid") (auto simp: startSession_def)
  have adopt: "ceAdopt env ?sid ?pid = None"
    using assms checks ok cg by (cases "ceAdopt env ?sid ?pid") (simp_all add: startSession_def)
  have attach: "ceAttachCgroup env ?sid ?pid = None"
    using assms checks ok cg adopt
    by (cases "ceAttachCgroup env ?sid ?pid") (simp_all add: startSession_def Let_def)
  obtain info where info: "map_of (dmSessions (ctDaemon c)) ?sid = Some info"
    using pass(2) by (auto simp: authorize_def split: option.splits)
  show ?thesis
  proof (cases rule: transition_cases [of ActionStart ?sid "start_body ?pid (ceNow env)" "dmManager (ctDaemon c)"])
    case (refused e)
    then have "Start ?sid ?pid (ceNow env) (dmManager (ctDaemon c)) = (Some e, dmManager (ctDaemon c))"
      by (simp add: Start_def)
    then show ?thesis using assms checks ok pass(1) cg adopt attach
      by (simp add: startSession_def Let_def)
  next
    case (taken rec rec')
    let ?m = "store ?sid rec' (dmManager (ctDaemon c))"
    have st: "Start ?sid ?pid (ceNow env) (dmManager (ctDaemon c)) = (None, ?m)" using taken(4) by (simp add: Start_def)
    let ?mark = "\<lambda>d. d\<lparr>dmSessions := map (\<lambda>(k, info). (k, if k = ?sid then info\<lparr>siGroup := True\<rparr> else info)) (dmSessions d)\<rparr>"
    let ?c2 = "on_daemon (\<lambda>d. d\<lparr>dmManager := ?m\<rparr>) (on_daemon ?mark c)"
    have got: "Get ?sid ?m = Inr (view rec')" by (simp add: Get_def lookup_def)
    have here: "map_of (dmSessions (ctDaemon ?c2)) ?sid = Some (info\<lparr>siGroup := True\<rparr>)"
      using info by (simp add: map_of_mark)
    let ?r = "RecStart (sessionStart env (ctConfig c) (view rec') (prUID (siOwner info)) cg)"
    have "c' = record_control env ?r ?c2"
      using assms checks ok pass(1) cg adopt attach st got here
      by (simp add: startSession_def Let_def)
    moreover have "map_of (mgSessions (dmManager (ctDaemon (record_control env r x)))) k =
        map_of (mgSessions (dmManager (ctDaemon x))) k" "map_of (dmSessions (ctDaemon (record_control env r x))) k =
        map_of (dmSessions (ctDaemon x)) k" for r x k
      using record_control_same [of k x env r] by (simp_all add: same_for_def)
    ultimately have "map_of (mgSessions (dmManager (ctDaemon c'))) ?sid = Some rec'"
      "map_of (dmSessions (ctDaemon c')) ?sid = Some (info\<lparr>siGroup := True\<rparr>)" "ctRecords c' = ctRecords c @ [?r]"
      using here by simp_all
    then show ?thesis using that [of cg rec rec'] checks ok pass(1) cg adopt attach taken(1,3) info by blast
  qed
qed

text \<open>C37: what a start adopts. A session that is started was ready, of the caller's own or started by root, and carried an
  envelope that verifies; the process it adopts is a child of the caller, of the same user unless root
  asks, and in no session's group. Afterwards the process is in a group, observed, the session is active
  with it as its root and the same envelope, and the trail's last record announces the session with that
  envelope, its owner and the group.\<close>

theorem started_children_are_the_callers:
  assumes "startSession env p req c = (Inr v, c')"
  shows "\<exists>s holder uid info s'. Get (ssSessionID req) (dmManager (ctDaemon c)) = Inr s \<and> sesState s = StateReady \<and>
    Verify_envelope (ceJson env) (ceSha env) (Some (sesEnvelope s)) = None \<and>
    map_of (dmSessions (ctDaemon c)) (ssSessionID req) = Some info \<and>
    (peer_root p \<or> prUID p = prUID (siOwner info)) \<and>
    ceProcess env (ssRootPID req) = Inr (prPID p, uid) \<and> (peer_root p \<or> uid = prUID p) \<and>
    ceGoverned env (ssRootPID req) = Inr (holder, False) \<and>
    ceAdopt env (ssSessionID req) (ssRootPID req) = None \<and>
    ceAttachCgroup env (ssSessionID req) (ssRootPID req) = None \<and>
    Get (ssSessionID req) (dmManager (ctDaemon c')) = Inr s' \<and> sesState s' = StateActive \<and>
    sesRootPID s' = ssRootPID req \<and> 0 < ssRootPID req \<and> sesEnvelope s' = sesEnvelope s \<and>
    (\<exists>r. ctRecords c' = ctRecords c @ [RecStart r] \<and> snSessionID r = sesID s \<and> snEnvelope r = sesEnvelope s \<and>
       snOwnerUID r = prUID (siOwner info) \<and> Inr (snCgroupID r) = ceCreateGroup env (ssSessionID req))"
proof -
  let ?sid = "ssSessionID req"
  obtain cg rec rec' where checks: "start_checks env p req c = (None, c)" and cg: "ceCreateGroup env ?sid = Inr cg"
    and went: "ceAdopt env ?sid (ssRootPID req) = None" "ceAttachCgroup env ?sid (ssRootPID req) = None"
    and rec: "map_of (mgSessions (dmManager (ctDaemon c))) ?sid = Some rec"
    and body: "start_body (ssRootPID req) (ceNow env) rec = Inr rec'"
    and rec': "map_of (mgSessions (dmManager (ctDaemon c'))) ?sid = Some rec'"
    and told: "\<exists>info. map_of (dmSessions (ctDaemon c)) ?sid = Some info \<and>
       map_of (dmSessions (ctDaemon c')) ?sid = Some (info\<lparr>siGroup := True\<rparr>) \<and>
       ctRecords c' = ctRecords c @ [RecStart (sessionStart env (ctConfig c) (view rec') (prUID (siOwner info)) cg)]"
    by (rule startSession_steps [OF assms])
  note pass = start_checks_pass [OF checks]
  obtain info where info: "map_of (dmSessions (ctDaemon c)) ?sid = Some info"
    "ctRecords c' = ctRecords c @ [RecStart (sessionStart env (ctConfig c) (view rec') (prUID (siOwner info)) cg)]"
    using told by blast
  have mine: "peer_root p \<or> prUID p = prUID (siOwner info)"
    using pass(2) info(1) by (simp add: authorize_def split: if_splits)
  have fields: "sesState (view rec') = StateActive" "sesRootPID (view rec') = ssRootPID req" "0 < ssRootPID req"
    "sesEnvelope (view rec') = sesEnvelope (view rec)" "sesID (view rec') = sesID (view rec)"
    using body by (auto simp: start_body_def set_session_def view_def Let_def split: if_splits)
  have got: "Get ?sid (dmManager (ctDaemon c)) = Inr (view rec)" "Get ?sid (dmManager (ctDaemon c')) = Inr (view rec')"
    using rec rec' by (simp_all add: Get_def lookup_def)
  show ?thesis using pass(3) went mine fields info cg got by (auto simp: sessionStart_def)
qed

text \<open>The session the small daemon created, started.\<close>

lemma demo_start:
  assumes "map_of (mgSessions (dmManager (ctDaemon c))) sid = Some rec" "sesState (mdSession rec) = StateReady"
    and "Verify_envelope (ceJson demo_env) (ceSha demo_env) (Some (sesEnvelope (mdSession rec))) = None"
    and "envSealed (sesEnvelope (mdSession rec))" "map_of (dmSessions (ctDaemon c)) sid = Some (owned p)" "prPID p = 41"
    "prUID p = 1000"
  shows "\<exists>v c'. startSession demo_env p \<lparr>ssSessionID = sid, ssRootPID = 50\<rparr> c = (Inr v, c')"
proof -
  have env: "ceProcess demo_env pid = Inr (41, 1000)" "ceGoverned demo_env pid = Inr (''s-1'', pid = 77)"
    "ceCreateGroup demo_env sid = Inr 9" "ceAdopt demo_env sid pid = None" "ceAttachCgroup demo_env sid pid = None" for pid
    by (simp_all add: demo_env_def)
  have v: "sesState (view rec) = StateReady" "sesEnvelope (view rec) = sesEnvelope (mdSession rec)"
    using assms(2) by (simp_all add: view_def Let_def)
  have checks: "start_checks demo_env p \<lparr>ssSessionID = sid, ssRootPID = 50\<rparr> c = (None, c)"
    using assms v by (simp add: start_checks_def authorize_def Get_def lookup_def env owned_def Let_def)
  obtain e m where st: "Start sid 50 (ceNow demo_env) (dmManager (ctDaemon c)) = (e, m)" by fastforce
  have "e = None"
    using st assms(1,2,4) by (auto simp: Start_def transition_def lookup_def check_def lifecycle_defs start_body_def)
  then show ?thesis using st
    by (cases "Get sid m"; cases "map_of (dmSessions (ctDaemon c)) sid")
      (simp_all add: startSession_def checks env Let_def map_of_mark)
qed

lemma demo_unattended: "\<not> mgRequireApproval (dmManager (ctDaemon demo_control))"
proof -
  have "mgRequireApproval (snd (transition a sid body m)) = mgRequireApproval m" for a sid body m
    by (cases rule: transition_cases [of a sid body m]) simp_all
  moreover have "mgRequireApproval (snd (Create demo_create 1 m)) = mgRequireApproval m" for m
    by (simp add: Create_def demo_create_def Let_def)
  ultimately show ?thesis
    by (simp add: demo_control_def demo_running_def manage_def Start_def Seal_def demo_daemon_def new_daemon_def
        NewManager_def)
qed

theorem started_children_are_the_callers_witness:
  "\<exists>sid c v c' s'. startSession demo_env \<lparr>prPID = 41, prUID = 1000\<rparr> \<lparr>ssSessionID = sid, ssRootPID = 50\<rparr> c = (Inr v, c') \<and>
     Get sid (dmManager (ctDaemon c')) = Inr s' \<and> sesState s' = StateActive"
proof -
  let ?p = "\<lparr>prPID = 41, prUID = 1000\<rparr>"
  obtain w c where "createSession demo_env ?p (demo_ask ''/home/ada/app'') demo_control = (Inr w, c)" by (rule demo_created)
  then have "\<exists>sid v c'. startSession demo_env ?p \<lparr>ssSessionID = sid, ssRootPID = 50\<rparr> c = (Inr v, c')"
  proof (cases rule: createSession_registers [of demo_env ?p _ demo_control "Inr w" c, case_names reached taken refused opened])
    case (opened sid rec v)
    then show ?thesis using opened demo_unattended demo_start [of c sid rec ?p] registered_parts [of ?p sid rec demo_control] by auto
  qed auto
  then obtain sid v c' where "startSession demo_env ?p \<lparr>ssSessionID = sid, ssRootPID = 50\<rparr> c = (Inr v, c')" by blast
  note run = this
  obtain s' where "Get sid (dmManager (ctDaemon c')) = Inr s'" "sesState s' = StateActive"
    using started_children_are_the_callers [OF run] by auto
  then show ?thesis using run by blast
qed

end
