(* ===== verification/Spec2Isabelle.thy ===== *)
theory Spec2Isabelle
  imports Capability Path GoNet GoText Network Matcher Precedence Ece Event Resolve Validate Policy
    Ring Assoc Decision SessionState SessionLaws Pipeline PipelineLaws Lint Manager ManagerLaws
    Approvals ApprovalLaws Dispatch DispatchLaws Enforce EnforceLaws DaemonRuns
    GoFloat Sensitivity SensitivityLaws Risk RiskLaws RiskScores
    GoStrings Intent IntentLaws Generate GenerateLaws SealLaws Probes ProbeLaws
    PolicyLint PolicyLintLaws Abi Decode Tracker Enrich Synth SynthLaws Collector
    Control ControlLaws ControlCalls ControlSessions ControlProps
begin

text \<open>
  ALLSEER governs a coding agent while it runs. A probe in the kernel reports what the agent's
  processes do; each report is decoded into an event, resolved into an observation, checked
  against the envelope of capabilities the task was given, scored for risk, and turned by policy
  into an action. The session's tracking state counts what was done and is what budgets are checked
  against; the session manager decides when an agent may run at all; a request for approval freezes
  it until its owner answers.

  Theories and what they model. Names of definitions are the source's.

  \<^item> \<open>Prelude\<close>: Go's errors, formatted messages, floating-point comparisons and byte strings.
    \<open>Ring\<close>: an array written round and round, and the interface \<open>bounded_log\<close> its readers rely
    on, interpreted for the history of a session and for the latency window of a pipeline.
    \<open>Assoc\<close>: association lists as registries.
  \<^item> \<open>Capability\<close> (\<open>pkg/capability\<close>): kinds, domains, selectors, grants, observations,
    the descriptor table row by row, and the catalog with its observable set.
  \<^item> \<open>Path\<close> (\<open>internal/validator/path.go\<close>): glob patterns over resolved paths, compiled pattern
    sets, and workspace containment with its memoized resolver.
  \<^item> \<open>GoNet\<close>, \<open>GoText\<close>: what the sources use of \<open>net\<close>, \<open>net/netip\<close>, \<open>strconv\<close> and of
    Unicode-aware \<open>strings\<close> functions.
  \<^item> \<open>Network\<close> (\<open>internal/validator/network.go\<close>): host patterns and ports.
  \<^item> \<open>Matcher\<close> (\<open>internal/validator/matcher.go\<close>): a grant against an observation, three-valued.
  \<^item> \<open>Precedence\<close> (\<open>internal/validator/precedence.go\<close>): specificity and the governing entry.
  \<^item> \<open>Ece\<close> (\<open>pkg/ece\<close>), \<open>Event\<close> (\<open>pkg/event\<close>): the envelope and the event.
  \<^item> \<open>Lint\<close> (\<open>internal/validator/lint.go\<close>): what is refused or reported before an envelope is
    admitted, and that a refusal is exactly an unknown kind or an unreadable denial.
  \<^item> \<open>Resolve\<close> (\<open>internal/telemetry/resolve\<close>): from events to observations.
  \<^item> \<open>Validate\<close> (\<open>internal/validator/validate.go\<close>): the verdict on one event, and session
    budgets.
  \<^item> \<open>Policy\<close> (\<open>internal/policy/evaluate.go\<close>): rule compilation, reloading and first-match
    evaluation.
  \<^item> \<open>PolicyLint\<close>, \<open>PolicyLintLaws\<close> (\<open>internal/policy/lint.go\<close>, \<open>load.go\<close>): what is reported of a rule set before
    it runs, that a finding is a proof about the engine, and the two ways in which it is not.
  \<^item> \<open>Decision\<close> (\<open>pkg/decision\<close>): decisions, approval requests and audit records.
  \<^item> \<open>SessionState\<close>, \<open>SessionLaws\<close> (\<open>internal/session/state.go\<close>): the counters, budgets, novelty
    set and history one session keeps; every run of recordings is well formed, the history is the
    last events, and a target is familiar only when it was recorded.
  \<^item> \<open>Pipeline\<close>, \<open>PipelineLaws\<close> (\<open>internal/pipeline\<close>): stages, failure handling, the decision and
    its commit. The composition with \<open>Validate\<close> and \<open>SessionState\<close> never overruns a grant's budget;
    a failed stage never allows; every event gets a decision.
  \<^item> \<open>Manager\<close>, \<open>ManagerLaws\<close> (\<open>internal/session/manager.go\<close>): the lifecycle as guarded
    transitions and the step relation \<open>manager_step\<close>; what holds in every reachable manager.
  \<^item> \<open>Approvals\<close>, \<open>ApprovalLaws\<close> (\<open>internal/daemon/approvals.go\<close>): open requests and what an
    answer does, under every interleaving of operations.
  \<^item> \<open>Dispatch\<close>, \<open>DispatchLaws\<close> (\<open>internal/session/dispatch.go\<close>): routing of one stream to the
    processors of many sessions. Sessions are served apart; over the pipelines of the daemon, which
    interpret the interface \<open>event_processor\<close>, every event of a running session is decided.
  \<^item> \<open>Enforce\<close>, \<open>EnforceLaws\<close>, \<open>DaemonRuns\<close> (\<open>internal/daemon/enforce.go\<close>, \<open>daemon.go\<close>): the
    daemon's state, containment, the control queue and the step relation of its goroutines. A
    suspended session is frozen. A session with an open request stays so exactly when an answer takes
    effect at once and a reaction is not interrupted: the daemon as written guarantees neither.

  \<^item> \<open>Sensitivity\<close>, \<open>SensitivityLaws\<close> (\<open>internal/risk/sensitivity.go\<close>, \<open>host.go\<close>): sensitivity lists from
    admission to the oracle built over them; both of its sections interpret the interface
    \<open>graded_list\<close>, whose laws say that the first rule that applies is one of the highest grade.
  \<^item> \<open>GoFloat\<close>: float64 rounding, so that a score is shown to be the exact sum of its points.
  \<^item> \<open>Risk\<close>, \<open>RiskLaws\<close>, \<open>RiskScores\<close> (\<open>internal/risk\<close>): the twelve scorers, aggregation and the
    engine. Each scorer interprets the contract \<open>scorer_contract\<close> (its name, its most points, points
    withheld from what the envelope covers); an engine's properties follow from its scorers'
    contracts, and with \<open>Validate\<close>, \<open>SessionState\<close> and the lists they become statements on scores.

  \<^item> \<open>GoStrings\<close>: UTF-8 and what the sources use of \<open>strings\<close> beyond \<open>GoText\<close>.
  \<^item> \<open>Intent\<close>, \<open>IntentLaws\<close> (\<open>internal/intent\<close>): the rule analyzer with its ordered tables and the
    sanitizer. An analysis without a stated doubt is one the table settles; what is analyzed is what a
    person sees.
  \<^item> \<open>Generate\<close>, \<open>GenerateLaws\<close>, \<open>SealLaws\<close> (\<open>internal/envelope\<close>): from an analysis to an envelope, the
    seal, and the composition with \<open>Validate\<close> and \<open>Lint\<close>: what stays denied whatever the prompt, that
    prompts of one task get the same files, that network grants name their hosts; and that a
    workspace named with a bracket loses its denials.
  \<^item> \<open>Probes\<close>, \<open>ProbeLaws\<close> (\<open>internal/telemetry/probes.go\<close>, \<open>degrade.go\<close>): the table of kernel programs and
    its families, coverage, and the search for the families a kernel refuses; the kernel is the
    parameter \<open>load\<close>.
  \<^item> \<open>Abi\<close>, \<open>Decode\<close> (\<open>internal/telemetry/abi\<close>, \<open>decode.go\<close>, \<open>errno.go\<close>): a kernel record byte for byte,
    and the event it is decoded to. \<open>Tracker\<close> (\<open>tracker.go\<close>): the processes of a session, with what holds
    in every reachable tracker. \<open>Enrich\<close> (\<open>enrich.go\<close>): the path of an event resolved through symbolic
    links, over the answers of the file system as a parameter; a path given to an open that succeeded
    is confirmed by the kernel, by the inode, or by a name that cannot be a link.
    \<open>Collector\<close> (\<open>collector.go\<close>): sessions and records in the live collector, over the three; the numbers
    given out to a session are those of the events delivered and of the losses reported with them.
    \<open>Synth\<close>, \<open>SynthLaws\<close> (\<open>internal/telemetry/synth\<close>): records written from a description, and that decoding
    one gives back the description.
  \<^item> \<open>Control\<close> (\<open>internal/daemon/rpc.go\<close>, \<open>leftovers.go\<close>, \<open>records.go\<close>): the calls of the control socket
    over the daemon of \<open>Enforce\<close>; kernel, file system and audit answers are in \<open>control_env\<close>.
    \<open>ControlLaws\<close>: what each handler leaves alone of a session that is not the caller's.
    \<open>ControlCalls\<close>: whole calls of strangers and of governed processes. \<open>ControlSessions\<close>: creation, from the
    prompt through \<open>Intent\<close>, \<open>Generate\<close> and \<open>Manager\<close>. \<open>ControlProps\<close>: what follows for users.

  Machine integers. Counters the sources keep as \<open>uint64\<close> are words and wrap; \<open>int64\<close> sums that can
  be large wrap through \<open>signed64\<close>; counters incremented once per event are unbounded integers, as
  2 ^ 63 events are out of reach. Times are nanoseconds since year 1, zero being Go's zero time.

  Bounds and termination. Every loop is structural, or \<open>function\<close> with a measure; the segment matcher
  of \<open>Path\<close> is a loop with backtracking whose termination is a theorem. No definition uses fuel.

  Concurrency. An operation under a lock is one step. What a goroutine does after unlocking is
  returned as a list of effects (\<open>Approvals\<close>) that \<open>DaemonRuns\<close> interleaves with everything else, and the two
  critical sections of \<open>react\<close>, which suspends under one lock and opens the request under another, are
  two steps there; the flags \<open>at_once\<close> and \<open>whole\<close> of \<open>daemon_step\<close> leave either interleaving out. The other
  work of the dispatch loop (an event up to its reaction, the end of a session, the reaping of orphans) is
  one step each: of what can come between its parts only a resumption touches the same session, and it
  commutes with them or is refused. Atomics of a single writer are plain
  fields. A control call is one step: what other goroutines do while it waits for the loop is the
  parameter \<open>ceMeanwhile\<close>, and the steps between its own locks are not interleaved, so that two
  creations do not pass the check of the session limit together here, as they can in the code.

  Not modelled: JSON encodings, logging, contexts and cancellation (but for a caller that leaves
  while it waits for the loop), the tickers, the two streaming methods, the cgroups themselves (a
  session's group answers as a parameter says), the learned risk baseline (no implementation), the loader
  of telemetry, and everything that is interaction with the kernel, the file system or sockets.
\<close>

end
